(* ===== verification/Prelude.thy ===== *)
theory Prelude
  imports Main "HOL-Library.Product_Lexorder" "HOL-Library.Char_ord" "HOL-Library.List_Lexorder"
begin

section \<open>Prelude: types, SQL tables and generic lemmas\<close>

text \<open>
  The vocabulary every component theory shares.

  \<^item> Identifiers and instants. A \<open>uuid.UUID\<close> is an element of \<^typ>\<open>nat\<close> (only equality, the
    order used by keyset pagination and the textual form are ever used); a \<open>time.Time\<close> is
    its number of nanoseconds since the Unix epoch and a \<open>time.Duration\<close> a number of
    nanoseconds, both of type \<^typ>\<open>int\<close>.
  \<^item> A Go \<open>string\<close> or \<open>[]byte\<close> is a \<^typ>\<open>string\<close>: a HOL character is exactly one byte.
  \<^item> A PostgreSQL table is the list of its rows. The four statement forms the stores use
    are \<open>sql_update\<close>, \<open>sql_affected\<close>, \<open>sql_delete\<close> and \<open>sql_first\<close>, with the lemmas the store
    proofs rest on collected in \<open>sql_simps\<close>.
  \<^item> Hexadecimal text as \<open>encoding/hex\<close> produces it, and decimal text as \<open>%d\<close> does.
\<close>

named_theorems sql_simps \<open>how SELECT sees UPDATE, DELETE and INSERT\<close>

type_synonym uuid = nat
type_synonym gotime = int
type_synonym duration = int
type_synonym bytes = string

subsection \<open>Durations\<close>

abbreviation nsMicrosecond :: duration where "nsMicrosecond \<equiv> 1000"
abbreviation nsSecond :: duration where "nsSecond \<equiv> 1000000000"
abbreviation nsMinute :: duration where "nsMinute \<equiv> 60000000000"
abbreviation nsHour :: duration where "nsHour \<equiv> 3600000000000"
abbreviation nsDay :: duration where "nsDay \<equiv> 86400000000000"

text \<open>
  \<open>Time.Sub\<close>, \<open>time.Until\<close> and \<open>time.Since\<close> return the difference of two instants as a 64-bit
  duration, saturated at the ends of its range.
\<close>

definition time_Sub :: "gotime \<Rightarrow> gotime \<Rightarrow> duration" where
  "time_Sub t u = max (- (2 ^ 63)) (min (2 ^ 63 - 1) (t - u))"

lemma time_Sub_sign:
  "0 < time_Sub t u \<longleftrightarrow> u < t" "time_Sub t u \<le> 0 \<longleftrightarrow> t \<le> u"
  by (auto simp: time_Sub_def max_def min_def)

lemma time_Sub_exact:
  "- (2 ^ 63) \<le> t - u \<Longrightarrow> t - u < 2 ^ 63 \<Longrightarrow> time_Sub t u = t - u"
  by (simp add: time_Sub_def)

lemma ceil_div_bounds:
  fixes r d :: int
  assumes "0 < d" and "q = (if r mod d > 0 then r div d + 1 else r div d)"
  shows "(q - 1) * d < r \<and> r \<le> q * d"
proof -
  have "r = r div d * d + r mod d" and "0 \<le> r mod d" and "r mod d < d"
    using assms(1) by simp_all
  then obtain a m where am: "r div d = a" "r mod d = m" "r = a * d + m" "0 \<le> m" "m < d"
    by blast
  have q: "q = (if m > 0 then a + 1 else a)" using assms(2) by (simp only: am(1,2))
  show ?thesis unfolding q am(3) using am(4,5) by (simp add: algebra_simps)
qed

subsection \<open>Options as SQL NULLs\<close>

definition coalesce :: "'a option \<Rightarrow> 'a \<Rightarrow> 'a" where
  "coalesce x d = (case x of None \<Rightarrow> d | Some v \<Rightarrow> v)"

lemma coalesce_simps [simp]: "coalesce None d = d" "coalesce (Some v) d = v"
  by (simp_all add: coalesce_def)

subsection \<open>SQL statements over a table\<close>

definition sql_update :: "('r \<Rightarrow> bool) \<Rightarrow> ('r \<Rightarrow> 'r) \<Rightarrow> 'r list \<Rightarrow> 'r list" where
  "sql_update P f t = map (\<lambda>r. if P r then f r else r) t"

definition sql_affected :: "('r \<Rightarrow> bool) \<Rightarrow> 'r list \<Rightarrow> nat" where
  "sql_affected P t = length (filter P t)"

definition sql_delete :: "('r \<Rightarrow> bool) \<Rightarrow> 'r list \<Rightarrow> 'r list" where
  "sql_delete P t = filter (\<lambda>r. \<not> P r) t"

definition sql_first :: "('r \<Rightarrow> bool) \<Rightarrow> 'r list \<Rightarrow> 'r option" where
  "sql_first P t = find P t"

lemma sql_update_Nil [simp]: "sql_update P f [] = []"
  by (simp add: sql_update_def)

lemma sql_update_Cons [simp]:
  "sql_update P f (r # t) = (if P r then f r else r) # sql_update P f t"
  by (simp add: sql_update_def)

lemma length_sql_update [sql_simps]: "length (sql_update P f t) = length t"
  by (simp add: sql_update_def)

lemma sql_update_append [sql_simps]: "sql_update P f (s @ t) = sql_update P f s @ sql_update P f t"
  by (simp add: sql_update_def)

lemma set_sql_update: "set (sql_update P f t) = (\<lambda>r. if P r then f r else r) ` set t"
  by (simp add: sql_update_def)

lemma map_sql_update_key [sql_simps]:
  assumes "\<And>r. k (f r) = k r"
  shows "map k (sql_update P f t) = map k t"
  by (induction t) (auto simp: assms)

lemma sql_update_absent [sql_simps]:
  assumes "\<And>r. r \<in> set t \<Longrightarrow> \<not> P r"
  shows "sql_update P f t = t"
  using assms by (induction t) auto

lemma sql_affected_zero: "sql_affected P t = 0 \<longleftrightarrow> (\<forall>r \<in> set t. \<not> P r)"
  by (simp add: sql_affected_def filter_empty_conv)

lemma set_sql_delete [sql_simps]: "set (sql_delete P t) = {r \<in> set t. \<not> P r}"
  by (simp add: sql_delete_def)

lemma sql_first_None [sql_simps]: "sql_first P t = None \<longleftrightarrow> (\<forall>r \<in> set t. \<not> P r)"
  by (auto simp: sql_first_def find_None_iff)

lemma sql_first_Some: "sql_first P t = Some r \<Longrightarrow> r \<in> set t \<and> P r"
  by (auto simp: sql_first_def find_Some_iff)

lemma sql_first_append [sql_simps]:
  "sql_first P (s @ t) = (case sql_first P s of None \<Rightarrow> sql_first P t | Some r \<Rightarrow> Some r)"
  by (induction s) (auto simp: sql_first_def)

lemma sql_first_Nil [simp]: "sql_first P [] = None"
  by (simp add: sql_first_def)

lemma sql_first_Cons [simp]: "sql_first P (r # t) = (if P r then Some r else sql_first P t)"
  by (simp add: sql_first_def)

text \<open>
  A row found by its key: an UPDATE that leaves the key columns alone changes what a later
  SELECT by that key returns exactly by applying the assignment.
\<close>

lemma sql_first_update [sql_simps]:
  assumes "\<And>r. k (f r) = k r"
  shows "sql_first (\<lambda>r. k r = x) (sql_update P f t) =
    map_option (\<lambda>r. if P r then f r else r) (sql_first (\<lambda>r. k r = x) t)"
  by (induction t) (auto simp: assms)

lemma sql_first_delete_other [sql_simps]:
  assumes "\<And>r. k r = x \<Longrightarrow> \<not> P r"
  shows "sql_first (\<lambda>r. k r = x) (sql_delete P t) = sql_first (\<lambda>r. k r = x) t"
  using assms by (induction t) (auto simp: sql_delete_def)

lemma sql_first_distinct:
  assumes "distinct (map k t)" and "r \<in> set t"
  shows "sql_first (\<lambda>s. k s = k r) t = Some r"
  using assms by (induction t) (auto simp: image_iff)

lemma last_take_nth: "0 < n \<Longrightarrow> n \<le> length xs \<Longrightarrow> last (take n xs) = xs ! (n - 1)"
  by (subst last_conv_nth) auto

subsection \<open>Text: hexadecimal and decimal\<close>

definition hex_digit :: "nat \<Rightarrow> char" where
  "hex_digit n = ''0123456789abcdef'' ! n"

definition hex_byte :: "char \<Rightarrow> string" where
  "hex_byte c = [hex_digit (of_char c div 16), hex_digit (of_char c mod 16)]"

definition hexEncode :: "bytes \<Rightarrow> string" where
  "hexEncode b = concat (map hex_byte b)"

fun dec_nat :: "nat \<Rightarrow> string" where
  "dec_nat n = (if n < 10 then [char_of (48 + n)] else dec_nat (n div 10) @ [char_of (48 + n mod 10)])"

declare dec_nat.simps [simp del]

definition dec_int :: "int \<Rightarrow> string" where
  "dec_int i = (if i < 0 then ''-'' @ dec_nat (nat (- i)) else dec_nat (nat i))"

lemma of_char_less_256: "(of_char c :: nat) < 256"
  by (metis nat_of_char_less_256)

lemma hex_digit_inj: "a < 16 \<Longrightarrow> b < 16 \<Longrightarrow> hex_digit a = hex_digit b \<Longrightarrow> a = b"
proof -
  have "distinct ''0123456789abcdef''" by simp
  moreover have "length ''0123456789abcdef'' = (16 :: nat)" by simp
  ultimately show "a < 16 \<Longrightarrow> b < 16 \<Longrightarrow> hex_digit a = hex_digit b \<Longrightarrow> a = b"
    unfolding hex_digit_def by (metis nth_eq_iff_index_eq)
qed

lemma hex_byte_inj: "hex_byte c = hex_byte d \<Longrightarrow> c = d"
proof -
  assume eq: "hex_byte c = hex_byte d"
  have lt: "(of_char c :: nat) div 16 < 16" "(of_char d :: nat) div 16 < 16"
    using of_char_less_256 [of c] of_char_less_256 [of d] by (simp_all add: less_mult_imp_div_less)
  from eq have "hex_digit (of_char c div 16) = hex_digit (of_char d div 16)"
    and "hex_digit (of_char c mod 16) = hex_digit (of_char d mod 16)"
    by (simp_all add: hex_byte_def)
  with lt have "(of_char c :: nat) div 16 = of_char d div 16"
    and "(of_char c :: nat) mod 16 = of_char d mod 16"
    by (simp_all add: hex_digit_inj)
  then have "(of_char c :: nat) = of_char d" by (metis div_mult_mod_eq)
  then show "c = d" by simp
qed

lemma hexEncode_inj: "hexEncode a = hexEncode b \<Longrightarrow> a = b"
proof (induction a arbitrary: b)
  case Nil
  then show ?case by (cases b) (auto simp: hexEncode_def hex_byte_def)
next
  case (Cons c a)
  then obtain d b' where b: "b = d # b'"
    by (cases b) (auto simp: hexEncode_def hex_byte_def)
  with Cons.prems have "hex_byte c = hex_byte d" and "hexEncode a = hexEncode b'"
    by (auto simp: hexEncode_def hex_byte_def)
  with Cons.IH b show ?case by (auto dest: hex_byte_inj)
qed

lemma length_hexEncode: "length (hexEncode b) = 2 * length b"
  by (induction b) (auto simp: hexEncode_def hex_byte_def)

lemma dec_nat_nonempty: "dec_nat n \<noteq> []"
  by (subst dec_nat.simps) simp

subsection \<open>UTF-8\<close>

text \<open>
  \<open>rune_len\<close> is the length of the well-formed UTF-8 sequence a string starts with, 0 when it
  does not start with one. PostgreSQL accepts a \<open>text\<close> value only if it is well-formed UTF-8
  without NUL bytes (\<open>pg_text_ok\<close>); \<open>encoding/json\<close> replaces every byte that starts no
  well-formed sequence by U+FFFD (\<open>json_utf8\<close>).
\<close>

definition cont_byte :: "nat \<Rightarrow> bool" where
  "cont_byte n = (128 \<le> n \<and> n \<le> 191)"

fun rune_len :: "string \<Rightarrow> nat" where
  "rune_len [] = 0"
| "rune_len (c # cs) =
     (let b = of_char c :: nat; r = map of_char (take 3 cs) :: nat list in
      if b < 128 then 1
      else if 194 \<le> b \<and> b \<le> 223 then
        (if length r \<ge> 1 \<and> cont_byte (r ! 0) then 2 else 0)
      else if 224 \<le> b \<and> b \<le> 239 then
        (if length r \<ge> 2 \<and> cont_byte (r ! 0) \<and> cont_byte (r ! 1) \<and>
            (b = 224 \<longrightarrow> 160 \<le> r ! 0) \<and> (b = 237 \<longrightarrow> r ! 0 \<le> 159) then 3 else 0)
      else if 240 \<le> b \<and> b \<le> 244 then
        (if length r \<ge> 3 \<and> cont_byte (r ! 0) \<and> cont_byte (r ! 1) \<and> cont_byte (r ! 2) \<and>
            (b = 240 \<longrightarrow> 144 \<le> r ! 0) \<and> (b = 244 \<longrightarrow> r ! 0 \<le> 143) then 4 else 0)
      else 0)"

declare rune_len.simps [simp del]

function utf8_valid :: "string \<Rightarrow> bool" where
  "utf8_valid s =
     (if s = [] then True
      else if rune_len s = 0 then False
      else utf8_valid (drop (rune_len s) s))"
  by pat_completeness auto
termination
  by (relation "measure length") auto

declare utf8_valid.simps [simp del]

function json_utf8 :: "string \<Rightarrow> string" where
  "json_utf8 s =
     (if s = [] then []
      else if rune_len s = 0 then
        [char_of (239 :: nat), char_of (191 :: nat), char_of (189 :: nat)] @ json_utf8 (drop 1 s)
      else take (rune_len s) s @ json_utf8 (drop (rune_len s) s))"
  by pat_completeness auto
termination
  by (relation "measure length") auto

declare json_utf8.simps [simp del]

definition pg_text_ok :: "string \<Rightarrow> bool" where
  "pg_text_ok s = (CHR 0x00 \<notin> set s \<and> utf8_valid s)"

definition ascii_text :: "string \<Rightarrow> bool" where
  "ascii_text s = list_all (\<lambda>c. 0 < (of_char c :: nat) \<and> (of_char c :: nat) < 128) s"

lemma rune_len_ascii: "(of_char c :: nat) < 128 \<Longrightarrow> rune_len (c # cs) = 1"
  by (simp add: rune_len.simps)

lemma utf8_valid_ascii: "ascii_text s \<Longrightarrow> utf8_valid s"
proof (induction s)
  case Nil
  then show ?case by (simp add: utf8_valid.simps)
next
  case (Cons c s)
  then have "rune_len (c # s) = 1" by (simp add: ascii_text_def rune_len_ascii)
  with Cons show ?case by (subst utf8_valid.simps) (simp add: ascii_text_def)
qed

lemma pg_text_ok_ascii: "ascii_text s \<Longrightarrow> pg_text_ok s"
  using utf8_valid_ascii [of s] by (auto simp: pg_text_ok_def ascii_text_def list_all_iff)

lemma json_utf8_ascii: "ascii_text s \<Longrightarrow> json_utf8 s = s"
proof (induction s)
  case Nil
  then show ?case by (simp add: json_utf8.simps)
next
  case (Cons c s)
  then have "rune_len (c # s) = 1" by (simp add: ascii_text_def rune_len_ascii)
  with Cons show ?case by (subst json_utf8.simps) (simp add: ascii_text_def)
qed

lemma json_utf8_nonempty: "json_utf8 s = [] \<longleftrightarrow> s = []"
  by (subst json_utf8.simps) auto

subsection \<open>JSON values\<close>

text \<open>
  A JSONB column and a decoded \<open>any\<close> hold a JSON value. A number is a decimal literal
  \<open>m / 10 ^ e\<close>; \<open>json_trunc\<close> is Go's conversion \<open>int(v)\<close> of the decoded \<open>float64\<close>, truncation towards
  zero. An object is the association list of its members, looked up with \<^const>\<open>map_of\<close>.
\<close>

datatype json =
    JNull
  | JBool bool
  | JNum int nat
  | JStr string
  | JArr "json list"
  | JObj "(string \<times> json) list"

definition json_trunc :: "int \<Rightarrow> nat \<Rightarrow> int" where
  "json_trunc m e = (if m < 0 then - ((- m) div 10 ^ e) else m div 10 ^ e)"

lemma json_trunc_int [simp]: "json_trunc m 0 = m"
  by (simp add: json_trunc_def)

lemma json_trunc_nonneg: "0 \<le> m \<Longrightarrow> 0 \<le> json_trunc m e"
  by (simp add: json_trunc_def pos_imp_zdiv_nonneg_iff)

end
