(* ===== verification/Plan_Limits.thy ===== *)
theory Plan_Limits
  imports Prelude
begin

section \<open>Accounts, plans, caps and trials\<close>

text \<open>
  \<open>internal/account/limits.go\<close>, \<open>internal/account/trial.go\<close> and the \<open>Plan\<close>, \<open>Role\<close> and \<open>Account\<close>
  types of \<open>internal/account/store.go\<close>. A plan and a role are Go strings and stay strings
  here, so that the \<open>default\<close> branches are reachable. Functions that read the clock take the
  instant \<open>now\<close> as an argument.
\<close>

type_synonym Plan = string
type_synonym Role = string

definition RoleOwner :: Role where "RoleOwner = ''owner''"
definition RoleAdmin :: Role where "RoleAdmin = ''admin''"
definition RoleMember :: Role where "RoleMember = ''member''"
definition RoleViewer :: Role where "RoleViewer = ''viewer''"
definition RoleExec :: Role where "RoleExec = ''exec''"
definition RoleAuditor :: Role where "RoleAuditor = ''auditor''"

lemmas role_defs = RoleOwner_def RoleAdmin_def RoleMember_def RoleViewer_def RoleExec_def
  RoleAuditor_def

definition Role_Valid :: "Role \<Rightarrow> bool" where
  "Role_Valid r =
     (r \<in> set [RoleOwner, RoleAdmin, RoleMember, RoleViewer, RoleExec, RoleAuditor])"

definition ValidInviteRole :: "Role \<Rightarrow> bool" where
  "ValidInviteRole r =
     (r = RoleAdmin \<or> r = RoleMember \<or> r = RoleViewer \<or> r = RoleExec \<or> r = RoleAuditor)"

definition PlanTrial :: Plan where "PlanTrial = ''trial''"
definition PlanStarter :: Plan where "PlanStarter = ''starter''"
definition PlanPro :: Plan where "PlanPro = ''pro''"
definition PlanScale :: Plan where "PlanScale = ''scale''"

lemmas plan_defs = PlanTrial_def PlanStarter_def PlanPro_def PlanScale_def

definition IsPaid :: "Plan \<Rightarrow> bool" where
  "IsPaid p = (p = PlanStarter \<or> p = PlanPro \<or> p = PlanScale)"

record Account =
  acct_ID :: uuid
  acct_Name :: string
  acct_Slug :: string
  acct_StripeCustomerID :: "string option"
  acct_Plan :: Plan
  acct_CreatedAt :: gotime
  acct_TrialEndsAt :: "gotime option"
  acct_SubscriptionStatus :: "string option"
  acct_Unlimited :: bool

subsection \<open>Caps\<close>

definition Unlimited :: int where "Unlimited = 0"

record Limits =
  Databases :: int
  Seats :: int
  APIKeys :: int
  Webhooks :: int
  Heartbeats :: int
  DrillsPerDay :: int
  MaxDumpBytes :: int

definition LimitsFor :: "Plan \<Rightarrow> Limits" where
  "LimitsFor p =
     (let gb = 2 ^ 30 :: int in
      if p = PlanScale then
        \<lparr>Databases = 100, Seats = Unlimited, APIKeys = Unlimited, Webhooks = Unlimited,
         Heartbeats = Unlimited, DrillsPerDay = 500, MaxDumpBytes = 2 * 1024 * gb\<rparr>
      else if p = PlanPro then
        \<lparr>Databases = 25, Seats = Unlimited, APIKeys = Unlimited, Webhooks = Unlimited,
         Heartbeats = 50, DrillsPerDay = 150, MaxDumpBytes = 500 * gb\<rparr>
      else if p = PlanStarter then
        \<lparr>Databases = 5, Seats = Unlimited, APIKeys = 10, Webhooks = 10,
         Heartbeats = 25, DrillsPerDay = 30, MaxDumpBytes = 50 * gb\<rparr>
      else if p = PlanTrial then
        \<lparr>Databases = 1, Seats = Unlimited, APIKeys = 2, Webhooks = 2,
         Heartbeats = 3, DrillsPerDay = 5, MaxDumpBytes = 5 * gb\<rparr>
      else
        \<lparr>Databases = 1, Seats = 2, APIKeys = 1, Webhooks = 1,
         Heartbeats = 1, DrillsPerDay = 2, MaxDumpBytes = 1 * gb\<rparr>)"

definition AllowedCadences :: "Plan \<Rightarrow> string list" where
  "AllowedCadences p =
     (if p = PlanScale \<or> p = PlanPro \<or> p = PlanStarter
        then [''off'', ''monthly'', ''weekly'', ''daily'']
      else if p = PlanTrial then [''off'', ''monthly'', ''weekly'']
      else [''off'', ''monthly'', ''weekly''])"

fun cadence_in :: "string \<Rightarrow> string list \<Rightarrow> bool" where
  "cadence_in cadence [] = False"
| "cadence_in cadence (c # cs) = (if c = cadence then True else cadence_in cadence cs)"

definition CadenceAllowed :: "Plan \<Rightarrow> string \<Rightarrow> bool" where
  "CadenceAllowed p cadence = cadence_in cadence (AllowedCadences p)"

definition TopCadence :: "Plan \<Rightarrow> string" where
  "TopCadence p = (let allowed = AllowedCadences p in allowed ! (length allowed - 1))"

definition AtLimit :: "int \<Rightarrow> int \<Rightarrow> bool" where
  "AtLimit count limit = (limit \<noteq> Unlimited \<and> count \<ge> limit)"

subsection \<open>Account-aware wrappers\<close>

definition EffectiveLimits :: "Account \<Rightarrow> Limits" where
  "EffectiveLimits a =
     (if acct_Unlimited a then
        \<lparr>Databases = 0, Seats = 0, APIKeys = 0, Webhooks = 0, Heartbeats = 0,
         DrillsPerDay = 0, MaxDumpBytes = 0\<rparr>
      else LimitsFor (acct_Plan a))"

definition IsPaidAccount :: "Account \<Rightarrow> bool" where
  "IsPaidAccount a = (acct_Unlimited a \<or> IsPaid (acct_Plan a))"

definition CadenceAllowedForAccount :: "Account \<Rightarrow> string \<Rightarrow> bool" where
  "CadenceAllowedForAccount a cadence =
     (if acct_Unlimited a then
        cadence = ''off'' \<or> cadence = ''monthly'' \<or> cadence = ''weekly'' \<or>
        cadence = ''daily'' \<or> cadence = ''hourly''
      else CadenceAllowed (acct_Plan a) cadence)"

definition AllowedCadencesForAccount :: "Account \<Rightarrow> string list" where
  "AllowedCadencesForAccount a =
     (if acct_Unlimited a then [''off'', ''monthly'', ''weekly'', ''daily'', ''hourly'']
      else AllowedCadences (acct_Plan a))"

definition TopCadenceForAccount :: "Account \<Rightarrow> string" where
  "TopCadenceForAccount a = (if acct_Unlimited a then ''hourly'' else TopCadence (acct_Plan a))"

subsection \<open>Trials\<close>

definition TrialActive :: "gotime \<Rightarrow> Account \<Rightarrow> bool" where
  "TrialActive now a =
     (if acct_Unlimited a then False
      else acct_Plan a = PlanTrial \<and>
        (case acct_TrialEndsAt a of None \<Rightarrow> False | Some e \<Rightarrow> now < e))"

definition TrialLapsed :: "gotime \<Rightarrow> Account \<Rightarrow> bool" where
  "TrialLapsed now a =
     (if acct_Unlimited a then False
      else if acct_Plan a \<noteq> PlanTrial then False
      else (case acct_TrialEndsAt a of None \<Rightarrow> True | Some e \<Rightarrow> now > e))"

definition TrialDaysLeft :: "gotime \<Rightarrow> Account \<Rightarrow> int" where
  "TrialDaysLeft now a =
     (case acct_TrialEndsAt a of
        None \<Rightarrow> 0
      | Some e \<Rightarrow>
          if acct_Plan a \<noteq> PlanTrial then 0
          else let remaining = time_Sub e now in
            if remaining \<le> 0 then 0
            else let days = remaining div nsDay in
              if remaining mod nsDay > 0 then days + 1 else days)"

section \<open>Properties of caps and trials\<close>

lemma cadence_in_set: "cadence_in c cs \<longleftrightarrow> c \<in> set cs"
  by (induction cs) auto

lemma CadenceAllowed_set: "CadenceAllowed p c \<longleftrightarrow> c \<in> set (AllowedCadences p)"
  by (simp add: CadenceAllowed_def cadence_in_set)

lemma AllowedCadences_nonempty: "AllowedCadences p \<noteq> []"
  by (simp add: AllowedCadences_def)

lemma TopCadence_last: "TopCadence p = last (AllowedCadences p)"
  by (simp add: TopCadence_def Let_def last_conv_nth AllowedCadences_nonempty)

lemma TopCadence_allowed: "CadenceAllowed p (TopCadence p)"
  by (simp add: CadenceAllowed_set TopCadence_last AllowedCadences_nonempty)

lemma AllowedCadencesForAccount_iff:
  "CadenceAllowedForAccount a c \<longleftrightarrow> c \<in> set (AllowedCadencesForAccount a)"
  by (simp add: CadenceAllowedForAccount_def AllowedCadencesForAccount_def CadenceAllowed_set)

lemma TopCadenceForAccount_allowed: "CadenceAllowedForAccount a (TopCadenceForAccount a)"
  by (simp add: CadenceAllowedForAccount_def TopCadenceForAccount_def TopCadence_allowed)

text \<open>
  The order on caps in which \<open>Unlimited\<close> is the top: a cap \<open>m\<close> is at most \<open>n\<close> when whatever is
  blocked by \<open>n\<close> is blocked by \<open>m\<close>.
\<close>

definition cap_le :: "int \<Rightarrow> int \<Rightarrow> bool" where
  "cap_le m n \<longleftrightarrow> n = Unlimited \<or> (m \<noteq> Unlimited \<and> m \<le> n)"

definition limits_le :: "Limits \<Rightarrow> Limits \<Rightarrow> bool" where
  "limits_le l k \<longleftrightarrow>
     cap_le (Databases l) (Databases k) \<and> cap_le (Seats l) (Seats k) \<and>
     cap_le (APIKeys l) (APIKeys k) \<and> cap_le (Webhooks l) (Webhooks k) \<and>
     cap_le (Heartbeats l) (Heartbeats k) \<and> cap_le (DrillsPerDay l) (DrillsPerDay k) \<and>
     cap_le (MaxDumpBytes l) (MaxDumpBytes k)"

lemma cap_le_AtLimit: "cap_le m n \<Longrightarrow> AtLimit c n \<Longrightarrow> AtLimit c m"
  by (auto simp: cap_le_def AtLimit_def)

lemma cap_le_trans: "cap_le m n \<Longrightarrow> cap_le n k \<Longrightarrow> cap_le m k"
  by (auto simp: cap_le_def)

lemma limits_le_trans: "limits_le l k \<Longrightarrow> limits_le k j \<Longrightarrow> limits_le l j"
  unfolding limits_le_def by (blast intro: cap_le_trans)

lemma EffectiveLimits_unlimited: "acct_Unlimited a \<Longrightarrow> limits_le l (EffectiveLimits a)"
  by (simp add: limits_le_def cap_le_def EffectiveLimits_def Unlimited_def)

lemma LimitsFor_known:
  "limits_le (LimitsFor PlanTrial) (LimitsFor PlanStarter)"
  "limits_le (LimitsFor PlanStarter) (LimitsFor PlanPro)"
  "limits_le (LimitsFor PlanPro) (LimitsFor PlanScale)"
  by (simp_all add: limits_le_def cap_le_def LimitsFor_def plan_defs Unlimited_def)

lemma LimitsFor_unknown:
  assumes "p \<notin> {PlanScale, PlanPro, PlanStarter, PlanTrial}"
  shows "limits_le (LimitsFor p) (LimitsFor PlanTrial)"
  using assms by (simp add: limits_le_def cap_le_def LimitsFor_def plan_defs Unlimited_def)

lemma limits_le_refl: "limits_le l l"
  by (simp add: limits_le_def cap_le_def)

lemma LimitsFor_unknown_least:
  assumes p: "p \<notin> {PlanScale, PlanPro, PlanStarter, PlanTrial}"
  shows "limits_le (LimitsFor p) (LimitsFor q)"
proof (cases "q \<in> {PlanScale, PlanPro, PlanStarter, PlanTrial}")
  case True
  then show ?thesis
    using LimitsFor_unknown [OF p] LimitsFor_known by (blast intro: limits_le_trans)
next
  case False
  with p have "LimitsFor p = LimitsFor q" by (auto simp: LimitsFor_def)
  then show ?thesis by (simp add: limits_le_refl)
qed

text \<open>
  The plan ladder never widens access for a bad value: a resource count that is refused
  on some plan is refused on every plan string that is none of the four known plans, for
  each of the seven capped resources.
\<close>

theorem unknown_plan_most_restrictive:
  assumes "p \<notin> {PlanScale, PlanPro, PlanStarter, PlanTrial}"
    and "cap \<in> {Databases, Seats, APIKeys, Webhooks, Heartbeats, DrillsPerDay, MaxDumpBytes}"
    and "AtLimit count (cap (LimitsFor q))"
  shows "AtLimit count (cap (LimitsFor p))"
proof -
  from LimitsFor_unknown_least [OF assms(1)] have "limits_le (LimitsFor p) (LimitsFor q)" .
  with assms(2) have "cap_le (cap (LimitsFor p)) (cap (LimitsFor q))"
    by (auto simp: limits_le_def)
  with assms(3) show ?thesis by (rule cap_le_AtLimit [rotated 1])
qed

theorem unknown_plan_most_restrictive_witness:
  "AtLimit 5 (Databases (LimitsFor ''starter'')) \<and> AtLimit 5 (Databases (LimitsFor ''bogus''))"
proof -
  have h: "AtLimit 5 (Databases (LimitsFor ''starter''))"
    by (simp add: AtLimit_def LimitsFor_def plan_defs Unlimited_def)
  moreover have "''bogus'' \<notin> {PlanScale, PlanPro, PlanStarter, PlanTrial}"
    by (simp add: plan_defs)
  ultimately show ?thesis
    using unknown_plan_most_restrictive [of "''bogus''" Databases 5 "''starter''"] by simp
qed

subsection \<open>The trial window\<close>

lemma TrialDaysLeft_ceiling:
  assumes "acct_Plan a = PlanTrial" and "acct_TrialEndsAt a = Some e" and "now < e"
  shows "(TrialDaysLeft now a - 1) * nsDay < time_Sub e now \<and>
         time_Sub e now \<le> TrialDaysLeft now a * nsDay"
proof -
  have "0 < time_Sub e now" using assms(3) by (simp add: time_Sub_sign)
  with assms(1,2) have "TrialDaysLeft now a =
      (if time_Sub e now mod nsDay > 0 then time_Sub e now div nsDay + 1
       else time_Sub e now div nsDay)"
    by (simp add: TrialDaysLeft_def Let_def)
  then show ?thesis by (rule ceil_div_bounds [rotated 1]) simp
qed

text \<open>
  The trial window of an account on the trial plan without the unlimited flag: at every
  instant other than the end date itself it is either active or lapsed and not both (a
  missing end date is lapsed); the number of days shown is positive exactly while the trial
  is active, and is then the time left rounded up to whole days. At the end instant itself
  both predicates are false.
\<close>

theorem trial_window:
  assumes "acct_Plan a = PlanTrial" and "\<not> acct_Unlimited a"
  shows "(acct_TrialEndsAt a \<noteq> Some now \<longrightarrow> TrialActive now a = (\<not> TrialLapsed now a)) \<and>
    (acct_TrialEndsAt a = Some now \<longrightarrow> \<not> TrialActive now a \<and> \<not> TrialLapsed now a) \<and>
    (0 < TrialDaysLeft now a \<longleftrightarrow> TrialActive now a) \<and>
    (\<forall>e. acct_TrialEndsAt a = Some e \<and> TrialActive now a \<longrightarrow>
      (TrialDaysLeft now a - 1) * nsDay < time_Sub e now \<and>
      time_Sub e now \<le> TrialDaysLeft now a * nsDay)"
proof (cases "acct_TrialEndsAt a")
  case None
  with assms show ?thesis by (simp add: TrialActive_def TrialLapsed_def TrialDaysLeft_def)
next
  case (Some e)
  have active: "TrialActive now a \<longleftrightarrow> now < e"
    using assms Some by (simp add: TrialActive_def)
  have lapsed: "TrialLapsed now a \<longleftrightarrow> e < now"
    using assms Some by (simp add: TrialLapsed_def)
  have days: "0 < TrialDaysLeft now a \<longleftrightarrow> now < e"
  proof (cases "now < e")
    case True
    with TrialDaysLeft_ceiling [OF assms(1) Some True] show ?thesis
      using time_Sub_sign(1) [of e now] by (auto intro: ccontr)
  next
    case False
    with Some show ?thesis by (simp add: TrialDaysLeft_def time_Sub_sign)
  qed
  show ?thesis
    using active lapsed days TrialDaysLeft_ceiling [OF assms(1) Some] Some by auto
qed

definition trial_account :: Account where
  "trial_account = \<lparr>acct_ID = 1, acct_Name = ''a'', acct_Slug = ''a'', acct_StripeCustomerID = None,
     acct_Plan = ''trial'', acct_CreatedAt = 0, acct_TrialEndsAt = Some (14 * nsDay),
     acct_SubscriptionStatus = None, acct_Unlimited = False\<rparr>"

theorem trial_window_witness:
  "TrialActive nsHour trial_account \<and> TrialDaysLeft nsHour trial_account = 14"
proof -
  have h: "acct_Plan trial_account = PlanTrial" "\<not> acct_Unlimited trial_account"
    by (simp_all add: trial_account_def plan_defs)
  have "TrialActive nsHour trial_account"
    by (simp add: TrialActive_def trial_account_def plan_defs)
  moreover from this have "0 < TrialDaysLeft nsHour trial_account"
    using trial_window [OF h, of nsHour] by blast
  ultimately show ?thesis
    by (simp add: TrialDaysLeft_def trial_account_def plan_defs time_Sub_def)
qed

end
