(* ===== verification/Rbac.thy ===== *)
theory Rbac
  imports Plan_Limits
begin

section \<open>Role-based access control\<close>

text \<open>
  \<open>internal/auth/rbac.go\<close>: the action constants, the role matrix as the association list of
  association lists the Go map literal writes, \<open>Allowed\<close>, \<open>Authorize\<close> and the
  \<open>RequireAction\<close> middleware. The request context is reduced to the membership role that
  \<open>LoadCurrentAccount\<close> stored on it, if any.
\<close>

type_synonym Action = string

definition ActionAccountRead :: Action where "ActionAccountRead = ''account.read''"
definition ActionAccountWrite :: Action where "ActionAccountWrite = ''account.write''"
definition ActionMemberRead :: Action where "ActionMemberRead = ''member.read''"
definition ActionMemberWrite :: Action where "ActionMemberWrite = ''member.write''"
definition ActionTeamRead :: Action where "ActionTeamRead = ''team.read''"
definition ActionTeamWrite :: Action where "ActionTeamWrite = ''team.write''"
definition ActionBillingRead :: Action where "ActionBillingRead = ''billing.read''"
definition ActionBillingWrite :: Action where "ActionBillingWrite = ''billing.write''"
definition ActionTargetRead :: Action where "ActionTargetRead = ''target.read''"
definition ActionTargetWrite :: Action where "ActionTargetWrite = ''target.write''"
definition ActionDrillRead :: Action where "ActionDrillRead = ''drill.read''"
definition ActionDrillWrite :: Action where "ActionDrillWrite = ''drill.write''"
definition ActionHeartbeatRead :: Action where "ActionHeartbeatRead = ''heartbeat.read''"
definition ActionHeartbeatWrite :: Action where "ActionHeartbeatWrite = ''heartbeat.write''"
definition ActionEvidenceRead :: Action where "ActionEvidenceRead = ''evidence.read''"

lemmas action_defs = ActionAccountRead_def
  ActionAccountWrite_def
  ActionMemberRead_def
  ActionMemberWrite_def
  ActionTeamRead_def
  ActionTeamWrite_def
  ActionBillingRead_def
  ActionBillingWrite_def
  ActionTargetRead_def
  ActionTargetWrite_def
  ActionDrillRead_def
  ActionDrillWrite_def
  ActionHeartbeatRead_def
  ActionHeartbeatWrite_def
  ActionEvidenceRead_def

definition roleMatrix :: "(Role \<times> (Action \<times> bool) list) list" where
  "roleMatrix = [
     (RoleOwner, [
        (ActionAccountRead, True), (ActionAccountWrite, True), (ActionMemberRead, True),
        (ActionMemberWrite, True), (ActionTeamRead, True), (ActionTeamWrite, True),
        (ActionBillingRead, True), (ActionBillingWrite, True), (ActionTargetRead, True),
        (ActionTargetWrite, True), (ActionDrillRead, True), (ActionDrillWrite, True),
        (ActionHeartbeatRead, True), (ActionHeartbeatWrite, True), (ActionEvidenceRead, True)]),
     (RoleAdmin, [
        (ActionAccountRead, True), (ActionAccountWrite, True), (ActionMemberRead, True),
        (ActionMemberWrite, True), (ActionTeamRead, True), (ActionTeamWrite, True),
        (ActionBillingRead, True), (ActionBillingWrite, False), (ActionTargetRead, True),
        (ActionTargetWrite, True), (ActionDrillRead, True), (ActionDrillWrite, True),
        (ActionHeartbeatRead, True), (ActionHeartbeatWrite, True), (ActionEvidenceRead, True)]),
     (RoleMember, [
        (ActionAccountRead, True), (ActionAccountWrite, False), (ActionMemberRead, True),
        (ActionMemberWrite, False), (ActionTeamRead, True), (ActionTeamWrite, False),
        (ActionBillingRead, True), (ActionBillingWrite, False), (ActionTargetRead, True),
        (ActionTargetWrite, True), (ActionDrillRead, True), (ActionDrillWrite, True),
        (ActionHeartbeatRead, True), (ActionHeartbeatWrite, True), (ActionEvidenceRead, True)]),
     (RoleViewer, [
        (ActionAccountRead, True), (ActionAccountWrite, False), (ActionMemberRead, True),
        (ActionMemberWrite, False), (ActionTeamRead, True), (ActionTeamWrite, False),
        (ActionBillingRead, True), (ActionBillingWrite, False), (ActionTargetRead, True),
        (ActionTargetWrite, False), (ActionDrillRead, True), (ActionDrillWrite, False),
        (ActionHeartbeatRead, True), (ActionHeartbeatWrite, False), (ActionEvidenceRead, True)]),
     (RoleExec, [
        (ActionAccountRead, True), (ActionAccountWrite, False), (ActionMemberRead, True),
        (ActionMemberWrite, False), (ActionTeamRead, True), (ActionTeamWrite, False),
        (ActionBillingRead, True), (ActionBillingWrite, False), (ActionTargetRead, True),
        (ActionTargetWrite, False), (ActionDrillRead, True), (ActionDrillWrite, False),
        (ActionHeartbeatRead, True), (ActionHeartbeatWrite, False), (ActionEvidenceRead, True)]),
     (RoleAuditor, [
        (ActionAccountRead, True), (ActionAccountWrite, False), (ActionMemberRead, False),
        (ActionMemberWrite, False), (ActionTeamRead, False), (ActionTeamWrite, False),
        (ActionBillingRead, False), (ActionBillingWrite, False), (ActionTargetRead, True),
        (ActionTargetWrite, False), (ActionDrillRead, True), (ActionDrillWrite, False),
        (ActionHeartbeatRead, True), (ActionHeartbeatWrite, False), (ActionEvidenceRead, True)])]"

definition Allowed :: "Role \<Rightarrow> Action \<Rightarrow> bool" where
  "Allowed role action =
     (case map_of roleMatrix role of
        Some m \<Rightarrow> (case map_of m action of Some b \<Rightarrow> b | None \<Rightarrow> False)
      | None \<Rightarrow> False)"

datatype auth_error = ErrNoAccount | ErrForbidden

text \<open>\<open>Authorize\<close> returns \<open>nil\<close> (here \<^const>\<open>None\<close>) on allow.\<close>

definition Authorize :: "Role option \<Rightarrow> Action \<Rightarrow> auth_error option" where
  "Authorize membership action =
     (case membership of
        None \<Rightarrow> Some ErrNoAccount
      | Some r \<Rightarrow> if \<not> Allowed r action then Some ErrForbidden else None)"

datatype 'a http_result = Forbidden403 | Next 'a

definition RequireAction :: "Action \<Rightarrow> (Role option \<Rightarrow> 'a) \<Rightarrow> Role option \<Rightarrow> 'a http_result" where
  "RequireAction action handler ctx =
     (case Authorize ctx action of Some e \<Rightarrow> Forbidden403 | None \<Rightarrow> Next (handler ctx))"

subsection \<open>Properties\<close>

definition write_actions :: "Action list" where
  "write_actions = [ActionAccountWrite, ActionMemberWrite, ActionTeamWrite, ActionBillingWrite,
     ActionTargetWrite, ActionDrillWrite, ActionHeartbeatWrite]"

definition all_actions :: "Action list" where
  "all_actions = [ActionAccountRead, ActionAccountWrite, ActionMemberRead,
     ActionMemberWrite, ActionTeamRead, ActionTeamWrite,
     ActionBillingRead, ActionBillingWrite, ActionTargetRead,
     ActionTargetWrite, ActionDrillRead, ActionDrillWrite,
     ActionHeartbeatRead, ActionHeartbeatWrite, ActionEvidenceRead]"

lemma roleMatrix_rows:
  "map_of roleMatrix r = None \<longleftrightarrow> \<not> Role_Valid r"
  by (auto simp: roleMatrix_def Role_Valid_def)

lemma Allowed_valid: "Allowed r a \<Longrightarrow> Role_Valid r"
  using roleMatrix_rows [of r] by (auto simp: Allowed_def split: option.splits)

lemma all_actions_distinct: "distinct all_actions"
  by (simp add: all_actions_def action_defs)

lemma roleMatrix_keys: "(r, m) \<in> set roleMatrix \<Longrightarrow> map fst m = all_actions"
  by (auto simp: roleMatrix_def all_actions_def)

lemma roles_distinct: "distinct (map fst roleMatrix)"
  by (simp add: roleMatrix_def role_defs)

text \<open>A role may do exactly the actions its row marks true.\<close>

lemma Allowed_iff: "Allowed r a \<longleftrightarrow> (\<exists>m. (r, m) \<in> set roleMatrix \<and> (a, True) \<in> set m)"
proof (cases "map_of roleMatrix r")
  case None
  then have "\<not> Allowed r a" by (simp add: Allowed_def)
  with None show ?thesis by (force simp: map_of_eq_None_iff)
next
  case (Some m)
  then have m: "(r, m) \<in> set roleMatrix" by (rule map_of_SomeD)
  have uniq: "\<And>m'. (r, m') \<in> set roleMatrix \<Longrightarrow> m' = m"
    using Some roles_distinct by (simp add: map_of_eq_Some_iff)
  have "distinct (map fst m)"
    using roleMatrix_keys [OF m] all_actions_distinct by simp
  then have "map_of m a = Some True \<longleftrightarrow> (a, True) \<in> set m"
    by (rule map_of_eq_Some_iff)
  moreover have "Allowed r a \<longleftrightarrow> map_of m a = Some True"
    using Some by (simp add: Allowed_def split: option.splits)
  ultimately show ?thesis using m uniq by blast
qed

lemma roleMatrix_row:
  assumes "(r, m) \<in> set roleMatrix"
  shows "Allowed r a \<longleftrightarrow> (a, True) \<in> set m"
proof -
  have "\<And>m'. (r, m') \<in> set roleMatrix \<Longrightarrow> m' = m"
    using assms roles_distinct by (metis eq_key_imp_eq_value)
  with assms show ?thesis unfolding Allowed_iff by blast
qed

lemma roleMatrix_nth:
  assumes "i < length roleMatrix" and "roleMatrix ! i = (r, m)"
  shows "Allowed r a \<longleftrightarrow> (a, True) \<in> set m"
  using assms by (metis nth_mem roleMatrix_row)

lemma Allowed_owner: "Allowed RoleOwner a \<longleftrightarrow> a \<in> set all_actions"
  by (subst roleMatrix_nth [of 0]; (simp add: roleMatrix_def; fail)?)
    (auto simp: roleMatrix_def all_actions_def write_actions_def action_defs)

lemma Allowed_admin: "Allowed RoleAdmin a \<longleftrightarrow> a \<in> set all_actions \<and> a \<noteq> ActionBillingWrite"
  by (subst roleMatrix_nth [of 1]; (simp add: roleMatrix_def; fail)?)
    (auto simp: roleMatrix_def all_actions_def write_actions_def action_defs)

lemma Allowed_member: "Allowed RoleMember a \<longleftrightarrow> a \<in> set all_actions \<and>
     a \<notin> {ActionAccountWrite, ActionMemberWrite, ActionTeamWrite, ActionBillingWrite}"
  by (subst roleMatrix_nth [of 2]; (simp add: roleMatrix_def; fail)?)
    (auto simp: roleMatrix_def all_actions_def write_actions_def action_defs)

lemma Allowed_viewer: "Allowed RoleViewer a \<longleftrightarrow> a \<in> set all_actions \<and> a \<notin> set write_actions"
  by (subst roleMatrix_nth [of 3]; (simp add: roleMatrix_def; fail)?)
    (auto simp: roleMatrix_def all_actions_def write_actions_def action_defs)

lemma Allowed_exec: "Allowed RoleExec a \<longleftrightarrow> a \<in> set all_actions \<and> a \<notin> set write_actions"
  by (subst roleMatrix_nth [of 4]; (simp add: roleMatrix_def; fail)?)
    (auto simp: roleMatrix_def all_actions_def write_actions_def action_defs)

lemma Allowed_auditor: "Allowed RoleAuditor a \<longleftrightarrow> a \<in> {ActionAccountRead, ActionTargetRead, ActionDrillRead,
     ActionHeartbeatRead, ActionEvidenceRead}"
  by (subst roleMatrix_nth [of 5]; (simp add: roleMatrix_def; fail)?)
    (auto simp: roleMatrix_def all_actions_def write_actions_def action_defs)

lemmas Allowed_rows = Allowed_owner Allowed_admin Allowed_member Allowed_viewer Allowed_exec Allowed_auditor

lemma Allowed_role_cases:
  "Allowed r a \<Longrightarrow> r \<in> {RoleOwner, RoleAdmin, RoleMember, RoleViewer, RoleExec, RoleAuditor}"
  using Allowed_valid [of r a] by (simp add: Role_Valid_def)

text \<open>
  The matrix is a ladder: whatever an auditor may do a viewer may do, a viewer and an
  exec may do the same, and each of viewer, member, admin and owner may do what the one
  before may. Only owner, admin and member hold any write permission, only the owner may
  write billing, an auditor reads neither billing nor the member roster nor teams, and a
  role string outside the six known ones is denied every action.
\<close>

theorem rbac_ladder:
  "(Allowed RoleAuditor a \<longrightarrow> Allowed RoleViewer a) \<and>
   (Allowed RoleViewer a \<longleftrightarrow> Allowed RoleExec a) \<and>
   (Allowed RoleViewer a \<longrightarrow> Allowed RoleMember a) \<and>
   (Allowed RoleMember a \<longrightarrow> Allowed RoleAdmin a) \<and>
   (Allowed RoleAdmin a \<longrightarrow> Allowed RoleOwner a) \<and>
   (Allowed r a \<and> a \<in> set write_actions \<longrightarrow> r \<in> {RoleOwner, RoleAdmin, RoleMember}) \<and>
   (Allowed r ActionBillingWrite \<longrightarrow> r = RoleOwner) \<and>
   (Allowed RoleAuditor a \<longrightarrow> a \<notin> {ActionBillingRead, ActionMemberRead, ActionTeamRead}) \<and>
   (\<not> Role_Valid r \<longrightarrow> \<not> Allowed r a)"
proof -
  have aud: "Allowed RoleAuditor a \<longrightarrow>
      a \<notin> {ActionBillingRead, ActionMemberRead, ActionTeamRead} \<and> Allowed RoleViewer a"
    by (auto simp: Allowed_rows all_actions_def write_actions_def action_defs)
  have chain: "Allowed RoleViewer a \<longrightarrow> Allowed RoleMember a"
    by (auto simp: Allowed_rows write_actions_def)
  have aud_write: "a \<in> set write_actions \<longrightarrow> \<not> Allowed RoleAuditor a"
    by (auto simp: Allowed_rows write_actions_def action_defs)
  have writes: "Allowed r a \<and> a \<in> set write_actions \<longrightarrow> r \<in> {RoleOwner, RoleAdmin, RoleMember}"
    using Allowed_role_cases [of r a] aud_write by (auto simp: Allowed_rows)
  have billing: "Allowed r ActionBillingWrite \<longrightarrow> r = RoleOwner"
    using Allowed_role_cases [of r ActionBillingWrite]
    by (auto simp: Allowed_rows write_actions_def action_defs)
  have "Allowed RoleViewer a \<longleftrightarrow> Allowed RoleExec a"
    and "Allowed RoleMember a \<longrightarrow> Allowed RoleAdmin a"
    and "Allowed RoleAdmin a \<longrightarrow> Allowed RoleOwner a"
    by (simp_all add: Allowed_rows)
  then show ?thesis
    using aud chain writes billing Allowed_valid [of r a] by blast
qed

theorem rbac_ladder_witness:
  "Allowed RoleAuditor ActionEvidenceRead \<and> Allowed RoleOwner ActionEvidenceRead \<and>
   \<not> Allowed ''superuser'' ActionEvidenceRead"
proof -
  have "Allowed RoleAuditor ActionEvidenceRead" by (simp add: Allowed_rows)
  moreover have "\<not> Role_Valid ''superuser''" by (simp add: Role_Valid_def role_defs)
  ultimately show ?thesis
    using rbac_ladder [of ActionEvidenceRead "''superuser''"] by blast
qed

lemma RequireAction_iff:
  "RequireAction action handler ctx = Next (handler ctx) \<longleftrightarrow>
     (\<exists>r. ctx = Some r \<and> Allowed r action)"
  by (auto simp: RequireAction_def Authorize_def split: option.splits if_splits)

end
