(* ===== verification/Drill_Store.thy ===== *)
theory Drill_Store
  imports Plan_Limits
begin

section \<open>The drill store\<close>

text \<open>
  \<open>internal/drill/store.go\<close>, \<open>bundle.go\<close>, \<open>readiness.go\<close>: targets, drills, steps, assertions,
  assertion results and idempotency keys, with one definition per store method. The database
  is the record \<open>drill_db\<close> of its tables; a method that writes returns its Go result together
  with the new database. Constraints of the schema (\<open>migrations/\<close>) that an INSERT or UPDATE
  can violate are \<open>ErrConstraint\<close>. The instant \<open>now()\<close> and the identifier that
  \<open>gen_random_uuid()\<close> draws are arguments. Faults of the connection itself are not part of this
  theory: \<open>Faults\<close> and \<open>Drill_Steps\<close> add them around every call.
\<close>

subsection \<open>Data\<close>

datatype StepName = StepProvision | StepFetch | StepRestore | StepAssert | StepReport | StepTeardown

definition AllSteps :: "StepName list" where
  "AllSteps = [StepProvision, StepFetch, StepRestore, StepAssert, StepReport, StepTeardown]"

fun step_string :: "StepName \<Rightarrow> string" where
  "step_string StepProvision = ''provision''"
| "step_string StepFetch = ''fetch''"
| "step_string StepRestore = ''restore''"
| "step_string StepAssert = ''assert''"
| "step_string StepReport = ''report''"
| "step_string StepTeardown = ''teardown''"

datatype Status = StatusPending | StatusRunning | StatusSucceeded | StatusFailed | StatusSkipped

definition Terminal :: "Status \<Rightarrow> bool" where
  "Terminal s = (s = StatusSucceeded \<or> s = StatusFailed \<or> s = StatusSkipped)"

record Scope =
  sc_All :: bool
  sc_TeamIDs :: "uuid list"

definition ScopeAll :: Scope where
  "ScopeAll = \<lparr>sc_All = True, sc_TeamIDs = []\<rparr>"

definition teamArgs :: "Scope \<Rightarrow> bool \<times> uuid list" where
  "teamArgs s = (sc_All s, sc_TeamIDs s)"

record Target =
  t_ID :: uuid
  t_AccountID :: uuid
  t_CreatedByUserID :: uuid
  t_Name :: string
  t_SourceKind :: string
  t_SourceURI :: string
  t_TeamID :: "uuid option"
  t_CreatedAt :: gotime
  t_DrillCadence :: string
  t_NextDrillAt :: "gotime option"
  t_IsSample :: bool

text \<open>A row of \<open>database_targets\<close> carries the soft-delete column besides the struct's fields.\<close>

record target_row = Target +
  t_deleted_at :: "gotime option"

record Assertion =
  a_ID :: uuid
  a_TargetID :: uuid
  a_Kind :: string
  a_Config :: json
  a_CreatedAt :: gotime

record Drill =
  d_ID :: uuid
  d_TargetID :: uuid
  d_AccountID :: uuid
  d_CreatedByUserID :: uuid
  d_Status :: Status
  d_StartedAt :: "gotime option"
  d_CompletedAt :: "gotime option"
  d_Error :: "string option"
  d_EvidencePath :: "string option"
  d_SandboxDB :: "string option"
  d_SourceHash :: "string option"
  d_CreatedAt :: gotime

record Step =
  s_ID :: uuid
  s_DrillID :: uuid
  s_Name :: StepName
  s_Status :: Status
  s_StartedAt :: "gotime option"
  s_CompletedAt :: "gotime option"
  s_Error :: "string option"
  s_IdempotencyKey :: string
  s_Ordinal :: nat
  s_OutputSnippet :: "string option"
  s_OutputSHA256 :: "string option"
  s_OutputTruncated :: "bool option"

record AssertionResult =
  ar_ID :: uuid
  ar_DrillID :: uuid
  ar_Kind :: string
  ar_Expected :: json
  ar_Actual :: json
  ar_Passed :: bool
  ar_At :: gotime

record team_row =
  tm_ID :: uuid
  tm_AccountID :: uuid
  tm_deleted_at :: "gotime option"

record account_row = Account +
  acct_deleted_at :: "gotime option"

record idem_row =
  ik_AccountID :: uuid
  ik_UserID :: uuid
  ik_Key :: string
  ik_Scope :: string
  ik_TargetID :: string

record drill_db =
  db_users :: "(uuid \<times> string) list"
  db_accounts :: "account_row list"
  db_teams :: "team_row list"
  db_targets :: "target_row list"
  db_assertions :: "Assertion list"
  db_drills :: "Drill list"
  db_steps :: "Step list"
  db_results :: "AssertionResult list"
  db_idem :: "idem_row list"

datatype store_error =
    ErrNotFound
  | ErrConstraint
  | ErrEmptyKey
  | ErrParseUUID
  | ErrNegativeLimit
  | ErrDB

subsection \<open>Schema constraints\<close>

definition source_kind_check :: "string \<Rightarrow> bool" where
  "source_kind_check k = (k = ''postgres_dump_local'')"

definition cadence_check :: "string \<Rightarrow> bool" where
  "cadence_check c = (c \<in> set [''off'', ''weekly'', ''daily'', ''hourly''])"

definition assertion_kind_check :: "string \<Rightarrow> bool" where
  "assertion_kind_check k =
     (k \<in> set [''row_count'', ''table_exists'', ''column_exists'', ''no_nulls''])"

definition user_exists :: "uuid \<Rightarrow> drill_db \<Rightarrow> bool" where
  "user_exists u db = (u \<in> set (map fst (db_users db)))"

definition account_exists :: "uuid \<Rightarrow> drill_db \<Rightarrow> bool" where
  "account_exists a db = (a \<in> set (map acct_ID (db_accounts db)))"

definition target_exists :: "uuid \<Rightarrow> drill_db \<Rightarrow> bool" where
  "target_exists t db = (t \<in> set (map t_ID (db_targets db)))"

definition drill_exists :: "uuid \<Rightarrow> drill_db \<Rightarrow> bool" where
  "drill_exists d db = (d \<in> set (map d_ID (db_drills db)))"

subsection \<open>Targets\<close>

definition live :: "target_row \<Rightarrow> bool" where
  "live r = (t_deleted_at r = None)"

text \<open>The team filter every user-facing read applies: \<open>$n OR team_id IS NULL OR team_id = ANY($m)\<close>.\<close>

definition team_visible :: "Scope \<Rightarrow> target_row \<Rightarrow> bool" where
  "team_visible scope r =
     (case teamArgs scope of (all, teamIDs) \<Rightarrow>
        all \<or> t_TeamID r = None \<or> (\<exists>t \<in> set teamIDs. t_TeamID r = Some t))"

definition CreateTarget :: "uuid \<Rightarrow> gotime \<Rightarrow> Target \<Rightarrow> drill_db \<Rightarrow> (store_error + Target) \<times> drill_db" where
  "CreateTarget newid now t db =
     (if \<not> source_kind_check (t_SourceKind t) \<or> \<not> account_exists (t_AccountID t) db \<or>
         \<not> user_exists (t_CreatedByUserID t) db \<or>
         (t_IsSample t \<and>
          (\<exists>r \<in> set (db_targets db). t_AccountID r = t_AccountID t \<and> t_IsSample r \<and> live r))
      then (Inl ErrConstraint, db)
      else
        (let row = \<lparr>t_ID = newid, t_AccountID = t_AccountID t,
               t_CreatedByUserID = t_CreatedByUserID t, t_Name = t_Name t,
               t_SourceKind = t_SourceKind t, t_SourceURI = t_SourceURI t,
               t_TeamID = None, t_CreatedAt = now, t_DrillCadence = ''off'',
               t_NextDrillAt = None, t_IsSample = t_IsSample t, t_deleted_at = None\<rparr>
         in (Inr (t\<lparr>t_ID := newid, t_CreatedAt := now\<rparr>), db\<lparr>db_targets := db_targets db @ [row]\<rparr>)))"

definition SetTargetTeam :: "uuid \<Rightarrow> uuid \<Rightarrow> uuid option \<Rightarrow> drill_db \<Rightarrow> (store_error + unit) \<times> drill_db" where
  "SetTargetTeam accountID targetID teamID db =
     (let P = (\<lambda>r. t_ID r = targetID \<and> t_AccountID r = accountID \<and> live r \<and>
            (case teamID of None \<Rightarrow> True
             | Some tid \<Rightarrow> (\<exists>m \<in> set (db_teams db).
                 tm_ID m = tid \<and> tm_AccountID m = accountID \<and> tm_deleted_at m = None)))
      in if sql_affected P (db_targets db) = 0 then (Inl ErrNotFound, db)
         else (Inr (), db\<lparr>db_targets := sql_update P (\<lambda>r. r\<lparr>t_TeamID := teamID\<rparr>) (db_targets db)\<rparr>))"

definition GetSampleTarget :: "uuid \<Rightarrow> drill_db \<Rightarrow> store_error + Target" where
  "GetSampleTarget accountID db =
     (case sql_first (\<lambda>r. t_AccountID r = accountID \<and> t_IsSample r \<and> live r) (db_targets db) of
        None \<Rightarrow> Inl ErrNotFound
      | Some r \<Rightarrow> Inr (Target.truncate r))"

definition ListTargets :: "uuid \<Rightarrow> Scope \<Rightarrow> drill_db \<Rightarrow> Target list" where
  "ListTargets accountID scope db =
     map Target.truncate
       (sort_key (\<lambda>r. - t_CreatedAt r)
         (filter (\<lambda>r. t_AccountID r = accountID \<and> live r \<and> team_visible scope r) (db_targets db)))"

text \<open>
  Keyset pages: \<open>(created_at, id) < ($2, $3)\<close> compares row values; with a NULL cursor
  identifier only a strictly older row compares true. Rows come in descending key order.
\<close>

definition before_cursor :: "gotime option \<Rightarrow> uuid option \<Rightarrow> gotime \<Rightarrow> uuid \<Rightarrow> bool" where
  "before_cursor afterAt afterID c i =
     (case afterAt of
        None \<Rightarrow> True
      | Some a \<Rightarrow> c < a \<or> (c = a \<and> (case afterID of None \<Rightarrow> False | Some j \<Rightarrow> i < j)))"

definition ListTargetsPage ::
    "uuid \<Rightarrow> Scope \<Rightarrow> gotime option \<Rightarrow> uuid option \<Rightarrow> int \<Rightarrow> drill_db \<Rightarrow> store_error + Target list" where
  "ListTargetsPage accountID scope afterAt afterID limit db =
     (if limit < 0 then Inl ErrNegativeLimit
      else Inr (map (\<lambda>r. (Target.truncate r)\<lparr>t_DrillCadence := [], t_NextDrillAt := None\<rparr>)
        (take (nat limit)
          (sort_key (\<lambda>r. (- t_CreatedAt r, - int (t_ID r)))
            (filter (\<lambda>r. t_AccountID r = accountID \<and> live r \<and> team_visible scope r \<and>
                before_cursor afterAt afterID (t_CreatedAt r) (t_ID r))
              (db_targets db))))))"

definition GetTarget :: "uuid \<Rightarrow> uuid \<Rightarrow> Scope \<Rightarrow> drill_db \<Rightarrow> store_error + Target" where
  "GetTarget accountID targetID scope db =
     (case sql_first (\<lambda>r. t_ID r = targetID \<and> t_AccountID r = accountID \<and> live r \<and>
           team_visible scope r) (db_targets db) of
        None \<Rightarrow> Inl ErrNotFound
      | Some r \<Rightarrow> Inr (Target.truncate r))"

definition CreatorEmail :: "uuid \<Rightarrow> drill_db \<Rightarrow> string" where
  "CreatorEmail userID db = coalesce (map_of (db_users db) userID) []"

definition SetTargetSchedule ::
    "uuid \<Rightarrow> uuid \<Rightarrow> string \<Rightarrow> gotime option \<Rightarrow> drill_db \<Rightarrow> (store_error + unit) \<times> drill_db" where
  "SetTargetSchedule accountID targetID cadence nextAt db =
     (let P = (\<lambda>r. t_ID r = targetID \<and> t_AccountID r = accountID \<and> live r) in
      if sql_affected P (db_targets db) = 0 then (Inl ErrNotFound, db)
      else if \<not> cadence_check cadence then (Inl ErrConstraint, db)
      else (Inr (), db\<lparr>db_targets :=
        sql_update P (\<lambda>r. r\<lparr>t_DrillCadence := cadence, t_NextDrillAt := nextAt\<rparr>) (db_targets db)\<rparr>))"

record DueSchedule =
  ds_Target :: Target
  ds_Plan :: string
  ds_Unlimited :: bool

definition due_row :: "gotime \<Rightarrow> target_row \<Rightarrow> account_row \<Rightarrow> bool" where
  "due_row now t a =
     (acct_ID a = t_AccountID t \<and> live t \<and> acct_deleted_at a = None \<and>
      t_DrillCadence t \<noteq> ''off'' \<and>
      (case t_NextDrillAt t of None \<Rightarrow> False | Some n \<Rightarrow> n \<le> now) \<and>
      \<not> t_IsSample t \<and>
      (acct_Plan a \<in> set [''starter'', ''pro'', ''scale''] \<or> acct_Unlimited a))"

definition DueTargets :: "gotime \<Rightarrow> drill_db \<Rightarrow> DueSchedule list" where
  "DueTargets now db =
     concat (map (\<lambda>t. map (\<lambda>a. \<lparr>ds_Target = (Target.truncate t)\<lparr>t_TeamID := None, t_IsSample := False\<rparr>,
          ds_Plan = acct_Plan a, ds_Unlimited = acct_Unlimited a\<rparr>)
        (filter (due_row now t) (db_accounts db))) (db_targets db))"

definition AdvanceTargetSchedule :: "uuid \<Rightarrow> gotime \<Rightarrow> drill_db \<Rightarrow> drill_db" where
  "AdvanceTargetSchedule targetID nextAt db =
     db\<lparr>db_targets := sql_update (\<lambda>r. t_ID r = targetID) (\<lambda>r. r\<lparr>t_NextDrillAt := Some nextAt\<rparr>) (db_targets db)\<rparr>"

subsection \<open>Drills\<close>

text \<open>The EXISTS subquery of the scoped drill reads: the drill's target is visible to the scope.\<close>

definition drill_visible :: "Scope \<Rightarrow> drill_db \<Rightarrow> Drill \<Rightarrow> bool" where
  "drill_visible scope db d =
     (case teamArgs scope of (all, teamIDs) \<Rightarrow>
        all \<or> (\<exists>t \<in> set (db_targets db). t_ID t = d_TargetID d \<and>
          (t_TeamID t = None \<or> (\<exists>m \<in> set teamIDs. t_TeamID t = Some m))))"

definition GetDrill :: "uuid \<Rightarrow> uuid \<Rightarrow> Scope \<Rightarrow> drill_db \<Rightarrow> store_error + Drill" where
  "GetDrill accountID drillID scope db =
     (case sql_first (\<lambda>d. d_ID d = drillID \<and> d_AccountID d = accountID \<and> drill_visible scope db d)
        (db_drills db) of
        None \<Rightarrow> Inl ErrNotFound
      | Some d \<Rightarrow> Inr d)"

definition GetDrillByID :: "uuid \<Rightarrow> drill_db \<Rightarrow> store_error + Drill" where
  "GetDrillByID drillID db =
     (case sql_first (\<lambda>d. d_ID d = drillID) (db_drills db) of
        None \<Rightarrow> Inl ErrNotFound
      | Some d \<Rightarrow> Inr d)"

text \<open>\<open>GetTargetByID\<close> does not read the team and schedule columns: they keep Go's zero values.\<close>

definition GetTargetByID :: "uuid \<Rightarrow> drill_db \<Rightarrow> store_error + Target" where
  "GetTargetByID targetID db =
     (case sql_first (\<lambda>r. t_ID r = targetID) (db_targets db) of
        None \<Rightarrow> Inl ErrNotFound
      | Some r \<Rightarrow> Inr ((Target.truncate r)\<lparr>t_TeamID := None, t_DrillCadence := [], t_NextDrillAt := None\<rparr>))"

definition ListDrills :: "uuid \<Rightarrow> Scope \<Rightarrow> int \<Rightarrow> drill_db \<Rightarrow> store_error + Drill list" where
  "ListDrills accountID scope limit db =
     (if limit < 0 then Inl ErrNegativeLimit
      else Inr (take (nat limit) (sort_key (\<lambda>d. - d_CreatedAt d)
        (filter (\<lambda>d. d_AccountID d = accountID \<and> drill_visible scope db d) (db_drills db)))))"

definition ListDrillsByCreator :: "uuid \<Rightarrow> int \<Rightarrow> drill_db \<Rightarrow> store_error + Drill list" where
  "ListDrillsByCreator userID limit db =
     (if limit < 0 then Inl ErrNegativeLimit
      else Inr (take (nat limit) (sort_key (\<lambda>d. - d_CreatedAt d)
        (filter (\<lambda>d. d_CreatedByUserID d = userID) (db_drills db)))))"

definition ListDrillsPage ::
    "uuid \<Rightarrow> Scope \<Rightarrow> gotime option \<Rightarrow> uuid option \<Rightarrow> int \<Rightarrow> drill_db \<Rightarrow> store_error + Drill list" where
  "ListDrillsPage accountID scope afterAt afterID limit db =
     (if limit < 0 then Inl ErrNegativeLimit
      else Inr (take (nat limit)
        (sort_key (\<lambda>d. (- d_CreatedAt d, - int (d_ID d)))
          (filter (\<lambda>d. d_AccountID d = accountID \<and> drill_visible scope db d \<and>
              before_cursor afterAt afterID (d_CreatedAt d) (d_ID d))
            (db_drills db)))))"

definition ListEvidenceDrills :: "uuid \<Rightarrow> gotime \<Rightarrow> drill_db \<Rightarrow> Drill list" where
  "ListEvidenceDrills accountID since db =
     sort_key (\<lambda>d. - coalesce (d_CompletedAt d) 0)
       (filter (\<lambda>d. d_AccountID d = accountID \<and>
           (case d_EvidencePath d of None \<Rightarrow> False | Some p \<Rightarrow> p \<noteq> []) \<and>
           (case d_CompletedAt d of None \<Rightarrow> False | Some c \<Rightarrow> since \<le> c))
         (db_drills db))"

definition upd_drill :: "uuid \<Rightarrow> (Drill \<Rightarrow> bool) \<Rightarrow> (Drill \<Rightarrow> Drill) \<Rightarrow> drill_db \<Rightarrow> drill_db" where
  "upd_drill drillID G f db =
     db\<lparr>db_drills := sql_update (\<lambda>d. d_ID d = drillID \<and> G d) f (db_drills db)\<rparr>"

definition MarkDrillRunning :: "gotime \<Rightarrow> uuid \<Rightarrow> drill_db \<Rightarrow> (store_error + unit) \<times> drill_db" where
  "MarkDrillRunning now drillID db =
     (Inr (), upd_drill drillID (\<lambda>d. d_Status d = StatusPending \<or> d_Status d = StatusRunning)
        (\<lambda>d. d\<lparr>d_Status := StatusRunning, d_StartedAt := Some (coalesce (d_StartedAt d) now)\<rparr>) db)"

definition MarkDrillSucceeded :: "gotime \<Rightarrow> uuid \<Rightarrow> string \<Rightarrow> drill_db \<Rightarrow> (store_error + unit) \<times> drill_db" where
  "MarkDrillSucceeded now drillID evidencePath db =
     (Inr (), upd_drill drillID (\<lambda>_. True)
        (\<lambda>d. d\<lparr>d_Status := StatusSucceeded, d_CompletedAt := Some now,
               d_EvidencePath := Some evidencePath, d_Error := None\<rparr>) db)"

definition MarkDrillFailed :: "gotime \<Rightarrow> uuid \<Rightarrow> string \<Rightarrow> drill_db \<Rightarrow> (store_error + unit) \<times> drill_db" where
  "MarkDrillFailed now drillID reason db =
     (if \<not> pg_text_ok reason then (Inl ErrConstraint, db)
      else (Inr (), upd_drill drillID (\<lambda>_. True)
        (\<lambda>d. d\<lparr>d_Status := StatusFailed, d_CompletedAt := Some (coalesce (d_CompletedAt d) now),
               d_Error := Some reason\<rparr>) db))"

definition SetSandboxDB :: "uuid \<Rightarrow> string \<Rightarrow> drill_db \<Rightarrow> (store_error + unit) \<times> drill_db" where
  "SetSandboxDB drillID name db =
     (Inr (), upd_drill drillID (\<lambda>_. True) (\<lambda>d. d\<lparr>d_SandboxDB := Some name\<rparr>) db)"

definition SetSourceHash :: "uuid \<Rightarrow> string \<Rightarrow> drill_db \<Rightarrow> (store_error + unit) \<times> drill_db" where
  "SetSourceHash drillID hash db =
     (Inr (), upd_drill drillID (\<lambda>_. True) (\<lambda>d. d\<lparr>d_SourceHash := Some hash\<rparr>) db)"

definition MarkEvidence :: "uuid \<Rightarrow> string \<Rightarrow> drill_db \<Rightarrow> (store_error + unit) \<times> drill_db" where
  "MarkEvidence drillID path db =
     (Inr (), upd_drill drillID (\<lambda>_. True) (\<lambda>d. d\<lparr>d_EvidencePath := Some path\<rparr>) db)"

subsection \<open>Target assertions\<close>

definition ListTargetAssertions :: "uuid \<Rightarrow> drill_db \<Rightarrow> Assertion list" where
  "ListTargetAssertions targetID db =
     sort_key (\<lambda>a. (a_CreatedAt a, a_ID a)) (filter (\<lambda>a. a_TargetID a = targetID) (db_assertions db))"

definition ListAssertionsForTargets :: "uuid list \<Rightarrow> drill_db \<Rightarrow> uuid \<rightharpoonup> Assertion list" where
  "ListAssertionsForTargets targetIDs db =
     (if targetIDs = [] then Map.empty
      else foldl (\<lambda>out a. out(a_TargetID a \<mapsto> coalesce (out (a_TargetID a)) [] @ [a])) Map.empty
        (sort_key (\<lambda>a. (a_CreatedAt a, a_ID a))
          (filter (\<lambda>a. a_TargetID a \<in> set targetIDs) (db_assertions db))))"

definition CreateAssertion ::
    "uuid \<Rightarrow> gotime \<Rightarrow> uuid \<Rightarrow> string \<Rightarrow> json \<Rightarrow> drill_db \<Rightarrow> (store_error + Assertion) \<times> drill_db" where
  "CreateAssertion newid now targetID kind config db =
     (if \<not> assertion_kind_check kind \<or> \<not> target_exists targetID db then (Inl ErrConstraint, db)
      else
        (let a = \<lparr>a_ID = newid, a_TargetID = targetID, a_Kind = kind, a_Config = config, a_CreatedAt = now\<rparr>
         in (Inr a, db\<lparr>db_assertions := db_assertions db @ [a]\<rparr>)))"

definition DeleteAssertion :: "uuid \<Rightarrow> uuid \<Rightarrow> drill_db \<Rightarrow> (store_error + unit) \<times> drill_db" where
  "DeleteAssertion accountID assertionID db =
     (let P = (\<lambda>a. a_ID a = assertionID \<and>
            (\<exists>t \<in> set (db_targets db). a_TargetID a = t_ID t \<and> t_AccountID t = accountID))
      in if sql_affected P (db_assertions db) = 0 then (Inl ErrNotFound, db)
         else (Inr (), db\<lparr>db_assertions := sql_delete P (db_assertions db)\<rparr>))"

subsection \<open>Steps\<close>

definition upd_step :: "uuid \<Rightarrow> StepName \<Rightarrow> (Step \<Rightarrow> bool) \<Rightarrow> (Step \<Rightarrow> Step) \<Rightarrow> drill_db \<Rightarrow> drill_db" where
  "upd_step drillID name G f db =
     db\<lparr>db_steps := sql_update (\<lambda>s. s_DrillID s = drillID \<and> s_Name s = name \<and> G s) f (db_steps db)\<rparr>"

definition CreateStepIfMissing ::
    "uuid \<Rightarrow> uuid \<Rightarrow> StepName \<Rightarrow> nat \<Rightarrow> string \<Rightarrow> drill_db \<Rightarrow> (store_error + Step) \<times> drill_db" where
  "CreateStepIfMissing newid drillID name ordinal idemKey db =
     (case sql_first (\<lambda>s. (s_DrillID s, s_Name s) = (drillID, name)) (db_steps db) of
        Some s \<Rightarrow> (Inr s, db)
      | None \<Rightarrow>
          if \<not> drill_exists drillID db \<or> idemKey \<in> set (map s_IdempotencyKey (db_steps db))
          then (Inl ErrConstraint, db)
          else
            (let s = \<lparr>s_ID = newid, s_DrillID = drillID, s_Name = name, s_Status = StatusPending,
                   s_StartedAt = None, s_CompletedAt = None, s_Error = None,
                   s_IdempotencyKey = idemKey, s_Ordinal = ordinal, s_OutputSnippet = None,
                   s_OutputSHA256 = None, s_OutputTruncated = None\<rparr>
             in (Inr s, db\<lparr>db_steps := db_steps db @ [s]\<rparr>)))"

definition GetStep :: "uuid \<Rightarrow> StepName \<Rightarrow> drill_db \<Rightarrow> store_error + Step" where
  "GetStep drillID name db =
     (case sql_first (\<lambda>s. (s_DrillID s, s_Name s) = (drillID, name)) (db_steps db) of
        None \<Rightarrow> Inl ErrNotFound
      | Some s \<Rightarrow> Inr s)"

definition ListSteps :: "uuid \<Rightarrow> drill_db \<Rightarrow> Step list" where
  "ListSteps drillID db = sort_key s_Ordinal (filter (\<lambda>s. s_DrillID s = drillID) (db_steps db))"

definition MarkStepRunning :: "gotime \<Rightarrow> uuid \<Rightarrow> StepName \<Rightarrow> drill_db \<Rightarrow> (store_error + unit) \<times> drill_db" where
  "MarkStepRunning now drillID name db =
     (Inr (), upd_step drillID name
        (\<lambda>s. s_Status s = StatusPending \<or> s_Status s = StatusRunning \<or> s_Status s = StatusFailed)
        (\<lambda>s. s\<lparr>s_Status := StatusRunning, s_StartedAt := Some (coalesce (s_StartedAt s) now)\<rparr>) db)"

definition stepOutputCap :: nat where
  "stepOutputCap = 16 * 1024"

definition SetStepOutput ::
    "(bytes \<Rightarrow> bytes) \<Rightarrow> uuid \<Rightarrow> StepName \<Rightarrow> bytes \<Rightarrow> drill_db \<Rightarrow> (store_error + unit) \<times> drill_db" where
  "SetStepOutput sha256 drillID name output db =
     (if output = [] then (Inr (), db)
      else
        (let hex = hexEncode (sha256 output);
             truncated = length output > stepOutputCap;
             snippet = (if truncated then take stepOutputCap output else output)
         in if \<not> pg_text_ok snippet then (Inl ErrConstraint, db)
            else (Inr (), upd_step drillID name (\<lambda>_. True)
              (\<lambda>s. s\<lparr>s_OutputSnippet := Some snippet, s_OutputSHA256 := Some hex,
                     s_OutputTruncated := Some truncated\<rparr>) db)))"

definition MarkStepSucceeded :: "gotime \<Rightarrow> uuid \<Rightarrow> StepName \<Rightarrow> drill_db \<Rightarrow> (store_error + unit) \<times> drill_db" where
  "MarkStepSucceeded now drillID name db =
     (Inr (), upd_step drillID name (\<lambda>s. s_Status s \<noteq> StatusSkipped)
        (\<lambda>s. s\<lparr>s_Status := StatusSucceeded, s_CompletedAt := Some now, s_Error := None\<rparr>) db)"

definition MarkStepFailed ::
    "gotime \<Rightarrow> uuid \<Rightarrow> StepName \<Rightarrow> string \<Rightarrow> drill_db \<Rightarrow> (store_error + unit) \<times> drill_db" where
  "MarkStepFailed now drillID name reason db =
     (if \<not> pg_text_ok reason then (Inl ErrConstraint, db)
      else (Inr (), upd_step drillID name (\<lambda>_. True)
        (\<lambda>s. s\<lparr>s_Status := StatusFailed, s_CompletedAt := Some now, s_Error := Some reason\<rparr>) db))"

definition MarkStepSkipped :: "gotime \<Rightarrow> uuid \<Rightarrow> StepName \<Rightarrow> drill_db \<Rightarrow> (store_error + unit) \<times> drill_db" where
  "MarkStepSkipped now drillID name db =
     (Inr (), upd_step drillID name (\<lambda>s. s_Status s = StatusPending)
        (\<lambda>s. s\<lparr>s_Status := StatusSkipped, s_CompletedAt := Some now\<rparr>) db)"

subsection \<open>Assertion results\<close>

definition ClearAssertionResults :: "uuid \<Rightarrow> drill_db \<Rightarrow> (store_error + unit) \<times> drill_db" where
  "ClearAssertionResults drillID db =
     (Inr (), db\<lparr>db_results := sql_delete (\<lambda>r. ar_DrillID r = drillID) (db_results db)\<rparr>)"

definition RecordAssertion ::
    "uuid \<Rightarrow> gotime \<Rightarrow> AssertionResult \<Rightarrow> drill_db \<Rightarrow> (store_error + unit) \<times> drill_db" where
  "RecordAssertion newid now ar db =
     (if \<not> assertion_kind_check (ar_Kind ar) \<or> \<not> drill_exists (ar_DrillID ar) db
      then (Inl ErrConstraint, db)
      else (Inr (), db\<lparr>db_results := db_results db @ [ar\<lparr>ar_ID := newid, ar_At := now\<rparr>]\<rparr>))"

definition ListAssertions :: "uuid \<Rightarrow> drill_db \<Rightarrow> AssertionResult list" where
  "ListAssertions drillID db = sort_key ar_At (filter (\<lambda>r. ar_DrillID r = drillID) (db_results db))"

subsection \<open>Quotas and idempotency\<close>

definition CountDrillsSince :: "uuid \<Rightarrow> gotime \<Rightarrow> drill_db \<Rightarrow> nat" where
  "CountDrillsSince accountID since db =
     sql_affected (\<lambda>d. d_AccountID d = accountID \<and> since \<le> d_CreatedAt d) (db_drills db)"

text \<open>
  \<open>github.com/google/uuid\<close> is a parameter: its \<open>String\<close> and \<open>Parse\<close>, of which the code uses
  that parsing a printed identifier gives the identifier back.
\<close>

record uuid_lib =
  uuid_String :: "uuid \<Rightarrow> string"
  uuid_Parse :: "string \<Rightarrow> uuid option"

definition uuid_lib_ok :: "uuid_lib \<Rightarrow> bool" where
  "uuid_lib_ok U = (\<forall>x. uuid_Parse U (uuid_String U x) = Some x)"

definition drill_create_scope :: string where
  "drill_create_scope = ''drill_create''"

text \<open>
  One transaction: on any error the deferred \<open>Rollback\<close> leaves the database as it was. The
  primary key \<open>(account_id, key, scope)\<close> rejects a second row for a key that another
  transaction inserted after this one looked.
\<close>

definition CreateDrillIdempotent ::
    "uuid_lib \<Rightarrow> uuid \<Rightarrow> gotime \<Rightarrow> uuid \<Rightarrow> uuid \<Rightarrow> uuid \<Rightarrow> string \<Rightarrow> drill_db \<Rightarrow>
      (store_error + uuid \<times> bool) \<times> drill_db" where
  "CreateDrillIdempotent U newid now accountID createdByUserID targetID key db =
     (if key = [] then (Inl ErrEmptyKey, db)
      else
        (case sql_first (\<lambda>k. (ik_AccountID k, ik_Key k, ik_Scope k) = (accountID, key, drill_create_scope))
           (db_idem db) of
           Some k \<Rightarrow>
             (case uuid_Parse U (ik_TargetID k) of
                None \<Rightarrow> (Inl ErrParseUUID, db)
              | Some i \<Rightarrow> (Inr (i, True), db))
         | None \<Rightarrow>
             if \<not> target_exists targetID db \<or> \<not> account_exists accountID db \<or>
                \<not> user_exists createdByUserID db
             then (Inl ErrConstraint, db)
             else
               (let d = \<lparr>d_ID = newid, d_TargetID = targetID, d_AccountID = accountID,
                      d_CreatedByUserID = createdByUserID, d_Status = StatusPending,
                      d_StartedAt = None, d_CompletedAt = None, d_Error = None,
                      d_EvidencePath = None, d_SandboxDB = None, d_SourceHash = None,
                      d_CreatedAt = now\<rparr>;
                    k = \<lparr>ik_AccountID = accountID, ik_UserID = createdByUserID, ik_Key = key,
                      ik_Scope = drill_create_scope, ik_TargetID = uuid_String U newid\<rparr>
                in (Inr (newid, False),
                    db\<lparr>db_drills := db_drills db @ [d], db_idem := db_idem db @ [k]\<rparr>))))"

subsection \<open>Aggregates\<close>

record DatabaseStat =
  dst_TargetID :: uuid
  dst_Name :: string
  dst_Total :: nat
  dst_Succeeded :: nat
  dst_Failed :: nat
  dst_LastDrill :: "gotime option"

definition max_time :: "gotime list \<Rightarrow> gotime option" where
  "max_time ts = (if ts = [] then None else Some (foldr max ts (hd ts)))"

definition DatabaseStats :: "uuid \<Rightarrow> gotime \<Rightarrow> drill_db \<Rightarrow> DatabaseStat list" where
  "DatabaseStats accountID since db =
     map (\<lambda>t. let ds = filter (\<lambda>d. d_TargetID d = t_ID t \<and> since \<le> d_CreatedAt d) (db_drills db) in
           \<lparr>dst_TargetID = t_ID t, dst_Name = t_Name t, dst_Total = length ds,
            dst_Succeeded = sql_affected (\<lambda>d. d_Status d = StatusSucceeded) ds,
            dst_Failed = sql_affected (\<lambda>d. d_Status d = StatusFailed) ds,
            dst_LastDrill = max_time (map d_CreatedAt ds)\<rparr>)
       (sort_key t_Name (filter (\<lambda>t. t_AccountID t = accountID \<and> live t) (db_targets db)))"

record ReadinessStat =
  rs_LastSuccessAt :: "gotime option"
  rs_LastStatus :: "Status option"
  rs_Recent :: nat
  rs_RecentPassed :: nat

definition verdict :: "Drill \<Rightarrow> bool" where
  "verdict d = (d_Status d = StatusSucceeded \<or> d_Status d = StatusFailed)"

text \<open>\<open>ORDER BY completed_at DESC NULLS LAST\<close>: a missing completion time sorts behind all others.\<close>

definition ReadinessStats :: "gotime \<Rightarrow> uuid \<Rightarrow> drill_db \<Rightarrow> uuid \<rightharpoonup> ReadinessStat" where
  "ReadinessStats now accountID db targetID =
     (let ds = filter (\<lambda>d. d_AccountID d = accountID \<and> d_TargetID d = targetID) (db_drills db);
          recent = filter (\<lambda>d. now - 90 * nsDay < d_CreatedAt d) ds;
          done = filter verdict ds;
          ordered = sort_key (\<lambda>d. - coalesce (d_CompletedAt d) 0) (filter (\<lambda>d. d_CompletedAt d \<noteq> None) done)
            @ filter (\<lambda>d. d_CompletedAt d = None) done
      in if ds = [] then None
         else Some \<lparr>rs_LastSuccessAt =
                max_time (map (\<lambda>d. coalesce (d_CompletedAt d) 0)
                  (filter (\<lambda>d. d_Status d = StatusSucceeded \<and> d_CompletedAt d \<noteq> None) ds)),
              rs_LastStatus = (case ordered of [] \<Rightarrow> None | d # _ \<Rightarrow> Some (d_Status d)),
              rs_Recent = sql_affected verdict recent,
              rs_RecentPassed = sql_affected (\<lambda>d. d_Status d = StatusSucceeded) recent\<rparr>)"

section \<open>Invariant of the store\<close>

definition fk_steps :: "drill_db \<Rightarrow> bool" where
  "fk_steps db = (\<forall>s \<in> set (db_steps db). drill_exists (s_DrillID s) db)"

definition fk_results :: "drill_db \<Rightarrow> bool" where
  "fk_results db = (\<forall>r \<in> set (db_results db). drill_exists (ar_DrillID r) db)"

definition fk_drills :: "drill_db \<Rightarrow> bool" where
  "fk_drills db = (\<forall>d \<in> set (db_drills db). target_exists (d_TargetID d) db)"

definition idem_claims :: "uuid_lib \<Rightarrow> drill_db \<Rightarrow> bool" where
  "idem_claims U db = (\<forall>k \<in> set (db_idem db). \<exists>d \<in> set (db_drills db).
     uuid_Parse U (ik_TargetID k) = Some (d_ID d) \<and> d_AccountID d = ik_AccountID k)"

abbreviation step_key :: "Step \<Rightarrow> uuid \<times> StepName" where
  "step_key s \<equiv> (s_DrillID s, s_Name s)"

abbreviation idem_key :: "idem_row \<Rightarrow> uuid \<times> string \<times> string" where
  "idem_key k \<equiv> (ik_AccountID k, ik_Key k, ik_Scope k)"

definition store_ok :: "uuid_lib \<Rightarrow> drill_db \<Rightarrow> bool" where
  "store_ok U db \<longleftrightarrow>
     distinct (map t_ID (db_targets db)) \<and> distinct (map d_ID (db_drills db)) \<and>
     distinct (map step_key (db_steps db)) \<and> distinct (map idem_key (db_idem db)) \<and>
     fk_steps db \<and> fk_results db \<and> fk_drills db \<and> idem_claims U db"

inductive store_step :: "uuid_lib \<Rightarrow> drill_db \<Rightarrow> drill_db \<Rightarrow> bool" for U :: uuid_lib where
  create_target: "\<not> target_exists newid db \<Longrightarrow> store_step U db (snd (CreateTarget newid now t db))"
| set_team: "store_step U db (snd (SetTargetTeam acc tid team db))"
| set_schedule: "store_step U db (snd (SetTargetSchedule acc tid cadence nextAt db))"
| advance: "store_step U db (AdvanceTargetSchedule tid nextAt db)"
| create_drill: "\<not> drill_exists newid db \<Longrightarrow>
     store_step U db (snd (CreateDrillIdempotent U newid now acc user tid key db))"
| drill_running: "store_step U db (snd (MarkDrillRunning now d db))"
| drill_succeeded: "store_step U db (snd (MarkDrillSucceeded now d path db))"
| drill_failed: "store_step U db (snd (MarkDrillFailed now d reason db))"
| sandbox: "store_step U db (snd (SetSandboxDB d name db))"
| source_hash: "store_step U db (snd (SetSourceHash d hash db))"
| evidence: "store_step U db (snd (MarkEvidence d path db))"
| create_assertion: "store_step U db (snd (CreateAssertion newid now tid kind config db))"
| delete_assertion: "store_step U db (snd (DeleteAssertion acc aid db))"
| create_step: "store_step U db (snd (CreateStepIfMissing newid d name ord idem db))"
| step_running: "store_step U db (snd (MarkStepRunning now d name db))"
| step_output: "store_step U db (snd (SetStepOutput sha d name out db))"
| step_succeeded: "store_step U db (snd (MarkStepSucceeded now d name db))"
| step_failed: "store_step U db (snd (MarkStepFailed now d name reason db))"
| step_skipped: "store_step U db (snd (MarkStepSkipped now d name db))"
| clear_results: "store_step U db (snd (ClearAssertionResults d db))"
| record_result: "store_step U db (snd (RecordAssertion newid now ar db))"

lemmas drill_updates = MarkDrillRunning_def MarkDrillSucceeded_def MarkDrillFailed_def SetSandboxDB_def
  SetSourceHash_def MarkEvidence_def

lemmas step_updates = MarkStepRunning_def MarkStepSucceeded_def MarkStepFailed_def MarkStepSkipped_def
  SetStepOutput_def

lemma upd_drill_frame [simp]:
  "db_targets (upd_drill d G f db) = db_targets db" "db_steps (upd_drill d G f db) = db_steps db"
  "db_results (upd_drill d G f db) = db_results db" "db_idem (upd_drill d G f db) = db_idem db"
  by (simp_all add: upd_drill_def)

lemma upd_step_frame [simp]:
  "db_targets (upd_step d n G f db) = db_targets db" "db_drills (upd_step d n G f db) = db_drills db"
  "db_results (upd_step d n G f db) = db_results db" "db_idem (upd_step d n G f db) = db_idem db"
  by (simp_all add: upd_step_def)


























section \<open>Idempotent creation\<close>

lemma store_step_idem: "store_step U db db' \<Longrightarrow> \<exists>ks. db_idem db' = db_idem db @ ks"
  by (induction rule: store_step.induct)
    (auto simp: CreateTarget_def SetTargetTeam_def SetTargetSchedule_def AdvanceTargetSchedule_def Let_def
      CreateDrillIdempotent_def drill_updates step_updates CreateAssertion_def DeleteAssertion_def
      CreateStepIfMissing_def ClearAssertionResults_def RecordAssertion_def split: option.splits)

lemma store_run_idem: "(store_step U)\<^sup>*\<^sup>* db db' \<Longrightarrow> \<exists>ks. db_idem db' = db_idem db @ ks"
proof (induction rule: rtranclp_induct)
  case base
  show ?case by simp
next
  case (step y z)
  then show ?case using store_step_idem [of U y z] by auto
qed

lemma CreateDrillIdempotent_claim:
  assumes "uuid_lib_ok U"
    and "CreateDrillIdempotent U newid now acc user tid key db = (Inr (i, reused), db')"
  shows "key \<noteq> [] \<and>
    (\<exists>k. sql_first (\<lambda>k. idem_key k = (acc, key, drill_create_scope)) (db_idem db') = Some k \<and>
       uuid_Parse U (ik_TargetID k) = Some i)"
  using assms
  by (auto simp: CreateDrillIdempotent_def Let_def uuid_lib_ok_def sql_first_append
      split: option.splits if_splits)

lemma idem_claim_persists:
  assumes "(store_step U)\<^sup>*\<^sup>* db db'" and "sql_first P (db_idem db) = Some k"
  shows "sql_first P (db_idem db') = Some k"
proof -
  obtain ks where "db_idem db' = db_idem db @ ks" using store_run_idem [OF assms(1)] by blast
  with assms(2) show ?thesis by (simp add: sql_first_append)
qed

text \<open>
  C10. Creation is idempotent per account and key, across any later history of the store: once
  a call has returned a drill, every further call with the same account and key, whoever
  makes it, for whatever target and whenever, returns that drill with the reused flag and
  leaves the database alone.
\<close>

theorem create_drill_idempotent:
  assumes "uuid_lib_ok U"
    and "CreateDrillIdempotent U newid now acc user tid key db = (Inr (i, reused), db')"
    and "(store_step U)\<^sup>*\<^sup>* db' db''"
  shows "CreateDrillIdempotent U newid' now' acc user' tid' key db'' = (Inr (i, True), db'')"
proof -
  from CreateDrillIdempotent_claim [OF assms(1,2)] obtain k where
    key: "key \<noteq> []" and
    k: "sql_first (\<lambda>k. idem_key k = (acc, key, drill_create_scope)) (db_idem db') = Some k" and
    parse: "uuid_Parse U (ik_TargetID k) = Some i"
    by blast
  from idem_claim_persists [OF assms(3) k] key parse show ?thesis
    by (simp add: CreateDrillIdempotent_def)
qed

text \<open>A concrete database and identifier library for the witnesses: identifiers print in unary.\<close>

definition unary_uuid :: uuid_lib where
  "unary_uuid = \<lparr>uuid_String = (\<lambda>n. replicate n CHR ''1''), uuid_Parse = (\<lambda>s. Some (length s))\<rparr>"

lemma unary_uuid_ok: "uuid_lib_ok unary_uuid"
  by (simp add: uuid_lib_ok_def unary_uuid_def)

definition sample_account_row :: account_row where
  "sample_account_row = \<lparr>acct_ID = 1, acct_Name = ''acme'', acct_Slug = ''acme'',
     acct_StripeCustomerID = None, acct_Plan = ''starter'', acct_CreatedAt = 0,
     acct_TrialEndsAt = None, acct_SubscriptionStatus = None, acct_Unlimited = False,
     acct_deleted_at = None\<rparr>"

definition sample_target :: "uuid \<Rightarrow> gotime \<Rightarrow> target_row" where
  "sample_target i at = \<lparr>t_ID = i, t_AccountID = 1, t_CreatedByUserID = 2, t_Name = ''db'',
     t_SourceKind = ''postgres_dump_local'', t_SourceURI = ''/d'', t_TeamID = None,
     t_CreatedAt = at, t_DrillCadence = ''daily'', t_NextDrillAt = Some 0, t_IsSample = False,
     t_deleted_at = None\<rparr>"

definition sample_db :: drill_db where
  "sample_db = \<lparr>db_users = [(2, ''u@x'')], db_accounts = [sample_account_row], db_teams = [],
     db_targets = [sample_target 3 5, sample_target 4 5, sample_target 5 9], db_assertions = [],
     db_drills = [], db_steps = [], db_results = [], db_idem = []\<rparr>"

lemma sample_db_ok: "store_ok unary_uuid sample_db"
  by (simp add: store_ok_def sample_db_def sample_target_def fk_steps_def fk_results_def fk_drills_def
      idem_claims_def)

theorem create_drill_idempotent_witness:
  "\<exists>db. CreateDrillIdempotent unary_uuid 7 100 1 2 3 ''k'' sample_db = (Inr (7, False), db) \<and>
     CreateDrillIdempotent unary_uuid 8 200 1 9 4 ''k'' (snd (MarkDrillRunning 150 7 db)) =
       (Inr (7, True), snd (MarkDrillRunning 150 7 db))"
proof -
  obtain db where db: "CreateDrillIdempotent unary_uuid 7 100 1 2 3 ''k'' sample_db = (Inr (7, False), db)"
    by (simp add: CreateDrillIdempotent_def sample_db_def Let_def target_exists_def sample_target_def
        account_exists_def sample_account_row_def user_exists_def)
  have "(store_step unary_uuid)\<^sup>*\<^sup>* db (snd (MarkDrillRunning 150 7 db))"
    by (rule r_into_rtranclp) (rule store_step.drill_running)
  from create_drill_idempotent [OF unary_uuid_ok db this] db show ?thesis by blast
qed


section \<open>Tenant boundary\<close>

definition team_ok :: "drill_db \<Rightarrow> bool" where
  "team_ok db = (\<forall>r \<in> set (db_targets db). case t_TeamID r of None \<Rightarrow> True
     | Some m \<Rightarrow> \<exists>t \<in> set (db_teams db). tm_ID t = m \<and> tm_AccountID t = t_AccountID r)"

lemma upd_frame_teams [simp]:
  "db_teams (upd_drill d G f db) = db_teams db" "db_teams (upd_step d n H h db) = db_teams db"
  by (simp_all add: upd_drill_def upd_step_def)

lemma team_ok_SetTargetTeam:
  assumes "team_ok db"
  shows "team_ok (snd (SetTargetTeam acc tid team db))"
  using assms
  by (auto simp: SetTargetTeam_def Let_def team_ok_def set_sql_update split: option.splits)

lemma team_ok_targets:
  assumes "team_ok db" and "\<And>r. t_TeamID (f r) = t_TeamID r" "\<And>r. t_AccountID (f r) = t_AccountID r"
  shows "team_ok (db\<lparr>db_targets := sql_update P f (db_targets db)\<rparr>)"
  using assms by (auto simp: team_ok_def set_sql_update split: option.splits)

lemma team_ok_step: "store_step U db db' \<Longrightarrow> team_ok db \<Longrightarrow> team_ok db'"
proof (induction rule: store_step.induct)
  case (set_team db acc tid team)
  then show ?case by (simp add: team_ok_SetTargetTeam)
next
  case (set_schedule db acc tid cadence nextAt)
  then show ?case by (simp add: SetTargetSchedule_def Let_def team_ok_targets)
next
  case (advance db tid nextAt)
  then show ?case by (simp add: AdvanceTargetSchedule_def team_ok_targets)
qed (auto simp: CreateTarget_def CreateDrillIdempotent_def Let_def drill_updates step_updates
      CreateAssertion_def DeleteAssertion_def CreateStepIfMissing_def ClearAssertionResults_def
      RecordAssertion_def team_ok_def split: option.splits)

text \<open>What a scoped read may show: the account's own live targets, unassigned or in a team of the scope.\<close>

definition may_see :: "uuid \<Rightarrow> Scope \<Rightarrow> Target \<Rightarrow> bool" where
  "may_see acc scope t = (t_AccountID t = acc \<and>
     (sc_All scope \<or> t_TeamID t = None \<or> (\<exists>m \<in> set (sc_TeamIDs scope). t_TeamID t = Some m)))"

lemma truncate_target [simp]:
  "t_ID (Target.truncate r) = t_ID r" "t_AccountID (Target.truncate r) = t_AccountID r"
  "t_TeamID (Target.truncate r) = t_TeamID r" "t_CreatedAt (Target.truncate r) = t_CreatedAt r"
  "t_DrillCadence (Target.truncate r) = t_DrillCadence r"
  "t_NextDrillAt (Target.truncate r) = t_NextDrillAt r"
  by (simp_all add: Target.truncate_def)

lemma may_see_truncate:
  "t_AccountID r = acc \<Longrightarrow> team_visible scope r \<Longrightarrow> may_see acc scope (Target.truncate r)"
  by (auto simp: may_see_def team_visible_def teamArgs_def)

text \<open>
  C11. The tenant and team boundary. From a database in which every target's team belongs to
  the target's account, whatever store operations run: a target the reads with a scope return for
  an account is that account's, is unassigned or in one of the scope's teams unless the
  scope is account-wide, and a team it carries is a team of the same account, so a forged
  team identifier never moves a database across accounts; and a drill they return is the account's, and unless the scope is
  account-wide its target is unassigned or in one of the scope's teams.
\<close>

theorem tenant_boundary:
  assumes "team_ok db" and "(store_step U)\<^sup>*\<^sup>* db db'"
  shows "(\<forall>t. t \<in> set (ListTargets acc scope db') \<or> GetTarget acc tid scope db' = Inr t \<or>
       (\<exists>ts. ListTargetsPage acc scope afterAt afterID limit db' = Inr ts \<and> t \<in> set ts) \<longrightarrow>
     may_see acc scope t \<and> (\<forall>m. t_TeamID t = Some m \<longrightarrow>
       (\<exists>team \<in> set (db_teams db'). tm_ID team = m \<and> tm_AccountID team = acc))) \<and>
   (\<forall>d. GetDrill acc did scope db' = Inr d \<or> (\<exists>ds. ListDrills acc scope limit db' = Inr ds \<and> d \<in> set ds) \<or>
       (\<exists>ds. ListDrillsPage acc scope afterAt afterID limit db' = Inr ds \<and> d \<in> set ds) \<longrightarrow>
     d_AccountID d = acc \<and> (sc_All scope \<or> (\<exists>t \<in> set (db_targets db'). t_ID t = d_TargetID d \<and>
       (t_TeamID t = None \<or> (\<exists>m \<in> set (sc_TeamIDs scope). t_TeamID t = Some m)))))"
proof (intro conjI allI impI)
  fix t
  assume h: "t \<in> set (ListTargets acc scope db') \<or> GetTarget acc tid scope db' = Inr t \<or>
       (\<exists>ts. ListTargetsPage acc scope afterAt afterID limit db' = Inr ts \<and> t \<in> set ts)"
  from assms(2,1) have ok: "team_ok db'"
    by (induction rule: rtranclp_induct) (auto intro: team_ok_step)
  from h obtain r where r: "r \<in> set (db_targets db')" "t_AccountID r = acc" "team_visible scope r"
    and t: "t_AccountID t = t_AccountID r" "t_TeamID t = t_TeamID r"
    by (auto simp: ListTargets_def GetTarget_def ListTargetsPage_def may_see_def dest!: sql_first_Some set_take_subset [THEN subsetD]
        split: option.splits if_splits)
  from r may_see_truncate [of r acc scope] t show "may_see acc scope t"
    by (simp add: may_see_def)
  show "\<exists>team \<in> set (db_teams db'). tm_ID team = m \<and> tm_AccountID team = acc" if "t_TeamID t = Some m" for m
    using that ok r t by (auto simp: team_ok_def split: option.splits)
next
  fix d
  assume "GetDrill acc did scope db' = Inr d \<or> (\<exists>ds. ListDrills acc scope limit db' = Inr ds \<and> d \<in> set ds) \<or>
       (\<exists>ds. ListDrillsPage acc scope afterAt afterID limit db' = Inr ds \<and> d \<in> set ds)"
  then have d: "d_AccountID d = acc" "drill_visible scope db' d"
    by (auto simp: GetDrill_def ListDrills_def ListDrillsPage_def dest!: sql_first_Some set_take_subset [THEN subsetD]
        split: option.splits if_splits)
  show "d_AccountID d = acc" by (rule d(1))
  show "sc_All scope \<or> (\<exists>t \<in> set (db_targets db'). t_ID t = d_TargetID d \<and>
       (t_TeamID t = None \<or> (\<exists>m \<in> set (sc_TeamIDs scope). t_TeamID t = Some m)))"
    using d(2) by (simp add: drill_visible_def teamArgs_def)
qed

lemma sample_db_team_ok: "team_ok sample_db"
  by (simp add: team_ok_def sample_db_def sample_target_def)

theorem tenant_boundary_witness:
  "Target.truncate (sample_target 3 5) \<in> set (ListTargets 1 ScopeAll sample_db) \<and>
   may_see 1 ScopeAll (Target.truncate (sample_target 3 5))"
proof -
  have h: "Target.truncate (sample_target 3 5) \<in> set (ListTargets 1 ScopeAll sample_db)"
    by (simp add: ListTargets_def sample_db_def sample_target_def live_def team_visible_def teamArgs_def
        ScopeAll_def)
  show ?thesis
    using h tenant_boundary [OF sample_db_team_ok rtranclp.rtrancl_refl] by blast
qed

section \<open>Keyset pages\<close>

text \<open>
  What a keyset-paginated listing promises its client: the page after a row is the next rows
  in key order. The client that follows cursors from page to page is \<open>page_walk\<close>; proved once
  here, it sees every row exactly once and in order.
\<close>

fun page_walk :: "('r option \<Rightarrow> nat \<Rightarrow> 'r list) \<Rightarrow> nat \<Rightarrow> nat \<Rightarrow> 'r option \<Rightarrow> 'r list" where
  "page_walk page n 0 c = []"
| "page_walk page n (Suc fuel) c =
     (let p = page c n in if length p < n then p else p @ page_walk page n fuel (Some (last p)))"

lemma sorted_key_drop:
  assumes "sorted (map key xs)" and "distinct (map key xs)" and "i < length xs"
  shows "filter (\<lambda>x. (key (xs ! i) :: 'k::linorder) < key x) xs = drop (Suc i) xs"
proof -
  have lt: "j < k \<Longrightarrow> k < length xs \<Longrightarrow> key (xs ! j) < key (xs ! k)" for j k
  proof -
    assume jk: "j < k" "k < length xs"
    then have "key (xs ! j) \<le> key (xs ! k)"
      using assms(1) sorted_nth_mono [of "map key xs" j k] by simp
    moreover have "key (xs ! j) \<noteq> key (xs ! k)"
      using assms(2) jk nth_eq_iff_index_eq [of "map key xs" j k] by simp
    ultimately show ?thesis by simp
  qed
  let ?P = "\<lambda>x. key (xs ! i) < key x"
  have "filter ?P (take (Suc i) xs) = []"
  proof -
    have "\<not> ?P (xs ! j)" if "j \<le> i" for j
    proof (cases "j = i")
      case False
      with that lt [of j i] assms(3) show ?thesis by simp
    qed simp
    then show ?thesis by (auto simp: filter_empty_conv in_set_conv_nth less_Suc_eq_le)
  qed
  moreover have "filter ?P (drop (Suc i) xs) = drop (Suc i) xs"
  proof -
    have "?P x" if "x \<in> set (drop (Suc i) xs)" for x
      using that lt by (force simp: in_set_conv_nth)
    then show ?thesis by simp
  qed
  ultimately show ?thesis by (metis append_Nil append_take_drop_id filter_append)
qed

locale keyset_pages =
  fixes rows :: "'s \<Rightarrow> 'r list"
    and key :: "'r \<Rightarrow> 'k::linorder"
    and page :: "'s \<Rightarrow> 'r option \<Rightarrow> nat \<Rightarrow> 'r list"
  assumes page_first: "page s None n = take n (sort_key key (rows s))"
    and page_after: "page s (Some r) n = take n (sort_key key (filter (\<lambda>q. key r < key q) (rows s)))"
begin

lemma filter_sort: "sort_key key (filter P (rows s)) = filter P (sort_key key (rows s))"
  by (simp add: filter_sort)

lemma page_after_nth:
  assumes "distinct (map key (rows s))" and "i < length (rows s)"
  shows "page s (Some (sort_key key (rows s) ! i)) n = take n (drop (Suc i) (sort_key key (rows s)))"
proof -
  have "distinct (map key (sort_key key (rows s)))"
    using assms(1) by (simp add: distinct_map)
  then show ?thesis
    using sorted_key_drop [of key "sort_key key (rows s)" i] assms(2)
    by (simp add: page_after filter_sort)
qed

lemma walk_from:
  assumes "distinct (map key (rows s))" and "0 < n" and "length (rows s) \<le> fuel + i"
    and "i < length (rows s)"
  shows "page_walk (page s) n fuel (Some (sort_key key (rows s) ! i)) = drop (Suc i) (sort_key key (rows s))"
  using assms(3,4)
proof (induction fuel arbitrary: i)
  case 0
  then show ?case by simp
next
  case (Suc fuel)
  let ?S = "sort_key key (rows s)"
  let ?p = "take n (drop (Suc i) ?S)"
  have p: "page s (Some (?S ! i)) n = ?p"
    using page_after_nth [OF assms(1) Suc.prems(2)] .
  show ?case
  proof (cases "length ?p < n")
    case True
    then have "?p = drop (Suc i) ?S" by simp
    with True show ?thesis by (simp add: p)
  next
    case False
    then have len: "Suc i + n \<le> length ?S"
      using assms(2) by (simp add: min_def split: if_splits)
    have last: "last ?p = ?S ! (i + n)"
      using len assms(2) by (simp add: last_take_nth)
    have "page_walk (page s) n fuel (Some (?S ! (i + n))) = drop (Suc (i + n)) ?S"
      using Suc.IH [of "i + n"] Suc.prems len assms(2) by simp
    moreover have "?p @ drop (Suc (i + n)) ?S = drop (Suc i) ?S"
      by (metis add.commute add_Suc_right append_take_drop_id drop_drop)
    ultimately show ?thesis using False last by (simp add: p)
  qed
qed

lemma walk_all:
  assumes "distinct (map key (rows s))" and "0 < n" and "length (rows s) < fuel"
  shows "page_walk (page s) n fuel None = sort_key key (rows s)"
proof (cases fuel)
  case 0
  with assms(3) show ?thesis by simp
next
  case (Suc f)
  let ?S = "sort_key key (rows s)"
  show ?thesis
  proof (cases "length ?S < n")
    case True
    then show ?thesis by (simp add: Suc page_first)
  next
    case False
    then have last: "last (take n ?S) = ?S ! (n - 1)"
      using assms(2) by (simp add: last_take_nth)
    have "page_walk (page s) n f (Some (?S ! (n - 1))) = drop n ?S"
      using walk_from [OF assms(1,2), of f "n - 1"] Suc assms(2,3) False by simp
    then show ?thesis using False last by (simp add: Suc page_first)
  qed
qed

end

lemma map_sort_key: "map f (sort_key (\<lambda>x. k (f x)) xs) = sort_key k (map f xs)"
proof (induction xs)
  case (Cons x xs)
  have "map f (insort_key (\<lambda>x. k (f x)) x ys) = insort_key k (f x) (map f ys)" for ys
    by (induction ys) auto
  with Cons show ?case by simp
qed simp

lemma before_cursor_row:
  "before_cursor (Some a) (Some j) c i \<longleftrightarrow> (- a, - int j) < (- c, - int i)"
  by (auto simp: before_cursor_def)

text \<open>The two paginated listings of the store meet the contract.\<close>

definition page_view :: "target_row \<Rightarrow> Target" where
  "page_view r = (Target.truncate r)\<lparr>t_DrillCadence := [], t_NextDrillAt := None\<rparr>"

definition target_key :: "Target \<Rightarrow> int \<times> int" where
  "target_key t = (- t_CreatedAt t, - int (t_ID t))"

definition drill_key :: "Drill \<Rightarrow> int \<times> int" where
  "drill_key d = (- d_CreatedAt d, - int (d_ID d))"

fun target_rows :: "uuid \<times> Scope \<times> drill_db \<Rightarrow> Target list" where
  "target_rows (acc, scope, db) =
     map page_view (filter (\<lambda>r. t_AccountID r = acc \<and> live r \<and> team_visible scope r) (db_targets db))"

fun target_page :: "uuid \<times> Scope \<times> drill_db \<Rightarrow> Target option \<Rightarrow> nat \<Rightarrow> Target list" where
  "target_page (acc, scope, db) c n =
     projr (ListTargetsPage acc scope (map_option t_CreatedAt c) (map_option t_ID c) (int n) db)"

fun drill_rows :: "uuid \<times> Scope \<times> drill_db \<Rightarrow> Drill list" where
  "drill_rows (acc, scope, db) = filter (\<lambda>d. d_AccountID d = acc \<and> drill_visible scope db d) (db_drills db)"

fun drill_page :: "uuid \<times> Scope \<times> drill_db \<Rightarrow> Drill option \<Rightarrow> nat \<Rightarrow> Drill list" where
  "drill_page (acc, scope, db) c n =
     projr (ListDrillsPage acc scope (map_option d_CreatedAt c) (map_option d_ID c) (int n) db)"

lemma target_key_view: "target_key (page_view r) = (- t_CreatedAt r, - int (t_ID r))"
  by (simp add: target_key_def page_view_def)

lemma ListTargetsPage_view:
  "projr (ListTargetsPage acc scope a i (int n) db) =
     take n (sort_key target_key (map page_view (filter (\<lambda>r. t_AccountID r = acc \<and> live r \<and>
       team_visible scope r \<and> before_cursor a i (t_CreatedAt r) (t_ID r)) (db_targets db))))"
  using map_sort_key [of page_view target_key, symmetric]
  by (simp add: ListTargetsPage_def page_view_def [symmetric] take_map target_key_view)

interpretation tp: keyset_pages target_rows target_key target_page
proof unfold_locales
  fix s n
  show "target_page s None n = take n (sort_key target_key (target_rows s))"
    by (cases s) (simp add: ListTargetsPage_view before_cursor_def)
next
  fix s r n
  show "target_page s (Some r) n =
      take n (sort_key target_key (filter (\<lambda>q. target_key r < target_key q) (target_rows s)))"
    by (cases s) (simp add: ListTargetsPage_view filter_map comp_def target_key_view target_key_def [of r]
        before_cursor_row conj_ac cong: conj_cong)
qed

interpretation dp: keyset_pages drill_rows drill_key drill_page
proof unfold_locales
  fix s n
  show "drill_page s None n = take n (sort_key drill_key (drill_rows s))"
    by (cases s) (simp add: ListDrillsPage_def before_cursor_def drill_key_def [abs_def])
next
  fix s r n
  show "drill_page s (Some r) n =
      take n (sort_key drill_key (filter (\<lambda>q. drill_key r < drill_key q) (drill_rows s)))"
    by (cases s) (simp add: ListDrillsPage_def before_cursor_row drill_key_def [abs_def] conj_ac cong: conj_cong)
qed

lemma target_keys_distinct:
  assumes "store_ok U db"
  shows "distinct (map target_key (target_rows (acc, scope, db)))"
proof -
  have "distinct (map t_ID (filter P (db_targets db)))" for P
    using assms by (simp add: store_ok_def distinct_map_filter)
  then show ?thesis
    by (auto simp: comp_def target_key_view distinct_map inj_on_def)
qed

lemma drill_keys_distinct:
  assumes "store_ok U db"
  shows "distinct (map drill_key (drill_rows (acc, scope, db)))"
proof -
  have "distinct (map d_ID (filter P (db_drills db)))" for P
    using assms by (simp add: store_ok_def distinct_map_filter)
  then show ?thesis
    by (auto simp: drill_key_def distinct_map inj_on_def)
qed

text \<open>
  C14. Paging through \<open>ListTargetsPage\<close> and \<open>ListDrillsPage\<close> with any positive page size, each
  page continued from the last row of the one before until a page comes back short, yields
  every visible row of the account exactly once and in descending creation order, whatever
  ties the creation times have.
\<close>

theorem paging_complete:
  assumes "store_ok U db" and "0 < n"
    and "length (db_targets db) < fuel" and "length (db_drills db) < fuel"
  shows "page_walk (target_page (acc, scope, db)) n fuel None =
      sort_key target_key (target_rows (acc, scope, db)) \<and>
    page_walk (drill_page (acc, scope, db)) n fuel None =
      sort_key drill_key (drill_rows (acc, scope, db))"
proof
  have "length (target_rows (acc, scope, db)) < fuel"
    using assms(3) le_less_trans [OF length_filter_le] by simp
  then show "page_walk (target_page (acc, scope, db)) n fuel None =
      sort_key target_key (target_rows (acc, scope, db))"
    by (rule tp.walk_all [OF target_keys_distinct [OF assms(1)] assms(2)])
  have "length (drill_rows (acc, scope, db)) < fuel"
    using assms(4) le_less_trans [OF length_filter_le] by simp
  then show "page_walk (drill_page (acc, scope, db)) n fuel None =
      sort_key drill_key (drill_rows (acc, scope, db))"
    by (rule dp.walk_all [OF drill_keys_distinct [OF assms(1)] assms(2)])
qed

theorem paging_complete_witness:
  "map t_ID (page_walk (target_page (1, ScopeAll, sample_db)) 2 9 None) = [5, 4, 3]"
proof -
  have "page_walk (target_page (1, ScopeAll, sample_db)) 2 9 None =
      sort_key target_key (target_rows (1, ScopeAll, sample_db))"
    using paging_complete [OF sample_db_ok, of 2 9 1 ScopeAll] by (simp add: sample_db_def)
  also have "map t_ID \<dots> = [5, 4, 3]"
    by (simp add: sample_db_def sample_target_def live_def team_visible_def teamArgs_def ScopeAll_def
        target_key_def page_view_def)
  finally show ?thesis .
qed

section \<open>The schema against the code\<close>

text \<open>
  Two values the application offers are refused by the schema: whatever the plan, the
  monthly cadence is in its list of allowed cadences, yet storing it always fails and
  changes nothing; and an assertion of kind \<open>sql_query\<close> can neither be configured on a target
  nor recorded as a result.
\<close>

theorem schema_refuses_offered_values:
  "CadenceAllowed p ''monthly'' \<and>
   fst (SetTargetSchedule acc tid ''monthly'' nextAt db) \<noteq> Inr () \<and>
   snd (SetTargetSchedule acc tid ''monthly'' nextAt db) = db \<and>
   CreateAssertion newid now tid ''sql_query'' config db = (Inl ErrConstraint, db) \<and>
   RecordAssertion newid now (ar\<lparr>ar_Kind := ''sql_query''\<rparr>) db = (Inl ErrConstraint, db)"
  by (simp add: CadenceAllowed_set AllowedCadences_def SetTargetSchedule_def cadence_check_def Let_def
      CreateAssertion_def assertion_kind_check_def RecordAssertion_def)

end
