(* ===== verification/Go_Float.thy ===== *)
theory Go_Float
  imports "HOL-Library.Countable" "HOL-Library.Signed_Division"
begin

section \<open>Go's floating-point numbers\<close>

text \<open>
  A \<open>float64\<close> as the rational number it denotes, and the rounding of IEEE 754 after each operation: to
  nearest with ties to even, at 53 bits of precision. The bounds of the exponent are left out: the
  numbers the program computes are far from underflow and overflow, and the only ones it reads from outside, JSON numbers,
  are at once converted to integers, where both ends do not matter. Products and sums are rounded separately, as Go compiles them for amd64.
\<close>

subsection \<open>Rounding\<close>

function bit_len :: "int \<Rightarrow> nat" where
  "bit_len n = (if n \<le> 0 then 0 else Suc (bit_len (n div 2)))"
  by auto
termination by (relation "measure nat") auto

declare bit_len.simps [simp del]

definition exponent :: "rat \<Rightarrow> int" where
  "exponent x =
     (case quotient_of x of (p, q) \<Rightarrow>
        let k = int (bit_len p) - int (bit_len q) in
        if 2 powi k \<le> x then k else k - 1)"

definition half_even :: "rat \<Rightarrow> int" where
  "half_even x =
     (let n = \<lfloor>x\<rfloor>; d = x - of_int n in
      if d < 1/2 then n else if 1/2 < d then n + 1 else if even n then n else n + 1)"

definition round_pos :: "rat \<Rightarrow> rat" where
  "round_pos x = (let u = 2 powi (exponent x - 52) in of_int (half_even (x / u)) * u)"

definition fl :: "rat \<Rightarrow> rat" where
  "fl x = (if x = 0 then 0 else if x < 0 then - round_pos (- x) else round_pos x)"

subsection \<open>Conversions\<close>

text \<open>A conversion of a float to an integer drops the fraction.\<close>

definition trunc_int :: "rat \<Rightarrow> int" where
  "trunc_int x = (if x < 0 then \<lceil>x\<rceil> else \<lfloor>x\<rfloor>)"

definition Seconds :: "int \<Rightarrow> rat" where
  "Seconds d = fl (fl (of_int (d sdiv 1000000000)) + fl (fl (of_int (d smod 1000000000)) / 1000000000))"

subsection \<open>The exponent\<close>

lemma bit_len_bounds: "0 < n \<Longrightarrow> 2 ^ (bit_len n - 1) \<le> n \<and> n < 2 ^ bit_len n"
proof (induction n rule: bit_len.induct)
  case (1 n)
  show ?case
  proof (cases "n div 2 = 0")
    case True
    with 1 have "n = 1" by linarith
    then show ?thesis by (simp add: bit_len.simps)
  next
    case False
    then have h: "0 < n div 2" using 1 by linarith
    have IH: "2 ^ (bit_len (n div 2) - 1) \<le> n div 2 \<and> n div 2 < 2 ^ bit_len (n div 2)" using 1 h by simp
    have n: "bit_len n = Suc (bit_len (n div 2))" using 1 by (simp add: bit_len.simps [of n])
    have "0 < bit_len (n div 2)" using h by (simp add: bit_len.simps [of "n div 2"])
    then obtain k where k: "bit_len (n div 2) = Suc k" using gr0_implies_Suc by blast
    have "2 ^ bit_len (n div 2) = 2 * (2 ^ (bit_len (n div 2) - 1) :: int)" using k by simp
    then show ?thesis using IH n by (simp add: k) linarith
  qed
qed

lemma bit_len_rat: "0 < p \<Longrightarrow> (2::rat) ^ (bit_len p - 1) \<le> of_int p \<and> of_int p < (2::rat) ^ bit_len p"
proof -
  assume "0 < p"
  then have n: "2 ^ (bit_len p - 1) \<le> p" "p < 2 ^ bit_len p" using bit_len_bounds [of p] by auto
  from n(1) have "of_int (2 ^ (bit_len p - 1)) \<le> (of_int p :: rat)" unfolding of_int_le_iff .
  moreover from n(2) have "of_int p < (of_int (2 ^ bit_len p) :: rat)" unfolding of_int_less_iff .
  ultimately show ?thesis by simp
qed

lemma powi_nat: "(2::rat) powi (int a - int b) = 2 ^ a / 2 ^ b"
  by (simp add: power_int_diff)

lemma exponent_bounds:
  assumes "0 < x"
  shows "2 powi exponent x \<le> x \<and> x < 2 powi (exponent x + 1)"
proof -
  obtain p q where pq: "quotient_of x = (p, q)" by (cases "quotient_of x")
  have q: "0 < q" using pq by (rule quotient_of_denom_pos)
  have x: "x = of_int p / of_int q" using pq by (rule quotient_of_div)
  have p: "0 < p" using assms q x by (simp add: zero_less_divide_iff)
  define a b where "a = bit_len p" and "b = bit_len q"
  have a: "(2::rat) ^ (a - 1) \<le> of_int p" "of_int p < (2::rat) ^ a" using bit_len_rat [OF p] unfolding a_def by auto
  have b: "(2::rat) ^ (b - 1) \<le> of_int q" "of_int q < (2::rat) ^ b" using bit_len_rat [OF q] unfolding b_def by auto
  have ab: "a = Suc (a - 1)" "b = Suc (b - 1)" using p q by (simp_all add: a_def b_def bit_len.simps)
  have k: "exponent x = (if 2 powi (int a - int b) \<le> x then int a - int b else int a - int b - 1)"
    by (simp add: exponent_def pq Let_def a_def b_def)
  have "x < 2 ^ a / 2 ^ (b - 1)" unfolding x using a b p by (intro frac_less) auto
  also have "\<dots> = 2 powi (int a - int b + 1)"
  proof -
    have "int a - int (b - 1) = int a - int b + 1" using ab(2) by linarith
    then show ?thesis unfolding powi_nat [of a "b - 1", symmetric] by (rule arg_cong)
  qed
  finally have up: "x < 2 powi (int a - int b + 1)" .
  have "int (a - 1) - int b = int a - int b - 1" using ab(1) by linarith
  then have "2 powi (int a - int b - 1) = 2 ^ (a - 1) / (2::rat) ^ b" using powi_nat [of "a - 1" b] by metis
  also have "\<dots> \<le> x" unfolding x using a b p q by (intro frac_le) auto
  finally have lo: "2 powi (int a - int b - 1) \<le> x" .
  show ?thesis using up lo by (simp add: k)
qed

subsection \<open>Rounding to integers\<close>

lemma half_even_near: "\<lfloor>x\<rfloor> \<le> half_even x \<and> half_even x \<le> \<lfloor>x\<rfloor> + 1"
  by (auto simp: half_even_def Let_def)

lemma half_even_of_int [simp]: "half_even (of_int n) = n"
  by (simp add: half_even_def Let_def)

lemma half_even_mono: "x \<le> y \<Longrightarrow> half_even x \<le> half_even y"
proof (cases "\<lfloor>x\<rfloor> = \<lfloor>y\<rfloor>")
  case True
  assume "x \<le> y"
  then show ?thesis using True by (auto simp: half_even_def Let_def)
next
  case False
  assume "x \<le> y"
  then have "\<lfloor>x\<rfloor> < \<lfloor>y\<rfloor>" using False floor_mono [of x y] by simp
  then show ?thesis using half_even_near [of x] half_even_near [of y] by linarith
qed

lemma half_even_error: "\<bar>of_int (half_even x) - x\<bar> \<le> 1/2"
proof -
  have "of_int \<lfloor>x\<rfloor> \<le> x" "x < of_int \<lfloor>x\<rfloor> + 1" by linarith+
  then show ?thesis by (auto simp: half_even_def Let_def abs_le_iff)
qed

subsection \<open>Rounding to 53 bits\<close>

lemma two_powi_pos [simp]: "0 < (2::rat) powi k"
  by simp

lemma two_powi_nonzero [simp]: "(2::rat) powi k \<noteq> 0"
  by simp

lemma two_powi_mono: "a \<le> b \<Longrightarrow> (2::rat) powi a \<le> 2 powi b"
  by (rule power_int_increasing) simp_all

lemma two_powi_shift: "(2::rat) powi (k - 52) * 2 ^ 52 = 2 powi k"
  by (simp add: power_int_diff)

lemma exponent_mono: "0 < x \<Longrightarrow> x \<le> y \<Longrightarrow> exponent x \<le> exponent y"
proof (rule ccontr)
  assume x: "0 < x" and le: "x \<le> y" and n: "\<not> exponent x \<le> exponent y"
  then have "(2::rat) powi (exponent y + 1) \<le> 2 powi exponent x" by (intro two_powi_mono) simp
  then show False using exponent_bounds [OF x] exponent_bounds [of y] x le by linarith
qed

lemma round_pos_binade:
  assumes "0 < x"
  shows "2 powi exponent x \<le> round_pos x \<and> round_pos x \<le> 2 powi (exponent x + 1)"
proof -
  define u :: rat where "u = 2 powi (exponent x - 52)"
  have u: "0 < u" "u * 2 ^ 52 = 2 powi exponent x" unfolding u_def by (simp, rule two_powi_shift)
  have v: "u * 2 ^ 53 = 2 powi (exponent x + 1)" using u(2) by (simp add: power_int_add)
  have "of_int (2 ^ 52) \<le> x / u" "x / u \<le> of_int (2 ^ 53)"
    using exponent_bounds [OF assms] u v by (simp_all add: field_simps)
  then have "2 ^ 52 \<le> half_even (x / u)" "half_even (x / u) \<le> 2 ^ 53"
    using half_even_mono [of "of_int (2 ^ 52)" "x / u"] half_even_mono [of "x / u" "of_int (2 ^ 53)"] unfolding half_even_of_int by auto
  then have "of_int (2 ^ 52) \<le> (of_int (half_even (x / u)) :: rat)" "of_int (half_even (x / u)) \<le> (of_int (2 ^ 53) :: rat)"
    unfolding of_int_le_iff .
  then have "of_int (2 ^ 52) * u \<le> round_pos x" "round_pos x \<le> of_int (2 ^ 53) * u"
    using u(1) by (simp_all add: round_pos_def flip: u_def)
  then show ?thesis using u(2) v by (simp add: mult.commute)
qed

lemma round_pos_mono:
  assumes "0 < x" "x \<le> y"
  shows "round_pos x \<le> round_pos y"
proof (cases "exponent x = exponent y")
  case True
  have "half_even (x / 2 powi (exponent y - 52)) \<le> half_even (y / 2 powi (exponent y - 52))"
    using assms by (intro half_even_mono divide_right_mono) simp_all
  then show ?thesis by (simp add: round_pos_def Let_def True mult_right_mono)
next
  case False
  then have "(2::rat) powi (exponent x + 1) \<le> 2 powi exponent y" using exponent_mono [OF assms] by (intro two_powi_mono) simp
  then show ?thesis using round_pos_binade [of x] round_pos_binade [of y] assms by linarith
qed

lemma round_pos_pos: "0 < x \<Longrightarrow> 0 < round_pos x"
  using round_pos_binade [of x] two_powi_pos [of "exponent x"] by linarith

lemma fl_0 [simp]: "fl 0 = 0"
  by (simp add: fl_def)

lemma fl_minus [simp]: "fl (- x) = - fl x"
  by (simp add: fl_def)

lemma fl_mono: "x \<le> y \<Longrightarrow> fl x \<le> fl y"
proof -
  assume "x \<le> y"
  then consider "0 < x" | "x \<le> 0" "0 \<le> y" | "y < 0" by linarith
  then show ?thesis
  proof cases
    case 1
    with \<open>x \<le> y\<close> show ?thesis using round_pos_mono by (simp add: fl_def)
  next
    case 2
    have "fl x \<le> 0" "0 \<le> fl y" using 2 round_pos_pos [of "- x"] round_pos_pos [of y] by (auto simp: fl_def)
    then show ?thesis by linarith
  next
    case 3
    with \<open>x \<le> y\<close> show ?thesis using round_pos_mono [of "- y" "- x"] by (simp add: fl_def)
  qed
qed

lemma round_pos_error:
  assumes "0 < x"
  shows "\<bar>round_pos x - x\<bar> \<le> x / 2 ^ 53"
proof -
  define u :: rat where "u = 2 powi (exponent x - 52)"
  have u: "0 < u" "u * 2 ^ 52 = 2 powi exponent x" unfolding u_def by (simp, rule two_powi_shift)
  have "round_pos x - x = (of_int (half_even (x / u)) - x / u) * u" using u(1) by (simp add: round_pos_def left_diff_distrib flip: u_def)
  then have "\<bar>round_pos x - x\<bar> \<le> 1/2 * u" using half_even_error [of "x / u"] u(1) by (simp add: abs_mult)
  also have "\<dots> \<le> x / 2 ^ 53" using exponent_bounds [OF assms] u by (simp add: field_simps)
  finally show ?thesis .
qed

lemma fl_error: "\<bar>fl x - x\<bar> \<le> \<bar>x\<bar> / 2 ^ 53"
proof (cases "x < 0")
  case True
  have "\<bar>- round_pos (- x) - x\<bar> = \<bar>round_pos (- x) - (- x)\<bar>" by linarith
  with True show ?thesis using round_pos_error [of "- x"] by (simp add: fl_def)
next
  case False
  then show ?thesis using round_pos_error [of x] by (auto simp: fl_def)
qed

lemma fl_of_nat: "0 < n \<Longrightarrow> n \<le> 2 ^ 53 \<Longrightarrow> round_pos (of_int n) = of_int n"
proof -
  assume n: "0 < n" "n \<le> 2 ^ 53"
  define e where "e = exponent (of_int n)"
  have b: "2 powi e \<le> (of_int n :: rat)" "of_int n < (2::rat) powi (e + 1)" using exponent_bounds [of "of_int n"] n unfolding e_def by auto
  have lo: "0 \<le> e"
  proof (rule ccontr)
    assume "\<not> 0 \<le> e"
    then have "(2::rat) powi (e + 1) \<le> 2 powi 0" by (intro two_powi_mono) simp
    then have "of_int n < (of_int 1 :: rat)" using b by simp
    then show False unfolding of_int_less_iff using n by simp
  qed
  have ex: "\<exists>m. (of_int n :: rat) / 2 powi (e - 52) = of_int m"
  proof (cases "e \<le> 52")
    case True
    have "(of_int n :: rat) / 2 powi (e - 52) = of_int (n * 2 ^ nat (52 - e))"
      using True by (simp add: power_int_def field_simps)
    then show ?thesis by blast
  next
    case False
    then have "(2::rat) powi 53 \<le> 2 powi e" by (intro two_powi_mono) simp
    then have "of_int (2 ^ 53) \<le> (of_int n :: rat)" using b(1) by simp
    then have n53: "n = 2 ^ 53" unfolding of_int_le_iff using n by simp
    have "e < 54"
    proof (rule ccontr)
      assume "\<not> e < 54"
      then have "(2::rat) powi 54 \<le> 2 powi e" by (intro two_powi_mono) simp
      then show False using b(1) n53 by simp
    qed
    with False have "e = 53" by simp
    then show ?thesis using n53 by (intro exI [of _ "2 ^ 52"]) simp
  qed
  then obtain m where m: "(of_int n :: rat) / 2 powi (e - 52) = of_int m" by blast
  then have "of_int n = of_int m * (2::rat) powi (e - 52)" by (simp add: field_simps)
  then show ?thesis unfolding round_pos_def Let_def e_def [symmetric] m half_even_of_int by (rule sym)
qed

lemma fl_of_int: "\<bar>n\<bar> \<le> 2 ^ 53 \<Longrightarrow> fl (of_int n) = of_int n"
  using fl_of_nat [of n] fl_of_nat [of "- n"] by (auto simp: fl_def)

subsection \<open>What the clients use\<close>

text \<open>
  The clients need three facts of a rounding: it is monotone, it keeps integers up to a bound, and its
  relative error is small. The bounds below follow from these alone.
\<close>

locale rounding =
  fixes rnd :: "rat \<Rightarrow> rat" and bound :: int and err :: rat
  assumes rnd_mono: "x \<le> y \<Longrightarrow> rnd x \<le> rnd y"
    and rnd_of_int: "\<bar>n\<bar> \<le> bound \<Longrightarrow> rnd (of_int n) = of_int n"
    and rnd_error: "\<bar>rnd x - x\<bar> \<le> \<bar>x\<bar> * err"
    and bound_pos: "0 \<le> bound"
    and err_pos: "0 \<le> err"
begin

lemma rnd_le_int: "x \<le> of_int n \<Longrightarrow> \<bar>n\<bar> \<le> bound \<Longrightarrow> rnd x \<le> of_int n"
  using rnd_mono [of x "of_int n"] rnd_of_int [of n] by simp

lemma rnd_ge_int: "of_int n \<le> x \<Longrightarrow> \<bar>n\<bar> \<le> bound \<Longrightarrow> of_int n \<le> rnd x"
  using rnd_mono [of "of_int n" x] rnd_of_int [of n] by simp

lemma rnd_nonneg: "0 \<le> x \<Longrightarrow> 0 \<le> rnd x"
  using rnd_ge_int [of 0 x] bound_pos by simp

lemma rnd_le: "0 \<le> x \<Longrightarrow> rnd x \<le> x * (1 + err)"
  using rnd_error [of x] by (simp add: algebra_simps)

lemma rnd_le_upper: "0 \<le> x \<Longrightarrow> x \<le> y \<Longrightarrow> rnd x \<le> y * (1 + err)"
proof -
  assume "0 \<le> x" "x \<le> y"
  then have "x * (1 + err) \<le> y * (1 + err)" using err_pos by (intro mult_right_mono) simp_all
  then show ?thesis using rnd_le [OF \<open>0 \<le> x\<close>] by linarith
qed

end

interpretation fl: rounding fl "2 ^ 53" "1 / 2 ^ 53"
  by unfold_locales (use fl_mono fl_of_int fl_error in \<open>simp_all\<close>)

lemma Seconds_pos:
  "0 \<le> d \<Longrightarrow> Seconds d = fl (fl (of_int (d div 1000000000)) + fl (fl (of_int (d mod 1000000000)) / 1000000000))"
  by (simp add: Seconds_def signed_divide_int_def signed_modulo_int_def minus_div_mult_eq_mod sgn_if)

lemma Seconds_nonneg: "0 \<le> d \<Longrightarrow> 0 \<le> Seconds d"
  by (subst Seconds_pos) (simp, intro fl.rnd_nonneg add_nonneg_nonneg divide_nonneg_nonneg, simp_all)

text \<open>The factor by which one operation can be too large.\<close>

definition ulp1 :: rat where "ulp1 = 1 + 1 / 2 ^ 53"

lemma ulp1_ge: "1 \<le> ulp1"
  by (simp add: ulp1_def)

lemma fl_le: "0 \<le> x \<Longrightarrow> x \<le> y \<Longrightarrow> fl x \<le> y * ulp1"
  unfolding ulp1_def by (rule fl.rnd_le_upper)

lemma Seconds_le:
  assumes "0 \<le> d"
  shows "Seconds d \<le> of_int d / 1000000000 * ulp1 ^ 3"
proof -
  let ?s = "of_int (d div 1000000000) :: rat" and ?r = "of_int (d mod 1000000000) :: rat"
  have s: "0 \<le> ?s" "0 \<le> ?r" using assms by (simp_all add: pos_imp_zdiv_nonneg_iff)
  have a: "fl ?s \<le> ?s * ulp1" "0 \<le> fl ?s" using fl_le [OF s(1)] fl.rnd_nonneg [OF s(1)] by simp_all
  have "fl ?r / 1000000000 \<le> ?r / 1000000000 * ulp1" using fl_le [OF s(2), of ?r] by simp
  moreover have r0: "0 \<le> fl ?r / 1000000000" using fl.rnd_nonneg [OF s(2)] by simp
  ultimately have b: "fl (fl ?r / 1000000000) \<le> ?r / 1000000000 * ulp1 * ulp1" using fl_le [OF r0] by blast
  have "?s * ulp1 * 1 \<le> ?s * ulp1 * ulp1" using s(1) ulp1_ge by (intro mult_left_mono) simp_all
  then have "fl ?s + fl (fl ?r / 1000000000) \<le> ?s * ulp1 * ulp1 + ?r / 1000000000 * ulp1 * ulp1" using a b by linarith
  moreover have "0 \<le> fl ?s + fl (fl ?r / 1000000000)" using a(2) fl.rnd_nonneg [OF r0] by linarith
  ultimately have "Seconds d \<le> (?s * ulp1 * ulp1 + ?r / 1000000000 * ulp1 * ulp1) * ulp1" unfolding Seconds_pos [OF assms] using fl_le by blast
  also have "\<dots> = (?s + ?r / 1000000000) * ulp1 ^ 3" by (simp add: power3_eq_cube distrib_right)
  also have "?s + ?r / 1000000000 = of_int d / 1000000000"
  proof -
    have "(of_int d :: rat) = of_int (d div 1000000000 * 1000000000 + d mod 1000000000)" by simp
    then show ?thesis unfolding of_int_add of_int_mult by simp
  qed
  finally show ?thesis .
qed

end
