(* ===== verification/Assertions.thy ===== *)
theory Assertions
  imports Prelude Go_Float
begin

section \<open>Assertions on a restored database\<close>

text \<open>
  \<open>internal/assertions/assertions.go\<close>. The sandbox connection is the parameter \<open>Querier\<close>: for
  each SQL text (and arguments) it gives the scanned value, or the rows of a result set with
  their column names; a value of a row is \<^const>\<open>None\<close> when \<open>json.Marshal\<close> has no encoding for it
  (a NaN). A config is the decoded JSON object. Go ranges over the runes of a
  string where \<open>validIdent\<close> and \<open>upperTrim\<close> do; every byte from 128 up belongs to a rune (or
  decoding error) from 128 up and no byte below does, so the two loops treat a string byte by
  byte as they are written here.
\<close>

definition KindRowCount :: string where "KindRowCount = ''row_count''"
definition KindTableExists :: string where "KindTableExists = ''table_exists''"
definition KindColumnExists :: string where "KindColumnExists = ''column_exists''"
definition KindNoNulls :: string where "KindNoNulls = ''no_nulls''"
definition KindSQLQuery :: string where "KindSQLQuery = ''sql_query''"

lemmas kind_defs = KindRowCount_def KindTableExists_def KindColumnExists_def KindNoNulls_def
  KindSQLQuery_def

definition maxSQLQueryRows :: nat where "maxSQLQueryRows = 100"

type_synonym config = "(string \<times> json) list"

record Spec =
  sp_Kind :: string
  sp_Config :: config

record Outcome =
  o_Kind :: string
  o_Expected :: json
  o_Actual :: json
  o_Passed :: bool

record result_set =
  rs_cols :: "string list"
  rs_rows :: "(string + json option list) list"
  rs_err :: "string option"

record Querier =
  q_int :: "string \<Rightarrow> string list \<Rightarrow> string + int"
  q_bool :: "string \<Rightarrow> string list \<Rightarrow> string + bool"
  q_query :: "string \<Rightarrow> string + result_set"

datatype ro_error = MultipleStatements | NotReadOnly | ForbiddenKeyword string

datatype assert_error =
    UnknownKind string
  | InvalidIdent string string
  | QueryRequired
  | MissingQuery
  | ConfigNotReadOnly ro_error
  | NotReadOnlySQL ro_error
  | NegativeMinRows
  | QueryFailed string string
  | ReadRowFailed string
  | EncodeFailed

subsection \<open>Identifiers and values of a config\<close>

definition is_lower :: "char \<Rightarrow> bool" where "is_lower c = (97 \<le> (of_char c :: nat) \<and> (of_char c :: nat) \<le> 122)"
definition is_upper :: "char \<Rightarrow> bool" where "is_upper c = (65 \<le> (of_char c :: nat) \<and> (of_char c :: nat) \<le> 90)"
definition is_digit :: "char \<Rightarrow> bool" where "is_digit c = (48 \<le> (of_char c :: nat) \<and> (of_char c :: nat) \<le> 57)"

fun ident_chars :: "nat \<Rightarrow> string \<Rightarrow> bool" where
  "ident_chars i [] = True"
| "ident_chars i (r # s) =
     (if is_lower r then ident_chars (Suc i) s
      else if is_upper r then ident_chars (Suc i) s
      else if r = CHR ''_'' then ident_chars (Suc i) s
      else if is_digit r then (if i = 0 then False else ident_chars (Suc i) s)
      else False)"

definition validIdent :: "string \<Rightarrow> bool" where
  "validIdent s = (if s = [] \<or> length s > 63 then False else ident_chars 0 s)"

definition cfg_string :: "config \<Rightarrow> string \<Rightarrow> string" where
  "cfg_string cfg key = (case map_of cfg key of Some (JStr v) \<Rightarrow> v | _ \<Rightarrow> [])"

definition ident :: "config \<Rightarrow> string \<Rightarrow> assert_error + string" where
  "ident cfg key =
     (let v = cfg_string cfg key in if \<not> validIdent v then Inl (InvalidIdent key v) else Inr v)"

text \<open>
  A JSON number is decoded to a \<open>float64\<close> and then converted to a 64-bit integer. Go leaves the result of
  a conversion out of range to the implementation; on amd64 it is the smallest integer.
\<close>

definition float_int :: "int \<Rightarrow> nat \<Rightarrow> int" where
  "float_int m e =
     (let n = trunc_int (fl (of_int m / 10 ^ e)) in if - (2 ^ 63) \<le> n \<and> n < 2 ^ 63 then n else - (2 ^ 63))"

lemma float_int_exact: "\<bar>m\<bar> \<le> 2 ^ 53 \<Longrightarrow> float_int m 0 = m"
  by (auto simp: float_int_def fl_of_int trunc_int_def Let_def)

definition intFrom :: "json \<Rightarrow> int" where
  "intFrom v = (case v of JNum m e \<Rightarrow> float_int m e | _ \<Rightarrow> 0)"

definition intVal :: "config \<Rightarrow> string \<Rightarrow> int" where
  "intVal cfg key = (case map_of cfg key of Some (JNum m e) \<Rightarrow> float_int m e | _ \<Rightarrow> 0)"

definition ValidKind :: "string \<Rightarrow> bool" where
  "ValidKind kind =
     (kind \<in> set [KindRowCount, KindTableExists, KindColumnExists, KindNoNulls, KindSQLQuery])"

subsection \<open>The read-only scan of a query\<close>

definition is_space :: "char \<Rightarrow> bool" where
  "is_space c = (c = CHR '' '' \<or> c = CHR 0x0A \<or> c = CHR 0x09 \<or> c = CHR 0x0D)"

definition trim_right :: "string \<Rightarrow> string" where
  "trim_right q = rev (dropWhile is_space (rev q))"

definition hasMultipleStatements :: "string \<Rightarrow> bool" where
  "hasMultipleStatements q =
     (let body = trim_right q;
          body2 = (if body \<noteq> [] \<and> last body = CHR '';'' then butlast body else body)
      in CHR '';'' \<in> set body2)"

fun upperTrim_loop :: "string \<Rightarrow> string \<Rightarrow> string" where
  "upperTrim_loop out [] = out"
| "upperTrim_loop out (r # s) =
     (if is_space r \<and> out = [] then upperTrim_loop out s
      else if is_lower r then upperTrim_loop (out @ [char_of (of_char r - 32 :: nat)]) s
      else if (of_char r :: nat) < 128 then upperTrim_loop (out @ [r]) s
      else upperTrim_loop out s)"

definition upperTrim :: "string \<Rightarrow> string" where
  "upperTrim s = upperTrim_loop [] s"

fun startsWithAny :: "string \<Rightarrow> string list \<Rightarrow> bool" where
  "startsWithAny upper [] = False"
| "startsWithAny upper (p # ps) =
     (if length upper \<ge> length p \<and> take (length p) upper = p then True else startsWithAny upper ps)"

definition isIdentByte :: "char \<Rightarrow> bool" where
  "isIdentByte b = (is_upper b \<or> is_digit b \<or> b = CHR ''_'')"

definition word_at :: "string \<Rightarrow> string \<Rightarrow> nat \<Rightarrow> bool" where
  "word_at upper kw i =
     (if take (length kw) (drop i upper) \<noteq> kw then False
      else if i > 0 \<and> isIdentByte (upper ! (i - 1)) then False
      else if i + length kw < length upper \<and> isIdentByte (upper ! (i + length kw)) then False
      else True)"

definition containsWord :: "string \<Rightarrow> string \<Rightarrow> bool" where
  "containsWord upper kw = list_ex (word_at upper kw) [0..<length upper + 1 - length kw]"

definition forbiddenKeywords :: "string list" where
  "forbiddenKeywords = [''INSERT'', ''UPDATE'', ''DELETE'', ''TRUNCATE'', ''DROP'', ''CREATE'',
     ''ALTER'', ''GRANT'', ''REVOKE'', ''COPY'', ''MERGE'', ''CALL'']"

definition readOnlyPrefixes :: "string list" where
  "readOnlyPrefixes = [''SELECT'', ''WITH '', ''EXPLAIN'', ''SHOW'', ''VALUES'']"

definition validateReadOnlySQL :: "string \<Rightarrow> ro_error option" where
  "validateReadOnlySQL q =
     (if hasMultipleStatements q then Some MultipleStatements
      else
        (let upper = upperTrim q in
         if \<not> startsWithAny upper readOnlyPrefixes then Some NotReadOnly
         else
           (case find (containsWord upper) forbiddenKeywords of
              Some kw \<Rightarrow> Some (ForbiddenKeyword kw)
            | None \<Rightarrow> None)))"

definition ValidateConfig :: "string \<Rightarrow> config \<Rightarrow> assert_error option" where
  "ValidateConfig kind config =
     (if \<not> ValidKind kind then Some (UnknownKind kind)
      else if kind = KindSQLQuery then
        (let q = cfg_string config ''query'' in
         if q = [] then Some QueryRequired
         else (case validateReadOnlySQL q of Some e \<Rightarrow> Some (ConfigNotReadOnly e) | None \<Rightarrow> None))
      else
        (case ident config ''table'' of
           Inl e \<Rightarrow> Some e
         | Inr _ \<Rightarrow>
             if kind = KindColumnExists \<or> kind = KindNoNulls then
               (case ident config ''column'' of Inl e \<Rightarrow> Some e | Inr _ \<Rightarrow> None)
             else if kind = KindRowCount then
               (if intVal config ''min_rows'' < 0 then Some NegativeMinRows else None)
             else None))"

subsection \<open>Running an assertion\<close>

text \<open>
  \<open>%q\<close>, Go's quoted form of a string: quote, backslash and control bytes are escaped. Only
  identifiers that passed \<^const>\<open>validIdent\<close>, so ASCII text, are ever quoted here.
\<close>

definition go_escape :: "char \<Rightarrow> string" where
  "go_escape c =
     (let n = of_char c :: nat in
      if n = 34 \<or> n = 92 then [CHR 0x5C, c]
      else if n = 7 then [CHR 0x5C, CHR ''a'']
      else if n = 8 then [CHR 0x5C, CHR ''b'']
      else if n = 9 then [CHR 0x5C, CHR ''t'']
      else if n = 10 then [CHR 0x5C, CHR ''n'']
      else if n = 11 then [CHR 0x5C, CHR ''v'']
      else if n = 12 then [CHR 0x5C, CHR ''f'']
      else if n = 13 then [CHR 0x5C, CHR ''r'']
      else if n < 32 \<or> n = 127 then [CHR 0x5C, CHR ''x''] @ hex_byte c
      else [c])"

definition go_quote :: "string \<Rightarrow> string" where
  "go_quote s = [CHR 0x22] @ concat (map go_escape s) @ [CHR 0x22]"

definition row_count_sql :: "string \<Rightarrow> string" where
  "row_count_sql table = ''SELECT count(*) FROM public.'' @ go_quote table"

definition no_nulls_sql :: "string \<Rightarrow> string \<Rightarrow> string" where
  "no_nulls_sql table column =
     ''SELECT count(*) FROM public.'' @ go_quote table @ '' WHERE '' @ go_quote column @ '' IS NULL''"

definition table_exists_sql :: string where
  "table_exists_sql = ''SELECT EXISTS (SELECT 1 FROM information_schema.tables WHERE table_schema = 'public' AND table_name = $1)''"

definition column_exists_sql :: string where
  "column_exists_sql = ''SELECT EXISTS (SELECT 1 FROM information_schema.columns WHERE table_schema = 'public' AND table_name = $1 AND column_name = $2)''"

definition outcome :: "string \<Rightarrow> config \<Rightarrow> config \<Rightarrow> bool \<Rightarrow> assert_error + Outcome" where
  "outcome kind expected actual passed =
     Inr \<lparr>o_Kind = kind, o_Expected = JObj expected, o_Actual = JObj actual, o_Passed = passed\<rparr>"

definition runRowCount :: "Querier \<Rightarrow> config \<Rightarrow> assert_error + Outcome" where
  "runRowCount conn cfg =
     (case ident cfg ''table'' of
        Inl e \<Rightarrow> Inl e
      | Inr table \<Rightarrow>
          (let minRows = intVal cfg ''min_rows'' in
           case q_int conn (row_count_sql table) [] of
             Inl e \<Rightarrow> Inl (QueryFailed ''row_count'' e)
           | Inr n \<Rightarrow> outcome KindRowCount
               [(''table'', JStr table), (''min_rows'', JNum minRows 0)]
               [(''table'', JStr table), (''rows'', JNum n 0)] (n \<ge> minRows)))"

definition runTableExists :: "Querier \<Rightarrow> config \<Rightarrow> assert_error + Outcome" where
  "runTableExists conn cfg =
     (case ident cfg ''table'' of
        Inl e \<Rightarrow> Inl e
      | Inr table \<Rightarrow>
          (case q_bool conn table_exists_sql [table] of
             Inl e \<Rightarrow> Inl (QueryFailed ''table_exists'' e)
           | Inr exists \<Rightarrow> outcome KindTableExists
               [(''table'', JStr table)]
               [(''table'', JStr table), (''exists'', JBool exists)] exists))"

definition runColumnExists :: "Querier \<Rightarrow> config \<Rightarrow> assert_error + Outcome" where
  "runColumnExists conn cfg =
     (case ident cfg ''table'' of
        Inl e \<Rightarrow> Inl e
      | Inr table \<Rightarrow>
          (case ident cfg ''column'' of
             Inl e \<Rightarrow> Inl e
           | Inr column \<Rightarrow>
               (case q_bool conn column_exists_sql [table, column] of
                  Inl e \<Rightarrow> Inl (QueryFailed ''column_exists'' e)
                | Inr exists \<Rightarrow> outcome KindColumnExists
                    [(''table'', JStr table), (''column'', JStr column)]
                    [(''table'', JStr table), (''column'', JStr column), (''exists'', JBool exists)]
                    exists)))"

definition runNoNulls :: "Querier \<Rightarrow> config \<Rightarrow> assert_error + Outcome" where
  "runNoNulls conn cfg =
     (case ident cfg ''table'' of
        Inl e \<Rightarrow> Inl e
      | Inr table \<Rightarrow>
          (case ident cfg ''column'' of
             Inl e \<Rightarrow> Inl e
           | Inr column \<Rightarrow>
               (case q_int conn (no_nulls_sql table column) [] of
                  Inl e \<Rightarrow> Inl (QueryFailed ''no_nulls'' e)
                | Inr nulls \<Rightarrow> outcome KindNoNulls
                    [(''table'', JStr table), (''column'', JStr column), (''max_nulls'', JNum 0 0)]
                    [(''table'', JStr table), (''column'', JStr column), (''nulls'', JNum nulls 0)]
                    (nulls = 0))))"

text \<open>
  The capture loop of \<open>runSQLQuery\<close>. A row is the object that binds column \<open>i\<close> to value \<open>i\<close> (a
  repeated column name keeps its last value); the accumulator is the number of rows seen, the
  rows captured and the truncation flag. Nil slices encode as JSON \<open>null\<close>.
\<close>

fun put_member :: "string \<Rightarrow> 'v \<Rightarrow> (string \<times> 'v) list \<Rightarrow> (string \<times> 'v) list" where
  "put_member k v [] = [(k, v)]"
| "put_member k v ((k', v') # ms) = (if k' = k then (k, v) # ms else (k', v') # put_member k v ms)"

type_synonym captured_row = "(string \<times> json option) list"

definition row_object :: "string list \<Rightarrow> json option list \<Rightarrow> captured_row" where
  "row_object cols vals = foldl (\<lambda>row (c, v). put_member c v row) [] (zip cols vals)"

fun capture_rows ::
    "string list \<Rightarrow> (string + json option list) list \<Rightarrow> nat \<Rightarrow> captured_row list \<Rightarrow> bool \<Rightarrow>
      assert_error + nat \<times> captured_row list \<times> bool" where
  "capture_rows cols [] seen captured truncated = Inr (seen, captured, truncated)"
| "capture_rows cols (r # rs) seen captured truncated =
     (if seen + 1 > maxSQLQueryRows then capture_rows cols rs (seen + 1) captured True
      else
        (case r of
           Inl e \<Rightarrow> Inl (ReadRowFailed e)
         | Inr vals \<Rightarrow> capture_rows cols rs (seen + 1) (captured @ [row_object cols vals]) truncated))"

text \<open>\<open>json.Marshal\<close> of the captured rows: all values encode, or the whole call fails.\<close>

definition encodable :: "captured_row list \<Rightarrow> bool" where
  "encodable rows = list_all (list_all (\<lambda>(c, v). v \<noteq> None)) rows"

definition row_json :: "captured_row \<Rightarrow> json" where
  "row_json row = JObj (map (\<lambda>(c, v). (c, coalesce v JNull)) row)"

definition json_slice :: "json list \<Rightarrow> json" where
  "json_slice js = (if js = [] then JNull else JArr js)"

definition runSQLQuery :: "Querier \<Rightarrow> config \<Rightarrow> assert_error + Outcome" where
  "runSQLQuery conn cfg =
     (let query = cfg_string cfg ''query'' in
      if query = [] then Inl MissingQuery
      else
        (case validateReadOnlySQL query of
           Some e \<Rightarrow> Inl (NotReadOnlySQL e)
         | None \<Rightarrow>
             (case q_query conn query of
                Inl e \<Rightarrow> Inl (QueryFailed ''sql_query'' e)
              | Inr rs \<Rightarrow>
                  (case capture_rows (rs_cols rs) (rs_rows rs) 0 [] False of
                     Inl e \<Rightarrow> Inl e
                   | Inr (seen, captured, truncated) \<Rightarrow>
                       (case rs_err rs of
                          Some e \<Rightarrow> Inl (QueryFailed ''sql_query'' e)
                        | None \<Rightarrow>
                            if \<not> encodable captured then Inl EncodeFailed
                            else
                            (let expected = [(''query'', JStr query)];
                                 actual = [(''columns'', json_slice (map JStr (rs_cols rs))),
                                   (''row_count'', JNum (int seen) 0), (''rows'', json_slice (map row_json captured)),
                                   (''truncated'', JBool truncated),
                                   (''row_cap'', JNum (int maxSQLQueryRows) 0)]
                             in case map_of cfg ''expected_rows'' of
                                  Some v \<Rightarrow> outcome KindSQLQuery
                                    (expected @ [(''expected_rows'', JNum (intFrom v) 0)]) actual
                                    (int seen = intFrom v)
                                | None \<Rightarrow> outcome KindSQLQuery expected actual True))))))"

definition Run :: "Querier \<Rightarrow> Spec \<Rightarrow> assert_error + Outcome" where
  "Run conn s =
     (if sp_Kind s = KindRowCount then runRowCount conn (sp_Config s)
      else if sp_Kind s = KindTableExists then runTableExists conn (sp_Config s)
      else if sp_Kind s = KindColumnExists then runColumnExists conn (sp_Config s)
      else if sp_Kind s = KindNoNulls then runNoNulls conn (sp_Config s)
      else if sp_Kind s = KindSQLQuery then runSQLQuery conn (sp_Config s)
      else Inl (UnknownKind (sp_Kind s)))"

subsection \<open>What the read-only scan accepts\<close>

definition word_in :: "string \<Rightarrow> string \<Rightarrow> bool" where
  "word_in kw text \<longleftrightarrow>
     (\<exists>a b. text = a @ kw @ b \<and> (a = [] \<or> \<not> isIdentByte (last a)) \<and> (b = [] \<or> \<not> isIdentByte (hd b)))"

lemma word_at_iff:
  assumes "i + length kw \<le> length upper"
  shows "word_at upper kw i \<longleftrightarrow>
    upper = take i upper @ kw @ drop (i + length kw) upper \<and>
    (take i upper = [] \<or> \<not> isIdentByte (last (take i upper))) \<and>
    (drop (i + length kw) upper = [] \<or> \<not> isIdentByte (hd (drop (i + length kw) upper)))"
proof -
  have split: "take (length kw) (drop i upper) = kw \<longleftrightarrow>
      upper = take i upper @ kw @ drop (i + length kw) upper"
  proof
    assume "take (length kw) (drop i upper) = kw"
    then show "upper = take i upper @ kw @ drop (i + length kw) upper"
      by (metis add.commute append_take_drop_id drop_drop)
  next
    assume "upper = take i upper @ kw @ drop (i + length kw) upper"
    then have "drop i upper = kw @ drop (i + length kw) upper"
      by (metis append_eq_append_conv append_take_drop_id)
    then show "take (length kw) (drop i upper) = kw" by simp
  qed
  have last: "last (take i upper) = upper ! (i - 1)" if "i > 0"
    using that assms by (simp add: last_take_nth)
  have hd: "hd (drop (i + length kw) upper) = upper ! (i + length kw)" if "i + length kw < length upper"
    using that by (simp add: hd_drop_conv_nth)
  have e1: "take i upper = [] \<longleftrightarrow> i = 0" using assms by auto
  have e2: "drop (i + length kw) upper = [] \<longleftrightarrow> \<not> i + length kw < length upper" by auto
  show ?thesis unfolding word_at_def split e1 e2 using last hd by auto
qed

lemma containsWord_iff: "containsWord upper kw \<longleftrightarrow> word_in kw upper"
proof
  assume "containsWord upper kw"
  then obtain i where "i < length upper + 1 - length kw" and w: "word_at upper kw i"
    by (auto simp: containsWord_def list_ex_iff)
  then have "i + length kw \<le> length upper" by linarith
  from iffD1 [OF word_at_iff [OF this] w] show "word_in kw upper"
    unfolding word_in_def by blast
next
  assume "word_in kw upper"
  then obtain a b where u: "upper = a @ kw @ b" and ab: "a = [] \<or> \<not> isIdentByte (last a)"
    "b = [] \<or> \<not> isIdentByte (hd b)" by (auto simp: word_in_def)
  then have "word_at upper kw (length a)" by (subst word_at_iff) simp_all
  with u show "containsWord upper kw"
    unfolding containsWord_def list_ex_iff by (intro bexI [of _ "length a"]) auto
qed

lemma startsWithAny_iff: "startsWithAny upper ps \<longleftrightarrow> (\<exists>p \<in> set ps. \<exists>rest. upper = p @ rest)"
proof -
  have pre: "length upper \<ge> length p \<and> take (length p) upper = p \<longleftrightarrow> (\<exists>rest. upper = p @ rest)" for p
  proof
    assume "length upper \<ge> length p \<and> take (length p) upper = p"
    then have "upper = p @ drop (length p) upper" by (metis append_take_drop_id)
    then show "\<exists>rest. upper = p @ rest" ..
  qed auto
  show ?thesis
  proof (induction ps)
    case (Cons p ps)
    show ?case
      unfolding startsWithAny.simps pre Cons.IH by (cases "\<exists>rest. upper = p @ rest") simp_all
  qed simp
qed

lemma trim_right_simps:
  "list_all is_space sp \<Longrightarrow> trim_right (s @ sp) = trim_right s"
  "trim_right (s @ '';'') = s @ '';''"
proof -
  show "list_all is_space sp \<Longrightarrow> trim_right (s @ sp) = trim_right s"
    using dropWhile_append2 [of "rev sp" is_space "rev s"] by (simp add: trim_right_def list_all_iff)
  have "\<not> is_space (CHR '';'')" by (simp add: is_space_def)
  then show "trim_right (s @ '';'') = s @ '';''" by (simp add: trim_right_def)
qed

lemma trim_right_split: "\<exists>ws. q = trim_right q @ ws \<and> list_all is_space ws"
proof (intro exI conjI)
  show "q = trim_right q @ rev (takeWhile is_space (rev q))"
    unfolding trim_right_def by (metis rev_append rev_rev_ident takeWhile_dropWhile_id)
  show "list_all is_space (rev (takeWhile is_space (rev q)))"
    by (auto simp: list_all_iff dest: set_takeWhileD)
qed

lemma find_first:
  "find P xs = Some x \<longleftrightarrow> (\<exists>before after. xs = before @ [x] @ after \<and> P x \<and> \<not> (\<exists>y \<in> set before. P y))"
proof
  show "find P xs = Some x \<Longrightarrow> \<exists>before after. xs = before @ [x] @ after \<and> P x \<and> \<not> (\<exists>y \<in> set before. P y)"
  proof (induction xs)
    case (Cons a xs)
    show ?case
    proof (cases "P a")
      case True
      then show ?thesis using Cons.prems by (intro exI [of _ "[]"] exI [of _ xs]) simp
    next
      case False
      then obtain before after where "xs = before @ [x] @ after" "P x" "\<not> (\<exists>y \<in> set before. P y)" using Cons by auto
      then show ?thesis using False by (intro exI [of _ "a # before"] exI [of _ after]) simp
    qed
  qed simp
next
  assume "\<exists>before after. xs = before @ [x] @ after \<and> P x \<and> \<not> (\<exists>y \<in> set before. P y)"
  then obtain before after where "xs = before @ [x] @ after" "P x" "\<not> (\<exists>y \<in> set before. P y)" by blast
  then show "find P xs = Some x" by (induction before arbitrary: xs) auto
qed

text \<open>
  The specification of the scan, in terms of the query's own characters: the statement without the bytes
  that are not ASCII and without leading blanks, words spelled in letters of either case, and the
  characters a word is made of.
\<close>

definition blanks :: string where "blanks = [CHR '' '', CHR 0x0A, CHR 0x09, CHR 0x0D]"
definition upper_letters :: string where "upper_letters = ''ABCDEFGHIJKLMNOPQRSTUVWXYZ''"
definition lower_letters :: string where "lower_letters = ''abcdefghijklmnopqrstuvwxyz''"
definition word_chars :: string where "word_chars = upper_letters @ lower_letters @ ''0123456789_''"

definition one_statement :: "string \<Rightarrow> bool" where
  "one_statement q \<longleftrightarrow>
     (\<exists>stmt sp. CHR '';'' \<notin> set stmt \<and> set sp \<subseteq> set blanks \<and> (q = stmt @ sp \<or> q = stmt @ '';'' @ sp))"

definition sql_text :: "string \<Rightarrow> string" where
  "sql_text q = dropWhile (\<lambda>c. c \<in> set blanks) (filter (\<lambda>c. (of_char c :: nat) < 128) q)"

definition spells :: "string \<Rightarrow> string \<Rightarrow> bool" where
  "spells kw s = list_all2 (\<lambda>k c. c = k \<or> (k, c) \<in> set (zip upper_letters lower_letters)) kw s"

definition starts_with :: "string \<Rightarrow> string \<Rightarrow> bool" where
  "starts_with kw text \<longleftrightarrow> (\<exists>s rest. text = s @ rest \<and> spells kw s)"

definition whole_word :: "string \<Rightarrow> string \<Rightarrow> bool" where
  "whole_word kw text \<longleftrightarrow>
     (\<exists>a s b. text = a @ s @ b \<and> spells kw s \<and> (a = [] \<or> last a \<notin> set word_chars) \<and> (b = [] \<or> hd b \<notin> set word_chars))"

lemma set_blanks: "c \<in> set blanks \<longleftrightarrow> is_space c"
  by (auto simp: blanks_def is_space_def)

lemma subset_blanks: "set sp \<subseteq> set blanks \<longleftrightarrow> list_all is_space sp"
  using set_blanks by (auto simp: list_all_iff)

definition upper_of :: "char \<Rightarrow> char" where
  "upper_of c = (if is_lower c then char_of (of_char c - 32 :: nat) else c)"

lemma is_lower_set: "is_lower c \<longleftrightarrow> c \<in> set lower_letters"
proof
  assume "is_lower c"
  then have "97 \<le> (of_char c :: nat) \<and> (of_char c :: nat) < 123" by (simp add: is_lower_def)
  then have n: "(of_char c :: nat) \<in> set [97..<123]" unfolding set_upt atLeastLessThan_iff .
  have "\<forall>n \<in> set [97..<123]. char_of (n::nat) \<in> set lower_letters" by code_simp
  from bspec [OF this n] show "c \<in> set lower_letters" by simp
next
  have "\<forall>c \<in> set lower_letters. is_lower c" by code_simp
  then show "c \<in> set lower_letters \<Longrightarrow> is_lower c" by blast
qed

lemma zip_letters: "(k, c) \<in> set (zip upper_letters lower_letters) \<longleftrightarrow> is_lower c \<and> k = upper_of c"
proof
  have "\<forall>p \<in> set (zip upper_letters lower_letters). is_lower (snd p) \<and> fst p = upper_of (snd p)" by code_simp
  then show "(k, c) \<in> set (zip upper_letters lower_letters) \<Longrightarrow> is_lower c \<and> k = upper_of c" by fastforce
next
  have "\<forall>c \<in> set lower_letters. (upper_of c, c) \<in> set (zip upper_letters lower_letters)" by code_simp
  then show "is_lower c \<and> k = upper_of c \<Longrightarrow> (k, c) \<in> set (zip upper_letters lower_letters)" by (auto simp: is_lower_set)
qed

lemma upper_of_upper: "is_lower c \<Longrightarrow> is_upper (upper_of c)"
  by (auto simp: upper_of_def is_lower_def is_upper_def)

lemma spells_up: "list_all (\<lambda>c. \<not> is_lower c) kw \<Longrightarrow> spells kw s \<longleftrightarrow> map upper_of s = kw"
proof -
  assume "list_all (\<lambda>c. \<not> is_lower c) kw"
  then have "list_all2 (\<lambda>k c. c = k \<or> (k, c) \<in> set (zip upper_letters lower_letters)) kw s \<longleftrightarrow> list_all2 (\<lambda>k c. upper_of c = k) kw s"
  proof (induction kw arbitrary: s)
    case (Cons k kw)
    have "c = k \<or> is_lower c \<and> k = upper_of c \<longleftrightarrow> upper_of c = k" for c using Cons.prems by (auto simp: upper_of_def)
    then show ?case using Cons unfolding zip_letters by (cases s) simp_all
  qed simp
  also have "\<dots> \<longleftrightarrow> map upper_of s = kw" by (auto simp: list_all2_conv_all_nth list_eq_iff_nth_eq)
  finally show ?thesis by (simp add: spells_def)
qed

lemma set_word_chars: "c \<in> set word_chars \<longleftrightarrow> isIdentByte (upper_of c)"
proof -
  have "list_all (\<lambda>c. is_lower c \<or> isIdentByte c) word_chars" by code_simp
  then have "c \<in> set word_chars \<Longrightarrow> is_lower c \<or> isIdentByte c" unfolding list_all_iff by blast
  then have "c \<in> set word_chars \<Longrightarrow> isIdentByte (upper_of c)" using upper_of_upper [of c] by (cases "is_lower c") (auto simp: isIdentByte_def upper_of_def)
  moreover have "c \<in> set word_chars" if h: "isIdentByte (upper_of c)"
  proof (cases "is_lower c")
    case True
    then show ?thesis by (simp add: is_lower_set word_chars_def)
  next
    case False
    with h have "is_upper c \<or> is_digit c \<or> c = CHR ''_''" by (simp add: upper_of_def isIdentByte_def)
    then have "65 \<le> (of_char c :: nat) \<and> (of_char c :: nat) < 91 \<or> 48 \<le> (of_char c :: nat) \<and> (of_char c :: nat) < 58 \<or> (of_char c :: nat) = 95"
      by (auto simp: is_upper_def is_digit_def)
    then have "(of_char c :: nat) \<in> set ([65..<91] @ [48..<58] @ [95])"
      unfolding set_append Un_iff set_upt atLeastLessThan_iff by simp
    moreover have "list_all (\<lambda>n. char_of (n::nat) \<in> set word_chars) ([65..<91] @ [48..<58] @ [95])" by code_simp
    ultimately have "char_of (of_char c :: nat) \<in> set word_chars" unfolding list_all_iff by blast
    then show ?thesis by simp
  qed
  ultimately show ?thesis by blast
qed

lemma upperTrim_loop_text:
  "upperTrim_loop out s = out @ map upper_of (if out = [] then sql_text s else filter (\<lambda>c. (of_char c :: nat) < 128) s)"
proof (induction s arbitrary: out)
  case Nil
  show ?case by (simp add: sql_text_def)
next
  case (Cons r s)
  have "is_space r \<or> is_lower r \<Longrightarrow> (of_char r :: nat) < 128" by (auto simp: is_space_def is_lower_def)
  moreover have "\<not> (is_space r \<and> is_lower r)" by (auto simp: is_space_def is_lower_def)
  ultimately show ?case using Cons.IH by (auto simp: sql_text_def set_blanks upper_of_def)
qed

lemma upperTrim_text: "upperTrim q = map upper_of (sql_text q)"
  by (simp add: upperTrim_def upperTrim_loop_text)

lemma starts_with_up:
  assumes "list_all (\<lambda>c. \<not> is_lower c) p"
  shows "(\<exists>rest. map upper_of t = p @ rest) \<longleftrightarrow> starts_with p t"
  using assms by (auto simp: starts_with_def spells_up map_eq_append_conv)

lemma whole_word_up:
  assumes "list_all (\<lambda>c. \<not> is_lower c) kw"
  shows "word_in kw (map upper_of t) \<longleftrightarrow> whole_word kw t"
proof
  assume "word_in kw (map upper_of t)"
  then obtain a b where t: "map upper_of t = a @ kw @ b" and ab: "a = [] \<or> \<not> isIdentByte (last a)" "b = [] \<or> \<not> isIdentByte (hd b)"
    by (auto simp: word_in_def)
  from t obtain a' r where r: "t = a' @ r" "a = map upper_of a'" "kw @ b = map upper_of r" unfolding map_eq_append_conv by metis
  from r(3) obtain s b' where "r = s @ b'" "kw = map upper_of s" "b = map upper_of b'" unfolding append_eq_map_conv by metis
  with r have "t = a' @ s @ b'" "a = map upper_of a'" "kw = map upper_of s" "b = map upper_of b'" by simp_all
  with ab show "whole_word kw t"
    unfolding whole_word_def spells_up [OF assms] set_word_chars by (intro exI [of _ a'] exI [of _ s] exI [of _ b']) (auto simp: last_map hd_map)
next
  assume "whole_word kw t"
  then obtain a s b where "t = a @ s @ b" "map upper_of s = kw" "a = [] \<or> \<not> isIdentByte (upper_of (last a))" "b = [] \<or> \<not> isIdentByte (upper_of (hd b))"
    by (auto simp: whole_word_def spells_up [OF assms] set_word_chars)
  then show "word_in kw (map upper_of t)"
    unfolding word_in_def by (intro exI [of _ "map upper_of a"] exI [of _ "map upper_of b"]) (auto simp: last_map hd_map)
qed

lemma one_statement_no_semicolon:
  assumes "one_statement q"
  shows "\<not> hasMultipleStatements q"
proof -
  obtain stmt sp where n: "CHR '';'' \<notin> set stmt" and s: "list_all is_space sp"
    and q: "q = stmt @ sp \<or> q = (stmt @ '';'') @ sp"
    using assms unfolding one_statement_def subset_blanks by auto
  have "set (trim_right stmt) \<subseteq> set stmt"
    by (auto simp: trim_right_def dest: set_dropWhileD)
  with n have t: "CHR '';'' \<notin> set (trim_right stmt)" by auto
  from q consider "trim_right q = trim_right stmt" | "trim_right q = stmt @ '';''"
    using s by (auto simp: trim_right_simps simp del: append_assoc)
  then show ?thesis
    using n t by cases (auto simp: hasMultipleStatements_def Let_def dest: in_set_butlastD)
qed

lemma hasMultipleStatements_iff: "hasMultipleStatements q \<longleftrightarrow> \<not> one_statement q"
proof -
  obtain ws where q: "q = trim_right q @ ws" and ws: "list_all is_space ws"
    using trim_right_split by blast
  have "one_statement q" if h: "\<not> hasMultipleStatements q"
  proof (cases "trim_right q \<noteq> [] \<and> last (trim_right q) = CHR '';''")
    case True
    then have b: "trim_right q = butlast (trim_right q) @ '';''" by (metis append_butlast_last_id)
    have n: "CHR '';'' \<notin> set (butlast (trim_right q))" using h True by (simp add: hasMultipleStatements_def)
    have "q = butlast (trim_right q) @ '';'' @ ws" using q b by (metis append_assoc)
    with n ws show ?thesis unfolding one_statement_def subset_blanks by blast
  next
    case False
    then have n: "CHR '';'' \<notin> set (trim_right q)"
      using h by (auto simp: hasMultipleStatements_def Let_def)
    with q ws show ?thesis unfolding one_statement_def subset_blanks by blast
  qed
  then show ?thesis using one_statement_no_semicolon by blast
qed

lemma scan_prefix:
  "startsWithAny (upperTrim q) readOnlyPrefixes \<longleftrightarrow>
   (\<exists>p \<in> {''SELECT'', ''WITH '', ''EXPLAIN'', ''SHOW'', ''VALUES''}. starts_with p (sql_text q))"
proof -
  have l: "\<forall>p \<in> set readOnlyPrefixes. list_all (\<lambda>c. \<not> is_lower c) p" by code_simp
  have "startsWithAny (upperTrim q) readOnlyPrefixes \<longleftrightarrow> (\<exists>p \<in> set readOnlyPrefixes. starts_with p (sql_text q))"
    unfolding startsWithAny_iff upperTrim_text using starts_with_up l by blast
  then show ?thesis by (simp add: readOnlyPrefixes_def)
qed

lemma scan_keyword:
  assumes "kw \<in> set forbiddenKeywords"
  shows "containsWord (upperTrim q) kw \<longleftrightarrow> whole_word kw (sql_text q)"
proof -
  have "\<forall>kw \<in> set forbiddenKeywords. list_all (\<lambda>c. \<not> is_lower c) kw" by code_simp
  then show ?thesis unfolding containsWord_iff upperTrim_text using whole_word_up assms by blast
qed

text \<open>
  C25. The read-only scan in closed form. A query is accepted exactly when it is one statement
  (no semicolon before an optional last one that only blanks follow), its text (the ASCII characters
  from the first that is no blank) starts with one of five words in letters of either case,
  and none of twelve words occurs in it in letters of either case with no letter, digit or underscore
  on either side. The rejection reported is the first of these that fails, in that order, and for the
  words the first of the list that occurs.
\<close>

theorem readonly_scan_exact:
  defines "reads \<equiv> \<lambda>q. \<exists>p \<in> {''SELECT'', ''WITH '', ''EXPLAIN'', ''SHOW'', ''VALUES''}. starts_with p (sql_text q)"
    and "writes \<equiv> [''INSERT'', ''UPDATE'', ''DELETE'', ''TRUNCATE'', ''DROP'', ''CREATE'', ''ALTER'', ''GRANT'', ''REVOKE'', ''COPY'', ''MERGE'', ''CALL'']"
  shows "(validateReadOnlySQL q = None \<longleftrightarrow> one_statement q \<and> reads q \<and> \<not> (\<exists>kw \<in> set writes. whole_word kw (sql_text q))) \<and>
   (validateReadOnlySQL q = Some MultipleStatements \<longleftrightarrow> \<not> one_statement q) \<and>
   (validateReadOnlySQL q = Some NotReadOnly \<longleftrightarrow> one_statement q \<and> \<not> reads q) \<and>
   (validateReadOnlySQL q = Some (ForbiddenKeyword kw) \<longleftrightarrow> one_statement q \<and> reads q \<and>
      (\<exists>before after. writes = before @ [kw] @ after \<and> whole_word kw (sql_text q) \<and> \<not> (\<exists>w \<in> set before. whole_word w (sql_text q))))"
proof -
  have w: "writes = forbiddenKeywords" by (simp add: writes_def forbiddenKeywords_def)
  have r: "reads q = startsWithAny (upperTrim q) readOnlyPrefixes" unfolding reads_def scan_prefix ..
  have n: "find (containsWord (upperTrim q)) forbiddenKeywords = None \<longleftrightarrow> \<not> (\<exists>kw \<in> set writes. whole_word kw (sql_text q))"
    by (auto simp: find_None_iff w scan_keyword)
  have f: "find (containsWord (upperTrim q)) forbiddenKeywords = Some kw \<longleftrightarrow>
      (\<exists>before after. writes = before @ [kw] @ after \<and> whole_word kw (sql_text q) \<and> \<not> (\<exists>w \<in> set before. whole_word w (sql_text q)))"
    unfolding find_first w using scan_keyword [of _ q] by (metis Un_iff append_Cons append_Nil list.set_intros(1) set_append)
  show ?thesis
    unfolding n [symmetric] f [symmetric] r hasMultipleStatements_iff [of q, symmetric, THEN arg_cong [of _ _ Not], simplified]
    by (auto simp: validateReadOnlySQL_def Let_def split: option.splits)
qed

subsection \<open>Configurations and outcomes\<close>

definition sandbox_error :: "assert_error \<Rightarrow> bool" where
  "sandbox_error e = (case e of QueryFailed _ _ \<Rightarrow> True | ReadRowFailed _ \<Rightarrow> True | EncodeFailed \<Rightarrow> True | _ \<Rightarrow> False)"

definition ran :: "string \<Rightarrow> assert_error + Outcome \<Rightarrow> bool" where
  "ran k r = (case r of Inr out \<Rightarrow> o_Kind out = k | Inl e \<Rightarrow> sandbox_error e)"

lemma capture_rows_spec:
  assumes "seen \<le> maxSQLQueryRows \<or> truncated"
    and "\<forall>r \<in> set (take (maxSQLQueryRows - seen) rs). \<not> isl r"
  shows "capture_rows cols rs seen captured truncated =
    Inr (seen + length rs,
      captured @ map (\<lambda>r. row_object cols (projr r)) (take (maxSQLQueryRows - seen) rs),
      truncated \<or> seen + length rs > maxSQLQueryRows)"
  using assms
proof (induction rs arbitrary: seen captured truncated)
  case (Cons r rs)
  show ?case
  proof (cases "seen + 1 > maxSQLQueryRows")
    case True
    then have z: "maxSQLQueryRows - seen = 0" "maxSQLQueryRows - Suc seen = 0" by simp_all
    show ?thesis using True Cons.IH [of "Suc seen" True captured] by (simp add: z)
  next
    case False
    then obtain n where n: "maxSQLQueryRows - seen = Suc n" "maxSQLQueryRows - Suc seen = n"
      by (metis Suc_diff_Suc Suc_eq_plus1 not_less_eq linorder_not_less)
    with Cons.prems obtain v where "r = Inr v" by (cases r) auto
    with False Cons.prems n Cons.IH [of "Suc seen" truncated "captured @ [row_object cols v]"]
    show ?thesis by simp
  qed
qed auto

lemma capture_rows_error: "capture_rows cols rs seen captured truncated = Inl e \<Longrightarrow> \<exists>m. e = ReadRowFailed m"
  by (induction cols rs seen captured truncated rule: capture_rows.induct) (auto split: if_splits sum.splits)

lemma ran_simple_kinds:
  "ident cfg ''table'' = Inr t \<Longrightarrow> ran KindRowCount (runRowCount conn cfg)"
  "ident cfg ''table'' = Inr t \<Longrightarrow> ran KindTableExists (runTableExists conn cfg)"
  "ident cfg ''table'' = Inr t \<Longrightarrow> ident cfg ''column'' = Inr c \<Longrightarrow> ran KindColumnExists (runColumnExists conn cfg)"
  "ident cfg ''table'' = Inr t \<Longrightarrow> ident cfg ''column'' = Inr c \<Longrightarrow> ran KindNoNulls (runNoNulls conn cfg)"
  by (simp_all add: runRowCount_def runTableExists_def runColumnExists_def runNoNulls_def Let_def
      ran_def sandbox_error_def outcome_def split: sum.split)

lemma ran_sql_query:
  assumes "cfg_string cfg ''query'' \<noteq> []" and "validateReadOnlySQL (cfg_string cfg ''query'') = None"
  shows "ran KindSQLQuery (runSQLQuery conn cfg)"
  using assms
  by (auto simp: runSQLQuery_def Let_def ran_def sandbox_error_def outcome_def
      dest!: capture_rows_error split: sum.split option.split)

lemma kinds_distinct [simp]:
  "KindRowCount \<noteq> KindTableExists" "KindRowCount \<noteq> KindColumnExists" "KindRowCount \<noteq> KindNoNulls"
  "KindRowCount \<noteq> KindSQLQuery" "KindTableExists \<noteq> KindColumnExists" "KindTableExists \<noteq> KindNoNulls"
  "KindTableExists \<noteq> KindSQLQuery" "KindColumnExists \<noteq> KindNoNulls" "KindColumnExists \<noteq> KindSQLQuery"
  "KindNoNulls \<noteq> KindSQLQuery"
  "KindTableExists \<noteq> KindRowCount" "KindColumnExists \<noteq> KindRowCount" "KindNoNulls \<noteq> KindRowCount"
  "KindSQLQuery \<noteq> KindRowCount" "KindColumnExists \<noteq> KindTableExists" "KindNoNulls \<noteq> KindTableExists"
  "KindSQLQuery \<noteq> KindTableExists" "KindNoNulls \<noteq> KindColumnExists" "KindSQLQuery \<noteq> KindColumnExists"
  "KindSQLQuery \<noteq> KindNoNulls"
  by (simp_all add: kind_defs)

lemma kind_cases:
  obtains "k = KindRowCount" | "k = KindTableExists" | "k = KindColumnExists" | "k = KindNoNulls"
    | "k = KindSQLQuery" | "\<not> ValidKind k"
  by (auto simp: ValidKind_def)

lemma valid_kinds [simp]:
  "ValidKind KindRowCount" "ValidKind KindTableExists" "ValidKind KindColumnExists"
  "ValidKind KindNoNulls" "ValidKind KindSQLQuery"
  by (simp_all add: ValidKind_def)

lemma invalid_kind:
  "\<not> ValidKind k \<Longrightarrow> k \<noteq> KindRowCount \<and> k \<noteq> KindTableExists \<and> k \<noteq> KindColumnExists \<and>
     k \<noteq> KindNoNulls \<and> k \<noteq> KindSQLQuery"
  by (auto simp: ValidKind_def)

lemma ident_error: "ident cfg key = Inl e \<Longrightarrow> e = InvalidIdent key (cfg_string cfg key)"
  by (auto simp: ident_def Let_def split: if_splits)

lemma rejected_run:
  "ident cfg ''table'' = Inl e \<Longrightarrow> runRowCount conn cfg = Inl e"
  "ident cfg ''table'' = Inl e \<Longrightarrow> runTableExists conn cfg = Inl e"
  "ident cfg ''table'' = Inl e \<Longrightarrow> runColumnExists conn cfg = Inl e"
  "ident cfg ''table'' = Inl e \<Longrightarrow> runNoNulls conn cfg = Inl e"
  "ident cfg ''table'' = Inr t \<Longrightarrow> ident cfg ''column'' = Inl e \<Longrightarrow> runColumnExists conn cfg = Inl e"
  "ident cfg ''table'' = Inr t \<Longrightarrow> ident cfg ''column'' = Inl e \<Longrightarrow> runNoNulls conn cfg = Inl e"
  "cfg_string cfg ''query'' = [] \<Longrightarrow> runSQLQuery conn cfg = Inl MissingQuery"
  "cfg_string cfg ''query'' \<noteq> [] \<Longrightarrow> validateReadOnlySQL (cfg_string cfg ''query'') = Some r \<Longrightarrow>
     runSQLQuery conn cfg = Inl (NotReadOnlySQL r)"
  by (simp_all add: runRowCount_def runTableExists_def runColumnExists_def runNoNulls_def
      runSQLQuery_def)

text \<open>
  The error of \<open>Run\<close> for a configuration that \<open>ValidateConfig\<close> rejects with the given error: about queries the two
  have their own texts.
\<close>

fun run_error :: "assert_error \<Rightarrow> assert_error" where
  "run_error QueryRequired = MissingQuery"
| "run_error (ConfigNotReadOnly r) = NotReadOnlySQL r"
| "run_error e = e"

text \<open>
  C31. A configuration that passes \<open>ValidateConfig\<close> can only fail in the sandbox: on every
  connection \<open>Run\<close> either yields an outcome of the same kind or reports a query that failed, a
  row that could not be read or a value without a JSON encoding. A configuration rejected for a
  negative \<open>min_rows\<close>, which \<open>Run\<close> does not look at, runs in the same way. Every other rejected configuration
  is an error of \<open>Run\<close> for the same reason on every connection, so raised before any SQL is sent.
\<close>

theorem validated_config_runs:
  "(ValidateConfig k cfg = None \<or> ValidateConfig k cfg = Some NegativeMinRows \<longrightarrow>
     (\<forall>conn. ran k (Run conn \<lparr>sp_Kind = k, sp_Config = cfg\<rparr>))) \<and>
   (\<forall>e. ValidateConfig k cfg = Some e \<longrightarrow> e \<noteq> NegativeMinRows \<longrightarrow>
     (\<forall>conn. Run conn \<lparr>sp_Kind = k, sp_Config = cfg\<rparr> = Inl (run_error e)))"
proof (intro conjI impI allI)
  fix conn
  assume "ValidateConfig k cfg = None \<or> ValidateConfig k cfg = Some NegativeMinRows"
  then show "ran k (Run conn \<lparr>sp_Kind = k, sp_Config = cfg\<rparr>)"
    by (cases k rule: kind_cases)
      (auto simp: ValidateConfig_def Run_def Let_def ran_simple_kinds ran_sql_query dest: ident_error
        split: sum.splits if_splits option.splits)
next
  fix conn e
  assume r: "ValidateConfig k cfg = Some e" and m: "e \<noteq> NegativeMinRows"
  show "Run conn \<lparr>sp_Kind = k, sp_Config = cfg\<rparr> = Inl (run_error e)"
    using r m
    by (cases k rule: kind_cases)
      (auto simp: rejected_run invalid_kind ValidateConfig_def Run_def Let_def dest: ident_error split: if_splits sum.splits option.splits)
qed

theorem validated_config_runs_witness:
  "ValidateConfig KindRowCount [(''table'', JStr ''users''), (''min_rows'', JNum 1 0)] = None \<and>
   (\<forall>conn. ran KindRowCount (Run conn
      \<lparr>sp_Kind = KindRowCount, sp_Config = [(''table'', JStr ''users''), (''min_rows'', JNum 1 0)]\<rparr>)) \<and>
   ValidateConfig KindSQLQuery [(''query'', JStr ''drop table users'')] = Some (ConfigNotReadOnly NotReadOnly) \<and>
   (\<forall>conn. Run conn \<lparr>sp_Kind = KindSQLQuery, sp_Config = [(''query'', JStr ''drop table users'')]\<rparr> =
      Inl (NotReadOnlySQL NotReadOnly))"
proof -
  have a: "ValidateConfig KindRowCount [(''table'', JStr ''users''), (''min_rows'', JNum 1 0)] = None"
    by code_simp
  have b: "ValidateConfig KindSQLQuery [(''query'', JStr ''drop table users'')] = Some (ConfigNotReadOnly NotReadOnly)"
    by code_simp
  show ?thesis
    using a b
      validated_config_runs [of KindRowCount "[(''table'', JStr ''users''), (''min_rows'', JNum 1 0)]"]
      validated_config_runs [of KindSQLQuery "[(''query'', JStr ''drop table users'')]"]
    by simp
qed

text \<open>
  The scan is narrower and wider than its comment says. A CTE whose \<open>WITH\<close> is followed by a
  line break instead of a space is rejected although CTEs are allowed, and \<open>SELECT ... INTO\<close>,
  which creates a table, is accepted although statements that mutate the sandbox are to be
  rejected.
\<close>

theorem readonly_scan_gaps:
  "validateReadOnlySQL (''WITH'' @ [CHR 0x0A] @ ''t AS (SELECT 1) SELECT * FROM t'') = Some NotReadOnly \<and>
   validateReadOnlySQL (''WITH t AS (SELECT 1) SELECT * FROM t'') = None \<and>
   validateReadOnlySQL (''SELECT * INTO copied FROM users'') = None"
  by code_simp

subsection \<open>Verdicts\<close>

lemma ident_chars_ident_char:
  "ident_chars i s \<Longrightarrow> c \<in> set s \<Longrightarrow> is_lower c \<or> is_upper c \<or> c = CHR ''_'' \<or> is_digit c"
  by (induction i s rule: ident_chars.induct) (auto split: if_splits)

lemma go_escape_ident_char:
  "is_lower c \<or> is_upper c \<or> c = CHR ''_'' \<or> is_digit c \<Longrightarrow> go_escape c = [c] \<and> c \<noteq> CHR 0x22"
  by (auto simp: go_escape_def is_lower_def is_upper_def is_digit_def Let_def)

lemma go_quote_ident:
  assumes "validIdent t"
  shows "go_quote t = [CHR 0x22] @ t @ [CHR 0x22] \<and> CHR 0x22 \<notin> set t"
proof -
  have "\<forall>c \<in> set t. go_escape c = [c] \<and> c \<noteq> CHR 0x22"
    using assms ident_chars_ident_char go_escape_ident_char by (auto simp: validIdent_def split: if_splits)
  then have "concat (map go_escape t) = t" and "CHR 0x22 \<notin> set t" by (induction t) auto
  then show ?thesis by (simp add: go_quote_def)
qed

lemma ident_Inr: "ident cfg key = Inr t \<longleftrightarrow> cfg_string cfg key = t \<and> validIdent t"
  by (auto simp: ident_def Let_def)

text \<open>
  What the identifier checks send to the sandbox and when they pass. With valid identifiers
  \<open>t\<close> and \<open>c\<close> the statement of \<open>row_count\<close> and \<open>no_nulls\<close> contains them verbatim between double
  quotes, and they contain no double quote themselves, so a name cannot end its quotation;
  \<open>row_count\<close> passes exactly when the count is at least \<open>min_rows\<close>, \<open>no_nulls\<close> exactly when no
  null is found, and the two existence checks exactly when the catalogue has the name.
\<close>

theorem identifier_checks:
  assumes "cfg_string cfg ''table'' = t" "validIdent t" "cfg_string cfg ''column'' = c" "validIdent c"
  shows "CHR 0x22 \<notin> set t \<and> CHR 0x22 \<notin> set c \<and>
    map_sum id o_Passed (runRowCount conn cfg) =
      map_sum (QueryFailed ''row_count'') (\<lambda>n. intVal cfg ''min_rows'' \<le> n)
        (q_int conn (''SELECT count(*) FROM public.'' @ [CHR 0x22] @ t @ [CHR 0x22]) []) \<and>
    map_sum id o_Passed (runNoNulls conn cfg) =
      map_sum (QueryFailed ''no_nulls'') (\<lambda>n. n = 0)
        (q_int conn (''SELECT count(*) FROM public.'' @ [CHR 0x22] @ t @ [CHR 0x22] @
           '' WHERE '' @ [CHR 0x22] @ c @ [CHR 0x22] @ '' IS NULL'') []) \<and>
    map_sum id o_Passed (runTableExists conn cfg) =
      map_sum (QueryFailed ''table_exists'') id (q_bool conn table_exists_sql [t]) \<and>
    map_sum id o_Passed (runColumnExists conn cfg) =
      map_sum (QueryFailed ''column_exists'') id (q_bool conn column_exists_sql [t, c])"
proof -
  have i: "ident cfg ''table'' = Inr t" "ident cfg ''column'' = Inr c"
    using assms by (simp_all add: ident_Inr)
  note q = go_quote_ident [OF assms(2)] go_quote_ident [OF assms(4)]
  show ?thesis
    using q
    by (auto simp: i runRowCount_def runNoNulls_def runTableExists_def runColumnExists_def
        row_count_sql_def no_nulls_sql_def outcome_def Let_def split: sum.split)
qed

theorem identifier_checks_witness:
  "map_sum id o_Passed (runRowCount
      \<lparr>q_int = (\<lambda>sql args. if sql = ''SELECT count(*) FROM public.'' @ [CHR 0x22] @ ''users'' @ [CHR 0x22]
          then Inr 3 else Inl ''no such table''),
        q_bool = (\<lambda>_ _. Inr True), q_query = (\<lambda>_. Inl ''unused'')\<rparr>
      [(''table'', JStr ''users''), (''column'', JStr ''email''), (''min_rows'', JNum 4 0)]) = Inr False"
proof -
  have "validIdent ''users''" "validIdent ''email''" by code_simp+
  then show ?thesis
    using identifier_checks [of "[(''table'', JStr ''users''), (''column'', JStr ''email''), (''min_rows'', JNum 4 0)]"
        "''users''" "''email''"
        "\<lparr>q_int = (\<lambda>sql args. if sql = ''SELECT count(*) FROM public.'' @ [CHR 0x22] @ ''users'' @ [CHR 0x22]
          then Inr 3 else Inl ''no such table''),
        q_bool = (\<lambda>_ _. Inr True), q_query = (\<lambda>_. Inl ''unused'')\<rparr>"]
    by (simp add: cfg_string_def intVal_def float_int_exact)
qed

text \<open>
  What a \<open>sql_query\<close> assertion records. When the scan accepts the query and the connection
  returns a complete result set of encodable rows, the outcome holds the query, the true row
  count, the first 100 rows (all of them when there are no more) and a truncation flag that is
  set exactly when rows were left out; it passes exactly when \<open>expected_rows\<close> is absent or equal
  to the true row count, truncated or not.
\<close>

theorem sql_query_evidence:
  assumes "cfg_string cfg ''query'' = q" "q \<noteq> []" "validateReadOnlySQL q = None"
    and "q_query conn q = Inr rs" "rs_rows rs = map Inr rows" "rs_err rs = None"
    and "encodable (map (row_object (rs_cols rs)) (take 100 rows))"
  shows "\<exists>expected. runSQLQuery conn cfg = Inr
    \<lparr>o_Kind = KindSQLQuery, o_Expected = JObj expected, o_Actual = JObj
       [(''columns'', json_slice (map JStr (rs_cols rs))), (''row_count'', JNum (int (length rows)) 0),
        (''rows'', json_slice (map (row_json \<circ> row_object (rs_cols rs)) (take 100 rows))),
        (''truncated'', JBool (length rows > 100)), (''row_cap'', JNum 100 0)],
     o_Passed = (case map_of cfg ''expected_rows'' of None \<Rightarrow> True | Some v \<Rightarrow> int (length rows) = intFrom v)\<rparr> \<and>
    map_of expected ''query'' = Some (JStr q)"
proof -
  have "capture_rows (rs_cols rs) (map Inr rows) 0 [] False =
      Inr (length rows, map (row_object (rs_cols rs)) (take 100 rows), length rows > 100)"
    by (subst capture_rows_spec) (auto simp: maxSQLQueryRows_def take_map comp_def)
  with assms show ?thesis
    by (auto simp: runSQLQuery_def Let_def outcome_def maxSQLQueryRows_def split: option.split)
qed

theorem sql_query_evidence_witness:
  "\<exists>expected. runSQLQuery \<lparr>q_int = (\<lambda>_ _. Inr 0), q_bool = (\<lambda>_ _. Inr True),
      q_query = (\<lambda>_. Inr \<lparr>rs_cols = [''n''], rs_rows = map Inr (replicate 101 [Some (JNum 1 0)]), rs_err = None\<rparr>)\<rparr>
      [(''query'', JStr ''select n from t''), (''expected_rows'', JNum 101 0)] = Inr
     \<lparr>o_Kind = KindSQLQuery, o_Expected = JObj expected, o_Actual = JObj
       [(''columns'', JArr [JStr ''n'']), (''row_count'', JNum 101 0),
        (''rows'', JArr (replicate 100 (JObj [(''n'', JNum 1 0)]))),
        (''truncated'', JBool True), (''row_cap'', JNum 100 0)],
      o_Passed = True\<rparr> \<and> map_of expected ''query'' = Some (JStr ''select n from t'')"
proof -
  have v: "validateReadOnlySQL ''select n from t'' = None" by code_simp
  have e: "encodable (map (row_object [''n'']) (take 100 (replicate 101 [Some (JNum 1 0)])))" by code_simp
  show ?thesis
    using sql_query_evidence [of "[(''query'', JStr ''select n from t''), (''expected_rows'', JNum 101 0)]"
        "''select n from t''"
        "\<lparr>q_int = (\<lambda>_ _. Inr 0), q_bool = (\<lambda>_ _. Inr True),
      q_query = (\<lambda>_. Inr \<lparr>rs_cols = [''n''], rs_rows = map Inr (replicate 101 [Some (JNum 1 0)]), rs_err = None\<rparr>)\<rparr>"
        _ "replicate 101 [Some (JNum 1 0)]", OF _ _ v _ _ _ ] e
    by (simp add: cfg_string_def intFrom_def float_int_exact json_slice_def row_json_def row_object_def)
qed

end
