(* ===== verification/Runner.thy ===== *)
theory Runner
  imports Prelude Assertions "HOL-Library.Multiset"
begin

section \<open>Sandbox runners\<close>

text \<open>
  \<open>internal/runner\<close> and \<open>internal/fly\<close>. A \<open>Runner\<close> is a Go interface value, here the record of
  its methods over the state \<open>'r\<close> of the infrastructure it works on. A \<open>*Sandbox\<close> that may be
  nil is an option. \<open>Fetch\<close> and \<open>Rehydrate\<close> change nothing.

  \<open>LocalRunner\<close> works on a \<open>host\<close>: the databases of the cluster with their contents \<open>'c\<close> and the
  file system; \<open>h_down\<close> is the error of an admin connection while the cluster refuses them.
  Outside the repository, so parameters in the record \<open>tools\<close>: resolving a path against the
  working directory, the replacement of the path of a URL (\<open>net/url\<close>), whether a binary is on
  the PATH, and what \<open>psql\<close> and \<open>pg_restore\<close> do when run. \<open>FlyMachineRunner\<close> works on the Machines
  API, a parameter that answers requests.
\<close>

record Sandbox =
  sb_DrillID :: uuid
  sb_DSN :: string
  sb_Name :: string

record 'r Runner =
  rn_Provision :: "uuid \<Rightarrow> 'r \<Rightarrow> (string + Sandbox) \<times> 'r"
  rn_Fetch :: "Sandbox \<Rightarrow> string \<Rightarrow> 'r \<Rightarrow> string + string \<times> string"
  rn_Restore :: "Sandbox \<Rightarrow> string \<Rightarrow> 'r \<Rightarrow> (bytes \<times> string option) \<times> 'r"
  rn_Rehydrate :: "uuid \<Rightarrow> string \<Rightarrow> string + Sandbox"
  rn_Teardown :: "Sandbox option \<Rightarrow> 'r \<Rightarrow> (string + unit) \<times> 'r"

subsection \<open>Files\<close>

text \<open>
  A node of the file system. \<open>Unreadable\<close> is a regular file that cannot be opened or read,
  \<open>Special\<close> anything that is neither a regular file nor a directory, which also cannot be read.
  The texts of operating-system errors are representatives.
\<close>

datatype node = File bytes | Unreadable | Special | Dir "(string \<times> node) list"

type_synonym file_system = "string \<Rightarrow> node option"

fun is_regular :: "node \<Rightarrow> bool" where
  "is_regular (File _) = True"
| "is_regular Unreadable = True"
| "is_regular _ = False"

fun read_all :: "node list \<Rightarrow> string + bytes" where
  "read_all [] = Inr []"
| "read_all (n # ns) =
     (case n of
        File b \<Rightarrow> (case read_all ns of Inl e \<Rightarrow> Inl e | Inr bs \<Rightarrow> Inr (b @ bs))
      | _ \<Rightarrow> Inl ''permission denied'')"

definition dir_files :: "(string \<times> node) list \<Rightarrow> (string \<times> node) list" where
  "dir_files entries = sort_key fst (filter (\<lambda>e. is_regular (snd e)) entries)"

definition hashDump :: "(bytes \<Rightarrow> bytes) \<Rightarrow> file_system \<Rightarrow> string \<Rightarrow> string + string" where
  "hashDump sha256 fs absPath =
     (case fs absPath of
        None \<Rightarrow> Inl ''no such file or directory''
      | Some (Dir entries) \<Rightarrow>
          (case read_all (map snd (dir_files entries)) of
             Inl e \<Rightarrow> Inl e
           | Inr bs \<Rightarrow> Inr (hexEncode (sha256 bs)))
      | Some n \<Rightarrow>
          (case read_all [n] of
             Inl e \<Rightarrow> Inl e
           | Inr bs \<Rightarrow> Inr (hexEncode (sha256 bs))))"

datatype dumpFormat = dumpPlainSQL | dumpArchive | dumpDirectory

definition dump_head :: "bytes \<Rightarrow> dumpFormat" where
  "dump_head content =
     (let head = take 512 content in
      if length head \<ge> 5 \<and> take 5 head = ''PGDMP'' then dumpArchive
      else if length head \<ge> 262 \<and> take 5 (drop 257 head) = ''ustar'' then dumpArchive
      else dumpPlainSQL)"

definition detectDumpFormat :: "file_system \<Rightarrow> string \<Rightarrow> string + dumpFormat" where
  "detectDumpFormat fs path =
     (case fs path of
        None \<Rightarrow> Inl ''stat dump: no such file or directory''
      | Some (Dir _) \<Rightarrow> Inr dumpDirectory
      | Some (File content) \<Rightarrow> Inr (dump_head content)
      | Some _ \<Rightarrow> Inl ''open dump: permission denied'')"

subsection \<open>The local runner\<close>

record 'c host =
  h_dbs :: "(string \<times> 'c) list"
  h_fs :: file_system
  h_down :: "string option"

record 'c tools =
  tl_Abs :: "string \<Rightarrow> string + string"
  tl_SetPath :: "string \<Rightarrow> string \<Rightarrow> string + string"
  tl_LookPath :: "string \<Rightarrow> bool"
  tl_Exec :: "string \<Rightarrow> string list \<Rightarrow> 'c host \<Rightarrow> (bytes \<times> string option) \<times> 'c host"
  tl_sha256 :: "bytes \<Rightarrow> bytes"
  tl_uuid :: "uuid \<Rightarrow> string"
  tl_empty :: 'c

definition fetchDump :: "'c tools \<Rightarrow> file_system \<Rightarrow> string \<Rightarrow> string + string \<times> string" where
  "fetchDump T fs sourceURI =
     (case tl_Abs T sourceURI of
        Inl e \<Rightarrow> Inl (''resolve source path: '' @ e)
      | Inr absPath \<Rightarrow>
          (case fs absPath of
             None \<Rightarrow> Inl ''stat dump: no such file or directory''
           | Some n \<Rightarrow>
               if (case n of Dir entries \<Rightarrow> map_of entries ''toc.dat'' = None | _ \<Rightarrow> False)
               then Inl (''source directory is not a pg_dump -Fd archive (no toc.dat): '' @ absPath)
               else
                 (case hashDump (tl_sha256 T) fs absPath of
                    Inl e \<Rightarrow> Inl (''hash dump: '' @ e)
                  | Inr hash \<Rightarrow> Inr (absPath, hash))))"

definition runDumpCmd :: "string \<Rightarrow> bytes \<times> string option \<Rightarrow> bytes \<times> string option" where
  "runDumpCmd name r =
     (case r of
        (out, None) \<Rightarrow> (out, None)
      | (out, Some err) \<Rightarrow>
          (let s = (if length out > 1024 then take 1024 out @ ''...(truncated)'' else out)
           in (out, Some (name @ '' failed: '' @ err @ '': '' @ s))))"

text \<open>The message for a missing binary goes on with advice how to install it.\<close>

definition restoreDump ::
    "'c tools \<Rightarrow> string \<Rightarrow> string \<Rightarrow> 'c host \<Rightarrow> (bytes \<times> string option) \<times> 'c host" where
  "restoreDump T dsn localPath h =
     (case detectDumpFormat (h_fs h) localPath of
        Inl e \<Rightarrow> (([], Some e), h)
      | Inr format \<Rightarrow>
          (let tool = (if format = dumpPlainSQL then ''psql'' else ''pg_restore'') in
           if \<not> tl_LookPath T tool then
             (([], Some (tool @ '' is required to restore this dump but was not found on PATH'')), h)
           else
             (let args = (if format = dumpPlainSQL
                then [''--quiet'', ''--no-psqlrc'', ''--set=ON_ERROR_STOP=1'', ''-d'', dsn, ''-f'', localPath]
                else [''--no-owner'', ''--no-privileges'', ''--exit-on-error'', ''-d'', dsn, localPath])
              in case tl_Exec T tool args h of (r, h') \<Rightarrow> (runDumpCmd tool r, h'))))"

definition swapDatabase :: "'c tools \<Rightarrow> string \<Rightarrow> string \<Rightarrow> string + string" where
  "swapDatabase T dsn dbName =
     (if dsn = [] then Inl ''empty admin DSN''
      else
        (case tl_SetPath T dsn (''/'' @ dbName) of
           Inl e \<Rightarrow> Inl (''parse admin DSN: '' @ e)
         | Inr u \<Rightarrow> Inr u))"

text \<open>The two statements \<open>execAdmin\<close> is called with.\<close>

definition execAdmin :: "('c host \<Rightarrow> (string + unit) \<times> 'c host) \<Rightarrow> 'c host \<Rightarrow> (string + unit) \<times> 'c host" where
  "execAdmin stmt h =
     (case h_down h of Some e \<Rightarrow> (Inl (''connect admin: '' @ e), h) | None \<Rightarrow> stmt h)"

definition drop_database :: "string \<Rightarrow> 'c host \<Rightarrow> (string + unit) \<times> 'c host" where
  "drop_database name h = (Inr (), h\<lparr>h_dbs := filter (\<lambda>d. fst d \<noteq> name) (h_dbs h)\<rparr>)"

definition create_database :: "'c \<Rightarrow> string \<Rightarrow> 'c host \<Rightarrow> (string + unit) \<times> 'c host" where
  "create_database template name h =
     (if name \<in> fst ` set (h_dbs h) then (Inl ''database already exists'', h)
      else (Inr (), h\<lparr>h_dbs := h_dbs h @ [(name, template)]\<rparr>))"

definition sandbox_name :: "'c tools \<Rightarrow> uuid \<Rightarrow> string" where
  "sandbox_name T drillID = ''drill_'' @ take 16 (filter (\<lambda>c. c \<noteq> CHR ''-'') (tl_uuid T drillID))"

definition Local_Provision :: "'c tools \<Rightarrow> string \<Rightarrow> uuid \<Rightarrow> 'c host \<Rightarrow> (string + Sandbox) \<times> 'c host" where
  "Local_Provision T adminDSN drillID h =
     (let dbName = sandbox_name T drillID in
      case execAdmin (drop_database dbName) h of
        (Inl e, h1) \<Rightarrow> (Inl (''drop stale sandbox db: '' @ e), h1)
      | (Inr _, h1) \<Rightarrow>
          (case execAdmin (create_database (tl_empty T) dbName) h1 of
             (Inl e, h2) \<Rightarrow> (Inl (''create sandbox db: '' @ e), h2)
           | (Inr _, h2) \<Rightarrow>
               (case swapDatabase T adminDSN dbName of
                  Inl e \<Rightarrow> (Inl e, snd (execAdmin (drop_database dbName) h2))
                | Inr dsn \<Rightarrow> (Inr \<lparr>sb_DrillID = drillID, sb_DSN = dsn, sb_Name = dbName\<rparr>, h2))))"

definition Local_Rehydrate :: "'c tools \<Rightarrow> string \<Rightarrow> uuid \<Rightarrow> string \<Rightarrow> string + Sandbox" where
  "Local_Rehydrate T adminDSN drillID dbName =
     (case swapDatabase T adminDSN dbName of
        Inl e \<Rightarrow> Inl e
      | Inr dsn \<Rightarrow> Inr \<lparr>sb_DrillID = drillID, sb_DSN = dsn, sb_Name = dbName\<rparr>)"

definition Local_Teardown :: "Sandbox option \<Rightarrow> 'c host \<Rightarrow> (string + unit) \<times> 'c host" where
  "Local_Teardown sb h =
     (case sb of
        None \<Rightarrow> (Inr (), h)
      | Some s \<Rightarrow> if sb_Name s = [] then (Inr (), h) else execAdmin (drop_database (sb_Name s)) h)"

definition LocalRunner :: "'c tools \<Rightarrow> string \<Rightarrow> 'c host Runner" where
  "LocalRunner T adminDSN =
     \<lparr>rn_Provision = Local_Provision T adminDSN,
      rn_Fetch = (\<lambda>_ sourceURI h. fetchDump T (h_fs h) sourceURI),
      rn_Restore = (\<lambda>sb localPath. restoreDump T (sb_DSN sb) localPath),
      rn_Rehydrate = Local_Rehydrate T adminDSN,
      rn_Teardown = Local_Teardown\<rparr>"

subsection \<open>The Fly Machines client\<close>

text \<open>
  A request and what the server answers: a status with a body, or no answer at all (a transport
  error), in which case the request may still have had its effect. The client retries transient
  answers, three times at most. A waiting \<open>context\<close> that ends is an answer \<open>Cancelled\<close>.
\<close>

datatype fly_request = CreateReq | WaitReq string | DestroyReq string

datatype fly_reply = Reply nat "string option" | NoReply | Cancelled

datatype fly_error = Transient string | Fatal string

type_synonym 's fly_server = "fly_request \<Rightarrow> 's \<Rightarrow> fly_reply \<times> 's"

definition isTransient :: "fly_error \<Rightarrow> bool" where
  "isTransient e = (case e of Transient _ \<Rightarrow> True | Fatal _ \<Rightarrow> False)"

text \<open>
  The body of a 2xx answer is the machine's identifier; \<open>None\<close> stands for a body that does not
  decode. An empty identifier is what an empty body leaves in the zero \<open>Machine\<close>.
\<close>

definition doOnce :: "'s fly_server \<Rightarrow> fly_request \<Rightarrow> 's \<Rightarrow> (fly_error + string) \<times> 's" where
  "doOnce srv req s =
     (case srv req s of
        (Cancelled, s') \<Rightarrow> (Inl (Fatal ''context canceled''), s')
      | (NoReply, s') \<Rightarrow> (Inl (Transient ''fly: transport''), s')
      | (Reply status body, s') \<Rightarrow>
          if status = 404 \<and> (\<exists>m. req = DestroyReq m) then (Inr [], s')
          else if status \<ge> 500 \<or> status = 429 then (Inl (Transient ''fly: status''), s')
          else if status \<ge> 400 then (Inl (Fatal ''fly: status''), s')
          else if req = CreateReq then
            (case body of None \<Rightarrow> (Inl (Fatal ''fly: decode''), s') | Some m \<Rightarrow> (Inr m, s'))
          else (Inr [], s'))"

fun do_attempts :: "'s fly_server \<Rightarrow> fly_request \<Rightarrow> nat \<Rightarrow> fly_error \<Rightarrow> 's \<Rightarrow> (fly_error + string) \<times> 's" where
  "do_attempts srv req 0 lastErr s = (Inl lastErr, s)"
| "do_attempts srv req (Suc n) lastErr s =
     (case doOnce srv req s of
        (Inr m, s') \<Rightarrow> (Inr m, s')
      | (Inl e, s') \<Rightarrow> if \<not> isTransient e then (Inl e, s') else do_attempts srv req n e s')"

definition fly_do :: "'s fly_server \<Rightarrow> fly_request \<Rightarrow> 's \<Rightarrow> (string + string) \<times> 's" where
  "fly_do srv req s =
     (case do_attempts srv req 4 (Fatal []) s of
        (Inl (Transient e), s') \<Rightarrow> (Inl e, s')
      | (Inl (Fatal e), s') \<Rightarrow> (Inl e, s')
      | (Inr m, s') \<Rightarrow> (Inr m, s'))"

record fly_config =
  fc_app :: string
  fc_dbPass :: string

definition fly_dsn :: "fly_config \<Rightarrow> string \<Rightarrow> string" where
  "fly_dsn r machineID =
     ''postgres://postgres:'' @ fc_dbPass r @ ''@'' @ machineID @ ''.vm.'' @ fc_app r @
     ''.internal:5432/postgres?sslmode=disable''"

definition Fly_Provision ::
    "'s fly_server \<Rightarrow> fly_config \<Rightarrow> uuid \<Rightarrow> 's \<Rightarrow> (string + Sandbox) \<times> 's" where
  "Fly_Provision srv r drillID s =
     (case fly_do srv CreateReq s of
        (Inl e, s1) \<Rightarrow> (Inl (''fly: provision machine: '' @ e), s1)
      | (Inr m, s1) \<Rightarrow>
          (case fly_do srv (WaitReq m) s1 of
             (Inl e, s2) \<Rightarrow>
               (Inl (''fly: machine '' @ m @ '' never started: '' @ e), snd (fly_do srv (DestroyReq m) s2))
           | (Inr _, s2) \<Rightarrow> (Inr \<lparr>sb_DrillID = drillID, sb_DSN = fly_dsn r m, sb_Name = m\<rparr>, s2)))"

definition Fly_Teardown :: "'s fly_server \<Rightarrow> Sandbox option \<Rightarrow> 's \<Rightarrow> (string + unit) \<times> 's" where
  "Fly_Teardown srv sb s =
     (case sb of
        None \<Rightarrow> (Inr (), s)
      | Some b \<Rightarrow>
          if sb_Name b = [] then (Inr (), s)
          else (case fly_do srv (DestroyReq (sb_Name b)) s of
                  (Inl e, s') \<Rightarrow> (Inl e, s')
                | (Inr _, s') \<Rightarrow> (Inr (), s')))"

text \<open>Fetching and restoring happen on the host the app runs on, provisioning on the Fly side.\<close>

definition FlyMachineRunner ::
    "'s fly_server \<Rightarrow> 'c tools \<Rightarrow> fly_config \<Rightarrow> ('s \<times> 'c host) Runner" where
  "FlyMachineRunner srv T r =
     \<lparr>rn_Provision = (\<lambda>d (s, h). case Fly_Provision srv r d s of (x, s') \<Rightarrow> (x, (s', h))),
      rn_Fetch = (\<lambda>_ sourceURI (s, h). fetchDump T (h_fs h) sourceURI),
      rn_Restore = (\<lambda>sb localPath (s, h). case restoreDump T (sb_DSN sb) localPath h of (x, h') \<Rightarrow> (x, (s, h'))),
      rn_Rehydrate = (\<lambda>d m. Inr \<lparr>sb_DrillID = d, sb_DSN = fly_dsn r m, sb_Name = m\<rparr>),
      rn_Teardown = (\<lambda>sb (s, h). case Fly_Teardown srv sb s of (x, s') \<Rightarrow> (x, (s', h)))\<rparr>"

section \<open>The local runner implements the sandbox contract\<close>

text \<open>
  What the drill pipeline relies on of a runner: the sandboxes that exist are \<open>live\<close>; a sandbox
  that was provisioned is live, its handle can be rebuilt from its name, tearing it down removes
  exactly it, a teardown without a sandbox or one that fails removes nothing, and a failed
  provision leaves nothing behind.
\<close>

locale sandbox_runner =
  fixes rn :: "'r Runner" and live :: "'r \<Rightarrow> string set"
  assumes Provision_live: "rn_Provision rn d i = (Inr sb, i') \<Longrightarrow>
      sb_DrillID sb = d \<and> sb_Name sb \<noteq> [] \<and> live i' = insert (sb_Name sb) (live i)"
    and Provision_fails: "rn_Provision rn d i = (Inl e, i') \<Longrightarrow> live i' \<subseteq> live i"
    and Rehydrate_Provision: "rn_Provision rn d i = (Inr sb, i') \<Longrightarrow> rn_Rehydrate rn d (sb_Name sb) = Inr sb"
    and Rehydrate_name: "rn_Rehydrate rn d n = Inr sb \<Longrightarrow> sb_Name sb = n"
    and Teardown_live: "rn_Teardown rn (Some sb) i = (Inr (), i') \<Longrightarrow> sb_Name sb \<noteq> [] \<Longrightarrow>
      live i' = live i - {sb_Name sb}"
    and Teardown_none: "rn_Teardown rn None i = (Inr (), i)"
    and Teardown_fails: "rn_Teardown rn osb i = (Inl e, i') \<Longrightarrow> live i' = live i"

definition live_dbs :: "'c host \<Rightarrow> string set" where
  "live_dbs h = fst ` set (h_dbs h)"

definition provision_spec :: "'c tools \<Rightarrow> string \<Rightarrow> uuid \<Rightarrow> 'c host \<Rightarrow> (string + Sandbox) \<times> 'c host" where
  "provision_spec T adminDSN d h =
     (case h_down h of
        Some e \<Rightarrow> (Inl (''drop stale sandbox db: connect admin: '' @ e), h)
      | None \<Rightarrow>
          (let others = filter (\<lambda>x. fst x \<noteq> sandbox_name T d) (h_dbs h) in
           case swapDatabase T adminDSN (sandbox_name T d) of
             Inl e \<Rightarrow> (Inl e, h\<lparr>h_dbs := others\<rparr>)
           | Inr dsn \<Rightarrow>
               (Inr \<lparr>sb_DrillID = d, sb_DSN = dsn, sb_Name = sandbox_name T d\<rparr>,
                h\<lparr>h_dbs := others @ [(sandbox_name T d, tl_empty T)]\<rparr>)))"

lemma local_provision_eq: "Local_Provision T adminDSN d h = provision_spec T adminDSN d h"
  unfolding Local_Provision_def provision_spec_def Let_def
  by (cases "h_down h")
    (auto simp: execAdmin_def drop_database_def create_database_def split: sum.split)

text \<open>
  Provisioning on the local runner, on every branch. While the cluster accepts admin
  connections, whatever database of the sandbox's name was left behind is replaced by a fresh
  one, all other databases stay as they are, and the handle names it; so provisioning again
  after a lost answer gives the same handle and no second sandbox. If the DSN cannot be rebuilt
  nothing is left behind, and while the cluster is down nothing changes.
\<close>

theorem local_provision_spec:
  "Local_Provision T adminDSN d h = provision_spec T adminDSN d h \<and>
   (case Local_Provision T adminDSN d h of
      (Inr sb, h1) \<Rightarrow> fst (Local_Provision T adminDSN d h1) = Inr sb \<and>
        live_dbs (snd (Local_Provision T adminDSN d h1)) = live_dbs h1
    | (Inl _, h1) \<Rightarrow> live_dbs h1 \<subseteq> live_dbs h)"
  by (auto simp: local_provision_eq provision_spec_def Let_def live_dbs_def split: option.splits sum.splits)

lemma local_teardown_eq:
  "Local_Teardown (Some sb) h =
     (if sb_Name sb = [] then (Inr (), h)
      else case h_down h of
        Some e \<Rightarrow> (Inl (''connect admin: '' @ e), h)
      | None \<Rightarrow> (Inr (), h\<lparr>h_dbs := filter (\<lambda>d. fst d \<noteq> sb_Name sb) (h_dbs h)\<rparr>))"
  by (simp add: Local_Teardown_def execAdmin_def drop_database_def split: option.split)

interpretation local_runner: sandbox_runner "LocalRunner T adminDSN" live_dbs for T adminDSN
proof (unfold_locales, goal_cases)
  case (5 sb i i')
  then show ?case
    by (auto simp: LocalRunner_def local_teardown_eq live_dbs_def split: option.splits)
next
  case (7 osb i e i')
  then show ?case
    by (cases osb) (auto simp: LocalRunner_def Local_Teardown_def execAdmin_def drop_database_def
        split: option.splits if_splits)
qed (auto simp: LocalRunner_def local_provision_eq provision_spec_def Let_def live_dbs_def
    sandbox_name_def Local_Rehydrate_def Local_Teardown_def split: option.splits sum.splits)

section \<open>What the hash of a dump covers\<close>

lemma dir_files_perm:
  assumes "mset es = mset es'" and "distinct (map fst es)"
  shows "dir_files es = dir_files es'"
proof -
  let ?P = "\<lambda>e. is_regular (snd e)"
  have m: "mset (filter ?P es) = mset (filter ?P es')" using assms(1) by simp
  have i: "inj_on fst (set (filter ?P es))"
    using assms(2) by (auto simp: distinct_map inj_on_def)
  show ?thesis
    unfolding dir_files_def by (rule sort_key_eq_sort_key [OF m i])
qed

lemma dir_files_irrelevant: "\<not> is_regular n \<Longrightarrow> dir_files ((k, n) # es) = dir_files es"
  by (simp add: dir_files_def)

text \<open>
  The source hash of a directory dump is a function of its set of regular files: listing the
  directory in another order, or adding sockets and subdirectories, does not change it. It is
  the hash of the contents one after the other and nothing else, so it does not tell apart two
  directories that cut the same bytes into files at different places: here the last bytes of
  one file moved to the start of the next.
\<close>

theorem source_hash_coverage:
  assumes "fs p = Some (Dir es)" "distinct (map fst es)" "mset es' = mset es" "\<not> is_regular n"
    and "fs p' = Some (Dir es')" "fs q = Some (Dir ((k, n) # es))"
    and "fs r = Some (Dir [(f, File (x @ y)), (g, File z)])" "fs r' = Some (Dir [(f, File x), (g, File (y @ z))])"
    and "f < g"
  shows "hashDump sha fs p' = hashDump sha fs p \<and> hashDump sha fs q = hashDump sha fs p \<and>
    hashDump sha fs r = Inr (hexEncode (sha (x @ y @ z))) \<and> hashDump sha fs r' = hashDump sha fs r"
proof -
  have "dir_files es' = dir_files es" using dir_files_perm [of es es'] assms(2,3) by simp
  moreover have "dir_files [(f, File a), (g, File b)] = [(f, File a), (g, File b)]" for a b
    using assms(9) by (simp add: dir_files_def less_imp_le)
  ultimately show ?thesis
    using assms by (simp add: hashDump_def dir_files_irrelevant)
qed

theorem source_hash_coverage_witness:
  "hashDump (\<lambda>b. b) (\<lambda>p. map_of [(''a'', Dir [(''toc.dat'', File ''xy''), (''1.dat'', File ''z'')]),
      (''b'', Dir [(''1.dat'', File ''z''), (''toc.dat'', File ''xy'')]),
      (''c'', Dir [(''sock'', Special), (''toc.dat'', File ''xy''), (''1.dat'', File ''z'')]),
      (''d'', Dir [(''1.dat'', File ''zx''), (''toc.dat'', File ''y'')]),
      (''e'', Dir [(''1.dat'', File ''z''), (''toc.dat'', File ''xy'')])] p) ''d'' =
   Inr (hexEncode ''zxy'')"
proof -
  let ?fs = "\<lambda>p. map_of [(''a'', Dir [(''toc.dat'', File ''xy''), (''1.dat'', File ''z'')]),
      (''b'', Dir [(''1.dat'', File ''z''), (''toc.dat'', File ''xy'')]),
      (''c'', Dir [(''sock'', Special), (''toc.dat'', File ''xy''), (''1.dat'', File ''z'')]),
      (''d'', Dir [(''1.dat'', File ''zx''), (''toc.dat'', File ''y'')]),
      (''e'', Dir [(''1.dat'', File ''z''), (''toc.dat'', File ''xy'')])] p"
  have lt: "''1.dat'' < ''toc.dat''" by (simp add: less_char_def)
  show ?thesis
    using source_hash_coverage [of ?fs "''a''" "[(''toc.dat'', File ''xy''), (''1.dat'', File ''z'')]"
        "[(''1.dat'', File ''z''), (''toc.dat'', File ''xy'')]" Special "''b''" "''c''" "''sock''" "''d''"
        "''1.dat''" "''z''" "''x''" "''toc.dat''" "''y''" "''e''" "\<lambda>b. b", OF _ _ _ _ _ _ _ _ lt]
    by simp
qed

section \<open>Retries against the Machines API\<close>

text \<open>
  A server as the Machines API is documented: a create request adds a machine with a new
  identifier and a destroy request removes it. \<open>lose\<close> says at which request number the answer
  gets lost.
\<close>

record fly_world =
  fw_machines :: "nat list"
  fw_next :: nat
  fw_count :: nat

definition unary :: "nat \<Rightarrow> string" where
  "unary n = replicate n (CHR ''m'')"

definition fly_api :: "(nat \<Rightarrow> bool) \<Rightarrow> fly_world fly_server" where
  "fly_api lose req s =
     (let s' = s\<lparr>fw_count := fw_count s + 1\<rparr>;
          r = (case req of
             CreateReq \<Rightarrow> (Reply 200 (Some (unary (fw_next s))),
               s'\<lparr>fw_machines := fw_machines s @ [fw_next s], fw_next := fw_next s + 1\<rparr>)
           | WaitReq m \<Rightarrow> (Reply (if m \<in> set (map unary (fw_machines s)) then 200 else 404) None, s')
           | DestroyReq m \<Rightarrow>
               (if m \<in> set (map unary (fw_machines s))
                then (Reply 200 None, s'\<lparr>fw_machines := filter (\<lambda>k. unary k \<noteq> m) (fw_machines s)\<rparr>)
                else (Reply 404 None, s')))
      in if lose (fw_count s) then (NoReply, snd r) else r)"

text \<open>
  Creating a machine is retried although it is not idempotent. A provision whose first
  answer is lost succeeds with the second machine and the first one stays: no handle names it,
  so tearing the sandbox down does not remove it. Without a lost answer provision followed by
  teardown leaves the machines as they were.
\<close>

theorem fly_create_retry_leaks:
  "(case Fly_Provision (fly_api (\<lambda>k. k = 0)) r d \<lparr>fw_machines = [], fw_next = 1, fw_count = 0\<rparr> of
      (Inr sb, s) \<Rightarrow> sb_Name sb = unary 2 \<and> fw_machines s = [1, 2] \<and>
        fw_machines (snd (Fly_Teardown (fly_api (\<lambda>k. k = 0)) (Some sb) s)) = [1]
    | _ \<Rightarrow> False) \<and>
   (case Fly_Provision (fly_api (\<lambda>_. False)) r d \<lparr>fw_machines = ms, fw_next = 1 + sum_list ms, fw_count = c\<rparr> of
      (Inr sb, s) \<Rightarrow> fw_machines (snd (Fly_Teardown (fly_api (\<lambda>_. False)) (Some sb) s)) = ms
    | _ \<Rightarrow> False)"
proof -
  have fresh: "1 + sum_list ms \<notin> set ms" using member_le_sum_list [of "1 + sum_list ms" ms] by auto
  have inj: "unary a = unary b \<longleftrightarrow> a = b" for a b by (auto simp: unary_def)
  have keep: "filter (\<lambda>k. k \<noteq> Suc (sum_list ms)) ms = ms" using fresh by (auto intro: filter_True)
  have four: "(4 :: nat) = Suc (Suc (Suc (Suc 0)))" by simp
  note defs = Fly_Provision_def Fly_Teardown_def fly_do_def four doOnce_def fly_api_def isTransient_def
    inj Let_def
  show ?thesis
    by (rule conjI, simp add: defs, simp add: unary_def, simp add: defs keep, simp add: unary_def)
qed

end
