(* ===== verification/Faults.thy ===== *)
theory Faults
  imports Prelude
begin

section \<open>Procedures whose calls can fail\<close>

text \<open>
  A background job is Go code that calls the database, the queue, the sandbox runner and the
  evidence service, any of which can fail at any call, and whose process can die between two
  of them. A procedure therefore runs against a list of faults, one for every external call in
  the order the calls are made: the call works, fails before it had an effect, fails after it
  had one (the answer was lost), or the process dies before it. Once the list is used up all
  calls work. An expired \<open>context\<close> makes calls fail and so is a run of such faults.

  An \<open>outcome\<close> is the value returned, the error returned (its \<open>Error()\<close> text) or the crash.
  The statement \<open>triple P p Q E\<close> says that from a state satisfying \<open>P\<close>, whatever the faults,
  \<open>p\<close> returns a value and a state related by \<open>Q\<close> or else leaves a state satisfying \<open>E\<close>.
\<close>

named_theorems hoare \<open>triples and their rules\<close>

datatype fault = NoFault | FailBefore string | FailAfter string | Crash

datatype 'a outcome = Ret 'a | Err string | Crashed

type_synonym ('w, 'a) proc = "fault list \<Rightarrow> 'w \<Rightarrow> 'a outcome \<times> fault list \<times> 'w"

definition ret :: "'a \<Rightarrow> ('w, 'a) proc" where
  "ret a fs w = (Ret a, fs, w)"

definition errM :: "string \<Rightarrow> ('w, 'a) proc" where
  "errM e fs w = (Err e, fs, w)"

definition bindM :: "('w, 'a) proc \<Rightarrow> ('a \<Rightarrow> ('w, 'b) proc) \<Rightarrow> ('w, 'b) proc" where
  "bindM p q fs w =
     (case p fs w of
        (Ret a, fs', w') \<Rightarrow> q a fs' w'
      | (Err e, fs', w') \<Rightarrow> (Err e, fs', w')
      | (Crashed, fs', w') \<Rightarrow> (Crashed, fs', w'))"

definition thenM :: "('w, 'a) proc \<Rightarrow> ('w, 'b) proc \<Rightarrow> ('w, 'b) proc" where
  "thenM p q = bindM p (\<lambda>_. q)"

text \<open>The result of a call together with its error, for code that inspects \<open>err\<close> itself.\<close>

definition tryM :: "('w, 'a) proc \<Rightarrow> ('w, string + 'a) proc" where
  "tryM p fs w =
     (case p fs w of
        (Ret a, fs', w') \<Rightarrow> (Ret (Inr a), fs', w')
      | (Err e, fs', w') \<Rightarrow> (Ret (Inl e), fs', w')
      | (Crashed, fs', w') \<Rightarrow> (Crashed, fs', w'))"

definition ignoreM :: "('w, 'a) proc \<Rightarrow> ('w, unit) proc" where
  "ignoreM p = bindM (tryM p) (\<lambda>_. ret ())"

text \<open>One external call. An \<open>update\<close> that only records something has no error of its own.\<close>

definition call :: "('w \<Rightarrow> (string + 'a) \<times> 'w) \<Rightarrow> ('w, 'a) proc" where
  "call f fs w =
     (let ok = (case f w of (Inr a, w') \<Rightarrow> (Ret a, w') | (Inl e, w') \<Rightarrow> (Err e, w'))
      in case fs of
           [] \<Rightarrow> (fst ok, [], snd ok)
         | NoFault # fs' \<Rightarrow> (fst ok, fs', snd ok)
         | FailBefore e # fs' \<Rightarrow> (Err e, fs', w)
         | FailAfter e # fs' \<Rightarrow> (Err e, fs', snd ok)
         | Crash # fs' \<Rightarrow> (Crashed, fs', w))"

definition getM :: "('w \<Rightarrow> 'a) \<Rightarrow> ('w, 'a) proc" where
  "getM f fs w = (Ret (f w), fs, w)"

definition modM :: "('w \<Rightarrow> 'w) \<Rightarrow> ('w, unit) proc" where
  "modM f fs w = (Ret (), fs, f w)"

primrec forM :: "'a list \<Rightarrow> ('a \<Rightarrow> ('w, unit) proc) \<Rightarrow> ('w, unit) proc" where
  "forM [] f = ret ()"
| "forM (x # xs) f = thenM (f x) (forM xs f)"

definition final :: "'a outcome \<times> fault list \<times> 'w \<Rightarrow> 'w" where
  "final r = snd (snd r)"

subsection \<open>Triples\<close>

definition triple :: "('w \<Rightarrow> bool) \<Rightarrow> ('w, 'a) proc \<Rightarrow> ('a \<Rightarrow> 'w \<Rightarrow> bool) \<Rightarrow> ('w \<Rightarrow> bool) \<Rightarrow> bool" where
  "triple P p Q E \<longleftrightarrow>
     (\<forall>fs w. P w \<longrightarrow> (case p fs w of (Ret a, _, w') \<Rightarrow> Q a w' | (_, _, w') \<Rightarrow> E w'))"

definition keeps :: "('w \<Rightarrow> bool) \<Rightarrow> ('w, 'a) proc \<Rightarrow> bool" where
  "keeps I p \<longleftrightarrow> triple I p (\<lambda>_. I) I"

lemma triple_final:
  assumes "triple P p (\<lambda>_. I) I" and "P w"
  shows "I (final (p fs w))"
proof -
  have "case p fs w of (Ret a, _, w') \<Rightarrow> I w' | (_, _, w') \<Rightarrow> I w'"
    using assms by (simp add: triple_def)
  then show ?thesis
    by (cases "p fs w"; cases "fst (p fs w)") (simp_all add: final_def)
qed

lemma triple_Ret: "triple P p Q E \<Longrightarrow> P w \<Longrightarrow> p fs w = (Ret a, fs', w') \<Longrightarrow> Q a w'"
proof -
  assume t: "triple P p Q E" and w: "P w" and r: "p fs w = (Ret a, fs', w')"
  have "case p fs w of (Ret a, _, w') \<Rightarrow> Q a w' | (_, _, w') \<Rightarrow> E w'" using t w by (simp add: triple_def)
  then show "Q a w'" unfolding r by simp
qed

lemma keepsD: "keeps I p \<Longrightarrow> I w \<Longrightarrow> I (final (p fs w))"
  unfolding keeps_def by (rule triple_final)

lemma triple_ret [hoare]: "(\<And>w. P w \<Longrightarrow> Q a w) \<Longrightarrow> triple P (ret a) Q E"
  by (simp add: triple_def ret_def)

lemma triple_errM [hoare]: "(\<And>w. P w \<Longrightarrow> E w) \<Longrightarrow> triple P (errM e) Q E"
  by (simp add: triple_def errM_def)

lemma triple_bindM:
  assumes "triple P p R E" and "\<And>a. triple (R a) (q a) Q E"
  shows "triple P (bindM p q) Q E"
  unfolding triple_def
proof (intro allI impI)
  fix fs w assume "P w"
  with assms(1) have "case p fs w of (Ret a, _, w') \<Rightarrow> R a w' | (_, _, w') \<Rightarrow> E w'"
    by (simp add: triple_def)
  with assms(2) show "case bindM p q fs w of (Ret a, _, w') \<Rightarrow> Q a w' | (_, _, w') \<Rightarrow> E w'"
    by (cases "p fs w"; cases "fst (p fs w)") (auto simp: bindM_def triple_def)
qed

lemma triple_thenM:
  "triple P p (\<lambda>_. R) E \<Longrightarrow> triple R q Q E \<Longrightarrow> triple P (thenM p q) Q E"
  unfolding thenM_def by (rule triple_bindM)

lemma triple_tryM:
  assumes "triple P p Q E'" and "\<And>w. E' w \<Longrightarrow> E w"
  shows "triple P (tryM p) (\<lambda>r w. case r of Inr a \<Rightarrow> Q a w | Inl _ \<Rightarrow> E' w) E"
  unfolding triple_def
proof (intro allI impI)
  fix fs w assume "P w"
  with assms(1) have "case p fs w of (Ret a, _, w') \<Rightarrow> Q a w' | (_, _, w') \<Rightarrow> E' w'"
    by (simp add: triple_def)
  then show "case tryM p fs w of (Ret r, _, w') \<Rightarrow> (case r of Inr a \<Rightarrow> Q a w' | Inl _ \<Rightarrow> E' w')
      | (_, _, w') \<Rightarrow> E w'"
    using assms(2) by (cases "p fs w"; cases "fst (p fs w)") (auto simp: tryM_def)
qed

lemma triple_weaken:
  "triple P p Q E \<Longrightarrow> (\<And>w. P' w \<Longrightarrow> P w) \<Longrightarrow> (\<And>a w. Q a w \<Longrightarrow> Q' a w) \<Longrightarrow>
     (\<And>w. E w \<Longrightarrow> E' w) \<Longrightarrow> triple P' p Q' E'"
  unfolding triple_def by (fastforce split: outcome.splits prod.splits)

lemma triple_guard: "(A \<Longrightarrow> triple P p Q E) \<Longrightarrow> triple (\<lambda>w. P w \<and> A) p Q E"
  unfolding triple_def by simp

lemma triple_call:
  assumes "\<And>w. P w \<Longrightarrow> case f w of (Inr a, w') \<Rightarrow> Q a w' \<and> E w' | (Inl _, w') \<Rightarrow> E w'"
    and "\<And>w. P w \<Longrightarrow> E w"
  shows "triple P (call f) Q E"
  unfolding triple_def
proof (intro allI impI)
  fix fs w assume "P w"
  with assms show "case call f fs w of (Ret a, _, w') \<Rightarrow> Q a w' | (_, _, w') \<Rightarrow> E w'"
    by (cases "f w"; cases "fst (f w)"; cases fs; cases "hd fs")
      (fastforce simp: call_def Let_def)+
qed

lemma triple_getM [hoare]: "(\<And>w. P w \<Longrightarrow> Q (f w) w) \<Longrightarrow> triple P (getM f) Q E"
  by (simp add: triple_def getM_def)

lemma triple_modM [hoare]: "(\<And>w. P w \<Longrightarrow> Q () (f w)) \<Longrightarrow> triple P (modM f) Q E"
  by (simp add: triple_def modM_def)

subsection \<open>Invariants of a procedure\<close>

lemma keeps_ret [hoare]: "keeps I (ret a)"
  by (simp add: keeps_def triple_ret)

lemma keeps_errM [hoare]: "keeps I (errM e)"
  by (simp add: keeps_def triple_errM)

lemma keeps_bindM [hoare]: "keeps I p \<Longrightarrow> (\<And>a. keeps I (q a)) \<Longrightarrow> keeps I (bindM p q)"
  unfolding keeps_def by (rule triple_bindM)

lemma keeps_thenM [hoare]: "keeps I p \<Longrightarrow> keeps I q \<Longrightarrow> keeps I (thenM p q)"
  unfolding keeps_def by (rule triple_thenM)

lemma keeps_tryM [hoare]: "keeps I p \<Longrightarrow> keeps I (tryM p)"
proof -
  assume p: "keeps I p"
  have "triple I (tryM p) (\<lambda>r w. case r of Inr a \<Rightarrow> I w | Inl _ \<Rightarrow> I w) I"
    using p unfolding keeps_def by (rule triple_tryM)
  then show ?thesis unfolding keeps_def by (rule triple_weaken) (simp_all split: sum.splits)
qed

lemma keeps_ignoreM [hoare]: "keeps I p \<Longrightarrow> keeps I (ignoreM p)"
  unfolding ignoreM_def by (intro keeps_bindM keeps_tryM keeps_ret)

lemma keeps_call: "(\<And>w. I w \<Longrightarrow> I (snd (f w))) \<Longrightarrow> keeps I (call f)"
proof -
  assume f: "\<And>w. I w \<Longrightarrow> I (snd (f w))"
  have "case f w of (Inr a, w') \<Rightarrow> I w' \<and> I w' | (Inl _, w') \<Rightarrow> I w'" if "I w" for w
    using f [OF that] by (cases "f w"; cases "fst (f w)") simp_all
  then show ?thesis unfolding keeps_def by (intro triple_call)
qed

lemma keeps_call_read [hoare]: "keeps I (call (\<lambda>w. (g w, w)))"
  by (rule keeps_call) simp

lemma keeps_getM [hoare]: "keeps I (getM f)"
  by (simp add: keeps_def triple_getM)

lemma keeps_modM: "(\<And>w. I w \<Longrightarrow> I (f w)) \<Longrightarrow> keeps I (modM f)"
  by (simp add: keeps_def triple_modM)

lemma keeps_forM [hoare]: "(\<And>x. keeps I (f x)) \<Longrightarrow> keeps I (forM xs f)"
  by (induction xs) (simp_all add: keeps_ret keeps_thenM)

lemma keeps_if [hoare]: "keeps I p \<Longrightarrow> keeps I q \<Longrightarrow> keeps I (if b then p else q)"
  by simp

lemma keeps_case_sum [hoare]:
  "(\<And>e. keeps I (p e)) \<Longrightarrow> (\<And>a. keeps I (q a)) \<Longrightarrow> keeps I (case r of Inl e \<Rightarrow> p e | Inr a \<Rightarrow> q a)"
  by (simp split: sum.split)

lemma keeps_case_option [hoare]:
  "keeps I p \<Longrightarrow> (\<And>a. keeps I (q a)) \<Longrightarrow> keeps I (case r of None \<Rightarrow> p | Some a \<Rightarrow> q a)"
  by (simp split: option.split)

lemma keeps_let [hoare]: "(\<And>a. keeps I (p a)) \<Longrightarrow> keeps I (let a = r in p a)"
  by (simp add: Let_def)

lemma keeps_case_prod [hoare]: "(\<And>a b. keeps I (p a b)) \<Longrightarrow> keeps I (case r of (a, b) \<Rightarrow> p a b)"
  by (simp split: prod.split)

text \<open>Triples for a call whose error is swallowed or handed on as a value.\<close>

lemma triple_keeps: "keeps I p \<Longrightarrow> triple I p (\<lambda>_. I) I"
  by (simp add: keeps_def)

lemma triple_ignoreM:
  assumes "triple P p (\<lambda>_. Q) Q" and "\<And>w. Q w \<Longrightarrow> E w"
  shows "triple P (ignoreM p) (\<lambda>_. Q) E"
proof -
  have "triple P (tryM p) (\<lambda>r w. case r of Inr a \<Rightarrow> Q w | Inl _ \<Rightarrow> Q w) E"
    using assms by (rule triple_tryM)
  then show ?thesis unfolding ignoreM_def
    by (rule triple_bindM) (auto intro!: triple_ret split: sum.splits)
qed

subsection \<open>Runs without faults\<close>

lemma run_simps:
  "ret a fs w = (Ret a, fs, w)"
  "errM e fs w = (Err e, fs, w)"
  "getM g fs w = (Ret (g w), fs, w)"
  "modM h fs w = (Ret (), fs, h w)"
  by (simp_all add: ret_def errM_def getM_def modM_def)

lemma call_ok: "call f [] w = (case f w of (Inr a, w') \<Rightarrow> (Ret a, [], w') | (Inl e, w') \<Rightarrow> (Err e, [], w'))"
  by (simp add: call_def Let_def split: prod.split sum.split)

subsection \<open>Runs that return a value\<close>

lemma bindM_Ret:
  "bindM p q fs w = (Ret b, fs', w') \<longleftrightarrow>
     (\<exists>a fs1 w1. p fs w = (Ret a, fs1, w1) \<and> q a fs1 w1 = (Ret b, fs', w'))"
  by (cases "p fs w"; cases "fst (p fs w)") (simp_all add: bindM_def)

lemma thenM_Ret:
  "thenM p q fs w = (Ret b, fs', w') \<longleftrightarrow>
     (\<exists>a fs1 w1. p fs w = (Ret a, fs1, w1) \<and> q fs1 w1 = (Ret b, fs', w'))"
  by (simp add: thenM_def bindM_Ret)

lemma tryM_Ret:
  "tryM p fs w = (Ret r, fs', w') \<longleftrightarrow>
     (case r of Inr a \<Rightarrow> p fs w = (Ret a, fs', w') | Inl e \<Rightarrow> p fs w = (Err e, fs', w'))"
  by (cases "p fs w"; cases "fst (p fs w)"; cases r) (auto simp: tryM_def)

lemma bindM_tryM_Ret:
  "bindM (tryM p) (\<lambda>r. case r of Inl e \<Rightarrow> f e | Inr a \<Rightarrow> g a) fs w = (Ret b, fs', w') \<longleftrightarrow>
     (\<exists>a fs1 w1. p fs w = (Ret a, fs1, w1) \<and> g a fs1 w1 = (Ret b, fs', w')) \<or>
     (\<exists>e fs1 w1. p fs w = (Err e, fs1, w1) \<and> f e fs1 w1 = (Ret b, fs', w'))"
  by (cases "p fs w"; cases "fst (p fs w)") (auto simp: bindM_def tryM_def)

lemma ret_Ret [simp]: "ret a fs w = (Ret b, fs', w') \<longleftrightarrow> b = a \<and> fs' = fs \<and> w' = w"
  by (auto simp: ret_def)

lemma errM_Ret [simp]: "errM e fs w \<noteq> (Ret b, fs', w')"
  by (simp add: errM_def)

lemma getM_Ret [simp]: "getM f fs w = (Ret b, fs', w') \<longleftrightarrow> b = f w \<and> fs' = fs \<and> w' = w"
  by (auto simp: getM_def)

lemma modM_Ret [simp]: "modM f fs w = (Ret b, fs', w') \<longleftrightarrow> fs' = fs \<and> w' = f w"
  by (auto simp: modM_def)

lemma call_Ret: "call f fs w = (Ret a, fs', w') \<Longrightarrow> f w = (Inr a, w')"
  by (cases "f w"; cases "fst (f w)"; cases fs; cases "hd fs") (auto simp: call_def Let_def)

lemma call_final: "final (call f fs w) = w \<or> final (call f fs w) = snd (f w)"
  by (cases "f w"; cases "fst (f w)"; cases fs; cases "hd fs") (auto simp: call_def Let_def final_def)

lemma call_nofault: "f w = (Inr a, w') \<Longrightarrow> call f [] w = (Ret a, [], w')"
  by (simp add: call_ok)

lemma bindM_nofault: "p fs w = (Ret a, fs', w') \<Longrightarrow> bindM p q fs w = q a fs' w'"
  by (simp add: bindM_def)

lemma tryM_nofault: "p fs w = (Ret a, fs', w') \<Longrightarrow> tryM p fs w = (Ret (Inr a), fs', w')"
  by (simp add: tryM_def)

lemma ignoreM_Ret:
  "ignoreM p fs w = (Ret b, fs', w') \<longleftrightarrow> (\<exists>r. p fs w = (r, fs', w') \<and> r \<noteq> Crashed)"
  by (cases "p fs w"; cases "fst (p fs w)") (auto simp: ignoreM_def bindM_def tryM_def ret_def)

end
