(* ===== verification/Drill_Steps.thy ===== *)
theory Drill_Steps
  imports Drill_Store Assertions Runner Faults
begin

section \<open>The drill pipeline\<close>

text \<open>
  \<open>internal/drill/orchestrator.go\<close> and \<open>internal/drill/steps/steps.go\<close>: the six River jobs of a
  drill, each the whole of its worker's \<open>Work\<close> method as a procedure of theory \<open>Faults\<close>, with a
  fault possible at each database, queue, runner, sandbox, evidence, audit, billing, webhook and
  push call. The state is the record \<open>world\<close>: the database, the queue, the infrastructure of the
  runner, the state of the evidence service, the audit log and the log of outgoing events.

  A worker is a function of its dependencies \<open>Deps\<close>, among them parameters for code outside the
  repository: \<open>dp_Connect\<close> and the querier it gives (PostgreSQL in the sandbox), \<open>dp_Render\<close> (the
  PDF library), the text of database errors and the printing of identifiers. Tracing spans have
  no effect on the state and are left out. River stores job arguments as JSON: a text that is
  not UTF-8 is stored with replacement characters, and one with a NUL byte is refused by the
  \<open>jsonb\<close> column.
\<close>

datatype JobArgs =
    ProvisionArgs uuid
  | FetchArgs uuid
  | RestoreArgs uuid string
  | AssertArgs uuid
  | ReportArgs uuid
  | TeardownArgs uuid string

record Job =
  j_Args :: JobArgs
  j_Priority :: nat

record AuditEvent =
  ae_AccountID :: uuid
  ae_ActorID :: uuid
  ae_Action :: string
  ae_TargetKind :: string
  ae_TargetID :: string
  ae_Metadata :: "(string \<times> string) list"

datatype out_event =
    UsageReported string string
  | MetricRecorded string duration
  | EventCaptured string string "(string \<times> string) list"
  | WebhookDispatched uuid string "(string \<times> string) list"
  | DrillNotified Drill string string

record ('r, 'e) world =
  w_db :: drill_db
  w_jobs :: "Job list"
  w_infra :: 'r
  w_evid :: 'e
  w_audit :: "AuditEvent list"
  w_out :: "out_event list"
  w_now :: gotime
  w_fresh :: uuid

record ReportData =
  rd_Drill :: Drill
  rd_Target :: Target
  rd_Steps :: "Step list"
  rd_Assertions :: "AssertionResult list"
  rd_Operator :: string
  rd_GeneratedAt :: gotime

text \<open>
  The optional dependencies are given by whether they are wired: billing also by whether it is
  enabled. \<open>dp_Customer\<close> is the Stripe customer \<open>GetAccount\<close> finds for an account.
\<close>

record ('r, 'e) Deps =
  dp_Runner :: "'r Runner"
  dp_Connect :: "string \<Rightarrow> 'r \<Rightarrow> string + Querier"
  dp_Render :: "ReportData \<Rightarrow> string + bytes"
  dp_Finalize :: "gotime \<Rightarrow> uuid \<Rightarrow> uuid \<Rightarrow> bytes \<Rightarrow> ('e, string) proc"
  dp_sha256 :: "bytes \<Rightarrow> bytes"
  dp_uuid :: "uuid \<Rightarrow> string"
  dp_dbError :: "store_error \<Rightarrow> string"
  dp_assertError :: "assert_error \<Rightarrow> string"
  dp_Webhooks :: bool
  dp_Metrics :: bool
  dp_Analytics :: bool
  dp_Notify :: bool
  dp_Billing :: "bool option"
  dp_Accounts :: bool
  dp_Customer :: "uuid \<Rightarrow> (string + string option)"

subsection \<open>Calls\<close>

definition dbErr :: "('r, 'e) Deps \<Rightarrow> store_error + 'a \<Rightarrow> string + 'a" where
  "dbErr D r = (case r of Inl e \<Rightarrow> Inl (dp_dbError D e) | Inr a \<Rightarrow> Inr a)"

definition db_write ::
    "('r, 'e) Deps \<Rightarrow> (gotime \<Rightarrow> uuid \<Rightarrow> drill_db \<Rightarrow> (store_error + 'a) \<times> drill_db) \<Rightarrow> (('r, 'e) world, 'a) proc" where
  "db_write D f =
     call (\<lambda>w. case f (w_now w) (w_fresh w) (w_db w) of
        (r, db) \<Rightarrow> (dbErr D r, w\<lparr>w_db := db, w_fresh := w_fresh w + 1\<rparr>))"

definition db_read :: "('r, 'e) Deps \<Rightarrow> (drill_db \<Rightarrow> store_error + 'a) \<Rightarrow> (('r, 'e) world, 'a) proc" where
  "db_read D f = call (\<lambda>w. (dbErr D (f (w_db w)), w))"

definition nul_error :: string where
  "nul_error = ''unsupported Unicode escape sequence''"

definition store_args :: "JobArgs \<Rightarrow> string + JobArgs" where
  "store_args a =
     (case a of
        RestoreArgs d p \<Rightarrow> if CHR 0x00 \<in> set p then Inl nul_error else Inr (RestoreArgs d (json_utf8 p))
      | TeardownArgs d r \<Rightarrow> if CHR 0x00 \<in> set r then Inl nul_error else Inr (TeardownArgs d (json_utf8 r))
      | _ \<Rightarrow> Inr a)"

definition insert_job :: "JobArgs \<Rightarrow> nat \<Rightarrow> (('r, 'e) world, unit) proc" where
  "insert_job a priority =
     call (\<lambda>w. case store_args a of
        Inl e \<Rightarrow> (Inl e, w)
      | Inr a' \<Rightarrow> (Inr (), w\<lparr>w_jobs := w_jobs w @ [\<lparr>j_Args = a', j_Priority = priority\<rparr>]\<rparr>))"

abbreviation Insert :: "JobArgs \<Rightarrow> (('r, 'e) world, unit) proc" where
  "Insert a \<equiv> insert_job a 0"

definition Record :: "AuditEvent \<Rightarrow> (('r, 'e) world, unit) proc" where
  "Record e = call (\<lambda>w. (Inr (), w\<lparr>w_audit := w_audit w @ [e]\<rparr>))"

definition emit :: "out_event \<Rightarrow> (('r, 'e) world, unit) proc" where
  "emit e = call (\<lambda>w. (Inr (), w\<lparr>w_out := w_out w @ [e]\<rparr>))"

subsection \<open>Creating a drill: the orchestrator\<close>

definition drill_event :: "('r, 'e) Deps \<Rightarrow> Drill \<Rightarrow> string \<Rightarrow> (string \<times> string) list \<Rightarrow> AuditEvent" where
  "drill_event D dr action meta =
     \<lparr>ae_AccountID = d_AccountID dr, ae_ActorID = d_CreatedByUserID dr, ae_Action = action,
      ae_TargetKind = ''drill'', ae_TargetID = dp_uuid D (d_ID dr), ae_Metadata = meta\<rparr>"

definition step_idem_key :: "('r, 'e) Deps \<Rightarrow> uuid \<Rightarrow> StepName \<Rightarrow> string" where
  "step_idem_key D drillID name = dp_uuid D drillID @ ''.'' @ step_string name"

definition EnqueueDrill :: "('r, 'e) Deps \<Rightarrow> bool \<Rightarrow> uuid \<Rightarrow> nat \<Rightarrow> (('r, 'e) world, unit) proc" where
  "EnqueueDrill D audited drillID priority =
     thenM
       (forM (enumerate 0 AllSteps) (\<lambda>(i, name).
          thenM (db_write D (\<lambda>now newid. CreateStepIfMissing newid drillID name i (step_idem_key D drillID name)))
            (ret ())))
       (bindM (tryM (db_read D (GetDrillByID drillID))) (\<lambda>r.
          thenM
            (case r of
               Inl _ \<Rightarrow> ret ()
             | Inr dr \<Rightarrow>
                 if audited then ignoreM (Record (drill_event D dr ''drill.created''
                   [(''target_id'', dp_uuid D (d_TargetID dr))]))
                 else ret ())
            (insert_job (ProvisionArgs drillID) priority)))"

subsection \<open>Helpers shared by the workers\<close>

definition reportUsage :: "('r, 'e) Deps \<Rightarrow> Drill \<Rightarrow> (('r, 'e) world, unit) proc" where
  "reportUsage D dr =
     (if dp_Billing D \<noteq> Some True \<or> \<not> dp_Accounts D then ret ()
      else
        bindM (tryM (call (\<lambda>w. (dp_Customer D (d_AccountID dr), w)))) (\<lambda>acct.
          case acct of
            Inr (Some customer) \<Rightarrow>
              if customer = [] then ret ()
              else ignoreM (emit (UsageReported customer (dp_uuid D (d_ID dr))))
          | _ \<Rightarrow> ret ()))"

definition notifyDrill :: "('r, 'e) Deps \<Rightarrow> Drill \<Rightarrow> string \<Rightarrow> string \<Rightarrow> (('r, 'e) world, unit) proc" where
  "notifyDrill D dr event reason =
     (if \<not> dp_Notify D then ret () else ignoreM (emit (DrillNotified dr event reason)))"

definition captureDrill :: "('r, 'e) Deps \<Rightarrow> string \<Rightarrow> Drill \<Rightarrow> (('r, 'e) world, unit) proc" where
  "captureDrill D event dr =
     (if \<not> dp_Analytics D then ret ()
      else modM (\<lambda>w. w\<lparr>w_out := w_out w @ [EventCaptured (dp_uuid D (d_AccountID dr)) event
        [(''drill_id'', dp_uuid D (d_ID dr)), (''target_id'', dp_uuid D (d_TargetID dr))]]\<rparr>))"

definition recordDrillMetric :: "('r, 'e) Deps \<Rightarrow> string \<Rightarrow> Drill \<Rightarrow> (('r, 'e) world, unit) proc" where
  "recordDrillMetric D status dr =
     (if \<not> dp_Metrics D then ret ()
      else modM (\<lambda>w. w\<lparr>w_out := w_out w @ [MetricRecorded status
        (case d_StartedAt dr of None \<Rightarrow> 0 | Some t \<Rightarrow> time_Sub (w_now w) t)]\<rparr>))"

definition dispatchWebhook ::
    "('r, 'e) Deps \<Rightarrow> uuid \<Rightarrow> string \<Rightarrow> (string \<times> string) list \<Rightarrow> (('r, 'e) world, unit) proc" where
  "dispatchWebhook D accountID event data =
     (if \<not> dp_Webhooks D then ret () else ignoreM (emit (WebhookDispatched accountID event data)))"

definition sandbox :: "('r, 'e) Deps \<Rightarrow> uuid \<Rightarrow> (('r, 'e) world, Sandbox) proc" where
  "sandbox D drillID =
     bindM (db_read D (GetDrillByID drillID)) (\<lambda>dr.
       case d_SandboxDB dr of
         None \<Rightarrow> errM ''sandbox db not recorded''
       | Some name \<Rightarrow>
           if name = [] then errM ''sandbox db not recorded''
           else
             (case rn_Rehydrate (dp_Runner D) drillID name of
                Inl e \<Rightarrow> errM e
              | Inr sb \<Rightarrow> ret sb))"

fun stepsAfter_loop :: "StepName \<Rightarrow> bool \<Rightarrow> StepName list \<Rightarrow> StepName list" where
  "stepsAfter_loop name seen [] = []"
| "stepsAfter_loop name seen (s # ss) =
     (if seen \<and> s \<noteq> StepTeardown then [s] else []) @ stepsAfter_loop name (seen \<or> s = name) ss"

definition stepsAfter :: "StepName \<Rightarrow> StepName list" where
  "stepsAfter name = stepsAfter_loop name False AllSteps"

definition failAndCleanup :: "('r, 'e) Deps \<Rightarrow> uuid \<Rightarrow> StepName \<Rightarrow> string \<Rightarrow> (('r, 'e) world, unit) proc" where
  "failAndCleanup D drillID step reason =
     thenM (ignoreM (db_write D (\<lambda>now _. MarkStepFailed now drillID step reason)))
    (thenM (forM (stepsAfter step) (\<lambda>later. ignoreM (db_write D (\<lambda>now _. MarkStepSkipped now drillID later))))
       (bindM (tryM (Insert (TeardownArgs drillID (step_string step @ '': '' @ reason)))) (\<lambda>r.
          case r of
            Inl e \<Rightarrow> errM (''enqueue teardown after failure: '' @ e)
          | Inr _ \<Rightarrow> ret ())))"

definition alreadyDone :: "('r, 'e) Deps \<Rightarrow> uuid \<Rightarrow> StepName \<Rightarrow> (('r, 'e) world, bool) proc" where
  "alreadyDone D drillID name =
     bindM (db_read D (GetStep drillID name)) (\<lambda>step. ret (s_Status step = StatusSucceeded))"

definition lookupDrillAndTarget :: "('r, 'e) Deps \<Rightarrow> uuid \<Rightarrow> (('r, 'e) world, Drill \<times> Target) proc" where
  "lookupDrillAndTarget D drillID =
     bindM (db_read D (GetDrillByID drillID)) (\<lambda>dr.
     bindM (db_read D (GetTargetByID (d_TargetID dr))) (\<lambda>t. ret (dr, t)))"

subsection \<open>Provision\<close>

definition ProvisionWorker_chain :: "uuid \<Rightarrow> (('r, 'e) world, unit) proc" where
  "ProvisionWorker_chain drillID = Insert (FetchArgs drillID)"

definition runner_Provision :: "('r, 'e) Deps \<Rightarrow> uuid \<Rightarrow> (('r, 'e) world, Sandbox) proc" where
  "runner_Provision D drillID =
     call (\<lambda>w. case rn_Provision (dp_Runner D) drillID (w_infra w) of (r, i) \<Rightarrow> (r, w\<lparr>w_infra := i\<rparr>))"

definition runner_Teardown :: "('r, 'e) Deps \<Rightarrow> Sandbox option \<Rightarrow> (('r, 'e) world, unit) proc" where
  "runner_Teardown D sb =
     call (\<lambda>w. case rn_Teardown (dp_Runner D) sb (w_infra w) of (r, i) \<Rightarrow> (r, w\<lparr>w_infra := i\<rparr>))"

definition ProvisionWorker_Work :: "('r, 'e) Deps \<Rightarrow> uuid \<Rightarrow> (('r, 'e) world, unit) proc" where
  "ProvisionWorker_Work D drillID =
     bindM (alreadyDone D drillID StepProvision) (\<lambda>finished.
       if finished then ProvisionWorker_chain drillID
       else
         thenM (db_write D (\<lambda>now _. MarkDrillRunning now drillID))
        (thenM (db_write D (\<lambda>now _. MarkStepRunning now drillID StepProvision))
        (bindM (tryM (runner_Provision D drillID)) (\<lambda>r.
           case r of
             Inl e \<Rightarrow> failAndCleanup D drillID StepProvision e
           | Inr sb \<Rightarrow>
               bindM (tryM (db_write D (\<lambda>_ _. SetSandboxDB drillID (sb_Name sb)))) (\<lambda>s.
                 case s of
                   Inl e \<Rightarrow> thenM (ignoreM (runner_Teardown D (Some sb))) (errM e)
                 | Inr _ \<Rightarrow>
                     thenM (db_write D (\<lambda>now _. MarkStepSucceeded now drillID StepProvision))
                       (ProvisionWorker_chain drillID))))))"

subsection \<open>Fetch\<close>

definition runner_Fetch ::
    "('r, 'e) Deps \<Rightarrow> Sandbox \<Rightarrow> string \<Rightarrow> (('r, 'e) world, string \<times> string) proc" where
  "runner_Fetch D sb uri = call (\<lambda>w. (rn_Fetch (dp_Runner D) sb uri (w_infra w), w))"

definition chainAlreadyFetched :: "('r, 'e) Deps \<Rightarrow> uuid \<Rightarrow> (('r, 'e) world, unit) proc" where
  "chainAlreadyFetched D drillID =
     bindM (lookupDrillAndTarget D drillID) (\<lambda>(_, target).
     bindM (sandbox D drillID) (\<lambda>sb.
     bindM (runner_Fetch D sb (t_SourceURI target)) (\<lambda>(localPath, _).
       Insert (RestoreArgs drillID localPath))))"

definition FetchWorker_Work :: "('r, 'e) Deps \<Rightarrow> uuid \<Rightarrow> (('r, 'e) world, unit) proc" where
  "FetchWorker_Work D drillID =
     bindM (alreadyDone D drillID StepFetch) (\<lambda>finished.
       if finished then chainAlreadyFetched D drillID
       else
         thenM (db_write D (\<lambda>now _. MarkStepRunning now drillID StepFetch))
        (bindM (lookupDrillAndTarget D drillID) (\<lambda>(dr, target).
         bindM (sandbox D drillID) (\<lambda>sb.
         bindM (tryM (runner_Fetch D sb (t_SourceURI target))) (\<lambda>r.
           case r of
             Inl e \<Rightarrow> failAndCleanup D drillID StepFetch e
           | Inr (localPath, sourceHash) \<Rightarrow>
               thenM (db_write D (\<lambda>_ _. SetSourceHash drillID sourceHash))
              (thenM (db_write D (\<lambda>now _. MarkStepSucceeded now drillID StepFetch))
                 (Insert (RestoreArgs drillID localPath))))))))"

subsection \<open>Restore\<close>

definition runner_Restore ::
    "('r, 'e) Deps \<Rightarrow> Sandbox \<Rightarrow> string \<Rightarrow> (('r, 'e) world, bytes \<times> string option) proc" where
  "runner_Restore D sb path =
     call (\<lambda>w. case rn_Restore (dp_Runner D) sb path (w_infra w) of (r, i) \<Rightarrow> (Inr r, w\<lparr>w_infra := i\<rparr>))"

definition RestoreWorker_Work :: "('r, 'e) Deps \<Rightarrow> uuid \<Rightarrow> string \<Rightarrow> (('r, 'e) world, unit) proc" where
  "RestoreWorker_Work D drillID filePath =
     bindM (alreadyDone D drillID StepRestore) (\<lambda>finished.
       if finished then Insert (AssertArgs drillID)
       else
         thenM (db_write D (\<lambda>now _. MarkStepRunning now drillID StepRestore))
        (bindM (sandbox D drillID) (\<lambda>sb.
         bindM (tryM (runner_Restore D sb filePath)) (\<lambda>r.
           (case (case r of Inl e \<Rightarrow> ([], Some e) | Inr x \<Rightarrow> x) of (output, restoreErr) \<Rightarrow>
              thenM (ignoreM (db_write D (\<lambda>_ _. SetStepOutput (dp_sha256 D) drillID StepRestore output)))
                (case restoreErr of
                   Some e \<Rightarrow> failAndCleanup D drillID StepRestore e
                 | None \<Rightarrow>
                     thenM (db_write D (\<lambda>now _. MarkStepSucceeded now drillID StepRestore))
                       (Insert (AssertArgs drillID))))))))"

subsection \<open>Assert\<close>

text \<open>\<open>json.Unmarshal\<close> into a map accepts an object, and \<open>null\<close> as the empty map.\<close>

definition unmarshal_config :: "json \<Rightarrow> string + config" where
  "unmarshal_config v =
     (case v of JObj ms \<Rightarrow> Inr ms | JNull \<Rightarrow> Inr [] | _ \<Rightarrow> Inl ''json: cannot unmarshal'')"

definition assertion_prefix :: "('r, 'e) Deps \<Rightarrow> Assertion \<Rightarrow> string" where
  "assertion_prefix D spec = ''assertion '' @ dp_uuid D (a_ID spec)"

definition run_assertion :: "('r, 'e) Deps \<Rightarrow> uuid \<Rightarrow> Querier \<Rightarrow> Assertion \<Rightarrow> (('r, 'e) world, unit) proc" where
  "run_assertion D drillID q spec =
     (case unmarshal_config (a_Config spec) of
        Inl e \<Rightarrow> errM (assertion_prefix D spec @ '': bad config: '' @ e)
      | Inr cfg \<Rightarrow>
          bindM (tryM (call (\<lambda>w. (case Run q \<lparr>sp_Kind = a_Kind spec, sp_Config = cfg\<rparr> of
               Inl e \<Rightarrow> Inl (dp_assertError D e) | Inr out \<Rightarrow> Inr out, w)))) (\<lambda>r.
            case r of
              Inl e \<Rightarrow> errM (assertion_prefix D spec @ '' ('' @ a_Kind spec @ ''): '' @ e)
            | Inr out \<Rightarrow>
                db_write D (\<lambda>now newid. RecordAssertion newid now
                  \<lparr>ar_ID = 0, ar_DrillID = drillID, ar_Kind = o_Kind out, ar_Expected = o_Expected out,
                   ar_Actual = o_Actual out, ar_Passed = o_Passed out, ar_At = 0\<rparr>)))"

definition runAssertions ::
    "('r, 'e) Deps \<Rightarrow> uuid \<Rightarrow> Sandbox \<Rightarrow> Assertion list \<Rightarrow> (('r, 'e) world, unit) proc" where
  "runAssertions D drillID sb specs =
     thenM (db_write D (\<lambda>_ _. ClearAssertionResults drillID))
    (bindM (tryM (call (\<lambda>w. (dp_Connect D (sb_DSN sb) (w_infra w), w)))) (\<lambda>c.
       case c of
         Inl e \<Rightarrow> errM (''connect sandbox: '' @ e)
       | Inr q \<Rightarrow> forM specs (run_assertion D drillID q)))"

definition AssertWorker_Work :: "('r, 'e) Deps \<Rightarrow> uuid \<Rightarrow> (('r, 'e) world, unit) proc" where
  "AssertWorker_Work D drillID =
     bindM (alreadyDone D drillID StepAssert) (\<lambda>finished.
       if finished then Insert (ReportArgs drillID)
       else
         thenM (db_write D (\<lambda>now _. MarkStepRunning now drillID StepAssert))
        (bindM (lookupDrillAndTarget D drillID) (\<lambda>(_, target).
         bindM (db_read D (\<lambda>db. Inr (ListTargetAssertions (t_ID target) db))) (\<lambda>specs.
         bindM (sandbox D drillID) (\<lambda>sb.
         bindM (tryM (runAssertions D drillID sb specs)) (\<lambda>r.
           case r of
             Inl e \<Rightarrow> failAndCleanup D drillID StepAssert e
           | Inr _ \<Rightarrow>
               thenM (db_write D (\<lambda>now _. MarkStepSucceeded now drillID StepAssert))
                 (Insert (ReportArgs drillID))))))))"

subsection \<open>Report\<close>

definition assertions_failed_msg :: string where
  "assertions_failed_msg = ''one or more assertions failed''"

fun verdictPass :: "AssertionResult list \<Rightarrow> bool" where
  "verdictPass [] = True"
| "verdictPass (a # as) = (if \<not> ar_Passed a then False else verdictPass as)"

definition report_drill :: "bool \<Rightarrow> Drill \<Rightarrow> Drill" where
  "report_drill pass dr =
     (if pass then dr\<lparr>d_Status := StatusSucceeded, d_Error := None\<rparr>
      else dr\<lparr>d_Status := StatusFailed, d_Error := Some assertions_failed_msg\<rparr>)"

definition evidence_Finalize :: "('r, 'e) Deps \<Rightarrow> uuid \<Rightarrow> uuid \<Rightarrow> bytes \<Rightarrow> (('r, 'e) world, string) proc" where
  "evidence_Finalize D drillID accountID pdf fs w =
     (case dp_Finalize D (w_now w) drillID accountID pdf fs (w_evid w) of
        (r, fs', e) \<Rightarrow> (r, fs', w\<lparr>w_evid := e\<rparr>))"

text \<open>The end of the worker, from \<open>Evidence.Finalize\<close> on, and its last part, from the verdict on.\<close>

definition report_chain :: "('r, 'e) Deps \<Rightarrow> Drill \<Rightarrow> AssertionResult list \<Rightarrow> uuid \<Rightarrow> (('r, 'e) world, unit) proc" where
  "report_chain D dr ars drillID =
     (if \<not> verdictPass ars then
        thenM (ignoreM (db_write D (\<lambda>now _. MarkDrillFailed now drillID assertions_failed_msg)))
       (thenM (ignoreM (Record (drill_event D dr ''drill.failed'' [(''reason'', ''assertion_failed'')])))
          (Insert (TeardownArgs drillID ''assertion_failed'')))
      else Insert (TeardownArgs drillID []))"

definition report_store ::
    "('r, 'e) Deps \<Rightarrow> Drill \<Rightarrow> AssertionResult list \<Rightarrow> bytes \<Rightarrow> uuid \<Rightarrow> (('r, 'e) world, unit) proc" where
  "report_store D dr ars pdf drillID =
     bindM (tryM (evidence_Finalize D drillID (d_AccountID dr) pdf)) (\<lambda>r.
       case r of
         Inl e \<Rightarrow> failAndCleanup D drillID StepReport e
       | Inr path \<Rightarrow>
           thenM (db_write D (\<lambda>_ _. MarkEvidence drillID path))
          (thenM (db_write D (\<lambda>now _. MarkStepSucceeded now drillID StepReport))
             (report_chain D dr ars drillID)))"

definition ReportWorker_Work :: "('r, 'e) Deps \<Rightarrow> uuid \<Rightarrow> (('r, 'e) world, unit) proc" where
  "ReportWorker_Work D drillID =
     bindM (alreadyDone D drillID StepReport) (\<lambda>finished.
       if finished then Insert (TeardownArgs drillID [])
       else
         thenM (db_write D (\<lambda>now _. MarkStepRunning now drillID StepReport))
        (bindM (lookupDrillAndTarget D drillID) (\<lambda>(dr, target).
         bindM (db_read D (\<lambda>db. Inr (ListSteps drillID db))) (\<lambda>steps.
         bindM (db_read D (\<lambda>db. Inr (ListAssertions drillID db))) (\<lambda>ars.
         bindM (tryM (db_read D (\<lambda>db. Inr (CreatorEmail (d_CreatedByUserID dr) db)))) (\<lambda>op.
         bindM (getM w_now) (\<lambda>now.
           case dp_Render D \<lparr>rd_Drill = report_drill (verdictPass ars) dr, rd_Target = target,
               rd_Steps = steps, rd_Assertions = ars,
               rd_Operator = (case op of Inl _ \<Rightarrow> [] | Inr e \<Rightarrow> e), rd_GeneratedAt = now\<rparr> of
             Inl e \<Rightarrow> failAndCleanup D drillID StepReport e
           | Inr pdf \<Rightarrow> report_store D dr ars pdf drillID)))))))"

subsection \<open>Teardown\<close>

definition drill_failed_events :: "('r, 'e) Deps \<Rightarrow> Drill \<Rightarrow> string \<Rightarrow> (('r, 'e) world, unit) proc" where
  "drill_failed_events D dr reason =
     thenM (recordDrillMetric D ''failed'' dr)
    (thenM (captureDrill D ''drill.failed'' dr)
    (thenM (dispatchWebhook D (d_AccountID dr) ''drill.failed''
              [(''drill_id'', dp_uuid D (d_ID dr)), (''reason'', reason)])
           (notifyDrill D dr ''drill.failed'' reason)))"

text \<open>The handle to tear down, if any, and the final drill status.\<close>

definition teardown_sandbox :: "('r, 'e) Deps \<Rightarrow> Drill \<Rightarrow> uuid \<Rightarrow> (('r, 'e) world, Sandbox option) proc" where
  "teardown_sandbox D dr drillID =
     (case d_SandboxDB dr of
        None \<Rightarrow> ret None
      | Some name \<Rightarrow>
          if name = [] then ret None
          else bindM (tryM (sandbox D drillID)) (\<lambda>r. ret (case r of Inl _ \<Rightarrow> None | Inr sb \<Rightarrow> Some sb)))"

definition teardown_verdict :: "('r, 'e) Deps \<Rightarrow> Drill \<Rightarrow> uuid \<Rightarrow> string \<Rightarrow> (('r, 'e) world, unit) proc" where
  "teardown_verdict D dr drillID failureReason =
     (if failureReason \<noteq> [] then
        thenM (ignoreM (db_write D (\<lambda>now _. MarkDrillFailed now drillID failureReason)))
       (thenM (ignoreM (Record (drill_event D dr ''drill.failed'' [(''reason'', failureReason)])))
          (drill_failed_events D dr failureReason))
      else if d_Status dr = StatusFailed then drill_failed_events D dr ''assertion_failed''
      else
        bindM (db_read D (GetDrillByID drillID)) (\<lambda>dr2.
        thenM (db_write D (\<lambda>now _. MarkDrillSucceeded now drillID (coalesce (d_EvidencePath dr2) [])))
       (thenM (ignoreM (Record (drill_event D dr ''drill.completed'' [])))
       (thenM (recordDrillMetric D ''succeeded'' dr)
       (thenM (captureDrill D ''drill.completed'' dr)
       (thenM (dispatchWebhook D (d_AccountID dr) ''drill.completed''
                 [(''drill_id'', dp_uuid D drillID), (''status'', ''succeeded'')])
              (notifyDrill D dr2 ''drill.completed'' [])))))))"

definition TeardownWorker_Work :: "('r, 'e) Deps \<Rightarrow> uuid \<Rightarrow> string \<Rightarrow> (('r, 'e) world, unit) proc" where
  "TeardownWorker_Work D drillID failureReason =
     bindM (db_read D (GetDrillByID drillID)) (\<lambda>dr.
     thenM (reportUsage D dr)
    (bindM (teardown_sandbox D dr drillID) (\<lambda>sb.
     bindM (tryM (runner_Teardown D sb)) (\<lambda>r.
     thenM (case r of
              Inl e \<Rightarrow> ignoreM (db_write D (\<lambda>now _. MarkStepFailed now drillID StepTeardown e))
            | Inr _ \<Rightarrow> ignoreM (db_write D (\<lambda>now _. MarkStepSucceeded now drillID StepTeardown)))
       (teardown_verdict D dr drillID failureReason)))))"

subsection \<open>The worker registry\<close>

definition work :: "('r, 'e) Deps \<Rightarrow> JobArgs \<Rightarrow> (('r, 'e) world, unit) proc" where
  "work D a =
     (case a of
        ProvisionArgs d \<Rightarrow> ProvisionWorker_Work D d
      | FetchArgs d \<Rightarrow> FetchWorker_Work D d
      | RestoreArgs d path \<Rightarrow> RestoreWorker_Work D d path
      | AssertArgs d \<Rightarrow> AssertWorker_Work D d
      | ReportArgs d \<Rightarrow> ReportWorker_Work D d
      | TeardownArgs d reason \<Rightarrow> TeardownWorker_Work D d reason)"

section \<open>The system\<close>

text \<open>
  The steps of the running system. A queued job is worked under any faults and stays in the
  queue, since River may run it again after an error, a crash or a lost acknowledgement; it
  leaves the queue at any time (completed, or given up after its last attempt). In between
  users and the scheduler create targets, assertions and drills and change teams and
  schedules, drills are enqueued, and time passes. Jobs of one run are worked one after the other.
\<close>

inductive user_step :: "uuid_lib \<Rightarrow> drill_db \<Rightarrow> drill_db \<Rightarrow> bool" for U where
  "\<not> target_exists newid db \<Longrightarrow> user_step U db (snd (CreateTarget newid now t db))"
| "user_step U db (snd (SetTargetTeam acc tid team db))"
| "user_step U db (snd (SetTargetSchedule acc tid cadence nextAt db))"
| "user_step U db (AdvanceTargetSchedule tid nextAt db)"
| "\<not> drill_exists newid db \<Longrightarrow>
     user_step U db (snd (CreateDrillIdempotent U newid now acc user tid key db))"
| "user_step U db (snd (CreateAssertion newid now tid kind config db))"
| "user_step U db (snd (DeleteAssertion acc aid db))"

inductive system_step :: "('r, 'e) Deps \<Rightarrow> uuid_lib \<Rightarrow> ('r, 'e) world \<Rightarrow> ('r, 'e) world \<Rightarrow> bool"
  for D U where
  work_job: "j \<in> set (w_jobs w) \<Longrightarrow> system_step D U w (final (work D (j_Args j) fs w))"
| drop_job: "system_step D U w (w\<lparr>w_jobs := remove1 j (w_jobs w)\<rparr>)"
| enqueue: "system_step D U w (final (EnqueueDrill D audited drillID priority fs w))"
| user: "user_step U (w_db w) db \<Longrightarrow> system_step D U w (w\<lparr>w_db := db\<rparr>)"
| tick: "w_now w \<le> t \<Longrightarrow> system_step D U w (w\<lparr>w_now := t\<rparr>)"

definition initial :: "('r, 'e) world \<Rightarrow> bool" where
  "initial w \<longleftrightarrow> w_jobs w = [] \<and> db_drills (w_db w) = [] \<and> db_steps (w_db w) = [] \<and>
     db_results (w_db w) = [] \<and> db_idem (w_db w) = []"

section \<open>A succeeded drill has evidence\<close>

definition rep_done :: "drill_db \<Rightarrow> uuid \<Rightarrow> bool" where
  "rep_done db d \<longleftrightarrow>
     (\<exists>s \<in> set (db_steps db). s_DrillID s = d \<and> s_Name s = StepReport \<and> s_Status s = StatusSucceeded)"

definition has_evidence :: "(uuid \<Rightarrow> string \<Rightarrow> 'e \<Rightarrow> bool) \<Rightarrow> ('r, 'e) world \<Rightarrow> uuid \<Rightarrow> bool" where
  "has_evidence stored w d \<longleftrightarrow>
     (\<exists>dr \<in> set (db_drills (w_db w)). d_ID dr = d \<and>
        (\<exists>p. d_EvidencePath dr = Some p \<and> p \<noteq> [] \<and> stored d p (w_evid w)))"

definition drill_here :: "uuid \<Rightarrow> ('r, 'e) world \<Rightarrow> bool" where
  "drill_here d w \<longleftrightarrow> drill_exists d (w_db w)"

definition evidence_inv :: "(uuid \<Rightarrow> string \<Rightarrow> 'e \<Rightarrow> bool) \<Rightarrow> ('r, 'e) world \<Rightarrow> bool" where
  "evidence_inv stored w \<longleftrightarrow>
     distinct (map d_ID (db_drills (w_db w))) \<and>
     (\<forall>dr \<in> set (db_drills (w_db w)). d_Status dr = StatusSucceeded \<longrightarrow> has_evidence stored w (d_ID dr)) \<and>
     (\<forall>j \<in> set (w_jobs w). \<forall>d. j_Args j = TeardownArgs d [] \<longrightarrow> has_evidence stored w d) \<and>
     (\<forall>d. rep_done (w_db w) d \<longrightarrow> has_evidence stored w d)"

lemma keeps_db_write:
  "(\<And>w now newid. I w \<Longrightarrow> I (w\<lparr>w_db := snd (f now newid (w_db w)), w_fresh := w_fresh w + 1\<rparr>)) \<Longrightarrow>
     keeps I (db_write D f)"
  unfolding db_write_def by (rule keeps_call) (simp split: prod.split, metis snd_conv)

lemma keeps_db_read [hoare]: "keeps I (db_read D f)"
  unfolding db_read_def by (rule keeps_call) simp

text \<open>Reads that establish something about what they return.\<close>

lemma triple_db_read:
  "(\<And>w a. P w \<Longrightarrow> f (w_db w) = Inr a \<Longrightarrow> Q a w) \<Longrightarrow> (\<And>w. P w \<Longrightarrow> E w) \<Longrightarrow> triple P (db_read D f) Q E"
  unfolding db_read_def by (rule triple_call) (auto simp: dbErr_def split: sum.splits)

lemma triple_db_write:
  assumes "\<And>w now newid a. P w \<Longrightarrow> fst (f now newid (w_db w)) = Inr a \<Longrightarrow>
      Q a (w\<lparr>w_db := snd (f now newid (w_db w)), w_fresh := w_fresh w + 1\<rparr>)"
    and "\<And>w now newid. P w \<Longrightarrow> E (w\<lparr>w_db := snd (f now newid (w_db w)), w_fresh := w_fresh w + 1\<rparr>)"
    and "\<And>w. P w \<Longrightarrow> E w"
  shows "triple P (db_write D f) Q E"
  unfolding db_write_def
proof (rule triple_call)
  fix w assume "P w"
  with assms(1) [of w "w_now w" "w_fresh w"] assms(2) [of w "w_now w" "w_fresh w"]
  show "case case f (w_now w) (w_fresh w) (w_db w) of (r, db) \<Rightarrow>
      (dbErr D r, w\<lparr>w_db := db, w_fresh := w_fresh w + 1\<rparr>) of
      (Inr a, w') \<Rightarrow> Q a w' \<and> E w' | (Inl _, w') \<Rightarrow> E w'"
    by (cases "f (w_now w) (w_fresh w) (w_db w)"; cases "fst (f (w_now w) (w_fresh w) (w_db w))")
      (fastforce simp: dbErr_def)+
qed (rule assms(3))

subsection \<open>Writes and the invariant\<close>

lemma rep_done_upd_drill [simp]: "rep_done (upd_drill x G f db) d = rep_done db d"
  by (simp add: rep_done_def)

text \<open>
  A database change is tame when it keeps drills with their evidence paths and makes no drill
  succeeded and no report step finished. All writes are, except the three that the report and
  teardown workers make once the evidence exists.
\<close>

definition tame :: "drill_db \<Rightarrow> drill_db \<Rightarrow> bool" where
  "tame db db' \<longleftrightarrow>
     (distinct (map d_ID (db_drills db)) \<longrightarrow> distinct (map d_ID (db_drills db'))) \<and>
     (\<forall>d. rep_done db' d \<longrightarrow> rep_done db d) \<and>
     (\<forall>dr \<in> set (db_drills db'). d_Status dr = StatusSucceeded \<longrightarrow>
        (\<exists>dr' \<in> set (db_drills db). d_ID dr' = d_ID dr \<and> d_Status dr' = StatusSucceeded)) \<and>
     (\<forall>dr \<in> set (db_drills db). \<exists>dr' \<in> set (db_drills db').
        d_ID dr' = d_ID dr \<and> d_EvidencePath dr' = d_EvidencePath dr)"

lemma tame_inv:
  assumes "tame (w_db w) db'" and "evidence_inv stored w"
  shows "evidence_inv stored (w\<lparr>w_db := db', w_fresh := k\<rparr>)"
proof -
  note t = assms(1) [unfolded tame_def]
  have "has_evidence stored (w\<lparr>w_db := db', w_fresh := k\<rparr>) d" if h: "has_evidence stored w d" for d
  proof -
    obtain dr p where dr: "dr \<in> set (db_drills (w_db w))" "d_ID dr = d" "d_EvidencePath dr = Some p" "p \<noteq> []"
      "stored d p (w_evid w)" using h by (auto simp: has_evidence_def)
    then obtain dr' where "dr' \<in> set (db_drills db')" "d_ID dr' = d" "d_EvidencePath dr' = Some p"
      using t by metis
    with dr show ?thesis by (auto simp: has_evidence_def)
  qed
  then show ?thesis using assms(2) t unfolding evidence_inv_def by fastforce
qed

lemma tame_refl [simp]: "tame db db"
  by (auto simp: tame_def)

lemma tame_upd_drill:
  assumes "\<And>d. d_ID (f d) = d_ID d" "\<And>d. d_EvidencePath (f d) = d_EvidencePath d"
    "\<And>d. G d \<Longrightarrow> d_Status (f d) = StatusSucceeded \<Longrightarrow> d_Status d = StatusSucceeded"
  shows "tame db (upd_drill x G f db)"
proof -
  have "map d_ID (db_drills (upd_drill x G f db)) = map d_ID (db_drills db)"
    unfolding upd_drill_def by (simp add: map_sql_update_key assms(1))
  moreover have "\<exists>dr' \<in> set (db_drills (upd_drill x G f db)). d_ID dr' = d_ID dr \<and> d_EvidencePath dr' = d_EvidencePath dr"
    if "dr \<in> set (db_drills db)" for dr
    using that by (intro bexI [of _ "if d_ID dr = x \<and> G dr then f dr else dr"])
      (auto simp: assms upd_drill_def set_sql_update)
  moreover have "\<exists>dr' \<in> set (db_drills db). d_ID dr' = d_ID dr \<and> d_Status dr' = StatusSucceeded"
    if "dr \<in> set (db_drills (upd_drill x G f db))" "d_Status dr = StatusSucceeded" for dr
    using that by (auto simp: assms upd_drill_def set_sql_update split: if_splits)
  ultimately show ?thesis unfolding tame_def by simp
qed

lemma tame_upd_step:
  assumes "\<And>s. s_DrillID (f s) = s_DrillID s" "\<And>s. s_Name (f s) = s_Name s"
    "n \<noteq> StepReport \<or> (\<forall>s. s_Status (f s) = StatusSucceeded \<longrightarrow> s_Status s = StatusSucceeded)"
  shows "tame db (upd_step x n G f db)"
proof -
  have "rep_done db d" if "rep_done (upd_step x n G f db) d" for d
    using assms(3) that by (fastforce simp: rep_done_def upd_step_def set_sql_update assms(1,2) split: if_splits)
  then show ?thesis unfolding tame_def by auto
qed

lemma tame_worker_writes:
  "tame db (snd (MarkDrillRunning now d db))"
  "tame db (snd (MarkDrillFailed now d reason db))"
  "tame db (snd (SetSandboxDB d name db))"
  "tame db (snd (SetSourceHash d hash db))"
  "tame db (snd (MarkStepRunning now d n db))"
  "tame db (snd (MarkStepSkipped now d n db))"
  "n \<noteq> StepReport \<Longrightarrow> tame db (snd (MarkStepSucceeded now d n db))"
  "tame db (snd (MarkStepFailed now d n reason db))"
  "tame db (snd (SetStepOutput sha d n out db))"
  by (auto simp: drill_updates step_updates Let_def intro!: tame_upd_drill tame_upd_step)

lemma tame_results:
  "tame db (snd (ClearAssertionResults d db))" "tame db (snd (RecordAssertion newid now ar db))"
  by (auto simp: tame_def ClearAssertionResults_def RecordAssertion_def rep_done_def)

lemma tame_create_step: "tame db (snd (CreateStepIfMissing newid d n i k db))"
  by (auto simp: tame_def CreateStepIfMissing_def Let_def rep_done_def sql_first_None image_iff split: option.split)

lemma tame_user: "user_step U db db' \<Longrightarrow> tame db db'"
proof (induction rule: user_step.induct)
  case (5 newid db now acc user tid key)
  then show ?case
    by (auto simp: CreateDrillIdempotent_def Let_def tame_def rep_done_def drill_exists_def split: option.split)
qed (auto simp: tame_def rep_done_def CreateTarget_def SetTargetTeam_def SetTargetSchedule_def
    AdvanceTargetSchedule_def CreateAssertion_def DeleteAssertion_def Let_def)

lemma keeps_tame_write:
  "(\<And>db now newid. tame db (snd (f now newid db))) \<Longrightarrow> keeps (evidence_inv stored) (db_write D f)"
  by (rule keeps_db_write) (simp add: tame_inv)

lemma inv_frame [simp]:
  "evidence_inv stored (w\<lparr>w_infra := i\<rparr>) = evidence_inv stored w"
  "evidence_inv stored (w\<lparr>w_audit := a\<rparr>) = evidence_inv stored w"
  "evidence_inv stored (w\<lparr>w_out := out\<rparr>) = evidence_inv stored w"
  "evidence_inv stored (w\<lparr>w_now := t\<rparr>) = evidence_inv stored w"
  by (simp_all add: evidence_inv_def has_evidence_def)

lemma has_evidence_frame [simp]:
  "has_evidence stored (w\<lparr>w_infra := i\<rparr>) d = has_evidence stored w d"
  "has_evidence stored (w\<lparr>w_audit := a\<rparr>) d = has_evidence stored w d"
  "has_evidence stored (w\<lparr>w_out := out\<rparr>) d = has_evidence stored w d"
  "has_evidence stored (w\<lparr>w_jobs := js\<rparr>) d = has_evidence stored w d"
  "has_evidence stored (w\<lparr>w_now := t\<rparr>) d = has_evidence stored w d"
  by (simp_all add: has_evidence_def)

lemma tame_has_evidence:
  assumes "tame (w_db w) db'" and "has_evidence stored w d"
  shows "has_evidence stored (w\<lparr>w_db := db', w_fresh := k\<rparr>) d"
  using assms unfolding has_evidence_def tame_def by (simp add: Bex_def Ball_def) metis

text \<open>The invariant together with evidence for one drill, which only the teardown worker needs.\<close>

definition inv_ev :: "(uuid \<Rightarrow> string \<Rightarrow> 'e \<Rightarrow> bool) \<Rightarrow> uuid option \<Rightarrow> ('r, 'e) world \<Rightarrow> bool" where
  "inv_ev stored d w \<longleftrightarrow> evidence_inv stored w \<and> (\<forall>x. d = Some x \<longrightarrow> has_evidence stored w x)"

lemma inv_ev_frame [simp]:
  "inv_ev stored d (w\<lparr>w_infra := i\<rparr>) = inv_ev stored d w"
  "inv_ev stored d (w\<lparr>w_audit := a\<rparr>) = inv_ev stored d w"
  "inv_ev stored d (w\<lparr>w_out := out\<rparr>) = inv_ev stored d w"
  by (simp_all add: inv_ev_def)

lemma keeps_ev_write:
  "(\<And>db now newid. tame db (snd (f now newid db))) \<Longrightarrow> keeps (inv_ev stored d) (db_write D f)"
  by (rule keeps_db_write) (simp add: inv_ev_def tame_inv tame_has_evidence)

lemma keeps_ev_emit [hoare]: "keeps (inv_ev stored d) (emit e)"
  unfolding emit_def by (rule keeps_call) simp

lemma keeps_ev_Record [hoare]: "keeps (inv_ev stored d) (Record e)"
  unfolding Record_def by (rule keeps_call) simp

lemma keeps_ev_runner [hoare]:
  "keeps (inv_ev stored d) (runner_Provision D x)" "keeps (inv_ev stored d) (runner_Teardown D sb)"
  "keeps (inv_ev stored d) (runner_Fetch D s p)" "keeps (inv_ev stored d) (runner_Restore D s p)"
  unfolding runner_Provision_def runner_Teardown_def runner_Fetch_def runner_Restore_def
  by (rule keeps_call, simp split: prod.split)+

definition safe_args :: "uuid option \<Rightarrow> JobArgs \<Rightarrow> bool" where
  "safe_args d a \<longleftrightarrow> (\<forall>x. a = TeardownArgs x [] \<longrightarrow> d = Some x)"

lemma store_args_teardown: "store_args a = Inr (TeardownArgs x []) \<longleftrightarrow> a = TeardownArgs x []"
  by (auto simp: store_args_def json_utf8_nonempty split: JobArgs.splits if_splits)

lemma keeps_ev_insert: "safe_args d a \<Longrightarrow> keeps (inv_ev stored d) (insert_job a p)"
  unfolding insert_job_def
  by (rule keeps_call)
    (auto simp: inv_ev_def evidence_inv_def safe_args_def store_args_teardown split: sum.split)

lemma safe_args_simps [simp]:
  "safe_args d (ProvisionArgs x)" "safe_args d (FetchArgs x)" "safe_args d (RestoreArgs x p)"
  "safe_args d (AssertArgs x)" "safe_args d (ReportArgs x)" "r \<noteq> [] \<Longrightarrow> safe_args d (TeardownArgs x r)"
  "safe_args (Some x) (TeardownArgs x r)"
  by (simp_all add: safe_args_def)

lemmas keeps_ev = keeps_ev_write keeps_ev_insert hoare

lemma keeps_ev_helpers [hoare]:
  "keeps (inv_ev stored d) (sandbox D x)" "keeps (inv_ev stored d) (alreadyDone D x n)"
  "keeps (inv_ev stored d) (lookupDrillAndTarget D x)" "keeps (inv_ev stored d) (reportUsage D dr)"
  unfolding sandbox_def alreadyDone_def lookupDrillAndTarget_def reportUsage_def
  by (intro hoare)+

lemma keeps_ev_events [hoare]:
  "keeps (inv_ev stored d) (notifyDrill D dr ev rs)" "keeps (inv_ev stored d) (dispatchWebhook D acc ev dt)"
  "keeps (inv_ev stored d) (captureDrill D ev dr)" "keeps (inv_ev stored d) (recordDrillMetric D st dr)"
  unfolding notifyDrill_def dispatchWebhook_def captureDrill_def recordDrillMetric_def
  by (intro hoare keeps_modM; simp)+

lemma keeps_ev_failAndCleanup [hoare]: "keeps (inv_ev stored d) (failAndCleanup D x n reason)"
  unfolding failAndCleanup_def
  by (intro hoare keeps_ev_write keeps_ev_insert tame_worker_writes) simp

lemma keeps_ev_simple_workers:
  "keeps (inv_ev stored d) (ProvisionWorker_Work D x)" "keeps (inv_ev stored d) (FetchWorker_Work D x)"
  "keeps (inv_ev stored d) (RestoreWorker_Work D x path)"
  unfolding ProvisionWorker_Work_def ProvisionWorker_chain_def FetchWorker_Work_def chainAlreadyFetched_def
    RestoreWorker_Work_def
  by (intro hoare keeps_ev_write keeps_ev_insert tame_worker_writes; simp)+

lemma keeps_ev_AssertWorker: "keeps (inv_ev stored d) (AssertWorker_Work D x)"
  unfolding AssertWorker_Work_def runAssertions_def run_assertion_def
  by (intro hoare keeps_ev_write keeps_ev_insert tame_worker_writes tame_results; simp)+

lemma keeps_ev_EnqueueDrill: "keeps (inv_ev stored d) (EnqueueDrill D audited x priority)"
  unfolding EnqueueDrill_def
  by (intro hoare keeps_ev_write keeps_ev_insert tame_create_step; simp)+

definition ready :: "(uuid \<Rightarrow> string \<Rightarrow> 'e \<Rightarrow> bool) \<Rightarrow> uuid \<Rightarrow> string \<Rightarrow> ('r, 'e) world \<Rightarrow> bool" where
  "ready stored d p w \<longleftrightarrow> inv_ev stored None w \<and> drill_here d w \<and> p \<noteq> [] \<and> stored d p (w_evid w)"

lemma inv_ev_None: "inv_ev stored d w \<Longrightarrow> inv_ev stored None w"
  by (simp add: inv_ev_def)

lemma inv_ev_set_path:
  assumes "inv_ev stored None w" "drill_here d w" "p \<noteq> []" "stored d p (w_evid w)"
    and f: "\<And>x. d_ID (f x) = d_ID x" "\<And>x. d_EvidencePath (f x) = Some p"
  shows "inv_ev stored (Some d) (w\<lparr>w_db := upd_drill d (\<lambda>_. True) f (w_db w), w_fresh := k\<rparr>)"
proof -
  let ?w = "w\<lparr>w_db := upd_drill d (\<lambda>_. True) f (w_db w), w_fresh := k\<rparr>"
  have drills: "db_drills (upd_drill d (\<lambda>_. True) f (w_db w)) =
      sql_update (\<lambda>dr. d_ID dr = d) f (db_drills (w_db w))"
    by (simp add: upd_drill_def)
  obtain dr where dr: "dr \<in> set (db_drills (w_db w))" "d_ID dr = d"
    using assms(2) by (auto simp: drill_here_def drill_exists_def)
  then have "f dr \<in> set (db_drills (w_db ?w))" by (simp add: drills set_sql_update)
  then have new: "has_evidence stored ?w d"
    using assms dr(2) by (auto simp: has_evidence_def intro!: bexI [of _ "f dr"])
  have old: "has_evidence stored ?w x" if "has_evidence stored w x" for x
  proof (cases "x = d")
    case False
    with that show ?thesis by (fastforce simp: has_evidence_def drills set_sql_update)
  qed (simp add: new)
  have "map d_ID (db_drills (w_db ?w)) = map d_ID (db_drills (w_db w))"
    by (simp add: drills map_sql_update_key f)
  moreover have "d_Status x = StatusSucceeded \<Longrightarrow> has_evidence stored ?w (d_ID x)"
    if "x \<in> set (db_drills (w_db ?w))" for x
    using that assms(1) old new
    by (auto simp: drills set_sql_update f inv_ev_def evidence_inv_def split: if_splits)
  ultimately show ?thesis
    using assms(1) new old by (simp add: inv_ev_def evidence_inv_def)
qed

subsection \<open>What the pipeline relies on of the evidence service\<close>

text \<open>
  The interface between the report worker and the evidence service: a path returned by
  \<open>Finalize\<close> is not empty and names stored evidence of that drill, and no later \<open>Finalize\<close>,
  failed or not, takes stored evidence away.
\<close>

locale evidence_service =
  fixes Finalize :: "gotime \<Rightarrow> uuid \<Rightarrow> uuid \<Rightarrow> bytes \<Rightarrow> ('e, string) proc"
    and stored :: "uuid \<Rightarrow> string \<Rightarrow> 'e \<Rightarrow> bool"
  assumes Finalize_stores: "Finalize now d acc pdf fs e = (Ret p, fs', e') \<Longrightarrow> p \<noteq> [] \<and> stored d p e'"
    and Finalize_keeps: "stored d p e \<Longrightarrow> stored d p (final (Finalize now x acc pdf fs e))"
begin

lemma inv_ev_Finalize:
  assumes "inv_ev stored d w"
  shows "inv_ev stored d (w\<lparr>w_evid := final (Finalize now x acc pdf fs (w_evid w))\<rparr>)"
proof -
  have "has_evidence stored (w\<lparr>w_evid := final (Finalize now x acc pdf fs (w_evid w))\<rparr>) y"
    if "has_evidence stored w y" for y
    using that by (auto simp: has_evidence_def intro: Finalize_keeps)
  with assms show ?thesis by (simp add: inv_ev_def evidence_inv_def)
qed

lemma triple_Finalize:
  assumes "dp_Finalize D = Finalize"
  shows "triple (\<lambda>w. inv_ev stored None w \<and> drill_here d w) (evidence_Finalize D d acc pdf)
    (ready stored d) (inv_ev stored None)"
  unfolding triple_def
proof (intro allI impI)
  fix fs and w :: "('a, 'e) world"
  assume w: "inv_ev stored None w \<and> drill_here d w"
  obtain r fs' e where F: "Finalize (w_now w) d acc pdf fs (w_evid w) = (r, fs', e)" by (cases rule: prod_cases3)
  have i: "inv_ev stored None (w\<lparr>w_evid := e\<rparr>)"
    using inv_ev_Finalize [of None w "w_now w" d acc pdf fs] w F by (simp add: final_def)
  have h: "drill_here d (w\<lparr>w_evid := e\<rparr>)" using w by (simp add: drill_here_def)
  have s: "p \<noteq> [] \<and> stored d p e" if "r = Ret p" for p using Finalize_stores F that by blast
  show "case evidence_Finalize D d acc pdf fs w of (Ret p, _, w') \<Rightarrow> ready stored d p w' | (_, _, w') \<Rightarrow> inv_ev stored None w'"
    using i h s by (cases r) (simp_all add: evidence_Finalize_def assms F ready_def)
qed

lemma MarkEvidence_has_evidence:
  "ready stored d p w \<Longrightarrow> inv_ev stored (Some d) (w\<lparr>w_db := snd (MarkEvidence d p (w_db w)), w_fresh := k\<rparr>)"
  by (simp add: MarkEvidence_def ready_def inv_ev_set_path [where p = p])

lemma report_step_done:
  assumes "inv_ev stored (Some d) w"
  shows "inv_ev stored (Some d) (w\<lparr>w_db := snd (MarkStepSucceeded now d StepReport (w_db w)), w_fresh := k\<rparr>)"
proof -
  let ?w = "w\<lparr>w_db := snd (MarkStepSucceeded now d StepReport (w_db w)), w_fresh := k\<rparr>"
  have rep: "rep_done (w_db w) x \<or> x = d" if "rep_done (w_db ?w) x" for x
    using that by (fastforce simp: rep_done_def MarkStepSucceeded_def upd_step_def set_sql_update split: if_splits)
  have he: "has_evidence stored ?w x = has_evidence stored w x" for x
    by (simp add: has_evidence_def MarkStepSucceeded_def)
  have "\<forall>x. rep_done (w_db ?w) x \<longrightarrow> has_evidence stored ?w x"
    unfolding he using rep assms unfolding inv_ev_def evidence_inv_def by blast
  moreover have "db_drills (w_db ?w) = db_drills (w_db w)" by (simp add: MarkStepSucceeded_def)
  ultimately show ?thesis
    using assms unfolding inv_ev_def evidence_inv_def he by simp
qed

lemma triple_ev:
  assumes "keeps (inv_ev stored x) p"
  shows "triple (inv_ev stored x) p (\<lambda>_. inv_ev stored x) (inv_ev stored None)"
    "triple (inv_ev stored x) p (\<lambda>_. inv_ev stored None) (inv_ev stored None)"
proof -
  show "triple (inv_ev stored x) p (\<lambda>_. inv_ev stored x) (inv_ev stored None)"
    using triple_keeps [OF assms] by (rule triple_weaken) (auto intro: inv_ev_None)
  show "triple (inv_ev stored x) p (\<lambda>_. inv_ev stored None) (inv_ev stored None)"
    using triple_keeps [OF assms] by (rule triple_weaken) (auto intro: inv_ev_None)
qed

lemma triple_store_evidence:
  assumes q: "keeps (inv_ev stored (Some d)) q"
  shows "triple (ready stored d p)
    (thenM (db_write D (\<lambda>_ _. MarkEvidence d p))
      (thenM (db_write D (\<lambda>now _. MarkStepSucceeded now d StepReport)) q))
    (\<lambda>_. inv_ev stored None) (inv_ev stored None)"
proof (intro triple_thenM)
  show "triple (ready stored d p) (db_write D (\<lambda>_ _. MarkEvidence d p)) (\<lambda>_. inv_ev stored (Some d))
      (inv_ev stored None)"
    by (rule triple_db_write)
      (auto intro: MarkEvidence_has_evidence inv_ev_None [OF MarkEvidence_has_evidence] simp: ready_def)
  show "triple (inv_ev stored (Some d)) (db_write D (\<lambda>now _. MarkStepSucceeded now d StepReport))
      (\<lambda>_. inv_ev stored (Some d)) (inv_ev stored None)"
    by (rule triple_db_write) (auto intro: report_step_done inv_ev_None [OF report_step_done] inv_ev_None)
  show "triple (inv_ev stored (Some d)) q (\<lambda>_. inv_ev stored None) (inv_ev stored None)"
    by (rule triple_ev [OF q])
qed

lemma triple_lookup_here:
  "triple (inv_ev stored None) (lookupDrillAndTarget D d)
     (\<lambda>_ w. inv_ev stored None w \<and> drill_here d w) (inv_ev stored None)"
  unfolding lookupDrillAndTarget_def
  by (rule triple_bindM [where R = "\<lambda>_ w. inv_ev stored None w \<and> drill_here d w"],
      auto intro!: triple_db_read triple_bindM [where R = "\<lambda>_ w. inv_ev stored None w \<and> drill_here d w"] triple_ret
        simp: GetDrillByID_def drill_here_def drill_exists_def split: option.splits dest!: sql_first_Some)

lemma triple_alreadyDone_report:
  "triple (inv_ev stored None) (alreadyDone D d StepReport)
     (\<lambda>finished. inv_ev stored (if finished then Some d else None)) (inv_ev stored None)"
  unfolding alreadyDone_def
proof (rule triple_bindM)
  show "triple (inv_ev stored None) (db_read D (GetStep d StepReport))
      (\<lambda>step. inv_ev stored (if s_Status step = StatusSucceeded then Some d else None)) (inv_ev stored None)"
    by (rule triple_db_read)
      (auto simp: GetStep_def inv_ev_def evidence_inv_def rep_done_def split: option.splits dest!: sql_first_Some)
qed (auto intro: triple_ret)

lemma here_read: "triple (\<lambda>w. inv_ev stored None w \<and> drill_here d w) (db_read D f)
    (\<lambda>_ w. inv_ev stored None w \<and> drill_here d w) (inv_ev stored None)"
  by (rule triple_db_read) auto

lemma here_try: "triple (\<lambda>w. inv_ev stored None w \<and> drill_here d w) (tryM (db_read D f))
    (\<lambda>_ w. inv_ev stored None w \<and> drill_here d w) (inv_ev stored None)"
proof -
  have "triple (\<lambda>w. inv_ev stored None w \<and> drill_here d w) (db_read D f)
      (\<lambda>_ w. inv_ev stored None w \<and> drill_here d w) (\<lambda>w. inv_ev stored None w \<and> drill_here d w)"
    by (rule triple_db_read) auto
  then show ?thesis
    by (rule triple_weaken [OF triple_tryM]) (auto split: sum.splits)
qed

lemma triple_finalize_store:
  assumes "dp_Finalize D = Finalize" and "keeps (inv_ev stored (Some d)) q"
    and fail: "\<And>e. keeps (inv_ev stored None) (fail e)"
  shows "triple (\<lambda>w. inv_ev stored None w \<and> drill_here d w)
    (bindM (tryM (evidence_Finalize D d acc pdf)) (\<lambda>r. case r of Inl e \<Rightarrow> fail e | Inr path \<Rightarrow>
       thenM (db_write D (\<lambda>_ _. MarkEvidence d path))
         (thenM (db_write D (\<lambda>now _. MarkStepSucceeded now d StepReport)) q)))
    (\<lambda>_. inv_ev stored None) (inv_ev stored None)"
proof (rule triple_bindM [OF triple_tryM [OF triple_Finalize [OF assms(1)]]])
  fix r :: "string + string"
  show "triple (\<lambda>w. case r of Inl _ \<Rightarrow> inv_ev stored None w | Inr p \<Rightarrow> ready stored d p w)
    (case r of Inl e \<Rightarrow> fail e | Inr path \<Rightarrow>
       thenM (db_write D (\<lambda>_ _. MarkEvidence d path))
         (thenM (db_write D (\<lambda>now _. MarkStepSucceeded now d StepReport)) q))
    (\<lambda>_. inv_ev stored None) (inv_ev stored None)"
    using triple_keeps [OF fail] triple_store_evidence [OF assms(2)] by (simp split: sum.split)
qed

lemma keeps_report_chain: "keeps (inv_ev stored (Some d)) (report_chain D dr ars d)"
  unfolding report_chain_def
  by (intro hoare keeps_ev_write keeps_ev_insert tame_worker_writes; simp)

lemma triple_report_store:
  assumes "dp_Finalize D = Finalize"
  shows "triple (\<lambda>w. inv_ev stored None w \<and> drill_here d w) (report_store D dr ars pdf d)
    (\<lambda>_. inv_ev stored None) (inv_ev stored None)"
  unfolding report_store_def
  by (rule triple_finalize_store [OF assms keeps_report_chain keeps_ev_failAndCleanup])

lemma keeps_ReportWorker:
  assumes "dp_Finalize D = Finalize"
  shows "keeps (inv_ev stored None) (ReportWorker_Work D d)"
  unfolding keeps_def ReportWorker_Work_def
proof (rule triple_bindM [OF triple_alreadyDone_report], goal_cases)
  case (1 finished)
  let ?N = "inv_ev stored None" and ?H = "\<lambda>w. inv_ev stored None w \<and> drill_here d w"
  have run: "triple ?N (db_write D (\<lambda>now _. MarkStepRunning now d StepReport)) (\<lambda>_. ?N) ?N"
    by (intro triple_keeps keeps_ev_write tame_worker_writes)
  have ins: "triple (inv_ev stored (Some d)) (Insert (TeardownArgs d [])) (\<lambda>_. ?N) ?N"
    by (intro triple_ev keeps_ev_insert) simp
  have fail: "triple ?H (failAndCleanup D d StepReport e) (\<lambda>_. ?N) ?N" for e
    by (rule triple_weaken [OF triple_keeps [OF keeps_ev_failAndCleanup]]) auto
  have now: "triple ?H (getM w_now) (\<lambda>_. ?H) ?N" by (rule triple_getM)
  show ?case
    using run ins
    by (auto split: sum.split intro!: triple_thenM [OF run] triple_bindM [OF triple_lookup_here]
        triple_bindM [OF here_read] triple_bindM [OF here_try] triple_bindM [OF now]
        fail triple_report_store [OF assms])
qed

lemma Succeeded_inv:
  assumes "inv_ev stored (Some d) w" and "GetDrillByID d (w_db w) = Inr dr2"
  shows "inv_ev stored None
    (w\<lparr>w_db := snd (MarkDrillSucceeded now d (coalesce (d_EvidencePath dr2) []) (w_db w)), w_fresh := k\<rparr>)"
proof -
  have dist: "distinct (map d_ID (db_drills (w_db w)))" using assms(1) by (simp add: inv_ev_def evidence_inv_def)
  obtain dr p where dr: "dr \<in> set (db_drills (w_db w))" "d_ID dr = d" "d_EvidencePath dr = Some p" "p \<noteq> []"
    "stored d p (w_evid w)" using assms(1) by (auto simp: inv_ev_def has_evidence_def)
  have "dr2 = dr"
    using sql_first_distinct [OF dist dr(1)] assms(2) dr(2) by (simp add: GetDrillByID_def split: option.splits)
  moreover have "drill_here d w" using dr by (auto simp: drill_here_def drill_exists_def)
  ultimately show ?thesis
    using dr inv_ev_None [OF assms(1)] by (simp add: MarkDrillSucceeded_def inv_ev_None [OF inv_ev_set_path [where p = p]])
qed

lemma keeps_teardown_verdict:
  "triple (inv_ev stored (if reason = [] then Some d else None)) (teardown_verdict D dr d reason)
     (\<lambda>_. inv_ev stored None) (inv_ev stored None)"
proof -
  have ev: "keeps (inv_ev stored x) (drill_failed_events D dr r)" for x r
    unfolding drill_failed_events_def by (intro hoare)
  have tail: "keeps (inv_ev stored x) (thenM (ignoreM (Record e)) (thenM (recordDrillMetric D st dr)
      (thenM (captureDrill D e1 dr) (thenM (dispatchWebhook D a e2 m) (notifyDrill D dr2 e3 r)))))" for x e st e1 a e2 m dr2 e3 r
    by (intro hoare)
  have ok: "triple (inv_ev stored (Some d)) (bindM (db_read D (GetDrillByID d)) (\<lambda>dr2.
      thenM (db_write D (\<lambda>now _. MarkDrillSucceeded now d (coalesce (d_EvidencePath dr2) [])))
        (thenM (ignoreM (Record e)) (thenM (recordDrillMetric D st dr)
      (thenM (captureDrill D e1 dr) (thenM (dispatchWebhook D a e2 m) (notifyDrill D dr2 e3 r)))))))
      (\<lambda>_. inv_ev stored None) (inv_ev stored None)" for e st e1 a e2 m e3 r
  proof (rule triple_bindM)
    show "triple (inv_ev stored (Some d)) (db_read D (GetDrillByID d))
        (\<lambda>dr2 w. inv_ev stored (Some d) w \<and> GetDrillByID d (w_db w) = Inr dr2) (inv_ev stored None)"
      by (rule triple_db_read) (auto intro: inv_ev_None)
    show "triple (\<lambda>w. inv_ev stored (Some d) w \<and> GetDrillByID d (w_db w) = Inr dr2)
       (thenM (db_write D (\<lambda>now _. MarkDrillSucceeded now d (coalesce (d_EvidencePath dr2) [])))
        (thenM (ignoreM (Record e)) (thenM (recordDrillMetric D st dr)
      (thenM (captureDrill D e1 dr) (thenM (dispatchWebhook D a e2 m) (notifyDrill D dr2 e3 r))))))
      (\<lambda>_. inv_ev stored None) (inv_ev stored None)" for dr2
      by (rule triple_thenM [OF triple_db_write triple_keeps [OF tail]]) (auto intro: Succeeded_inv inv_ev_None)
  qed
  have fail: "keeps (inv_ev stored None) (thenM (ignoreM (db_write D (\<lambda>now _. MarkDrillFailed now d reason)))
      (thenM (ignoreM (Record e)) (drill_failed_events D dr reason)))" for e
    by (intro hoare keeps_ev_write tame_worker_writes ev)
  show ?thesis
    unfolding teardown_verdict_def
    using triple_keeps [OF fail] ok triple_ev(2) [OF ev] by auto
qed

lemma keeps_teardown_sandbox: "keeps (inv_ev stored x) (teardown_sandbox D dr d)"
  unfolding teardown_sandbox_def by (intro hoare)

lemma triple_TeardownWorker:
  "triple (inv_ev stored (if reason = [] then Some d else None)) (TeardownWorker_Work D d reason)
     (\<lambda>_. inv_ev stored None) (inv_ev stored None)"
proof -
  let ?J = "inv_ev stored (if reason = [] then Some d else None)"
  show ?thesis
    unfolding TeardownWorker_Work_def
    by (intro triple_bindM [where R = "\<lambda>_. ?J"] triple_thenM [where R = ?J] keeps_teardown_verdict
        triple_ev(1) hoare keeps_teardown_sandbox keeps_ev_write tame_worker_writes) simp
qed

lemma evidence_inv_work:
  assumes D: "dp_Finalize D = Finalize" and inv: "evidence_inv stored w" and j: "j \<in> set (w_jobs w)"
  shows "evidence_inv stored (final (work D (j_Args j) fs w))"
proof -
  have "triple (inv_ev stored (case j_Args j of TeardownArgs d r \<Rightarrow> if r = [] then Some d else None | _ \<Rightarrow> None))
      (work D (j_Args j)) (\<lambda>_. inv_ev stored None) (inv_ev stored None)"
  proof (cases "j_Args j")
    case (TeardownArgs d r)
    then show ?thesis using triple_TeardownWorker [of r d D] by (simp add: work_def)
  qed (simp_all add: work_def triple_keeps keeps_ev_simple_workers keeps_ev_AssertWorker
      keeps_ReportWorker [OF D])
  moreover have "inv_ev stored (case j_Args j of TeardownArgs d r \<Rightarrow> if r = [] then Some d else None | _ \<Rightarrow> None) w"
    using inv j by (auto simp: inv_ev_def evidence_inv_def split: JobArgs.splits if_splits)
  ultimately have "inv_ev stored None (final (work D (j_Args j) fs w))"
    by (rule triple_final)
  then show ?thesis by (simp add: inv_ev_def)
qed

lemma evidence_inv_step:
  assumes "dp_Finalize D = Finalize" and "system_step D U w w'" and "evidence_inv stored w"
  shows "evidence_inv stored w'"
  using assms(2,3)
proof (induction rule: system_step.induct)
  case (work_job j w fs)
  then show ?case using evidence_inv_work [OF assms(1)] by blast
next
  case (drop_job w j)
  then show ?case by (auto simp: evidence_inv_def dest: notin_set_remove1 [rotated])
next
  case (enqueue w audited drillID priority fs)
  then have "inv_ev stored None (final (EnqueueDrill D audited drillID priority fs w))"
    using keepsD [OF keeps_ev_EnqueueDrill, of stored None w] by (simp add: inv_ev_def)
  then show ?case by (simp add: inv_ev_def)
next
  case (user w db)
  then show ?case using tame_inv [OF tame_user, of U w db stored "w_fresh w"] by simp
qed simp

lemma evidence_inv_reachable:
  assumes "dp_Finalize D = Finalize" and "initial w0" and "(system_step D U)\<^sup>*\<^sup>* w0 w"
  shows "evidence_inv stored w"
  using assms(3)
proof (induction rule: rtranclp_induct)
  case base
  then show ?case using assms(2) by (simp add: initial_def evidence_inv_def rep_done_def)
next
  case (step y z)
  then show ?case using evidence_inv_step [OF assms(1)] by blast
qed

lemma succeeded_has_evidence:
  assumes "dp_Finalize D = Finalize" and "initial w0" and "(system_step D U)\<^sup>*\<^sup>* w0 w"
    and dr: "dr \<in> set (db_drills (w_db w))" "d_Status dr = StatusSucceeded"
  shows "\<exists>p. d_EvidencePath dr = Some p \<and> p \<noteq> [] \<and> stored (d_ID dr) p (w_evid w)"
proof -
  have inv: "evidence_inv stored w" using evidence_inv_reachable assms(1-3) .
  then obtain x p where x: "x \<in> set (db_drills (w_db w))" "d_ID x = d_ID dr" "d_EvidencePath x = Some p"
    "p \<noteq> []" "stored (d_ID dr) p (w_evid w)"
    using dr by (force simp: evidence_inv_def has_evidence_def)
  with dr inv have "x = dr" by (auto simp: evidence_inv_def distinct_map inj_on_def)
  with x show ?thesis by blast
qed

end

section \<open>A failed drill stays failed\<close>

definition failed_here :: "uuid \<Rightarrow> ('r, 'e) world \<Rightarrow> bool" where
  "failed_here d w \<longleftrightarrow> distinct (map d_ID (db_drills (w_db w))) \<and>
     (\<exists>dr \<in> set (db_drills (w_db w)). d_ID dr = d \<and> d_Status dr = StatusFailed)"

definition fail_keeping :: "uuid \<Rightarrow> drill_db \<Rightarrow> drill_db \<Rightarrow> bool" where
  "fail_keeping d db db' \<longleftrightarrow>
     (distinct (map d_ID (db_drills db)) \<longrightarrow> distinct (map d_ID (db_drills db'))) \<and>
     (\<forall>dr \<in> set (db_drills db). d_ID dr = d \<and> d_Status dr = StatusFailed \<longrightarrow>
        (\<exists>dr' \<in> set (db_drills db'). d_ID dr' = d \<and> d_Status dr' = StatusFailed))"

lemma fail_keeping_upd_drill:
  assumes "\<And>x. d_ID (f x) = d_ID x"
    and "d \<noteq> y \<or> (\<forall>x. d_Status x = StatusFailed \<and> G x \<longrightarrow> d_Status (f x) = StatusFailed)"
  shows "fail_keeping d db (upd_drill y G f db)"
proof -
  have "map d_ID (db_drills (upd_drill y G f db)) = map d_ID (db_drills db)"
    unfolding upd_drill_def by (simp add: map_sql_update_key assms(1))
  moreover have "\<exists>dr' \<in> set (db_drills (upd_drill y G f db)). d_ID dr' = d \<and> d_Status dr' = StatusFailed"
    if "dr \<in> set (db_drills db)" "d_ID dr = d" "d_Status dr = StatusFailed" for dr
    using that assms
    by (intro bexI [of _ "if d_ID dr = y \<and> G dr then f dr else dr"]) (auto simp: upd_drill_def set_sql_update)
  ultimately show ?thesis by (simp add: fail_keeping_def)
qed

lemma fail_keeping_same: "db_drills db' = db_drills db \<Longrightarrow> fail_keeping d db db'"
  by (auto simp: fail_keeping_def)

lemma fail_keeping_writes:
  "fail_keeping d db (snd (MarkDrillRunning now y db))" "fail_keeping d db (snd (MarkDrillFailed now y reason db))"
  "fail_keeping d db (snd (SetSandboxDB y name db))" "fail_keeping d db (snd (SetSourceHash y name db))"
  "fail_keeping d db (snd (MarkEvidence y name db))"
  "y \<noteq> d \<Longrightarrow> fail_keeping d db (snd (MarkDrillSucceeded now y name db))"
  by (auto simp: drill_updates intro: fail_keeping_same intro!: fail_keeping_upd_drill)

lemma fail_keeping_rest:
  "fail_keeping d db (snd (MarkStepRunning now y n db))" "fail_keeping d db (snd (MarkStepSkipped now y n db))"
  "fail_keeping d db (snd (MarkStepSucceeded now y n db))" "fail_keeping d db (snd (MarkStepFailed now y n r db))"
  "fail_keeping d db (snd (SetStepOutput sha y n out db))" "fail_keeping d db (snd (ClearAssertionResults y db))"
  "fail_keeping d db (snd (RecordAssertion newid now ar db))"
  "fail_keeping d db (snd (CreateStepIfMissing newid y n i k db))"
  by (rule fail_keeping_same, simp add: step_updates ClearAssertionResults_def RecordAssertion_def
      CreateStepIfMissing_def Let_def split: option.split)+

lemma fail_keeping_user: "user_step U db db' \<Longrightarrow> fail_keeping d db db'"
proof (induction rule: user_step.induct)
  case (5 newid db now acc user tid key)
  then show ?case
    by (auto simp: CreateDrillIdempotent_def Let_def fail_keeping_def drill_exists_def split: option.split)
qed (auto intro!: fail_keeping_same simp: CreateTarget_def SetTargetTeam_def SetTargetSchedule_def
    AdvanceTargetSchedule_def CreateAssertion_def DeleteAssertion_def Let_def)

lemma failed_here_frame [simp]:
  "failed_here d (w\<lparr>w_infra := i\<rparr>) = failed_here d w" "failed_here d (w\<lparr>w_audit := a\<rparr>) = failed_here d w"
  "failed_here d (w\<lparr>w_out := out\<rparr>) = failed_here d w" "failed_here d (w\<lparr>w_jobs := js\<rparr>) = failed_here d w"
  "failed_here d (w\<lparr>w_evid := e\<rparr>) = failed_here d w" "failed_here d (w\<lparr>w_now := t\<rparr>) = failed_here d w"
  by (simp_all add: failed_here_def)

lemma failed_here_db: "fail_keeping d (w_db w) db' \<Longrightarrow> failed_here d w \<Longrightarrow> failed_here d (w\<lparr>w_db := db', w_fresh := k\<rparr>)"
  by (auto simp: failed_here_def fail_keeping_def)

lemma keeps_failed_write:
  "(\<And>db now newid. fail_keeping d db (snd (f now newid db))) \<Longrightarrow> keeps (failed_here d) (db_write D f)"
  by (rule keeps_db_write) (simp add: failed_here_db)

lemma keeps_failed_calls:
  "keeps (failed_here d) (emit e)" "keeps (failed_here d) (Record ev)" "keeps (failed_here d) (insert_job a p)"
  "keeps (failed_here d) (runner_Provision D x)" "keeps (failed_here d) (runner_Teardown D sb)"
  "keeps (failed_here d) (runner_Fetch D s q)" "keeps (failed_here d) (runner_Restore D s q)"
  unfolding emit_def Record_def insert_job_def runner_Provision_def runner_Teardown_def runner_Fetch_def
    runner_Restore_def
  by (rule keeps_call, simp split: prod.split sum.split)+

lemma keeps_failed_Finalize: "keeps (failed_here d) (evidence_Finalize D x acc pdf)"
  by (auto simp: keeps_def triple_def evidence_Finalize_def split: prod.split outcome.split)

lemma keeps_failed_helpers:
  "keeps (failed_here d) (sandbox D x)" "keeps (failed_here d) (alreadyDone D x n)"
  "keeps (failed_here d) (lookupDrillAndTarget D x)" "keeps (failed_here d) (reportUsage D dr)"
  "keeps (failed_here d) (notifyDrill D dr ev rs)" "keeps (failed_here d) (dispatchWebhook D acc ev dt)"
  "keeps (failed_here d) (captureDrill D ev dr)" "keeps (failed_here d) (recordDrillMetric D st dr)"
  unfolding sandbox_def alreadyDone_def lookupDrillAndTarget_def reportUsage_def notifyDrill_def
    dispatchWebhook_def captureDrill_def recordDrillMetric_def
  by (intro hoare keeps_failed_calls keeps_modM; simp)+

lemma keeps_failed_failAndCleanup: "keeps (failed_here d) (failAndCleanup D x n reason)"
  unfolding failAndCleanup_def
  by (intro hoare keeps_failed_calls keeps_failed_write fail_keeping_rest)

lemmas keeps_failed = keeps_failed_calls keeps_failed_Finalize keeps_failed_helpers keeps_failed_failAndCleanup
  keeps_failed_write fail_keeping_writes fail_keeping_rest

lemma keeps_failed_workers:
  "keeps (failed_here d) (ProvisionWorker_Work D x)" "keeps (failed_here d) (FetchWorker_Work D x)"
  "keeps (failed_here d) (RestoreWorker_Work D x path)" "keeps (failed_here d) (AssertWorker_Work D x)"
  "keeps (failed_here d) (ReportWorker_Work D x)" "keeps (failed_here d) (EnqueueDrill D audited x priority)"
  unfolding ProvisionWorker_Work_def ProvisionWorker_chain_def FetchWorker_Work_def chainAlreadyFetched_def
    RestoreWorker_Work_def AssertWorker_Work_def runAssertions_def run_assertion_def ReportWorker_Work_def
    report_store_def report_chain_def EnqueueDrill_def
  by (intro hoare keeps_failed)+

lemma keeps_failed_verdict:
  assumes "x = d \<Longrightarrow> d_Status dr = StatusFailed"
  shows "keeps (failed_here d) (teardown_verdict D dr x reason)"
proof (cases "x = d")
  case True
  with assms show ?thesis
    unfolding teardown_verdict_def drill_failed_events_def by (simp, intro hoare keeps_failed conjI impI)
next
  case False
  then show ?thesis
    unfolding teardown_verdict_def drill_failed_events_def by (intro hoare keeps_failed)
qed

lemma keeps_failed_Teardown: "keeps (failed_here d) (TeardownWorker_Work D x reason)"
  unfolding keeps_def TeardownWorker_Work_def
proof (rule triple_bindM)
  show "triple (failed_here d) (db_read D (GetDrillByID x))
      (\<lambda>dr w. failed_here d w \<and> (x = d \<longrightarrow> d_Status dr = StatusFailed)) (failed_here d)"
  proof (rule triple_db_read)
    fix w :: "('a, 'b) world" and dr
    assume w: "failed_here d w" and g: "GetDrillByID x (w_db w) = Inr dr"
    from w obtain r where r: "r \<in> set (db_drills (w_db w))" "d_ID r = d" "d_Status r = StatusFailed"
      and dist: "distinct (map d_ID (db_drills (w_db w)))" by (auto simp: failed_here_def)
    have "dr = r" if "x = d"
      using sql_first_distinct [OF dist r(1)] r(2) g that by (simp add: GetDrillByID_def split: option.splits)
    with r w show "failed_here d w \<and> (x = d \<longrightarrow> d_Status dr = StatusFailed)" by blast
  qed simp
qed (intro triple_guard triple_keeps hoare keeps_failed keeps_failed_verdict; simp add: teardown_sandbox_def;
    intro hoare keeps_failed)

lemma failed_step:
  assumes "system_step D U w w'" and "failed_here d w"
  shows "failed_here d w'"
  using assms
proof (induction rule: system_step.induct)
  case (work_job j w fs)
  have "keeps (failed_here d) (work D (j_Args j))"
    by (cases "j_Args j") (simp_all add: work_def keeps_failed_workers keeps_failed_Teardown)
  then show ?case using work_job.prems by (rule keepsD)
next
  case (enqueue w audited drillID priority fs)
  show ?case using keeps_failed_workers(6) enqueue.prems by (rule keepsD)
next
  case (user w db)
  then show ?case using failed_here_db [OF fail_keeping_user, of U w db d "w_fresh w"] by simp
qed simp_all

end
