(* ===== verification/Drill_Run.thy ===== *)
theory Drill_Run
  imports Drill_Steps
begin

text \<open>
  The pipeline run without faults, one job delivery after the other: what every worker does to
  the drill's row, its steps, its results, the queue, the infrastructure and the evidence, and
  from that the end-to-end behaviour of a drill. A delivery works the first queued job; River
  removes the job when the worker returns without an error and keeps it otherwise.
\<close>

section \<open>Runs without faults\<close>

text \<open>What the pipeline reads of a drill: its row, the status of each of its steps, its results.\<close>

definition step_status :: "uuid \<Rightarrow> StepName \<Rightarrow> drill_db \<Rightarrow> Status option" where
  "step_status d n db = (case GetStep d n db of Inl _ \<Rightarrow> None | Inr s \<Rightarrow> Some (s_Status s))"

definition results_of :: "uuid \<Rightarrow> drill_db \<Rightarrow> bool list" where
  "results_of d db = map ar_Passed (filter (\<lambda>r. ar_DrillID r = d) (db_results db))"

named_theorems views \<open>what each write does to what the pipeline reads\<close>

lemma GetDrillByID_upd_drill:
  assumes "\<And>x. d_ID (f x) = d_ID x"
  shows "GetDrillByID d (upd_drill d G f db) =
    (case GetDrillByID d db of Inl e \<Rightarrow> Inl e | Inr x \<Rightarrow> Inr (if G x then f x else x))"
proof -
  have "sql_first (\<lambda>r. d_ID r = d) (sql_update (\<lambda>x. d_ID x = d \<and> G x) f (db_drills db)) =
      map_option (\<lambda>x. if d_ID x = d \<and> G x then f x else x) (sql_first (\<lambda>r. d_ID r = d) (db_drills db))"
    by (rule sql_first_update) (simp add: assms)
  then show ?thesis
    by (cases "sql_first (\<lambda>r. d_ID r = d) (db_drills db)")
      (auto simp: GetDrillByID_def upd_drill_def dest: sql_first_Some)
qed

lemma GetStep_upd_step:
  assumes "\<And>x. s_DrillID (f x) = s_DrillID x" "\<And>x. s_Name (f x) = s_Name x"
  shows "GetStep d n (upd_step d m G f db) =
    (if n = m then (case GetStep d n db of Inl e \<Rightarrow> Inl e | Inr x \<Rightarrow> Inr (if G x then f x else x)) else GetStep d n db)"
proof -
  let ?k = "\<lambda>s. (s_DrillID s, s_Name s)"
  have "sql_first (\<lambda>s. ?k s = (d, n)) (sql_update (\<lambda>s. s_DrillID s = d \<and> s_Name s = m \<and> G s) f (db_steps db)) =
      map_option (\<lambda>s. if s_DrillID s = d \<and> s_Name s = m \<and> G s then f s else s) (sql_first (\<lambda>s. ?k s = (d, n)) (db_steps db))"
    by (rule sql_first_update) (simp add: assms)
  note upd = this
  show ?thesis
  proof (cases "sql_first (\<lambda>s. ?k s = (d, n)) (db_steps db)")
    case (Some a)
    then have "s_DrillID a = d" "s_Name a = n" by (auto dest!: sql_first_Some)
    with Some upd show ?thesis by (cases "n = m") (simp_all add: GetStep_def upd_step_def)
  next
    case None
    with upd show ?thesis by (cases "n = m") (simp_all add: GetStep_def upd_step_def)
  qed
qed

lemma GetDrillByID_frame [views]:
  "GetDrillByID d (upd_step x n G f db) = GetDrillByID d db"
  "GetDrillByID d (db\<lparr>db_results := rs\<rparr>) = GetDrillByID d db"
  "GetStep d n (upd_drill x G' f' db) = GetStep d n db" "GetStep d n (db\<lparr>db_results := rs\<rparr>) = GetStep d n db"
  by (simp_all add: GetDrillByID_def GetStep_def)

lemma drill_views [views]:
  "GetDrillByID d (snd (MarkDrillRunning now d db)) = (case GetDrillByID d db of Inl e \<Rightarrow> Inl e | Inr x \<Rightarrow>
     Inr (if d_Status x = StatusPending \<or> d_Status x = StatusRunning
       then x\<lparr>d_Status := StatusRunning, d_StartedAt := Some (coalesce (d_StartedAt x) now)\<rparr> else x))"
  "GetDrillByID d (snd (SetSandboxDB d s db)) = (case GetDrillByID d db of Inl e \<Rightarrow> Inl e | Inr x \<Rightarrow> Inr (x\<lparr>d_SandboxDB := Some s\<rparr>))"
  "GetDrillByID d (snd (SetSourceHash d s db)) = (case GetDrillByID d db of Inl e \<Rightarrow> Inl e | Inr x \<Rightarrow> Inr (x\<lparr>d_SourceHash := Some s\<rparr>))"
  "GetDrillByID d (snd (MarkEvidence d s db)) = (case GetDrillByID d db of Inl e \<Rightarrow> Inl e | Inr x \<Rightarrow> Inr (x\<lparr>d_EvidencePath := Some s\<rparr>))"
  "GetDrillByID d (snd (MarkDrillSucceeded now d s db)) = (case GetDrillByID d db of Inl e \<Rightarrow> Inl e | Inr x \<Rightarrow>
     Inr (x\<lparr>d_Status := StatusSucceeded, d_CompletedAt := Some now, d_EvidencePath := Some s, d_Error := None\<rparr>))"
  "pg_text_ok s \<Longrightarrow> GetDrillByID d (snd (MarkDrillFailed now d s db)) = (case GetDrillByID d db of Inl e \<Rightarrow> Inl e | Inr x \<Rightarrow>
     Inr (x\<lparr>d_Status := StatusFailed, d_CompletedAt := Some (coalesce (d_CompletedAt x) now), d_Error := Some s\<rparr>))"
  by (simp_all add: drill_updates GetDrillByID_upd_drill split: sum.split)

lemma step_views [views]:
  "step_status d n (snd (MarkStepRunning now d m db)) = (if n = m then
     map_option (\<lambda>s. if s = StatusPending \<or> s = StatusRunning \<or> s = StatusFailed then StatusRunning else s) (step_status d n db)
     else step_status d n db)"
  "step_status d n (snd (MarkStepSucceeded now d m db)) = (if n = m then
     map_option (\<lambda>s. if s \<noteq> StatusSkipped then StatusSucceeded else s) (step_status d n db) else step_status d n db)"
  "step_status d n (snd (SetStepOutput sha d m out db)) = step_status d n db"
  by (auto simp: step_status_def step_updates GetStep_upd_step Let_def split: sum.split)

lemma frame_views [views]:
  "step_status d n (snd (MarkDrillRunning now x db)) = step_status d n db"
  "step_status d n (snd (SetSandboxDB x s db)) = step_status d n db"
  "step_status d n (snd (SetSourceHash x s db)) = step_status d n db"
  "step_status d n (snd (MarkEvidence x s db)) = step_status d n db"
  "step_status d n (snd (MarkDrillSucceeded now x s db)) = step_status d n db"
  "step_status d n (snd (MarkDrillFailed now x s db)) = step_status d n db"
  "step_status d n (snd (ClearAssertionResults x db)) = step_status d n db"
  "step_status d n (snd (RecordAssertion nid now ar db)) = step_status d n db"
  "GetDrillByID d (snd (MarkStepRunning now x m db)) = GetDrillByID d db"
  "GetDrillByID d (snd (MarkStepSucceeded now x m db)) = GetDrillByID d db"
  "GetDrillByID d (snd (SetStepOutput sha x m out db)) = GetDrillByID d db"
  "GetDrillByID d (snd (ClearAssertionResults x db)) = GetDrillByID d db"
  "GetDrillByID d (snd (RecordAssertion nid now ar db)) = GetDrillByID d db"
  by (auto simp: step_status_def step_updates drill_updates views ClearAssertionResults_def RecordAssertion_def Let_def)

definition rest_of :: "drill_db \<Rightarrow> target_row list \<times> Assertion list" where
  "rest_of db = (db_targets db, db_assertions db)"

lemma rest_of_views [views]:
  "rest_of (snd (MarkDrillRunning now x db)) = rest_of db" "rest_of (snd (SetSandboxDB x s db)) = rest_of db"
  "rest_of (snd (SetSourceHash x s db)) = rest_of db" "rest_of (snd (MarkEvidence x s db)) = rest_of db"
  "rest_of (snd (MarkDrillSucceeded now x s db)) = rest_of db" "rest_of (snd (MarkDrillFailed now x s db)) = rest_of db"
  "rest_of (snd (MarkStepRunning now x m db)) = rest_of db" "rest_of (snd (MarkStepSucceeded now x m db)) = rest_of db"
  "rest_of (snd (SetStepOutput sha x m out db)) = rest_of db" "rest_of (snd (ClearAssertionResults x db)) = rest_of db"
  "rest_of (snd (RecordAssertion nid now ar db)) = rest_of db"
  by (simp_all add: rest_of_def step_updates drill_updates upd_drill_def upd_step_def ClearAssertionResults_def
      RecordAssertion_def Let_def)

lemma results_views [views]:
  "results_of d (snd (MarkDrillRunning now x db)) = results_of d db" "results_of d (snd (SetSandboxDB x s db)) = results_of d db"
  "results_of d (snd (SetSourceHash x s db)) = results_of d db" "results_of d (snd (MarkEvidence x s db)) = results_of d db"
  "results_of d (snd (MarkDrillSucceeded now x s db)) = results_of d db" "results_of d (snd (MarkDrillFailed now x s db)) = results_of d db"
  "results_of d (snd (MarkStepRunning now x m db)) = results_of d db" "results_of d (snd (MarkStepSucceeded now x m db)) = results_of d db"
  "results_of d (snd (SetStepOutput sha x m out db)) = results_of d db"
  "results_of d (snd (ClearAssertionResults d db)) = []"
  by (simp_all add: results_of_def step_updates drill_updates ClearAssertionResults_def sql_delete_def Let_def)

text \<open>Writes that are always answered without an error.\<close>

lemma write_answers [views]:
  "fst (MarkDrillRunning now x db) = Inr ()" "fst (SetSandboxDB x s db) = Inr ()" "fst (SetSourceHash x s db) = Inr ()"
  "fst (MarkEvidence x s db) = Inr ()" "fst (MarkDrillSucceeded now x s db) = Inr ()"
  "fst (MarkStepRunning now x m db) = Inr ()" "fst (MarkStepSucceeded now x m db) = Inr ()"
  "fst (ClearAssertionResults x db) = Inr ()"
  by (simp_all add: step_updates drill_updates ClearAssertionResults_def)

lemma db_write_ok:
  "fst (f (w_now w) (w_fresh w) (w_db w)) = Inr a \<Longrightarrow>
     db_write D f [] w = (Ret a, [], w\<lparr>w_db := snd (f (w_now w) (w_fresh w) (w_db w)), w_fresh := w_fresh w + 1\<rparr>)"
  by (cases "f (w_now w) (w_fresh w) (w_db w)") (simp add: db_write_def call_ok dbErr_def)

lemma db_write_any:
  "ignoreM (db_write D f) [] w =
     (Ret (), [], w\<lparr>w_db := snd (f (w_now w) (w_fresh w) (w_db w)), w_fresh := w_fresh w + 1\<rparr>)"
  by (auto simp: ignoreM_def tryM_def bindM_def db_write_def call_ok dbErr_def ret_def split: prod.split sum.split)

lemma db_read_ok: "f (w_db w) = Inr a \<Longrightarrow> db_read D f [] w = (Ret a, [], w)"
  by (simp add: db_read_def call_ok dbErr_def)

lemma insert_job_ok:
  "store_args a = Inr a' \<Longrightarrow> insert_job a p [] w = (Ret (), [], w\<lparr>w_jobs := w_jobs w @ [\<lparr>j_Args = a', j_Priority = p\<rparr>]\<rparr>)"
  by (simp add: insert_job_def call_ok)

lemma alreadyDone_ok:
  "step_status d n (w_db w) = Some s \<Longrightarrow> alreadyDone D d n [] w = (Ret (s = StatusSucceeded), [], w)"
  by (auto simp: step_status_def alreadyDone_def bindM_def db_read_def call_ok dbErr_def ret_def split: sum.splits)

lemmas run = bindM_def thenM_def tryM_def ret_def db_write_ok db_read_ok db_write_any insert_job_ok alreadyDone_ok


lemma run_reads [views]:
  "GetTargetByID t (snd (MarkStepRunning now x m db)) = GetTargetByID t db"
  "ListTargetAssertions t (snd (MarkStepRunning now x m db)) = ListTargetAssertions t db"
  "CreatorEmail u (snd (MarkStepRunning now x m db)) = CreatorEmail u db"
  by (simp_all add: GetTargetByID_def ListTargetAssertions_def CreatorEmail_def step_updates upd_step_def)

definition deliver :: "('r, 'e) Deps \<Rightarrow> fault list \<Rightarrow> ('r, 'e) world \<Rightarrow> ('r, 'e) world" where
  "deliver D fs w =
     (case w_jobs w of
        [] \<Rightarrow> w
      | j # _ \<Rightarrow>
          (case work D (j_Args j) fs w of
             (Ret _, _, w') \<Rightarrow> w'\<lparr>w_jobs := remove1 j (w_jobs w')\<rparr>
           | (_, _, w') \<Rightarrow> w'))"

definition stage ::
    "uuid \<Rightarrow> Drill \<Rightarrow> StepName set \<Rightarrow> bool list \<Rightarrow> JobArgs list \<Rightarrow> 'r \<Rightarrow> 'e \<Rightarrow> ('r, 'e) world \<Rightarrow> bool" where
  "stage d dr fin rs js i e w \<longleftrightarrow>
     GetDrillByID d (w_db w) = Inr dr \<and>
     (\<forall>n. step_status d n (w_db w) = Some (if n \<in> fin then StatusSucceeded else StatusPending)) \<and>
     results_of d (w_db w) = rs \<and> map j_Args (w_jobs w) = js \<and> w_infra w = i \<and> w_evid w = e"

definition settings :: "('r, 'e) world \<Rightarrow> (target_row list \<times> Assertion list) \<times> gotime" where
  "settings w = (rest_of (w_db w), w_now w)"

lemma deliver_one:
  assumes "map j_Args (w_jobs w) = [a]" and "work D a [] w = (Ret (), [], w')" and "w_jobs w' = w_jobs w @ js"
  shows "deliver D [] w = w'\<lparr>w_jobs := js\<rparr>"
  using assms by (auto simp: deliver_def)

lemma sandbox_ok:
  "GetDrillByID d (w_db w) = Inr dr \<Longrightarrow> d_SandboxDB dr = Some name \<Longrightarrow> name \<noteq> [] \<Longrightarrow>
     rn_Rehydrate (dp_Runner D) d name = Inr sb \<Longrightarrow> sandbox D d [] w = (Ret sb, [], w)"
  by (simp add: sandbox_def bindM_def db_read_ok ret_def)

lemma lookup_ok:
  "GetDrillByID d (w_db w) = Inr dr \<Longrightarrow> GetTargetByID (d_TargetID dr) (w_db w) = Inr t \<Longrightarrow>
     lookupDrillAndTarget D d [] w = (Ret (dr, t), [], w)"
  by (simp add: lookupDrillAndTarget_def bindM_def db_read_ok ret_def)

lemma stage_advance:
  assumes "stage d dr fin rs [a] i e w"
    and "\<exists>w'. work D a [] w = (Ret (), [], w') \<and> w_jobs w' = w_jobs w @ js \<and>
      stage d dr' fin' rs' (map j_Args (w_jobs w')) i' e' w' \<and> settings w' = settings w"
    and "map j_Args js = as"
  shows "stage d dr' fin' rs' as i' e' (deliver D [] w) \<and> settings (deliver D [] w) = settings w"
proof -
  obtain w' where w': "work D a [] w = (Ret (), [], w')" "w_jobs w' = w_jobs w @ js"
    "stage d dr' fin' rs' (map j_Args (w_jobs w')) i' e' w'" "settings w' = settings w"
    using assms(2) by blast
  have "deliver D [] w = w'\<lparr>w_jobs := js\<rparr>"
    using deliver_one [OF _ w'(1,2)] assms(1) by (simp add: stage_def)
  then show ?thesis using w' assms(3) by (simp add: stage_def settings_def)
qed

lemma provision_run:
  assumes "stage d dr fin rs [ProvisionArgs d] i e w" "d_Status dr = StatusPending" "StepProvision \<notin> fin"
    and "rn_Provision (dp_Runner D) d i = (Inr sb, i')"
  shows "stage d (dr\<lparr>d_Status := StatusRunning, d_StartedAt := Some (coalesce (d_StartedAt dr) (w_now w)),
      d_SandboxDB := Some (sb_Name sb)\<rparr>) (insert StepProvision fin) rs [FetchArgs d] i' e (deliver D [] w) \<and>
    settings (deliver D [] w) = settings w"
  by (rule stage_advance [OF assms(1), where js = "[\<lparr>j_Args = FetchArgs d, j_Priority = 0\<rparr>]"])
    (use assms [unfolded stage_def] in \<open>simp_all add: work_def ProvisionWorker_Work_def ProvisionWorker_chain_def runner_Provision_def run call_ok views
      store_args_def stage_def settings_def\<close>)

lemma fetch_run:
  assumes "stage d dr fin rs [FetchArgs d] i e w" "StepFetch \<notin> fin"
    and "d_SandboxDB dr = Some name" "name \<noteq> []" "rn_Rehydrate (dp_Runner D) d name = Inr sb"
    and "GetTargetByID (d_TargetID dr) (w_db w) = Inr t"
    and "rn_Fetch (dp_Runner D) sb (t_SourceURI t) i = Inr (path, hash)"
    and "store_args (RestoreArgs d path) = Inr (RestoreArgs d path)"
  shows "stage d (dr\<lparr>d_SourceHash := Some hash\<rparr>) (insert StepFetch fin) rs [RestoreArgs d path] i e (deliver D [] w) \<and>
    settings (deliver D [] w) = settings w"
  by (rule stage_advance [OF assms(1), where js = "[\<lparr>j_Args = RestoreArgs d path, j_Priority = 0\<rparr>]"])
    (use assms [unfolded stage_def] in \<open>simp_all add: work_def FetchWorker_Work_def runner_Fetch_def run call_ok views sandbox_ok lookup_ok
      stage_def settings_def\<close>)

lemma restore_run:
  assumes "stage d dr fin rs [RestoreArgs d path] i e w" "StepRestore \<notin> fin"
    and "d_SandboxDB dr = Some name" "name \<noteq> []" "rn_Rehydrate (dp_Runner D) d name = Inr sb"
    and "rn_Restore (dp_Runner D) sb path i = ((out, None), i')"
  shows "stage d dr (insert StepRestore fin) rs [AssertArgs d] i' e (deliver D [] w) \<and>
    settings (deliver D [] w) = settings w"
  by (rule stage_advance [OF assms(1), where js = "[\<lparr>j_Args = AssertArgs d, j_Priority = 0\<rparr>]"])
    (use assms [unfolded stage_def] in \<open>simp_all add: work_def RestoreWorker_Work_def runner_Restore_def run call_ok views sandbox_ok
      stage_def settings_def store_args_def\<close>)

definition spec_outcome :: "Querier \<Rightarrow> Assertion \<Rightarrow> Outcome option" where
  "spec_outcome q spec =
     (case unmarshal_config (a_Config spec) of
        Inl _ \<Rightarrow> None
      | Inr cfg \<Rightarrow>
          (case Run q \<lparr>sp_Kind = a_Kind spec, sp_Config = cfg\<rparr> of
             Inl _ \<Rightarrow> None
           | Inr out \<Rightarrow> if assertion_kind_check (o_Kind out) then Some out else None))"

definition asserting :: "uuid \<Rightarrow> ('r, 'e) world \<Rightarrow> ('r, 'e) world \<Rightarrow> bool" where
  "asserting d w w' \<longleftrightarrow> GetDrillByID d (w_db w') = GetDrillByID d (w_db w) \<and>
     (\<forall>n. step_status d n (w_db w') = step_status d n (w_db w)) \<and> settings w' = settings w \<and>
     w_jobs w' = w_jobs w \<and> w_infra w' = w_infra w \<and> w_evid w' = w_evid w"

lemma RecordAssertion_ok:
  assumes "GetDrillByID d db = Inr dr" "assertion_kind_check (ar_Kind ar)" "ar_DrillID ar = d"
  shows "fst (RecordAssertion newid now ar db) = Inr ()"
    "results_of d (snd (RecordAssertion newid now ar db)) = results_of d db @ [ar_Passed ar]"
proof -
  have "drill_exists d db"
    using assms(1) by (auto simp: GetDrillByID_def drill_exists_def split: option.splits dest!: sql_first_Some)
  then show "fst (RecordAssertion newid now ar db) = Inr ()"
    "results_of d (snd (RecordAssertion newid now ar db)) = results_of d db @ [ar_Passed ar]"
    using assms by (simp_all add: RecordAssertion_def results_of_def)
qed

lemma run_assertion_ok:
  assumes "GetDrillByID d (w_db w) = Inr dr" "spec_outcome q spec = Some out"
  shows "\<exists>w'. run_assertion D d q spec [] w = (Ret (), [], w') \<and> asserting d w w' \<and>
    results_of d (w_db w') = results_of d (w_db w) @ [o_Passed out]"
proof -
  obtain cfg where "unmarshal_config (a_Config spec) = Inr cfg"
    "Run q \<lparr>sp_Kind = a_Kind spec, sp_Config = cfg\<rparr> = Inr out" "assertion_kind_check (o_Kind out)"
    using assms(2) by (auto simp: spec_outcome_def split: sum.splits if_splits)
  then show ?thesis
    using assms(1)
    by (simp add: run_assertion_def run call_ok RecordAssertion_ok [OF assms(1)] asserting_def views settings_def)
qed

lemma run_assertions_ok:
  assumes "GetDrillByID d (w_db w) = Inr dr" "map (spec_outcome q) specs = map Some outs"
  shows "\<exists>w'. forM specs (run_assertion D d q) [] w = (Ret (), [], w') \<and> asserting d w w' \<and>
    results_of d (w_db w') = results_of d (w_db w) @ map o_Passed outs"
  using assms
proof (induction specs arbitrary: outs w)
  case Nil
  then show ?case by (simp add: ret_def asserting_def)
next
  case (Cons spec specs)
  obtain out outs' where o: "outs = out # outs'" "spec_outcome q spec = Some out"
    "map (spec_outcome q) specs = map Some outs'"
    using Cons.prems(2) by (cases outs) auto
  obtain w1 where w1: "run_assertion D d q spec [] w = (Ret (), [], w1)" "asserting d w w1"
    "results_of d (w_db w1) = results_of d (w_db w) @ [o_Passed out]"
    using run_assertion_ok [OF Cons.prems(1) o(2)] by blast
  then have "GetDrillByID d (w_db w1) = Inr dr" using Cons.prems(1) by (simp add: asserting_def)
  from Cons.IH [OF this o(3)] w1 show ?case by (auto simp: thenM_def bindM_def o(1) asserting_def)
qed


lemma assert_run:
  assumes st: "stage d dr fin rs [AssertArgs d] i e w" and "StepAssert \<notin> fin"
    and sb: "d_SandboxDB dr = Some name" "name \<noteq> []" "rn_Rehydrate (dp_Runner D) d name = Inr sb"
    and t: "GetTargetByID (d_TargetID dr) (w_db w) = Inr t"
    and conn: "dp_Connect D (sb_DSN sb) i = Inr q"
    and outs: "map (spec_outcome q) (ListTargetAssertions (t_ID t) (w_db w)) = map Some outs"
  shows "stage d dr (insert StepAssert fin) (map o_Passed outs) [ReportArgs d] i e (deliver D [] w) \<and>
    settings (deliver D [] w) = settings w"
proof (rule stage_advance [OF st, where js = "[\<lparr>j_Args = ReportArgs d, j_Priority = 0\<rparr>]"])
  note w = st [unfolded stage_def]
  let ?db1 = "snd (MarkStepRunning (w_now w) d StepAssert (w_db w))"
  let ?w2 = "w\<lparr>w_db := snd (ClearAssertionResults d ?db1), w_fresh := Suc (Suc (w_fresh w))\<rparr>"
  have "GetDrillByID d (w_db ?w2) = Inr dr" using w by (simp add: views)
  then obtain w' where w': "forM (ListTargetAssertions (t_ID t) (w_db w)) (run_assertion D d q) [] ?w2 = (Ret (), [], w')"
    "asserting d ?w2 w'" "results_of d (w_db w') = map o_Passed outs"
    using run_assertions_ok [OF _ outs, of d ?w2 dr D] by (auto simp: views)
  have ra: "runAssertions D d sb (ListTargetAssertions (t_ID t) (w_db w)) []
      (w\<lparr>w_db := ?db1, w_fresh := Suc (w_fresh w)\<rparr>) = (Ret (), [], w')"
    using w conn w'(1) by (simp add: runAssertions_def run call_ok views)
  have run1: "work D (AssertArgs d) [] w = (Ret (), [], w'\<lparr>w_db := snd (MarkStepSucceeded (w_now w') d StepAssert (w_db w')),
      w_fresh := Suc (w_fresh w'), w_jobs := w_jobs w' @ [\<lparr>j_Args = ReportArgs d, j_Priority = 0\<rparr>]\<rparr>)"
    using w t sb assms(2)
    by (simp add: work_def AssertWorker_Work_def run views lookup_ok [where dr = dr and t = t]
        sandbox_ok [where dr = dr and name = name and sb = sb] ra store_args_def)
  show "\<exists>w'. work D (AssertArgs d) [] w = (Ret (), [], w') \<and> w_jobs w' = w_jobs w @ [\<lparr>j_Args = ReportArgs d, j_Priority = 0\<rparr>] \<and>
      stage d dr (insert StepAssert fin) (map o_Passed outs) (map j_Args (w_jobs w')) i e w' \<and> settings w' = settings w"
    using w w'(2,3) run1 by (simp add: asserting_def stage_def settings_def views)
qed simp

lemma verdictPass_iff: "verdictPass ars \<longleftrightarrow> (\<forall>a \<in> set ars. ar_Passed a)"
  by (induction ars) auto

lemma verdict_results: "verdictPass (ListAssertions d db) \<longleftrightarrow> (\<forall>b \<in> set (results_of d db). b)"
  by (auto simp: verdictPass_iff ListAssertions_def results_of_def)

lemma ListAssertions_running [views]:
  "ListAssertions d (snd (MarkStepRunning now x m db)) = ListAssertions d db"
  by (simp add: ListAssertions_def step_updates)

lemma Record_any: "ignoreM (Record ev) [] w = (Ret (), [], w\<lparr>w_audit := w_audit w @ [ev]\<rparr>)"
  by (simp add: ignoreM_def Record_def run call_ok)

lemma report_chain_run:
  assumes "GetDrillByID d (w_db w) = Inr x"
  shows "\<exists>w'. report_chain D dr ars d [] w = (Ret (), [], w') \<and>
    w_jobs w' = w_jobs w @ [\<lparr>j_Args = TeardownArgs d (if verdictPass ars then [] else ''assertion_failed''), j_Priority = 0\<rparr>] \<and>
    GetDrillByID d (w_db w') = Inr (if verdictPass ars then x else x\<lparr>d_Status := StatusFailed,
      d_CompletedAt := Some (coalesce (d_CompletedAt x) (w_now w)), d_Error := Some assertions_failed_msg\<rparr>) \<and>
    (\<forall>n. step_status d n (w_db w') = step_status d n (w_db w)) \<and> results_of d (w_db w') = results_of d (w_db w) \<and>
    settings w' = settings w \<and> w_infra w' = w_infra w \<and> w_evid w' = w_evid w"
proof -
  have ok: "pg_text_ok assertions_failed_msg" by code_simp
  have args: "store_args (TeardownArgs d ''assertion_failed'') = Inr (TeardownArgs d ''assertion_failed'')"
    "store_args (TeardownArgs d []) = Inr (TeardownArgs d [])"
    by (simp add: store_args_def, code_simp, simp add: store_args_def, code_simp)
  show ?thesis
    using assms by (simp add: report_chain_def run Record_any args views ok settings_def)
qed


lemma report_run:
  assumes st: "stage d dr fin rs [ReportArgs d] i e w" and "StepReport \<notin> fin"
    and t: "GetTargetByID (d_TargetID dr) (w_db w) = Inr t"
    and renders: "\<And>x. \<exists>pdf. dp_Render D x = Inr pdf"
    and stores: "\<And>pdf. \<exists>e'. dp_Finalize D (w_now w) d (d_AccountID dr) pdf [] e = (Ret path, [], e')"
  shows "\<exists>pdf e' c. dp_Finalize D (w_now w) d (d_AccountID dr) pdf [] e = (Ret path, [], e') \<and>
    stage d (if \<forall>b \<in> set rs. b then dr\<lparr>d_EvidencePath := Some path\<rparr>
             else dr\<lparr>d_EvidencePath := Some path, d_Status := StatusFailed, d_CompletedAt := c, d_Error := Some assertions_failed_msg\<rparr>)
      (insert StepReport fin) rs [TeardownArgs d (if \<forall>b \<in> set rs. b then [] else ''assertion_failed'')] i e' (deliver D [] w) \<and>
    settings (deliver D [] w) = settings w"
proof -
  note w = st [unfolded stage_def]
  let ?w1 = "w\<lparr>w_db := snd (MarkStepRunning (w_now w) d StepReport (w_db w)), w_fresh := Suc (w_fresh w)\<rparr>"
  let ?ars = "ListAssertions d (w_db w)"
  obtain pdf where pdf: "dp_Render D \<lparr>rd_Drill = report_drill (verdictPass ?ars) dr, rd_Target = t,
      rd_Steps = ListSteps d (w_db ?w1), rd_Assertions = ?ars, rd_Operator = CreatorEmail (d_CreatedByUserID dr) (w_db w),
      rd_GeneratedAt = w_now w\<rparr> = Inr pdf" using renders by blast
  obtain e' where e': "dp_Finalize D (w_now w) d (d_AccountID dr) pdf [] e = (Ret path, [], e')"
    using stores by blast
  obtain P where v: "verdictPass ?ars = P" "(\<forall>b \<in> set rs. b) = P" using w by (simp add: verdict_results)
  let ?w2 = "?w1\<lparr>w_evid := e', w_db := snd (MarkStepSucceeded (w_now w) d StepReport (snd (MarkEvidence d path (w_db ?w1)))),
      w_fresh := Suc (Suc (Suc (w_fresh w)))\<rparr>"
  let ?x = "dr\<lparr>d_EvidencePath := Some path\<rparr>"
  have "GetDrillByID d (w_db ?w2) = Inr ?x" using w by (simp add: views)
  from report_chain_run [OF this, of D dr ?ars] obtain w' where w':
    "report_chain D dr ?ars d [] ?w2 = (Ret (), [], w')"
    "w_jobs w' = w_jobs ?w2 @ [\<lparr>j_Args = TeardownArgs d (if verdictPass ?ars then [] else ''assertion_failed''), j_Priority = 0\<rparr>]"
    "GetDrillByID d (w_db w') = Inr (if verdictPass ?ars then ?x else ?x\<lparr>d_Status := StatusFailed,
      d_CompletedAt := Some (coalesce (d_CompletedAt ?x) (w_now ?w2)), d_Error := Some assertions_failed_msg\<rparr>)"
    "\<forall>n. step_status d n (w_db w') = step_status d n (w_db ?w2)" "results_of d (w_db w') = results_of d (w_db ?w2)"
    "settings w' = settings ?w2" "w_infra w' = w_infra ?w2" "w_evid w' = w_evid ?w2"
    by (elim exE conjE) (rule that)
  have store: "report_store D dr ?ars pdf d [] ?w1 = (Ret (), [], w')"
    using w e' w'(1) by (simp add: report_store_def run evidence_Finalize_def views)
  have work: "work D (ReportArgs d) [] w = (Ret (), [], w')"
    using w assms(2) t pdf store
    by (simp add: work_def ReportWorker_Work_def run views lookup_ok [where dr = dr and t = t] getM_def)
  let ?a = "TeardownArgs d (if \<forall>b \<in> set rs. b then [] else ''assertion_failed'')"
  let ?dr = "if \<forall>b \<in> set rs. b then dr\<lparr>d_EvidencePath := Some path\<rparr> else dr\<lparr>d_EvidencePath := Some path,
      d_Status := StatusFailed, d_CompletedAt := Some (coalesce (d_CompletedAt dr) (w_now w)), d_Error := Some assertions_failed_msg\<rparr>"
  have "stage d ?dr (insert StepReport fin) rs (map j_Args (w_jobs w')) i e' w' \<and> settings w' = settings w"
    unfolding v(2) using w w'(2-8) unfolding v(1) by (cases P) (simp_all add: stage_def settings_def views)
  moreover have "w_jobs w' = w_jobs w @ [\<lparr>j_Args = ?a, j_Priority = 0\<rparr>]"
    using w'(2) unfolding v by simp
  ultimately have "stage d ?dr (insert StepReport fin) rs [?a] i e' (deliver D [] w) \<and> settings (deliver D [] w) = settings w"
    using work by (intro stage_advance [OF st, where js = "[\<lparr>j_Args = ?a, j_Priority = 0\<rparr>]"]) auto
  with e' show ?thesis by blast
qed

text \<open>Calls that only add to the logs of outgoing events.\<close>

definition noise :: "('r, 'e) world \<Rightarrow> ('r, 'e) world \<Rightarrow> bool" where
  "noise w w' \<longleftrightarrow> w' = w\<lparr>w_out := w_out w', w_audit := w_audit w'\<rparr>"

lemma noise_trans: "noise w1 w2 \<Longrightarrow> noise w2 w3 \<Longrightarrow> noise w1 w3"
  unfolding noise_def by (cases w1; cases w2; cases w3) simp

definition quiet :: "(('r, 'e) world, unit) proc \<Rightarrow> bool" where
  "quiet p \<longleftrightarrow> (\<forall>w. \<exists>w'. p [] w = (Ret (), [], w') \<and> noise w w')"

lemma quiet_thenM:
  assumes "quiet p" "quiet q"
  shows "quiet (thenM p q)"
  unfolding quiet_def
proof
  fix w
  obtain w1 where "p [] w = (Ret (), [], w1)" "noise w w1" using assms(1) unfolding quiet_def by blast
  moreover obtain w2 where "q [] w1 = (Ret (), [], w2)" "noise w1 w2" using assms(2) unfolding quiet_def by blast
  ultimately show "\<exists>w'. thenM p q [] w = (Ret (), [], w') \<and> noise w w'"
    using noise_trans by (auto simp: thenM_def bindM_def)
qed

lemma quiet_log:
  "quiet (ret ())" "quiet (ignoreM (emit ev))" "quiet (ignoreM (Record ae))"
  "quiet (modM (\<lambda>w. w\<lparr>w_out := f w\<rparr>))"
  by (simp_all add: quiet_def noise_def ignoreM_def emit_def Record_def run call_ok modM_def)

lemma quiet_events:
  "quiet (notifyDrill D dr ev rs)" "quiet (dispatchWebhook D acc ev dt)" "quiet (captureDrill D ev dr)"
  "quiet (recordDrillMetric D st dr)"
  by (simp_all add: notifyDrill_def dispatchWebhook_def captureDrill_def recordDrillMetric_def quiet_log)

lemma quiet_reportUsage: "quiet (reportUsage D dr)"
proof -
  have "\<exists>w'. reportUsage D dr [] w = (Ret (), [], w') \<and> noise w w'" for w
    using quiet_log(1) quiet_log(2) [unfolded quiet_def]
    by (auto simp: reportUsage_def run call_ok noise_def split: sum.split option.split)
  then show ?thesis by (simp add: quiet_def)
qed


lemma quiet_run: "quiet p \<Longrightarrow> \<exists>out aud. p [] w = (Ret (), [], w\<lparr>w_out := out, w_audit := aud\<rparr>)"
  unfolding quiet_def noise_def by metis

lemma verdict_run:
  assumes "GetDrillByID d (w_db w) = Inr dr" and "reason = [] \<and> d_Status dr \<noteq> StatusFailed \<or> reason = ''assertion_failed''"
  shows "\<exists>w' dr'. teardown_verdict D dr d reason [] w = (Ret (), [], w') \<and> GetDrillByID d (w_db w') = Inr dr' \<and>
    d_Status dr' = (if reason = [] then StatusSucceeded else StatusFailed) \<and>
    d_EvidencePath dr' = (if reason = [] then Some (coalesce (d_EvidencePath dr) []) else d_EvidencePath dr) \<and>
    d_Error dr' = (if reason = [] then None else Some ''assertion_failed'') \<and>
    (\<forall>n. step_status d n (w_db w') = step_status d n (w_db w)) \<and> results_of d (w_db w') = results_of d (w_db w) \<and>
    settings w' = settings w \<and> w_jobs w' = w_jobs w \<and> w_infra w' = w_infra w \<and> w_evid w' = w_evid w"
proof -
  have ok: "pg_text_ok ''assertion_failed''" by code_simp
  have bad: "quiet (thenM (ignoreM (Record (drill_event D dr a m))) (drill_failed_events D dr r))" for a m r
    unfolding drill_failed_events_def by (intro quiet_thenM quiet_log quiet_events)
  have good: "quiet (thenM (ignoreM (Record ev)) (thenM (recordDrillMetric D st dr) (thenM (captureDrill D e1 dr)
      (thenM (dispatchWebhook D acc e2 m) (notifyDrill D x e3 r)))))" for ev st e1 acc e2 m x e3 r
    by (intro quiet_thenM quiet_log quiet_events)
  show ?thesis
  proof (cases "reason = []")
    case True
    let ?w = "w\<lparr>w_db := snd (MarkDrillSucceeded (w_now w) d (coalesce (d_EvidencePath dr) []) (w_db w)), w_fresh := Suc (w_fresh w)\<rparr>"
    obtain out aud where "thenM (ignoreM (Record (drill_event D dr ''drill.completed'' [])))
       (thenM (recordDrillMetric D ''succeeded'' dr)
       (thenM (captureDrill D ''drill.completed'' dr)
       (thenM (dispatchWebhook D (d_AccountID dr) ''drill.completed''
                 [(''drill_id'', dp_uuid D d), (''status'', ''succeeded'')])
              (notifyDrill D dr ''drill.completed'' [])))) [] ?w = (Ret (), [], ?w\<lparr>w_out := out, w_audit := aud\<rparr>)"
      using quiet_run [OF good] by blast
    with True assms have "teardown_verdict D dr d reason [] w = (Ret (), [], ?w\<lparr>w_out := out, w_audit := aud\<rparr>)"
      by (simp add: teardown_verdict_def bindM_def thenM_def [of "db_write D f" for f] db_read_ok db_write_ok views)
    with True assms(1) show ?thesis by (simp add: views settings_def)
  next
    case False
    let ?w = "w\<lparr>w_db := snd (MarkDrillFailed (w_now w) d reason (w_db w)), w_fresh := Suc (w_fresh w)\<rparr>"
    obtain out aud where "thenM (ignoreM (Record (drill_event D dr ''drill.failed'' [(''reason'', reason)])))
        (drill_failed_events D dr reason) [] ?w = (Ret (), [], ?w\<lparr>w_out := out, w_audit := aud\<rparr>)"
      using quiet_run [OF bad] by blast
    with False have "teardown_verdict D dr d reason [] w = (Ret (), [], ?w\<lparr>w_out := out, w_audit := aud\<rparr>)"
      by (simp add: teardown_verdict_def thenM_def [of "ignoreM (db_write D f)" for f] bindM_def [of "ignoreM (db_write D f)" for f] db_write_any)
    with False assms ok show ?thesis by (simp add: views settings_def)
  qed
qed

lemma teardown_run:
  assumes st: "stage d dr fin rs [TeardownArgs d reason] i e w" and "StepTeardown \<notin> fin"
    and sb: "d_SandboxDB dr = Some name" "name \<noteq> []" "rn_Rehydrate (dp_Runner D) d name = Inr sb"
    and td: "rn_Teardown (dp_Runner D) (Some sb) i = (Inr (), i')"
    and reason: "reason = [] \<and> d_Status dr \<noteq> StatusFailed \<or> reason = ''assertion_failed''"
  shows "\<exists>dr'. stage d dr' (insert StepTeardown fin) rs [] i' e (deliver D [] w) \<and>
    settings (deliver D [] w) = settings w \<and>
    d_Status dr' = (if reason = [] then StatusSucceeded else StatusFailed) \<and>
    d_EvidencePath dr' = (if reason = [] then Some (coalesce (d_EvidencePath dr) []) else d_EvidencePath dr) \<and>
    d_Error dr' = (if reason = [] then None else Some ''assertion_failed'')"
proof -
  note w = st [unfolded stage_def]
  obtain out aud where u: "reportUsage D dr [] w = (Ret (), [], w\<lparr>w_out := out, w_audit := aud\<rparr>)"
    using quiet_run [OF quiet_reportUsage] by blast
  let ?w1 = "w\<lparr>w_out := out, w_audit := aud\<rparr>"
  let ?w2 = "?w1\<lparr>w_infra := i', w_db := snd (MarkStepSucceeded (w_now w) d StepTeardown (w_db w)), w_fresh := Suc (w_fresh w)\<rparr>"
  have "GetDrillByID d (w_db ?w2) = Inr dr" using w by (simp add: views)
  from verdict_run [OF this reason, of D] obtain w' dr' where w': "teardown_verdict D dr d reason [] ?w2 = (Ret (), [], w')"
    "GetDrillByID d (w_db w') = Inr dr'" "d_Status dr' = (if reason = [] then StatusSucceeded else StatusFailed)"
    "d_EvidencePath dr' = (if reason = [] then Some (coalesce (d_EvidencePath dr) []) else d_EvidencePath dr)"
    "d_Error dr' = (if reason = [] then None else Some ''assertion_failed'')"
    "\<forall>n. step_status d n (w_db w') = step_status d n (w_db ?w2)" "results_of d (w_db w') = results_of d (w_db ?w2)"
    "settings w' = settings ?w2" "w_jobs w' = w_jobs ?w2" "w_infra w' = w_infra ?w2" "w_evid w' = w_evid ?w2"
    by (elim exE conjE) (rule that)
  have "teardown_sandbox D dr d [] ?w1 = (Ret (Some sb), [], ?w1)"
    using w sb by (simp add: teardown_sandbox_def run sandbox_ok [where dr = dr and name = name and sb = sb])
  then have "work D (TeardownArgs d reason) [] w = (Ret (), [], w')"
    using w u td w'(1) by (simp add: work_def TeardownWorker_Work_def run runner_Teardown_def call_ok)
  moreover have "stage d dr' (insert StepTeardown fin) rs (map j_Args (w_jobs w')) i' e w' \<and> settings w' = settings w"
    using w w' by (simp add: stage_def settings_def views)
  ultimately have "stage d dr' (insert StepTeardown fin) rs [] i' e (deliver D [] w) \<and> settings (deliver D [] w) = settings w"
    using w'(9) by (intro stage_advance [OF st, where js = "[]"]) auto
  with w'(3-5) show ?thesis by blast
qed

subsection \<open>Enqueuing\<close>

lemma step_idem_key_eq [simp]: "step_idem_key D d m = step_idem_key D d n \<longleftrightarrow> m = n"
  by (cases m; cases n) (simp_all add: step_idem_key_def)

definition fresh_steps :: "('r, 'e) Deps \<Rightarrow> uuid \<Rightarrow> StepName set \<Rightarrow> drill_db \<Rightarrow> bool" where
  "fresh_steps D d ns db \<longleftrightarrow>
     (\<forall>n. step_status d n db = (if n \<in> ns then Some StatusPending else None)) \<and>
     (\<forall>n. n \<notin> ns \<longrightarrow> step_idem_key D d n \<notin> set (map s_IdempotencyKey (db_steps db)))"

definition others_alike :: "uuid \<Rightarrow> ('r, 'e) world \<Rightarrow> ('r, 'e) world \<Rightarrow> bool" where
  "others_alike d w w' \<longleftrightarrow> GetDrillByID d (w_db w') = GetDrillByID d (w_db w) \<and> results_of d (w_db w') = results_of d (w_db w) \<and>
     settings w' = settings w \<and> w_jobs w' = w_jobs w \<and> w_infra w' = w_infra w \<and> w_evid w' = w_evid w \<and>
     db_drills (w_db w') = db_drills (w_db w) \<and> db_idem (w_db w') = db_idem (w_db w)"

lemma create_step_run:
  assumes "fresh_steps D d ns (w_db w)" "n \<notin> ns" "GetDrillByID d (w_db w) = Inr dr"
  shows "\<exists>s w'. db_write D (\<lambda>now newid. CreateStepIfMissing newid d n i (step_idem_key D d n)) [] w = (Ret s, [], w') \<and>
    others_alike d w w' \<and> fresh_steps D d (insert n ns) (w_db w')"
proof -
  let ?s = "\<lparr>s_ID = w_fresh w, s_DrillID = d, s_Name = n, s_Status = StatusPending,
     s_StartedAt = None, s_CompletedAt = None, s_Error = None, s_IdempotencyKey = step_idem_key D d n, s_Ordinal = i,
     s_OutputSnippet = None, s_OutputSHA256 = None, s_OutputTruncated = None\<rparr>"
  have "drill_exists d (w_db w)"
    using assms(3) by (auto simp: GetDrillByID_def drill_exists_def split: option.splits dest!: sql_first_Some)
  moreover have none: "sql_first (\<lambda>s. s_DrillID s = d \<and> s_Name s = n) (db_steps (w_db w)) = None"
  proof -
    have "step_status d n (w_db w) = None" using assms(1,2) by (simp add: fresh_steps_def)
    then show ?thesis by (simp add: step_status_def GetStep_def split: option.splits)
  qed
  ultimately have c: "CreateStepIfMissing (w_fresh w) d n i (step_idem_key D d n) (w_db w) =
      (Inr ?s, (w_db w)\<lparr>db_steps := db_steps (w_db w) @ [?s]\<rparr>)"
    using assms(1,2) by (simp add: CreateStepIfMissing_def fresh_steps_def Let_def)
  have "step_status d m ((w_db w)\<lparr>db_steps := db_steps (w_db w) @ [?s]\<rparr>) =
      (if m = n then Some StatusPending else step_status d m (w_db w))" for m
    using none
    by (auto simp: step_status_def GetStep_def sql_first_append split: option.split sum.split)
  then show ?thesis
    using assms
    by (simp add: db_write_ok c others_alike_def fresh_steps_def settings_def rest_of_def results_of_def GetDrillByID_def)
qed

lemma create_steps_run:
  assumes "fresh_steps D d ns (w_db w)" "distinct (map snd xs)" "snd ` set xs \<inter> ns = {}" "GetDrillByID d (w_db w) = Inr dr"
  shows "\<exists>w'. forM xs (\<lambda>(i, name). thenM (db_write D (\<lambda>now newid. CreateStepIfMissing newid d name i (step_idem_key D d name))) (ret ()))
      [] w = (Ret (), [], w') \<and> others_alike d w w' \<and> fresh_steps D d (ns \<union> snd ` set xs) (w_db w')"
  using assms
proof (induction xs arbitrary: ns w)
  case Nil
  then show ?case by (simp add: ret_def others_alike_def)
next
  case (Cons x xs)
  obtain i n where x: "x = (i, n)" by force
  obtain s w1 where w1: "db_write D (\<lambda>now newid. CreateStepIfMissing newid d n i (step_idem_key D d n)) [] w = (Ret s, [], w1)"
    "others_alike d w w1" "fresh_steps D d (insert n ns) (w_db w1)"
    using create_step_run [OF Cons.prems(1), of n dr i] Cons.prems(3,4) x by auto
  let ?F = "\<lambda>(i, name). thenM (db_write D (\<lambda>now newid. CreateStepIfMissing newid d name i (step_idem_key D d name))) (ret ())"
  have h: "?F x [] w = (Ret (), [], w1)" using w1(1) by (simp add: x thenM_def bindM_def ret_def)
  obtain w2 where w2: "forM xs ?F [] w1 = (Ret (), [], w2)" "others_alike d w1 w2"
    "fresh_steps D d (insert n ns \<union> snd ` set xs) (w_db w2)"
    using Cons.IH [OF w1(3)] w1(2) Cons.prems(2-) x by (auto simp: others_alike_def)
  have "forM (x # xs) ?F [] w = (Ret (), [], w2)"
    using bindM_nofault [where p = "?F x" and q = "\<lambda>_. forM xs ?F", OF h] w2(1) by (simp only: forM.simps thenM_def)
  with w1(2) w2 show ?case by (auto simp: x others_alike_def)
qed

lemma enqueue_alike:
  assumes "GetDrillByID d (w_db w) = Inr dr" "fresh_steps D d {} (w_db w)"
  shows "\<exists>w'. EnqueueDrill D audited d priority [] w =
      (Ret (), [], w'\<lparr>w_jobs := w_jobs w @ [\<lparr>j_Args = ProvisionArgs d, j_Priority = priority\<rparr>]\<rparr>) \<and>
    others_alike d w w' \<and> fresh_steps D d UNIV (w_db w')"
proof -
  have all: "snd ` set (enumerate 0 AllSteps) = UNIV" "distinct (map snd (enumerate 0 AllSteps))"
  proof -
    have "n \<in> set AllSteps" for n by (cases n) (simp_all add: AllSteps_def)
    then have "set (map snd (enumerate 0 AllSteps)) = UNIV" by simp blast
    then show "snd ` set (enumerate 0 AllSteps) = UNIV" unfolding set_map .
  qed (simp, simp add: AllSteps_def)
  obtain w1 where w1: "forM (enumerate 0 AllSteps) (\<lambda>(i, name). thenM (db_write D (\<lambda>now newid. CreateStepIfMissing newid d name i (step_idem_key D d name))) (ret ()))
      [] w = (Ret (), [], w1)" "others_alike d w w1" "fresh_steps D d UNIV (w_db w1)"
    using create_steps_run [OF assms(2) all(2) _ assms(1)] all(1) by auto
  let ?w = "if audited then w1\<lparr>w_audit := w_audit w1 @ [drill_event D dr ''drill.created'' [(''target_id'', dp_uuid D (d_TargetID dr))]]\<rparr> else w1"
  have "EnqueueDrill D audited d priority [] w =
      (Ret (), [], ?w\<lparr>w_jobs := w_jobs w @ [\<lparr>j_Args = ProvisionArgs d, j_Priority = priority\<rparr>]\<rparr>)"
    using w1 assms by (simp add: EnqueueDrill_def run Record_any store_args_def others_alike_def)
  moreover have "others_alike d w ?w" "fresh_steps D d UNIV (w_db ?w)" using w1 by (simp_all add: others_alike_def settings_def)
  ultimately show ?thesis by blast
qed

lemma enqueue_run:
  assumes "GetDrillByID d (w_db w) = Inr dr" "fresh_steps D d {} (w_db w)" "w_jobs w = []"
  shows "stage d dr {} (results_of d (w_db w)) [ProvisionArgs d] (w_infra w) (w_evid w)
      (final (EnqueueDrill D audited d priority [] w)) \<and>
    settings (final (EnqueueDrill D audited d priority [] w)) = settings w"
proof -
  obtain w1 where "EnqueueDrill D audited d priority [] w =
      (Ret (), [], w1\<lparr>w_jobs := w_jobs w @ [\<lparr>j_Args = ProvisionArgs d, j_Priority = priority\<rparr>]\<rparr>)"
    "others_alike d w w1" "fresh_steps D d UNIV (w_db w1)" using enqueue_alike [OF assms(1,2)] by blast
  then show ?thesis
    using assms by (simp add: final_def stage_def settings_def others_alike_def fresh_steps_def)
qed

definition drill_run :: "('r, 'e) Deps \<Rightarrow> bool \<Rightarrow> uuid \<Rightarrow> nat \<Rightarrow> ('r, 'e) world \<Rightarrow> ('r, 'e) world" where
  "drill_run D audited d priority w = (deliver D [] ^^ 6) (final (EnqueueDrill D audited d priority [] w))"

text \<open>
  A drill that meets no faults: enqueued with no other jobs and worked to the end, with every
  call of the runner, the sandbox, the renderer and the evidence service answered.
\<close>

lemma clean_until_report:
  assumes start: "GetDrillByID d (w_db w) = Inr dr" "d_Status dr = StatusPending" "fresh_steps D d {} (w_db w)" "w_jobs w = []"
    and target: "GetTargetByID (d_TargetID dr) (w_db w) = Inr t"
    and provision: "rn_Provision (dp_Runner D) d (w_infra w) = (Inr sb, i1)" "sb_Name sb \<noteq> []"
      "rn_Rehydrate (dp_Runner D) d (sb_Name sb) = Inr sb"
    and fetch: "rn_Fetch (dp_Runner D) sb (t_SourceURI t) i1 = Inr (path, hash)"
      "store_args (RestoreArgs d path) = Inr (RestoreArgs d path)"
    and restore: "rn_Restore (dp_Runner D) sb path i1 = ((output, None), i2)"
    and connect: "dp_Connect D (sb_DSN sb) i2 = Inr q"
    and outcomes: "map (spec_outcome q) (ListTargetAssertions (t_ID t) (w_db w)) = map Some outs"
  shows "\<exists>dr' w'. w' = (deliver D [] ^^ 4) (final (EnqueueDrill D audited d priority [] w)) \<and>
    stage d dr' {StepAssert, StepRestore, StepFetch, StepProvision} (map o_Passed outs) [ReportArgs d] i2 (w_evid w) w' \<and>
    settings w' = settings w \<and> d_SandboxDB dr' = Some (sb_Name sb) \<and> d_Status dr' = StatusRunning \<and>
    d_AccountID dr' = d_AccountID dr \<and> GetTargetByID (d_TargetID dr') (w_db w') = Inr t"
proof -
  let ?w0 = "final (EnqueueDrill D audited d priority [] w)"
  let ?w1 = "deliver D [] ?w0" let ?w2 = "deliver D [] ?w1" let ?w3 = "deliver D [] ?w2" let ?w4 = "deliver D [] ?w3"
  have reads: "GetTargetByID (d_TargetID dr) (w_db v) = Inr t"
    "ListTargetAssertions (t_ID t) (w_db v) = ListTargetAssertions (t_ID t) (w_db w)"
    if "settings v = settings w" for v :: "('a, 'b) world"
    using that target by (simp_all add: settings_def rest_of_def GetTargetByID_def ListTargetAssertions_def)
  note s0 = enqueue_run [OF start(1,3,4), of audited priority]
  note s1 = provision_run [OF s0 [THEN conjunct1] start(2) _ provision(1), simplified]
  have e1: "settings ?w1 = settings w" using s0 s1 by simp
  note s2 = fetch_run [OF s1 [THEN conjunct1] _ _ provision(2,3) _ fetch, simplified, OF reads(1) [OF e1]]
  have e2: "settings ?w2 = settings w" using e1 s2 by simp
  note s3 = restore_run [OF s2 [THEN conjunct1] _ _ provision(2,3) restore, simplified]
  have e3: "settings ?w3 = settings w" using e2 s3 by simp
  note s4 = assert_run [OF s3 [THEN conjunct1] _ _ provision(2,3) _ connect, simplified, OF reads(1) [OF e3],
      unfolded reads(2) [OF e3], OF outcomes]
  have e4: "settings ?w4 = settings w" using e3 s4 by simp
  have r: "(deliver D [] ^^ 4) ?w0 = ?w4" by (simp add: numeral_eq_Suc)
  show ?thesis
    unfolding r by (intro exI conjI, rule refl, rule s4 [THEN conjunct1]) (use e4 reads(1) [OF e4] in simp_all)
qed

lemma clean_run:
  assumes start: "GetDrillByID d (w_db w) = Inr dr" "d_Status dr = StatusPending" "fresh_steps D d {} (w_db w)" "w_jobs w = []"
    and target: "GetTargetByID (d_TargetID dr) (w_db w) = Inr t"
    and provision: "rn_Provision (dp_Runner D) d (w_infra w) = (Inr sb, i1)" "sb_Name sb \<noteq> []"
      "rn_Rehydrate (dp_Runner D) d (sb_Name sb) = Inr sb"
    and fetch: "rn_Fetch (dp_Runner D) sb (t_SourceURI t) i1 = Inr (path, hash)"
      "store_args (RestoreArgs d path) = Inr (RestoreArgs d path)"
    and restore: "rn_Restore (dp_Runner D) sb path i1 = ((output, None), i2)"
    and connect: "dp_Connect D (sb_DSN sb) i2 = Inr q"
    and outcomes: "map (spec_outcome q) (ListTargetAssertions (t_ID t) (w_db w)) = map Some outs"
    and renders: "\<And>x. \<exists>pdf. dp_Render D x = Inr pdf"
    and stores: "\<And>pdf. \<exists>e. dp_Finalize D (w_now w) d (d_AccountID dr) pdf [] (w_evid w) = (Ret file, [], e)"
    and teardown: "rn_Teardown (dp_Runner D) (Some sb) i2 = (Inr (), i3)"
  shows "\<exists>dr' pdf. GetDrillByID d (w_db (drill_run D audited d priority w)) = Inr dr' \<and>
    dp_Finalize D (w_now w) d (d_AccountID dr) pdf [] (w_evid w) = (Ret file, [], w_evid (drill_run D audited d priority w)) \<and>
    d_Status dr' = (if \<forall>x \<in> set outs. o_Passed x then StatusSucceeded else StatusFailed) \<and>
    d_EvidencePath dr' = Some file \<and>
    (\<forall>n. step_status d n (w_db (drill_run D audited d priority w)) = Some StatusSucceeded) \<and>
    results_of d (w_db (drill_run D audited d priority w)) = map o_Passed outs \<and>
    w_jobs (drill_run D audited d priority w) = [] \<and> w_infra (drill_run D audited d priority w) = i3"
proof -
  let ?ok = "\<forall>x \<in> set outs. o_Passed x"
  obtain dr4 w4 where w4: "w4 = (deliver D [] ^^ 4) (final (EnqueueDrill D audited d priority [] w))"
    "stage d dr4 {StepAssert, StepRestore, StepFetch, StepProvision} (map o_Passed outs) [ReportArgs d] i2 (w_evid w) w4"
    "settings w4 = settings w" "d_SandboxDB dr4 = Some (sb_Name sb)" "d_Status dr4 = StatusRunning"
    "d_AccountID dr4 = d_AccountID dr" "GetTargetByID (d_TargetID dr4) (w_db w4) = Inr t"
    using clean_until_report [OF start target provision fetch restore connect outcomes] by blast
  have run6: "drill_run D audited d priority w = deliver D [] (deliver D [] w4)"
    by (simp add: drill_run_def w4(1) numeral_eq_Suc)
  have now: "w_now w4 = w_now w" using w4(3) by (simp add: settings_def)
  note s5 = report_run [OF w4(2) _ w4(7) renders, simplified, unfolded now w4(6), OF stores]
  obtain dr5 pdf e' where s5': "stage d dr5 {StepReport, StepAssert, StepRestore, StepFetch, StepProvision} (map o_Passed outs)
      [TeardownArgs d (if ?ok then [] else ''assertion_failed'')] i2 e' (deliver D [] w4)"
    "d_SandboxDB dr5 = Some (sb_Name sb)" "d_EvidencePath dr5 = Some file" "d_Status dr5 = (if ?ok then StatusRunning else StatusFailed)"
    "dp_Finalize D (w_now w) d (d_AccountID dr) pdf [] (w_evid w) = (Ret file, [], e')"
    using s5 w4(4,5) by (auto split: if_splits)
  have reason: "(if ?ok then [] else ''assertion_failed'') = [] \<and> d_Status dr5 \<noteq> StatusFailed \<or>
      (if ?ok then [] else ''assertion_failed'') = ''assertion_failed''" using s5'(4) by simp
  have all: "(\<lambda>n. n \<in> {StepTeardown, StepReport, StepAssert, StepRestore, StepFetch, StepProvision}) = (\<lambda>_. True)"
    using StepName.exhaust by blast
  from teardown_run [OF s5'(1) _ s5'(2) provision(2,3) teardown reason]
  obtain dr6 where "stage d dr6 {StepTeardown, StepReport, StepAssert, StepRestore, StepFetch, StepProvision} (map o_Passed outs) [] i3 e'
      (deliver D [] (deliver D [] w4))"
    "d_Status dr6 = (if ?ok then StatusSucceeded else StatusFailed)" "d_EvidencePath dr6 = Some file"
    using s5'(3) by (auto split: if_splits simp: coalesce_def)
  then show ?thesis using s5'(5) all unfolding run6 stage_def by (auto dest: fun_cong)
qed

section \<open>A crash in the report worker\<close>

text \<open>
  Calls that meet no fault while others wait to happen later, and the delivery of a report that
  dies right after it recorded its step: the job stays in the queue and the drill stays running.
\<close>

lemma call_NoFault:
  "call f (NoFault # fs) w = (case f w of (Inr a, w') \<Rightarrow> (Ret a, fs, w') | (Inl e, w') \<Rightarrow> (Err e, fs, w'))"
  by (simp add: call_def Let_def split: prod.split sum.split)

lemma db_write_NoFault:
  "fst (f (w_now w) (w_fresh w) (w_db w)) = Inr a \<Longrightarrow> db_write D f (NoFault # fs) w =
     (Ret a, fs, w\<lparr>w_db := snd (f (w_now w) (w_fresh w) (w_db w)), w_fresh := w_fresh w + 1\<rparr>)"
  by (cases "f (w_now w) (w_fresh w) (w_db w)") (simp add: db_write_def call_NoFault dbErr_def)

lemma db_read_NoFault: "f (w_db w) = Inr a \<Longrightarrow> db_read D f (NoFault # fs) w = (Ret a, fs, w)"
  by (simp add: db_read_def call_NoFault dbErr_def)

lemma alreadyDone_NoFault:
  "step_status d n (w_db w) = Some s \<Longrightarrow> alreadyDone D d n (NoFault # fs) w = (Ret (s = StatusSucceeded), fs, w)"
  by (auto simp: step_status_def alreadyDone_def bindM_def db_read_def call_NoFault dbErr_def ret_def split: sum.splits)

lemma crash_db_write: "ignoreM (db_write D f) (Crash # fs) w = (Crashed, fs, w)"
  by (simp add: ignoreM_def tryM_def bindM_def db_write_def call_def Let_def)

lemmas run_NoFault = bindM_def thenM_def tryM_def ret_def db_write_NoFault db_read_NoFault alreadyDone_NoFault

lemma report_crash:
  assumes st: "stage d dr fin rs [ReportArgs d] i e w" and "StepReport \<notin> fin" and bad: "False \<in> set rs"
    and t: "GetTargetByID (d_TargetID dr) (w_db w) = Inr t"
    and renders: "\<And>x. dp_Render D x = Inr pdf"
    and stores: "\<And>fs. dp_Finalize D (w_now w) d (d_AccountID dr) pdf (replicate k NoFault @ fs) e = (Ret path, fs, e')"
  shows "stage d (dr\<lparr>d_EvidencePath := Some path\<rparr>) (insert StepReport fin) rs [ReportArgs d] i e'
    (deliver D (replicate (k + 9) NoFault @ [Crash]) w)"
proof -
  note w = st [unfolded stage_def]
  let ?w1 = "w\<lparr>w_db := snd (MarkStepRunning (w_now w) d StepReport (w_db w)), w_fresh := Suc (w_fresh w)\<rparr>"
  let ?ars = "ListAssertions d (w_db w)"
  let ?w2 = "?w1\<lparr>w_evid := e', w_db := snd (MarkStepSucceeded (w_now w) d StepReport (snd (MarkEvidence d path (w_db ?w1)))),
      w_fresh := Suc (Suc (Suc (w_fresh w)))\<rparr>"
  have v: "\<not> verdictPass ?ars" using w bad by (auto simp: verdict_results)
  have "report_store D dr ?ars pdf d (replicate k NoFault @ [NoFault, NoFault, Crash]) ?w1 = (Crashed, [], ?w2)"
    using w stores v by (simp add: report_store_def run_NoFault evidence_Finalize_def views report_chain_def crash_db_write)
  moreover have "replicate (k + 9) NoFault @ [Crash] = NoFault # NoFault # NoFault # NoFault # NoFault # NoFault # NoFault #
      (replicate k NoFault @ [NoFault, NoFault, Crash])"
    by (simp add: numeral_eq_Suc replicate_app_Cons_same)
  ultimately have "work D (ReportArgs d) (replicate (k + 9) NoFault @ [Crash]) w = (Crashed, [], ?w2)"
    using w assms(2) t renders
    by (simp add: work_def ReportWorker_Work_def run_NoFault views lookupDrillAndTarget_def getM_def)
  then have "deliver D (replicate (k + 9) NoFault @ [Crash]) w = ?w2"
    using w by (auto simp: deliver_def)
  then show ?thesis using w by (simp add: stage_def views)
qed

lemma report_again:
  assumes st: "stage d dr fin rs [ReportArgs d] i e w" and "StepReport \<in> fin"
  shows "stage d dr fin rs [TeardownArgs d []] i e (deliver D [] w) \<and> settings (deliver D [] w) = settings w"
  by (rule stage_advance [OF st, where js = "[\<lparr>j_Args = TeardownArgs d [], j_Priority = 0\<rparr>]"])
    (use assms [unfolded stage_def] in \<open>simp_all add: work_def ReportWorker_Work_def run store_args_def json_utf8.simps stage_def settings_def\<close>)

section \<open>Deliveries are steps of the system\<close>

lemma deliver_steps: "(system_step D U)\<^sup>*\<^sup>* w (deliver D fs w)"
proof (cases "w_jobs w")
  case (Cons j js)
  let ?r = "work D (j_Args j) fs w"
  have s: "system_step D U w (final ?r)" using Cons by (intro work_job) simp
  obtain r fs' w' where r: "?r = (r, fs', w')" by (cases rule: prod_cases3)
  have w': "final ?r = w'" using r by (simp add: final_def)
  show ?thesis
  proof (cases r)
    case (Ret u)
    then have "deliver D fs w = w'\<lparr>w_jobs := remove1 j (w_jobs w')\<rparr>" using Cons r by (simp add: deliver_def)
    then show ?thesis using s drop_job [of D U w' j] unfolding w' by (metis converse_rtranclp_into_rtranclp rtranclp.rtrancl_refl)
  qed (use s Cons r in \<open>simp_all add: deliver_def final_def r_into_rtranclp\<close>)
qed (simp add: deliver_def)

lemma drill_run_steps: "(system_step D U)\<^sup>*\<^sup>* w (drill_run D audited d priority w)"
proof -
  have "(system_step D U)\<^sup>*\<^sup>* v ((deliver D [] ^^ k) v)" for v k
    by (induction k) (auto intro: rtranclp_trans deliver_steps)
  moreover have "system_step D U w (final (EnqueueDrill D audited d priority [] w))" by (rule enqueue)
  ultimately show ?thesis unfolding drill_run_def by (meson converse_rtranclp_into_rtranclp)
qed

end
