(* ===== verification/Evidence_Sign.thy ===== *)
theory Evidence_Sign
  imports Prelude
begin

section \<open>Signing evidence\<close>

text \<open>
  \<open>internal/evidence/sign.go\<close> and the independent verifier \<open>cmd/dokaz-verify/main.go\<close>. The
  primitives are the parameter \<open>crypto\<close>: SHA-256 and Ed25519, of which \<open>crypto_ok\<close> states that a
  signature verifies under the public half of its key. Base64, hexadecimal and the RFC 3339
  form of an instant are defined here as the standard library has them. A parsed key file is the
  list of its PEM blocks, each decoded by \<open>crypto/x509\<close>.
\<close>

record crypto =
  cr_sha256 :: "bytes \<Rightarrow> bytes"
  cr_Public :: "bytes \<Rightarrow> bytes"
  cr_Sign :: "bytes \<Rightarrow> bytes \<Rightarrow> bytes"
  cr_Verify :: "bytes \<Rightarrow> bytes \<Rightarrow> bytes \<Rightarrow> bool"

definition crypto_ok :: "crypto \<Rightarrow> bool" where
  "crypto_ok C \<longleftrightarrow> (\<forall>priv msg. cr_Verify C (cr_Public C priv) msg (cr_Sign C priv msg))"

subsection \<open>Base64\<close>

text \<open>The standard alphabet: upper-case letters, lower-case letters, digits, plus and slash.\<close>

definition b64_char :: "nat \<Rightarrow> char" where
  "b64_char n =
     char_of (if n < 26 then n + 65 else if n < 52 then n + 71 else if n < 62 then n - 4
       else if n = 62 then 43 else 47)"

definition b64_val :: "char \<Rightarrow> nat option" where
  "b64_val c =
     (let n = of_char c :: nat in
      if 65 \<le> n \<and> n \<le> 90 then Some (n - 65)
      else if 97 \<le> n \<and> n \<le> 122 then Some (n - 71)
      else if 48 \<le> n \<and> n \<le> 57 then Some (n + 4)
      else if n = 43 then Some 62
      else if n = 47 then Some 63
      else None)"

fun b64_encode :: "bytes \<Rightarrow> string" where
  "b64_encode [] = []"
| "b64_encode [a] =
     (let n = of_char a in [b64_char (n div 4), b64_char (n mod 4 * 16), CHR ''='', CHR ''=''])"
| "b64_encode [a, b] =
     (let n = of_char a; m = of_char b in
      [b64_char (n div 4), b64_char (n mod 4 * 16 + m div 16), b64_char (m mod 16 * 4), CHR ''=''])"
| "b64_encode (a # b # c # r) =
     (let n = of_char a; m = of_char b; k = of_char c in
      [b64_char (n div 4), b64_char (n mod 4 * 16 + m div 16), b64_char (m mod 16 * 4 + k div 64),
       b64_char (k mod 64)] @ b64_encode r)"

definition b64_quad :: "char \<Rightarrow> char \<Rightarrow> char \<Rightarrow> char \<Rightarrow> bytes option" where
  "b64_quad p q r s =
     (case (b64_val p, b64_val q, b64_val r, b64_val s) of
        (Some a, Some b, Some c, Some d) \<Rightarrow>
          Some [char_of (a * 4 + b div 16), char_of (b mod 16 * 16 + c div 4), char_of (c mod 4 * 64 + d)]
      | _ \<Rightarrow> None)"

text \<open>
  \<open>StdEncoding.DecodeString\<close>: carriage returns and newlines are skipped, every group has four
  characters, only the last may end in one or two padding characters, and bits left over there
  are ignored.
\<close>

fun b64_groups :: "string \<Rightarrow> bytes option" where
  "b64_groups [] = Some []"
| "b64_groups (p # q # r # s # rest) =
     (if rest = [] \<and> s = CHR ''='' then
        (if r = CHR ''='' then
           (case (b64_val p, b64_val q) of
              (Some a, Some b) \<Rightarrow> Some [char_of (a * 4 + b div 16)]
            | _ \<Rightarrow> None)
         else
           (case (b64_val p, b64_val q, b64_val r) of
              (Some a, Some b, Some c) \<Rightarrow>
                Some [char_of (a * 4 + b div 16), char_of (b mod 16 * 16 + c div 4)]
            | _ \<Rightarrow> None))
      else
        (case b64_quad p q r s of
           None \<Rightarrow> None
         | Some b \<Rightarrow> (case b64_groups rest of None \<Rightarrow> None | Some bs \<Rightarrow> Some (b @ bs))))"
| "b64_groups _ = None"

definition b64_decode :: "string \<Rightarrow> bytes option" where
  "b64_decode s = b64_groups (filter (\<lambda>c. c \<noteq> CHR 0x0A \<and> c \<noteq> CHR 0x0D) s)"

subsection \<open>Instants in RFC 3339 form\<close>

definition pad_dec :: "nat \<Rightarrow> int \<Rightarrow> string" where
  "pad_dec w n = (let s = dec_nat (nat n) in replicate (w - length s) (CHR ''0'') @ s)"

text \<open>The civil date of a day number (days since 1970-01-01) in the proleptic Gregorian calendar.\<close>

definition civil :: "int \<Rightarrow> int \<times> int \<times> int" where
  "civil days =
     (let z = days + 719468; era = z div 146097; doe = z mod 146097;
          yoe = (doe - doe div 1460 + doe div 36524 - doe div 146096) div 365;
          doy = doe - (365 * yoe + yoe div 4 - yoe div 100);
          mp = (5 * doy + 2) div 153;
          d = doy - (153 * mp + 2) div 5 + 1;
          m = (if mp < 10 then mp + 3 else mp - 9)
      in (yoe + era * 400 + (if m \<le> 2 then 1 else 0), m, d))"

definition nano_fraction :: "int \<Rightarrow> string" where
  "nano_fraction ns =
     (if ns = 0 then []
      else ''.'' @ rev (dropWhile (\<lambda>c. c = CHR ''0'') (rev (pad_dec 9 ns))))"

definition rfc3339nano :: "gotime \<Rightarrow> string" where
  "rfc3339nano t =
     (let secs = t div nsSecond; ns = t mod nsSecond; sod = secs mod 86400 in
      case civil (secs div 86400) of (y, m, d) \<Rightarrow>
        pad_dec 4 y @ ''-'' @ pad_dec 2 m @ ''-'' @ pad_dec 2 d @ ''T'' @
        pad_dec 2 (sod div 3600) @ '':'' @ pad_dec 2 (sod mod 3600 div 60) @ '':'' @
        pad_dec 2 (sod mod 60) @ nano_fraction ns @ ''Z'')"

subsection \<open>Signatures\<close>

record Signature =
  sg_Algorithm :: string
  sg_PublicKeyID :: string
  sg_Value :: string
  sg_PDFSHA256 :: string
  sg_SignedAt :: gotime

record Signer =
  sn_priv :: bytes
  sn_publicKeyID :: string
  sn_ephemeral :: bool
  sn_verifyKeys :: "string \<rightharpoonup> bytes"

datatype parsed_key = Ed25519Key bytes | OtherKey string

datatype sign_error =
    NotPEM
  | BadKey string
  | WrongKeyType string
  | UnsupportedAlgorithm string
  | DigestMismatch
  | NotBase64
  | DoesNotVerify

definition keyID :: "crypto \<Rightarrow> bytes \<Rightarrow> string" where
  "keyID C pub = hexEncode (cr_sha256 C pub)"

definition signedMessage :: "string \<Rightarrow> gotime \<Rightarrow> bytes" where
  "signedMessage hexDigest signedAt = hexDigest @ ''|'' @ rfc3339nano signedAt"

text \<open>
  The configured key (none: a generated one) and the blocks of the retired keys, in order; a
  block that does not parse or is not an Ed25519 key ends construction with an error.
\<close>

fun add_retired ::
    "crypto \<Rightarrow> (string + parsed_key) list \<Rightarrow> (string \<rightharpoonup> bytes) \<Rightarrow> sign_error + (string \<rightharpoonup> bytes)" where
  "add_retired C [] keys = Inr keys"
| "add_retired C (b # bs) keys =
     (case b of
        Inl e \<Rightarrow> Inl (BadKey e)
      | Inr (OtherKey ty) \<Rightarrow> Inl (WrongKeyType ty)
      | Inr (Ed25519Key pub) \<Rightarrow> add_retired C bs (keys(keyID C pub \<mapsto> pub)))"

definition NewSignerWithVerificationKeys ::
    "crypto \<Rightarrow> bytes \<Rightarrow> (string + parsed_key) option option \<Rightarrow> (string + parsed_key) list \<Rightarrow> sign_error + Signer" where
  "NewSignerWithVerificationKeys C generated keyPEM verifyKeysPEM =
     (let key = (case keyPEM of
            None \<Rightarrow> Inr (generated, True)
          | Some None \<Rightarrow> Inl NotPEM
          | Some (Some (Inl e)) \<Rightarrow> Inl (BadKey e)
          | Some (Some (Inr (OtherKey ty))) \<Rightarrow> Inl (WrongKeyType ty)
          | Some (Some (Inr (Ed25519Key priv))) \<Rightarrow> Inr (priv, False))
      in case key of
           Inl e \<Rightarrow> Inl e
         | Inr (priv, ephemeral) \<Rightarrow>
             (let pub = cr_Public C priv in
              case add_retired C verifyKeysPEM [keyID C pub \<mapsto> pub] of
                Inl e \<Rightarrow> Inl e
              | Inr keys \<Rightarrow> Inr \<lparr>sn_priv = priv, sn_publicKeyID = keyID C pub, sn_ephemeral = ephemeral,
                                 sn_verifyKeys = keys\<rparr>))"

definition VerificationKey :: "Signer \<Rightarrow> string \<Rightarrow> bytes option" where
  "VerificationKey s i = sn_verifyKeys s i"

definition Sign :: "crypto \<Rightarrow> Signer \<Rightarrow> bytes \<Rightarrow> gotime \<Rightarrow> Signature" where
  "Sign C s pdf signedAt =
     (let hexDigest = hexEncode (cr_sha256 C pdf);
          sig = cr_Sign C (sn_priv s) (signedMessage hexDigest signedAt)
      in \<lparr>sg_Algorithm = ''ed25519'', sg_PublicKeyID = sn_publicKeyID s, sg_Value = b64_encode sig,
          sg_PDFSHA256 = hexDigest, sg_SignedAt = signedAt\<rparr>)"

definition Verify :: "crypto \<Rightarrow> bytes \<Rightarrow> bytes \<Rightarrow> Signature \<Rightarrow> sign_error option" where
  "Verify C pub pdf sig =
     (if sg_Algorithm sig \<noteq> ''ed25519'' then Some (UnsupportedAlgorithm (sg_Algorithm sig))
      else
        (let hexDigest = hexEncode (cr_sha256 C pdf) in
         if hexDigest \<noteq> sg_PDFSHA256 sig then Some DigestMismatch
         else
           (case b64_decode (sg_Value sig) of
              None \<Rightarrow> Some NotBase64
            | Some raw \<Rightarrow>
                if \<not> cr_Verify C pub (signedMessage hexDigest (sg_SignedAt sig)) raw then Some DoesNotVerify
                else None)))"

subsection \<open>The independent verifier\<close>

text \<open>
  A file is \<open>None\<close> when it cannot be read. \<open>json.Unmarshal\<close> into the wrapped and into the bare
  form, and the PEM blocks of the key file, are parameters. The result is the exit code.
\<close>

definition parseSignature ::
    "(bytes \<Rightarrow> string + Signature option) \<Rightarrow> (bytes \<Rightarrow> string + Signature) \<Rightarrow> bytes \<Rightarrow> string + Signature" where
  "parseSignature unmarshal_env unmarshal_bare raw =
     (case unmarshal_env raw of
        Inr (Some sig) \<Rightarrow> Inr sig
      | _ \<Rightarrow> unmarshal_bare raw)"

definition parsePublicKey :: "(string + parsed_key) list \<Rightarrow> sign_error + bytes" where
  "parsePublicKey blocks =
     (case blocks of
        [] \<Rightarrow> Inl NotPEM
      | Inl e # _ \<Rightarrow> Inl (BadKey e)
      | Inr (OtherKey ty) # _ \<Rightarrow> Inl (WrongKeyType ty)
      | Inr (Ed25519Key pub) # _ \<Rightarrow> Inr pub)"

definition cli_verify :: "crypto \<Rightarrow> bytes \<Rightarrow> bytes \<Rightarrow> Signature \<Rightarrow> sign_error option" where
  "cli_verify C pub pdf sig =
     (if sg_Algorithm sig \<noteq> ''ed25519'' then Some (UnsupportedAlgorithm (sg_Algorithm sig))
      else
        (let hexDigest = hexEncode (cr_sha256 C pdf) in
         if hexDigest \<noteq> sg_PDFSHA256 sig then Some DigestMismatch
         else
           (case b64_decode (sg_Value sig) of
              None \<Rightarrow> Some NotBase64
            | Some raw \<Rightarrow>
                (let msg = hexDigest @ ''|'' @ rfc3339nano (sg_SignedAt sig) in
                 if \<not> cr_Verify C pub msg raw then Some DoesNotVerify else None))))"

definition cli_keyID :: "crypto \<Rightarrow> bytes \<Rightarrow> string" where
  "cli_keyID C pub = hexEncode (cr_sha256 C pub)"

definition dokaz_verify_main ::
    "crypto \<Rightarrow> (bytes \<Rightarrow> string + Signature option) \<Rightarrow> (bytes \<Rightarrow> string + Signature) \<Rightarrow>
      bytes option \<Rightarrow> bytes option \<Rightarrow> (string + parsed_key) list option \<Rightarrow> nat" where
  "dokaz_verify_main C unmarshal_env unmarshal_bare pdfFile sigFile pubFile =
     (case pdfFile of None \<Rightarrow> 2 | Some pdf \<Rightarrow>
      (case sigFile of None \<Rightarrow> 2 | Some sigRaw \<Rightarrow>
      (case pubFile of None \<Rightarrow> 2 | Some blocks \<Rightarrow>
      (case parseSignature unmarshal_env unmarshal_bare sigRaw of Inl _ \<Rightarrow> 2 | Inr sig \<Rightarrow>
      (case parsePublicKey blocks of Inl _ \<Rightarrow> 2 | Inr pub \<Rightarrow>
         if cli_keyID C pub \<noteq> sg_PublicKeyID sig then 1
         else (case cli_verify C pub pdf sig of Some _ \<Rightarrow> 1 | None \<Rightarrow> 0))))))"

section \<open>Round trips\<close>

lemma b64_val_char: "n < 64 \<Longrightarrow> b64_val (b64_char n) = Some n"
  by (auto simp: b64_val_def b64_char_def Let_def)

lemma b64_char_plain: "n < 64 \<Longrightarrow> b64_char n \<noteq> CHR ''='' \<and> b64_char n \<noteq> CHR 0x0A \<and> b64_char n \<noteq> CHR 0x0D"
  using b64_val_char [of n] by (auto simp: b64_val_def)

lemma split_byte: "(c :: nat) < d \<Longrightarrow> (a * d + c) div d = a" "(c :: nat) < d \<Longrightarrow> (a * d + c) mod d = c"
  by simp_all

lemma b64_low: "(n :: nat) mod 4 * 16 < 64" "(m :: nat) mod 16 * 4 < 64" "(k :: nat) mod 64 < 64"
  using mod_less_divisor [of 4 n] mod_less_divisor [of 16 m] by simp_all

lemma b64_mid:
  assumes "(m :: nat) < 256" "(k :: nat) < 256"
  shows "n mod 4 * 16 + m div 16 < 64" "m mod 16 * 4 + k div 64 < 64" "m div 4 < 64" "m div 16 < 16" "k div 64 < 4"
proof -
  have "m div 16 < 16" "k div 64 < 4" "m div 4 < 64"
    using assms by (simp_all add: less_mult_imp_div_less)
  moreover have "n mod 4 < 4" "m mod 16 < 16" by simp_all
  ultimately show "n mod 4 * 16 + m div 16 < 64" "m mod 16 * 4 + k div 64 < 64" "m div 4 < 64"
    "m div 16 < 16" "k div 64 < 4"
    by linarith+
qed

lemma b64_join:
  assumes "(m :: nat) < 256" "(k :: nat) < 256"
  shows "n div 4 * 4 + (n mod 4 * 16) div 16 = n"
    "n div 4 * 4 + (n mod 4 * 16 + m div 16) div 16 = n"
    "(n mod 4 * 16 + m div 16) mod 16 * 16 + (m mod 16 * 4) div 4 = m"
    "(n mod 4 * 16 + m div 16) mod 16 * 16 + (m mod 16 * 4 + k div 64) div 4 = m"
    "(m mod 16 * 4 + k div 64) mod 4 * 64 + k mod 64 = k"
  using b64_mid [OF assms] by (simp_all only: split_byte nonzero_mult_div_cancel_right div_mult_mod_eq)

lemmas b64_bytes = b64_low b64_mid [OF of_char_less_256 of_char_less_256]
lemmas b64_bytes_join = b64_join [OF of_char_less_256 of_char_less_256]

lemma b64_encode_plain: "c \<in> set (b64_encode b) \<Longrightarrow> c \<noteq> CHR 0x0A \<and> c \<noteq> CHR 0x0D"
  by (induction b rule: b64_encode.induct)
    (auto simp: Let_def b64_char_plain [OF b64_bytes(1)] b64_char_plain [OF b64_bytes(2)]
      b64_char_plain [OF b64_bytes(3)] b64_char_plain [OF b64_bytes(4)] b64_char_plain [OF b64_bytes(5)]
      b64_char_plain [OF b64_bytes(6)])

lemma b64_groups_encode: "b64_groups (b64_encode b) = Some b"
proof (induction b rule: b64_encode.induct)
  case (4 a b c r)
  then show ?case
    by (simp add: Let_def b64_val_char b64_char_plain b64_quad_def b64_bytes b64_bytes_join)
qed (simp_all add: Let_def b64_val_char b64_char_plain b64_bytes b64_bytes_join)

lemma b64_roundtrip: "b64_decode (b64_encode b) = Some b"
proof -
  have "filter (\<lambda>c. c \<noteq> CHR 0x0A \<and> c \<noteq> CHR 0x0D) (b64_encode b) = b64_encode b"
    by (rule filter_True) (use b64_encode_plain in blast)
  then show ?thesis by (simp add: b64_decode_def b64_groups_encode)
qed

lemma Verify_Sign: "crypto_ok C \<Longrightarrow> Verify C (cr_Public C (sn_priv s)) pdf (Sign C s pdf t) = None"
  by (simp add: Verify_def Sign_def Let_def b64_roundtrip crypto_ok_def)

lemma cli_verify_eq: "cli_verify C pub pdf sig = Verify C pub pdf sig"
  by (simp add: cli_verify_def Verify_def signedMessage_def Let_def cong: option.case_cong)

definition filed :: "crypto \<Rightarrow> bytes set \<Rightarrow> (string \<rightharpoonup> bytes) \<Rightarrow> bool" where
  "filed C P keys \<longleftrightarrow> (\<forall>i pub. keys i = Some pub \<longrightarrow> i = keyID C pub \<and> pub \<in> P)"

lemma filed_upd: "filed C P keys \<Longrightarrow> pub \<in> P \<Longrightarrow> filed C P (keys(keyID C pub \<mapsto> pub))"
  by (simp add: filed_def)

lemma add_retired_filed:
  assumes "add_retired C bs keys = Inr keys'" and "filed C P keys"
    and "\<And>pub. Inr (Ed25519Key pub) \<in> set bs \<Longrightarrow> pub \<in> P"
  shows "filed C P keys'"
  using assms
proof (induction C bs keys rule: add_retired.induct)
  case (2 C b bs keys)
  then obtain pub where b: "b = Inr (Ed25519Key pub)" by (auto split: sum.splits parsed_key.splits)
  have r: "add_retired C bs (keys(keyID C pub \<mapsto> pub)) = Inr keys'" using 2(2) b by simp
  have "filed C P (keys(keyID C pub \<mapsto> pub))" by (rule filed_upd [OF 2(3) 2(4)]) (simp add: b)
  then show ?case by (rule 2(1) [OF b refl r]) (simp add: 2(4))
qed simp

lemma add_retired_dom:
  assumes "add_retired C bs keys = Inr keys'"
  shows "dom keys \<subseteq> dom keys' \<and> (\<forall>pub. Inr (Ed25519Key pub) \<in> set bs \<longrightarrow> keyID C pub \<in> dom keys')"
  using assms
proof (induction C bs keys rule: add_retired.induct)
  case (2 C b bs keys)
  then obtain pub where b: "b = Inr (Ed25519Key pub)" by (auto split: sum.splits parsed_key.splits)
  have "add_retired C bs (keys(keyID C pub \<mapsto> pub)) = Inr keys'" using 2(2) b by simp
  from 2(1) [OF b refl this] b show ?case by (simp add: subset_iff dom_def)
qed simp

text \<open>
  What a signer accepts. After construction from a key and the blocks of retired keys, every
  registered key is filed under its own fingerprint and the active key and each of the retired
  keys have an entry; under SHA-256 without a collision between those keys the entry is the key
  itself, so a signature made before a rotation is checked with the key that made it and
  verifies, and so does one made by the active key.
\<close>

theorem rotation_keeps_verifying:
  assumes "crypto_ok C"
    and "NewSignerWithVerificationKeys C gen key blocks = Inr s"
    and "Inr (Ed25519Key (cr_Public C (sn_priv old))) \<in> set blocks"
    and "sn_publicKeyID old = keyID C (cr_Public C (sn_priv old))"
    and "inj_on (cr_sha256 C) (insert (cr_Public C (sn_priv s)) {pub. Inr (Ed25519Key pub) \<in> set blocks})"
  shows "(\<forall>i pub. VerificationKey s i = Some pub \<longrightarrow> i = keyID C pub) \<and>
    (\<exists>pub. VerificationKey s (sg_PublicKeyID (Sign C old pdf t)) = Some pub \<and>
       Verify C pub pdf (Sign C old pdf t) = None) \<and>
    (\<exists>pub. VerificationKey s (sg_PublicKeyID (Sign C s pdf t)) = Some pub \<and>
       Verify C pub pdf (Sign C s pdf t) = None)"
proof -
  let ?P = "insert (cr_Public C (sn_priv s)) {pub. Inr (Ed25519Key pub) \<in> set blocks}"
  have inj: "a = b" if "keyID C a = keyID C b" "a \<in> ?P" "b \<in> ?P" for a b
  proof -
    have "cr_sha256 C a = cr_sha256 C b" using that(1) by (auto simp: keyID_def dest: hexEncode_inj)
    from inj_onD [OF assms(5) this that(2,3)] show ?thesis .
  qed
  obtain priv where s: "sn_priv s = priv" "sn_publicKeyID s = keyID C (cr_Public C priv)"
    and keys: "add_retired C blocks [keyID C (cr_Public C priv) \<mapsto> cr_Public C priv] = Inr (sn_verifyKeys s)"
    using assms(2) by (auto simp: NewSignerWithVerificationKeys_def Let_def split: option.splits sum.splits
        parsed_key.splits prod.splits)
  have all: "filed C ?P (sn_verifyKeys s)"
    by (rule add_retired_filed [OF keys]) (auto simp: filed_def s)
  have act: "keyID C (cr_Public C (sn_priv s)) \<in> dom (sn_verifyKeys s)"
    and ret: "keyID C (cr_Public C (sn_priv old)) \<in> dom (sn_verifyKeys s)"
    using add_retired_dom [OF keys] assms(3) s by auto
  have find: "VerificationKey s (keyID C pub) = Some pub" if d: "keyID C pub \<in> dom (sn_verifyKeys s)" and m: "pub \<in> ?P" for pub
  proof -
    obtain q where "sn_verifyKeys s (keyID C pub) = Some q" using d by blast
    moreover from this have "keyID C pub = keyID C q" "q \<in> ?P" using all by (auto simp: filed_def)
    ultimately show ?thesis using inj [OF _ m] by (simp add: VerificationKey_def)
  qed
  have old: "VerificationKey s (keyID C (cr_Public C (sn_priv old))) = Some (cr_Public C (sn_priv old))"
    using find [OF ret] assms(3) by simp
  have cur: "VerificationKey s (keyID C (cr_Public C (sn_priv s))) = Some (cr_Public C (sn_priv s))"
    using find [OF act] by simp
  have ids: "sg_PublicKeyID (Sign C old pdf t) = keyID C (cr_Public C (sn_priv old))"
    "sg_PublicKeyID (Sign C s pdf t) = keyID C (cr_Public C (sn_priv s))"
    using s assms(4) by (simp_all add: Sign_def Let_def)
  have "\<forall>i pub. VerificationKey s i = Some pub \<longrightarrow> i = keyID C pub"
    using all by (simp add: VerificationKey_def filed_def)
  then show ?thesis
    unfolding ids using old cur Verify_Sign [OF assms(1)] by blast
qed

definition toy_crypto :: crypto where
  "toy_crypto = \<lparr>cr_sha256 = id, cr_Public = id, cr_Sign = (\<lambda>k m. k @ m), cr_Verify = (\<lambda>p m s. s = p @ m)\<rparr>"

lemma toy_crypto_ok: "crypto_ok toy_crypto"
  by (simp add: crypto_ok_def toy_crypto_def)

definition toy_signer :: "bytes \<Rightarrow> Signer" where
  "toy_signer k = \<lparr>sn_priv = k, sn_publicKeyID = keyID toy_crypto k, sn_ephemeral = False,
     sn_verifyKeys = [keyID toy_crypto k \<mapsto> k]\<rparr>"

theorem rotation_keeps_verifying_witness:
  "\<exists>s pub. NewSignerWithVerificationKeys toy_crypto [] (Some (Some (Inr (Ed25519Key ''new'')))) [Inr (Ed25519Key ''old'')] = Inr s \<and>
     VerificationKey s (sg_PublicKeyID (Sign toy_crypto (toy_signer ''old'') ''pdf'' 0)) = Some pub \<and>
     Verify toy_crypto pub ''pdf'' (Sign toy_crypto (toy_signer ''old'') ''pdf'' 0) = None"
proof -
  obtain s where s: "NewSignerWithVerificationKeys toy_crypto [] (Some (Some (Inr (Ed25519Key ''new''))))
      [Inr (Ed25519Key ''old'')] = Inr s"
    by (simp add: NewSignerWithVerificationKeys_def Let_def)
  show ?thesis
    using rotation_keeps_verifying [OF toy_crypto_ok s, of "toy_signer ''old''" "''pdf''" 0] s
    by (auto simp: toy_crypto_def toy_signer_def)
qed

text \<open>
  C24. The independent verifier agrees with \<open>evidence.Verify\<close>. With a key file of exactly one block, an Ed25519 public key, and a
  signature it can parse, it exits with 0 exactly when the key's fingerprint is the one the signature names and
  \<open>evidence.Verify\<close> accepts the file under that key, and with 1 exactly when one of these fails. Two files accepted with the same signature
  have the same SHA-256 digest. (For key files of several blocks see \<open>published_keys_reject_retired\<close>.)
\<close>

theorem verifier_agrees:
  assumes "parseSignature ue ub sigRaw = Inr sig"
  shows "(dokaz_verify_main C ue ub (Some pdf) (Some sigRaw) (Some [Inr (Ed25519Key pub)]) = 0 \<longleftrightarrow>
      keyID C pub = sg_PublicKeyID sig \<and> Verify C pub pdf sig = None) \<and>
    (dokaz_verify_main C ue ub (Some pdf) (Some sigRaw) (Some [Inr (Ed25519Key pub)]) = 1 \<longleftrightarrow>
      keyID C pub \<noteq> sg_PublicKeyID sig \<or> Verify C pub pdf sig \<noteq> None) \<and>
    (Verify C pub pdf sig = None \<and> Verify C pub' pdf' sig = None \<longrightarrow> cr_sha256 C pdf = cr_sha256 C pdf')"
proof -
  have "Verify C pub pdf sig = None \<Longrightarrow> hexEncode (cr_sha256 C pdf) = sg_PDFSHA256 sig" for pub pdf
    by (auto simp: Verify_def Let_def split: if_splits)
  then have "Verify C pub pdf sig = None \<and> Verify C pub' pdf' sig = None \<longrightarrow> cr_sha256 C pdf = cr_sha256 C pdf'"
    by (metis hexEncode_inj)
  then show ?thesis
    using assms
    by (auto simp: dokaz_verify_main_def parsePublicKey_def cli_verify_eq cli_keyID_def keyID_def split: option.splits)
qed

theorem verifier_agrees_witness:
  "dokaz_verify_main toy_crypto (\<lambda>_. Inl ''not wrapped'') (\<lambda>_. Inr (Sign toy_crypto (toy_signer ''k'') ''pdf'' 0))
     (Some ''pdf'') (Some ''{}'') (Some [Inr (Ed25519Key ''k'')]) = 0"
proof -
  have v: "Verify toy_crypto ''k'' ''pdf'' (Sign toy_crypto (toy_signer ''k'') ''pdf'' 0) = None"
    using Verify_Sign [OF toy_crypto_ok, of "toy_signer ''k''" "''pdf''" 0] by (simp add: toy_signer_def toy_crypto_def)
  show ?thesis
    using verifier_agrees [of "\<lambda>_. Inl ''not wrapped''" "\<lambda>_. Inr (Sign toy_crypto (toy_signer ''k'') ''pdf'' 0)" "''{}''"
        "Sign toy_crypto (toy_signer ''k'') ''pdf'' 0" toy_crypto "''pdf''" "''k''" "''k''" "''pdf''"] v
    by (simp add: parseSignature_def Sign_def toy_signer_def Let_def)
qed

text \<open>
  The published key document does not serve as the verifier's key file. It lists the active
  key before the retired ones, and the verifier reads only the first block: a valid signature
  of a retired key, checked against that document, is reported invalid (exit 1).
\<close>

theorem published_keys_reject_retired:
  assumes "parseSignature ue ub sigRaw = Inr sig" and "keyID C active \<noteq> sg_PublicKeyID sig"
  shows "dokaz_verify_main C ue ub (Some pdf) (Some sigRaw) (Some (Inr (Ed25519Key active) # retired)) = 1"
  using assms by (simp add: dokaz_verify_main_def parsePublicKey_def cli_keyID_def keyID_def)

theorem published_keys_reject_retired_witness:
  "dokaz_verify_main toy_crypto (\<lambda>_. Inl ''not wrapped'') (\<lambda>_. Inr (Sign toy_crypto (toy_signer ''old'') ''pdf'' 0))
     (Some ''pdf'') (Some ''{}'') (Some [Inr (Ed25519Key ''new''), Inr (Ed25519Key ''old'')]) = 1"
proof -
  have "keyID toy_crypto ''new'' \<noteq> sg_PublicKeyID (Sign toy_crypto (toy_signer ''old'') ''pdf'' 0)"
    by (auto simp: Sign_def toy_signer_def Let_def keyID_def toy_crypto_def dest!: hexEncode_inj)
  then show ?thesis
    using published_keys_reject_retired [of "\<lambda>_. Inl ''not wrapped''"
        "\<lambda>_. Inr (Sign toy_crypto (toy_signer ''old'') ''pdf'' 0)" "''{}''"
        "Sign toy_crypto (toy_signer ''old'') ''pdf'' 0" toy_crypto "''new''" "''pdf''" "[Inr (Ed25519Key ''old'')]"]
    by (simp add: parseSignature_def)
qed

end
