(* ===== verification/Evidence_Service.thy ===== *)
theory Evidence_Service
  imports Evidence_Sign Faults
begin

section \<open>Storing evidence\<close>

text \<open>
  \<open>internal/evidence/cipher.go\<close>, \<open>store.go\<close> and \<open>service.go\<close>: envelope encryption under a key per
  account, the two object stores, and the service the report worker and the handlers call. The
  operations that reach the database or a store are procedures of theory \<open>Faults\<close> on the record
  \<open>estate\<close>: the store, the tables \<open>account_evidence_keys\<close> and \<open>evidence_signatures\<close>, and the state of
  the random source. Parameters, in the record \<open>evlib\<close>: SHA-256 and Ed25519 (\<open>crypto\<close>), AES-GCM,
  the random source, and the bytes and the text of an identifier.
\<close>

record evlib =
  el_crypto :: crypto
  el_Seal :: "bytes \<Rightarrow> bytes \<Rightarrow> bytes \<Rightarrow> bytes \<Rightarrow> bytes"
  el_Open :: "bytes \<Rightarrow> bytes \<Rightarrow> bytes \<Rightarrow> bytes \<Rightarrow> bytes option"
  el_rand :: "nat \<Rightarrow> nat \<Rightarrow> bytes"
  el_idBytes :: "uuid \<Rightarrow> bytes"
  el_uuid :: "uuid \<Rightarrow> string"

text \<open>
  AES-GCM opens what it sealed under the same key, nonce and additional data; the random source
  delivers as many bytes as asked for.
\<close>

definition evlib_ok :: "evlib \<Rightarrow> bool" where
  "evlib_ok L \<longleftrightarrow> crypto_ok (el_crypto L) \<and>
     (\<forall>k n p a. el_Open L k n (el_Seal L k n p a) a = Some p) \<and> (\<forall>s n. length (el_rand L s n) = n)"

text \<open>
  Authentication, idealised: what was sealed opens under no other key and for no other additional
  data. For AES-GCM this holds up to forgeries, which the scheme makes infeasible to find.
\<close>

definition aead_separates :: "evlib \<Rightarrow> bool" where
  "aead_separates L \<longleftrightarrow>
     (\<forall>k n p a k' a' p'. el_Open L k' n (el_Seal L k n p a) a' = Some p' \<longrightarrow> k' = k \<and> a' = a)"

subsection \<open>Object stores\<close>

record 's Store =
  st_Put :: "string \<Rightarrow> bytes \<Rightarrow> 's \<Rightarrow> (string + string) \<times> 's"
  st_ReadAll :: "string \<Rightarrow> 's \<Rightarrow> string + bytes"
  st_Delete :: "string \<Rightarrow> 's \<Rightarrow> (string + unit) \<times> 's"

text \<open>\<open>dk_fail\<close> is the error of every write while the disk refuses them; \<open>dir\<close> is a clean path.\<close>

record disk =
  dk_files :: "(string \<times> bytes) list"
  dk_fail :: "string option"

definition put_file :: "string \<Rightarrow> bytes \<Rightarrow> disk \<Rightarrow> disk" where
  "put_file p c d = d\<lparr>dk_files := (p, c) # filter (\<lambda>f. fst f \<noteq> p) (dk_files d)\<rparr>"

definition local_path :: "string \<Rightarrow> string \<Rightarrow> string" where
  "local_path dir drillID = (if dir = [] then [] else dir @ ''/'') @ drillID @ ''.pdf''"

definition LocalStore_Put :: "string \<Rightarrow> string \<Rightarrow> bytes \<Rightarrow> disk \<Rightarrow> (string + string) \<times> disk" where
  "LocalStore_Put dir drillID content d =
     (case dk_fail d of
        Some e \<Rightarrow> (Inl (''write evidence: '' @ e), d)
      | None \<Rightarrow> (Inr (local_path dir drillID), put_file (local_path dir drillID) content d))"

definition LocalStore_ReadAll :: "string \<Rightarrow> disk \<Rightarrow> string + bytes" where
  "LocalStore_ReadAll key d =
     (case map_of (dk_files d) key of None \<Rightarrow> Inl ''no such file or directory'' | Some c \<Rightarrow> Inr c)"

definition LocalStore_Delete :: "string \<Rightarrow> disk \<Rightarrow> (string + unit) \<times> disk" where
  "LocalStore_Delete key d =
     (if map_of (dk_files d) key = None then (Inr (), d)
      else case dk_fail d of
        Some e \<Rightarrow> (Inl e, d)
      | None \<Rightarrow> (Inr (), d\<lparr>dk_files := filter (\<lambda>f. fst f \<noteq> key) (dk_files d)\<rparr>))"

definition LocalStore :: "string \<Rightarrow> disk Store" where
  "LocalStore dir = \<lparr>st_Put = LocalStore_Put dir, st_ReadAll = LocalStore_ReadAll, st_Delete = LocalStore_Delete\<rparr>"

text \<open>
  The S3 store talks to a bucket, a parameter that answers requests on the object's URL: a
  status and a body, or a transport error. Request signing does not change what is sent.
\<close>

datatype s3_request = PutObject string bytes | GetObject string | DeleteObject string

datatype s3_reply = S3Reply nat bytes | S3NoReply string

type_synonym 's s3_server = "s3_request \<Rightarrow> 's \<Rightarrow> s3_reply \<times> 's"

record s3_config =
  s3_endpoint :: string
  s3_bucket :: string

definition objectURL :: "s3_config \<Rightarrow> string \<Rightarrow> string" where
  "objectURL c key = s3_endpoint c @ ''/'' @ s3_bucket c @ ''/'' @ key"

definition s3_limit :: nat where
  "s3_limit = 8 * 1024 * 1024"

definition s3_do :: "'s s3_server \<Rightarrow> s3_request \<Rightarrow> 's \<Rightarrow> (string + bytes) \<times> 's" where
  "s3_do srv req s =
     (case srv req s of
        (S3NoReply e, s') \<Rightarrow> (Inl (''evidence s3: '' @ e), s')
      | (S3Reply status content, s') \<Rightarrow>
          (let body = take s3_limit content in
           if status = 404 then (Inr [], s')
           else if status \<ge> 400 then (Inl (''evidence s3: status: '' @ take 300 body), s')
           else (Inr body, s')))"

definition S3Store_Put :: "'s s3_server \<Rightarrow> s3_config \<Rightarrow> string \<Rightarrow> bytes \<Rightarrow> 's \<Rightarrow> (string + string) \<times> 's" where
  "S3Store_Put srv c drillID content s =
     (let key = drillID @ ''.pdf'' in
      case s3_do srv (PutObject (objectURL c key) content) s of
        (Inl e, s') \<Rightarrow> (Inl e, s')
      | (Inr _, s') \<Rightarrow> (Inr key, s'))"

definition S3Store_ReadAll :: "'s s3_server \<Rightarrow> s3_config \<Rightarrow> string \<Rightarrow> 's \<Rightarrow> string + bytes" where
  "S3Store_ReadAll srv c key s = fst (s3_do srv (GetObject (objectURL c key)) s)"

definition S3Store_Delete :: "'s s3_server \<Rightarrow> s3_config \<Rightarrow> string \<Rightarrow> 's \<Rightarrow> (string + unit) \<times> 's" where
  "S3Store_Delete srv c key s =
     (case s3_do srv (DeleteObject (objectURL c key)) s of
        (Inl e, s') \<Rightarrow> (Inl e, s')
      | (Inr _, s') \<Rightarrow> (Inr (), s'))"

definition S3Store :: "'s s3_server \<Rightarrow> s3_config \<Rightarrow> 's Store" where
  "S3Store srv c = \<lparr>st_Put = S3Store_Put srv c, st_ReadAll = S3Store_ReadAll srv c, st_Delete = S3Store_Delete srv c\<rparr>"

subsection \<open>State of the service\<close>

record SigRow = Signature +
  sr_RetainUntil :: gotime

record 's estate =
  es_store :: 's
  es_keys :: "(uuid \<times> bytes) list"
  es_sigs :: "(uuid \<times> SigRow) list"
  es_seed :: nat

definition key_row :: "uuid \<Rightarrow> 's estate \<Rightarrow> bytes option" where
  "key_row acc e = map_of (es_keys e) acc"

definition set_key :: "uuid \<Rightarrow> bytes \<Rightarrow> (uuid \<times> bytes) list \<Rightarrow> (uuid \<times> bytes) list" where
  "set_key acc w rows = sql_update (\<lambda>r. fst r = acc) (\<lambda>r. (fst r, w)) rows"

record Cipher =
  ci_active :: bytes
  ci_retired :: "bytes list"
  ci_ephemeral :: bool

record 's Service =
  sv_lib :: evlib
  sv_store :: "'s Store"
  sv_signer :: Signer
  sv_cipher :: Cipher
  sv_retention :: duration

definition DefaultRetention :: duration where
  "DefaultRetention = 7 * 365 * 24 * nsHour"

subsection \<open>Envelope encryption\<close>

definition NonceSize :: nat where
  "NonceSize = 12"

definition newAEAD :: "bytes \<Rightarrow> string + bytes" where
  "newAEAD key = (if length key \<in> {16, 24, 32} then Inr key else Inl ''crypto/aes: invalid key size'')"

definition sealAAD :: "evlib \<Rightarrow> bytes \<Rightarrow> bytes \<Rightarrow> bytes \<Rightarrow> bytes \<Rightarrow> bytes" where
  "sealAAD L key nonce plaintext aad = nonce @ el_Seal L key nonce plaintext aad"

definition openAAD :: "evlib \<Rightarrow> bytes \<Rightarrow> bytes \<Rightarrow> bytes \<Rightarrow> string + bytes" where
  "openAAD L key blob aad =
     (if length blob < NonceSize then Inl ''evidence: ciphertext too short''
      else
        (case el_Open L key (take NonceSize blob) (drop NonceSize blob) aad of
           None \<Rightarrow> Inl ''cipher: message authentication failed''
         | Some p \<Rightarrow> Inr p))"

text \<open>
  A configured master key is Base64 of 32 bytes; an empty one is generated. Empty retired
  entries are skipped, the first bad one is an error.
\<close>

definition loadMasterKey :: "bytes \<Rightarrow> string \<Rightarrow> string \<Rightarrow> string + bytes \<times> bool" where
  "loadMasterKey generated b64 name =
     (if b64 = [] then (case newAEAD generated of Inl e \<Rightarrow> Inl e | Inr k \<Rightarrow> Inr (k, True))
      else
        (case b64_decode b64 of
           None \<Rightarrow> Inl (''evidence: '' @ name @ '' is not valid base64'')
         | Some k \<Rightarrow>
             if length k \<noteq> 32 then Inl (''evidence: '' @ name @ '' must decode to 32 bytes'')
             else (case newAEAD k of Inl e \<Rightarrow> Inl e | Inr k' \<Rightarrow> Inr (k', False))))"

fun load_retired :: "string list \<Rightarrow> string + bytes list" where
  "load_retired [] = Inr []"
| "load_retired (b # bs) =
     (if b = [] then load_retired bs
      else
        (case loadMasterKey [] b ''EVIDENCE_ENCRYPTION_KEYS_RETIRED'' of
           Inl e \<Rightarrow> Inl e
         | Inr (k, _) \<Rightarrow> (case load_retired bs of Inl e \<Rightarrow> Inl e | Inr ks \<Rightarrow> Inr (k # ks))))"

definition NewCipher :: "bytes \<Rightarrow> string \<Rightarrow> string list \<Rightarrow> string + Cipher" where
  "NewCipher generated activeKeyB64 retiredKeysB64 =
     (case loadMasterKey generated activeKeyB64 ''EVIDENCE_ENCRYPTION_KEY'' of
        Inl e \<Rightarrow> Inl e
      | Inr (active, ephemeral) \<Rightarrow>
          (case load_retired retiredKeysB64 of
             Inl e \<Rightarrow> Inl e
           | Inr retired \<Rightarrow> Inr \<lparr>ci_active = active, ci_retired = retired, ci_ephemeral = ephemeral\<rparr>))"

definition draw :: "'s Service \<Rightarrow> nat \<Rightarrow> ('s estate, bytes) proc" where
  "draw S n =
     bindM (getM (\<lambda>e. el_rand (sv_lib S) (es_seed e) n)) (\<lambda>b.
     thenM (modM (\<lambda>e. e\<lparr>es_seed := es_seed e + 1\<rparr>)) (ret b))"

definition no_rows :: string where
  "no_rows = ''no rows in result set''"

definition ErrShredded :: string where
  "ErrShredded = ''evidence: encryption key destroyed (crypto-shredded)''"

text \<open>\<open>pgx.ErrNoRows\<close> is the absent row, any other error an error of the call.\<close>

definition loadWrappedDEK :: "uuid \<Rightarrow> ('s estate, bytes option) proc" where
  "loadWrappedDEK acc = call (\<lambda>e. (Inr (key_row acc e), e))"

definition mintDEK :: "'s Service \<Rightarrow> uuid \<Rightarrow> ('s estate, bytes) proc" where
  "mintDEK S acc =
     bindM (draw S 32) (\<lambda>raw.
     bindM (draw S NonceSize) (\<lambda>nonce.
       let wrapped = sealAAD (sv_lib S) (ci_active (sv_cipher S)) nonce raw (el_idBytes (sv_lib S) acc) in
       thenM (call (\<lambda>e. (Inr (), if key_row acc e = None then e\<lparr>es_keys := es_keys e @ [(acc, wrapped)]\<rparr> else e)))
      (bindM (loadWrappedDEK acc) (\<lambda>w. case w of None \<Rightarrow> errM no_rows | Some x \<Rightarrow> ret x))))"

fun open_retired :: "evlib \<Rightarrow> bytes list \<Rightarrow> bytes \<Rightarrow> bytes \<Rightarrow> bytes option" where
  "open_retired L [] wrapped aad = None"
| "open_retired L (r # rs) wrapped aad =
     (case openAAD L r wrapped aad of Inr raw \<Rightarrow> Some raw | Inl _ \<Rightarrow> open_retired L rs wrapped aad)"

definition unwrapDEK :: "'s Service \<Rightarrow> uuid \<Rightarrow> bytes \<Rightarrow> ('s estate, bytes) proc" where
  "unwrapDEK S acc wrapped =
     (let L = sv_lib S; c = sv_cipher S; aad = el_idBytes L acc in
      case openAAD L (ci_active c) wrapped aad of
        Inr raw \<Rightarrow> ret raw
      | Inl activeErr \<Rightarrow>
          (case open_retired L (ci_retired c) wrapped aad of
             None \<Rightarrow> errM (''evidence: unwrap account key: '' @ activeErr)
           | Some raw \<Rightarrow>
               bindM (draw S NonceSize) (\<lambda>nonce.
               thenM (ignoreM (call (\<lambda>e. (Inr (), e\<lparr>es_keys :=
                   set_key acc (sealAAD L (ci_active c) nonce raw aad) (es_keys e)\<rparr>))))
                 (ret raw))))"

definition accountDEK :: "'s Service \<Rightarrow> uuid \<Rightarrow> bool \<Rightarrow> ('s estate, bytes) proc" where
  "accountDEK S acc create =
     bindM (loadWrappedDEK acc) (\<lambda>found.
     bindM (case found of
              Some w \<Rightarrow> ret w
            | None \<Rightarrow> if \<not> create then errM ErrShredded else mintDEK S acc) (\<lambda>wrapped.
     bindM (unwrapDEK S acc wrapped) (\<lambda>raw.
       case newAEAD raw of Inl e \<Rightarrow> errM e | Inr k \<Rightarrow> ret k)))"

definition Encrypt :: "'s Service \<Rightarrow> uuid \<Rightarrow> bytes \<Rightarrow> ('s estate, bytes) proc" where
  "Encrypt S acc plaintext =
     bindM (accountDEK S acc True) (\<lambda>dek.
     bindM (draw S NonceSize) (\<lambda>nonce. ret (sealAAD (sv_lib S) dek nonce plaintext [])))"

definition Decrypt :: "'s Service \<Rightarrow> uuid \<Rightarrow> bytes \<Rightarrow> ('s estate, bytes) proc" where
  "Decrypt S acc blob =
     bindM (accountDEK S acc False) (\<lambda>dek.
       case openAAD (sv_lib S) dek blob [] of Inl e \<Rightarrow> errM e | Inr p \<Rightarrow> ret p)"

definition ShredAccount :: "uuid \<Rightarrow> ('s estate, unit) proc" where
  "ShredAccount acc = call (\<lambda>e. (Inr (), e\<lparr>es_keys := sql_delete (\<lambda>r. fst r = acc) (es_keys e)\<rparr>))"

subsection \<open>Master-key rotation\<close>

datatype key_class = KeyActive | KeyRetired | KeyPoison

definition classify :: "evlib \<Rightarrow> Cipher \<Rightarrow> uuid \<Rightarrow> bytes \<Rightarrow> key_class" where
  "classify L c acc wrapped =
     (case openAAD L (ci_active c) wrapped (el_idBytes L acc) of
        Inr _ \<Rightarrow> KeyActive
      | Inl _ \<Rightarrow>
          (case open_retired L (ci_retired c) wrapped (el_idBytes L acc) of
             Some _ \<Rightarrow> KeyRetired
           | None \<Rightarrow> KeyPoison))"

record KeyAudit =
  ka_Active :: nat
  ka_Retired :: nat
  ka_Poison :: "uuid list"

fun audit_row :: "evlib \<Rightarrow> Cipher \<Rightarrow> KeyAudit \<Rightarrow> uuid \<times> bytes \<Rightarrow> KeyAudit" where
  "audit_row L c a (acc, w) =
     (case classify L c acc w of
        KeyActive \<Rightarrow> a\<lparr>ka_Active := ka_Active a + 1\<rparr>
      | KeyRetired \<Rightarrow> a\<lparr>ka_Retired := ka_Retired a + 1\<rparr>
      | KeyPoison \<Rightarrow> a\<lparr>ka_Poison := ka_Poison a @ [acc]\<rparr>)"

definition Audit :: "'s Service \<Rightarrow> ('s estate, KeyAudit) proc" where
  "Audit S = call (\<lambda>e. (Inr (foldl (audit_row (sv_lib S) (sv_cipher S))
     \<lparr>ka_Active = 0, ka_Retired = 0, ka_Poison = []\<rparr> (es_keys e)), e))"

text \<open>The rows are those the query streams, that is the table when it started.\<close>

fun rewrap_rows :: "'s Service \<Rightarrow> (uuid \<times> bytes) list \<Rightarrow> nat \<Rightarrow> nat \<Rightarrow> ('s estate, nat \<times> nat) proc" where
  "rewrap_rows S [] rewrapped poison = ret (rewrapped, poison)"
| "rewrap_rows S ((acc, w) # rows) rewrapped poison =
     (let L = sv_lib S; c = sv_cipher S; aad = el_idBytes L acc in
      case classify L c acc w of
        KeyActive \<Rightarrow> rewrap_rows S rows rewrapped poison
      | KeyPoison \<Rightarrow> rewrap_rows S rows rewrapped (poison + 1)
      | KeyRetired \<Rightarrow>
          bindM (draw S NonceSize) (\<lambda>nonce.
          thenM (call (\<lambda>e. (Inr (), e\<lparr>es_keys := set_key acc
              (sealAAD L (ci_active c) nonce (coalesce (open_retired L (ci_retired c) w aad) []) aad) (es_keys e)\<rparr>)))
            (rewrap_rows S rows (rewrapped + 1) poison)))"

definition RewrapAll :: "'s Service \<Rightarrow> ('s estate, nat \<times> nat) proc" where
  "RewrapAll S = bindM (call (\<lambda>e. (Inr (es_keys e), e))) (\<lambda>rows. rewrap_rows S rows 0 0)"

fun shred_rows :: "uuid list \<Rightarrow> nat \<Rightarrow> ('s estate, nat) proc" where
  "shred_rows [] deleted = ret deleted"
| "shred_rows (acc # accs) deleted = thenM (ShredAccount acc) (shred_rows accs (deleted + 1))"

definition ShredPoison :: "'s Service \<Rightarrow> ('s estate, nat) proc" where
  "ShredPoison S = bindM (Audit S) (\<lambda>a. shred_rows (ka_Poison a) 0)"

subsection \<open>The service\<close>

text \<open>PostgreSQL keeps an instant to the microsecond.\<close>

definition pg_time :: "gotime \<Rightarrow> gotime" where
  "pg_time t = t - t mod nsMicrosecond"

definition truncate_us :: "gotime \<Rightarrow> gotime" where
  "truncate_us t = t - t mod nsMicrosecond"

definition set_sig :: "uuid \<Rightarrow> SigRow \<Rightarrow> (uuid \<times> SigRow) list \<Rightarrow> (uuid \<times> SigRow) list" where
  "set_sig d r rows =
     (if map_of rows d = None then rows @ [(d, r)] else sql_update (\<lambda>x. fst x = d) (\<lambda>x. (fst x, r)) rows)"

definition put_evidence :: "'s Service \<Rightarrow> uuid \<Rightarrow> bytes \<Rightarrow> ('s estate, string) proc" where
  "put_evidence S drillID blob =
     call (\<lambda>e. case st_Put (sv_store S) (el_uuid (sv_lib S) drillID) blob (es_store e) of
        (x, s) \<Rightarrow> (x, e\<lparr>es_store := s\<rparr>))"

definition sig_row :: "Signature \<Rightarrow> gotime \<Rightarrow> gotime \<Rightarrow> SigRow" where
  "sig_row sig signedAt retainUntil =
     Signature.extend (sig\<lparr>sg_SignedAt := pg_time signedAt\<rparr>) \<lparr>sr_RetainUntil = pg_time retainUntil\<rparr>"

definition upsert_signature :: "uuid \<Rightarrow> SigRow \<Rightarrow> ('s estate, unit) proc" where
  "upsert_signature drillID row = call (\<lambda>e. (Inr (), e\<lparr>es_sigs := set_sig drillID row (es_sigs e)\<rparr>))"

definition Finalize :: "'s Service \<Rightarrow> gotime \<Rightarrow> uuid \<Rightarrow> uuid \<Rightarrow> bytes \<Rightarrow> ('s estate, string) proc" where
  "Finalize S now drillID accountID pdf =
     (let signedAt = truncate_us now;
          sig = Sign (el_crypto (sv_lib S)) (sv_signer S) pdf signedAt;
          retainUntil = signedAt + sv_retention S
      in bindM (tryM (Encrypt S accountID pdf)) (\<lambda>r.
           case r of
             Inl e \<Rightarrow> errM (''encrypt evidence: '' @ e)
           | Inr blob \<Rightarrow>
               bindM (put_evidence S drillID blob) (\<lambda>key.
               bindM (tryM (upsert_signature drillID (sig_row sig signedAt retainUntil))) (\<lambda>w.
                 case w of
                   Inl e \<Rightarrow> errM (''record signature: '' @ e)
                 | Inr _ \<Rightarrow> ret key))))"

definition GetSignature :: "uuid \<Rightarrow> ('s estate, SigRow option) proc" where
  "GetSignature drillID = call (\<lambda>e. (Inr (map_of (es_sigs e) drillID), e))"

datatype verify_reason =
    NoReason
  | UnknownKey
  | Unreadable string
  | Shredded
  | Undecryptable
  | Invalid sign_error

record VerifyResult =
  vr_Signed :: bool
  vr_Valid :: bool
  vr_Reason :: verify_reason
  vr_PublicKeyID :: string
  vr_SignedAt :: gotime
  vr_RetainUntil :: gotime

definition unsigned :: VerifyResult where
  "unsigned = \<lparr>vr_Signed = False, vr_Valid = False, vr_Reason = NoReason, vr_PublicKeyID = [],
     vr_SignedAt = 0, vr_RetainUntil = 0\<rparr>"

definition Verify_evidence :: "'s Service \<Rightarrow> uuid \<Rightarrow> uuid \<Rightarrow> string \<Rightarrow> ('s estate, VerifyResult) proc" where
  "Verify_evidence S drillID accountID key =
     bindM (GetSignature drillID) (\<lambda>found.
       case found of
         None \<Rightarrow> ret unsigned
       | Some rec \<Rightarrow>
           (let res = \<lparr>vr_Signed = True, vr_Valid = False, vr_Reason = NoReason,
                  vr_PublicKeyID = sg_PublicKeyID rec, vr_SignedAt = sg_SignedAt rec,
                  vr_RetainUntil = sr_RetainUntil rec\<rparr>
            in case VerificationKey (sv_signer S) (sg_PublicKeyID rec) of
                 None \<Rightarrow> ret (res\<lparr>vr_Reason := UnknownKey\<rparr>)
               | Some pub \<Rightarrow>
                   bindM (tryM (call (\<lambda>e. (st_ReadAll (sv_store S) key (es_store e), e)))) (\<lambda>b.
                     case b of
                       Inl e \<Rightarrow> ret (res\<lparr>vr_Reason := Unreadable e\<rparr>)
                     | Inr blob \<Rightarrow>
                         bindM (tryM (Decrypt S accountID blob)) (\<lambda>p.
                           case p of
                             Inl e \<Rightarrow> ret (res\<lparr>vr_Reason := if e = ErrShredded then Shredded else Undecryptable\<rparr>)
                           | Inr pdf \<Rightarrow>
                               (case Verify (el_crypto (sv_lib S)) pub pdf (Signature.truncate rec) of
                                  Some e \<Rightarrow> ret (res\<lparr>vr_Reason := Invalid e\<rparr>)
                                | None \<Rightarrow> ret (res\<lparr>vr_Valid := True\<rparr>))))))"

definition Read :: "'s Service \<Rightarrow> uuid \<Rightarrow> string \<Rightarrow> ('s estate, bytes) proc" where
  "Read S accountID key =
     bindM (call (\<lambda>e. (st_ReadAll (sv_store S) key (es_store e), e))) (\<lambda>blob. Decrypt S accountID blob)"

definition DeleteKey :: "'s Service \<Rightarrow> string \<Rightarrow> ('s estate, unit) proc" where
  "DeleteKey S key = call (\<lambda>e. case st_Delete (sv_store S) key (es_store e) of (x, s) \<Rightarrow> (x, e\<lparr>es_store := s\<rparr>))"

definition ShredAccountEvidence :: "uuid \<Rightarrow> ('s estate, unit) proc" where
  "ShredAccountEvidence accountID = ShredAccount accountID"

text \<open>\<open>drills\<close> is the join partner: the rows of table \<open>drills\<close> with their evidence paths.\<close>

fun purge_list :: "'s Service \<Rightarrow> (uuid \<times> string option) list \<Rightarrow> nat \<Rightarrow> ('s estate, nat) proc" where
  "purge_list S [] purged = ret purged"
| "purge_list S ((d, path) # rest) purged =
     thenM (case path of
              None \<Rightarrow> ret ()
            | Some p \<Rightarrow> if p = [] then ret () else DeleteKey S p)
    (thenM (call (\<lambda>e. (Inr (), e\<lparr>es_sigs := sql_delete (\<lambda>r. fst r = d) (es_sigs e)\<rparr>)))
       (purge_list S rest (purged + 1)))"

definition expired_rows :: "gotime \<Rightarrow> (uuid \<times> string option) list \<Rightarrow> 's estate \<Rightarrow> (uuid \<times> string option) list" where
  "expired_rows now drills e =
     filter (\<lambda>(d, _). case map_of (es_sigs e) d of None \<Rightarrow> False | Some r \<Rightarrow> sr_RetainUntil r < now) drills"

text \<open>
  \<open>got\<close> is the number of rows that arrived before the result set ended: the loop does not ask \<open>rows.Err\<close>, so a
  connection that breaks while the rows are read looks like their end.
\<close>

definition PurgeExpired :: "'s Service \<Rightarrow> nat \<Rightarrow> gotime \<Rightarrow> (uuid \<times> string option) list \<Rightarrow> ('s estate, nat) proc" where
  "PurgeExpired S got now drills =
     bindM (call (\<lambda>e. (Inr (take got (expired_rows now drills e)), e))) (\<lambda>rows. purge_list S rows 0)"

section \<open>Account keys\<close>

lemma key_row_set_key:
  "key_row x (e\<lparr>es_keys := set_key acc w (es_keys e)\<rparr>) =
     (if x = acc \<and> key_row acc e \<noteq> None then Some w else key_row x e)"
proof -
  have "map_of (set_key acc w rows) x = (if x = acc \<and> map_of rows acc \<noteq> None then Some w else map_of rows x)" for rows
    by (induction rows) (auto simp: set_key_def)
  then show ?thesis by (simp add: key_row_def)
qed

lemma draw_Ret: "draw S n fs e = (Ret b, fs', e') \<longleftrightarrow>
    b = el_rand (sv_lib S) (es_seed e) n \<and> fs' = fs \<and> e' = e\<lparr>es_seed := es_seed e + 1\<rparr>"
  by (auto simp: draw_def bindM_Ret thenM_Ret)

lemma open_seal:
  assumes "evlib_ok L" and "length nonce = NonceSize"
  shows "openAAD L k (sealAAD L k nonce p a) a = Inr p"
  using assms by (simp add: openAAD_def sealAAD_def evlib_ok_def)

lemma length_rand: "evlib_ok L \<Longrightarrow> length (el_rand L s n) = n"
  by (simp add: evlib_ok_def)

text \<open>The key a wrapped row holds under the configured master keys.\<close>

definition unwrapped :: "evlib \<Rightarrow> Cipher \<Rightarrow> uuid \<Rightarrow> bytes \<Rightarrow> bytes option" where
  "unwrapped L c acc w =
     (case openAAD L (ci_active c) w (el_idBytes L acc) of
        Inr raw \<Rightarrow> Some raw
      | Inl _ \<Rightarrow> open_retired L (ci_retired c) w (el_idBytes L acc))"

definition account_key :: "'s Service \<Rightarrow> uuid \<Rightarrow> 's estate \<Rightarrow> bytes option" where
  "account_key S acc e = Option.bind (key_row acc e) (unwrapped (sv_lib S) (sv_cipher S) acc)"

lemma account_key_frame [simp]:
  "account_key S acc (e\<lparr>es_seed := n\<rparr>) = account_key S acc e"
  "account_key S acc (e\<lparr>es_store := s\<rparr>) = account_key S acc e"
  "account_key S acc (e\<lparr>es_sigs := g\<rparr>) = account_key S acc e"
  by (simp_all add: account_key_def key_row_def)

lemma unwrapped_seal:
  "evlib_ok L \<Longrightarrow> length nonce = NonceSize \<Longrightarrow>
     unwrapped L c acc (sealAAD L (ci_active c) nonce raw (el_idBytes L acc)) = Some raw"
  by (simp add: unwrapped_def open_seal)

lemma unwrapDEK_Ret:
  assumes "evlib_ok (sv_lib S)" and "unwrapDEK S acc w fs e = (Ret raw, fs', e')" and "key_row acc e = Some w"
  shows "account_key S acc e' = Some raw"
proof (cases "openAAD (sv_lib S) (ci_active (sv_cipher S)) w (el_idBytes (sv_lib S) acc)")
  case (Inr r)
  with assms show ?thesis by (simp add: unwrapDEK_def Let_def account_key_def unwrapped_def)
next
  case (Inl x)
  let ?L = "sv_lib S" and ?c = "sv_cipher S"
  let ?nonce = "el_rand ?L (es_seed e) NonceSize"
  let ?e1 = "e\<lparr>es_seed := es_seed e + 1\<rparr>"
  let ?f = "\<lambda>e. (Inr () :: string + unit, e\<lparr>es_keys := set_key acc (sealAAD ?L (ci_active ?c) ?nonce raw (el_idBytes ?L acc)) (es_keys e)\<rparr>)"
  from Inl assms(2) have o: "open_retired ?L (ci_retired ?c) w (el_idBytes ?L acc) = Some raw"
    and "\<exists>fs1 r. call ?f fs1 ?e1 = (r, fs', e')"
    by (auto simp: unwrapDEK_def Let_def bindM_Ret thenM_Ret draw_Ret ignoreM_Ret split: option.splits)
  then obtain fs1 r where "call ?f fs1 ?e1 = (r, fs', e')" by blast
  then have "e' = ?e1 \<or> e' = snd (?f ?e1)" using call_final [of ?f fs1 ?e1] by (simp add: final_def)
  then show ?thesis
  proof
    assume "e' = ?e1"
    then show ?thesis using o Inl assms(3) by (simp add: account_key_def unwrapped_def key_row_def)
  next
    assume "e' = snd (?f ?e1)"
    moreover have "key_row acc ?e1 = Some w" using assms(3) by (simp add: key_row_def)
    ultimately have "key_row acc e' = Some (sealAAD ?L (ci_active ?c) ?nonce raw (el_idBytes ?L acc))"
      using key_row_set_key [where e = ?e1 and x = acc and acc = acc] by simp
    then show ?thesis
      by (simp add: account_key_def unwrapped_seal [OF assms(1) length_rand [OF assms(1)]])
  qed
qed

lemma accountDEK_Ret:
  assumes "evlib_ok (sv_lib S)" and "accountDEK S acc create fs e = (Ret k, fs', e')"
  shows "account_key S acc e' = Some k \<and> newAEAD k = Inr k"
proof -
  obtain w fs1 e1 where u: "key_row acc e1 = Some w"
    and run: "bindM (unwrapDEK S acc w) (\<lambda>raw. case newAEAD raw of Inl e \<Rightarrow> errM e | Inr k \<Rightarrow> ret k) fs1 e1 = (Ret k, fs', e')"
    using assms(2)
    by (auto simp: accountDEK_def bindM_Ret loadWrappedDEK_def mintDEK_def Let_def thenM_Ret
        dest!: call_Ret split: option.splits if_splits) blast+
  then show ?thesis
    using unwrapDEK_Ret [OF assms(1) _ u]
    by (auto simp: bindM_Ret newAEAD_def split: sum.splits if_splits)
qed

lemma accountDEK_again:
  assumes "evlib_ok (sv_lib S)" and "account_key S acc e = Some k" and "newAEAD k = Inr k"
  shows "\<exists>e'. accountDEK S acc create [] e = (Ret k, [], e') \<and> es_store e' = es_store e \<and>
    es_sigs e' = es_sigs e \<and> account_key S acc e' = Some k"
proof -
  obtain w where w: "key_row acc e = Some w" "unwrapped (sv_lib S) (sv_cipher S) acc w = Some k"
    using assms(2) by (auto simp: account_key_def split: Option.bind_splits)
  have load: "loadWrappedDEK acc [] e = (Ret (Some w), [], e)"
    by (simp add: loadWrappedDEK_def call_ok w)
  have "\<exists>e'. unwrapDEK S acc w [] e = (Ret k, [], e') \<and> es_store e' = es_store e \<and> es_sigs e' = es_sigs e"
    using w(2)
    by (auto simp: unwrapped_def unwrapDEK_def Let_def draw_def bindM_def thenM_def ignoreM_def tryM_def
        call_ok getM_def modM_def ret_def split: sum.splits)
  then obtain e' where u: "unwrapDEK S acc w [] e = (Ret k, [], e')" "es_store e' = es_store e" "es_sigs e' = es_sigs e"
    by blast
  have "accountDEK S acc create [] e = (Ret k, [], e')"
    by (simp add: accountDEK_def bindM_def load u(1) assms(3) ret_def)
  with u unwrapDEK_Ret [OF assms(1) u(1) w(1)] show ?thesis by blast
qed

lemma Encrypt_Decrypt:
  assumes "evlib_ok (sv_lib S)" and "Encrypt S acc p fs e = (Ret blob, fs', e')"
    and "account_key S acc e2 = account_key S acc e'"
  shows "\<exists>e3. Decrypt S acc blob [] e2 = (Ret p, [], e3) \<and> es_store e3 = es_store e2 \<and> es_sigs e3 = es_sigs e2"
proof -
  obtain k nonce where k: "account_key S acc e' = Some k" "newAEAD k = Inr k"
    and b: "blob = sealAAD (sv_lib S) k nonce p []" "length nonce = NonceSize"
    using assms(2) accountDEK_Ret [OF assms(1)]
    by (auto simp: Encrypt_def bindM_Ret draw_Ret length_rand [OF assms(1)])
  obtain e3 where d: "accountDEK S acc False [] e2 = (Ret k, [], e3)" "es_store e3 = es_store e2" "es_sigs e3 = es_sigs e2"
    using accountDEK_again [OF assms(1) _ k(2)] assms(3) k(1) by metis
  show ?thesis
    using d by (simp add: Decrypt_def bindM_def b open_seal [OF assms(1)] ret_def)
qed

section \<open>The service over an object store\<close>

text \<open>
  The interface between the service and its store: what was put is read back under the returned
  key, a put makes no object disappear, and a delete touches no other object.
\<close>

lemma map_of_set_sig: "map_of (set_sig d r rows) x = (if x = d then Some r else map_of rows x)"
proof -
  have "map_of (sql_update (\<lambda>x. fst x = d) (\<lambda>x. (fst x, r)) rows) x =
      (if x = d \<and> map_of rows d \<noteq> None then Some r else map_of rows x)"
    by (induction rows) auto
  then show ?thesis by (auto simp: set_sig_def map_add_def split: option.split)
qed

lemma pg_time_truncate: "pg_time (truncate_us t) = truncate_us t"
  by (simp add: pg_time_def truncate_us_def)

definition stored_evidence :: "'s Service \<Rightarrow> uuid \<Rightarrow> string \<Rightarrow> 's estate \<Rightarrow> bool" where
  "stored_evidence S d p e \<longleftrightarrow>
     (\<exists>c. st_ReadAll (sv_store S) p (es_store e) = Inr c) \<and> map_of (es_sigs e) d \<noteq> None"

locale object_store =
  fixes st :: "'s Store"
  assumes Put_Read: "st_Put st d c s = (Inr k, s') \<Longrightarrow> k \<noteq> [] \<and> st_ReadAll st k s' = Inr c"
    and Put_keeps: "st_ReadAll st k s = Inr c \<Longrightarrow> \<exists>c'. st_ReadAll st k (snd (st_Put st d b s)) = Inr c'"
    and Delete_other: "k \<noteq> k' \<Longrightarrow> st_ReadAll st k' (snd (st_Delete st k s)) = st_ReadAll st k' s"
begin

lemma put_evidence_Ret:
  assumes "sv_store S = st" and "put_evidence S d blob fs e = (Ret k, fs', e')"
  shows "\<exists>s. e' = e\<lparr>es_store := s\<rparr> \<and> k \<noteq> [] \<and> st_ReadAll st k s = Inr blob"
  using call_Ret [OF assms(2) [unfolded put_evidence_def]] Put_Read assms(1)
  by (auto split: prod.splits)

lemma Finalize_Ret:
  assumes "sv_store S = st" and "Finalize S now d acc pdf fs e = (Ret key, fs', e')"
  shows "\<exists>blob fs1 e1. Encrypt S acc pdf fs e = (Ret blob, fs1, e1) \<and> key \<noteq> [] \<and>
    st_ReadAll st key (es_store e') = Inr blob \<and> account_key S acc e' = account_key S acc e1 \<and>
    map_of (es_sigs e') d = Some (sig_row (Sign (el_crypto (sv_lib S)) (sv_signer S) pdf (truncate_us now))
      (truncate_us now) (truncate_us now + sv_retention S))" (is "\<exists>blob fs1 e1. ?E blob fs1 e1 \<and> _ \<and> _ \<and> _ \<and> _ = Some ?row")
proof -
  obtain blob fs1 e1 fs2 e2 where E: "Encrypt S acc pdf fs e = (Ret blob, fs1, e1)"
    and P: "put_evidence S d blob fs1 e1 = (Ret key, fs2, e2)"
    and U: "upsert_signature d ?row fs2 e2 = (Ret (), fs', e')"
    using assms(2) unfolding Finalize_def Let_def
    by (auto simp: bindM_tryM_Ret bindM_Ret [where p = "put_evidence S d b" for b])
  have e': "e' = e2\<lparr>es_sigs := set_sig d ?row (es_sigs e2)\<rparr>"
    using call_Ret [OF U [unfolded upsert_signature_def]] by simp
  show ?thesis
    using E put_evidence_Ret [OF assms(1) P] by (auto simp: e' map_of_set_sig)
qed

text \<open>Evidence is stored when its object can be read and its signature row exists.\<close>

lemma Finalize_final_keeps:
  assumes "sv_store S = st" and "stored_evidence S d p e"
  shows "stored_evidence S d p (final (Finalize S now x acc pdf fs e))"
proof -
  let ?I = "stored_evidence S d p"
  have frame: "?I (e\<lparr>es_keys := ks\<rparr>) = ?I e" "?I (e\<lparr>es_seed := n\<rparr>) = ?I e" for e ks n
    by (simp_all add: stored_evidence_def)
  have draw: "keeps ?I (draw S n)" for n
    unfolding draw_def by (intro hoare keeps_modM) (simp add: frame)
  have load: "keeps ?I (loadWrappedDEK acc)" unfolding loadWrappedDEK_def by (intro hoare)
  have mint: "keeps ?I (mintDEK S acc)"
    unfolding mintDEK_def by (intro hoare draw load keeps_call) (simp add: frame)
  have unwrap: "keeps ?I (unwrapDEK S acc w)" for w
    unfolding unwrapDEK_def by (intro hoare draw keeps_call) (simp add: frame)
  have enc: "keeps ?I (Encrypt S acc pdf)"
    unfolding Encrypt_def accountDEK_def by (intro hoare draw load mint unwrap)
  have put: "keeps ?I (put_evidence S x blob)" for blob
    unfolding put_evidence_def
    by (rule keeps_call) (use Put_keeps assms(1) in \<open>auto simp: stored_evidence_def split: prod.split, metis snd_conv\<close>)
  have ups: "keeps ?I (upsert_signature x row)" for row
    unfolding upsert_signature_def
    by (rule keeps_call) (auto simp: stored_evidence_def map_of_set_sig)
  have "keeps ?I (Finalize S now x acc pdf)"
    unfolding Finalize_def by (intro hoare enc put ups)
  then show ?thesis using assms(2) by (rule keepsD)
qed

lemma Finalize_verifies:
  assumes "sv_store S = st" and L: "evlib_ok (sv_lib S)"
    and key: "VerificationKey (sv_signer S) (sn_publicKeyID (sv_signer S)) =
      Some (cr_Public (el_crypto (sv_lib S)) (sn_priv (sv_signer S)))"
    and run: "Finalize S now d acc pdf fs e = (Ret k, fs', e')"
  shows "(\<exists>r e2. Verify_evidence S d acc k [] e' = (Ret r, [], e2) \<and> vr_Signed r \<and> vr_Valid r \<and>
      vr_RetainUntil r = pg_time (truncate_us now + sv_retention S)) \<and>
    (\<exists>e2. Read S acc k [] e' = (Ret pdf, [], e2))"
proof -
  let ?sig = "Sign (el_crypto (sv_lib S)) (sv_signer S) pdf (truncate_us now)"
  let ?row = "sig_row ?sig (truncate_us now) (truncate_us now + sv_retention S)"
  obtain blob fs1 e1 where enc: "Encrypt S acc pdf fs e = (Ret blob, fs1, e1)"
    and rd: "st_ReadAll st k (es_store e') = Inr blob" and ak: "account_key S acc e' = account_key S acc e1"
    and row: "map_of (es_sigs e') d = Some ?row"
    using Finalize_Ret [OF assms(1) run] by blast
  obtain e3 where dec: "Decrypt S acc blob [] e' = (Ret pdf, [], e3)"
    using Encrypt_Decrypt [OF L enc ak] by blast
  have pk: "sg_PublicKeyID ?row = sn_publicKeyID (sv_signer S)"
    and ret: "sr_RetainUntil ?row = pg_time (truncate_us now + sv_retention S)"
    and sg: "Signature.truncate ?row = ?sig"
    by (simp_all add: sig_row_def Signature.defs pg_time_truncate Sign_def Let_def)
  have v: "Verify (el_crypto (sv_lib S)) (cr_Public (el_crypto (sv_lib S)) (sn_priv (sv_signer S))) pdf
      (Signature.truncate ?row) = None"
    unfolding sg by (rule Verify_Sign) (use L in \<open>simp add: evlib_ok_def\<close>)
  have get: "GetSignature d [] e' = (Ret (Some ?row), [], e')" by (simp add: GetSignature_def call_ok row)
  have "\<exists>r. Verify_evidence S d acc k [] e' = (Ret r, [], e3) \<and> vr_Signed r \<and> vr_Valid r \<and>
      vr_RetainUntil r = pg_time (truncate_us now + sv_retention S)"
    unfolding Verify_evidence_def bindM_def [of "GetSignature d"] get
    by (simp add: pk key Let_def bindM_def tryM_def call_ok assms(1) rd dec v ret_def ret)
  moreover have "Read S acc k [] e' = (Ret pdf, [], e3)"
    by (simp add: Read_def bindM_def call_ok assms(1) rd dec)
  ultimately show ?thesis by blast
qed

end

lemma map_of_filter_other: "map_of (filter (\<lambda>f. fst f \<noteq> p) fs) k = (if k = p then None else map_of fs k)"
  by (induction fs) auto

interpretation local_store: object_store "LocalStore dir" for dir
proof
  fix d c s k s' assume "st_Put (LocalStore dir) d c s = (Inr k, s')"
  then show "k \<noteq> [] \<and> st_ReadAll (LocalStore dir) k s' = Inr c"
    by (auto simp: LocalStore_def LocalStore_Put_def LocalStore_ReadAll_def put_file_def local_path_def
        split: option.splits)
next
  fix k s c d b assume "st_ReadAll (LocalStore dir) k s = Inr c"
  then show "\<exists>c'. st_ReadAll (LocalStore dir) k (snd (st_Put (LocalStore dir) d b s)) = Inr c'"
    by (auto simp: LocalStore_def LocalStore_Put_def LocalStore_ReadAll_def put_file_def
        map_of_filter_other split: option.splits)
next
  fix k k' :: string and s assume "k \<noteq> k'"
  then show "st_ReadAll (LocalStore dir) k' (snd (st_Delete (LocalStore dir) k s)) = st_ReadAll (LocalStore dir) k' s"
    by (auto simp: LocalStore_def LocalStore_Delete_def LocalStore_ReadAll_def map_of_filter_other split: option.splits)
qed

section \<open>A model of the parameters\<close>

text \<open>
  Concrete parameters that satisfy the hypotheses: sealing writes the key and the additional
  data in front of the plaintext, each with its length, and opening compares them.
\<close>

definition lencode :: "bytes \<Rightarrow> bytes" where
  "lencode b = replicate (length b) (CHR ''x'') @ ''.'' @ b"

definition toy_seal :: "bytes \<Rightarrow> bytes \<Rightarrow> bytes \<Rightarrow> bytes \<Rightarrow> bytes" where
  "toy_seal k n p a = lencode k @ lencode a @ p"

definition toy_open :: "bytes \<Rightarrow> bytes \<Rightarrow> bytes \<Rightarrow> bytes \<Rightarrow> bytes option" where
  "toy_open k n c a =
     (let h = lencode k @ lencode a in if take (length h) c = h then Some (drop (length h) c) else None)"

definition toy_lib :: evlib where
  "toy_lib = \<lparr>el_crypto = toy_crypto, el_Seal = toy_seal, el_Open = toy_open,
     el_rand = (\<lambda>s n. replicate n (char_of s)), el_idBytes = (\<lambda>n. replicate n (CHR ''i'')), el_uuid = (\<lambda>n. replicate n (CHR ''i''))\<rparr>"

lemma lencode_prefix: "lencode a @ x = lencode b @ y \<Longrightarrow> a = b \<and> x = y"
proof -
  assume eq: "lencode a @ x = lencode b @ y"
  have tw: "takeWhile (\<lambda>c. c = CHR ''x'') (lencode c @ z) = replicate (length c) (CHR ''x'')" for c z
    by (simp add: lencode_def takeWhile_append)
  have "replicate (length a) (CHR ''x'') = replicate (length b) (CHR ''x'')"
    using tw [of a x] tw [of b y] eq by simp
  then have "length a = length b" by (metis length_replicate)
  with eq show ?thesis by (simp add: lencode_def)
qed

lemma toy_open_iff: "toy_open k n c a = Some p \<longleftrightarrow> c = toy_seal k n p a"
proof -
  let ?h = "lencode k @ lencode a"
  have "take (length ?h) c = ?h \<and> drop (length ?h) c = p \<longleftrightarrow> c = ?h @ p"
    by (metis append_eq_conv_conj append_take_drop_id)
  then show ?thesis unfolding toy_open_def toy_seal_def Let_def by (simp del: length_append split: if_split) blast
qed

lemma toy_lib_ok: "evlib_ok toy_lib"
  by (simp add: evlib_ok_def toy_lib_def toy_crypto_ok toy_open_iff)

lemma toy_separates: "aead_separates toy_lib"
  unfolding aead_separates_def
proof (intro allI impI)
  fix k n p a k' a' p'
  assume "el_Open toy_lib k' n (el_Seal toy_lib k n p a) a' = Some p'"
  then have "lencode k @ lencode a @ p = lencode k' @ lencode a' @ p'"
    by (simp add: toy_lib_def toy_open_iff toy_seal_def)
  then show "k' = k \<and> a' = a" using lencode_prefix by blast
qed

definition toy_service :: "disk Service" where
  "toy_service = \<lparr>sv_lib = toy_lib, sv_store = LocalStore ''ev'', sv_signer = toy_signer ''key'',
     sv_cipher = \<lparr>ci_active = replicate 32 (CHR ''A''), ci_retired = [], ci_ephemeral = False\<rparr>,
     sv_retention = DefaultRetention\<rparr>"

definition empty_estate :: "disk estate" where
  "empty_estate = \<lparr>es_store = \<lparr>dk_files = [], dk_fail = None\<rparr>, es_keys = [], es_sigs = [], es_seed = 0\<rparr>"

lemma Encrypt_fresh:
  assumes "evlib_ok (sv_lib S)" and "key_row acc e = None"
  shows "\<exists>blob e'. Encrypt S acc p [] e = (Ret blob, [], e') \<and> es_store e' = es_store e"
proof -
  let ?L = "sv_lib S"
  let ?w = "sealAAD ?L (ci_active (sv_cipher S)) (el_rand ?L (Suc (es_seed e)) NonceSize)
      (el_rand ?L (es_seed e) 32) (el_idBytes ?L acc)"
  let ?e = "e\<lparr>es_seed := Suc (Suc (es_seed e)), es_keys := es_keys e @ [(acc, ?w)]\<rparr>"
  have row: "map_of (es_keys e @ [(acc, ?w)]) acc = Some ?w"
    using assms(2) by (simp add: key_row_def map_add_def)
  have mint: "mintDEK S acc [] e = (Ret ?w, [], ?e)"
    using assms(2) row
    by (simp add: mintDEK_def draw_def bindM_def thenM_def getM_def modM_def ret_def call_ok Let_def
        loadWrappedDEK_def key_row_def)
  have op: "openAAD ?L (ci_active (sv_cipher S)) ?w (el_idBytes ?L acc) = Inr (el_rand ?L (es_seed e) 32)"
    by (rule open_seal [OF assms(1) length_rand [OF assms(1)]])
  have "accountDEK S acc True [] e = (Ret (el_rand ?L (es_seed e) 32), [], ?e)"
    using assms(2) op length_rand [OF assms(1)]
    by (simp add: accountDEK_def loadWrappedDEK_def bindM_def call_ok mint unwrapDEK_def Let_def ret_def newAEAD_def)
  then show ?thesis
    by (simp add: Encrypt_def bindM_def draw_def thenM_def getM_def modM_def ret_def)
qed

section \<open>Properties of the evidence service\<close>

text \<open>
  C16. Evidence that was finalized verifies and reads back. Whatever faults happened on the way,
  when \<open>Finalize\<close> on the local store returns a path, verifying that path reports a valid
  signature with the configured retention, and reading it returns the very PDF that was signed;
  the signed instant survives the database because it was cut to microseconds before signing.
\<close>

theorem finalize_then_verify:
  assumes "sv_store S = LocalStore dir" and "evlib_ok (sv_lib S)"
    and "VerificationKey (sv_signer S) (sn_publicKeyID (sv_signer S)) =
      Some (cr_Public (el_crypto (sv_lib S)) (sn_priv (sv_signer S)))"
    and "Finalize S now d acc pdf fs e = (Ret k, fs', e')"
  shows "(\<exists>r e2. Verify_evidence S d acc k [] e' = (Ret r, [], e2) \<and> vr_Signed r \<and> vr_Valid r \<and>
      vr_RetainUntil r = pg_time (truncate_us now + sv_retention S)) \<and>
    (\<exists>e2. Read S acc k [] e' = (Ret pdf, [], e2))"
  using local_store.Finalize_verifies assms .

lemma Finalize_fresh:
  assumes "sv_store S = LocalStore dir" and "evlib_ok (sv_lib S)" and "key_row acc e = None"
    and "dk_fail (es_store e) = None"
  shows "\<exists>e'. Finalize S now d acc pdf [] e = (Ret (local_path dir (el_uuid (sv_lib S) d)), [], e')"
proof -
  obtain blob e1 where "Encrypt S acc pdf [] e = (Ret blob, [], e1)" "es_store e1 = es_store e"
    using Encrypt_fresh [OF assms(2,3)] by blast
  with assms(1,4) show ?thesis
    by (simp add: Finalize_def Let_def bindM_def tryM_def put_evidence_def upsert_signature_def call_ok
        LocalStore_def LocalStore_Put_def ret_def)
qed

theorem finalize_then_verify_witness:
  "\<exists>e' r e2. Finalize toy_service 1234567 3 1 ''pdf'' [] empty_estate = (Ret ''ev/iii.pdf'', [], e') \<and>
     Verify_evidence toy_service 3 1 ''ev/iii.pdf'' [] e' = (Ret r, [], e2) \<and> vr_Valid r"
proof -
  have S: "sv_store toy_service = LocalStore ''ev''" "evlib_ok (sv_lib toy_service)"
    "VerificationKey (sv_signer toy_service) (sn_publicKeyID (sv_signer toy_service)) =
      Some (cr_Public (el_crypto (sv_lib toy_service)) (sn_priv (sv_signer toy_service)))"
    using toy_lib_ok
    by (simp_all add: toy_service_def VerificationKey_def toy_signer_def)
      (simp add: toy_lib_def toy_crypto_def)
  obtain e' where F: "Finalize toy_service 1234567 3 1 ''pdf'' [] empty_estate = (Ret ''ev/iii.pdf'', [], e')"
    using Finalize_fresh [OF S(1,2), of 1 empty_estate 1234567 3 "''pdf''"]
    by (auto simp: empty_estate_def key_row_def toy_service_def toy_lib_def local_path_def numeral_3_eq_3)
  from finalize_then_verify [OF S F] F show ?thesis by blast
qed

subsection \<open>Retention\<close>

lemma map_of_sql_delete:
  "map_of (sql_delete (\<lambda>r. fst r = x) rows) d = (if d = x then None else map_of rows d)"
  by (induction rows) (auto simp: sql_delete_def)

context object_store
begin

lemma keeps_purge_list:
  assumes "sv_store S = st" and "\<forall>x \<in> set rows. fst x \<noteq> d \<and> snd x \<noteq> Some p"
  shows "keeps (\<lambda>e. map_of (es_sigs e) d = r \<and> st_ReadAll st p (es_store e) = c) (purge_list S rows n)"
  using assms(2)
proof (induction rows arbitrary: n)
  case (Cons x rest)
  let ?I = "\<lambda>e. map_of (es_sigs e) d = r \<and> st_ReadAll st p (es_store e) = c"
  have del: "keeps ?I (DeleteKey S q)" if "q \<noteq> p" for q
  proof -
    have "st_ReadAll st p x2 = st_ReadAll st p s" if "st_Delete st q s = (x1, x2)" for s x1 x2
      using Delete_other [OF \<open>q \<noteq> p\<close>, of s] that by simp
    then show ?thesis unfolding DeleteKey_def
      by (intro keeps_call) (auto simp: assms(1) split: prod.split)
  qed
  obtain y path where x: "x = (y, path)" by force
  have y: "y \<noteq> d" "path \<noteq> Some p" using Cons.prems x by auto
  have step: "keeps ?I (call (\<lambda>e. (Inr (), e\<lparr>es_sigs := sql_delete (\<lambda>r. fst r = y) (es_sigs e)\<rparr>)))"
    by (rule keeps_call) (use y in \<open>simp add: map_of_sql_delete\<close>)
  have path: "keeps ?I (case path of None \<Rightarrow> ret () | Some p \<Rightarrow> if p = [] then ret () else DeleteKey S p)"
    using y(2) by (cases path) (auto intro: hoare del)
  show ?case
    unfolding x purge_list.simps by (intro keeps_thenM path step Cons.IH) (use Cons.prems in simp)
qed (simp add: hoare)

lemma keeps_PurgeExpired:
  assumes "sv_store S = st" and "map_of (es_sigs e) d = Some row" and "now \<le> sr_RetainUntil row"
    and "\<forall>x. (x, Some p) \<in> set drills \<longrightarrow> x = d" and "st_ReadAll st p (es_store e) = c"
  shows "map_of (es_sigs (final (PurgeExpired S got now drills fs e))) d = Some row \<and>
    st_ReadAll st p (es_store (final (PurgeExpired S got now drills fs e))) = c"
proof -
  let ?I = "\<lambda>e. map_of (es_sigs e) d = Some row \<and> st_ReadAll st p (es_store e) = c"
  have rows: "\<forall>x \<in> set (take got (expired_rows now drills e)). fst x \<noteq> d \<and> snd x \<noteq> Some p" if "?I e" for e
    using that assms(3,4) by (auto simp: expired_rows_def dest!: in_set_takeD split: option.splits)
  have "triple ?I (PurgeExpired S got now drills) (\<lambda>_. ?I) ?I"
    unfolding PurgeExpired_def
  proof (rule triple_bindM)
    show "triple ?I (call (\<lambda>e. (Inr (take got (expired_rows now drills e)), e)))
        (\<lambda>rows e. ?I e \<and> (\<forall>x \<in> set rows. fst x \<noteq> d \<and> snd x \<noteq> Some p)) ?I"
      by (rule triple_call) (use rows in auto)
    show "triple (\<lambda>e. ?I e \<and> (\<forall>x \<in> set rows. fst x \<noteq> d \<and> snd x \<noteq> Some p)) (purge_list S rows 0) (\<lambda>_. ?I) ?I" for rows
      by (rule triple_guard) (rule triple_keeps [OF keeps_purge_list [OF assms(1)]])
  qed
  then show ?thesis using assms(2,5) triple_final [of ?I "PurgeExpired S got now drills" ?I e fs] by blast
qed

end

lemma purge_list_Ret:
  "purge_list S rows n fs e = (Ret k, fs', e') \<Longrightarrow>
     k = n + length rows \<and> (\<forall>x \<in> fst ` set rows. map_of (es_sigs e') x = None) \<and>
     (\<forall>x. map_of (es_sigs e) x = None \<longrightarrow> map_of (es_sigs e') x = None)"
proof (induction rows arbitrary: n fs e)
  case (Cons y rest)
  obtain x path where y: "y = (x, path)" by force
  obtain fs1 e1 fs2 e2 where
    A: "(case path of None \<Rightarrow> ret () | Some p \<Rightarrow> if p = [] then ret () else DeleteKey S p) fs e = (Ret (), fs1, e1)"
    and B: "call (\<lambda>e. (Inr (), e\<lparr>es_sigs := sql_delete (\<lambda>r. fst r = x) (es_sigs e)\<rparr>)) fs1 e1 = (Ret (), fs2, e2)"
    and C: "purge_list S rest (n + 1) fs2 e2 = (Ret k, fs', e')"
    using Cons.prems by (auto simp: y thenM_Ret)
  have "es_sigs e1 = es_sigs e"
    using A by (auto simp: DeleteKey_def dest!: call_Ret split: option.splits if_splits prod.splits)
  then have "es_sigs e2 = sql_delete (\<lambda>r. fst r = x) (es_sigs e)" using call_Ret [OF B] by auto
  with Cons.IH [OF C] show ?case by (auto simp: y map_of_sql_delete)
qed simp

lemma PurgeExpired_Ret:
  assumes "PurgeExpired S got now drills fs e = (Ret n, fs', e')"
  shows "n = min got (length (expired_rows now drills e)) \<and>
    (\<forall>x \<in> fst ` set (take got (expired_rows now drills e)). map_of (es_sigs e') x = None)"
proof -
  obtain fs1 where "purge_list S (take got (expired_rows now drills e)) 0 fs1 e = (Ret n, fs', e')"
    using assms by (auto simp: PurgeExpired_def bindM_Ret dest!: call_Ret)
  from purge_list_Ret [OF this] show ?thesis by (simp add: min.commute)
qed

lemma keeps_purge_sigs:
  "\<forall>x \<in> set rows. fst x \<noteq> d \<Longrightarrow> keeps (\<lambda>e. map_of (es_sigs e) d = r) (purge_list S rows n)"
proof (induction rows arbitrary: n)
  case (Cons x rest)
  let ?I = "\<lambda>e. map_of (es_sigs e) d = r"
  obtain y path where x: "x = (y, path)" by force
  have del: "keeps ?I (DeleteKey S q)" for q
    unfolding DeleteKey_def by (rule keeps_call) (simp split: prod.split)
  have path: "keeps ?I (case path of None \<Rightarrow> ret () | Some p \<Rightarrow> if p = [] then ret () else DeleteKey S p)"
    by (cases path) (auto intro: hoare del)
  have "keeps ?I (call (\<lambda>e. (Inr (), e\<lparr>es_sigs := sql_delete (\<lambda>r. fst r = y) (es_sigs e)\<rparr>)))"
    by (rule keeps_call) (use Cons.prems x in \<open>simp add: map_of_sql_delete\<close>)
  then show ?case unfolding x purge_list.simps by (intro keeps_thenM path Cons.IH) (use Cons.prems in simp_all)
qed (simp add: hoare)

lemma keeps_PurgeExpired_sig:
  assumes "map_of (es_sigs e) d = Some row" and "now \<le> sr_RetainUntil row"
  shows "map_of (es_sigs (final (PurgeExpired S got now drills fs e))) d = Some row"
proof -
  let ?I = "\<lambda>e. map_of (es_sigs e) d = Some row"
  have rows: "\<forall>x \<in> set (take got (expired_rows now drills e)). fst x \<noteq> d" if "?I e" for e
    using that assms(2) by (auto simp: expired_rows_def dest!: in_set_takeD split: option.splits)
  have "triple ?I (PurgeExpired S got now drills) (\<lambda>_. ?I) ?I"
    unfolding PurgeExpired_def
  proof (rule triple_bindM)
    show "triple ?I (call (\<lambda>e. (Inr (take got (expired_rows now drills e)), e))) (\<lambda>rows e. ?I e \<and> (\<forall>x \<in> set rows. fst x \<noteq> d)) ?I"
      by (rule triple_call) (use rows in auto)
    show "triple (\<lambda>e. ?I e \<and> (\<forall>x \<in> set rows. fst x \<noteq> d)) (purge_list S rows 0) (\<lambda>_. ?I) ?I" for rows
      by (rule triple_guard) (rule triple_keeps [OF keeps_purge_sigs])
  qed
  then show ?thesis using assms(1) triple_final [of ?I "PurgeExpired S got now drills" ?I e fs] by blast
qed

text \<open>
  C17. The retention sweep on the local store. With whatever faults, a sweep at time \<open>now\<close> keeps the signature and the
  file of every drill whose retention has not ended before \<open>now\<close> (its path being used by no other
  drill). A sweep that returns has removed the signatures of the drills it read, counted them, and these are all drills whose
  retention has ended when the read was complete. When the connection broke after \<open>got\<close> rows, the sweep takes them for all and
  returns nevertheless.
\<close>

theorem purge_respects_retention:
  assumes "sv_store S = LocalStore dir"
  shows "(map_of (es_sigs e) d = Some row \<and> now \<le> sr_RetainUntil row \<and>
      (\<forall>x. (x, Some p) \<in> set drills \<longrightarrow> x = d) \<and> LocalStore_ReadAll p (es_store e) = c \<longrightarrow>
      map_of (es_sigs (final (PurgeExpired S got now drills fs e))) d = Some row \<and>
      LocalStore_ReadAll p (es_store (final (PurgeExpired S got now drills fs e))) = c) \<and>
    (\<forall>n fs' e'. PurgeExpired S got now drills fs e = (Ret n, fs', e') \<longrightarrow>
      n = min got (length (expired_rows now drills e)) \<and>
      (\<forall>x \<in> fst ` set (take got (expired_rows now drills e)). map_of (es_sigs e') x = None) \<and>
      (length (expired_rows now drills e) \<le> got \<longrightarrow>
        (\<forall>(x, path) \<in> set drills. \<forall>r. map_of (es_sigs e) x = Some r \<and> sr_RetainUntil r < now \<longrightarrow> map_of (es_sigs e') x = None)))"
proof (intro conjI impI allI)
  assume a: "map_of (es_sigs e) d = Some row \<and> now \<le> sr_RetainUntil row \<and>
      (\<forall>x. (x, Some p) \<in> set drills \<longrightarrow> x = d) \<and> LocalStore_ReadAll p (es_store e) = c"
  then show "map_of (es_sigs (final (PurgeExpired S got now drills fs e))) d = Some row"
    "LocalStore_ReadAll p (es_store (final (PurgeExpired S got now drills fs e))) = c"
    using local_store.keeps_PurgeExpired [OF assms, of e d row now p drills c got fs] by (simp_all add: LocalStore_def)
next
  fix n fs' e' assume r: "PurgeExpired S got now drills fs e = (Ret n, fs', e')"
  note removed = PurgeExpired_Ret [OF r]
  then show "n = min got (length (expired_rows now drills e))"
    and "\<forall>x \<in> fst ` set (take got (expired_rows now drills e)). map_of (es_sigs e') x = None" by simp_all
  assume "length (expired_rows now drills e) \<le> got"
  then have "\<forall>x \<in> fst ` set (expired_rows now drills e). map_of (es_sigs e') x = None" using removed by simp
  then show "\<forall>(x, path) \<in> set drills. \<forall>r. map_of (es_sigs e) x = Some r \<and> sr_RetainUntil r < now \<longrightarrow> map_of (es_sigs e') x = None"
    by (force simp: expired_rows_def)
qed

lemma sr_RetainUntil_sig_row: "sr_RetainUntil (sig_row s a t) = pg_time t"
  by (simp add: sig_row_def Signature.defs)

theorem purge_respects_retention_witness:
  "\<exists>e. e = final (PurgeExpired toy_service 1 3000 [(3, Some ''ev/a.pdf''), (4, Some ''ev/b.pdf'')] []
        (empty_estate\<lparr>es_sigs := [(3, sig_row (Sign toy_crypto (toy_signer ''key'') ''pdf'' 0) 0 2000),
           (4, sig_row (Sign toy_crypto (toy_signer ''key'') ''pdf'' 0) 0 3000)]\<rparr>)) \<and>
     map_of (es_sigs e) 4 = Some (sig_row (Sign toy_crypto (toy_signer ''key'') ''pdf'' 0) 0 3000) \<and>
     map_of (es_sigs e) 3 = None"
proof -
  let ?r = "\<lambda>t. sig_row (Sign toy_crypto (toy_signer ''key'') ''pdf'' 0) 0 t"
  let ?e = "empty_estate\<lparr>es_sigs := [(3, ?r 2000), (4, ?r 3000)]\<rparr>"
  let ?ds = "[(3, Some ''ev/a.pdf''), (4, Some ''ev/b.pdf'')]"
  have S: "sv_store toy_service = LocalStore ''ev''" by (simp add: toy_service_def)
  have x: "expired_rows 3000 ?ds ?e = [(3, Some ''ev/a.pdf'')]" by (simp add: expired_rows_def sr_RetainUntil_sig_row pg_time_def)
  obtain e' where r: "PurgeExpired toy_service 1 3000 ?ds [] ?e = (Ret 1, [], e')"
    by (simp add: PurgeExpired_def bindM_def call_ok x thenM_def DeleteKey_def S LocalStore_def LocalStore_Delete_def ret_def
        split: prod.split)
      (simp add: empty_estate_def bindM_def call_ok ret_def)
  show ?thesis
    using purge_respects_retention [OF S, of ?e 4 "?r 3000" 3000 "''ev/b.pdf''" ?ds _ 1 "[]"] r x
    by (auto simp: final_def sr_RetainUntil_sig_row pg_time_def)
qed

subsection \<open>Crypto-shredding\<close>

text \<open>
  C18. Shredding an account. Once \<open>ShredAccount\<close> has returned, decrypting evidence of the account
  fails with \<open>ErrShredded\<close> and no other account's key changed. If the account later gets a new
  data key, the old evidence stays unreadable: AES-GCM opens nothing sealed under another key.
\<close>

theorem shred_is_final:
  assumes "evlib_ok (sv_lib S)" and "aead_separates (sv_lib S)"
    and "blob = sealAAD (sv_lib S) k nonce p []" "length nonce = NonceSize"
    and "ShredAccount acc fs e = (Ret (), fs', e1)"
  shows "Decrypt S acc blob [] e1 = (Err ErrShredded, [], e1) \<and>
    (\<forall>x. x \<noteq> acc \<longrightarrow> account_key S x e1 = account_key S x e) \<and>
    (\<forall>e2 k2. account_key S acc e2 = Some k2 \<and> newAEAD k2 = Inr k2 \<and> k2 \<noteq> k \<longrightarrow>
       (\<exists>e3. Decrypt S acc blob [] e2 = (Err ''cipher: message authentication failed'', [], e3)))"
proof (intro conjI allI impI)
  have e1: "e1 = e\<lparr>es_keys := sql_delete (\<lambda>r. fst r = acc) (es_keys e)\<rparr>"
    using call_Ret [OF assms(5) [unfolded ShredAccount_def]] by simp
  show "Decrypt S acc blob [] e1 = (Err ErrShredded, [], e1)"
    by (simp add: Decrypt_def accountDEK_def loadWrappedDEK_def call_ok bindM_def key_row_def e1
        map_of_sql_delete errM_def)
  show "account_key S x e1 = account_key S x e" if "x \<noteq> acc" for x
    using that by (simp add: account_key_def key_row_def e1 map_of_sql_delete)
  fix e2 k2 assume a: "account_key S acc e2 = Some k2 \<and> newAEAD k2 = Inr k2 \<and> k2 \<noteq> k"
  then obtain e3 where d: "accountDEK S acc False [] e2 = (Ret k2, [], e3)"
    using accountDEK_again [OF assms(1)] by blast
  have "el_Open (sv_lib S) k2 nonce (el_Seal (sv_lib S) k nonce p []) [] = None"
    using assms(2) a unfolding aead_separates_def by (metis option.exhaust)
  then have "openAAD (sv_lib S) k2 blob [] = Inl ''cipher: message authentication failed''"
    using assms(4) by (simp add: openAAD_def assms(3) sealAAD_def)
  with d show "\<exists>e3. Decrypt S acc blob [] e2 = (Err ''cipher: message authentication failed'', [], e3)"
    by (simp add: Decrypt_def bindM_def errM_def)
qed

theorem shred_is_final_witness:
  "\<exists>e1. ShredAccount 1 [] (empty_estate\<lparr>es_keys := [(1, ''w'')]\<rparr>) = (Ret (), [], e1) \<and>
     Decrypt toy_service 1 (sealAAD toy_lib ''old'' (replicate 12 CHR ''n'') ''pdf'' []) [] e1 = (Err ErrShredded, [], e1)"
proof -
  obtain e1 where e1: "ShredAccount 1 [] (empty_estate\<lparr>es_keys := [(1, ''w'')]\<rparr>) = (Ret (), [], e1)"
    by (simp add: ShredAccount_def call_ok)
  have L: "sv_lib toy_service = toy_lib" by (simp add: toy_service_def)
  show ?thesis
    using shred_is_final [of toy_service, unfolded L, OF toy_lib_ok toy_separates refl _ e1,
        of "replicate 12 CHR ''n''"] e1
    by (auto simp: NonceSize_def)
qed

subsection \<open>Master-key rotation\<close>

definition without_retired :: "'s Service \<Rightarrow> 's Service" where
  "without_retired S = S\<lparr>sv_cipher := (sv_cipher S)\<lparr>ci_retired := []\<rparr>\<rparr>"

lemma account_key_without_retired:
  "account_key (without_retired S) acc e =
     Option.bind (key_row acc e) (\<lambda>w. case openAAD (sv_lib S) (ci_active (sv_cipher S)) w (el_idBytes (sv_lib S) acc) of
       Inr raw \<Rightarrow> Some raw | Inl _ \<Rightarrow> None)"
  by (cases "key_row acc e") (simp_all add: account_key_def without_retired_def unwrapped_def split: sum.split)

lemma rewrap_rows_Ret:
  assumes "evlib_ok (sv_lib S)" and "rewrap_rows S rows a b fs e = (Ret (n, p), fs', e')"
    and "distinct (map fst rows)" and "\<forall>(acc, w) \<in> set rows. key_row acc e = Some w"
  shows "n = a + length (filter (\<lambda>(acc, w). classify (sv_lib S) (sv_cipher S) acc w = KeyRetired) rows) \<and>
    p = b + length (filter (\<lambda>(acc, w). classify (sv_lib S) (sv_cipher S) acc w = KeyPoison) rows) \<and>
    (\<forall>acc. acc \<notin> fst ` set rows \<longrightarrow> key_row acc e' = key_row acc e) \<and>
    (\<forall>acc \<in> fst ` set rows. account_key (without_retired S) acc e' = account_key S acc e)"
  using assms(2-)
proof (induction rows arbitrary: a b fs e)
  case (Cons row rows)
  let ?L = "sv_lib S" and ?c = "sv_cipher S"
  obtain acc w where row: "row = (acc, w)" by force
  have w: "key_row acc e = Some w" and notin: "acc \<notin> fst ` set rows" and dist: "distinct (map fst rows)"
    using Cons.prems(2,3) row by auto
  have rest: "\<forall>(x, v) \<in> set rows. key_row x e = Some v" using Cons.prems(3) by auto
  show ?case
  proof (cases "classify ?L ?c acc w")
    case KeyActive
    then have r: "rewrap_rows S rows a b fs e = (Ret (n, p), fs', e')" using Cons.prems(1) by (simp add: row Let_def)
    note IH = Cons.IH [OF r dist rest]
    have "key_row acc e' = Some w" using IH notin w by auto
    then have "account_key (without_retired S) acc e' = account_key S acc e"
      using w KeyActive by (simp add: account_key_without_retired)
        (auto simp: account_key_def unwrapped_def classify_def split: sum.splits option.splits)
    with IH KeyActive show ?thesis by (auto simp: row)
  next
    case KeyPoison
    then have r: "rewrap_rows S rows a (b + 1) fs e = (Ret (n, p), fs', e')" using Cons.prems(1) by (simp add: row Let_def)
    note IH = Cons.IH [OF r dist rest]
    have "key_row acc e' = Some w" using IH notin w by auto
    then have "account_key (without_retired S) acc e' = account_key S acc e"
      using w KeyPoison by (simp add: account_key_without_retired)
        (auto simp: account_key_def unwrapped_def classify_def split: sum.splits option.splits)
    with IH KeyPoison show ?thesis by (auto simp: row)
  next
    case KeyRetired
    then obtain raw err where raw: "open_retired ?L (ci_retired ?c) w (el_idBytes ?L acc) = Some raw"
      "openAAD ?L (ci_active ?c) w (el_idBytes ?L acc) = Inl err"
      by (auto simp: classify_def split: sum.splits option.splits)
    let ?v = "sealAAD ?L (ci_active ?c) (el_rand ?L (es_seed e) NonceSize) raw (el_idBytes ?L acc)"
    let ?e = "e\<lparr>es_seed := es_seed e + 1, es_keys := set_key acc ?v (es_keys e)\<rparr>"
    obtain fs1 where r: "rewrap_rows S rows (a + 1) b fs1 ?e = (Ret (n, p), fs', e')"
      using Cons.prems(1) KeyRetired raw(1) by (auto simp: row Let_def bindM_Ret thenM_Ret draw_Ret dest!: call_Ret)
    have keys: "key_row x ?e = (if x = acc then Some ?v else key_row x e)" for x
      using key_row_set_key [where e = "e\<lparr>es_seed := es_seed e + 1\<rparr>" and x = x and acc = acc and w = ?v] w
      by (simp add: key_row_def)
    have "\<forall>(x, v) \<in> set rows. key_row x ?e = Some v" using rest notin keys by force
    note IH = Cons.IH [OF r dist this]
    have other: "account_key S x ?e = account_key S x e" if "x \<noteq> acc" for x
      using that keys by (simp add: account_key_def)
    have "account_key (without_retired S) acc e' = Some raw"
      using IH notin keys open_seal [OF assms(1) length_rand [OF assms(1)]]
      by (simp add: account_key_without_retired)
    moreover have "account_key S acc e = Some raw" using w raw by (simp add: account_key_def unwrapped_def)
    ultimately have "account_key (without_retired S) x e' = account_key S x e" if "x \<in> fst ` set (row # rows)" for x
      using IH other notin that row by (cases "x = acc") auto
    moreover have "key_row x e' = key_row x e" if "x \<notin> fst ` set (row # rows)" for x
      using IH keys that row by auto
    ultimately show ?thesis using IH KeyRetired row by simp
  qed
qed simp

text \<open>
  C20. Completing a master-key rotation. When \<open>RewrapAll\<close> returns, whatever faults it met, every
  account's data key is the one it had before and opens with the active master key alone, so
  the retired keys can be dropped from the configuration; the counts returned are those of the
  rows only a retired key opened and of the rows no key opens.
\<close>

theorem rewrap_completes_rotation:
  assumes "evlib_ok (sv_lib S)" and "distinct (map fst (es_keys e))"
    and "RewrapAll S fs e = (Ret (n, p), fs', e')"
  shows "(\<forall>acc. account_key (without_retired S) acc e' = account_key S acc e) \<and>
    n = length (filter (\<lambda>(acc, w). classify (sv_lib S) (sv_cipher S) acc w = KeyRetired) (es_keys e)) \<and>
    p = length (filter (\<lambda>(acc, w). classify (sv_lib S) (sv_cipher S) acc w = KeyPoison) (es_keys e))"
proof -
  obtain fs1 where r: "rewrap_rows S (es_keys e) 0 0 fs1 e = (Ret (n, p), fs', e')"
    using assms(3) by (auto simp: RewrapAll_def bindM_Ret dest!: call_Ret)
  have rows: "\<forall>(acc, w) \<in> set (es_keys e). key_row acc e = Some w"
    using assms(2) by (auto simp: key_row_def)
  note R = rewrap_rows_Ret [OF assms(1) r assms(2) rows]
  have "account_key (without_retired S) acc e' = account_key S acc e" if "acc \<notin> fst ` set (es_keys e)" for acc
  proof -
    have "key_row acc e = None" using that by (simp add: key_row_def map_of_eq_None_iff)
    then show ?thesis using R that by (simp add: account_key_def)
  qed
  then have "account_key (without_retired S) acc e' = account_key S acc e" for acc
    using R by (cases "acc \<in> fst ` set (es_keys e)") blast+
  then show ?thesis using R by simp
qed

theorem rewrap_completes_rotation_witness:
  "\<exists>S w e'. S = toy_service\<lparr>sv_cipher := \<lparr>ci_active = ''new'', ci_retired = [''old''], ci_ephemeral = False\<rparr>\<rparr> \<and>
     w = sealAAD toy_lib ''old'' (replicate 12 CHR ''n'') ''dek'' [CHR ''i''] \<and>
     RewrapAll S [] (empty_estate\<lparr>es_keys := [(1, w)]\<rparr>) = (Ret (1, 0), [], e') \<and>
     account_key (without_retired S) 1 e' = account_key S 1 (empty_estate\<lparr>es_keys := [(1, w)]\<rparr>)"
proof -
  let ?S = "toy_service\<lparr>sv_cipher := \<lparr>ci_active = ''new'', ci_retired = [''old''], ci_ephemeral = False\<rparr>\<rparr>"
  let ?w = "sealAAD toy_lib ''old'' (replicate 12 CHR ''n'') ''dek'' [CHR ''i'']"
  let ?e = "empty_estate\<lparr>es_keys := [(1, ?w)]\<rparr>"
  have L: "evlib_ok (sv_lib ?S)" "sv_lib ?S = toy_lib" using toy_lib_ok by (simp_all add: toy_service_def)
  have c: "classify toy_lib (sv_cipher ?S) 1 ?w = KeyRetired"
    by code_simp
  obtain e' where r: "RewrapAll ?S [] ?e = (Ret (1, 0), [], e')"
    by (simp add: RewrapAll_def bindM_def call_ok L(2) c [simplified] draw_def thenM_def getM_def modM_def ret_def Let_def)
  show ?thesis using rewrap_completes_rotation [OF L(1) _ r] r by simp
qed

subsection \<open>A missing bucket\<close>

definition sv_with_bucket :: "unit s3_server \<Rightarrow> unit Service" where
  "sv_with_bucket srv = \<lparr>sv_lib = toy_lib, sv_store = S3Store srv \<lparr>s3_endpoint = [], s3_bucket = []\<rparr>,
     sv_signer = toy_signer ''key'',
     sv_cipher = \<lparr>ci_active = replicate 32 (CHR ''A''), ci_retired = [], ci_ephemeral = False\<rparr>,
     sv_retention = DefaultRetention\<rparr>"

text \<open>
  A bucket that does not exist goes unnoticed. Its server answers 404 to every request, which
  the S3 store takes for "already gone" also when putting: \<open>Finalize\<close> returns a path as if the
  evidence were stored, and verifying that path fails.
\<close>

theorem s3_missing_bucket_unnoticed:
  assumes "sv_store S = S3Store (\<lambda>_ s. (S3Reply 404 body, s)) c"
    and "Encrypt S acc pdf [] e = (Ret blob, [], e1)" and "evlib_ok (sv_lib S)"
  shows "\<exists>e' r e2. Finalize S now d acc pdf [] e = (Ret (el_uuid (sv_lib S) d @ ''.pdf''), [], e') \<and>
    Verify_evidence S d acc (el_uuid (sv_lib S) d @ ''.pdf'') [] e' = (Ret r, [], e2) \<and> \<not> vr_Valid r"
proof -
  let ?key = "el_uuid (sv_lib S) d @ ''.pdf''"
  let ?row = "sig_row (Sign (el_crypto (sv_lib S)) (sv_signer S) pdf (truncate_us now)) (truncate_us now)
      (truncate_us now + sv_retention S)"
  let ?e = "e1\<lparr>es_sigs := set_sig d ?row (es_sigs e1)\<rparr>"
  have F: "Finalize S now d acc pdf [] e = (Ret ?key, [], ?e)"
    by (simp add: Finalize_def Let_def bindM_def tryM_def assms(1,2) put_evidence_def call_ok S3Store_def
        S3Store_Put_def s3_do_def upsert_signature_def ret_def)
  have rd: "st_ReadAll (sv_store S) q s = Inr []" for q s
    by (simp add: assms(1) S3Store_def S3Store_ReadAll_def s3_do_def)
  obtain k where k: "account_key S acc e1 = Some k" "newAEAD k = Inr k"
    using assms(2) accountDEK_Ret [OF assms(3)] by (auto simp: Encrypt_def bindM_Ret draw_Ret)
  then obtain e3 where "accountDEK S acc False [] ?e = (Ret k, [], e3)"
    using accountDEK_again [OF assms(3), of acc ?e k False] by auto
  then have D: "Decrypt S acc [] [] ?e = (Err ''evidence: ciphertext too short'', [], e3)"
    by (simp add: Decrypt_def bindM_def openAAD_def NonceSize_def errM_def)
  have get: "GetSignature d [] ?e = (Ret (Some ?row), [], ?e)"
    by (simp add: GetSignature_def call_ok map_of_set_sig)
  have "\<exists>r e2. Verify_evidence S d acc ?key [] ?e = (Ret r, [], e2) \<and> \<not> vr_Valid r"
    unfolding Verify_evidence_def bindM_def [of "GetSignature d"] get
    by (cases "VerificationKey (sv_signer S) (sg_PublicKeyID ?row)")
      (simp_all add: Let_def bindM_def tryM_def call_ok rd D ret_def)
  with F show ?thesis by blast
qed

theorem s3_missing_bucket_unnoticed_witness:
  "\<exists>e' r e2. Finalize (sv_with_bucket (\<lambda>_ s. (S3Reply 404 [], s))) 0 3 1 ''pdf'' []
       \<lparr>es_store = (), es_keys = [], es_sigs = [], es_seed = 0\<rparr> = (Ret ''iii.pdf'', [], e') \<and>
     Verify_evidence (sv_with_bucket (\<lambda>_ s. (S3Reply 404 [], s))) 3 1 ''iii.pdf'' [] e' = (Ret r, [], e2) \<and>
     \<not> vr_Valid r"
proof -
  let ?S = "sv_with_bucket (\<lambda>_ s. (S3Reply 404 [], s))"
  let ?e = "\<lparr>es_store = (), es_keys = [], es_sigs = [], es_seed = 0\<rparr>"
  have L: "evlib_ok (sv_lib ?S)" using toy_lib_ok by (simp add: sv_with_bucket_def)
  obtain blob e1 where E: "Encrypt ?S 1 ''pdf'' [] ?e = (Ret blob, [], e1)"
    using Encrypt_fresh [OF L, of 1 ?e "''pdf''"] by (auto simp: key_row_def)
  have u: "el_uuid (sv_lib ?S) 3 @ ''.pdf'' = ''iii.pdf''"
    by (simp add: sv_with_bucket_def toy_lib_def numeral_3_eq_3)
  show ?thesis
    using s3_missing_bucket_unnoticed [of ?S "[]" "\<lparr>s3_endpoint = [], s3_bucket = []\<rparr>", OF _ E L, of 0 3]
    unfolding u by (simp add: sv_with_bucket_def)
qed

end
