(* ===== verification/Drill_Evidence.thy ===== *)
theory Drill_Evidence
  imports Drill_Run Evidence_Service
begin

text \<open>
  The drill pipeline together with the evidence service on the local store and the local runner:
  the interface \<open>evidence_service\<close> of theory \<open>Drill_Steps\<close> is interpreted on \<open>Finalize\<close>, and the
  properties that need both sides follow. A small concrete installation gives their instances.
\<close>

section \<open>The pipeline on the evidence service\<close>

definition on_disk :: "disk Service \<Rightarrow> string \<Rightarrow> disk Service" where
  "on_disk S dir = S\<lparr>sv_store := LocalStore dir\<rparr>"

interpretation disk_evidence: evidence_service "Finalize (on_disk S dir)" "stored_evidence (on_disk S dir)" for S dir
proof
  have st: "sv_store (on_disk S dir) = LocalStore dir" by (simp add: on_disk_def)
  fix now d acc pdf fs e p fs' e'
  assume "Finalize (on_disk S dir) now d acc pdf fs e = (Ret p, fs', e')"
  from local_store.Finalize_Ret [OF st this]
  show "p \<noteq> [] \<and> stored_evidence (on_disk S dir) d p e'" by (auto simp: stored_evidence_def st)
next
  fix d p e now x acc pdf fs
  assume "stored_evidence (on_disk S dir) d p e"
  then show "stored_evidence (on_disk S dir) d p (final (Finalize (on_disk S dir) now x acc pdf fs e))"
    by (intro local_store.Finalize_final_keeps) (simp_all add: on_disk_def)
qed

text \<open>
  C2. A succeeded drill has evidence. Let the evidence go to the local store. In every state the drill pipeline reaches, under any faults, crashes,
  repeated or dropped jobs and any operations of the drill store in between, a drill marked succeeded has an
  evidence path, and the evidence store holds a file at that path and a signature for the drill. The jobs that remove evidence
  on purpose, the retention sweep and the erasure of an account, are no steps of these runs; what they remove is the subject of
  the theories \<open>Evidence_Service\<close> and \<open>Erasure\<close>.
\<close>

theorem succeeded_drill_has_evidence:
  assumes "sv_store S = LocalStore dir" and "dp_Finalize D = Finalize S"
    and "initial w0" and "(system_step D U)\<^sup>*\<^sup>* w0 w"
    and "dr \<in> set (db_drills (w_db w))" and "d_Status dr = StatusSucceeded"
  shows "\<exists>p content row. d_EvidencePath dr = Some p \<and> p \<noteq> [] \<and>
    LocalStore_ReadAll p (es_store (w_evid w)) = Inr content \<and> map_of (es_sigs (w_evid w)) (d_ID dr) = Some row"
proof -
  have S: "on_disk S dir = S" using assms(1) by (simp add: on_disk_def)
  show ?thesis
    using disk_evidence.succeeded_has_evidence [of D S dir, unfolded S, OF assms(2-)] assms(1)
    by (auto simp: stored_evidence_def LocalStore_def)
qed

text \<open>
  C3. A failed drill stays failed. Whatever jobs are worked, worked again or dropped, with whatever
  faults, and whatever users do, once a drill has been marked failed no reachable later state
  shows it succeeded or running again.
\<close>

theorem failed_drill_stays_failed:
  assumes "(system_step D U)\<^sup>*\<^sup>* w w'" and "distinct (map d_ID (db_drills (w_db w)))"
    and "dr \<in> set (db_drills (w_db w))" and "d_Status dr = StatusFailed"
  shows "\<exists>dr'. GetDrillByID (d_ID dr) (w_db w') = Inr dr' \<and> d_Status dr' = StatusFailed"
proof -
  have "failed_here (d_ID dr) w" using assms(2-) by (auto simp: failed_here_def)
  with assms(1) have "failed_here (d_ID dr) w'" by (induction rule: rtranclp_induct) (auto intro: failed_step)
  then obtain x where "x \<in> set (db_drills (w_db w'))" "d_ID x = d_ID dr" "d_Status x = StatusFailed"
    "distinct (map d_ID (db_drills (w_db w')))"
    by (auto simp: failed_here_def)
  then show ?thesis using sql_first_distinct [of d_ID _ x] by (auto simp: GetDrillByID_def)
qed

section \<open>A drill from end to end\<close>

text \<open>
  C1. A drill on the local runner, from the queue to the verdict. If the cluster is up, the dump can
  be fetched and restored, every assertion can be evaluated on the restored database, the
  report renders and the evidence is stored, then the run ends with an empty queue, all six
  steps succeeded, one result per assertion, and the drill succeeded when all assertions hold
  and failed otherwise; its evidence verifies and reads back; the sandbox is gone and every
  other database is still there.
\<close>

theorem drill_end_to_end:
  assumes deps: "dp_Runner D = LocalRunner T adminDSN" "dp_Finalize D = Finalize S"
    and evidence: "sv_store S = LocalStore dir" "evlib_ok (sv_lib S)"
      "VerificationKey (sv_signer S) (sn_publicKeyID (sv_signer S)) =
        Some (cr_Public (el_crypto (sv_lib S)) (sn_priv (sv_signer S)))"
    and start: "GetDrillByID d (w_db w) = Inr dr" "d_Status dr = StatusPending" "fresh_steps D d {} (w_db w)" "w_jobs w = []"
      "GetTargetByID (d_TargetID dr) (w_db w) = Inr t"
    and provision: "h_down (w_infra w) = None" "swapDatabase T adminDSN (sandbox_name T d) = Inr dsn"
      "h1 = snd (Local_Provision T adminDSN d (w_infra w))"
    and fetch: "fetchDump T (h_fs h1) (t_SourceURI t) = Inr (path, hash)"
      "store_args (RestoreArgs d path) = Inr (RestoreArgs d path)"
    and restore: "restoreDump T dsn path h1 = ((output, None), h2)" "h_down h2 = None" "live_dbs h2 = live_dbs h1"
    and connect: "dp_Connect D dsn h2 = Inr q"
    and outcomes: "map (spec_outcome q) (ListTargetAssertions (t_ID t) (w_db w)) = map Some outs"
    and renders: "\<And>x. \<exists>pdf. dp_Render D x = Inr pdf"
    and stores: "\<And>pdf. \<exists>e. Finalize S (w_now w) d (d_AccountID dr) pdf [] (w_evid w) = (Ret file, [], e)"
  shows "\<exists>w' dr' pdf. w' = drill_run D audited d priority w \<and> GetDrillByID d (w_db w') = Inr dr' \<and>
    d_Status dr' = (if \<forall>x \<in> set outs. o_Passed x then StatusSucceeded else StatusFailed) \<and>
    results_of d (w_db w') = map o_Passed outs \<and> (\<forall>n. step_status d n (w_db w') = Some StatusSucceeded) \<and>
    w_jobs w' = [] \<and> d_EvidencePath dr' = Some file \<and>
    (\<exists>r e. Verify_evidence S d (d_AccountID dr) file [] (w_evid w') = (Ret r, [], e) \<and> vr_Valid r) \<and>
    (\<exists>e. Read S (d_AccountID dr) file [] (w_evid w') = (Ret pdf, [], e)) \<and>
    live_dbs (w_infra w') = live_dbs (w_infra w) - {sandbox_name T d}"
proof -
  let ?sb = "\<lparr>sb_DrillID = d, sb_DSN = dsn, sb_Name = sandbox_name T d\<rparr>"
  have p: "rn_Provision (dp_Runner D) d (w_infra w) = (Inr ?sb, h1)"
    "live_dbs h1 = insert (sandbox_name T d) (live_dbs (w_infra w))"
    using provision by (auto simp: deps LocalRunner_def local_provision_eq provision_spec_def Let_def live_dbs_def)
  have ne: "sb_Name ?sb \<noteq> []" by (simp add: sandbox_name_def)
  have re: "rn_Rehydrate (dp_Runner D) d (sb_Name ?sb) = Inr ?sb"
    using provision by (simp add: deps LocalRunner_def Local_Rehydrate_def)
  have fe: "rn_Fetch (dp_Runner D) ?sb (t_SourceURI t) h1 = Inr (path, hash)" using fetch by (simp add: deps LocalRunner_def)
  have rs: "rn_Restore (dp_Runner D) ?sb path h1 = ((output, None), h2)" using restore by (simp add: deps LocalRunner_def)
  obtain h3 where td: "rn_Teardown (dp_Runner D) (Some ?sb) h2 = (Inr (), h3)"
    using restore(2) ne by (simp add: deps LocalRunner_def local_teardown_eq)
  have live: "live_dbs h3 = live_dbs (w_infra w) - {sandbox_name T d}"
    using local_runner.Teardown_live [OF td [unfolded deps] ne] restore(3) p(2) by auto
  have conn: "dp_Connect D (sb_DSN ?sb) h2 = Inr q" using connect by simp
  have st: "\<exists>e. dp_Finalize D (w_now w) d (d_AccountID dr) pdf [] (w_evid w) = (Ret file, [], e)" for pdf
    using stores by (simp add: deps)
  from clean_run [OF start(1-5) p(1) ne re fe fetch(2) rs conn outcomes renders st td, of audited priority]
  obtain dr' pdf where R: "GetDrillByID d (w_db (drill_run D audited d priority w)) = Inr dr'"
    "Finalize S (w_now w) d (d_AccountID dr) pdf [] (w_evid w) = (Ret file, [], w_evid (drill_run D audited d priority w))"
    "d_Status dr' = (if \<forall>x \<in> set outs. o_Passed x then StatusSucceeded else StatusFailed)" "d_EvidencePath dr' = Some file"
    "\<forall>n. step_status d n (w_db (drill_run D audited d priority w)) = Some StatusSucceeded"
    "results_of d (w_db (drill_run D audited d priority w)) = map o_Passed outs"
    "w_jobs (drill_run D audited d priority w) = []" "w_infra (drill_run D audited d priority w) = h3"
    by (auto simp: deps)
  from local_store.Finalize_verifies [OF evidence R(2)] R live show ?thesis by blast
qed


section \<open>A concrete system\<close>

text \<open>
  An installation small enough to run by hand, for the concrete instances below: one account, one
  target with one assertion, which the restored database satisfies or not as \<open>b\<close> says.
\<close>

definition demo_tools :: "unit tools" where
  "demo_tools = \<lparr>tl_Abs = Inr, tl_SetPath = (\<lambda>dsn p. Inr (dsn @ p)), tl_LookPath = (\<lambda>_. True),
     tl_Exec = (\<lambda>_ _ h. (([], None), h)), tl_sha256 = id, tl_uuid = unary, tl_empty = ()\<rparr>"

definition demo_querier :: "bool \<Rightarrow> Querier" where
  "demo_querier b = \<lparr>q_int = (\<lambda>_ _. Inr 0), q_bool = (\<lambda>_ _. Inr b), q_query = (\<lambda>_. Inl [])\<rparr>"

definition demo_deps :: "bool \<Rightarrow> (unit host, disk estate) Deps" where
  "demo_deps b = \<lparr>dp_Runner = LocalRunner demo_tools ''pg'', dp_Connect = (\<lambda>_ _. Inr (demo_querier b)),
     dp_Render = (\<lambda>_. Inr ''pdf''), dp_Finalize = Finalize toy_service, dp_sha256 = id, dp_uuid = unary,
     dp_dbError = (\<lambda>_. ''db''), dp_assertError = (\<lambda>_. ''assert''), dp_Webhooks = False, dp_Metrics = False,
     dp_Analytics = False, dp_Notify = False, dp_Billing = None, dp_Accounts = False, dp_Customer = (\<lambda>_. Inr None)\<rparr>"

definition demo_uuid :: uuid_lib where
  "demo_uuid = \<lparr>uuid_String = unary, uuid_Parse = (\<lambda>s. Some (length s))\<rparr>"

definition demo_assertion :: Assertion where
  "demo_assertion = \<lparr>a_ID = 1, a_TargetID = 1, a_Kind = KindTableExists, a_Config = JObj [(''table'', JStr ''users'')], a_CreatedAt = 0\<rparr>"

definition demo_target :: Target where
  "demo_target = \<lparr>t_ID = 1, t_AccountID = 1, t_CreatedByUserID = 1, t_Name = ''db'', t_SourceKind = ''postgres_dump_local'',
     t_SourceURI = ''/d.sql'', t_TeamID = None, t_CreatedAt = 0, t_DrillCadence = [], t_NextDrillAt = None, t_IsSample = False\<rparr>"

definition demo_start :: "(unit host, disk estate) world" where
  "demo_start =
     \<lparr>w_db = \<lparr>db_users = [(1, ''u@example.com'')],
        db_accounts = [\<lparr>acct_ID = 1, acct_Name = [], acct_Slug = [], acct_StripeCustomerID = None, acct_Plan = ''pro'',
          acct_CreatedAt = 0, acct_TrialEndsAt = None, acct_SubscriptionStatus = None, acct_Unlimited = False, acct_deleted_at = None\<rparr>],
        db_teams = [], db_targets = [Target.extend demo_target \<lparr>t_deleted_at = None\<rparr>], db_assertions = [demo_assertion],
        db_drills = [], db_steps = [], db_results = [], db_idem = []\<rparr>,
      w_jobs = [], w_infra = \<lparr>h_dbs = [], h_fs = (\<lambda>_. Some (File ''SELECT 1;'')), h_down = None\<rparr>,
      w_evid = empty_estate, w_audit = [], w_out = [], w_now = 1000000, w_fresh = 10\<rparr>"

definition demo_created :: "(unit host, disk estate) world" where
  "demo_created = demo_start\<lparr>w_db := snd (CreateDrillIdempotent demo_uuid 2 0 1 1 1 ''k'' (w_db demo_start))\<rparr>"

definition demo_drill :: Drill where
  "demo_drill = \<lparr>d_ID = 2, d_TargetID = 1, d_AccountID = 1, d_CreatedByUserID = 1, d_Status = StatusPending,
     d_StartedAt = None, d_CompletedAt = None, d_Error = None, d_EvidencePath = None, d_SandboxDB = None,
     d_SourceHash = None, d_CreatedAt = 0\<rparr>"

definition demo_host :: "unit host" where
  "demo_host = \<lparr>h_dbs = [(''drill_mm'', ())], h_fs = (\<lambda>_. Some (File ''SELECT 1;'')), h_down = None\<rparr>"

definition demo_outcome :: "bool \<Rightarrow> Outcome" where
  "demo_outcome b = \<lparr>o_Kind = KindTableExists, o_Expected = JObj [(''table'', JStr ''users'')],
     o_Actual = JObj [(''table'', JStr ''users''), (''exists'', JBool b)], o_Passed = b\<rparr>"

lemma demo_drills: "db_drills (w_db demo_created) = [demo_drill]" "db_steps (w_db demo_created) = []"
  "db_targets (w_db demo_created) = [Target.extend demo_target \<lparr>t_deleted_at = None\<rparr>]"
  "db_assertions (w_db demo_created) = [demo_assertion]" "w_jobs demo_created = []" "w_evid demo_created = empty_estate"
  "w_infra demo_created = \<lparr>h_dbs = [], h_fs = (\<lambda>_. Some (File ''SELECT 1;'')), h_down = None\<rparr>" "w_now demo_created = 1000000"
  by (simp_all add: demo_created_def demo_start_def CreateDrillIdempotent_def demo_drill_def Let_def target_exists_def
      account_exists_def user_exists_def demo_target_def Target.defs)

lemma demo_reads:
  "GetDrillByID 2 (w_db demo_created) = Inr demo_drill" "GetTargetByID (d_TargetID demo_drill) (w_db demo_created) = Inr demo_target"
  "fresh_steps D 2 {} (w_db demo_created)" "d_Status demo_drill = StatusPending" "d_AccountID demo_drill = 1"
  by (simp_all add: GetDrillByID_def GetTargetByID_def demo_drills demo_drill_def fresh_steps_def step_status_def GetStep_def
      demo_target_def Target.defs)

lemma demo_outcomes:
  "map (spec_outcome (demo_querier b)) (ListTargetAssertions (t_ID demo_target) (w_db demo_created)) = map Some [demo_outcome b]"
proof -
  have "spec_outcome (demo_querier b) demo_assertion = Some (demo_outcome b)" by (cases b; simp only:; code_simp)
  then show ?thesis by (simp add: ListTargetAssertions_def demo_drills demo_assertion_def demo_target_def)
qed

lemma demo_service:
  "sv_store toy_service = LocalStore ''ev''" "evlib_ok (sv_lib toy_service)"
  "VerificationKey (sv_signer toy_service) (sn_publicKeyID (sv_signer toy_service)) =
    Some (cr_Public (el_crypto (sv_lib toy_service)) (sn_priv (sv_signer toy_service)))"
  using toy_lib_ok
  by (simp_all add: toy_service_def VerificationKey_def toy_signer_def) (simp add: toy_lib_def toy_crypto_def)

lemma demo_stores: "\<exists>e. Finalize toy_service (w_now demo_created) 2 1 pdf [] (w_evid demo_created) = (Ret ''ev/ii.pdf'', [], e)"
  using Finalize_fresh [OF demo_service(1,2), of 1 empty_estate "w_now demo_created" 2 pdf]
  by (auto simp: demo_drills empty_estate_def key_row_def toy_service_def toy_lib_def local_path_def numeral_2_eq_2)

lemma demo_name: "sandbox_name demo_tools 2 = ''drill_mm''" "swapDatabase demo_tools ''pg'' ''drill_mm'' = Inr ''pg/drill_mm''"
  by code_simp+

lemma demo_provision: "snd (Local_Provision demo_tools ''pg'' 2 (w_infra demo_created)) = demo_host"
  by (simp add: local_provision_eq provision_spec_def demo_drills demo_name demo_host_def)

lemma demo_restore:
  "fetchDump demo_tools (h_fs demo_host) (t_SourceURI demo_target) = Inr (''/d.sql'', hexEncode ''SELECT 1;'')"
  "store_args (RestoreArgs 2 ''/d.sql'') = Inr (RestoreArgs 2 ''/d.sql'')"
  "restoreDump demo_tools ''pg/drill_mm'' ''/d.sql'' demo_host = (([], None), demo_host)"
  by (simp add: fetchDump_def demo_tools_def demo_host_def demo_target_def hashDump_def, code_simp,
    simp add: restoreDump_def detectDumpFormat_def dump_head_def Let_def demo_tools_def demo_host_def runDumpCmd_def)


definition demo_sandbox :: Sandbox where
  "demo_sandbox = \<lparr>sb_DrillID = 2, sb_DSN = ''pg/drill_mm'', sb_Name = ''drill_mm''\<rparr>"

lemma demo_calls:
  "rn_Provision (dp_Runner (demo_deps b)) 2 (w_infra demo_created) = (Inr demo_sandbox, demo_host)"
  "sb_Name demo_sandbox \<noteq> []" "rn_Rehydrate (dp_Runner (demo_deps b)) 2 (sb_Name demo_sandbox) = Inr demo_sandbox"
  "rn_Fetch (dp_Runner (demo_deps b)) demo_sandbox (t_SourceURI demo_target) demo_host = Inr (''/d.sql'', hexEncode ''SELECT 1;'')"
  "store_args (RestoreArgs 2 ''/d.sql'') = Inr (RestoreArgs 2 ''/d.sql'')"
  "rn_Restore (dp_Runner (demo_deps b)) demo_sandbox ''/d.sql'' demo_host = (([], None), demo_host)"
  "dp_Connect (demo_deps b) (sb_DSN demo_sandbox) demo_host = Inr (demo_querier b)"
  using demo_provision demo_restore
  by (simp_all add: demo_deps_def LocalRunner_def local_provision_eq provision_spec_def demo_drills demo_name demo_sandbox_def
      Local_Rehydrate_def)

lemma demo_teardown: "\<exists>h. rn_Teardown (dp_Runner (demo_deps b)) (Some demo_sandbox) demo_host = (Inr (), h)"
  by (simp add: demo_deps_def LocalRunner_def local_teardown_eq demo_host_def demo_sandbox_def)

lemma demo_run:
  "\<exists>dr'. GetDrillByID 2 (w_db (drill_run (demo_deps b) False 2 0 demo_created)) = Inr dr' \<and>
     d_Status dr' = (if b then StatusSucceeded else StatusFailed)"
proof -
  obtain h where td: "rn_Teardown (dp_Runner (demo_deps b)) (Some demo_sandbox) demo_host = (Inr (), h)"
    using demo_teardown by blast
  have st: "\<exists>e. dp_Finalize (demo_deps b) (w_now demo_created) 2 (d_AccountID demo_drill) pdf [] (w_evid demo_created) =
      (Ret ''ev/ii.pdf'', [], e)" "\<exists>pdf. dp_Render (demo_deps b) x = Inr pdf" for pdf x
    using demo_stores by (simp_all add: demo_deps_def demo_reads)
  show ?thesis
    using clean_run [OF demo_reads(1,4,3) demo_drills(5) demo_reads(2) demo_calls demo_outcomes st(2,1) td, where audited = False and priority = 0]
    by (auto simp: demo_outcome_def)
qed

lemma demo_reachable: "(system_step D demo_uuid)\<^sup>*\<^sup>* demo_start (drill_run D audited 2 0 demo_created)" "initial demo_start"
proof -
  have "\<not> drill_exists 2 (w_db demo_start)" by (simp add: demo_start_def drill_exists_def)
  then have "user_step demo_uuid (w_db demo_start) (snd (CreateDrillIdempotent demo_uuid 2 0 1 1 1 ''k'' (w_db demo_start)))"
    by (rule user_step.intros(5))
  then have "system_step D demo_uuid demo_start demo_created" unfolding demo_created_def by (rule user)
  then show "(system_step D demo_uuid)\<^sup>*\<^sup>* demo_start (drill_run D audited 2 0 demo_created)"
    using drill_run_steps by (meson converse_rtranclp_into_rtranclp)
  show "initial demo_start" by (simp add: initial_def demo_start_def)
qed

theorem succeeded_drill_has_evidence_witness:
  "\<exists>w dr p content row. (system_step (demo_deps True) demo_uuid)\<^sup>*\<^sup>* demo_start w \<and> dr \<in> set (db_drills (w_db w)) \<and>
     d_Status dr = StatusSucceeded \<and> d_EvidencePath dr = Some p \<and>
     LocalStore_ReadAll p (es_store (w_evid w)) = Inr content \<and> map_of (es_sigs (w_evid w)) (d_ID dr) = Some row"
proof -
  let ?w = "drill_run (demo_deps True) False 2 0 demo_created"
  obtain dr where dr: "GetDrillByID 2 (w_db ?w) = Inr dr" "d_Status dr = StatusSucceeded" using demo_run [of True] by auto
  then have "dr \<in> set (db_drills (w_db ?w))" by (auto simp: GetDrillByID_def split: option.splits dest: sql_first_Some)
  moreover have "dp_Finalize (demo_deps True) = Finalize toy_service" by (simp add: demo_deps_def)
  ultimately show ?thesis
    using succeeded_drill_has_evidence [OF demo_service(1) _ demo_reachable(2,1)] dr(2) demo_reachable(1) by blast
qed

theorem failed_drill_stays_failed_witness:
  "\<exists>dr'. GetDrillByID 2 (w_db (drill_run (demo_deps True) False 2 0
       (demo_created\<lparr>w_db := (w_db demo_created)\<lparr>db_drills := [demo_drill\<lparr>d_Status := StatusFailed\<rparr>]\<rparr>\<rparr>))) = Inr dr' \<and>
     d_Status dr' = StatusFailed"
proof -
  let ?w = "demo_created\<lparr>w_db := (w_db demo_created)\<lparr>db_drills := [demo_drill\<lparr>d_Status := StatusFailed\<rparr>]\<rparr>\<rparr>"
  show ?thesis
    using failed_drill_stays_failed [OF drill_run_steps, of ?w "demo_drill\<lparr>d_Status := StatusFailed\<rparr>" "demo_deps True" False 2 0]
    by (simp add: demo_drill_def)
qed

theorem drill_end_to_end_witness:
  "\<exists>w' dr' r e. w' = drill_run (demo_deps False) True 2 0 demo_created \<and> GetDrillByID 2 (w_db w') = Inr dr' \<and>
     d_Status dr' = StatusFailed \<and> Verify_evidence toy_service 2 1 ''ev/ii.pdf'' [] (w_evid w') = (Ret r, [], e) \<and> vr_Valid r \<and>
     live_dbs (w_infra w') = {}"
proof -
  let ?D = "demo_deps False"
  have deps: "dp_Runner ?D = LocalRunner demo_tools ''pg''" "dp_Finalize ?D = Finalize toy_service"
    "dp_Connect ?D ''pg/drill_mm'' demo_host = Inr (demo_querier False)" "\<exists>pdf. dp_Render ?D x = Inr pdf" for x
    by (simp_all add: demo_deps_def)
  have host: "h_down (w_infra demo_created) = None" "h_down demo_host = None" "live_dbs (w_infra demo_created) = {}"
    by (simp_all add: demo_drills demo_host_def live_dbs_def)
  have st: "\<exists>e. Finalize toy_service (w_now demo_created) 2 (d_AccountID demo_drill) pdf [] (w_evid demo_created) = (Ret ''ev/ii.pdf'', [], e)" for pdf
    using demo_stores by (simp add: demo_reads)
  show ?thesis
    using drill_end_to_end [OF deps(1,2) demo_service demo_reads(1,4,3) demo_drills(5) demo_reads(2) host(1), unfolded demo_name,
        OF refl demo_provision [symmetric] demo_restore(1,2,3) host(2) refl deps(3) demo_outcomes deps(4) st, of True 0]
    by (auto simp: demo_outcome_def host(3) demo_reads)
qed


section \<open>One crash can turn a failed verdict into a success\<close>

text \<open>
  C39. The report worker records its step as succeeded before it records the verdict. If the process
  dies between the two writes, the job is run again, finds its step done and hands the drill to
  teardown without a failure reason, and teardown marks the drill succeeded: a drill with a
  failed assertion result ends succeeded. The run has exactly one fault, the crash.
\<close>

theorem report_crash_hides_failure:
  assumes st: "stage d dr fin rs [ReportArgs d] i e w" "StepReport \<notin> fin" "StepTeardown \<notin> fin" "d_Status dr = StatusRunning"
    and bad: "False \<in> set rs"
    and t: "GetTargetByID (d_TargetID dr) (w_db w) = Inr t"
    and renders: "\<And>x. dp_Render D x = Inr pdf"
    and stores: "\<And>fs. dp_Finalize D (w_now w) d (d_AccountID dr) pdf (replicate k NoFault @ fs) e = (Ret path, fs, e')"
    and sb: "d_SandboxDB dr = Some name" "name \<noteq> []" "rn_Rehydrate (dp_Runner D) d name = Inr sb"
    and td: "rn_Teardown (dp_Runner D) (Some sb) i = (Inr (), i')"
  shows "\<exists>w' dr'. w' = deliver D [] (deliver D [] (deliver D (replicate (k + 9) NoFault @ [Crash]) w)) \<and>
    GetDrillByID d (w_db w') = Inr dr' \<and> d_Status dr' = StatusSucceeded \<and> False \<in> set (results_of d (w_db w'))"
proof -
  let ?dr = "dr\<lparr>d_EvidencePath := Some path\<rparr>"
  note s1 = report_crash [OF st(1,2) bad t renders stores]
  note s2 = report_again [OF s1, where D = D, simplified, THEN conjunct1]
  have "d_SandboxDB ?dr = Some name" "[] = [] \<and> d_Status ?dr \<noteq> StatusFailed \<or> [] = ''assertion_failed''"
    using sb(1) st(4) by simp_all
  from teardown_run [OF s2 _ this(1) sb(2,3) td this(2)] st(3) bad show ?thesis
    by (auto simp: stage_def)
qed

lemma demo_stores_faults:
  "Finalize toy_service t 2 1 ''pdf'' (replicate 5 NoFault @ fs) empty_estate =
     (Ret ''ev/ii.pdf'', fs, snd (snd (Finalize toy_service t 2 1 ''pdf'' [] empty_estate)))"
proof -
  let ?S = toy_service and ?L = toy_lib
  have L: "sv_lib ?S = toy_lib" by (simp add: toy_service_def)
  let ?w = "sealAAD ?L (ci_active (sv_cipher ?S)) (el_rand ?L (Suc 0) NonceSize) (el_rand ?L 0 32) (el_idBytes ?L 1)"
  have op: "openAAD ?L (ci_active (sv_cipher ?S)) ?w (el_idBytes ?L 1) = Inr (el_rand ?L 0 32)"
    by (rule open_seal [OF toy_lib_ok length_rand [OF toy_lib_ok]])
  have path: "local_path ''ev'' (el_uuid toy_lib 2) = ''ev/ii.pdf''" by (simp add: toy_lib_def local_path_def numeral_2_eq_2)
  obtain blob e1 where E: "Encrypt ?S 1 ''pdf'' [] empty_estate = (Ret blob, [], e1)" "dk_fail (es_store e1) = None"
    "Encrypt ?S 1 ''pdf'' (NoFault # NoFault # NoFault # gs) empty_estate = (Ret blob, gs, e1)" for gs
    using op length_rand [OF toy_lib_ok]
    by (simp add: Encrypt_def accountDEK_def mintDEK_def loadWrappedDEK_def draw_def bindM_def thenM_def getM_def modM_def ret_def
        call_ok call_NoFault L key_row_def empty_estate_def unwrapDEK_def Let_def newAEAD_def)
  have five: "replicate 5 NoFault @ fs = NoFault # NoFault # NoFault # NoFault # NoFault # fs" by (simp add: numeral_eq_Suc)
  show ?thesis
    unfolding five
    by (simp add: Finalize_def Let_def bindM_def tryM_def E put_evidence_def upsert_signature_def call_ok call_NoFault
        demo_service(1) LocalStore_def LocalStore_Put_def ret_def L path del: One_nat_def)
qed

theorem report_crash_hides_failure_witness:
  "\<exists>w' dr'. w' = (deliver (demo_deps False) [] ^^ 2) (deliver (demo_deps False) (replicate 14 NoFault @ [Crash])
       ((deliver (demo_deps False) [] ^^ 4) (final (EnqueueDrill (demo_deps False) True 2 0 [] demo_created)))) \<and>
     GetDrillByID 2 (w_db w') = Inr dr' \<and> d_Status dr' = StatusSucceeded \<and> False \<in> set (results_of 2 (w_db w'))"
proof -
  let ?D = "demo_deps False"
  obtain dr w where w: "w = (deliver ?D [] ^^ 4) (final (EnqueueDrill ?D True 2 0 [] demo_created))"
    "stage 2 dr {StepAssert, StepRestore, StepFetch, StepProvision} [False] [ReportArgs 2] demo_host empty_estate w"
    "d_SandboxDB dr = Some (sb_Name demo_sandbox)" "d_Status dr = StatusRunning" "d_AccountID dr = 1"
    "GetTargetByID (d_TargetID dr) (w_db w) = Inr demo_target"
    using clean_until_report [where D = ?D and audited = True and priority = 0,
        OF demo_reads(1,4,3) demo_drills(5) demo_reads(2) demo_calls demo_outcomes]
    by (auto simp: demo_outcome_def demo_drills demo_reads)
  obtain e' where st: "dp_Finalize ?D (w_now w) 2 (d_AccountID dr) ''pdf'' (replicate 5 NoFault @ fs) empty_estate =
      (Ret ''ev/ii.pdf'', fs, e')" for fs
    using demo_stores_faults w(5) by (simp add: demo_deps_def)
  obtain h where td: "rn_Teardown (dp_Runner ?D) (Some demo_sandbox) demo_host = (Inr (), h)" using demo_teardown by blast
  show ?thesis
    using report_crash_hides_failure [OF w(2) _ _ w(4) _ w(6) _ st w(3) demo_calls(2,3) td]
    unfolding w(1) [symmetric] by (simp add: demo_deps_def numeral_2_eq_2)
qed

end
