(* ===== verification/Go_Text.thy ===== *)
theory Go_Text
  imports Prelude
begin

section \<open>Functions of the package strings\<close>

text \<open>
  The functions of the standard library on texts that several components use, on UTF-8 bytes:
  trimming white space, and changing case as far as ASCII letters come out of it. Where the
  source compares or stores texts whose case was changed over all of Unicode, the functions of
  the record \<open>text_lib\<close> stand for the tables of Unicode and of the database.
\<close>

subsection \<open>Trimming white space\<close>

text \<open>The UTF-8 forms of the code points with the property White Space, as \<open>strings.TrimSpace\<close> cuts them.\<close>

definition white_space :: "string list" where
  "white_space =
     map (\<lambda>n. [char_of (n :: nat)]) [9, 10, 11, 12, 13, 32] @
     [[CHR 0xC2, CHR 0x85], [CHR 0xC2, CHR 0xA0], [CHR 0xE1, CHR 0x9A, CHR 0x80]] @
     map (\<lambda>n. [CHR 0xE2, CHR 0x80, char_of (n :: nat)]) ([128..<139] @ [168, 169, 175]) @
     [[CHR 0xE2, CHR 0x81, CHR 0x9F], [CHR 0xE3, CHR 0x80, CHR 0x80]]"

function trim_by :: "string list \<Rightarrow> string \<Rightarrow> string" where
  "trim_by ws s =
     (case find (\<lambda>w. w \<noteq> [] \<and> take (length w) s = w) ws of
        None \<Rightarrow> s
      | Some w \<Rightarrow> trim_by ws (drop (length w) s))"
  by pat_completeness auto
termination
  by (relation "measure (\<lambda>(ws, s). length s)") (auto simp: find_Some_iff, metis diff_less length_greater_0_conv take_eq_Nil)

declare trim_by.simps [simp del]

definition TrimSpace :: "string \<Rightarrow> string" where
  "TrimSpace s = rev (trim_by (map rev white_space) (rev (trim_by white_space s)))"

text \<open>A text that starts and ends with a printable character of ASCII is not changed.\<close>

definition printable :: "char \<Rightarrow> bool" where
  "printable c = (32 < (of_char c :: nat) \<and> (of_char c :: nat) < 127)"

lemma white_space_bytes: "w \<in> set white_space \<Longrightarrow> w \<noteq> [] \<and> \<not> printable (hd w) \<and> \<not> printable (last w)"
  by (auto simp: white_space_def printable_def)

lemma trim_by_id: "(\<And>w. w \<in> set ws \<Longrightarrow> w \<noteq> [] \<Longrightarrow> hd w \<noteq> hd s) \<Longrightarrow> trim_by ws s = s"
proof -
  assume h: "\<And>w. w \<in> set ws \<Longrightarrow> w \<noteq> [] \<Longrightarrow> hd w \<noteq> hd s"
  have "find (\<lambda>w. w \<noteq> [] \<and> take (length w) s = w) ws = None"
    unfolding find_None_iff using h by (metis hd_take length_greater_0_conv)
  then show ?thesis by (simp add: trim_by.simps)
qed

lemma TrimSpace_printable: "printable (hd s) \<Longrightarrow> printable (last s) \<Longrightarrow> TrimSpace s = s"
proof -
  assume h: "printable (hd s)" "printable (last s)"
  have "trim_by white_space s = s"
    by (rule trim_by_id) (use h white_space_bytes in metis)
  moreover have "trim_by (map rev white_space) (rev s) = rev s"
  proof (rule trim_by_id)
    fix w assume "w \<in> set (map rev white_space)" "w \<noteq> []"
    then obtain v where "w = rev v" "v \<in> set white_space" "v \<noteq> []" by auto
    with h white_space_bytes [of v] show "hd w \<noteq> hd (rev s)" by (auto simp: hd_rev)
  qed
  ultimately show ?thesis by (simp add: TrimSpace_def)
qed

subsection \<open>Changing case\<close>

text \<open>
  \<open>strings.ToUpper\<close> as far as the decoder can tell: two characters outside ASCII have an ASCII
  letter as their upper case, the dotless i and the long s; every other one stays outside the
  alphabet.
\<close>

fun upper_ascii :: "string \<Rightarrow> string" where
  "upper_ascii [] = []"
| "upper_ascii (a # s) =
     (if a = CHR 0xC4 \<and> take 1 s = [CHR 0xB1] then CHR ''I'' # upper_ascii (drop 1 s)
      else if a = CHR 0xC5 \<and> take 1 s = [CHR 0xBF] then CHR ''S'' # upper_ascii (drop 1 s)
      else
        (let n = of_char a :: nat in
         (if 97 \<le> n \<and> n \<le> 122 then char_of (n - 32) else a) # upper_ascii s))"

text \<open>
  The functions that make slugs work on a lower-cased name. Two characters outside ASCII have an ASCII letter as
  their lower case, the Kelvin sign and the dotted capital I; of all others it only matters
  that they are not letters or digits of ASCII.
\<close>

fun lower_ascii :: "string \<Rightarrow> string" where
  "lower_ascii [] = []"
| "lower_ascii (a # s) =
     (if a = CHR 0xE2 \<and> take 2 s = [CHR 0x84, CHR 0xAA] then CHR ''k'' # lower_ascii (drop 2 s)
      else if a = CHR 0xC4 \<and> take 1 s = [CHR 0xB0] then CHR ''i'' # lower_ascii (drop 1 s)
      else
        (let n = of_char a :: nat in
         (if 65 \<le> n \<and> n \<le> 90 then char_of (n + 32) else a) # lower_ascii s))"

definition slug_char :: "char \<Rightarrow> bool" where
  "slug_char c = (let n = of_char c :: nat in 97 \<le> n \<and> n \<le> 122 \<or> 48 \<le> n \<and> n \<le> 57)"

text \<open>A run of other characters becomes one dash; \<open>dashed\<close> says that the run before has its dash.\<close>

fun dash_runs :: "bool \<Rightarrow> string \<Rightarrow> string" where
  "dash_runs dashed [] = []"
| "dash_runs dashed (c # s) =
     (if slug_char c then c # dash_runs False s
      else if dashed then dash_runs True s
      else CHR ''-'' # dash_runs True s)"

definition trim_dashes :: "string \<Rightarrow> string" where
  "trim_dashes s = rev (dropWhile (\<lambda>c. c = CHR ''-'') (rev (dropWhile (\<lambda>c. c = CHR ''-'') s)))"

subsection \<open>Reading numbers\<close>

definition is_dec :: "char \<Rightarrow> bool" where
  "is_dec c = (48 \<le> (of_char c :: nat) \<and> (of_char c :: nat) \<le> 57)"

definition dec_val :: "string \<Rightarrow> int" where
  "dec_val ds = foldl (\<lambda>n c. 10 * n + (of_char c - 48)) 0 ds"

text \<open>
  \<open>strconv.ParseInt(s, 10, 64)\<close>: the value and whether there was no error. A number out of range
  gives the bound it is beyond, with an error. \<open>strconv.Atoi\<close> reads the same numbers.
\<close>

definition ParseInt :: "string \<Rightarrow> int \<times> bool" where
  "ParseInt s =
     (let neg = s \<noteq> [] \<and> hd s = CHR ''-'';
          ds = (if s \<noteq> [] \<and> (hd s = CHR ''+'' \<or> hd s = CHR ''-'') then tl s else s)
      in if ds = [] \<or> \<not> list_all is_dec ds then (0, False)
         else if neg then (if dec_val ds > 2 ^ 63 then (- (2 ^ 63), False) else (- dec_val ds, True))
         else if dec_val ds \<ge> 2 ^ 63 then (2 ^ 63 - 1, False) else (dec_val ds, True))"

lemma dec_val_snoc: "dec_val (xs @ [c]) = 10 * dec_val xs + (of_char c - 48)"
  by (simp add: dec_val_def)

lemma is_dec_digit: "k < 10 \<Longrightarrow> is_dec (char_of (48 + k :: nat))"
  by (simp add: is_dec_def)

lemma of_char_digit: "k < 10 \<Longrightarrow> (of_char (char_of (48 + k :: nat)) :: int) = 48 + int k"
  by (subst of_nat_of_char [symmetric]) simp

lemma dec_nat_is_dec: "list_all is_dec (dec_nat n)"
proof (induction n rule: dec_nat.induct)
  case (1 n)
  then show ?case by (subst dec_nat.simps) (simp add: is_dec_digit)
qed

lemma dec_val_dec_nat [simp]: "dec_val (dec_nat n) = int n"
proof (induction n rule: dec_nat.induct)
  case (1 n)
  show ?case
  proof (cases "n < 10")
    case True
    then show ?thesis by (simp add: dec_nat.simps [of n] dec_val_def of_char_digit)
  next
    case False
    have "10 * (int n div 10) + int n mod 10 = int n" by simp
    with False 1 show ?thesis by (simp add: dec_nat.simps [of n] dec_val_snoc of_char_digit zdiv_int zmod_int)
  qed
qed

lemma ParseInt_dec_int:
  assumes "0 \<le> n" and "n < 2 ^ 63"
  shows "ParseInt (dec_int n) = (n, True)"
proof -
  have "is_dec (hd (dec_nat (nat n)))"
    using dec_nat_is_dec [of "nat n"] dec_nat_nonempty [of "nat n"] by (cases "dec_nat (nat n)") simp_all
  then have "hd (dec_nat (nat n)) \<noteq> CHR ''-''" "hd (dec_nat (nat n)) \<noteq> CHR ''+''" by (auto simp: is_dec_def)
  then show ?thesis
    using assms by (simp add: ParseInt_def dec_int_def dec_nat_nonempty dec_nat_is_dec)
qed

subsection \<open>Unicode tables\<close>

text \<open>
  \<open>strings.ToLower\<close> and \<open>strings.EqualFold\<close>, the key by which two \<open>citext\<close> values of the
  database are equal, the order of its texts, \<open>sha256.Sum256\<close>, the printing and reading of an
  identifier, and the reading of an \<open>inet\<close> value, given as \<open>host()\<close> prints it.
\<close>

record text_lib =
  tx_ToLower :: "string \<Rightarrow> string"
  tx_EqualFold :: "string \<Rightarrow> string \<Rightarrow> bool"
  tx_citext :: "string \<Rightarrow> string"
  tx_order :: "string \<Rightarrow> string"
  tx_sha256 :: "bytes \<Rightarrow> bytes"
  tx_uuid :: "uuid \<Rightarrow> string"
  tx_parse_uuid :: "string \<Rightarrow> uuid option"
  tx_inet :: "string \<Rightarrow> string option"

end
