(* ===== verification/Heartbeat_Monitors.thy ===== *)
theory Heartbeat_Monitors
  imports Drill_Store Faults Go_Text
begin

section \<open>Heartbeat monitors\<close>

text \<open>
  \<open>internal/heartbeat\<close>: the tables \<open>heartbeats\<close> and \<open>heartbeat_pings\<close> with the operations of
  \<open>store.go\<close>, and the sweeper job of \<open>sweeper.go\<close> as a procedure with faults. The statements run
  inside PostgreSQL and read its clock, here the argument \<open>now\<close>; the columns
  \<open>period_seconds\<close> and \<open>grace_seconds\<close> are 32-bit integers. Randomness (\<open>newToken\<close>) and new row
  identifiers are arguments.
\<close>

datatype hb_status = HbNew | HbUp | HbDown | HbPaused

type_synonym PingKind = string

definition KindPing :: PingKind where "KindPing = ''ping''"
definition KindStart :: PingKind where "KindStart = ''start''"
definition KindFail :: PingKind where "KindFail = ''fail''"

definition validKind :: "PingKind \<Rightarrow> bool" where
  "validKind k = (k = KindPing \<or> k = KindStart \<or> k = KindFail)"

record Heartbeat =
  hb_ID :: uuid
  hb_AccountID :: uuid
  hb_CreatedByUserID :: uuid
  hb_Name :: string
  hb_Slug :: string
  hb_PingToken :: string
  hb_PeriodSeconds :: int
  hb_GraceSeconds :: int
  hb_Status :: hb_status
  hb_LastPingAt :: "gotime option"
  hb_ExpectedBy :: "gotime option"
  hb_CreatedAt :: gotime

record hb_row = Heartbeat +
  hb_deleted_at :: "gotime option"

definition Overdue :: "gotime \<Rightarrow> 'a Heartbeat_scheme \<Rightarrow> bool" where
  "Overdue now h =
     (case hb_ExpectedBy h of
        None \<Rightarrow> False
      | Some e \<Rightarrow>
          if hb_Status h \<noteq> HbNew \<and> hb_Status h \<noteq> HbUp then False
          else now > e + hb_GraceSeconds h * nsSecond)"

record Ping =
  pg_ID :: uuid
  pg_ReceivedAt :: gotime
  pg_Kind :: PingKind
  pg_SourceIP :: string
  pg_UserAgent :: string

record ping_row =
  pr_ID :: uuid
  pr_HeartbeatID :: uuid
  pr_ReceivedAt :: gotime
  pr_Kind :: PingKind
  pr_SourceIP :: "string option"
  pr_UserAgent :: "string option"

record hb_db =
  hd_users :: "uuid list"
  hd_accounts :: "account_row list"
  hd_rows :: "hb_row list"
  hd_pings :: "ping_row list"

datatype hb_error = HbNotFound | HbInvalidKind | HbConstraint

subsection \<open>Slugs\<close>

definition slugify :: "string \<Rightarrow> string" where
  "slugify name =
     (let s = trim_dashes (dash_runs False (lower_ascii name)) in
      if s = [] then ''monitor''
      else if length s > 60 then trim_dashes (take 60 s)
      else s)"

subsection \<open>Operations of the store\<close>

definition int4 :: "int \<Rightarrow> bool" where
  "int4 n = (- (2 ^ 31) \<le> n \<and> n < 2 ^ 31)"

definition hb_Create ::
    "uuid \<Rightarrow> string \<Rightarrow> gotime \<Rightarrow> Heartbeat \<Rightarrow> hb_db \<Rightarrow> (hb_error + Heartbeat) \<times> hb_db" where
  "hb_Create newid token now h db =
     (let h1 = h\<lparr>hb_PingToken := token, hb_Slug := slugify (hb_Name h), hb_Status := HbNew\<rparr> in
      if \<not> int4 (hb_PeriodSeconds h) \<or> hb_PeriodSeconds h \<le> 0 \<or> \<not> int4 (hb_GraceSeconds h) \<or>
         hb_GraceSeconds h < 0 \<or> \<not> pg_text_ok (hb_Name h) \<or>
         hb_AccountID h \<notin> set (map acct_ID (hd_accounts db)) \<or> hb_CreatedByUserID h \<notin> set (hd_users db) \<or>
         token \<in> set (map hb_PingToken (hd_rows db))
      then (Inl HbConstraint, db)
      else
        (let h2 = h1\<lparr>hb_ID := newid, hb_ExpectedBy := Some (now + hb_PeriodSeconds h * nsSecond), hb_CreatedAt := now\<rparr>
         in (Inr h2, db\<lparr>hd_rows := hd_rows db @ [Heartbeat.extend (h2\<lparr>hb_LastPingAt := None\<rparr>) \<lparr>hb_deleted_at = None\<rparr>]\<rparr>)))"

definition hb_List :: "uuid \<Rightarrow> hb_db \<Rightarrow> Heartbeat list" where
  "hb_List accountID db =
     map Heartbeat.truncate (sort_key (\<lambda>h. - hb_CreatedAt h)
       (filter (\<lambda>h. hb_AccountID h = accountID \<and> hb_deleted_at h = None) (hd_rows db)))"

definition hb_Get :: "uuid \<Rightarrow> uuid \<Rightarrow> hb_db \<Rightarrow> hb_error + Heartbeat" where
  "hb_Get accountID i db =
     (case sql_first (\<lambda>h. hb_ID h = i \<and> hb_AccountID h = accountID \<and> hb_deleted_at h = None) (hd_rows db) of
        None \<Rightarrow> Inl HbNotFound
      | Some h \<Rightarrow> Inr (Heartbeat.truncate h))"

definition nullif_empty :: "string \<Rightarrow> string option" where
  "nullif_empty s = (if s = [] then None else Some s)"

text \<open>
  One transaction, rolled back on any error. \<open>ping_row_update\<close> is its last statement: a failure
  keeps the deadline, a success moves it.
\<close>

definition ping_row_update :: "gotime \<Rightarrow> PingKind \<Rightarrow> hb_row \<Rightarrow> hb_row" where
  "ping_row_update now kind r =
     (if kind = KindFail then r\<lparr>hb_Status := HbDown, hb_LastPingAt := Some now\<rparr>
      else r\<lparr>hb_Status := HbUp, hb_LastPingAt := Some now,
             hb_ExpectedBy := Some (now + hb_PeriodSeconds r * nsSecond)\<rparr>)"

definition RecordPing ::
    "uuid \<Rightarrow> gotime \<Rightarrow> string \<Rightarrow> PingKind \<Rightarrow> string \<Rightarrow> string \<Rightarrow> hb_db \<Rightarrow> (hb_error + Heartbeat \<times> bool) \<times> hb_db" where
  "RecordPing newid now token kind ip ua db =
     (if \<not> validKind kind then (Inl HbInvalidKind, db)
      else
        (case sql_first (\<lambda>h. hb_PingToken h = token \<and> hb_deleted_at h = None) (hd_rows db) of
           None \<Rightarrow> (Inl HbNotFound, db)
         | Some h \<Rightarrow>
             if \<not> pg_text_ok ip \<or> \<not> pg_text_ok ua then (Inl HbConstraint, db)
             else
               (let db1 = db\<lparr>hd_pings := hd_pings db @ [\<lparr>pr_ID = newid, pr_HeartbeatID = hb_ID h, pr_ReceivedAt = now,
                      pr_Kind = kind, pr_SourceIP = nullif_empty ip, pr_UserAgent = nullif_empty ua\<rparr>]\<rparr>
                in if kind = KindStart then (Inr (Heartbeat.truncate h, False), db1)
                   else
                     (Inr (Heartbeat.truncate (ping_row_update now kind h), hb_Status h \<noteq> hb_Status (ping_row_update now kind h)),
                      db1\<lparr>hd_rows := sql_update (\<lambda>r. hb_ID r = hb_ID h) (ping_row_update now kind) (hd_rows db1)\<rparr>))))"

definition monitored :: "gotime \<Rightarrow> hb_db \<Rightarrow> uuid \<Rightarrow> bool" where
  "monitored now db acc =
     (\<exists>a \<in> set (hd_accounts db). acct_ID a = acc \<and> acct_deleted_at a = None \<and>
        \<not> (acct_Plan a = ''trial'' \<and> (case acct_TrialEndsAt a of None \<Rightarrow> False | Some e \<Rightarrow> e < now)))"

definition lapses :: "gotime \<Rightarrow> hb_db \<Rightarrow> hb_row \<Rightarrow> bool" where
  "lapses now db h =
     (hb_deleted_at h = None \<and> (hb_Status h = HbNew \<or> hb_Status h = HbUp) \<and>
      (case hb_ExpectedBy h of None \<Rightarrow> False | Some e \<Rightarrow> e + hb_GraceSeconds h * nsSecond < now) \<and>
      monitored now db (hb_AccountID h))"

definition MarkOverdueDown :: "gotime \<Rightarrow> hb_db \<Rightarrow> Heartbeat list \<times> hb_db" where
  "MarkOverdueDown now db =
     (map (\<lambda>h. Heartbeat.truncate (h\<lparr>hb_Status := HbDown\<rparr>)) (filter (lapses now db) (hd_rows db)),
      db\<lparr>hd_rows := sql_update (lapses now db) (\<lambda>h. h\<lparr>hb_Status := HbDown\<rparr>) (hd_rows db)\<rparr>)"

definition exec1 :: "(hb_row \<Rightarrow> bool) \<Rightarrow> (hb_row \<Rightarrow> hb_row) \<Rightarrow> hb_db \<Rightarrow> (hb_error + unit) \<times> hb_db" where
  "exec1 P f db =
     (if sql_affected P (hd_rows db) = 0 then (Inl HbNotFound, db)
      else (Inr (), db\<lparr>hd_rows := sql_update P f (hd_rows db)\<rparr>))"

definition owned_row :: "uuid \<Rightarrow> uuid \<Rightarrow> hb_row \<Rightarrow> bool" where
  "owned_row accountID i h = (hb_ID h = i \<and> hb_AccountID h = accountID \<and> hb_deleted_at h = None)"

definition Pause :: "uuid \<Rightarrow> uuid \<Rightarrow> hb_db \<Rightarrow> (hb_error + unit) \<times> hb_db" where
  "Pause accountID i = exec1 (owned_row accountID i) (\<lambda>h. h\<lparr>hb_Status := HbPaused, hb_ExpectedBy := None\<rparr>)"

definition Resume :: "gotime \<Rightarrow> uuid \<Rightarrow> uuid \<Rightarrow> hb_db \<Rightarrow> (hb_error + unit) \<times> hb_db" where
  "Resume now accountID i =
     exec1 (owned_row accountID i) (\<lambda>h. h\<lparr>hb_Status := HbNew, hb_ExpectedBy := Some (now + hb_PeriodSeconds h * nsSecond)\<rparr>)"

definition hb_Delete :: "gotime \<Rightarrow> uuid \<Rightarrow> uuid \<Rightarrow> hb_db \<Rightarrow> (hb_error + unit) \<times> hb_db" where
  "hb_Delete now accountID i = exec1 (owned_row accountID i) (\<lambda>h. h\<lparr>hb_deleted_at := Some now\<rparr>)"

definition ListPings :: "uuid \<Rightarrow> nat \<Rightarrow> hb_db \<Rightarrow> Ping list" where
  "ListPings heartbeatID limit db =
     map (\<lambda>p. \<lparr>pg_ID = pr_ID p, pg_ReceivedAt = pr_ReceivedAt p, pg_Kind = pr_Kind p,
               pg_SourceIP = coalesce (pr_SourceIP p) [], pg_UserAgent = coalesce (pr_UserAgent p) []\<rparr>)
       (take limit (sort_key (\<lambda>p. - pr_ReceivedAt p) (filter (\<lambda>p. pr_HeartbeatID p = heartbeatID) (hd_pings db))))"

definition PrunePings :: "gotime \<Rightarrow> duration \<Rightarrow> hb_db \<Rightarrow> nat \<times> hb_db" where
  "PrunePings now retention db =
     (sql_affected (\<lambda>p. pr_ReceivedAt p < now - retention) (hd_pings db),
      db\<lparr>hd_pings := sql_delete (\<lambda>p. pr_ReceivedAt p < now - retention) (hd_pings db)\<rparr>)"

subsection \<open>The sweeper\<close>

datatype hb_event = HbDispatched Heartbeat string | HbAudited Heartbeat string | HbNotified Heartbeat string

definition EventDown :: string where "EventDown = ''heartbeat.down''"

record hb_world =
  hw_db :: hb_db
  hw_events :: "hb_event list"
  hw_now :: gotime

text \<open>The optional dependencies \<open>Dispatch\<close>, \<open>Audit\<close> and \<open>Notify\<close>, by whether they are wired.\<close>

record sweeper =
  sw_Dispatch :: bool
  sw_Audit :: bool
  sw_Notify :: bool

definition hb_emit :: "hb_event \<Rightarrow> (hb_world, unit) proc" where
  "hb_emit e = call (\<lambda>w. (Inr (), w\<lparr>hw_events := hw_events w @ [e]\<rparr>))"

definition sweep_alert :: "sweeper \<Rightarrow> Heartbeat \<Rightarrow> (hb_world, unit) proc" where
  "sweep_alert W h =
     thenM (if sw_Dispatch W then ignoreM (hb_emit (HbDispatched h EventDown)) else ret ())
    (thenM (if sw_Audit W then ignoreM (hb_emit (HbAudited h EventDown)) else ret ())
           (if sw_Notify W then ignoreM (hb_emit (HbNotified h EventDown)) else ret ()))"

definition SweeperWorker_Work :: "sweeper \<Rightarrow> (hb_world, unit) proc" where
  "SweeperWorker_Work W =
     bindM (call (\<lambda>w. case MarkOverdueDown (hw_now w) (hw_db w) of (hs, db) \<Rightarrow> (Inr hs, w\<lparr>hw_db := db\<rparr>)))
       (\<lambda>downed. forM downed (sweep_alert W))"


section \<open>Slugs are normal forms\<close>

fun single_dashes :: "string \<Rightarrow> bool" where
  "single_dashes (a # b # s) = (\<not> (a = CHR ''-'' \<and> b = CHR ''-'') \<and> single_dashes (b # s))"
| "single_dashes s = True"

definition slug_set :: "char set" where
  "slug_set = {c. slug_char c} \<union> {CHR ''-''}"

lemma dash_not_slug [simp]: "\<not> slug_char (CHR ''-'')"
  by (simp add: slug_char_def)

lemma set_dash_runs: "set (dash_runs b s) \<subseteq> slug_set"
  by (induction s arbitrary: b) (auto simp: slug_set_def)

lemma hd_dash_runs: "dash_runs True s \<noteq> [] \<Longrightarrow> slug_char (hd (dash_runs True s))"
  by (induction s) auto

lemma single_dashes_dash_runs_Cons:
  assumes "single_dashes (dash_runs b s)" and "a \<noteq> CHR ''-'' \<or> b"
  shows "single_dashes (a # dash_runs b s)"
proof (cases "dash_runs b s")
  case (Cons x xs)
  then have "b \<Longrightarrow> x \<noteq> CHR ''-''" using hd_dash_runs [of s] by auto
  with assms Cons show ?thesis by auto
qed simp

lemma single_dash_runs: "single_dashes (dash_runs b s)"
proof (induction s arbitrary: b)
  case (Cons c s)
  have "slug_char c \<Longrightarrow> c \<noteq> CHR ''-''" by auto
  then show ?case
    using Cons.IH single_dashes_dash_runs_Cons [OF Cons.IH, of c False] single_dashes_dash_runs_Cons [OF Cons.IH, of "CHR ''-''" True]
    by simp
qed simp

lemma single_dashes_tl: "single_dashes (x # s) \<Longrightarrow> single_dashes s"
  by (cases s) auto

lemma single_dashes_append: "single_dashes (xs @ ys) \<Longrightarrow> single_dashes xs \<and> single_dashes ys"
proof (induction xs)
  case (Cons x xs)
  then show ?case using single_dashes_tl [of x "xs @ ys"] by (cases xs) auto
qed simp

lemma dropWhile_hd: "\<not> P (hd s) \<Longrightarrow> dropWhile P s = s"
  by (cases s) auto

lemma trim_dashes_split: "\<exists>a b. s = a @ trim_dashes s @ b"
proof -
  let ?P = "\<lambda>c. c = CHR ''-''"
  have 1: "s = takeWhile ?P s @ dropWhile ?P s" by simp
  have "rev (dropWhile ?P s) = takeWhile ?P (rev (dropWhile ?P s)) @ dropWhile ?P (rev (dropWhile ?P s))" by simp
  then have "dropWhile ?P s = trim_dashes s @ rev (takeWhile ?P (rev (dropWhile ?P s)))"
    unfolding trim_dashes_def by (metis rev_append rev_rev_ident)
  with 1 show ?thesis by metis
qed

lemma trim_dashes_ends:
  assumes "trim_dashes s \<noteq> []"
  shows "hd (trim_dashes s) \<noteq> CHR ''-'' \<and> last (trim_dashes s) \<noteq> CHR ''-''"
proof -
  let ?P = "\<lambda>c. c = CHR ''-''" and ?d = "dropWhile (\<lambda>c. c = CHR ''-'') s"
  let ?t = "dropWhile ?P (rev ?d)"
  have t: "?t \<noteq> []" using assms by (simp add: trim_dashes_def)
  have l: "last (trim_dashes s) = hd ?t" using t by (simp add: trim_dashes_def last_rev)
  have "hd (trim_dashes s) = last ?t" using t by (simp add: trim_dashes_def hd_rev)
  also have "\<dots> = last (rev ?d)" using t by (metis last_appendR takeWhile_dropWhile_id)
  also have "\<dots> = hd ?d" using t by (metis dropWhile.simps(1) hd_rev rev_is_Nil_conv rev_rev_ident)
  finally show ?thesis using l t hd_dropWhile [of ?P "rev ?d"] hd_dropWhile [of ?P s]
    by (metis dropWhile.simps(1) rev.simps(1))
qed

definition normal_slug :: "string \<Rightarrow> bool" where
  "normal_slug s \<longleftrightarrow> s \<noteq> [] \<and> set s \<subseteq> slug_set \<and> single_dashes s \<and> hd s \<noteq> CHR ''-'' \<and> last s \<noteq> CHR ''-'' \<and> length s \<le> 60"

lemma dash_runs_id:
  "set s \<subseteq> slug_set \<Longrightarrow> single_dashes s \<Longrightarrow> (b \<Longrightarrow> s = [] \<or> slug_char (hd s)) \<Longrightarrow> dash_runs b s = s"
proof (induction s arbitrary: b)
  case (Cons c s)
  have ss: "single_dashes s" using Cons.prems(2) by (cases s) auto
  show ?case
  proof (cases "slug_char c")
    case False
    then have c: "c = CHR ''-''" "\<not> b" using Cons.prems by (auto simp: slug_set_def)
    have "s = [] \<or> slug_char (hd s)" using Cons.prems(1,2) c by (cases s) (auto simp: slug_set_def)
    with c show ?thesis using Cons.IH [of True] Cons.prems(1) ss by simp
  qed (use Cons.IH [of False] Cons.prems(1) ss in simp)
qed simp

lemma slug_set_less: "c \<in> slug_set \<Longrightarrow> (of_char c :: nat) < 128 \<and> \<not> (65 \<le> (of_char c :: nat) \<and> (of_char c :: nat) \<le> 90)"
  by (auto simp: slug_set_def slug_char_def Let_def)

lemma lower_ascii_id: "set s \<subseteq> slug_set \<Longrightarrow> lower_ascii s = s"
proof (induction s)
  case (Cons a s)
  then have a: "(of_char a :: nat) < 128" "\<not> (65 \<le> (of_char a :: nat) \<and> (of_char a :: nat) \<le> 90)"
    using slug_set_less [of a] by auto
  then have "a \<noteq> CHR 0xE2" "a \<noteq> CHR 0xC4" by auto
  then show ?case using Cons a(2) by (auto simp: Let_def)
qed simp

lemma trim_dashes_id: "s \<noteq> [] \<Longrightarrow> hd s \<noteq> CHR ''-'' \<Longrightarrow> last s \<noteq> CHR ''-'' \<Longrightarrow> trim_dashes s = s"
  by (simp add: trim_dashes_def dropWhile_hd hd_rev)

lemma slugify_normal_id: "normal_slug s \<Longrightarrow> slugify s = s"
  using dash_runs_id [of s False] by (simp add: slugify_def normal_slug_def Let_def lower_ascii_id trim_dashes_id)

lemma trim_dashes_normal:
  assumes "set s \<subseteq> slug_set" "single_dashes s" "trim_dashes s \<noteq> []" "length (trim_dashes s) \<le> 60"
  shows "normal_slug (trim_dashes s)"
proof -
  obtain a b where s: "s = a @ trim_dashes s @ b" using trim_dashes_split by blast
  have "single_dashes (trim_dashes s)" using single_dashes_append assms(2) s by metis
  moreover have "set (trim_dashes s) \<subseteq> slug_set" using assms(1) s by (metis Un_subset_iff set_append)
  ultimately show ?thesis using trim_dashes_ends [OF assms(3)] assms(3,4) by (simp add: normal_slug_def)
qed

lemma length_trim_dashes: "length (trim_dashes s) \<le> length s"
proof -
  obtain a b where "s = a @ trim_dashes s @ b" using trim_dashes_split by blast
  then have "length s = length a + (length (trim_dashes s) + length b)" by (metis length_append)
  then show ?thesis by simp
qed

lemma trim_dashes_nonempty:
  assumes "s \<noteq> []" "hd s \<noteq> CHR ''-''"
  shows "trim_dashes s \<noteq> []"
proof -
  have "dropWhile (\<lambda>c. c = CHR ''-'') s = s" by (rule dropWhile_hd) (rule assms(2))
  moreover have "hd s \<in> set (rev s)" using assms(1) by simp
  ultimately show ?thesis using assms(2) by (auto simp: trim_dashes_def)
qed

lemma normal_slug_take:
  assumes "normal_slug t \<or> set t \<subseteq> slug_set \<and> single_dashes t \<and> t \<noteq> [] \<and> hd t \<noteq> CHR ''-''"
  shows "normal_slug (trim_dashes (take 60 t))"
proof (rule trim_dashes_normal)
  have t: "set t \<subseteq> slug_set" "single_dashes t" "t \<noteq> []" "hd t \<noteq> CHR ''-''" using assms by (auto simp: normal_slug_def)
  then show "set (take 60 t) \<subseteq> slug_set" using set_take_subset [of 60 t] by blast
  show "single_dashes (take 60 t)" using single_dashes_append [of "take 60 t" "drop 60 t"] t(2) by simp
  show "trim_dashes (take 60 t) \<noteq> []" by (rule trim_dashes_nonempty) (use t in \<open>simp_all add: hd_take\<close>)
  show "length (trim_dashes (take 60 t)) \<le> 60" using length_trim_dashes [of "take 60 t"] by simp
qed

lemma normal_slugify: "normal_slug (slugify name)"
proof -
  let ?r = "dash_runs False (lower_ascii name)"
  obtain t where t: "t = trim_dashes ?r" by blast
  obtain a b where r: "?r = a @ t @ b" using trim_dashes_split [of ?r] t by blast
  have "set t \<subseteq> set ?r" unfolding r by auto
  then have st: "set t \<subseteq> slug_set" using set_dash_runs by blast
  have "single_dashes (a @ t @ b)" using single_dash_runs [of False "lower_ascii name"] r by simp
  then have sd: "single_dashes t" using single_dashes_append by blast
  have s: "slugify name = (if t = [] then ''monitor'' else if length t > 60 then trim_dashes (take 60 t) else t)"
    by (simp add: slugify_def t Let_def)
  have m: "normal_slug ''monitor''" by (simp add: normal_slug_def slug_set_def slug_char_def)
  have ends: "t \<noteq> [] \<Longrightarrow> hd t \<noteq> CHR ''-'' \<and> last t \<noteq> CHR ''-''" unfolding t by (rule trim_dashes_ends)
  have "t \<noteq> [] \<Longrightarrow> normal_slug (trim_dashes (take 60 t))" using normal_slug_take [of t] st sd ends by blast
  moreover have "t \<noteq> [] \<Longrightarrow> length t \<le> 60 \<Longrightarrow> normal_slug t" using st sd ends by (simp add: normal_slug_def)
  ultimately show ?thesis unfolding s using m by (simp add: not_less)
qed

text \<open>
  Slugs. Whatever the name, the slug is not empty, has at most 60 characters, consists of lower
  case letters, digits and dashes, neither starts nor ends with a dash, and is its own slug.
\<close>

theorem slugify_normal_form:
  "slugify name \<noteq> [] \<and> length (slugify name) \<le> 60 \<and> set (slugify name) \<subseteq> {c. slug_char c} \<union> {CHR ''-''} \<and>
   hd (slugify name) \<noteq> CHR ''-'' \<and> last (slugify name) \<noteq> CHR ''-'' \<and> slugify (slugify name) = slugify name"
  using normal_slugify [of name] slugify_normal_id [OF normal_slugify, of name]
  by (simp add: normal_slug_def slug_set_def)

section \<open>Monitors as a state machine\<close>

inductive hb_step :: "hb_db \<Rightarrow> hb_db \<Rightarrow> bool" where
  create: "newid \<notin> set (map hb_ID (hd_rows db)) \<Longrightarrow> hb_step db (snd (hb_Create newid token now h db))"
| ping: "hb_step db (snd (RecordPing newid now token kind ip ua db))"
| sweep: "hb_step db (snd (MarkOverdueDown now db))"
| pause: "hb_step db (snd (Pause acc i db))"
| resume: "hb_step db (snd (Resume now acc i db))"
| delete: "hb_step db (snd (hb_Delete now acc i db))"
| prune: "hb_step db (snd (PrunePings now retention db))"

definition row_ok :: "hb_row \<Rightarrow> bool" where
  "row_ok h \<longleftrightarrow> 0 < hb_PeriodSeconds h \<and> 0 \<le> hb_GraceSeconds h \<and>
     (hb_Status h = HbNew \<or> hb_Status h = HbUp \<longrightarrow> hb_ExpectedBy h \<noteq> None)"

definition hb_ok :: "hb_db \<Rightarrow> bool" where
  "hb_ok db \<longleftrightarrow> distinct (map hb_ID (hd_rows db)) \<and> (\<forall>h \<in> set (hd_rows db). row_ok h)"

lemma hb_ok_update:
  assumes "hb_ok db" and "\<And>h. hb_ID (f h) = hb_ID h" and "\<And>h. row_ok h \<Longrightarrow> row_ok (f h)"
  shows "hb_ok (db\<lparr>hd_rows := sql_update P f (hd_rows db)\<rparr>)"
  using assms by (auto simp: hb_ok_def map_sql_update_key set_sql_update)

lemma hb_ok_exec1:
  assumes "hb_ok db" and "\<And>h. hb_ID (f h) = hb_ID h" and "\<And>h. row_ok h \<Longrightarrow> row_ok (f h)"
  shows "hb_ok (snd (exec1 P f db))"
  using hb_ok_update [OF assms] assms(1) by (simp add: exec1_def)

lemma hb_ok_pings [simp]:
  "hb_ok (db\<lparr>hd_pings := ps\<rparr>) = hb_ok db" "hb_ok (db\<lparr>hd_pings := ps, hd_rows := rs\<rparr>) = hb_ok (db\<lparr>hd_rows := rs\<rparr>)"
  by (simp_all add: hb_ok_def)

lemma hb_step_ok: "hb_step db db' \<Longrightarrow> hb_ok db \<Longrightarrow> hb_ok db'"
proof (induction rule: hb_step.induct)
  case (create newid db token now h)
  then show ?case by (auto simp: hb_Create_def Let_def hb_ok_def row_ok_def Heartbeat.defs)
next
  case (ping db newid now token kind ip ua)
  have "hb_ok (db\<lparr>hd_rows := sql_update P (ping_row_update now kind) (hd_rows db)\<rparr>)" for P
    by (rule hb_ok_update [OF ping]) (auto simp: row_ok_def ping_row_update_def)
  then show ?case using ping by (simp add: RecordPing_def Let_def split: option.split)
next
  case (sweep db now)
  then show ?case by (auto simp: MarkOverdueDown_def row_ok_def intro!: hb_ok_update)
qed (auto simp: Pause_def Resume_def hb_Delete_def PrunePings_def row_ok_def intro!: hb_ok_exec1)

lemma hb_reachable_ok:
  assumes "hb_step\<^sup>*\<^sup>* db0 db" and "hd_rows db0 = []"
  shows "hb_ok db"
  using assms(1) by (induction rule: rtranclp_induct) (use assms(2) in \<open>simp_all add: hb_ok_def [of db0] hb_step_ok\<close>)

lemma lapses_Overdue: "lapses now db h \<longleftrightarrow> hb_deleted_at h = None \<and> Overdue now h \<and> monitored now db (hb_AccountID h)"
  by (auto simp: lapses_def Overdue_def split: option.splits)

lemma downed_iff:
  assumes "hb_ok db" and "h \<in> set (hd_rows db)"
  shows "hb_ID h \<in> hb_ID ` set (fst (MarkOverdueDown now db)) \<longleftrightarrow> lapses now db h"
proof
  assume "hb_ID h \<in> hb_ID ` set (fst (MarkOverdueDown now db))"
  then obtain r where "r \<in> set (hd_rows db)" "lapses now db r" "hb_ID r = hb_ID h"
    by (auto simp: MarkOverdueDown_def Heartbeat.defs)
  with assms show "lapses now db h" by (auto simp: hb_ok_def distinct_map dest: inj_onD)
qed (use assms(2) in \<open>auto simp: MarkOverdueDown_def Heartbeat.defs image_iff intro!: bexI [of _ h]\<close>)

lemma lapses_after_sweep: "lapses now db h \<Longrightarrow> \<not> lapses now' db' (h\<lparr>hb_Status := HbDown\<rparr>)"
  by (simp add: lapses_def)

text \<open>
  C23. The sweep alarms exactly the silent monitors. In every state the store reaches, each running
  monitor (new or up, not deleted) has a deadline, and a sweep takes it down if and only if the
  deadline plus its grace has passed, that is when \<open>Overdue\<close> says so, and its account is
  monitored; monitors that are down or paused are never reported; a monitor taken down by one
  sweep is not reported by the next, whenever it runs.
\<close>

theorem sweep_exact:
  assumes "hb_step\<^sup>*\<^sup>* db0 db" and "hd_rows db0 = []" and "h \<in> set (hd_rows db)"
  shows "(hb_Status h = HbNew \<or> hb_Status h = HbUp \<longrightarrow> (\<exists>e. hb_ExpectedBy h = Some e \<and>
      (\<forall>now. Overdue now h \<longleftrightarrow> e + hb_GraceSeconds h * nsSecond < now))) \<and>
    (hb_ID h \<in> hb_ID ` set (fst (MarkOverdueDown now db)) \<longleftrightarrow>
      hb_deleted_at h = None \<and> Overdue now h \<and> monitored now db (hb_AccountID h)) \<and>
    (hb_Status h = HbDown \<or> hb_Status h = HbPaused \<longrightarrow> hb_ID h \<notin> hb_ID ` set (fst (MarkOverdueDown now db))) \<and>
    (hb_ID h \<in> hb_ID ` set (fst (MarkOverdueDown now db)) \<longrightarrow>
      hb_ID h \<notin> hb_ID ` set (fst (MarkOverdueDown now' (snd (MarkOverdueDown now db)))))"
proof -
  have ok: "hb_ok db" using hb_reachable_ok [OF assms(1,2)] .
  note d = downed_iff [OF ok assms(3)]
  let ?db = "snd (MarkOverdueDown now db)"
  have ok2: "hb_ok ?db" using hb_step_ok [OF hb_step.sweep ok] .
  have "lapses now db h \<Longrightarrow> h\<lparr>hb_Status := HbDown\<rparr> \<in> set (hd_rows ?db)"
    using assms(3) by (auto simp: MarkOverdueDown_def set_sql_update)
  then have "lapses now db h \<Longrightarrow> hb_ID h \<notin> hb_ID ` set (fst (MarkOverdueDown now' ?db))"
    using downed_iff [OF ok2, of "h\<lparr>hb_Status := HbDown\<rparr>" now'] lapses_after_sweep by auto
  moreover have "hb_Status h = HbNew \<or> hb_Status h = HbUp \<longrightarrow> (\<exists>e. hb_ExpectedBy h = Some e \<and>
      (\<forall>now. Overdue now h \<longleftrightarrow> e + hb_GraceSeconds h * nsSecond < now))"
    using ok assms(3) by (auto simp: hb_ok_def row_ok_def Overdue_def)
  moreover have "hb_Status h = HbDown \<or> hb_Status h = HbPaused \<longrightarrow> \<not> lapses now db h" by (auto simp: lapses_def)
  ultimately show ?thesis unfolding d using lapses_Overdue by blast
qed

text \<open>
  A ping keeps the monitor up. When a success ping at time \<open>t\<close> is accepted, the monitor is up
  afterwards and no sweep up to \<open>t\<close> plus its period and grace takes it down; a failure ping takes
  it down at once and a start ping changes nothing but the log; each is logged exactly once, and
  the answer says whether the status changed.
\<close>

theorem ping_effect:
  assumes "RecordPing newid t token kind ip ua db = (Inr (h, changed), db')"
  shows "\<exists>r r'. r \<in> set (hd_rows db) \<and> hb_PingToken r = token \<and> hb_deleted_at r = None \<and> r' \<in> set (hd_rows db') \<and>
    hb_ID r' = hb_ID r \<and> h = Heartbeat.truncate r' \<and> changed = (hb_Status r' \<noteq> hb_Status r) \<and>
    length (hd_pings db') = Suc (length (hd_pings db)) \<and>
    (kind = KindStart \<longrightarrow> hd_rows db' = hd_rows db) \<and> (kind = KindFail \<longrightarrow> hb_Status r' = HbDown) \<and>
    (kind = KindPing \<longrightarrow> hb_Status r' = HbUp \<and>
      (\<forall>now. now \<le> t + hb_PeriodSeconds r * nsSecond + hb_GraceSeconds r * nsSecond \<longrightarrow> \<not> lapses now db' r'))"
proof -
  obtain r where r: "sql_first (\<lambda>h. hb_PingToken h = token \<and> hb_deleted_at h = None) (hd_rows db) = Some r"
    and kind: "validKind kind"
    using assms by (auto simp: RecordPing_def split: if_splits option.splits)
  have row: "r \<in> set (hd_rows db)" "hb_PingToken r = token" "hb_deleted_at r = None" using sql_first_Some [OF r] by simp_all
  show ?thesis
  proof (cases "kind = KindStart")
    case True
    then have "kind \<noteq> KindFail" "kind \<noteq> KindPing" by (simp_all add: KindStart_def KindFail_def KindPing_def)
    with True assms r kind row show ?thesis
      by (intro exI [of _ r]) (auto simp: RecordPing_def Let_def split: if_splits)
  next
    case False
    let ?r = "ping_row_update t kind r"
    have res: "h = Heartbeat.truncate ?r" "changed = (hb_Status r \<noteq> hb_Status ?r)"
      "hd_rows db' = sql_update (\<lambda>x. hb_ID x = hb_ID r) (ping_row_update t kind) (hd_rows db)"
      "length (hd_pings db') = Suc (length (hd_pings db))"
      using assms r kind False by (auto simp: RecordPing_def Let_def split: if_splits)
    have "?r \<in> set (hd_rows db')" using row by (auto simp: res(3) set_sql_update)
    moreover have "KindPing \<noteq> KindFail" by (simp add: KindFail_def KindPing_def)
    moreover have "hb_ID ?r = hb_ID r" by (simp add: ping_row_update_def)
    ultimately show ?thesis
      using row res False by (intro exI [of _ r] exI [of _ ?r]) (auto simp: ping_row_update_def lapses_def)
  qed
qed


subsection \<open>Instances\<close>

definition hb_empty :: hb_db where
  "hb_empty = \<lparr>hd_users = [1], hd_accounts = [sample_account_row], hd_rows = [], hd_pings = []\<rparr>"

definition hb_sample :: Heartbeat where
  "hb_sample = \<lparr>hb_ID = 0, hb_AccountID = 1, hb_CreatedByUserID = 1, hb_Name = ''nightly'', hb_Slug = [], hb_PingToken = [],
     hb_PeriodSeconds = 60, hb_GraceSeconds = 10, hb_Status = HbUp, hb_LastPingAt = None, hb_ExpectedBy = None, hb_CreatedAt = 0\<rparr>"

definition hb_sample_row :: hb_row where
  "hb_sample_row = \<lparr>hb_ID = 5, hb_AccountID = 1, hb_CreatedByUserID = 1, hb_Name = ''nightly'', hb_Slug = ''nightly'', hb_PingToken = ''tok'',
     hb_PeriodSeconds = 60, hb_GraceSeconds = 10, hb_Status = HbNew, hb_LastPingAt = None, hb_ExpectedBy = Some 60000000000,
     hb_CreatedAt = 0, hb_deleted_at = None\<rparr>"

lemma hb_sample_created: "snd (hb_Create 5 ''tok'' 0 hb_sample hb_empty) = hb_empty\<lparr>hd_rows := [hb_sample_row]\<rparr>"
proof -
  have "slugify ''nightly'' = ''nightly''" "pg_text_ok ''nightly''" by code_simp+
  then show ?thesis
    by (simp add: hb_Create_def hb_sample_def hb_empty_def int4_def sample_account_row_def hb_sample_row_def Heartbeat.defs Let_def)
qed

theorem sweep_exact_witness:
  "hb_ID hb_sample_row \<in> hb_ID ` set (fst (MarkOverdueDown 70000000001 (hb_empty\<lparr>hd_rows := [hb_sample_row]\<rparr>))) \<and>
   hb_ID hb_sample_row \<notin> hb_ID ` set (fst (MarkOverdueDown 70000000000 (hb_empty\<lparr>hd_rows := [hb_sample_row]\<rparr>)))"
proof -
  let ?db = "hb_empty\<lparr>hd_rows := [hb_sample_row]\<rparr>"
  have s: "hb_step\<^sup>*\<^sup>* hb_empty ?db"
    using hb_step.create [of 5 hb_empty "''tok''" 0 hb_sample] hb_sample_created by (simp add: hb_empty_def)
  have "hd_rows hb_empty = []" "hb_sample_row \<in> set (hd_rows ?db)" by (simp_all add: hb_empty_def)
  from sweep_exact [OF s this] show ?thesis
    by (simp add: Overdue_def hb_sample_row_def monitored_def hb_empty_def sample_account_row_def)
qed

theorem ping_effect_witness:
  "\<exists>h db'. RecordPing 9 1000 ''tok'' KindPing ''10.0.0.1'' [] (hb_empty\<lparr>hd_rows := [hb_sample_row]\<rparr>) = (Inr (h, True), db') \<and>
     hb_Status h = HbUp \<and> length (hd_pings db') = 1"
proof -
  let ?db = "hb_empty\<lparr>hd_rows := [hb_sample_row]\<rparr>"
  have "pg_text_ok ''10.0.0.1''" "pg_text_ok []" by code_simp+
  then obtain h db' where r: "RecordPing 9 1000 ''tok'' KindPing ''10.0.0.1'' [] ?db = (Inr (h, True), db')"
    by (auto simp: RecordPing_def validKind_def KindPing_def KindStart_def KindFail_def Let_def hb_sample_row_def ping_row_update_def)
  from ping_effect [OF r] r show ?thesis by (auto simp: hb_empty_def Heartbeat.defs)
qed

section \<open>Alerts\<close>

definition alerts :: "sweeper \<Rightarrow> Heartbeat \<Rightarrow> hb_event list" where
  "alerts W h = (if sw_Dispatch W then [HbDispatched h EventDown] else []) @
     (if sw_Audit W then [HbAudited h EventDown] else []) @ (if sw_Notify W then [HbNotified h EventDown] else [])"

lemma hb_emit_ok: "ignoreM (hb_emit e) [] w = (Ret (), [], w\<lparr>hw_events := hw_events w @ [e]\<rparr>)"
  by (simp add: ignoreM_def hb_emit_def tryM_def bindM_def call_ok ret_def)

lemma sweep_alert_ok: "sweep_alert W h [] w = (Ret (), [], w\<lparr>hw_events := hw_events w @ alerts W h\<rparr>)"
  by (simp add: sweep_alert_def alerts_def thenM_def bindM_def hb_emit_ok ret_def)

lemma sweep_alerts_ok:
  "forM hs (sweep_alert W) [] w = (Ret (), [], w\<lparr>hw_events := hw_events w @ concat (map (alerts W) hs)\<rparr>)"
  by (induction hs arbitrary: w) (simp_all add: ret_def thenM_def bindM_def sweep_alert_ok)

text \<open>
  Alerts of a sweep. Without faults the job reports every monitor it took down once on each
  wired channel, in order, and running it again at any later time reports none of them again.
  The update and the alerts are not one transaction: if the process dies after the update, the
  monitors are down, no alert has gone out, and the repeated job no longer finds them.
\<close>

theorem sweep_alerts:
  assumes "hb_ok (hw_db w)" and "sw_Dispatch W" and "fst (MarkOverdueDown (hw_now w) (hw_db w)) \<noteq> []"
  shows "(\<exists>w'. SweeperWorker_Work W [] w = (Ret (), [], w') \<and>
      hw_events w' = hw_events w @ concat (map (alerts W) (fst (MarkOverdueDown (hw_now w) (hw_db w)))) \<and>
      hb_ID ` set (fst (MarkOverdueDown t (hw_db w'))) \<inter> hb_ID ` set (fst (MarkOverdueDown (hw_now w) (hw_db w))) = {}) \<and>
    (\<exists>w'. SweeperWorker_Work W [NoFault, Crash] w = (Crashed, [], w') \<and> hw_events w' = hw_events w \<and>
      hb_ID ` set (fst (MarkOverdueDown t (hw_db w'))) \<inter> hb_ID ` set (fst (MarkOverdueDown (hw_now w) (hw_db w))) = {})"
proof -
  let ?m = "MarkOverdueDown (hw_now w) (hw_db w)"
  obtain hs db where m: "?m = (hs, db)" by force
  have once: "hb_ID ` set (fst (MarkOverdueDown t db)) \<inter> hb_ID ` set hs = {}"
  proof -
    have "hb_ID h \<notin> hb_ID ` set (fst (MarkOverdueDown t db))" if h: "h \<in> set hs" for h
    proof -
      obtain r where r: "r \<in> set (hd_rows (hw_db w))" "lapses (hw_now w) (hw_db w) r" "hb_ID h = hb_ID r"
        using h arg_cong [OF m, of fst] by (auto simp: MarkOverdueDown_def Heartbeat.defs)
      have ok: "hb_ok db" using hb_step_ok [OF hb_step.sweep assms(1), of "hw_now w"] m by simp
      have rows: "hd_rows db = sql_update (lapses (hw_now w) (hw_db w)) (\<lambda>h. h\<lparr>hb_Status := HbDown\<rparr>) (hd_rows (hw_db w))"
        using arg_cong [OF m, of snd] by (auto simp: MarkOverdueDown_def)
      have "r\<lparr>hb_Status := HbDown\<rparr> \<in> set (hd_rows db)" unfolding rows set_sql_update using r(1,2) by force
      from downed_iff [OF ok this, of t] lapses_after_sweep [OF r(2), of t db]
      have "hb_ID (r\<lparr>hb_Status := HbDown\<rparr>) \<notin> hb_ID ` set (fst (MarkOverdueDown t db))" by blast
      then show ?thesis unfolding r(3) by simp
    qed
    note not_again = this
    show ?thesis
    proof (rule equals0I, elim IntE)
      fix x assume x: "x \<in> hb_ID ` set (fst (MarkOverdueDown t db))" "x \<in> hb_ID ` set hs"
      from x(2) obtain h where "x = hb_ID h" "h \<in> set hs" by (rule imageE)
      with not_again x(1) show False by simp
    qed
  qed
  have "SweeperWorker_Work W [] w = (Ret (), [], w\<lparr>hw_db := db, hw_events := hw_events w @ concat (map (alerts W) hs)\<rparr>)"
    by (simp add: SweeperWorker_Work_def bindM_def call_ok m sweep_alerts_ok)
  moreover obtain h hs' where "hs = h # hs'" using assms(3) m by (cases hs) auto
  then have "SweeperWorker_Work W [NoFault, Crash] w = (Crashed, [], w\<lparr>hw_db := db\<rparr>)"
    using assms(2) by (simp add: SweeperWorker_Work_def bindM_def call_def m sweep_alert_def thenM_def ignoreM_def tryM_def hb_emit_def)
  ultimately show ?thesis using once m by auto
qed

theorem sweep_alerts_witness:
  "\<exists>w'. SweeperWorker_Work \<lparr>sw_Dispatch = True, sw_Audit = True, sw_Notify = False\<rparr> []
      \<lparr>hw_db = hb_empty\<lparr>hd_rows := [hb_sample_row]\<rparr>, hw_events = [], hw_now = 70000000001\<rparr> = (Ret (), [], w') \<and> length (hw_events w') = 2"
proof -
  let ?W = "\<lparr>sw_Dispatch = True, sw_Audit = True, sw_Notify = False\<rparr>"
  let ?w = "\<lparr>hw_db = hb_empty\<lparr>hd_rows := [hb_sample_row]\<rparr>, hw_events = [], hw_now = 70000000001\<rparr>"
  have ok: "hb_ok (hw_db ?w)" by (simp add: hb_ok_def row_ok_def hb_sample_row_def)
  have one: "length (fst (MarkOverdueDown (hw_now ?w) (hw_db ?w))) = 1"
    by (simp add: MarkOverdueDown_def lapses_def hb_sample_row_def monitored_def hb_empty_def sample_account_row_def)
  then obtain h where h: "fst (MarkOverdueDown (hw_now ?w) (hw_db ?w)) = [h]" by (auto simp: length_Suc_conv)
  from sweep_alerts [OF ok, of ?W 0] h show ?thesis by (auto simp: alerts_def)
qed

section \<open>Lapsed trials\<close>

text \<open>
  Whose monitors are watched. For an account that is not deleted and has an end date when on
  trial, the sweep watches its monitors exactly when \<open>TrialLapsed\<close> is false, except for the
  unlimited flag: an unlimited account whose old trial date has passed is not lapsed, yet its
  monitors are skipped; and a trial without an end date is lapsed, yet its monitors are watched.
\<close>

theorem monitored_vs_lapsed:
  assumes "distinct (map acct_ID (hd_accounts db))" and "a \<in> set (hd_accounts db)" and "acct_deleted_at a = None"
  shows "(\<not> acct_Unlimited a \<and> (acct_Plan a = PlanTrial \<longrightarrow> acct_TrialEndsAt a \<noteq> None) \<longrightarrow>
      monitored now db (acct_ID a) = (\<not> TrialLapsed now (Account.truncate a))) \<and>
    (acct_Unlimited a \<and> acct_Plan a = PlanTrial \<and> acct_TrialEndsAt a = Some e \<and> e < now \<longrightarrow>
      \<not> TrialLapsed now (Account.truncate a) \<and> \<not> monitored now db (acct_ID a)) \<and>
    (\<not> acct_Unlimited a \<and> acct_Plan a = PlanTrial \<and> acct_TrialEndsAt a = None \<longrightarrow>
      TrialLapsed now (Account.truncate a) \<and> monitored now db (acct_ID a))"
proof -
  have m: "monitored now db (acct_ID a) \<longleftrightarrow>
      \<not> (acct_Plan a = ''trial'' \<and> (case acct_TrialEndsAt a of None \<Rightarrow> False | Some e \<Rightarrow> e < now))"
    using assms by (auto simp: monitored_def distinct_map dest: inj_onD)
  show ?thesis
    unfolding m by (auto simp: TrialLapsed_def Account.defs PlanTrial_def split: option.splits)
qed

theorem monitored_vs_lapsed_witness:
  "\<not> monitored 100 (hb_empty\<lparr>hd_accounts := [sample_account_row\<lparr>acct_Plan := PlanTrial, acct_TrialEndsAt := Some 50, acct_Unlimited := True\<rparr>]\<rparr>)
     (acct_ID sample_account_row)"
proof -
  let ?a = "sample_account_row\<lparr>acct_Plan := PlanTrial, acct_TrialEndsAt := Some 50, acct_Unlimited := True\<rparr>"
  let ?db = "hb_empty\<lparr>hd_accounts := [?a]\<rparr>"
  have "distinct (map acct_ID (hd_accounts ?db))" "?a \<in> set (hd_accounts ?db)" "acct_deleted_at ?a = None"
    by (simp_all add: sample_account_row_def)
  from monitored_vs_lapsed [OF this, of 100 50] show ?thesis by simp
qed

end
