(* ===== verification/Scheduler.thy ===== *)
theory Scheduler
  imports Drill_Evidence
begin

section \<open>The scheduler\<close>

text \<open>
  \<open>internal/drill/scheduler.go\<close>: the periodic job that creates and enqueues a drill for every
  target whose slot is due and moves the target to its next slot, as a procedure over the world
  of theory \<open>Drill_Steps\<close>. Errors on one target are logged and the loop goes on, so each is
  caught here; the loop over slots ends because every interval is positive.
\<close>

definition CadenceInterval :: "string \<Rightarrow> duration" where
  "CadenceInterval cadence =
     (if cadence = ''hourly'' then nsHour
      else if cadence = ''daily'' then nsDay
      else if cadence = ''weekly'' then 7 * nsDay
      else if cadence = ''monthly'' then 30 * nsDay
      else 0)"

text \<open>
  The loop \<open>for !next.After(now)\<close>. It is only reached with a positive interval; the test on the
  interval makes the function total.
\<close>

function next_slot :: "gotime \<Rightarrow> duration \<Rightarrow> gotime \<Rightarrow> gotime" where
  "next_slot now interval slot =
     (if slot > now \<or> interval \<le> 0 then slot else next_slot now interval (slot + interval))"
  by pat_completeness auto
termination by (relation "measure (\<lambda>(now, interval, slot). nat (now + 1 - slot))") auto

declare next_slot.simps [simp del]

definition priorityForPlan :: "string \<Rightarrow> nat" where
  "priorityForPlan plan =
     (if plan = PlanScale then 1 else if plan = PlanPro then 2
      else if plan = PlanStarter then 3 else if plan = PlanTrial then 4 else 3)"

definition schedule_key :: "('r, 'e) Deps \<Rightarrow> uuid \<Rightarrow> gotime \<Rightarrow> string" where
  "schedule_key D target at = ''schedule:'' @ dp_uuid D target @ '':'' @ dec_int (at div nsSecond)"

definition downshift :: "('r, 'e) Deps \<Rightarrow> DueSchedule \<Rightarrow> (('r, 'e) world, unit) proc" where
  "downshift D ds =
     (let t = ds_Target ds; fallback = TopCadence (ds_Plan ds); nextInterval = CadenceInterval fallback in
      if nextInterval = 0 then
        ignoreM (db_write D (\<lambda>_ _. SetTargetSchedule (t_AccountID t) (t_ID t) ''off'' None))
      else
        bindM (getM w_now) (\<lambda>now.
          ignoreM (db_write D (\<lambda>_ _. SetTargetSchedule (t_AccountID t) (t_ID t) fallback (Some (now + nextInterval))))))"

definition advance_target :: "('r, 'e) Deps \<Rightarrow> Target \<Rightarrow> gotime \<Rightarrow> duration \<Rightarrow> (('r, 'e) world, unit) proc" where
  "advance_target D t at interval =
     bindM (getM w_now) (\<lambda>now.
       ignoreM (db_write D (\<lambda>_ _ db. (Inr (), AdvanceTargetSchedule (t_ID t) (next_slot now interval (at + interval)) db))))"

definition schedule_one ::
    "('r, 'e) Deps \<Rightarrow> uuid_lib \<Rightarrow> bool \<Rightarrow> DueSchedule \<Rightarrow> (('r, 'e) world, unit) proc" where
  "schedule_one D U audited ds =
     (let t = ds_Target ds; interval = CadenceInterval (t_DrillCadence t) in
      case t_NextDrillAt t of
        None \<Rightarrow> ret ()
      | Some at \<Rightarrow>
          if interval = 0 then ret ()
          else if \<not> ds_Unlimited ds \<and> \<not> CadenceAllowed (ds_Plan ds) (t_DrillCadence t) then downshift D ds
          else
            bindM (tryM (db_write D (\<lambda>now newid. CreateDrillIdempotent U newid now (t_AccountID t) (t_CreatedByUserID t)
                (t_ID t) (schedule_key D (t_ID t) at)))) (\<lambda>r.
              case r of
                Inl _ \<Rightarrow> ret ()
              | Inr (drillID, reused) \<Rightarrow>
                  if reused then advance_target D t at interval
                  else
                    bindM (tryM (EnqueueDrill D audited drillID (if ds_Unlimited ds then 1 else priorityForPlan (ds_Plan ds))))
                      (\<lambda>e. case e of Inl _ \<Rightarrow> ret () | Inr _ \<Rightarrow> advance_target D t at interval)))"

definition SchedulerWorker_Work :: "('r, 'e) Deps \<Rightarrow> uuid_lib \<Rightarrow> bool \<Rightarrow> (('r, 'e) world, unit) proc" where
  "SchedulerWorker_Work D U audited =
     bindM (getM w_now) (\<lambda>now.
     bindM (db_read D (\<lambda>db. Inr (DueTargets now db))) (\<lambda>due. forM due (schedule_one D U audited)))"

section \<open>Slots\<close>

lemma next_slot_spec:
  assumes "0 < interval"
  shows "now < next_slot now interval slot \<and> (next_slot now interval slot = slot \<or> next_slot now interval slot - interval \<le> now) \<and>
    (\<exists>k. next_slot now interval slot = slot + int k * interval)"
  using assms
proof (induction now interval slot rule: next_slot.induct)
  case (1 now interval slot)
  show ?case
  proof (cases "slot > now")
    case True
    then show ?thesis by (auto simp: next_slot.simps intro: exI [of _ 0])
  next
    case False
    have r: "next_slot now interval slot = next_slot now interval (slot + interval)"
      using False 1(2) by (subst next_slot.simps) simp
    from 1 False obtain k where IH: "now < next_slot now interval (slot + interval)"
      "next_slot now interval (slot + interval) = slot + interval \<or> next_slot now interval (slot + interval) - interval \<le> now"
      "next_slot now interval (slot + interval) = slot + interval + int k * interval" by auto
    moreover have "slot + interval + int k * interval = slot + int (Suc k) * interval" by (simp add: algebra_simps)
    ultimately show ?thesis unfolding r using False by (metis add_diff_cancel_right' linorder_not_less)
  qed
qed

text \<open>
  C22. The next slot. Advancing a due target gives the first slot of its grid after now: a multiple
  of the interval after the slot that was due, strictly in the future, and either the very next
  one or one whose predecessor has passed. The time a tick comes late never shifts the grid.
\<close>

theorem next_slot_on_grid:
  assumes "CadenceInterval cadence \<noteq> 0"
  shows "\<exists>k \<ge> 1. next_slot now (CadenceInterval cadence) (at + CadenceInterval cadence) = at + int k * CadenceInterval cadence \<and>
    now < at + int k * CadenceInterval cadence \<and> (\<forall>j. 1 \<le> j \<and> j < k \<longrightarrow> at + int j * CadenceInterval cadence \<le> now)"
proof -
  let ?i = "CadenceInterval cadence"
  have i: "0 < ?i" using assms by (auto simp: CadenceInterval_def split: if_splits)
  obtain k where k: "next_slot now ?i (at + ?i) = at + ?i + int k * ?i" using next_slot_spec [OF i, of now "at + ?i"] by blast
  have eq: "at + ?i + int k * ?i = at + int (Suc k) * ?i" by (simp add: algebra_simps)
  have n: "now < at + int (Suc k) * ?i" "k = 0 \<or> at + int k * ?i \<le> now"
    using next_slot_spec [OF i, of now "at + ?i"] i unfolding k eq by (auto simp: algebra_simps)
  have "at + int j * ?i \<le> now" if "1 \<le> j" "j < Suc k" for j
  proof -
    have "int j * ?i \<le> int k * ?i" using that i by (intro mult_right_mono) auto
    then show ?thesis using n(2) that by auto
  qed
  with n(1) k eq show ?thesis by (intro exI [of _ "Suc k"]) auto
qed

theorem next_slot_on_grid_witness:
  "\<exists>k \<ge> 1. next_slot (2 * nsDay + 5) (CadenceInterval ''daily'') (0 + CadenceInterval ''daily'') = 0 + int k * CadenceInterval ''daily'' \<and>
     2 * nsDay + 5 < 0 + int k * CadenceInterval ''daily''"
proof -
  have "CadenceInterval ''daily'' \<noteq> 0" by (simp add: CadenceInterval_def)
  from next_slot_on_grid [OF this, of "2 * nsDay + 5" 0] show ?thesis by blast
qed

section \<open>One due target\<close>

lemma create_new:
  assumes "CreateDrillIdempotent U newid now acc user tid key db = (Inr (d, False), db1)"
  shows "d = newid \<and> key \<noteq> [] \<and> (\<exists>dr k. db1 = db\<lparr>db_drills := db_drills db @ [dr], db_idem := db_idem db @ [k]\<rparr> \<and>
      d_ID dr = d \<and> d_Status dr = StatusPending \<and> d_AccountID dr = acc \<and> d_TargetID dr = tid \<and>
      ik_TargetID k = uuid_String U d \<and> (ik_AccountID k, ik_Key k, ik_Scope k) = (acc, key, drill_create_scope)) \<and>
    sql_first (\<lambda>k. (ik_AccountID k, ik_Key k, ik_Scope k) = (acc, key, drill_create_scope)) (db_idem db) = None"
proof (cases "key = [] \<or> \<not> target_exists tid db \<or> \<not> account_exists acc db \<or> \<not> user_exists user db \<or>
    sql_first (\<lambda>k. (ik_AccountID k, ik_Key k, ik_Scope k) = (acc, key, drill_create_scope)) (db_idem db) \<noteq> None")
  case True
  then show ?thesis using assms by (auto simp: CreateDrillIdempotent_def Let_def split: if_splits option.splits)
next
  case False
  let ?dr = "\<lparr>d_ID = newid, d_TargetID = tid, d_AccountID = acc, d_CreatedByUserID = user, d_Status = StatusPending,
    d_StartedAt = None, d_CompletedAt = None, d_Error = None, d_EvidencePath = None, d_SandboxDB = None,
    d_SourceHash = None, d_CreatedAt = now\<rparr>"
  let ?k = "\<lparr>ik_AccountID = acc, ik_UserID = user, ik_Key = key, ik_Scope = drill_create_scope, ik_TargetID = uuid_String U newid\<rparr>"
  have "d = newid" "db1 = db\<lparr>db_drills := db_drills db @ [?dr], db_idem := db_idem db @ [?k]\<rparr>"
    using False assms by (auto simp: CreateDrillIdempotent_def Let_def)
  with False show ?thesis by (intro conjI exI [of _ ?dr] exI [of _ ?k]) simp_all
qed

lemma create_reused:
  assumes "CreateDrillIdempotent U newid now acc user tid key db = (Inr (d, False), db1)" and "uuid_lib_ok U"
    and "db_idem db2 = db_idem db1"
  shows "CreateDrillIdempotent U newid' now' acc user' tid' key db2 = (Inr (d, True), db2)"
proof -
  obtain k where "db_idem db2 = db_idem db @ [k]" "ik_TargetID k = uuid_String U d" "key \<noteq> []"
    "(ik_AccountID k, ik_Key k, ik_Scope k) = (acc, key, drill_create_scope)"
    "sql_first (\<lambda>k. (ik_AccountID k, ik_Key k, ik_Scope k) = (acc, key, drill_create_scope)) (db_idem db) = None"
    using create_new [OF assms(1)] assms(3) by auto
  then show ?thesis
    using assms(2) by (simp add: CreateDrillIdempotent_def sql_first_append uuid_lib_ok_def)
qed

definition due :: "DueSchedule \<Rightarrow> gotime \<Rightarrow> bool" where
  "due ds at \<longleftrightarrow> t_NextDrillAt (ds_Target ds) = Some at \<and> CadenceInterval (t_DrillCadence (ds_Target ds)) \<noteq> 0 \<and>
     (ds_Unlimited ds \<or> CadenceAllowed (ds_Plan ds) (t_DrillCadence (ds_Target ds)))"

definition created :: "('r, 'e) Deps \<Rightarrow> uuid_lib \<Rightarrow> DueSchedule \<Rightarrow> gotime \<Rightarrow> ('r, 'e) world \<Rightarrow> (store_error + uuid \<times> bool) \<times> drill_db" where
  "created D U ds at w = CreateDrillIdempotent U (w_fresh w) (w_now w) (t_AccountID (ds_Target ds))
     (t_CreatedByUserID (ds_Target ds)) (t_ID (ds_Target ds)) (schedule_key D (t_ID (ds_Target ds)) at) (w_db w)"

definition slot_after :: "DueSchedule \<Rightarrow> gotime \<Rightarrow> gotime \<Rightarrow> gotime" where
  "slot_after ds at now = next_slot now (CadenceInterval (t_DrillCadence (ds_Target ds)))
     (at + CadenceInterval (t_DrillCadence (ds_Target ds)))"

lemma advance_target_run:
  "advance_target D t at interval [] w = (Ret (), [],
     w\<lparr>w_db := AdvanceTargetSchedule (t_ID t) (next_slot (w_now w) interval (at + interval)) (w_db w), w_fresh := w_fresh w + 1\<rparr>)"
  by (simp add: advance_target_def bindM_def getM_def db_write_any)

lemma AdvanceTargetSchedule_frame [simp]:
  "db_drills (AdvanceTargetSchedule t n db) = db_drills db" "db_steps (AdvanceTargetSchedule t n db) = db_steps db"
  "db_idem (AdvanceTargetSchedule t n db) = db_idem db"
  by (simp_all add: AdvanceTargetSchedule_def)

lemma schedule_reused:
  assumes "due ds at" and "created D U ds at w = (Inr (d, True), w_db w)"
  shows "schedule_one D U audited ds [] w = (Ret (), [],
     w\<lparr>w_db := AdvanceTargetSchedule (t_ID (ds_Target ds)) (slot_after ds at (w_now w)) (w_db w), w_fresh := w_fresh w + 1 + 1\<rparr>)"
proof -
  have "\<exists>r. fst (created D U ds at w) = Inr r \<and> snd (created D U ds at w) = w_db w" using assms(2) by auto
  with assms show ?thesis
    by (auto simp: schedule_one_def Let_def due_def bindM_def tryM_def advance_target_run slot_after_def created_def db_write_ok)
qed

lemma created_drill:
  assumes "created D U ds at w = (Inr (d, False), db1)" and "\<not> drill_exists d (w_db w)" and "fresh_steps D d {} (w_db w)"
  shows "\<exists>dr. d_Status dr = StatusPending \<and> d_TargetID dr = t_ID (ds_Target ds) \<and> d_ID dr = d \<and> GetDrillByID d db1 = Inr dr \<and>
    db_drills db1 = db_drills (w_db w) @ [dr] \<and> fresh_steps D d {} db1"
proof -
  from create_new [OF assms(1) [unfolded created_def]] obtain dr k
    where dr: "db1 = (w_db w)\<lparr>db_drills := db_drills (w_db w) @ [dr], db_idem := db_idem (w_db w) @ [k]\<rparr>"
      "d_ID dr = d" "d_Status dr = StatusPending" "d_TargetID dr = t_ID (ds_Target ds)" by auto
  have none: "sql_first (\<lambda>x. d_ID x = d) (db_drills (w_db w)) = None"
    using assms(2) by (auto simp: drill_exists_def sql_first_None)
  have "GetDrillByID d db1 = Inr dr" using dr none by (simp add: GetDrillByID_def sql_first_append)
  moreover have "fresh_steps D d {} db1" using assms(3) dr by (simp add: fresh_steps_def step_status_def GetStep_def)
  ultimately show ?thesis using dr by auto
qed

lemma schedule_new:
  assumes "due ds at" and "created D U ds at w = (Inr (d, False), db1)"
    and "\<not> drill_exists d (w_db w)" and "fresh_steps D d {} (w_db w)"
  shows "\<exists>w1 dr. schedule_one D U audited ds [] w = (Ret (), [],
      w1\<lparr>w_jobs := w_jobs w @ [\<lparr>j_Args = ProvisionArgs d, j_Priority = if ds_Unlimited ds then 1 else priorityForPlan (ds_Plan ds)\<rparr>],
         w_db := AdvanceTargetSchedule (t_ID (ds_Target ds)) (slot_after ds at (w_now w)) (w_db w1), w_fresh := w_fresh w1 + 1\<rparr>) \<and>
    d_Status dr = StatusPending \<and> d_TargetID dr = t_ID (ds_Target ds) \<and> d_ID dr = d \<and> GetDrillByID d db1 = Inr dr \<and>
    db_drills db1 = db_drills (w_db w) @ [dr] \<and>
    others_alike d (w\<lparr>w_db := db1, w_fresh := w_fresh w + 1\<rparr>) w1 \<and> fresh_steps D d UNIV (w_db w1)"
proof -
  let ?p = "if ds_Unlimited ds then 1 else priorityForPlan (ds_Plan ds)"
  let ?w = "w\<lparr>w_db := db1, w_fresh := w_fresh w + 1\<rparr>"
  from created_drill [OF assms(2-4)] obtain dr
    where dr: "d_Status dr = StatusPending" "d_TargetID dr = t_ID (ds_Target ds)" "d_ID dr = d" "GetDrillByID d db1 = Inr dr"
      "db_drills db1 = db_drills (w_db w) @ [dr]" "fresh_steps D d {} db1" by blast
  obtain w1 where w1: "EnqueueDrill D audited d ?p [] ?w =
      (Ret (), [], w1\<lparr>w_jobs := w_jobs w @ [\<lparr>j_Args = ProvisionArgs d, j_Priority = ?p\<rparr>]\<rparr>)"
    "others_alike d ?w w1" "fresh_steps D d UNIV (w_db w1)"
    using enqueue_alike [of d ?w dr D audited ?p] dr by auto
  have cr: "CreateDrillIdempotent U (w_fresh w) (w_now w) (t_AccountID (ds_Target ds))
      (t_CreatedByUserID (ds_Target ds)) (t_ID (ds_Target ds)) (schedule_key D (t_ID (ds_Target ds)) at) (w_db w) = (Inr (d, False), db1)"
    using assms(2) by (simp add: created_def)
  have now: "w_now w1 = w_now w" using w1(2) by (simp add: others_alike_def settings_def)
  have "schedule_one D U audited ds [] w = (Ret (), [],
      w1\<lparr>w_jobs := w_jobs w @ [\<lparr>j_Args = ProvisionArgs d, j_Priority = ?p\<rparr>],
         w_db := AdvanceTargetSchedule (t_ID (ds_Target ds)) (slot_after ds at (w_now w)) (w_db w1), w_fresh := w_fresh w1 + 1\<rparr>)"
    using assms(1) w1(1) now
    by (auto simp: schedule_one_def Let_def due_def bindM_def tryM_def advance_target_run slot_after_def db_write_ok cr)
  with dr w1 show ?thesis by (intro exI [of _ w1] exI [of _ dr]) simp
qed

lemma enqueue_fails: "EnqueueDrill D audited d priority [FailBefore e] w = (Err e, [], w)"
  by (simp add: EnqueueDrill_def AllSteps_def thenM_def bindM_def db_write_def call_def Let_def)

text \<open>
  C21. A slot that fires. For a due target on an allowed cadence, when the slot's key is new, the
  tick without faults creates one pending drill of the target, enqueues its first job with
  the plan's priority after creating all six steps, and moves the target to its next slot. A
  second tick that still holds the old slot, as after a crash before the move, finds the key
  and neither creates nor enqueues a second drill.
\<close>

theorem schedule_tick:
  assumes "due ds at" and "created D U ds at w = (Inr (d, False), db1)" and "uuid_lib_ok U"
    and "\<not> drill_exists d (w_db w)" and "fresh_steps D d {} (w_db w)"
  shows "\<exists>w' w''. schedule_one D U audited ds [] w = (Ret (), [], w') \<and>
    map j_Args (w_jobs w') = map j_Args (w_jobs w) @ [ProvisionArgs d] \<and>
    j_Priority (last (w_jobs w')) = (if ds_Unlimited ds then 1 else priorityForPlan (ds_Plan ds)) \<and>
    length (db_drills (w_db w')) = Suc (length (db_drills (w_db w))) \<and>
    (\<exists>dr. GetDrillByID d (w_db w') = Inr dr \<and> d_Status dr = StatusPending \<and> d_TargetID dr = t_ID (ds_Target ds)) \<and>
    (\<forall>n. step_status d n (w_db w') = Some StatusPending) \<and>
    (\<forall>r \<in> set (db_targets (w_db w')). t_ID r = t_ID (ds_Target ds) \<longrightarrow> t_NextDrillAt r = Some (slot_after ds at (w_now w))) \<and>
    schedule_one D U audited ds [] w' = (Ret (), [], w'') \<and> w_jobs w'' = w_jobs w' \<and> db_drills (w_db w'') = db_drills (w_db w')"
proof -
  obtain w1 dr where r: "schedule_one D U audited ds [] w = (Ret (), [],
      w1\<lparr>w_jobs := w_jobs w @ [\<lparr>j_Args = ProvisionArgs d, j_Priority = if ds_Unlimited ds then 1 else priorityForPlan (ds_Plan ds)\<rparr>],
         w_db := AdvanceTargetSchedule (t_ID (ds_Target ds)) (slot_after ds at (w_now w)) (w_db w1), w_fresh := w_fresh w1 + 1\<rparr>)"
    (is "_ = (_, _, ?w')")
    and dr: "d_Status dr = StatusPending" "d_TargetID dr = t_ID (ds_Target ds)" "GetDrillByID d db1 = Inr dr"
      "db_drills db1 = db_drills (w_db w) @ [dr]"
    and al: "others_alike d (w\<lparr>w_db := db1, w_fresh := w_fresh w + 1\<rparr>) w1" "fresh_steps D d UNIV (w_db w1)"
    using schedule_new [OF assms(1,2,4,5), of audited] by blast
  have "created D U ds at ?w' = (Inr (d, True), w_db ?w')"
    unfolding created_def using al(1)
    by (intro create_reused [OF assms(2) [unfolded created_def] assms(3)]) (simp add: others_alike_def)
  from schedule_reused [OF assms(1) this, of audited]
  obtain w'' where again: "schedule_one D U audited ds [] ?w' = (Ret (), [], w'')" "w_jobs w'' = w_jobs ?w'"
    "db_drills (w_db w'') = db_drills (w_db ?w')" by simp
  have "GetDrillByID d (w_db ?w') = Inr dr" using dr al by (simp add: others_alike_def GetDrillByID_def)
  moreover have "\<forall>n. step_status d n (w_db ?w') = Some StatusPending"
    using al by (simp add: fresh_steps_def step_status_def GetStep_def)
  moreover have "\<forall>r \<in> set (db_targets (w_db ?w')). t_ID r = t_ID (ds_Target ds) \<longrightarrow> t_NextDrillAt r = Some (slot_after ds at (w_now w))"
    by (auto simp: AdvanceTargetSchedule_def sql_update_def)
  moreover have "length (db_drills (w_db ?w')) = Suc (length (db_drills (w_db w)))" using dr al by (simp add: others_alike_def)
  ultimately show ?thesis using again r dr by (intro exI [of _ ?w'] exI [of _ w'']) simp
qed

definition demo_due :: DueSchedule where
  "demo_due = \<lparr>ds_Target = demo_target\<lparr>t_DrillCadence := ''daily'', t_NextDrillAt := Some 0\<rparr>, ds_Plan = PlanScale, ds_Unlimited = False\<rparr>"

lemma demo_due_facts:
  "due demo_due 0" "uuid_lib_ok demo_uuid" "\<not> drill_exists (w_fresh demo_start) (w_db demo_start)"
  "fresh_steps (demo_deps b) (w_fresh demo_start) {} (w_db demo_start)"
  "\<exists>db1. created (demo_deps b) demo_uuid demo_due 0 demo_start = (Inr (w_fresh demo_start, False), db1)"
proof -
  show "due demo_due 0" by (simp add: due_def demo_due_def CadenceInterval_def, code_simp)
  show "uuid_lib_ok demo_uuid" by (simp add: uuid_lib_ok_def demo_uuid_def unary_def)
  show "\<not> drill_exists (w_fresh demo_start) (w_db demo_start)" by (simp add: drill_exists_def demo_start_def)
  show "fresh_steps (demo_deps b) (w_fresh demo_start) {} (w_db demo_start)"
    by (simp add: fresh_steps_def step_status_def GetStep_def demo_start_def)
  show "\<exists>db1. created (demo_deps b) demo_uuid demo_due 0 demo_start = (Inr (w_fresh demo_start, False), db1)"
    by (simp add: created_def CreateDrillIdempotent_def schedule_key_def demo_start_def demo_due_def demo_target_def
        target_exists_def account_exists_def user_exists_def Let_def Target.defs)
qed

theorem schedule_tick_witness:
  "\<exists>w' w''. schedule_one (demo_deps True) demo_uuid True demo_due [] demo_start = (Ret (), [], w') \<and>
     map j_Args (w_jobs w') = map j_Args (w_jobs demo_start) @ [ProvisionArgs (w_fresh demo_start)] \<and>
     schedule_one (demo_deps True) demo_uuid True demo_due [] w' = (Ret (), [], w'') \<and> w_jobs w'' = w_jobs w'"
proof -
  obtain db1 where "created (demo_deps True) demo_uuid demo_due 0 demo_start = (Inr (w_fresh demo_start, False), db1)"
    using demo_due_facts(5) by blast
  from schedule_tick [OF demo_due_facts(1) this demo_due_facts(2-4), of True] show ?thesis by blast
qed

text \<open>
  A scheduled drill can be lost. When the drill is created and the first call of
  \<open>EnqueueDrill\<close> fails, the tick logs it and goes on. The next tick, with every call
  working, finds the slot's key already used, so it does not enqueue the drill but advances
  the schedule: the drill stays pending, with no step and no job that would ever run it, and the target's
  next slot is in the future as if the drill had been started.
\<close>

theorem scheduled_drill_lost:
  assumes "due ds at" and "created D U ds at w = (Inr (d, False), db1)" and "uuid_lib_ok U"
    and "\<not> drill_exists d (w_db w)" and "fresh_steps D d {} (w_db w)"
  shows "\<exists>w1 w2 dr. schedule_one D U audited ds [NoFault, FailBefore e] w = (Ret (), [], w1) \<and>
    schedule_one D U audited ds [] w1 = (Ret (), [], w2) \<and>
    GetDrillByID d (w_db w2) = Inr dr \<and> d_Status dr = StatusPending \<and> (\<forall>n. step_status d n (w_db w2) = None) \<and>
    w_jobs w2 = w_jobs w \<and>
    (\<forall>r \<in> set (db_targets (w_db w2)). t_ID r = t_ID (ds_Target ds) \<longrightarrow> t_NextDrillAt r = Some (slot_after ds at (w_now w)))"
proof -
  let ?w1 = "w\<lparr>w_db := db1, w_fresh := w_fresh w + 1\<rparr>"
  note cr = assms(2) [unfolded created_def]
  from created_drill [OF assms(2,4,5)] obtain dr
    where dr: "GetDrillByID d db1 = Inr dr" "fresh_steps D d {} db1" "d_Status dr = StatusPending" by blast
  have "schedule_one D U audited ds [NoFault, FailBefore e] w = (Ret (), [], ?w1)"
    using assms(1) cr
    by (auto simp: schedule_one_def Let_def due_def bindM_def tryM_def db_write_def call_def dbErr_def ret_def enqueue_fails)
  moreover have "created D U ds at ?w1 = (Inr (d, True), w_db ?w1)"
    unfolding created_def by (intro create_reused [OF cr assms(3)]) simp
  note schedule_reused [OF assms(1) this, of audited]
  ultimately show ?thesis using dr
    by (intro exI [of _ ?w1] exI [of _ "?w1\<lparr>w_db := AdvanceTargetSchedule (t_ID (ds_Target ds)) (slot_after ds at (w_now w)) db1, w_fresh := w_fresh ?w1 + 1 + 1\<rparr>"] exI [of _ dr])
      (auto simp: GetDrillByID_def fresh_steps_def step_status_def GetStep_def AdvanceTargetSchedule_def sql_update_def)
qed

theorem scheduled_drill_lost_witness:
  "\<exists>w1 w2. schedule_one (demo_deps True) demo_uuid True demo_due [NoFault, FailBefore ''timeout''] demo_start = (Ret (), [], w1) \<and>
     schedule_one (demo_deps True) demo_uuid True demo_due [] w1 = (Ret (), [], w2) \<and> w_jobs w2 = w_jobs demo_start"
proof -
  obtain db1 where "created (demo_deps True) demo_uuid demo_due 0 demo_start = (Inr (w_fresh demo_start, False), db1)"
    using demo_due_facts(5) by blast
  from scheduled_drill_lost [OF demo_due_facts(1) this demo_due_facts(2-4), of True "''timeout''"] show ?thesis by blast
qed

end
