(* ===== verification/Totp.thy ===== *)
theory Totp
  imports Go_Text Evidence_Sign "HOL-Library.Word"
begin

unbundle bit_operations_syntax

section \<open>One-time codes\<close>

text \<open>
  \<open>internal/auth/totp.go\<close>: the RFC 6238 code of a shared secret, with the base32 decoding of
  the standard library and the truncation on 32-bit words written out as in the source. The
  only parameter is the function \<open>hmac\<close> (HMAC-SHA1, key and message to 20 bytes).
\<close>

subsection \<open>Base32 without padding\<close>

definition b32_val :: "char \<Rightarrow> 8 word option" where
  "b32_val c =
     (let n = of_char c :: nat in
      if 65 \<le> n \<and> n \<le> 90 then Some (of_nat (n - 65))
      else if 50 \<le> n \<and> n \<le> 55 then Some (of_nat (n - 24))
      else None)"

definition word_char :: "8 word \<Rightarrow> char" where
  "word_char w = char_of (unat w)"

text \<open>
  The bytes of one group of up to eight values: a group cut to 7, 5, 4 or 2 values gives 4, 3, 2
  or 1 bytes, one cut to any other length gives none.
\<close>

fun b32_group :: "8 word list \<Rightarrow> bytes" where
  "b32_group [a, b, c, d, e, f, g, h] =
     b32_group [a, b, c, d, e, f, g] @ [word_char (push_bit 5 g OR h)]"
| "b32_group [a, b, c, d, e, f, g] =
     b32_group [a, b, c, d, e] @ [word_char (push_bit 7 e OR push_bit 2 f OR drop_bit 3 g)]"
| "b32_group [a, b, c, d, e] =
     b32_group [a, b, c, d] @ [word_char (push_bit 4 d OR drop_bit 1 e)]"
| "b32_group [a, b, c, d] =
     b32_group [a, b] @ [word_char (push_bit 6 b OR push_bit 1 c OR drop_bit 4 d)]"
| "b32_group [a, b] = [word_char (push_bit 3 a OR drop_bit 2 b)]"
| "b32_group _ = []"

function b32_groups :: "8 word list \<Rightarrow> bytes" where
  "b32_groups vs = (if vs = [] then [] else b32_group (take 8 vs) @ b32_groups (drop 8 vs))"
  by pat_completeness auto
termination
  by (relation "measure length") auto

declare b32_groups.simps [simp del]

definition b32_decode :: "string \<Rightarrow> bytes option" where
  "b32_decode s =
     (let vs = map b32_val (filter (\<lambda>c. c \<noteq> CHR 0x0A \<and> c \<noteq> CHR 0x0D) s) in
      if None \<in> set vs then None else Some (b32_groups (map the vs)))"

subsection \<open>Codes\<close>

definition totpPeriod :: duration where "totpPeriod = 30 * nsSecond"
definition totpDigits :: nat where "totpDigits = 6"

datatype totp_error = InvalidSecret | TotpPanic

definition totp_counter :: "gotime \<Rightarrow> 64 word" where
  "totp_counter t = word_of_int (t div nsSecond) div word_of_int (totpPeriod div nsSecond)"

definition PutUint64 :: "64 word \<Rightarrow> bytes" where
  "PutUint64 v = map (\<lambda>i. word_char (ucast (drop_bit (8 * i) v))) [7, 6, 5, 4, 3, 2, 1, 0]"

definition byte32 :: "char \<Rightarrow> 32 word" where
  "byte32 c = word_of_nat (of_char c)"

definition totp_bin :: "bytes \<Rightarrow> nat \<Rightarrow> 32 word" where
  "totp_bin hsum offset =
     push_bit 24 (byte32 (hsum ! offset) AND 0x7f) OR
     push_bit 16 (byte32 (hsum ! (offset + 1))) OR
     push_bit 8 (byte32 (hsum ! (offset + 2))) OR
     byte32 (hsum ! (offset + 3))"

definition totp_mod :: "32 word" where
  "totp_mod = ((\<lambda>m. m * 10) ^^ totpDigits) 1"

definition TOTPCode :: "(bytes \<Rightarrow> bytes \<Rightarrow> bytes) \<Rightarrow> string \<Rightarrow> gotime \<Rightarrow> totp_error + string" where
  "TOTPCode hmac secret t =
     (case b32_decode (upper_ascii (TrimSpace secret)) of
        None \<Rightarrow> Inl InvalidSecret
      | Some key \<Rightarrow>
          (let hsum = hmac key (PutUint64 (totp_counter t)) in
           if hsum = [] then Inl TotpPanic
           else
             (let offset = unat (byte32 (last hsum) AND 0x0f) in
              if length hsum \<le> offset + 3 then Inl TotpPanic
              else Inr (pad_dec totpDigits (uint (totp_bin hsum offset mod totp_mod))))))"

text \<open>The counter and the verdict; the Go function returns 0 with a negative verdict. A failed
  \<open>TOTPCode\<close> ends the loop.\<close>

fun totp_loop :: "(bytes \<Rightarrow> bytes \<Rightarrow> bytes) \<Rightarrow> string \<Rightarrow> string \<Rightarrow> gotime \<Rightarrow> duration list \<Rightarrow> int \<times> bool" where
  "totp_loop hmac secret code t [] = (0, False)"
| "totp_loop hmac secret code t (skew # skews) =
     (case TOTPCode hmac secret (t + skew) of
        Inl _ \<Rightarrow> (0, False)
      | Inr want \<Rightarrow>
          if want = code then (sint (totp_counter (t + skew)), True)
          else totp_loop hmac secret code t skews)"

definition VerifyTOTPWithCounter ::
    "(bytes \<Rightarrow> bytes \<Rightarrow> bytes) \<Rightarrow> string \<Rightarrow> string \<Rightarrow> gotime \<Rightarrow> int \<times> bool" where
  "VerifyTOTPWithCounter hmac secret code t =
     (let code = TrimSpace code in
      if length code \<noteq> totpDigits then (0, False)
      else totp_loop hmac secret code t [0, - totpPeriod, totpPeriod])"

definition VerifyTOTP :: "(bytes \<Rightarrow> bytes \<Rightarrow> bytes) \<Rightarrow> string \<Rightarrow> string \<Rightarrow> gotime \<Rightarrow> bool" where
  "VerifyTOTP hmac secret code t = snd (VerifyTOTPWithCounter hmac secret code t)"


section \<open>Codes agree with the arithmetic definition\<close>

text \<open>The value of RFC 4226 in arithmetic: 31 bits read big-endian at the offset, reduced to six digits.\<close>

definition hotp_value :: "bytes \<Rightarrow> int" where
  "hotp_value h =
     (let o' = of_char (last h) mod 16 in
      (of_char (h ! o') mod 128 * 2 ^ 24 + of_char (h ! (o' + 1)) * 2 ^ 16 + of_char (h ! (o' + 2)) * 2 ^ 8 + of_char (h ! (o' + 3)))
        mod 10 ^ 6)"

definition be_bytes :: "int \<Rightarrow> bytes" where
  "be_bytes c = map (\<lambda>i. char_of (c div 256 ^ i mod 256)) [7, 6, 5, 4, 3, 2, 1, 0]"

definition hotp :: "(bytes \<Rightarrow> bytes \<Rightarrow> bytes) \<Rightarrow> bytes \<Rightarrow> int \<Rightarrow> string" where
  "hotp hmac key c = pad_dec 6 (hotp_value (hmac key (be_bytes c)))"

lemma totp_mod_value: "totp_mod = 1000000"
  by (simp add: totp_mod_def totpDigits_def numeral_eq_Suc)

lemma byte32_uint: "uint (byte32 c) = of_char c"
proof -
  have "uint (word_of_nat n :: 32 word) = int n" if "n < 256" for n
    using that by (simp add: unsigned_of_nat take_bit_nat_eq_self)
  from this [OF of_char_less_256] show ?thesis by (simp only: byte32_def of_nat_of_char)
qed

lemma byte_range: "0 \<le> (of_char c :: int)" "(of_char c :: int) < 256"
proof -
  have "(of_char c :: int) = int (of_char c)" by (simp add: of_nat_of_char)
  then show "0 \<le> (of_char c :: int)" "(of_char c :: int) < 256" using of_char_less_256 [of c] by linarith+
qed

lemma or_bytes_concat:
  fixes a b c d :: int
  shows "push_bit 24 a OR push_bit 16 (take_bit 8 b) OR push_bit 8 (take_bit 8 c) OR take_bit 8 d = ((a * 2 ^ 8 + take_bit 8 b) * 2 ^ 8 + take_bit 8 c) * 2 ^ 8 + take_bit 8 d"
proof -
  have "push_bit 24 a OR push_bit 16 (take_bit 8 b) OR push_bit 8 (take_bit 8 c) OR take_bit 8 d =
      concat_bit 8 d (concat_bit 8 c (concat_bit 8 b a))"
    by (simp add: concat_bit_def push_bit_or ac_simps)
  then show ?thesis by (simp add: concat_bit_eq push_bit_eq_mult algebra_simps)
qed

lemma totp_bin_value:
  "uint (totp_bin h i) = of_char (h ! i) mod 128 * 2 ^ 24 + of_char (h ! (i + 1)) * 2 ^ 16 + of_char (h ! (i + 2)) * 2 ^ 8 + of_char (h ! (i + 3))"
proof -
  have a: "uint (push_bit n (byte32 c AND 127)) = push_bit n (of_char c mod 128)" if "n \<le> 24" for n c
  proof -
    have v: "uint (byte32 c AND 127) = of_char c mod 128"
      using take_bit_eq_mask [of 7 "of_char c :: int"] by (simp add: unsigned_and_eq byte32_uint mask_eq_exp_minus_1 take_bit_eq_mod)
    have "(of_char c :: int) mod 128 * 2 ^ n < 128 * 2 ^ n" by simp
    also have "(128 :: int) * 2 ^ n \<le> 128 * 2 ^ 24" using that by (intro mult_left_mono power_increasing) auto
    finally show ?thesis unfolding unsigned_push_bit_eq v by (simp add: take_bit_int_eq_self push_bit_eq_mult)
  qed
  have b: "uint (push_bit n (byte32 c)) = push_bit n (take_bit 8 (of_char c))" if "n \<le> 16" for n c
  proof -
    have "(of_char c :: int) * 2 ^ n < 256 * 2 ^ n" using byte_range [of c] by simp
    also have "(256 :: int) * 2 ^ n \<le> 256 * 2 ^ 16" using that by (intro mult_left_mono power_increasing) auto
    finally show ?thesis
      unfolding unsigned_push_bit_eq byte32_uint using byte_range [of c] by (simp add: take_bit_int_eq_self push_bit_eq_mult)
  qed
  have t: "take_bit 8 (of_char c) = (of_char c :: int)" for c
    using byte_range [of c] by (simp add: take_bit_int_eq_self)
  show ?thesis
    using or_bytes_concat [of "of_char (h ! i) mod 128" "of_char (h ! (i + 1))" "of_char (h ! (i + 2))" "of_char (h ! (i + 3))"]
    unfolding totp_bin_def unsigned_or_eq a [OF order_refl] b [of 16, simplified] b [of 8, simplified] b [of 0, simplified] t
    by (simp add: algebra_simps)
qed

lemma dec_nat_length: "0 < w \<Longrightarrow> n < 10 ^ w \<Longrightarrow> length (dec_nat n) \<le> w"
proof (induction n arbitrary: w rule: dec_nat.induct)
  case (1 n)
  show ?case
  proof (cases "n < 10")
    case True
    then show ?thesis using 1(2) by (subst dec_nat.simps) simp
  next
    case False
    obtain v where v: "w = Suc v" using 1(2) by (cases w) auto
    have "0 < v" using False 1(3) v by (cases v) auto
    moreover have "n div 10 < 10 ^ v" using 1(3) v by (simp add: less_mult_imp_div_less mult.commute)
    ultimately show ?thesis using 1(1) [OF False, of v] False v by (subst dec_nat.simps) simp
  qed
qed

lemma dec_nat_chars: "(\<And>k. k < (10 :: nat) \<Longrightarrow> char_of (48 + k) \<in> D) \<Longrightarrow> set (dec_nat n) \<subseteq> D"
proof (induction n rule: dec_nat.induct)
  case (1 n)
  then show ?case by (subst dec_nat.simps) simp
qed

lemma dec_nat_digits: "set (dec_nat n) \<subseteq> set ''0123456789''"
proof (rule dec_nat_chars)
  have "\<forall>k \<in> set [0..<10]. char_of (48 + k :: nat) \<in> set ''0123456789''" by code_simp
  then show "char_of (48 + k) \<in> set ''0123456789''" if "k < 10" for k :: nat
    using that by (metis atLeastLessThan_iff set_upt zero_le)
qed

lemma hotp_shape: "length (hotp hmac key c) = 6 \<and> set (hotp hmac key c) \<subseteq> set ''0123456789''"
proof -
  let ?n = "nat (hotp_value (hmac key (be_bytes c)))"
  have "?n < 10 ^ 6" by (simp add: hotp_value_def Let_def)
  then have "length (dec_nat ?n) \<le> 6" by (intro dec_nat_length) simp_all
  moreover have "CHR ''0'' \<in> set ''0123456789''" by simp
  moreover have "set (replicate k x) \<subseteq> D" if "x \<in> D" for k x and D :: "char set" using that by auto
  ultimately show ?thesis
    unfolding hotp_def pad_dec_def Let_def set_append using dec_nat_digits [of ?n] by (intro conjI Un_least) simp_all
qed

lemma counter_value: "0 \<le> t \<Longrightarrow> t < 2 ^ 63 \<Longrightarrow> uint (totp_counter t) = t div totpPeriod"
proof -
  assume t: "0 \<le> t" "t < 2 ^ 63"
  have "t div (nsSecond * 30) = t div nsSecond div 30" by (rule zdiv_zmult2_eq) simp
  moreover have "0 \<le> t div nsSecond" using t by (simp add: pos_imp_zdiv_nonneg_iff)
  ultimately show ?thesis
    using t by (simp add: totp_counter_def totpPeriod_def uint_div_distrib unsigned_of_int take_bit_int_eq_self)
qed

lemma word_char_uint: "word_char w = char_of (uint w)"
  using char_of_nat [of "unat w", where 'a = int] by (simp add: word_char_def)

lemma PutUint64_value: "PutUint64 v = be_bytes (uint v)"
proof -
  have "word_char (ucast (drop_bit (8 * i) v)) = char_of (uint v div 256 ^ i mod 256)" for i
  proof -
    have "uint (ucast (drop_bit (8 * i) v) :: 8 word) = uint v div 256 ^ i mod 256"
      unfolding unsigned_ucast_eq unsigned_drop_bit_eq
      using unsigned_less [of v, where 'a = int] by (simp add: drop_bit_eq_div take_bit_eq_mod power_mult)
    then show ?thesis by (simp only: word_char_uint)
  qed
  then show ?thesis by (simp only: PutUint64_def be_bytes_def)
qed

lemma last_nibble: "unat (byte32 c AND 0x0f) = of_char c mod 16"
proof -
  have "uint (byte32 c AND 0x0f) = of_char c mod 16"
    using take_bit_eq_mask [of 4 "of_char c :: int"] by (simp add: unsigned_and_eq byte32_uint mask_eq_exp_minus_1 take_bit_eq_mod)
  also have "(of_char c :: int) mod 16 = int (of_char c mod 16)" by (simp add: zmod_int of_nat_of_char)
  finally show ?thesis by (simp add: unat_eq_nat_uint)
qed

lemma TOTPCode_hotp:
  assumes "\<And>k m. length (hmac k m) = 20" and "b32_decode (upper_ascii (TrimSpace secret)) = Some key"
    and "0 \<le> t" and "t < 2 ^ 63"
  shows "TOTPCode hmac secret t = Inr (hotp hmac key (t div totpPeriod))"
proof -
  let ?h = "hmac key (PutUint64 (totp_counter t))"
  let ?o = "unat (byte32 (last ?h) AND 0x0f)"
  have h: "?h \<noteq> []" "\<not> length ?h \<le> ?o + 3"
    using assms(1) [of key "PutUint64 (totp_counter t)"] mod_less_divisor [of 16 "of_char (last ?h)"] by (auto simp: last_nibble simp del: mod_less_divisor)
  have "uint (totp_bin ?h ?o mod totp_mod) = hotp_value ?h"
    unfolding totp_mod_value uint_mod_distrib totp_bin_value hotp_value_def Let_def last_nibble by simp
  moreover have "PutUint64 (totp_counter t) = be_bytes (t div totpPeriod)"
    unfolding PutUint64_value using counter_value [OF assms(3,4)] by simp
  ultimately show ?thesis using h assms(2) by (simp add: TOTPCode_def Let_def hotp_def totpDigits_def)
qed


definition window :: "gotime \<Rightarrow> int list" where
  "window t = [t div totpPeriod, t div totpPeriod - 1, t div totpPeriod + 1]"

lemma totp_loop_find:
  assumes hmac: "\<And>k m. length (hmac k m) = 20" and key: "b32_decode (upper_ascii (TrimSpace secret)) = Some key"
    and "\<And>x. x \<in> set skews \<Longrightarrow> 0 \<le> t + x \<and> t + x < 2 ^ 63"
  shows "totp_loop hmac secret code t skews =
    (case find (\<lambda>c. hotp hmac key c = code) (map (\<lambda>x. (t + x) div totpPeriod) skews) of
       None \<Rightarrow> (0, False) | Some c \<Rightarrow> (c, True))"
  using assms(3)
proof (induction skews)
  case (Cons x skews)
  then have x: "0 \<le> t + x" "t + x < 2 ^ 63" by simp_all
  note c = counter_value [OF x]
  have "(t + x) div totpPeriod < 2 ^ 63"
    using x by (simp add: totpPeriod_def)
  then have "sint (totp_counter (t + x)) = (t + x) div totpPeriod"
    using c x by (simp add: sint_uint signed_take_bit_int_eq_self pos_imp_zdiv_nonneg_iff totpPeriod_def)
  then show ?case using Cons TOTPCode_hotp [OF hmac key x] by simp
qed simp

text \<open>
  C15. One-time codes. With HMAC-SHA1 giving 20 bytes and a secret that decodes, a code has six
  digits and is the RFC 4226 value of the time step, computed there in arithmetic instead of
  shifts and masks of 32-bit words; the verifier accepts exactly the codes of the current, the
  previous and the following step and returns the step that matched.
\<close>

theorem totp_window:
  assumes "\<And>k m. length (hmac k m) = 20" and "b32_decode (upper_ascii (TrimSpace secret)) = Some key"
    and "30 * nsSecond \<le> t" and "t < 2 ^ 62"
  shows "TOTPCode hmac secret t = Inr (hotp hmac key (t div totpPeriod)) \<and>
    length (hotp hmac key c) = 6 \<and> set (hotp hmac key c) \<subseteq> set ''0123456789'' \<and>
    VerifyTOTPWithCounter hmac secret code t =
      (case find (\<lambda>c. hotp hmac key c = TrimSpace code) (window t) of None \<Rightarrow> (0, False) | Some c \<Rightarrow> (c, True)) \<and>
    (VerifyTOTP hmac secret code t \<longleftrightarrow> (\<exists>c. \<bar>c - t div totpPeriod\<bar> \<le> 1 \<and> TrimSpace code = hotp hmac key c))"
proof -
  have v: "VerifyTOTPWithCounter hmac secret code t =
      (case find (\<lambda>c. hotp hmac key c = TrimSpace code) (window t) of None \<Rightarrow> (0, False) | Some c \<Rightarrow> (c, True))"
  proof (cases "length (TrimSpace code) = 6")
    case True
    have w: "map (\<lambda>x. (t + x) div totpPeriod) [0, - totpPeriod, totpPeriod] = window t"
      using div_add_self2 [of totpPeriod t] div_add_self2 [of totpPeriod "t - totpPeriod"]
      by (simp add: window_def totpPeriod_def)
    have "\<And>x. x \<in> set [0, - totpPeriod, totpPeriod] \<Longrightarrow> 0 \<le> t + x \<and> t + x < 2 ^ 63"
      using assms(3,4) by (auto simp: totpPeriod_def)
    then have "totp_loop hmac secret (TrimSpace code) t [0, - totpPeriod, totpPeriod] =
        (case find (\<lambda>c. hotp hmac key c = TrimSpace code) (map (\<lambda>x. (t + x) div totpPeriod) [0, - totpPeriod, totpPeriod]) of
           None \<Rightarrow> (0, False) | Some c \<Rightarrow> (c, True))"
      by (intro totp_loop_find assms(1,2))
    with True show ?thesis unfolding w by (simp add: VerifyTOTPWithCounter_def totpDigits_def Let_def del: totp_loop.simps)
  next
    case False
    then have "find (\<lambda>c. hotp hmac key c = TrimSpace code) (window t) = None"
      unfolding find_None_iff by (metis hotp_shape)
    with False show ?thesis by (simp add: VerifyTOTPWithCounter_def totpDigits_def)
  qed
  have "(\<exists>c \<in> set (window t). hotp hmac key c = TrimSpace code) \<longleftrightarrow>
      (\<exists>c. \<bar>c - t div totpPeriod\<bar> \<le> 1 \<and> TrimSpace code = hotp hmac key c)"
  proof -
    have "c \<in> set (window t) \<longleftrightarrow> \<bar>c - t div totpPeriod\<bar> \<le> 1" for c by (auto simp: window_def)
    then show ?thesis by (auto simp: Bex_def)
  qed
  moreover have "VerifyTOTP hmac secret code t \<longleftrightarrow> (\<exists>c \<in> set (window t). hotp hmac key c = TrimSpace code)"
  proof (cases "find (\<lambda>c. hotp hmac key c = TrimSpace code) (window t)")
    case None
    moreover from None have "\<not> (\<exists>c \<in> set (window t). hotp hmac key c = TrimSpace code)" by (auto simp: find_None_iff)
    ultimately show ?thesis by (simp add: VerifyTOTP_def v)
  next
    case (Some c)
    then show ?thesis
      using sql_first_Some [unfolded sql_first_def, OF Some] by (auto simp: VerifyTOTP_def v)
  qed
  ultimately show ?thesis
    using v hotp_shape [of hmac key c] TOTPCode_hotp [OF assms(1,2), of t] assms(3,4) by simp
qed

definition toy_hmac :: "bytes \<Rightarrow> bytes \<Rightarrow> bytes" where
  "toy_hmac key msg = replicate 3 (CHR 0x00) @ [if msg = [] then CHR 0x00 else last msg] @ replicate 16 (CHR 0x00)"

theorem totp_window_witness:
  "TOTPCode toy_hmac ''jbswy3dpehpk3pxp'' (90 * nsSecond) = Inr ''000003'' \<and>
   VerifyTOTPWithCounter toy_hmac ''jbswy3dpehpk3pxp'' '' 000003'' (149 * nsSecond) = (3, True)"
proof -
  let ?key = "''Hello!'' @ [CHR 0xDE, CHR 0xAD, CHR 0xBE, CHR 0xEF]"
  have h: "length (toy_hmac k m) = 20" for k m by (simp add: toy_hmac_def)
  have k: "b32_decode (upper_ascii (TrimSpace ''jbswy3dpehpk3pxp'')) = Some ?key" by code_simp
  have c: "hotp toy_hmac ?key 3 = ''000003''" "hotp toy_hmac ?key 4 = ''000004''" by code_simp+
  have s: "TrimSpace '' 000003'' = ''000003''" by code_simp
  show ?thesis
    using totp_window [OF h k, where t = "90 * nsSecond"] totp_window [OF h k, where t = "149 * nsSecond" and code = "'' 000003''"] c s
    by (simp add: totpPeriod_def window_def)
qed

end
