(* ===== verification/Audit_Log.thy ===== *)
theory Audit_Log
  imports Go_Text
begin

section \<open>The audit log\<close>

text \<open>
  \<open>internal/audit/log.go\<close>: recording an event with the address of the client. The table
  \<open>audit_events\<close> is a list of rows with the sequence of its serial key. Metadata is a list of keys
  and texts; the JSON around it is left out, except that a \<open>jsonb\<close> value holds no NUL character.
  \<open>tx_inet\<close> is PostgreSQL's reading of an \<open>inet\<close> value, given as the text \<open>host()\<close> prints for it.
\<close>

subsection \<open>Requests and the client's address\<close>

record request =
  rq_Cookie :: "string option"
  rq_XForwardedFor :: string
  rq_RemoteAddr :: string
  rq_UserAgent :: string
  rq_Host :: string
  rq_TLS :: bool
  rq_XForwardedProto :: string

definition last_colon :: "string \<Rightarrow> nat option" where
  "last_colon s = (if CHR '':'' \<in> set s then Some (length s - 1 - length (takeWhile (\<lambda>c. c \<noteq> CHR '':'') (rev s))) else None)"

definition SplitHostPort :: "string \<Rightarrow> string option" where
  "SplitHostPort hp =
     (case last_colon hp of
        None \<Rightarrow> None
      | Some i \<Rightarrow>
          if hp \<noteq> [] \<and> hd hp = CHR ''['' then
            (let e = length (takeWhile (\<lambda>c. c \<noteq> CHR '']'') hp) in
             if e = length hp \<or> e + 1 \<noteq> i then None
             else if CHR ''['' \<in> set (drop 1 hp) \<or> CHR '']'' \<in> set (drop (e + 1) hp) then None
             else Some (take (e - 1) (drop 1 hp)))
          else
            (let host = take i hp in
             if CHR '':'' \<in> set host \<or> CHR ''['' \<in> set hp \<or> CHR '']'' \<in> set hp then None else Some host))"

definition ClientIP :: "request \<Rightarrow> string" where
  "ClientIP r =
     (let xff = rq_XForwardedFor r in
      if xff \<noteq> [] then
        (if CHR '','' \<in> set xff \<and> hd xff \<noteq> CHR '','' then TrimSpace (takeWhile (\<lambda>c. c \<noteq> CHR '','') xff)
         else TrimSpace xff)
      else (case SplitHostPort (rq_RemoteAddr r) of None \<Rightarrow> rq_RemoteAddr r | Some host \<Rightarrow> host))"

subsection \<open>Recording\<close>

record audit_event =
  aud_AccountID :: "uuid option"
  aud_ActorID :: "uuid option"
  aud_Action :: string
  aud_TargetKind :: string
  aud_TargetID :: string
  aud_IP :: string
  aud_UserAgent :: string
  aud_Metadata :: "(string \<times> string) list"

record audit_row =
  aw_id :: int
  aw_at :: gotime
  aw_account :: "uuid option"
  aw_actor :: "uuid option"
  aw_action :: string
  aw_target_kind :: "string option"
  aw_target_id :: "string option"
  aw_ip :: "string option"
  aw_user_agent :: "string option"
  aw_metadata :: "(string \<times> string) list"

record audit_table =
  al_rows :: "audit_row list"
  al_seq :: int

definition nullif_text :: "string \<Rightarrow> string option" where
  "nullif_text s = (if s = [] then None else Some s)"

text \<open>
  \<open>ipOrNil\<close> sends no address for the empty text; any other text has to read as an \<open>inet\<close>.
\<close>

definition ipOrNil :: "text_lib \<Rightarrow> string \<Rightarrow> string option option" where
  "ipOrNil T s = (if s = [] then Some None else map_option Some (tx_inet T s))"

definition meta_ok :: "(string \<times> string) list \<Rightarrow> bool" where
  "meta_ok m = list_all (\<lambda>(k, v). CHR 0x00 \<notin> set k \<and> CHR 0x00 \<notin> set v) m"

text \<open>
  \<open>Record\<close>. \<open>accounts\<close> are the identifiers the foreign key allows. Parameters that the server cannot
  read fail before the insert; a violated foreign key still takes a number of the sequence.
\<close>

definition audit_Record ::
    "text_lib \<Rightarrow> gotime \<Rightarrow> (uuid \<Rightarrow> bool) \<Rightarrow> audit_event \<Rightarrow> audit_table \<Rightarrow> bool \<times> audit_table" where
  "audit_Record T now accounts e t =
     (if \<not> (pg_text_ok (aud_Action e) \<and> pg_text_ok (aud_TargetKind e) \<and> pg_text_ok (aud_TargetID e) \<and>
            pg_text_ok (aud_UserAgent e) \<and> meta_ok (aud_Metadata e))
      then (False, t)
      else
        (case ipOrNil T (aud_IP e) of
           None \<Rightarrow> (False, t)
         | Some ip \<Rightarrow>
             if \<not> pred_option accounts (aud_AccountID e) then (False, t\<lparr>al_seq := al_seq t + 1\<rparr>)
             else (True, t\<lparr>al_seq := al_seq t + 1, al_rows := al_rows t @
               [\<lparr>aw_id = al_seq t, aw_at = now, aw_account = aud_AccountID e, aw_actor = aud_ActorID e,
                 aw_action = aud_Action e, aw_target_kind = nullif_text (aud_TargetKind e),
                 aw_target_id = nullif_text (aud_TargetID e), aw_ip = ip,
                 aw_user_agent = nullif_text (aud_UserAgent e), aw_metadata = aud_Metadata e\<rparr>]\<rparr>)))"

end
