(* ===== verification/Accounts.thy ===== *)
theory Accounts
  imports Rbac Drill_Store Evidence_Sign Audit_Log
begin

section \<open>The account store\<close>

text \<open>
  \<open>internal/account/store.go\<close> and \<open>team.go\<close>: accounts, memberships, invitations, subscription
  state and teams, one definition per store method. The record \<open>account_db\<close> holds the tables with
  the audit log. Every method that writes is one transaction; the deferred \<open>Rollback\<close> leaves the database as it was on every error.
  Constraints of the schema are \<open>AcctConstraint\<close>. Random tokens, fresh identifiers and
  \<open>now()\<close> are arguments; the record \<open>text_lib\<close> holds the tables of Unicode and the hash.
\<close>

subsection \<open>Data\<close>

record user_row =
  u_ID :: uuid
  u_Email :: string
  u_EmailVerified :: bool
  u_PasswordHash :: string
  u_IsStaff :: bool
  u_MFAEnabled :: bool
  u_TotpSecret :: "string option"
  u_LastCounter :: "int option"
  u_CreatedAt :: gotime
  u_deleted_at :: "gotime option"

record acct_row = account_row +
  acct_SubscriptionID :: "string option"
  acct_StatusUpdatedAt :: "gotime option"

record Membership =
  mb_AccountID :: uuid
  mb_UserID :: uuid
  mb_Role :: Role
  mb_CreatedAt :: gotime

record MembershipWithUser = Membership +
  mb_Email :: string

record Invitation =
  iv_ID :: uuid
  iv_AccountID :: uuid
  iv_Email :: string
  iv_Role :: Role
  iv_InvitedByUserID :: uuid
  iv_ExpiresAt :: gotime
  iv_AcceptedAt :: "gotime option"
  iv_CreatedAt :: gotime

record invite_row = Invitation +
  iv_token_hash :: string

record Team =
  te_ID :: uuid
  te_AccountID :: uuid
  te_Name :: string

record TeamMembershipRow =
  tr_TeamID :: uuid
  tr_UserID :: uuid

record account_db =
  ad_users :: "user_row list"
  ad_accounts :: "acct_row list"
  ad_members :: "Membership list"
  ad_invites :: "invite_row list"
  ad_events :: "string list"
  ad_teams :: "Team list"
  ad_team_members :: "TeamMembershipRow list"
  ad_audit :: audit_table

datatype account_error =
    AcctNotFound
  | InvitationGone
  | InvitationWrongEmail
  | SlugUnavailable
  | TeamNameTaken
  | InvalidRole
  | InvalidInviteRole
  | OnlyOwner
  | TransferToSelf
  | NotTheOwner
  | NoOwnedAccount
  | ManyOwnedAccounts
  | AcctConstraint

subsection \<open>Helpers\<close>

definition b64_raw :: "bytes \<Rightarrow> string" where
  "b64_raw b = filter (\<lambda>c. c \<noteq> CHR ''='') (b64_encode b)"

definition hashToken :: "text_lib \<Rightarrow> string \<Rightarrow> string" where
  "hashToken T raw = b64_raw (tx_sha256 T raw)"

definition emailLocal :: "string \<Rightarrow> string" where
  "emailLocal email =
     (let l = takeWhile (\<lambda>c. c \<noteq> CHR ''@'') email in
      if CHR ''@'' \<in> set email \<and> l \<noteq> [] then l else email)"

definition account_slugify :: "string \<Rightarrow> string" where
  "account_slugify s =
     (let s = trim_dashes (dash_runs False (lower_ascii s));
          s = (if s = [] then ''user'' else s)
      in if length s > 40 then take 40 s else s)"

definition shortID :: "text_lib \<Rightarrow> uuid \<Rightarrow> string" where
  "shortID T i = take 6 (filter (\<lambda>c. c \<noteq> CHR ''-'') (tx_uuid T i))"

definition ParseRole :: "text_lib \<Rightarrow> string \<Rightarrow> account_error + Role" where
  "ParseRole T s = (let r = tx_ToLower T (TrimSpace s) in if Role_Valid r then Inr r else Inl InvalidRole)"

definition ad_user_exists :: "uuid \<Rightarrow> account_db \<Rightarrow> bool" where
  "ad_user_exists i db = (i \<in> set (map u_ID (ad_users db)))"

definition ad_account_exists :: "uuid \<Rightarrow> account_db \<Rightarrow> bool" where
  "ad_account_exists i db = (i \<in> set (map acct_ID (ad_accounts db)))"

subsection \<open>Accounts\<close>

definition owner_row :: "uuid \<Rightarrow> uuid \<Rightarrow> gotime \<Rightarrow> Membership" where
  "owner_row acc userID now = \<lparr>mb_AccountID = acc, mb_UserID = userID, mb_Role = RoleOwner, mb_CreatedAt = now\<rparr>"

definition CreatePersonalAccount ::
    "text_lib \<Rightarrow> uuid \<Rightarrow> gotime \<Rightarrow> uuid \<Rightarrow> string \<Rightarrow> account_db \<Rightarrow> (account_error + Account) \<times> account_db" where
  "CreatePersonalAccount T newid now userID email db =
     (let local = emailLocal email;
          name = local @ CHR 0x27 # ''s workspace'';
          slug = account_slugify local @ ''-'' @ shortID T userID;
          row = \<lparr>acct_ID = newid, acct_Name = name, acct_Slug = slug, acct_StripeCustomerID = None, acct_Plan = PlanTrial,
            acct_CreatedAt = now, acct_TrialEndsAt = Some (now + 14 * nsDay), acct_SubscriptionStatus = None,
            acct_Unlimited = False, acct_deleted_at = None, acct_SubscriptionID = None, acct_StatusUpdatedAt = None\<rparr>
      in if \<not> pg_text_ok name \<or> \<not> pg_text_ok slug then (Inl AcctConstraint, db)
         else if \<exists>a \<in> set (ad_accounts db). acct_deleted_at a = None \<and> tx_citext T (acct_Slug a) = tx_citext T slug
           then (Inl SlugUnavailable, db)
         else if \<not> ad_user_exists userID db then (Inl AcctConstraint, db)
         else (Inr (Account.truncate row),
               db\<lparr>ad_accounts := ad_accounts db @ [row], ad_members := ad_members db @ [owner_row newid userID now]\<rparr>))"

definition GetAccount :: "uuid \<Rightarrow> account_db \<Rightarrow> account_error + Account" where
  "GetAccount accountID db =
     (case sql_first (\<lambda>a. acct_ID a = accountID \<and> acct_deleted_at a = None) (ad_accounts db) of
        None \<Rightarrow> Inl AcctNotFound
      | Some a \<Rightarrow> Inr (Account.truncate a))"

definition upd_account :: "(acct_row \<Rightarrow> bool) \<Rightarrow> (acct_row \<Rightarrow> acct_row) \<Rightarrow> account_db \<Rightarrow> account_db" where
  "upd_account P f db = db\<lparr>ad_accounts := sql_update P f (ad_accounts db)\<rparr>"

definition SetStripeCustomerID :: "uuid \<Rightarrow> string \<Rightarrow> account_db \<Rightarrow> (account_error + unit) \<times> account_db" where
  "SetStripeCustomerID accountID customerID db =
     (if \<not> pg_text_ok customerID then (Inl AcctConstraint, db)
      else (Inr (), upd_account (\<lambda>a. acct_ID a = accountID) (\<lambda>a. a\<lparr>acct_StripeCustomerID := Some customerID\<rparr>) db))"

definition SetUnlimited :: "uuid \<Rightarrow> bool \<Rightarrow> account_db \<Rightarrow> account_db" where
  "SetUnlimited accountID unlimited db = upd_account (\<lambda>a. acct_ID a = accountID) (\<lambda>a. a\<lparr>acct_Unlimited := unlimited\<rparr>) db"

definition SetUnlimitedByOwnerEmail ::
    "text_lib \<Rightarrow> string \<Rightarrow> bool \<Rightarrow> account_db \<Rightarrow> (account_error + uuid) \<times> account_db" where
  "SetUnlimitedByOwnerEmail T email unlimited db =
     (let ids = [acct_ID a. a \<leftarrow> ad_accounts db, m \<leftarrow> ad_members db, u \<leftarrow> ad_users db,
                 mb_AccountID m = acct_ID a \<and> mb_Role m = RoleOwner \<and> u_ID u = mb_UserID m \<and>
                 tx_citext T (u_Email u) = tx_citext T email \<and> acct_deleted_at a = None]
      in case ids of
           [] \<Rightarrow> (Inl NoOwnedAccount, db)
         | [i] \<Rightarrow> (Inr i, SetUnlimited i unlimited db)
         | _ \<Rightarrow> (Inl ManyOwnedAccounts, db))"

definition newer_event :: "gotime \<Rightarrow> acct_row \<Rightarrow> bool" where
  "newer_event eventCreated a = (case acct_StatusUpdatedAt a of None \<Rightarrow> True | Some t \<Rightarrow> t \<le> eventCreated)"

definition SyncSubscription ::
    "string \<Rightarrow> string \<Rightarrow> string \<Rightarrow> string \<Rightarrow> gotime \<Rightarrow> account_db \<Rightarrow> (account_error + unit) \<times> account_db" where
  "SyncSubscription customerID subscriptionID status plan eventCreated db =
     (let P = \<lambda>a. acct_StripeCustomerID a = Some customerID \<and> newer_event eventCreated a in
      if \<not> list_all pg_text_ok [customerID, subscriptionID, status, plan] then (Inl AcctConstraint, db)
      else if (\<exists>a \<in> set (ad_accounts db). P a) \<and> plan \<notin> set [PlanTrial, PlanStarter, PlanPro, PlanScale] then (Inl AcctConstraint, db)
      else (Inr (), upd_account P (\<lambda>a. a\<lparr>acct_Plan := plan, acct_SubscriptionID := nullif_text subscriptionID,
        acct_SubscriptionStatus := nullif_text status, acct_StatusUpdatedAt := Some eventCreated\<rparr>) db))"

definition HandleSubscriptionCanceled ::
    "string \<Rightarrow> gotime \<Rightarrow> gotime \<Rightarrow> account_db \<Rightarrow> (account_error + unit) \<times> account_db" where
  "HandleSubscriptionCanceled customerID eventCreated graceUntil db =
     (if \<not> pg_text_ok customerID then (Inl AcctConstraint, db)
      else (Inr (), upd_account (\<lambda>a. acct_StripeCustomerID a = Some customerID \<and> newer_event eventCreated a)
        (\<lambda>a. a\<lparr>acct_Plan := PlanTrial, acct_SubscriptionID := None, acct_SubscriptionStatus := Some ''canceled'',
          acct_StatusUpdatedAt := Some eventCreated, acct_TrialEndsAt := Some graceUntil\<rparr>) db))"

record OwnerContact =
  oc_AccountID :: uuid
  oc_AccountName :: string
  oc_OwnerEmail :: string

definition OwnerByStripeCustomer :: "string \<Rightarrow> account_db \<Rightarrow> OwnerContact option" where
  "OwnerByStripeCustomer customerID db =
     (case [\<lparr>oc_AccountID = acct_ID a, oc_AccountName = acct_Name a, oc_OwnerEmail = u_Email u\<rparr>.
              a \<leftarrow> ad_accounts db, m \<leftarrow> ad_members db, u \<leftarrow> ad_users db,
              mb_AccountID m = acct_ID a \<and> mb_Role m = RoleOwner \<and> u_ID u = mb_UserID m \<and>
              acct_StripeCustomerID a = Some customerID \<and> acct_deleted_at a = None] of
        [] \<Rightarrow> None | x # _ \<Rightarrow> Some x)"

definition RecordStripeEvent :: "string \<Rightarrow> account_db \<Rightarrow> (account_error + bool) \<times> account_db" where
  "RecordStripeEvent eventID db =
     (if \<not> pg_text_ok eventID then (Inl AcctConstraint, db)
      else if eventID \<in> set (ad_events db) then (Inr False, db)
      else (Inr True, db\<lparr>ad_events := ad_events db @ [eventID]\<rparr>))"

subsection \<open>Members\<close>

definition ListAccountsForUser :: "uuid \<Rightarrow> account_db \<Rightarrow> (Account \<times> Role) list" where
  "ListAccountsForUser userID db =
     map (\<lambda>(a, r). ((Account.truncate a)\<lparr>acct_TrialEndsAt := None, acct_SubscriptionStatus := None, acct_Unlimited := False\<rparr>, r))
       (sort_key (\<lambda>(a, r). acct_CreatedAt a)
         [(a, mb_Role m). m \<leftarrow> ad_members db, a \<leftarrow> ad_accounts db,
            acct_ID a = mb_AccountID m \<and> mb_UserID m = userID \<and> acct_deleted_at a = None])"

definition member_key :: "uuid \<Rightarrow> uuid \<Rightarrow> Membership \<Rightarrow> bool" where
  "member_key accountID userID m = (mb_AccountID m = accountID \<and> mb_UserID m = userID)"

definition GetMembership :: "uuid \<Rightarrow> uuid \<Rightarrow> account_db \<Rightarrow> account_error + Membership" where
  "GetMembership accountID userID db =
     (case sql_first (member_key accountID userID) (ad_members db) of
        None \<Rightarrow> Inl AcctNotFound
      | Some m \<Rightarrow> Inr m)"

definition ListMembers :: "uuid \<Rightarrow> account_db \<Rightarrow> MembershipWithUser list" where
  "ListMembers accountID db =
     sort_key mb_CreatedAt
       [Membership.extend m \<lparr>mb_Email = u_Email u\<rparr>. m \<leftarrow> ad_members db, u \<leftarrow> ad_users db,
          u_ID u = mb_UserID m \<and> mb_AccountID m = accountID \<and> u_deleted_at u = None]"

definition lockMembers :: "uuid \<Rightarrow> uuid \<Rightarrow> account_db \<Rightarrow> nat \<times> Role option" where
  "lockMembers accountID userID db =
     (let rows = filter (\<lambda>m. mb_AccountID m = accountID) (ad_members db) in
      (length (filter (\<lambda>m. mb_Role m = RoleOwner) rows),
       map_option mb_Role (find (\<lambda>m. mb_UserID m = userID) (rev rows))))"

definition UpdateMemberRole :: "uuid \<Rightarrow> uuid \<Rightarrow> Role \<Rightarrow> account_db \<Rightarrow> (account_error + unit) \<times> account_db" where
  "UpdateMemberRole accountID userID role db =
     (if \<not> Role_Valid role then (Inl InvalidRole, db)
      else
        (case lockMembers accountID userID db of
           (_, None) \<Rightarrow> (Inl AcctNotFound, db)
         | (ownerCount, Some currentRole) \<Rightarrow>
             if role \<noteq> RoleOwner \<and> currentRole = RoleOwner \<and> ownerCount \<le> 1 then (Inl OnlyOwner, db)
             else (Inr (), db\<lparr>ad_members := sql_update (member_key accountID userID) (\<lambda>m. m\<lparr>mb_Role := role\<rparr>) (ad_members db)\<rparr>)))"

text \<open>
  \<open>TransferOwnership\<close> reads in one part of its transaction and writes in a later one without
  locking the rows it read, so the two parts have their own definitions.
\<close>

definition transfer_check :: "uuid \<Rightarrow> uuid \<Rightarrow> uuid \<Rightarrow> account_db \<Rightarrow> account_error option" where
  "transfer_check accountID fromUserID toUserID db =
     (if fromUserID = toUserID then Some TransferToSelf
      else
        (case sql_first (member_key accountID fromUserID) (ad_members db) of
           None \<Rightarrow> Some AcctNotFound
         | Some m \<Rightarrow>
             if mb_Role m \<noteq> RoleOwner then Some NotTheOwner
             else if \<not> (\<exists>m \<in> set (ad_members db). member_key accountID toUserID m) then Some AcctNotFound
             else None))"

definition transfer_write :: "uuid \<Rightarrow> uuid \<Rightarrow> uuid \<Rightarrow> account_db \<Rightarrow> account_db" where
  "transfer_write accountID fromUserID toUserID db =
     db\<lparr>ad_members :=
       sql_update (member_key accountID toUserID) (\<lambda>m. m\<lparr>mb_Role := RoleOwner\<rparr>)
         (sql_update (member_key accountID fromUserID) (\<lambda>m. m\<lparr>mb_Role := RoleAdmin\<rparr>) (ad_members db))\<rparr>"

definition TransferOwnership :: "uuid \<Rightarrow> uuid \<Rightarrow> uuid \<Rightarrow> account_db \<Rightarrow> (account_error + unit) \<times> account_db" where
  "TransferOwnership accountID fromUserID toUserID db =
     (case transfer_check accountID fromUserID toUserID db of
        Some e \<Rightarrow> (Inl e, db)
      | None \<Rightarrow> (Inr (), transfer_write accountID fromUserID toUserID db))"

definition RemoveMember :: "uuid \<Rightarrow> uuid \<Rightarrow> account_db \<Rightarrow> (account_error + unit) \<times> account_db" where
  "RemoveMember accountID userID db =
     (case lockMembers accountID userID db of
        (_, None) \<Rightarrow> (Inl AcctNotFound, db)
      | (ownerCount, Some role) \<Rightarrow>
          if role = RoleOwner \<and> ownerCount \<le> 1 then (Inl OnlyOwner, db)
          else (Inr (), db\<lparr>ad_members := sql_delete (member_key accountID userID) (ad_members db)\<rparr>))"

subsection \<open>Invitations\<close>

definition CreateInvitation ::
    "text_lib \<Rightarrow> uuid \<Rightarrow> string \<Rightarrow> gotime \<Rightarrow> uuid \<Rightarrow> uuid \<Rightarrow> string \<Rightarrow> Role \<Rightarrow> duration \<Rightarrow> account_db \<Rightarrow>
      (account_error + string \<times> Invitation) \<times> account_db" where
  "CreateInvitation T newid raw now accountID invitedBy email role ttl db =
     (let row = \<lparr>iv_ID = newid, iv_AccountID = accountID, iv_Email = TrimSpace (tx_ToLower T email), iv_Role = role,
            iv_InvitedByUserID = invitedBy, iv_ExpiresAt = now + ttl, iv_AcceptedAt = None, iv_CreatedAt = now,
            iv_token_hash = hashToken T raw\<rparr>
      in if \<not> ValidInviteRole role then (Inl InvalidInviteRole, db)
         else if \<not> pg_text_ok (iv_Email row) \<or> \<not> ad_account_exists accountID db \<or> \<not> ad_user_exists invitedBy db \<or>
           iv_token_hash row \<in> set (map iv_token_hash (ad_invites db)) then (Inl AcctConstraint, db)
         else (Inr (raw, Invitation.truncate row), db\<lparr>ad_invites := ad_invites db @ [row]\<rparr>))"

definition invite_by_token :: "text_lib \<Rightarrow> string \<Rightarrow> account_db \<Rightarrow> invite_row option" where
  "invite_by_token T rawToken db = sql_first (\<lambda>i. iv_token_hash i = hashToken T rawToken) (ad_invites db)"

definition LookupInvitation :: "text_lib \<Rightarrow> gotime \<Rightarrow> string \<Rightarrow> account_db \<Rightarrow> account_error + Invitation" where
  "LookupInvitation T now rawToken db =
     (case invite_by_token T rawToken db of
        None \<Rightarrow> Inl AcctNotFound
      | Some iv \<Rightarrow>
          if iv_AcceptedAt iv \<noteq> None \<or> now > iv_ExpiresAt iv then Inl InvitationGone
          else Inr (Invitation.truncate iv))"

definition AcceptInvitation ::
    "text_lib \<Rightarrow> gotime \<Rightarrow> string \<Rightarrow> uuid \<Rightarrow> string \<Rightarrow> account_db \<Rightarrow> (account_error + Invitation) \<times> account_db" where
  "AcceptInvitation T now rawToken userID userEmail db =
     (case invite_by_token T rawToken db of
        None \<Rightarrow> (Inl AcctNotFound, db)
      | Some iv \<Rightarrow>
          if iv_AcceptedAt iv \<noteq> None then (Inl InvitationGone, db)
          else if now > iv_ExpiresAt iv then (Inl InvitationGone, db)
          else if \<not> tx_EqualFold T (TrimSpace userEmail) (iv_Email iv) then (Inl InvitationWrongEmail, db)
          else if \<not> ad_account_exists (iv_AccountID iv) db \<or> \<not> ad_user_exists userID db then (Inl AcctConstraint, db)
          else
            (let ms = (if \<exists>m \<in> set (ad_members db). member_key (iv_AccountID iv) userID m then ad_members db
                       else ad_members db @ [\<lparr>mb_AccountID = iv_AccountID iv, mb_UserID = userID, mb_Role = iv_Role iv, mb_CreatedAt = now\<rparr>])
             in (Inr ((Invitation.truncate iv)\<lparr>iv_AcceptedAt := Some now\<rparr>),
                 db\<lparr>ad_members := ms,
                    ad_invites := sql_update (\<lambda>i. iv_ID i = iv_ID iv) (\<lambda>i. i\<lparr>iv_AcceptedAt := Some now\<rparr>) (ad_invites db)\<rparr>)))"

definition ListPendingInvitations :: "uuid \<Rightarrow> account_db \<Rightarrow> Invitation list" where
  "ListPendingInvitations accountID db =
     map Invitation.truncate (sort_key (\<lambda>i. - iv_CreatedAt i)
       (filter (\<lambda>i. iv_AccountID i = accountID \<and> iv_AcceptedAt i = None) (ad_invites db)))"

subsection \<open>Teams\<close>

definition team_name_taken :: "text_lib \<Rightarrow> uuid \<Rightarrow> string \<Rightarrow> Team list \<Rightarrow> bool" where
  "team_name_taken T accountID name teams =
     (\<exists>t \<in> set teams. te_AccountID t = accountID \<and> tx_citext T (te_Name t) = tx_citext T name)"

definition CreateTeam :: "text_lib \<Rightarrow> uuid \<Rightarrow> uuid \<Rightarrow> string \<Rightarrow> account_db \<Rightarrow> (account_error + Team) \<times> account_db" where
  "CreateTeam T newid accountID name db =
     (if \<not> pg_text_ok name then (Inl AcctConstraint, db)
      else if team_name_taken T accountID name (ad_teams db) then (Inl TeamNameTaken, db)
      else if \<not> ad_account_exists accountID db then (Inl AcctConstraint, db)
      else
        (let t = \<lparr>te_ID = newid, te_AccountID = accountID, te_Name = name\<rparr>
         in (Inr t, db\<lparr>ad_teams := ad_teams db @ [t]\<rparr>)))"

definition own_team :: "uuid \<Rightarrow> uuid \<Rightarrow> Team \<Rightarrow> bool" where
  "own_team accountID teamID t = (te_ID t = teamID \<and> te_AccountID t = accountID)"

definition RenameTeam :: "text_lib \<Rightarrow> uuid \<Rightarrow> uuid \<Rightarrow> string \<Rightarrow> account_db \<Rightarrow> (account_error + unit) \<times> account_db" where
  "RenameTeam T accountID teamID name db =
     (if \<not> pg_text_ok name then (Inl AcctConstraint, db)
      else if sql_affected (own_team accountID teamID) (ad_teams db) = 0 then (Inl AcctNotFound, db)
      else if team_name_taken T accountID name (filter (\<lambda>t. \<not> own_team accountID teamID t) (ad_teams db)) then (Inl TeamNameTaken, db)
      else (Inr (), db\<lparr>ad_teams := sql_update (own_team accountID teamID) (\<lambda>t. t\<lparr>te_Name := name\<rparr>) (ad_teams db)\<rparr>))"

text \<open>
  Deleting a team also deletes its memberships and clears \<open>team_id\<close> of its targets, which the
  schema does by \<open>ON DELETE CASCADE\<close> and \<open>ON DELETE SET NULL\<close>.
\<close>

definition DeleteTeam :: "uuid \<Rightarrow> uuid \<Rightarrow> account_db \<Rightarrow> drill_db \<Rightarrow> (account_error + unit) \<times> account_db \<times> drill_db" where
  "DeleteTeam accountID teamID db ddb =
     (if sql_affected (own_team accountID teamID) (ad_teams db) = 0 then (Inl AcctNotFound, db, ddb)
      else (Inr (),
            db\<lparr>ad_teams := sql_delete (own_team accountID teamID) (ad_teams db),
               ad_team_members := sql_delete (\<lambda>r. tr_TeamID r = teamID) (ad_team_members db)\<rparr>,
            ddb\<lparr>db_teams := sql_delete (\<lambda>t. tm_ID t = teamID) (db_teams ddb),
               db_targets := sql_update (\<lambda>t. t_TeamID t = Some teamID) (\<lambda>t. t\<lparr>t_TeamID := None\<rparr>) (db_targets ddb)\<rparr>))"

definition ListTeams :: "text_lib \<Rightarrow> uuid \<Rightarrow> account_db \<Rightarrow> Team list" where
  "ListTeams T accountID db = sort_key (\<lambda>t. tx_order T (te_Name t)) (filter (\<lambda>t. te_AccountID t = accountID) (ad_teams db))"

definition AddTeamMember :: "uuid \<Rightarrow> uuid \<Rightarrow> uuid \<Rightarrow> account_db \<Rightarrow> (account_error + unit) \<times> account_db" where
  "AddTeamMember accountID teamID userID db =
     (let edge = \<lparr>tr_TeamID = teamID, tr_UserID = userID\<rparr> in
      if (\<exists>t \<in> set (ad_teams db). own_team accountID teamID t) \<and> (\<exists>m \<in> set (ad_members db). member_key accountID userID m) \<and>
         edge \<notin> set (ad_team_members db)
      then (Inr (), db\<lparr>ad_team_members := ad_team_members db @ [edge]\<rparr>)
      else if edge \<in> set (ad_team_members db) \<and> (\<exists>t \<in> set (ad_teams db). own_team accountID teamID t) then (Inr (), db)
      else (Inl AcctNotFound, db))"

definition RemoveTeamMember :: "uuid \<Rightarrow> uuid \<Rightarrow> uuid \<Rightarrow> account_db \<Rightarrow> account_db" where
  "RemoveTeamMember accountID teamID userID db =
     db\<lparr>ad_team_members := sql_delete (\<lambda>r. (\<exists>t \<in> set (ad_teams db). own_team accountID (tr_TeamID r) t) \<and>
       tr_TeamID r = teamID \<and> tr_UserID r = userID) (ad_team_members db)\<rparr>"

definition TeamIDsForUser :: "uuid \<Rightarrow> uuid \<Rightarrow> account_db \<Rightarrow> uuid list" where
  "TeamIDsForUser accountID userID db =
     [tr_TeamID r. r \<leftarrow> ad_team_members db, t \<leftarrow> ad_teams db,
        te_ID t = tr_TeamID r \<and> te_AccountID t = accountID \<and> tr_UserID r = userID]"

definition TeamMemberships :: "uuid \<Rightarrow> account_db \<Rightarrow> TeamMembershipRow list" where
  "TeamMemberships accountID db =
     [r. r \<leftarrow> ad_team_members db, t \<leftarrow> ad_teams db, te_ID t = tr_TeamID r \<and> te_AccountID t = accountID]"

definition GetTeam :: "uuid \<Rightarrow> uuid \<Rightarrow> account_db \<Rightarrow> account_error + Team" where
  "GetTeam accountID teamID db =
     (case sql_first (own_team accountID teamID) (ad_teams db) of None \<Rightarrow> Inl AcctNotFound | Some t \<Rightarrow> Inr t)"

end
