(* ===== verification/Passwords.thy ===== *)
theory Passwords
  imports Accounts
begin

section \<open>Passwords\<close>

text \<open>
  \<open>internal/auth/password.go\<close>. The key derivation \<open>argon2.IDKey\<close> is a parameter of password, salt, time, memory,
  threads and key length; it panics when time or threads are zero.
\<close>

type_synonym argon = "string \<Rightarrow> bytes \<Rightarrow> nat \<Rightarrow> nat \<Rightarrow> nat \<Rightarrow> nat \<Rightarrow> bytes"

definition argonTime :: nat where "argonTime = 2"
definition argonMemory :: nat where "argonMemory = 19 * 1024"
definition argonThreads :: nat where "argonThreads = 1"
definition argonKeyLen :: nat where "argonKeyLen = 32"

definition HashPassword :: "argon \<Rightarrow> bytes \<Rightarrow> string \<Rightarrow> string" where
  "HashPassword K salt password =
     ''$argon2id$v='' @ dec_nat 19 @ ''$m='' @ dec_nat argonMemory @ '',t='' @ dec_nat argonTime @
     '',p='' @ dec_nat argonThreads @ ''$'' @ b64_raw salt @ ''$'' @
     b64_raw (K password salt argonTime argonMemory argonThreads argonKeyLen)"

fun split_on :: "char \<Rightarrow> string \<Rightarrow> string list" where
  "split_on c [] = [[]]"
| "split_on c (x # xs) =
     (if x = c then [] # split_on c xs
      else (case split_on c xs of [] \<Rightarrow> [[x]] | p # ps \<Rightarrow> (x # p) # ps))"

text \<open>
  \<open>fmt.Sscanf\<close> with literals and \<open>%d\<close>: before a number white space is skipped, but a newline
  ends the scan with an error; input left over is ignored. A number that does not fit its type is an error.
\<close>

definition scan_lit :: "string \<Rightarrow> string \<Rightarrow> string option" where
  "scan_lit l s = (if take (length l) s = l then Some (drop (length l) s) else None)"

definition scan_space :: "string \<Rightarrow> string option" where
  "scan_space s =
     (let r = trim_by (filter (\<lambda>w. w \<noteq> [CHR 0x0A]) white_space) s
      in if r \<noteq> [] \<and> hd r = CHR 0x0A then None else Some r)"

definition scan_uint :: "nat \<Rightarrow> string \<Rightarrow> (nat \<times> string) option" where
  "scan_uint bits s =
     (case scan_space s of
        None \<Rightarrow> None
      | Some r \<Rightarrow>
          (let ds = takeWhile is_dec r in
           if ds = [] \<or> dec_val ds \<ge> 2 ^ bits then None else Some (nat (dec_val ds), dropWhile is_dec r)))"

definition scan_int_ok :: "string \<Rightarrow> bool" where
  "scan_int_ok s =
     (case scan_space s of
        None \<Rightarrow> False
      | Some r \<Rightarrow>
          (let neg = r \<noteq> [] \<and> hd r = CHR ''-'';
               ds = takeWhile is_dec (if r \<noteq> [] \<and> (hd r = CHR ''+'' \<or> hd r = CHR ''-'') then tl r else r)
           in ds \<noteq> [] \<and> (if neg then dec_val ds \<le> 2 ^ 63 else dec_val ds < 2 ^ 63)))"

definition scan_params :: "string \<Rightarrow> (nat \<times> nat \<times> nat) option" where
  "scan_params s =
     (case scan_lit ''m='' s of None \<Rightarrow> None | Some s \<Rightarrow>
     (case scan_uint 32 s of None \<Rightarrow> None | Some (m, s) \<Rightarrow>
     (case scan_lit '',t='' s of None \<Rightarrow> None | Some s \<Rightarrow>
     (case scan_uint 32 s of None \<Rightarrow> None | Some (t, s) \<Rightarrow>
     (case scan_lit '',p='' s of None \<Rightarrow> None | Some s \<Rightarrow>
     (case scan_uint 8 s of None \<Rightarrow> None | Some (p, s) \<Rightarrow> Some (m, t, p)))))))"

definition b64_raw_decode :: "string \<Rightarrow> bytes option" where
  "b64_raw_decode s =
     (let cs = filter (\<lambda>c. c \<noteq> CHR 0x0A \<and> c \<noteq> CHR 0x0D) s in
      if CHR ''='' \<in> set cs then None else b64_groups (cs @ replicate ((4 - length cs mod 4) mod 4) (CHR ''='')))"

datatype pw_result = PwOK | ErrInvalidHash | ErrMismatch | PwPanic

definition VerifyPassword :: "argon \<Rightarrow> string \<Rightarrow> string \<Rightarrow> pw_result" where
  "VerifyPassword K password encoded =
     (let parts = split_on (CHR ''$'') encoded in
      if length parts \<noteq> 6 \<or> parts ! 1 \<noteq> ''argon2id'' then ErrInvalidHash
      else
        (case scan_lit ''v='' (parts ! 2) of
           None \<Rightarrow> ErrInvalidHash
         | Some v \<Rightarrow>
             if \<not> scan_int_ok v then ErrInvalidHash
             else
               (case scan_params (parts ! 3) of
                  None \<Rightarrow> ErrInvalidHash
                | Some (m, t, p) \<Rightarrow>
                    (case (b64_raw_decode (parts ! 4), b64_raw_decode (parts ! 5)) of
                       (Some salt, Some expected) \<Rightarrow>
                         if t < 1 \<or> p < 1 then PwPanic
                         else if K password salt t m p (length expected) = expected then PwOK
                         else ErrMismatch
                     | _ \<Rightarrow> ErrInvalidHash))))"

subsection \<open>A stored hash reads back\<close>

lemma b64_raw_Cons:
  "b64_raw (a # b # c # r) = take 4 (b64_encode [a, b, c]) @ b64_raw r"
  "length (b64_raw (a # b # c # r)) = 4 + length (b64_raw r)"
  using b64_char_plain b64_bytes by (simp_all add: b64_raw_def Let_def)

lemma b64_raw_pad: "b64_raw b @ replicate ((4 - length (b64_raw b) mod 4) mod 4) (CHR ''='') = b64_encode b"
proof (induction b rule: b64_encode.induct)
  case (2 a)
  then show ?case using b64_char_plain b64_bytes by (simp add: b64_raw_def Let_def numeral_2_eq_2)
next
  case (3 a b)
  then show ?case using b64_char_plain b64_bytes by (simp add: b64_raw_def Let_def)
next
  case (4 a b c r)
  have "(4 + n) mod 4 = n mod 4" for n :: nat by simp
  then show ?case using 4 b64_raw_Cons [of a b c r] by (simp add: Let_def)
qed (simp add: b64_raw_def)

lemma b64_raw_plain: "c \<in> set (b64_raw b) \<Longrightarrow> c \<noteq> CHR ''='' \<and> c \<noteq> CHR 0x0A \<and> c \<noteq> CHR 0x0D"
  using b64_encode_plain [of c b] by (auto simp: b64_raw_def)

lemma b64_raw_roundtrip: "b64_raw_decode (b64_raw b) = Some b"
proof -
  have "filter (\<lambda>c. c \<noteq> CHR 0x0A \<and> c \<noteq> CHR 0x0D) (b64_raw b) = b64_raw b"
    by (rule filter_True) (use b64_raw_plain in blast)
  moreover have "CHR ''='' \<notin> set (b64_raw b)" using b64_raw_plain by blast
  ultimately show ?thesis by (simp add: b64_raw_decode_def Let_def b64_raw_pad b64_groups_encode)
qed

lemma b64_char_dollar: "n < 64 \<Longrightarrow> CHR ''$'' \<noteq> b64_char n"
  using b64_val_char [of n] by (auto simp: b64_val_def dest: sym)

lemma b64_raw_dollar: "CHR ''$'' \<notin> set (b64_raw b)"
proof -
  have "CHR ''$'' \<notin> set (b64_encode b)"
    by (induction b rule: b64_encode.induct) (simp_all add: Let_def b64_bytes b64_char_dollar)
  then show ?thesis by (simp add: b64_raw_def)
qed

lemma split_on_last: "c \<notin> set xs \<Longrightarrow> split_on c xs = [xs]"
  by (induction xs) auto

lemma split_on_append: "c \<notin> set xs \<Longrightarrow> split_on c (xs @ c # ys) = xs # split_on c ys"
  by (induction xs) (auto split: list.split)

lemma verify_hashed:
  assumes "length (K p salt argonTime argonMemory argonThreads argonKeyLen) = argonKeyLen"
  shows "VerifyPassword K r (HashPassword K salt p) =
    (if K r salt argonTime argonMemory argonThreads argonKeyLen = K p salt argonTime argonMemory argonThreads argonKeyLen then PwOK else ErrMismatch)"
proof -
  let ?key = "K p salt argonTime argonMemory argonThreads argonKeyLen"
  have d: "dec_nat 19 = ''19''" "dec_nat argonMemory = ''19456''" "dec_nat argonTime = ''2''" "dec_nat argonThreads = ''1''" 
    by (simp_all add: argonMemory_def argonTime_def argonThreads_def dec_nat.simps char_of_def bit_Suc_0_iff)
  have "HashPassword K salt p = [] @ CHR ''$'' # ''argon2id'' @ CHR ''$'' # ''v=19'' @ CHR ''$'' # ''m=19456,t=2,p=1'' @ CHR ''$'' # b64_raw salt @
      CHR ''$'' # b64_raw ?key"
    by (simp add: HashPassword_def d)
  then have parts: "split_on (CHR ''$'') (HashPassword K salt p) = [[], ''argon2id'', ''v=19'', ''m=19456,t=2,p=1'', b64_raw salt, b64_raw ?key]"
    by (simp add: split_on_append [OF b64_raw_dollar] split_on_last [OF b64_raw_dollar])
  have sp: "scan_space ''19456,t=2,p=1'' = Some ''19456,t=2,p=1''" "scan_space ''2,p=1'' = Some ''2,p=1''" "scan_space ''1'' = Some ''1''"
    by code_simp+
  have scans: "scan_lit ''v='' ''v=19'' = Some ''19''" "scan_int_ok ''19''" "scan_params ''m=19456,t=2,p=1'' = Some (19456, 2, 1)"
    by (code_simp, code_simp)
      (simp add: scan_params_def scan_lit_def scan_uint_def sp is_dec_def dec_val_def)
  show ?thesis
    using assms by (simp add: VerifyPassword_def parts scans b64_raw_roundtrip argonTime_def argonMemory_def argonThreads_def argonKeyLen_def)
qed

text \<open>
  A password and its stored hash. The hash made for a password verifies with that password,
  and with another one exactly when the key derivation gives the same key for the stored salt;
  reading it back never fails as malformed and never panics.
\<close>

theorem password_roundtrip:
  assumes "\<And>pw t m th n. length (K pw salt t m th n) = n"
  shows "VerifyPassword K p (HashPassword K salt p) = PwOK \<and>
    VerifyPassword K q (HashPassword K salt p) =
      (if K q salt argonTime argonMemory argonThreads argonKeyLen = K p salt argonTime argonMemory argonThreads argonKeyLen
       then PwOK else ErrMismatch)"
  using assms by (simp add: verify_hashed)

definition toy_argon :: argon where
  "toy_argon pw salt t m th n = take n (pw @ salt @ replicate n (CHR ''x''))"

theorem password_roundtrip_witness:
  "VerifyPassword toy_argon ''secret'' (HashPassword toy_argon ''salt'' ''secret'') = PwOK \<and>
   VerifyPassword toy_argon ''other'' (HashPassword toy_argon ''salt'' ''secret'') = ErrMismatch"
  using password_roundtrip [of toy_argon "''salt''" "''secret''" "''other''"] by (simp add: toy_argon_def argonKeyLen_def)

end
