(* ===== verification/Account_Web.thy ===== *)
theory Account_Web
  imports Accounts
begin

section \<open>The handlers for members, invitations and teams\<close>

text \<open>
  \<open>internal/web/handlers/account.go\<close>, \<open>teams.go\<close> and \<open>plan.go\<close>: a handler is a function from what the middleware put into
  the request's context (record \<open>page_ctx\<close>), the path parameters and the form to its response
  and the new tables. A form that does not parse is \<open>None\<close>. A page is its status code; the logger
  and the analytics client are left out, a mail is part of the result. The errors of the audit
  log are ignored as in the source, so a refused event is just not there.
\<close>

datatype response = HttpStatus nat | SeeOther string

type_synonym form = "(string \<Rightarrow> string) option"

record page_ctx =
  cx_now :: gotime
  cx_req :: request
  cx_user :: uuid
  cx_account :: Account
  cx_role :: "Role option"

datatype mail_msg =
    InvitationMessage string string string string
  | MagicLinkMessage string string
  | VerifyEmailMessage string string
  | WelcomeMessage string string

subsection \<open>Shared pieces\<close>

definition audit_db :: "text_lib \<Rightarrow> gotime \<Rightarrow> audit_event \<Rightarrow> account_db \<Rightarrow> account_db" where
  "audit_db T now e db = db\<lparr>ad_audit := snd (audit_Record T now (\<lambda>i. ad_account_exists i db) e (ad_audit db))\<rparr>"

definition enforceLimit :: "nat \<Rightarrow> int \<Rightarrow> response option" where
  "enforceLimit count limit = (if AtLimit (int count) limit then Some (HttpStatus 403) else None)"

definition absoluteURL_req :: "text_lib \<Rightarrow> request \<Rightarrow> string \<Rightarrow> string" where
  "absoluteURL_req T r path =
     (if rq_TLS r \<or> tx_EqualFold T (rq_XForwardedProto r) ''https'' then ''https'' else ''http'') @ ''://'' @ rq_Host r @ path"

definition absoluteURL :: "text_lib \<Rightarrow> string \<Rightarrow> request \<Rightarrow> string \<Rightarrow> string" where
  "absoluteURL T baseURL r path = (if baseURL \<noteq> [] then baseURL @ path else absoluteURL_req T r path)"

definition trimName :: "string \<Rightarrow> string" where
  "trimName s = (let s = TrimSpace s in if length s > 80 then take 80 s else s)"

subsection \<open>Members\<close>

text \<open>The routes are behind \<open>RequireAction(ActionMemberWrite)\<close>.\<close>

definition member_event :: "text_lib \<Rightarrow> page_ctx \<Rightarrow> string \<Rightarrow> uuid \<Rightarrow> (string \<times> string) list \<Rightarrow> audit_event" where
  "member_event T cx action userID meta =
     \<lparr>aud_AccountID = Some (acct_ID (cx_account cx)), aud_ActorID = Some (cx_user cx), aud_Action = action,
      aud_TargetKind = ''user'', aud_TargetID = tx_uuid T userID, aud_IP = [], aud_UserAgent = [], aud_Metadata = meta\<rparr>"

definition memberUpdate :: "text_lib \<Rightarrow> page_ctx \<Rightarrow> string \<Rightarrow> form \<Rightarrow> account_db \<Rightarrow> response \<times> account_db" where
  "memberUpdate T cx user_id frm db =
     (case tx_parse_uuid T user_id of
        None \<Rightarrow> (HttpStatus 400, db)
      | Some userID \<Rightarrow>
          (case frm of
             None \<Rightarrow> (HttpStatus 400, db)
           | Some f \<Rightarrow>
               (case ParseRole T (f ''role'') of
                  Inl _ \<Rightarrow> (HttpStatus 400, db)
                | Inr role \<Rightarrow>
                    (case UpdateMemberRole (acct_ID (cx_account cx)) userID role db of
                       (Inl _, db') \<Rightarrow> (HttpStatus 400, db')
                     | (Inr _, db') \<Rightarrow>
                         (SeeOther ''/account'',
                          audit_db T (cx_now cx) (member_event T cx ''account.member_role_changed'' userID [(''role'', role)]) db')))))"

definition memberTransferOwnership :: "text_lib \<Rightarrow> page_ctx \<Rightarrow> string \<Rightarrow> account_db \<Rightarrow> response \<times> account_db" where
  "memberTransferOwnership T cx user_id db =
     (if cx_role cx \<noteq> Some RoleOwner then (HttpStatus 403, db)
      else
        (case tx_parse_uuid T user_id of
           None \<Rightarrow> (HttpStatus 400, db)
         | Some userID \<Rightarrow>
             (case TransferOwnership (acct_ID (cx_account cx)) (cx_user cx) userID db of
                (Inl _, db') \<Rightarrow> (HttpStatus 400, db')
              | (Inr _, db') \<Rightarrow>
                  (SeeOther ''/account'',
                   audit_db T (cx_now cx) ((member_event T cx ''account.ownership_transferred'' userID [])
                     \<lparr>aud_IP := ClientIP (cx_req cx), aud_UserAgent := rq_UserAgent (cx_req cx)\<rparr>) db'))))"

definition memberRemove :: "text_lib \<Rightarrow> page_ctx \<Rightarrow> string \<Rightarrow> account_db \<Rightarrow> response \<times> account_db" where
  "memberRemove T cx user_id db =
     (case tx_parse_uuid T user_id of
        None \<Rightarrow> (HttpStatus 400, db)
      | Some userID \<Rightarrow>
          (case RemoveMember (acct_ID (cx_account cx)) userID db of
             (Inl _, db') \<Rightarrow> (HttpStatus 400, db')
           | (Inr _, db') \<Rightarrow>
               (SeeOther ''/account'', audit_db T (cx_now cx) (member_event T cx ''account.member_removed'' userID []) db')))"

subsection \<open>Invitations\<close>

definition inviteCreate ::
    "text_lib \<Rightarrow> string \<Rightarrow> uuid \<Rightarrow> string \<Rightarrow> page_ctx \<Rightarrow> form \<Rightarrow> account_db \<Rightarrow> response \<times> mail_msg list \<times> account_db" where
  "inviteCreate T baseURL newid raw cx frm db =
     (let acct = cx_account cx;
          n = length (ListMembers (acct_ID acct) db) + length (ListPendingInvitations (acct_ID acct) db)
      in case enforceLimit n (Seats (EffectiveLimits acct)) of
           Some resp \<Rightarrow> (resp, [], db)
         | None \<Rightarrow>
             (case frm of
                None \<Rightarrow> (HttpStatus 400, [], db)
              | Some f \<Rightarrow>
                  (let email = TrimSpace (tx_ToLower T (f ''email'')) in
                   case ParseRole T (TrimSpace (f ''role'')) of
                     Inl _ \<Rightarrow> (HttpStatus 400, [], db)
                   | Inr role \<Rightarrow>
                       if \<not> ValidInviteRole role then (HttpStatus 400, [], db)
                       else if email = [] \<or> CHR ''@'' \<notin> set email then (HttpStatus 400, [], db)
                       else
                         (case CreateInvitation T newid raw (cx_now cx) (acct_ID acct) (cx_user cx) email role (7 * nsDay) db of
                            (Inl _, db') \<Rightarrow> (HttpStatus 500, [], db')
                          | (Inr (rawToken, i), db') \<Rightarrow>
                              (SeeOther (''/account?invited='' @ tx_uuid T (iv_ID i)),
                               [InvitationMessage email (acct_Name acct) role (absoluteURL T baseURL (cx_req cx) (''/invitations/'' @ rawToken))],
                               audit_db T (cx_now cx)
                                 \<lparr>aud_AccountID = Some (acct_ID acct), aud_ActorID = Some (cx_user cx), aud_Action = ''account.invited'',
                                  aud_TargetKind = ''invitation'', aud_TargetID = tx_uuid T (iv_ID i), aud_IP = [], aud_UserAgent = [],
                                  aud_Metadata = [(''email'', email), (''role'', role)]\<rparr> db')))))"

subsection \<open>Teams\<close>

text \<open>
  The routes are behind \<open>RequireAction(ActionTeamWrite)\<close>. \<open>renderTeamsError\<close> is the teams page
  with status 400; it reads the tables and changes nothing.
\<close>

definition auditTeam :: "text_lib \<Rightarrow> page_ctx \<Rightarrow> string \<Rightarrow> uuid \<Rightarrow> (string \<times> string) list \<Rightarrow> account_db \<Rightarrow> account_db" where
  "auditTeam T cx action teamID meta db =
     audit_db T (cx_now cx)
       \<lparr>aud_AccountID = Some (acct_ID (cx_account cx)), aud_ActorID = Some (cx_user cx), aud_Action = action,
        aud_TargetKind = ''team'', aud_TargetID = tx_uuid T teamID, aud_IP = ClientIP (cx_req cx),
        aud_UserAgent = rq_UserAgent (cx_req cx), aud_Metadata = meta\<rparr> db"

definition teamCreate :: "text_lib \<Rightarrow> uuid \<Rightarrow> page_ctx \<Rightarrow> form \<Rightarrow> account_db \<Rightarrow> response \<times> account_db" where
  "teamCreate T newid cx frm db =
     (case frm of
        None \<Rightarrow> (HttpStatus 400, db)
      | Some f \<Rightarrow>
          (let name = trimName (f ''name'') in
           if name = [] then (HttpStatus 400, db)
           else
             (case CreateTeam T newid (acct_ID (cx_account cx)) name db of
                (Inl e, db') \<Rightarrow> (if e = TeamNameTaken then HttpStatus 400 else HttpStatus 500, db')
              | (Inr t, db') \<Rightarrow>
                  (SeeOther ''/account/teams'', auditTeam T cx ''team.created'' (te_ID t) [(''name'', name)] db'))))"

definition teamRename :: "text_lib \<Rightarrow> page_ctx \<Rightarrow> string \<Rightarrow> form \<Rightarrow> account_db \<Rightarrow> response \<times> account_db" where
  "teamRename T cx i frm db =
     (case tx_parse_uuid T i of
        None \<Rightarrow> (HttpStatus 404, db)
      | Some teamID \<Rightarrow>
          (case frm of
             None \<Rightarrow> (HttpStatus 400, db)
           | Some f \<Rightarrow>
               (let name = trimName (f ''name'') in
                if name = [] then (HttpStatus 400, db)
                else
                  (case RenameTeam T (acct_ID (cx_account cx)) teamID name db of
                     (Inl e, db') \<Rightarrow>
                       (if e = TeamNameTaken then HttpStatus 400 else if e = AcctNotFound then HttpStatus 404 else HttpStatus 500, db')
                   | (Inr _, db') \<Rightarrow>
                       (SeeOther ''/account/teams'', auditTeam T cx ''team.renamed'' teamID [(''name'', name)] db')))))"

definition teamDelete :: "text_lib \<Rightarrow> page_ctx \<Rightarrow> string \<Rightarrow> account_db \<times> drill_db \<Rightarrow> response \<times> account_db \<times> drill_db" where
  "teamDelete T cx i db =
     (case tx_parse_uuid T i of
        None \<Rightarrow> (HttpStatus 404, db)
      | Some teamID \<Rightarrow>
          (case DeleteTeam (acct_ID (cx_account cx)) teamID (fst db) (snd db) of
             (res, a, d) \<Rightarrow>
               if (case res of Inl e \<Rightarrow> e \<noteq> AcctNotFound | Inr _ \<Rightarrow> False) then (HttpStatus 500, a, d)
               else (SeeOther ''/account/teams'', auditTeam T cx ''team.deleted'' teamID [] a, d)))"

definition teamMemberAdd :: "text_lib \<Rightarrow> page_ctx \<Rightarrow> string \<Rightarrow> form \<Rightarrow> account_db \<Rightarrow> response \<times> account_db" where
  "teamMemberAdd T cx i frm db =
     (case tx_parse_uuid T i of
        None \<Rightarrow> (HttpStatus 404, db)
      | Some teamID \<Rightarrow>
          (case frm of
             None \<Rightarrow> (HttpStatus 400, db)
           | Some f \<Rightarrow>
               (case tx_parse_uuid T (f ''user_id'') of
                  None \<Rightarrow> (HttpStatus 400, db)
                | Some userID \<Rightarrow>
                    (case AddTeamMember (acct_ID (cx_account cx)) teamID userID db of
                       (Inl e, db') \<Rightarrow> (if e = AcctNotFound then HttpStatus 404 else HttpStatus 500, db')
                     | (Inr _, db') \<Rightarrow>
                         (SeeOther ''/account/teams'',
                          auditTeam T cx ''team.member_added'' teamID [(''user_id'', tx_uuid T userID)] db')))))"

definition teamMemberRemove :: "text_lib \<Rightarrow> page_ctx \<Rightarrow> string \<Rightarrow> string \<Rightarrow> account_db \<Rightarrow> response \<times> account_db" where
  "teamMemberRemove T cx i user_id db =
     (case (tx_parse_uuid T i, tx_parse_uuid T user_id) of
        (Some teamID, Some userID) \<Rightarrow>
          (SeeOther ''/account/teams'',
           auditTeam T cx ''team.member_removed'' teamID [(''user_id'', tx_uuid T userID)]
             (RemoveTeamMember (acct_ID (cx_account cx)) teamID userID db))
      | _ \<Rightarrow> (HttpStatus 404, db))"

definition teamDatabaseAssign :: "text_lib \<Rightarrow> page_ctx \<Rightarrow> form \<Rightarrow> account_db \<times> drill_db \<Rightarrow> response \<times> account_db \<times> drill_db" where
  "teamDatabaseAssign T cx frm db =
     (case frm of
        None \<Rightarrow> (HttpStatus 400, db)
      | Some f \<Rightarrow>
          (case tx_parse_uuid T (f ''database_id'') of
             None \<Rightarrow> (HttpStatus 404, db)
           | Some targetID \<Rightarrow>
               (let raw = f ''team_id'' in
                if raw \<noteq> [] \<and> tx_parse_uuid T raw = None then (HttpStatus 404, db)
                else
                  (let teamID = (if raw = [] then None else tx_parse_uuid T raw) in
                   case SetTargetTeam (acct_ID (cx_account cx)) targetID teamID (snd db) of
                     (Inl e, d) \<Rightarrow> (if e = ErrNotFound then HttpStatus 404 else HttpStatus 500, fst db, d)
                   | (Inr _, d) \<Rightarrow>
                       (SeeOther ''/account/teams'',
                        auditTeam T cx ''team.database_assigned'' targetID
                          ((''database_id'', tx_uuid T targetID) # (case teamID of None \<Rightarrow> [] | Some t \<Rightarrow> [(''team_id'', tx_uuid T t)])) (fst db),
                        d)))))"

definition databaseScopeCtx :: "Role option \<Rightarrow> uuid \<Rightarrow> uuid \<Rightarrow> account_db \<Rightarrow> Scope" where
  "databaseScopeCtx membership accountID userID db =
     (case membership of
        None \<Rightarrow> \<lparr>sc_All = False, sc_TeamIDs = []\<rparr>
      | Some r \<Rightarrow>
          if Allowed r ActionTeamWrite then ScopeAll
          else \<lparr>sc_All = False, sc_TeamIDs = TeamIDsForUser accountID userID db\<rparr>)"

subsection \<open>What recording an event leaves alone\<close>

lemma audit_db_simps [simp]:
  "ad_users (audit_db T now e db) = ad_users db" "ad_accounts (audit_db T now e db) = ad_accounts db"
  "ad_members (audit_db T now e db) = ad_members db" "ad_invites (audit_db T now e db) = ad_invites db"
  "ad_teams (audit_db T now e db) = ad_teams db" "ad_team_members (audit_db T now e db) = ad_team_members db"
  "ad_events (audit_db T now e db) = ad_events db"
  by (simp_all add: audit_db_def)

lemma audit_db_reads [simp]:
  "GetMembership acc u (audit_db T now e db) = GetMembership acc u db"
  "lockMembers acc u (audit_db T now e db) = lockMembers acc u db"
  "ad_user_exists u (audit_db T now e db) = ad_user_exists u db"
  "ad_account_exists acc (audit_db T now e db) = ad_account_exists acc db"
  by (simp_all add: GetMembership_def lockMembers_def ad_user_exists_def ad_account_exists_def)

end
