(* ===== verification/Account_Ownership.thy ===== *)
theory Account_Ownership
  imports Account_Web
begin

text \<open>
  Properties of the account store of theory \<open>Accounts\<close> over all runs of its operations
  (\<open>acct_step\<close>): ownership is kept, an invitation is used once, and the two gaps in the
  ownership rules, one in a handler and one between the parts of a transaction.
\<close>

section \<open>Every account keeps an owner\<close>

inductive acct_step :: "text_lib \<Rightarrow> account_db \<Rightarrow> account_db \<Rightarrow> bool" for T where
  create_account: "newid \<notin> set (map acct_ID (ad_accounts db)) \<Longrightarrow> acct_step T db (snd (CreatePersonalAccount T newid now u email db))"
| set_customer: "acct_step T db (snd (SetStripeCustomerID acc cust db))"
| set_unlimited: "acct_step T db (snd (SetUnlimitedByOwnerEmail T email b db))"
| sync: "acct_step T db (snd (SyncSubscription cust sub status plan created db))"
| cancel: "acct_step T db (snd (HandleSubscriptionCanceled cust created grace db))"
| stripe_event: "acct_step T db (snd (RecordStripeEvent ev db))"
| update_role: "acct_step T db (snd (UpdateMemberRole acc u role db))"
| transfer: "acct_step T db (snd (TransferOwnership acc from_u to_u db))"
| remove_member: "acct_step T db (snd (RemoveMember acc u db))"
| invite: "newid \<notin> set (map iv_ID (ad_invites db)) \<Longrightarrow>
    acct_step T db (snd (CreateInvitation T newid raw now acc by_u email role ttl db))"
| accept: "acct_step T db (snd (AcceptInvitation T now raw u email db))"
| create_team: "acct_step T db (snd (CreateTeam T newid acc name db))"
| rename_team: "acct_step T db (snd (RenameTeam T acc team name db))"
| delete_team: "acct_step T db (fst (snd (DeleteTeam acc team db ddb)))"
| add_team_member: "acct_step T db (snd (AddTeamMember acc team u db))"
| remove_team_member: "acct_step T db (RemoveTeamMember acc team u db)"
| audit: "acct_step T db (audit_db T now e db)"

definition m_key :: "Membership \<Rightarrow> uuid \<times> uuid" where
  "m_key m = (mb_AccountID m, mb_UserID m)"

definition owned :: "account_db \<Rightarrow> uuid \<Rightarrow> bool" where
  "owned db a \<longleftrightarrow> (\<exists>m \<in> set (ad_members db). mb_AccountID m = a \<and> mb_Role m = RoleOwner)"

definition members_ok :: "account_db \<Rightarrow> bool" where
  "members_ok db \<longleftrightarrow> distinct (map m_key (ad_members db)) \<and> (\<forall>m \<in> set (ad_members db). Role_Valid (mb_Role m)) \<and>
     (\<forall>i \<in> set (map acct_ID (ad_accounts db)). owned db i) \<and>
     set (map mb_AccountID (ad_members db)) \<subseteq> set (map acct_ID (ad_accounts db))"

definition invites_ok :: "account_db \<Rightarrow> bool" where
  "invites_ok db \<longleftrightarrow> distinct (map iv_ID (ad_invites db)) \<and> distinct (map iv_token_hash (ad_invites db)) \<and>
     (\<forall>i \<in> set (ad_invites db). ValidInviteRole (iv_Role i))"

lemma member_key_m_key: "member_key a u m \<longleftrightarrow> m_key m = (a, u)"
  by (auto simp: member_key_def m_key_def)

lemma another_key:
  assumes "distinct (map k xs)" and "1 < length (filter P xs)"
  shows "\<exists>y \<in> set xs. P y \<and> k y \<noteq> x"
proof -
  obtain a b r where ab: "filter P xs = a # b # r"
    using assms(2) by (cases "filter P xs" rule: remdups_adj.cases) auto
  have "distinct (map k (filter P xs))" using assms(1) by (simp add: distinct_map_filter)
  then have "k a \<noteq> k b" by (simp add: ab)
  moreover have "a \<in> set (filter P xs)" "b \<in> set (filter P xs)" by (simp_all add: ab)
  ultimately show ?thesis unfolding set_filter by (metis (mono_tags, lifting) mem_Collect_eq)
qed

lemma lockMembers_role:
  assumes "distinct (map m_key (ad_members db))" and "m \<in> set (ad_members db)" and "m_key m = (acc, u)"
  shows "snd (lockMembers acc u db) = Some (mb_Role m)"
proof -
  let ?rows = "filter (\<lambda>m. mb_AccountID m = acc) (ad_members db)"
  have m: "m \<in> set ?rows" "mb_UserID m = u" using assms(2,3) by (auto simp: m_key_def)
  have u: "n = m" if "n \<in> set ?rows" "mb_UserID n = u" for n
  proof -
    have "m_key n = m_key m" "n \<in> set (ad_members db)" using that m assms(3) by (simp_all add: m_key_def)
    with assms(1,2) show ?thesis by (metis distinct_map inj_onD)
  qed
  have "find (\<lambda>m. mb_UserID m = u) (rev ?rows) = Some m"
  proof (cases "find (\<lambda>m. mb_UserID m = u) (rev ?rows)")
    case None
    then show ?thesis using m by (auto simp: find_None_iff)
  next
    case (Some n)
    from sql_first_Some [unfolded sql_first_def, OF Some] show ?thesis using u [of n] Some by auto
  qed
  then show ?thesis by (simp add: lockMembers_def Let_def)
qed

lemma other_owner:
  assumes "distinct (map m_key (ad_members db))" and "1 < fst (lockMembers acc u db)"
  shows "\<exists>m \<in> set (ad_members db). mb_AccountID m = acc \<and> mb_Role m = RoleOwner \<and> m_key m \<noteq> (acc, u)"
proof -
  let ?rows = "filter (\<lambda>m. mb_AccountID m = acc) (ad_members db)"
  have "distinct (map m_key ?rows)" using assms(1) by (simp add: distinct_map_filter)
  from another_key [OF this, of "\<lambda>m. mb_Role m = RoleOwner" "(acc, u)"] assms(2) show ?thesis
    by (auto simp: lockMembers_def Let_def)
qed

lemma owned_update:
  assumes "distinct (map m_key (ad_members db))" and "owned db a"
    and "f = (\<lambda>m. m\<lparr>mb_Role := role\<rparr>)"
    and "a = acc \<Longrightarrow> role \<noteq> RoleOwner \<Longrightarrow> \<exists>m \<in> set (ad_members db). mb_AccountID m = acc \<and> mb_Role m = RoleOwner \<and> m_key m \<noteq> (acc, u)"
  shows "owned (db\<lparr>ad_members := sql_update (member_key acc u) f (ad_members db)\<rparr>) a"
proof -
  obtain m where m: "m \<in> set (ad_members db)" "mb_AccountID m = a" "mb_Role m = RoleOwner" "a = acc \<and> role \<noteq> RoleOwner \<longrightarrow> m_key m \<noteq> (acc, u)"
    using assms(2,4) unfolding owned_def by (cases "a = acc \<and> role \<noteq> RoleOwner") auto
  let ?m = "if member_key acc u m then f m else m"
  have "?m \<in> set (sql_update (member_key acc u) f (ad_members db))" using m(1) by (auto simp: set_sql_update)
  moreover have "mb_AccountID ?m = a" "mb_Role ?m = RoleOwner"
    using m assms(3) by (auto simp: member_key_m_key m_key_def)
  ultimately show ?thesis unfolding owned_def by auto
qed

definition acct_ok :: "account_db \<Rightarrow> bool" where
  "acct_ok db \<longleftrightarrow> members_ok db \<and> invites_ok db"

lemma members_ok_frame:
  "ad_members db' = ad_members db \<Longrightarrow> map acct_ID (ad_accounts db') = map acct_ID (ad_accounts db) \<Longrightarrow> members_ok db' = members_ok db"
  unfolding members_ok_def owned_def by (simp only:)

lemma invites_ok_members [simp]: "invites_ok (db\<lparr>ad_members := ms\<rparr>) = invites_ok db"
  by (simp add: invites_ok_def)

lemma members_ok_update:
  assumes "members_ok db" and "Role_Valid role"
    and "role = RoleOwner \<or> (\<exists>m \<in> set (ad_members db). mb_AccountID m = acc \<and> mb_Role m = RoleOwner \<and> m_key m \<noteq> (acc, u)) \<or>
      (\<forall>m \<in> set (ad_members db). m_key m = (acc, u) \<longrightarrow> mb_Role m \<noteq> RoleOwner)"
  shows "members_ok (db\<lparr>ad_members := sql_update (member_key acc u) (\<lambda>m. m\<lparr>mb_Role := role\<rparr>) (ad_members db)\<rparr>)"
proof -
  let ?f = "\<lambda>m. m\<lparr>mb_Role := role\<rparr>"
  have keys: "map m_key (sql_update (member_key acc u) ?f (ad_members db)) = map m_key (ad_members db)"
    by (intro map_sql_update_key) (simp add: m_key_def)
  have accs: "map mb_AccountID (sql_update (member_key acc u) ?f (ad_members db)) = map mb_AccountID (ad_members db)"
    by (intro map_sql_update_key) simp
  have "owned (db\<lparr>ad_members := sql_update (member_key acc u) ?f (ad_members db)\<rparr>) i" if a: "i \<in> set (map acct_ID (ad_accounts db))" for i
  proof (rule owned_update [OF _ _ refl])
    show "owned db i" "distinct (map m_key (ad_members db))" using assms(1) a unfolding members_ok_def by blast+
    show "\<exists>m \<in> set (ad_members db). mb_AccountID m = acc \<and> mb_Role m = RoleOwner \<and> m_key m \<noteq> (acc, u)"
      if "i = acc" "role \<noteq> RoleOwner"
      using assms(3) \<open>owned db i\<close> that unfolding owned_def by metis
  qed
  moreover have "\<forall>m \<in> set (sql_update (member_key acc u) ?f (ad_members db)). Role_Valid (mb_Role m)"
    using assms(1,2) by (auto simp: members_ok_def set_sql_update)
  moreover have "set (map mb_AccountID (sql_update (member_key acc u) ?f (ad_members db))) \<subseteq> set (map acct_ID (ad_accounts db))"
    unfolding accs using assms(1) unfolding members_ok_def by blast
  ultimately show ?thesis
    using assms(1) keys by (simp add: members_ok_def)
qed

lemma ok_UpdateMemberRole: "acct_ok db \<Longrightarrow> acct_ok (snd (UpdateMemberRole acc u role db))"
proof -
  assume ok: "acct_ok db"
  show ?thesis
  proof (cases "fst (UpdateMemberRole acc u role db)")
    case (Inl e)
    then have "snd (UpdateMemberRole acc u role db) = db" by (auto simp: UpdateMemberRole_def split: if_splits prod.splits option.splits)
    with ok show ?thesis by simp
  next
    case (Inr x)
    obtain n r where l: "lockMembers acc u db = (n, Some r)" and v: "Role_Valid role"
      and g: "\<not> (role \<noteq> RoleOwner \<and> r = RoleOwner \<and> n \<le> 1)"
      and e: "snd (UpdateMemberRole acc u role db) =
        db\<lparr>ad_members := sql_update (member_key acc u) (\<lambda>m. m\<lparr>mb_Role := role\<rparr>) (ad_members db)\<rparr>"
      using Inr by (auto simp: UpdateMemberRole_def split: if_splits prod.splits option.splits)
    have d: "distinct (map m_key (ad_members db))" using ok by (simp add: acct_ok_def members_ok_def)
    have "\<forall>m \<in> set (ad_members db). m_key m = (acc, u) \<longrightarrow> mb_Role m = r"
      using lockMembers_role [OF d] l by fastforce
    then have "role = RoleOwner \<or> (\<exists>m \<in> set (ad_members db). mb_AccountID m = acc \<and> mb_Role m = RoleOwner \<and> m_key m \<noteq> (acc, u)) \<or>
        (\<forall>m \<in> set (ad_members db). m_key m = (acc, u) \<longrightarrow> mb_Role m \<noteq> RoleOwner)"
      using g other_owner [OF d, of acc u] l by (cases "role = RoleOwner"; cases "r = RoleOwner") auto
    from members_ok_update [OF _ v this] ok show ?thesis unfolding e acct_ok_def by simp
  qed
qed

lemma ok_RemoveMember: "acct_ok db \<Longrightarrow> acct_ok (snd (RemoveMember acc u db))"
proof -
  assume ok: "acct_ok db"
  have d: "distinct (map m_key (ad_members db))" using ok by (simp add: acct_ok_def members_ok_def)
  show ?thesis
  proof (cases "fst (RemoveMember acc u db)")
    case (Inl e)
    then have "snd (RemoveMember acc u db) = db" by (auto simp: RemoveMember_def split: if_splits prod.splits option.splits)
    with ok show ?thesis by simp
  next
    case (Inr x)
    obtain n r where l: "lockMembers acc u db = (n, Some r)" and g: "\<not> (r = RoleOwner \<and> n \<le> 1)"
      and e: "snd (RemoveMember acc u db) = db\<lparr>ad_members := sql_delete (member_key acc u) (ad_members db)\<rparr>"
      using Inr by (auto simp: RemoveMember_def split: if_splits prod.splits option.splits)
    have r: "\<forall>m \<in> set (ad_members db). m_key m = (acc, u) \<longrightarrow> mb_Role m = r"
      using lockMembers_role [OF d] l by fastforce
    have "\<exists>m \<in> set (ad_members db). mb_AccountID m = a \<and> mb_Role m = RoleOwner \<and> m_key m \<noteq> (acc, u)"
      if "owned db a" for a
    proof (cases "a = acc \<and> r = RoleOwner")
      case True
      then show ?thesis using other_owner [OF d, of acc u] l g by simp
    next
      case False
      then show ?thesis using that r unfolding owned_def m_key_def by fastforce
    qed
    then have "owned (snd (RemoveMember acc u db)) a" if "owned db a" for a
      using that unfolding e by (auto simp: owned_def set_sql_delete member_key_m_key)
    moreover have "distinct (map m_key (sql_delete (member_key acc u) (ad_members db)))"
      using d by (simp add: sql_delete_def distinct_map_filter)
    ultimately show ?thesis
      using ok unfolding e by (auto simp: acct_ok_def members_ok_def set_sql_delete)
  qed
qed

lemma transfer_write_updates:
  "transfer_write acc f t db =
     (let db1 = db\<lparr>ad_members := sql_update (member_key acc t) (\<lambda>m. m\<lparr>mb_Role := RoleOwner\<rparr>) (ad_members db)\<rparr>
      in db1\<lparr>ad_members := sql_update (member_key acc f) (\<lambda>m. m\<lparr>mb_Role := RoleAdmin\<rparr>) (ad_members db1)\<rparr>)"
  if "f \<noteq> t"
  using that by (simp add: transfer_write_def sql_update_def) (auto simp: member_key_def)

lemma ok_transfer_write:
  assumes ok: "acct_ok db" and ft: "f \<noteq> t" and ex: "\<exists>m \<in> set (ad_members db). m_key m = (acc, t)"
  shows "acct_ok (transfer_write acc f t db)"
proof -
  let ?db1 = "db\<lparr>ad_members := sql_update (member_key acc t) (\<lambda>m. m\<lparr>mb_Role := RoleOwner\<rparr>) (ad_members db)\<rparr>"
  have ok1: "members_ok ?db1" using ok by (intro members_ok_update) (simp_all add: acct_ok_def Role_Valid_def)
  have "\<exists>m \<in> set (ad_members ?db1). mb_AccountID m = acc \<and> mb_Role m = RoleOwner \<and> m_key m \<noteq> (acc, f)"
  proof -
    from ex obtain m where m: "m \<in> set (ad_members db)" "m_key m = (acc, t)" by blast
    then have "m\<lparr>mb_Role := RoleOwner\<rparr> \<in> set (ad_members ?db1)" by (auto simp: set_sql_update member_key_m_key)
    moreover have "mb_AccountID m = acc" "m_key (m\<lparr>mb_Role := RoleOwner\<rparr>) \<noteq> (acc, f)" using m(2) ft by (auto simp: m_key_def)
    ultimately show ?thesis by (intro bexI [of _ "m\<lparr>mb_Role := RoleOwner\<rparr>"]) simp_all
  qed
  then have "members_ok (transfer_write acc f t db)"
    unfolding transfer_write_updates [OF ft] Let_def by (intro members_ok_update ok1) (simp_all add: Role_Valid_def)
  with ok show ?thesis by (simp add: acct_ok_def transfer_write_def)
qed

lemma transfer_check_None:
  "transfer_check acc f t db = None \<Longrightarrow> f \<noteq> t \<and> (\<exists>m \<in> set (ad_members db). m_key m = (acc, t))"
  by (auto simp: transfer_check_def member_key_m_key split: if_splits option.splits)

lemma ok_TransferOwnership: "acct_ok db \<Longrightarrow> acct_ok (snd (TransferOwnership acc f t db))"
  using ok_transfer_write [of db f t acc] transfer_check_None [of acc f t db]
  by (auto simp: TransferOwnership_def split: option.split)

lemma members_ok_insert:
  assumes "members_ok db" and "m_key m \<notin> set (map m_key (ad_members db))" and "Role_Valid (mb_Role m)"
    and "set (map acct_ID as) = insert i (set (map acct_ID (ad_accounts db)))" and "mb_AccountID m \<in> set (map acct_ID as)"
    and "i \<in> set (map acct_ID (ad_accounts db)) \<or> i = mb_AccountID m \<and> mb_Role m = RoleOwner"
  shows "members_ok (db\<lparr>ad_accounts := as, ad_members := ad_members db @ [m]\<rparr>)"
proof -
  have "owned (db\<lparr>ad_accounts := as, ad_members := ad_members db @ [m]\<rparr>) j" if "j \<in> set (map acct_ID as)" for j
  proof (cases "j \<in> set (map acct_ID (ad_accounts db))")
    case True
    with assms(1) have "owned db j" unfolding members_ok_def by blast
    then show ?thesis by (auto simp: owned_def)
  next
    case False
    with that assms(4,6) have "j = mb_AccountID m" "mb_Role m = RoleOwner" by auto
    then show ?thesis by (simp add: owned_def)
  qed
  moreover have "set (map mb_AccountID (ad_members db @ [m])) \<subseteq> set (map acct_ID as)"
    using assms(1,4,5) by (auto simp: members_ok_def)
  ultimately show ?thesis using assms(1-3) by (simp add: members_ok_def)
qed

lemma ok_CreatePersonalAccount:
  assumes "acct_ok db" and "newid \<notin> set (map acct_ID (ad_accounts db))"
  shows "acct_ok (snd (CreatePersonalAccount T newid now u email db))"
proof (cases "fst (CreatePersonalAccount T newid now u email db)")
  case (Inl e)
  then have "snd (CreatePersonalAccount T newid now u email db) = db"
    by (auto simp: CreatePersonalAccount_def Let_def split: if_splits)
  with assms(1) show ?thesis by simp
next
  case (Inr a)
  then obtain row where row: "snd (CreatePersonalAccount T newid now u email db) =
      db\<lparr>ad_accounts := ad_accounts db @ [row], ad_members := ad_members db @ [owner_row newid u now]\<rparr>" "acct_ID row = newid"
    by (auto simp: CreatePersonalAccount_def Let_def split: if_splits)
  have "members_ok (snd (CreatePersonalAccount T newid now u email db))"
    unfolding row(1)
  proof (rule members_ok_insert [where i = newid])
    show "m_key (owner_row newid u now) \<notin> set (map m_key (ad_members db))" using assms by (auto simp: m_key_def owner_row_def acct_ok_def members_ok_def)
  qed (use assms(1) row(2) in \<open>auto simp: acct_ok_def owner_row_def Role_Valid_def\<close>)
  with assms(1) show ?thesis unfolding row(1) by (simp add: acct_ok_def invites_ok_def)
qed

definition joined :: "Invitation \<Rightarrow> uuid \<Rightarrow> gotime \<Rightarrow> account_db \<Rightarrow> Membership list" where
  "joined iv u now db =
     (if \<exists>m \<in> set (ad_members db). member_key (iv_AccountID iv) u m then ad_members db
      else ad_members db @ [\<lparr>mb_AccountID = iv_AccountID iv, mb_UserID = u, mb_Role = iv_Role iv, mb_CreatedAt = now\<rparr>])"

lemma AcceptInvitation_cases:
  "(\<exists>e. AcceptInvitation T now raw u email db = (Inl e, db)) \<or>
   (\<exists>iv. invite_by_token T raw db = Some iv \<and> iv_AcceptedAt iv = None \<and> now \<le> iv_ExpiresAt iv \<and>
      tx_EqualFold T (TrimSpace email) (iv_Email iv) \<and> ad_account_exists (iv_AccountID iv) db \<and>
      AcceptInvitation T now raw u email db = (Inr ((Invitation.truncate iv)\<lparr>iv_AcceptedAt := Some now\<rparr>),
        db\<lparr>ad_members := joined (Invitation.truncate iv) u now db,
           ad_invites := sql_update (\<lambda>i. iv_ID i = iv_ID iv) (\<lambda>i. i\<lparr>iv_AcceptedAt := Some now\<rparr>) (ad_invites db)\<rparr>))"
  (is "?fail \<or> ?joins")
proof (cases "invite_by_token T raw db")
  case None
  then show ?thesis by (simp add: AcceptInvitation_def)
next
  case (Some iv)
  show ?thesis
  proof (cases "iv_AcceptedAt iv \<noteq> None \<or> now > iv_ExpiresAt iv \<or> \<not> tx_EqualFold T (TrimSpace email) (iv_Email iv) \<or>
      \<not> ad_account_exists (iv_AccountID iv) db \<or> \<not> ad_user_exists u db")
    case True
    then have ?fail using Some by (auto simp: AcceptInvitation_def)
    then show ?thesis by blast
  next
    case False
    then have ?joins
      using Some by (intro exI [of _ iv]) (simp add: AcceptInvitation_def joined_def Let_def Invitation.defs)
    then show ?thesis by blast
  qed
qed

lemma ok_AcceptInvitation: "acct_ok db \<Longrightarrow> acct_ok (snd (AcceptInvitation T now raw u email db))"
  using AcceptInvitation_cases [of T now raw u email db]
proof (elim disjE exE conjE)
  fix iv
  assume ok: "acct_ok db" and iv: "invite_by_token T raw db = Some iv" "ad_account_exists (iv_AccountID iv) db"
    and a: "AcceptInvitation T now raw u email db = (Inr ((Invitation.truncate iv)\<lparr>iv_AcceptedAt := Some now\<rparr>),
        db\<lparr>ad_members := joined (Invitation.truncate iv) u now db,
           ad_invites := sql_update (\<lambda>i. iv_ID i = iv_ID iv) (\<lambda>i. i\<lparr>iv_AcceptedAt := Some now\<rparr>) (ad_invites db)\<rparr>)"
  have iv_in: "iv \<in> set (ad_invites db)" using sql_first_Some [OF iv(1) [unfolded invite_by_token_def]] by simp
  let ?ms = "joined (Invitation.truncate iv) u now db"
  let ?new = "\<lparr>mb_AccountID = iv_AccountID iv, mb_UserID = u, mb_Role = iv_Role iv, mb_CreatedAt = now\<rparr>"
  let ?upd = "sql_update (\<lambda>i. iv_ID i = iv_ID iv) (\<lambda>i. i\<lparr>iv_AcceptedAt := Some now\<rparr>) (ad_invites db)"
  have "members_ok (db\<lparr>ad_members := ?ms\<rparr>)"
  proof (cases "\<exists>m \<in> set (ad_members db). member_key (iv_AccountID iv) u m")
    case False
    have "Role_Valid (iv_Role iv)" using ok iv_in by (auto simp: acct_ok_def invites_ok_def ValidInviteRole_def Role_Valid_def)
    then have "members_ok (db\<lparr>ad_accounts := ad_accounts db, ad_members := ad_members db @ [?new]\<rparr>)"
      using ok iv(2) False
      by (intro members_ok_insert [where i = "iv_AccountID iv"]) (auto simp: acct_ok_def ad_account_exists_def member_key_m_key m_key_def)
    moreover have "db\<lparr>ad_accounts := ad_accounts db, ad_members := ad_members db @ [?new]\<rparr> = db\<lparr>ad_members := ?ms\<rparr>"
      using False by (simp add: joined_def Invitation.defs)
    ultimately show ?thesis by (simp only:)
  qed (use ok in \<open>simp add: acct_ok_def joined_def Invitation.defs\<close>)
  then have "members_ok (db\<lparr>ad_members := ?ms, ad_invites := ?upd\<rparr>)"
    by (subst members_ok_frame [of _ "db\<lparr>ad_members := ?ms\<rparr>"]) simp_all
  moreover have "map iv_ID ?upd = map iv_ID (ad_invites db)" "map iv_token_hash ?upd = map iv_token_hash (ad_invites db)"
    "map iv_Role ?upd = map iv_Role (ad_invites db)" by (rule map_sql_update_key, simp)+
  moreover have "(\<forall>i \<in> set xs. ValidInviteRole (iv_Role i)) \<longleftrightarrow> (\<forall>r \<in> set (map iv_Role xs). ValidInviteRole r)" for xs :: "invite_row list" by simp
  ultimately show ?thesis using ok unfolding a acct_ok_def invites_ok_def by (simp del: set_map)
qed simp_all

lemma ok_CreateInvitation:
  "acct_ok db \<Longrightarrow> newid \<notin> set (map iv_ID (ad_invites db)) \<Longrightarrow> acct_ok (snd (CreateInvitation T newid raw now acc by_u email role ttl db))"
  using members_ok_frame [of "snd (CreateInvitation T newid raw now acc by_u email role ttl db)" db]
  by (auto simp: CreateInvitation_def Let_def acct_ok_def invites_ok_def)

lemma ok_other:
  assumes "acct_ok db" and "ad_members db' = ad_members db" and "ad_invites db' = ad_invites db"
    and "map acct_ID (ad_accounts db') = map acct_ID (ad_accounts db)"
  shows "acct_ok db'"
  using assms members_ok_frame [of db' db] by (simp add: acct_ok_def invites_ok_def)

lemma upd_account_frame [simp]:
  "ad_members (upd_account P f db) = ad_members db" "ad_invites (upd_account P f db) = ad_invites db"
  "(\<And>a. acct_ID (f a) = acct_ID a) \<Longrightarrow> map acct_ID (ad_accounts (upd_account P f db)) = map acct_ID (ad_accounts db)"
  by (simp_all add: upd_account_def map_sql_update_key)

lemma SetUnlimited_cases:
  "snd (SetUnlimitedByOwnerEmail T email b db) = db \<or> (\<exists>i. snd (SetUnlimitedByOwnerEmail T email b db) = SetUnlimited i b db)"
proof -
  obtain ids where "SetUnlimitedByOwnerEmail T email b db =
      (case ids of [] \<Rightarrow> (Inl NoOwnedAccount, db) | [i] \<Rightarrow> (Inr i, SetUnlimited i b db) | _ \<Rightarrow> (Inl ManyOwnedAccounts, db))"
    unfolding SetUnlimitedByOwnerEmail_def Let_def by blast
  then show ?thesis by (cases ids rule: remdups_adj.cases) auto
qed

lemma acct_step_ok:
  assumes "acct_step T db db'" and "acct_ok db"
  shows "acct_ok db'"
  using assms
proof (induction rule: acct_step.induct)
  case (set_unlimited db email b)
  then show ?case using SetUnlimited_cases [of T email b db] by (auto simp: SetUnlimited_def intro!: ok_other [of db])
qed (simp_all add: ok_CreatePersonalAccount ok_UpdateMemberRole ok_TransferOwnership ok_RemoveMember ok_CreateInvitation ok_AcceptInvitation,
  (rule ok_other, assumption, auto simp: SetStripeCustomerID_def SyncSubscription_def HandleSubscriptionCanceled_def RecordStripeEvent_def
    CreateTeam_def RenameTeam_def DeleteTeam_def AddTeamMember_def RemoveTeamMember_def Let_def)+)

text \<open>
  \<open>TransferOwnership\<close> reads the two memberships without locking them and writes later, so that
  other transactions commit in between; its two writes hold the rows' locks until they commit. A state of the shared database is
  its tables with the transfers that passed their checks and have not yet written. The other operations lock what they check and are
  one step each. \<open>keeps_receivers\<close> says that a step removes nobody an ownership is being transferred to.
\<close>

type_synonym transfers = "(uuid \<times> uuid \<times> uuid) set"

definition keeps_receivers :: "transfers \<Rightarrow> account_db \<Rightarrow> account_db \<Rightarrow> bool" where
  "keeps_receivers pending db db' \<longleftrightarrow>
     (\<forall>(acc, f, t) \<in> pending. (\<exists>m \<in> set (ad_members db). member_key acc t m) \<longrightarrow> (\<exists>m \<in> set (ad_members db'). member_key acc t m))"

inductive shared_step :: "text_lib \<Rightarrow> account_db \<times> transfers \<Rightarrow> account_db \<times> transfers \<Rightarrow> bool" for T where
  operation: "acct_step T db db' \<Longrightarrow> keeps_receivers pending db db' \<Longrightarrow> shared_step T (db, pending) (db', pending)"
| transfer_begin: "transfer_check acc f t db = None \<Longrightarrow> shared_step T (db, pending) (db, insert (acc, f, t) pending)"
| transfer_commit: "(acc, f, t) \<in> pending \<Longrightarrow> shared_step T (db, pending) (transfer_write acc f t db, pending - {(acc, f, t)})"
| transfer_abort: "shared_step T (db, pending) (db, pending - {(acc, f, t)})"

definition transfers_ok :: "account_db \<times> transfers \<Rightarrow> bool" where
  "transfers_ok s \<longleftrightarrow> acct_ok (fst s) \<and> (\<forall>(acc, f, t) \<in> snd s. f \<noteq> t \<and> (\<exists>m \<in> set (ad_members (fst s)). m_key m = (acc, t)))"

lemma transfer_write_keys:
  "(\<exists>m \<in> set (ad_members (transfer_write acc f t db)). m_key m = k) \<longleftrightarrow> (\<exists>m \<in> set (ad_members db). m_key m = k)"
proof -
  have "map m_key (ad_members (transfer_write acc f t db)) = map m_key (ad_members db)"
    by (simp add: transfer_write_def map_sql_update_key m_key_def)
  then have "k \<in> set (map m_key (ad_members (transfer_write acc f t db))) \<longleftrightarrow> k \<in> set (map m_key (ad_members db))" by simp
  then show ?thesis by (auto simp: image_iff)
qed

lemma shared_step_ok: "shared_step T s s' \<Longrightarrow> transfers_ok s \<Longrightarrow> transfers_ok s'"
proof (induction rule: shared_step.induct)
  case (operation db db' pending)
  then show ?case using acct_step_ok [of T db db'] by (fastforce simp: transfers_ok_def keeps_receivers_def member_key_m_key)
next
  case (transfer_begin acc f t db pending)
  then show ?case using transfer_check_None [of acc f t db] by (auto simp: transfers_ok_def)
next
  case (transfer_commit acc f t pending db)
  then have "acct_ok (transfer_write acc f t db)" by (intro ok_transfer_write) (auto simp: transfers_ok_def)
  with transfer_commit show ?case by (auto simp: transfers_ok_def transfer_write_keys)
qed (auto simp: transfers_ok_def)

text \<open>
  C6. Ownership is kept, as long as nobody is removed from an account while its ownership is being transferred to
  them. In every state the shared account store reaches in this way from empty tables, with the checks and writes of
  transfers interleaved with other operations, every account has a member with the owner role, nobody is a member of an account twice,
  and members have known roles of accounts that exist. The condition is needed: \<open>transfer_race\<close> below.
\<close>

theorem accounts_keep_owner:
  assumes "(shared_step T)\<^sup>*\<^sup>* (db0, {}) (db, pending)" and "ad_accounts db0 = []" "ad_members db0 = []" "ad_invites db0 = []"
  shows "(\<forall>a \<in> set (ad_accounts db). \<exists>m \<in> set (ad_members db). mb_AccountID m = acct_ID a \<and> mb_Role m = RoleOwner) \<and>
    distinct (map (\<lambda>m. (mb_AccountID m, mb_UserID m)) (ad_members db)) \<and>
    (\<forall>m \<in> set (ad_members db). Role_Valid (mb_Role m) \<and> (\<exists>a \<in> set (ad_accounts db). acct_ID a = mb_AccountID m))"
proof -
  have "transfers_ok (db0, {})" using assms(2-4) by (simp add: transfers_ok_def acct_ok_def members_ok_def invites_ok_def)
  with assms(1) have "transfers_ok (db, pending)" by (induction rule: rtranclp_induct) (auto intro: shared_step_ok)
  then have "acct_ok db" by (simp add: transfers_ok_def)
  moreover have "m_key = (\<lambda>m. (mb_AccountID m, mb_UserID m))" by (simp add: m_key_def fun_eq_iff)
  ultimately show ?thesis unfolding acct_ok_def members_ok_def owned_def by (simp add: image_subset_iff) (metis imageE)
qed

section \<open>Invitations\<close>

definition invite_core :: "'a Invitation_scheme \<Rightarrow> uuid \<times> uuid \<times> string \<times> Role \<times> gotime" where
  "invite_core i = (iv_ID i, iv_AccountID i, iv_Email i, iv_Role i, iv_ExpiresAt i)"

definition invite_later :: "invite_row \<Rightarrow> invite_row \<Rightarrow> bool" where
  "invite_later i i' \<longleftrightarrow> invite_core i' = invite_core i \<and> (iv_AcceptedAt i' = None \<longrightarrow> iv_AcceptedAt i = None)"

lemma invite_later_refl [simp]: "invite_later i i"
  by (simp add: invite_later_def)

lemma invite_later_trans: "invite_later i j \<Longrightarrow> invite_later j k \<Longrightarrow> invite_later i k"
  by (auto simp: invite_later_def)

lemma invite_update:
  "invite_by_token T raw db = Some i \<Longrightarrow>
   \<exists>i'. invite_by_token T raw (db\<lparr>ad_members := ms, ad_invites := sql_update P (\<lambda>i. i\<lparr>iv_AcceptedAt := Some now\<rparr>) (ad_invites db)\<rparr>) = Some i' \<and>
     invite_later i i' \<and> (P i \<longrightarrow> iv_AcceptedAt i' = Some now)"
  by (simp add: invite_by_token_def sql_first_update invite_later_def invite_core_def)

lemma invite_frame:
  "ad_invites db' = ad_invites db @ new \<Longrightarrow> invite_by_token T raw db = Some i \<Longrightarrow> invite_by_token T raw db' = Some i"
  by (simp add: invite_by_token_def sql_first_append)

lemma acct_step_invites:
  assumes "acct_step T db db'" and "\<And>now raw u email. db' \<noteq> snd (AcceptInvitation T now raw u email db)"
  shows "\<exists>new. ad_invites db' = ad_invites db @ new"
  using assms
proof (induction rule: acct_step.induct)
  case (set_unlimited db email b)
  then show ?case using SetUnlimited_cases [of T email b db] by (auto simp: SetUnlimited_def)
next
  case (accept db now raw u email)
  then show ?case by blast
qed (auto simp: CreatePersonalAccount_def SetStripeCustomerID_def SyncSubscription_def HandleSubscriptionCanceled_def RecordStripeEvent_def
    UpdateMemberRole_def TransferOwnership_def transfer_write_def RemoveMember_def CreateInvitation_def
    CreateTeam_def RenameTeam_def DeleteTeam_def AddTeamMember_def RemoveTeamMember_def Let_def split: prod.splits option.splits)

lemma invite_step:
  assumes "acct_step T db db'" and "invite_by_token T raw db = Some i"
  shows "\<exists>i'. invite_by_token T raw db' = Some i' \<and> invite_later i i'"
proof (cases "\<exists>now raw u email. db' = snd (AcceptInvitation T now raw u email db)")
  case True
  then obtain now raw' u email where a: "db' = snd (AcceptInvitation T now raw' u email db)" by blast
  show ?thesis
    using AcceptInvitation_cases [of T now raw' u email db]
  proof (elim disjE exE conjE)
    fix e assume "AcceptInvitation T now raw' u email db = (Inl e, db)"
    with a assms(2) show ?thesis by simp
  next
    fix iv assume "AcceptInvitation T now raw' u email db = (Inr ((Invitation.truncate iv)\<lparr>iv_AcceptedAt := Some now\<rparr>),
        db\<lparr>ad_members := joined (Invitation.truncate iv) u now db,
           ad_invites := sql_update (\<lambda>i. iv_ID i = iv_ID iv) (\<lambda>i. i\<lparr>iv_AcceptedAt := Some now\<rparr>) (ad_invites db)\<rparr>)"
    then show ?thesis unfolding a using invite_update [OF assms(2)] by (simp only: snd_conv) blast
  qed
next
  case False
  then obtain new where "ad_invites db' = ad_invites db @ new" using acct_step_invites [OF assms(1)] by metis
  from invite_frame [OF this assms(2)] show ?thesis by auto
qed

lemma invite_steps:
  assumes "(acct_step T)\<^sup>*\<^sup>* db db'" and "invite_by_token T raw db = Some i"
  shows "\<exists>i'. invite_by_token T raw db' = Some i' \<and> invite_later i i'"
  using assms
proof (induction rule: rtranclp_induct)
  case (step db1 db2)
  then obtain i1 where i1: "invite_by_token T raw db1 = Some i1" "invite_later i i1" by blast
  from invite_step [OF step.hyps(2) i1(1)] i1(2) show ?case by (blast intro: invite_later_trans)
qed auto

text \<open>
  C13. An invitation is used at most once and only by whom it was made for. A user who accepts with
  an invitation's token, whatever happened to the store since it was issued, does so before it
  expires and with the invited address; a new membership carries the invited role, which is
  never the owner's, and no other membership changes. From then on the token is refused for
  everyone.
\<close>

theorem invitation_once:
  assumes "CreateInvitation T newid raw now acc by_u email role ttl db = (Inr (raw, iv), db1)"
    and "(acct_step T)\<^sup>*\<^sup>* db1 db2" and "AcceptInvitation T t raw u userEmail db2 = (Inr iv', db3)"
    and "(acct_step T)\<^sup>*\<^sup>* db3 db4"
  shows "t \<le> now + ttl \<and> tx_EqualFold T (TrimSpace userEmail) (TrimSpace (tx_ToLower T email)) \<and> role \<noteq> RoleOwner \<and>
    (ad_members db3 = ad_members db2 \<or>
      ad_members db3 = ad_members db2 @ [\<lparr>mb_AccountID = acc, mb_UserID = u, mb_Role = role, mb_CreatedAt = t\<rparr>] \<and>
        (\<forall>m \<in> set (ad_members db2). \<not> member_key acc u m)) \<and>
    AcceptInvitation T t' raw u' userEmail' db4 = (Inl InvitationGone, db4)"
proof -
  have role: "ValidInviteRole role" using assms(1) by (auto simp: CreateInvitation_def Let_def split: if_splits)
  obtain i where i: "invite_by_token T raw db1 = Some i" "invite_core i = (newid, acc, TrimSpace (tx_ToLower T email), role, now + ttl)"
  proof -
    let ?row = "\<lparr>iv_ID = newid, iv_AccountID = acc, iv_Email = TrimSpace (tx_ToLower T email), iv_Role = role,
            iv_InvitedByUserID = by_u, iv_ExpiresAt = now + ttl, iv_AcceptedAt = None, iv_CreatedAt = now,
            iv_token_hash = hashToken T raw\<rparr>"
    have "hashToken T raw \<notin> set (map iv_token_hash (ad_invites db))" "db1 = db\<lparr>ad_invites := ad_invites db @ [?row]\<rparr>"
      using assms(1) by (auto simp: CreateInvitation_def Let_def split: if_splits)
    moreover from this(1) have "sql_first (\<lambda>i. iv_token_hash i = hashToken T raw) (ad_invites db) = None"
      by (force simp: sql_first_None)
    ultimately have "invite_by_token T raw db1 = Some ?row" by (simp add: invite_by_token_def sql_first_append)
    then show thesis by (rule that) (simp add: invite_core_def)
  qed
  obtain j where j: "invite_by_token T raw db2 = Some j" "invite_later i j" using invite_steps [OF assms(2) i(1)] by blast
  then have core: "invite_core j = (newid, acc, TrimSpace (tx_ToLower T email), role, now + ttl)" using i(2) by (simp add: invite_later_def)
  from AcceptInvitation_cases [of T t raw u userEmail db2] assms(3) j(1)
  have acc: "t \<le> iv_ExpiresAt j" "tx_EqualFold T (TrimSpace userEmail) (iv_Email j)"
    and db3: "db3 = db2\<lparr>ad_members := joined (Invitation.truncate j) u t db2,
           ad_invites := sql_update (\<lambda>i. iv_ID i = iv_ID j) (\<lambda>i. i\<lparr>iv_AcceptedAt := Some t\<rparr>) (ad_invites db2)\<rparr>"
    by auto
  from invite_update [OF j(1), where ms = "joined (Invitation.truncate j) u t db2" and P = "\<lambda>i. iv_ID i = iv_ID j" and now = t]
  obtain k where k: "invite_by_token T raw db3 = Some k" "iv_AcceptedAt k = Some t" unfolding db3 by auto
  obtain l where l: "invite_by_token T raw db4 = Some l" "invite_later k l" using invite_steps [OF assms(4) k(1)] by blast
  then have "iv_AcceptedAt l \<noteq> None" using k(2) by (auto simp: invite_later_def)
  then have "AcceptInvitation T t' raw u' userEmail' db4 = (Inl InvitationGone, db4)" using l(1) by (simp add: AcceptInvitation_def)
  moreover have "role \<noteq> RoleOwner" using role by (auto simp: ValidInviteRole_def role_defs)
  moreover have "ad_members db3 = joined (Invitation.truncate j) u t db2" by (simp add: db3)
  ultimately show ?thesis
    using acc core by (auto simp: invite_core_def joined_def Invitation.defs split: if_splits)
qed

lemma two_in_filter:
  assumes "x \<in> set xs" "y \<in> set xs" and "P x" "P y" "x \<noteq> y"
  shows "1 < length (filter P xs)"
proof -
  have "card {x, y} \<le> card (set (filter P xs))" using assms by (intro card_mono) auto
  also have "\<dots> \<le> length (filter P xs)" by (rule card_length)
  finally show ?thesis using assms(5) by simp
qed

section \<open>Two ways around the ownership rules\<close>

text \<open>
  C40. An admin can take an account over. The routes for members ask for the action an admin has.
  Transferring ownership is refused to an admin, but the role form is not: an admin gives
  themselves the owner role with it and can then remove the former only owner.
\<close>

theorem admin_takes_over:
  assumes "distinct (map (\<lambda>m. (mb_AccountID m, mb_UserID m)) (ad_members db))" and "u \<noteq> w" and "tx_ToLower T ''owner'' = ''owner''"
    and "m \<in> set (ad_members db)" "member_key acc u m" "mb_Role m = RoleAdmin"
    and "n \<in> set (ad_members db)" "member_key acc w n" "mb_Role n = RoleOwner"
    and "cx_role cx = Some RoleAdmin" "acct_ID (cx_account cx) = acc" "f ''role'' = ''owner''"
    and "tx_parse_uuid T su = Some u" "tx_parse_uuid T sw = Some w"
  shows "Authorize (Some RoleAdmin) ActionMemberWrite = None \<and>
    memberTransferOwnership T cx sx db = (HttpStatus 403, db) \<and>
    (\<exists>db1 db2. memberUpdate T cx su (Some f) db = (SeeOther ''/account'', db1) \<and>
      memberRemove T cx sw db1 = (SeeOther ''/account'', db2) \<and>
      (\<exists>r. GetMembership acc u db2 = Inr r \<and> mb_Role r = RoleOwner) \<and> GetMembership acc w db2 = Inl AcctNotFound)"
proof -
  let ?db1 = "db\<lparr>ad_members := sql_update (member_key acc u) (\<lambda>m. m\<lparr>mb_Role := RoleOwner\<rparr>) (ad_members db)\<rparr>"
  let ?db2 = "?db1\<lparr>ad_members := sql_delete (member_key acc w) (ad_members ?db1)\<rparr>"
  have d: "distinct (map m_key (ad_members db))" using assms(1) by (simp add: m_key_def [abs_def])
  have d1: "distinct (map m_key (ad_members ?db1))" using d by (simp add: map_sql_update_key m_key_def)
  have "snd (lockMembers acc u db) = Some RoleAdmin"
    using lockMembers_role [OF d assms(4)] assms(5,6) by (simp add: member_key_m_key)
  moreover have "TrimSpace ''owner'' = ''owner''" by code_simp
  moreover have "Role_Valid ''owner''" "RoleAdmin \<noteq> RoleOwner" by (simp_all add: Role_Valid_def role_defs)
  ultimately have "UpdateMemberRole acc u RoleOwner db = (Inr (), ?db1)" "ParseRole T (f ''role'') = Inr RoleOwner"
    using assms(3,12) by (auto simp: ParseRole_def UpdateMemberRole_def Let_def RoleOwner_def split: prod.split)
  then obtain e1 where u1: "memberUpdate T cx su (Some f) db = (SeeOther ''/account'', audit_db T (cx_now cx) e1 ?db1)"
    using assms(11,13) by (simp add: memberUpdate_def)
  have mu: "m\<lparr>mb_Role := RoleOwner\<rparr> \<in> set (ad_members ?db1)" "n \<in> set (ad_members ?db1)"
    using assms(2,4,5,7,8) by (auto simp: set_sql_update member_key_def)
  have "snd (lockMembers acc w ?db1) = Some RoleOwner"
    using lockMembers_role [OF d1 mu(2)] assms(8,9) by (simp add: member_key_m_key)
  moreover have "1 < fst (lockMembers acc w ?db1)"
  proof -
    have "m\<lparr>mb_Role := RoleOwner\<rparr> \<noteq> n" using assms(2,5,8) by (auto simp: member_key_def)
    then show ?thesis
      using two_in_filter [OF mu, of "\<lambda>m. mb_AccountID m = acc \<and> mb_Role m = RoleOwner"] assms(5,8,9)
      by (simp add: lockMembers_def Let_def member_key_def conj_commute)
  qed
  ultimately have "RemoveMember acc w (audit_db T (cx_now cx) e1 ?db1) = (Inr (), (audit_db T (cx_now cx) e1 ?db1)\<lparr>ad_members := ad_members ?db2\<rparr>)"
    by (auto simp: RemoveMember_def split: prod.split)
  then obtain db2 where rm: "memberRemove T cx sw (audit_db T (cx_now cx) e1 ?db1) = (SeeOther ''/account'', db2)"
    and m2: "ad_members db2 = ad_members ?db2"
    using assms(11,14) by (simp add: memberRemove_def)
  have g: "GetMembership a x db2 = GetMembership a x ?db2" for a x using m2 by (simp add: GetMembership_def)
  have "GetMembership acc w ?db2 = Inl AcctNotFound"
    by (simp add: GetMembership_def sql_first_None set_sql_delete split: option.split)
  moreover have "GetMembership acc u ?db2 = Inr (m\<lparr>mb_Role := RoleOwner\<rparr>)"
  proof -
    let ?m = "m\<lparr>mb_Role := RoleOwner\<rparr>"
    have k: "m_key ?m = (acc, u)" using assms(5) by (simp add: member_key_def m_key_def)
    have "?m \<in> set (ad_members ?db2)" using mu(1) assms(2,5) by (auto simp: set_sql_delete member_key_def)
    moreover have "distinct (map m_key (ad_members ?db2))" using d1 by (simp add: sql_delete_def distinct_map_filter)
    ultimately show ?thesis
      using sql_first_distinct [of m_key "ad_members ?db2" ?m] k by (simp add: GetMembership_def member_key_m_key [abs_def])
  qed
  moreover have "Authorize (Some RoleAdmin) ActionMemberWrite = None" by code_simp
  moreover have "memberTransferOwnership T cx sx db = (HttpStatus 403, db)"
    using assms(10) by (simp add: memberTransferOwnership_def role_defs)
  ultimately show ?thesis using u1 rm by (auto simp: g)
qed

lemma transfer_write_map:
  assumes "f \<noteq> t"
  shows "ad_members (transfer_write acc f t db) =
    map (\<lambda>m. if member_key acc f m then m\<lparr>mb_Role := RoleAdmin\<rparr> else if member_key acc t m then m\<lparr>mb_Role := RoleOwner\<rparr> else m) (ad_members db)"
  unfolding transfer_write_def sql_update_def using assms by (simp add: member_key_def)

text \<open>
  A transfer can lose the owner. \<open>TransferOwnership\<close> does not lock the memberships it reads. When
  the receiver is removed by another request after the check and before the writes, the
  former owner is demoted and nobody becomes owner: an account with one owner is left without.
\<close>

theorem transfer_race:
  assumes "distinct (map (\<lambda>m. (mb_AccountID m, mb_UserID m)) (ad_members db))"
    and "transfer_check acc f t db = None"
    and "\<And>m. m \<in> set (ad_members db) \<Longrightarrow> mb_AccountID m = acc \<Longrightarrow> mb_Role m = RoleOwner \<Longrightarrow> mb_UserID m = f"
  shows "\<exists>db1. RemoveMember acc t db = (Inr (), db1) \<and>
    (\<forall>m \<in> set (ad_members (transfer_write acc f t db1)). mb_AccountID m = acc \<longrightarrow> mb_Role m \<noteq> RoleOwner)"
proof -
  have d: "distinct (map m_key (ad_members db))" using assms(1) by (simp add: m_key_def [abs_def])
  from assms(2) have ft: "f \<noteq> t" and "\<exists>m \<in> set (ad_members db). member_key acc t m"
    by (auto simp: transfer_check_def split: if_splits option.splits)
  then obtain m where m: "m \<in> set (ad_members db)" "member_key acc t m" by blast
  have r: "mb_Role m \<noteq> RoleOwner" using assms(3) [OF m(1)] m(2) ft by (auto simp: member_key_def)
  have "snd (lockMembers acc t db) = Some (mb_Role m)"
    using lockMembers_role [OF d m(1)] m(2) by (simp add: member_key_m_key)
  then have "RemoveMember acc t db = (Inr (), db\<lparr>ad_members := sql_delete (member_key acc t) (ad_members db)\<rparr>)"
    using r by (auto simp: RemoveMember_def split: prod.split)
  moreover have "mb_Role m' \<noteq> RoleOwner"
    if "m' \<in> set (ad_members (transfer_write acc f t (db\<lparr>ad_members := sql_delete (member_key acc t) (ad_members db)\<rparr>)))" "mb_AccountID m' = acc" for m'
  proof -
    from that(1) obtain m0 where m: "m0 \<in> set (sql_delete (member_key acc t) (ad_members db))"
      and m': "m' = (if member_key acc f m0 then m0\<lparr>mb_Role := RoleAdmin\<rparr> else if member_key acc t m0 then m0\<lparr>mb_Role := RoleOwner\<rparr> else m0)"
      unfolding transfer_write_map [OF ft] set_map by (elim imageE) simp
    from m have "m0 \<in> set (ad_members db)" "\<not> member_key acc t m0" by (simp_all add: set_sql_delete)
    note m0 = this m'
    show ?thesis
    proof (cases "member_key acc f m0")
      case True
      with m0(3) show ?thesis by (simp add: role_defs)
    next
      case False
      with m0 that(2) assms(3) [OF m0(1)] show ?thesis by (auto simp: member_key_def)
    qed
  qed
  ultimately show ?thesis by blast
qed

section \<open>Concrete accounts\<close>

definition plain_text :: text_lib where
  "plain_text = \<lparr>tx_ToLower = id, tx_EqualFold = (=), tx_citext = id, tx_order = id, tx_sha256 = id, tx_uuid = (\<lambda>n. replicate n (CHR ''i'')),
     tx_parse_uuid = (\<lambda>s. if s \<noteq> [] \<and> set s \<subseteq> {CHR ''i''} then Some (length s) else None), tx_inet = (\<lambda>s. if CHR ''.'' \<in> set s then Some s else None)\<rparr>"

definition two_users :: account_db where
  "two_users = \<lparr>ad_users = map (\<lambda>i. \<lparr>u_ID = i, u_Email = ''u@x'', u_EmailVerified = True, u_PasswordHash = [], u_IsStaff = False,
     u_MFAEnabled = False, u_TotpSecret = None, u_LastCounter = None, u_CreatedAt = 0, u_deleted_at = None\<rparr>) [1, 2],
     ad_accounts = [], ad_members = [], ad_invites = [], ad_events = [], ad_teams = [], ad_team_members = [],
     ad_audit = \<lparr>al_rows = [], al_seq = 1\<rparr>\<rparr>"

definition ann_account :: account_db where
  "ann_account = snd (CreatePersonalAccount plain_text 7 0 1 ''ann@x'' two_users)"

lemma ann_account_facts:
  "ad_members ann_account = [owner_row 7 1 0]" "map acct_ID (ad_accounts ann_account) = [7]" "ad_users ann_account = ad_users two_users"
  "ad_invites ann_account = []"
proof -
  have t: "account_slugify ''ann'' = ''ann''" "pg_text_ok (''ann'' @ CHR 0x27 # ''s workspace'')" "pg_text_ok ''ann-i''" by code_simp+
  have e: "emailLocal ''ann@x'' = ''ann''" "shortID plain_text (Suc 0) = ''i''" by code_simp+
  show "ad_members ann_account = [owner_row 7 1 0]" "map acct_ID (ad_accounts ann_account) = [7]" "ad_users ann_account = ad_users two_users"
    "ad_invites ann_account = []"
    using t by (simp_all add: ann_account_def CreatePersonalAccount_def Let_def e two_users_def ad_user_exists_def)
qed

definition ann_with_bob :: account_db where
  "ann_with_bob = snd (AcceptInvitation plain_text 5 ''tok'' 2 ''bob@x'' (snd (CreateInvitation plain_text 3 ''tok'' 0 7 1 ''bob@x'' RoleViewer nsDay ann_account)))"

lemma ann_with_bob_facts:
  "ad_members ann_with_bob = [owner_row 7 1 0, (owner_row 7 2 5)\<lparr>mb_Role := RoleViewer\<rparr>]" "map acct_ID (ad_accounts ann_with_bob) = [7]"
proof -
  have t: "TrimSpace ''bob@x'' = ''bob@x''" "pg_text_ok ''bob@x''" by code_simp+
  have u: "ad_user_exists 1 ann_account" "ad_user_exists 2 ann_account" "ad_account_exists 7 ann_account"
    by (simp_all add: ad_user_exists_def ad_account_exists_def ann_account_facts two_users_def)
  show "ad_members ann_with_bob = [owner_row 7 1 0, (owner_row 7 2 5)\<lparr>mb_Role := RoleViewer\<rparr>]" "map acct_ID (ad_accounts ann_with_bob) = [7]"
    using t u by (simp_all add: ann_with_bob_def CreateInvitation_def AcceptInvitation_def Let_def plain_text_def ValidInviteRole_def ann_account_facts
        invite_by_token_def ad_user_exists_def ad_account_exists_def member_key_def owner_row_def Invitation.defs)
qed

text \<open>The witness: the ownership of an account goes to a member who accepted an invitation, with the check and the write as steps of their own.\<close>

theorem accounts_keep_owner_witness:
  "(shared_step plain_text)\<^sup>*\<^sup>* (two_users, {}) (transfer_write 7 1 2 ann_with_bob, {}) \<and>
   (\<exists>m \<in> set (ad_members (transfer_write 7 1 2 ann_with_bob)). mb_AccountID m = 7 \<and> mb_Role m = RoleOwner)"
proof -
  let ?inv = "snd (CreateInvitation plain_text 3 ''tok'' 0 7 1 ''bob@x'' RoleViewer nsDay ann_account)"
  have 1: "shared_step plain_text (two_users, {}) (ann_account, {})"
    unfolding ann_account_def by (intro shared_step.operation acct_step.create_account) (simp_all add: two_users_def keeps_receivers_def)
  have 2: "shared_step plain_text (ann_account, {}) (?inv, {})"
    by (intro shared_step.operation acct_step.invite) (simp_all add: ann_account_facts keeps_receivers_def)
  have 3: "shared_step plain_text (?inv, {}) (ann_with_bob, {})"
    unfolding ann_with_bob_def by (intro shared_step.operation acct_step.accept) (simp add: keeps_receivers_def)
  have "transfer_check 7 1 2 ann_with_bob = None"
    by (simp add: transfer_check_def ann_with_bob_facts sql_first_def member_key_def owner_row_def)
  then have 4: "shared_step plain_text (ann_with_bob, {}) (ann_with_bob, {(7, 1, 2)})" by (rule shared_step.transfer_begin)
  have 5: "shared_step plain_text (ann_with_bob, {(7, 1, 2)}) (transfer_write 7 1 2 ann_with_bob, {})"
    using shared_step.transfer_commit [of 7 1 2 "{(7, 1, 2)}" plain_text ann_with_bob] by simp
  from 1 2 3 4 5 have run: "(shared_step plain_text)\<^sup>*\<^sup>* (two_users, {}) (transfer_write 7 1 2 ann_with_bob, {})"
    by (meson converse_rtranclp_into_rtranclp rtranclp.rtrancl_refl)
  have "ad_accounts two_users = []" "ad_members two_users = []" "ad_invites two_users = []" by (simp_all add: two_users_def)
  note k = accounts_keep_owner [OF run this]
  have "7 \<in> set (map acct_ID (ad_accounts (transfer_write 7 1 2 ann_with_bob)))" by (simp add: transfer_write_def ann_with_bob_facts)
  then obtain a where "a \<in> set (ad_accounts (transfer_write 7 1 2 ann_with_bob))" "acct_ID a = 7" by auto
  with bspec [OF k [THEN conjunct1], of a] run show ?thesis by simp
qed

definition ann_invites :: account_db where
  "ann_invites = snd (CreateInvitation plain_text 3 ''tok'' 0 7 1 ''bob@x'' RoleViewer nsDay ann_account)"

theorem invitation_once_witness:
  "\<exists>iv' db3. AcceptInvitation plain_text 5 ''tok'' 2 ''bob@x'' ann_invites = (Inr iv', db3) \<and>
     AcceptInvitation plain_text 6 ''tok'' 2 ''bob@x'' db3 = (Inl InvitationGone, db3)"
proof -
  have t: "TrimSpace ''bob@x'' = ''bob@x''" "pg_text_ok ''bob@x''" by code_simp+
  have u: "ad_user_exists 1 ann_account" "ad_user_exists 2 ann_account" "ad_account_exists 7 ann_account"
    by (simp_all add: ad_user_exists_def ad_account_exists_def ann_account_facts two_users_def)
  obtain iv where c: "CreateInvitation plain_text 3 ''tok'' 0 7 1 ''bob@x'' RoleViewer nsDay ann_account = (Inr (''tok'', iv), ann_invites)"
    using t u by (simp add: ann_invites_def CreateInvitation_def Let_def plain_text_def ValidInviteRole_def ann_account_facts)
  have i: "invite_by_token plain_text ''tok'' ann_invites =
      Some \<lparr>iv_ID = 3, iv_AccountID = 7, iv_Email = ''bob@x'', iv_Role = RoleViewer, iv_InvitedByUserID = 1, iv_ExpiresAt = nsDay,
        iv_AcceptedAt = None, iv_CreatedAt = 0, iv_token_hash = hashToken plain_text ''tok''\<rparr>"
    using t u by (simp add: ann_invites_def CreateInvitation_def Let_def plain_text_def ValidInviteRole_def ann_account_facts invite_by_token_def)
  have "ad_user_exists 2 ann_invites" "ad_account_exists 7 ann_invites"
    using u t by (simp_all add: ann_invites_def CreateInvitation_def Let_def plain_text_def ValidInviteRole_def ann_account_facts ad_user_exists_def ad_account_exists_def)
  with i t obtain iv' db3 where a: "AcceptInvitation plain_text 5 ''tok'' 2 ''bob@x'' ann_invites = (Inr iv', db3)"
    by (simp add: AcceptInvitation_def Let_def) (simp add: plain_text_def)
  from invitation_once [OF c _ a] a show ?thesis by blast
qed

definition ann_and_bob :: account_db where
  "ann_and_bob = two_users\<lparr>ad_members := [owner_row 7 1 0, (owner_row 7 2 0)\<lparr>mb_Role := RoleAdmin\<rparr>]\<rparr>"

lemma ann_and_bob_facts:
  "distinct (map (\<lambda>m. (mb_AccountID m, mb_UserID m)) (ad_members ann_and_bob))"
  "owner_row 7 1 0 \<in> set (ad_members ann_and_bob)" "(owner_row 7 2 0)\<lparr>mb_Role := RoleAdmin\<rparr> \<in> set (ad_members ann_and_bob)"
  by (simp_all add: ann_and_bob_def owner_row_def)

definition bob_page :: page_ctx where
  "bob_page = \<lparr>cx_now = 9,
     cx_req = \<lparr>rq_Cookie = None, rq_XForwardedFor = [], rq_RemoteAddr = ''1.2.3.4:5'', rq_UserAgent = [], rq_Host = [], rq_TLS = True, rq_XForwardedProto = []\<rparr>,
     cx_user = 2,
     cx_account = \<lparr>acct_ID = 7, acct_Name = ''a'', acct_Slug = ''a'', acct_StripeCustomerID = None, acct_Plan = PlanTrial, acct_CreatedAt = 0,
       acct_TrialEndsAt = None, acct_SubscriptionStatus = None, acct_Unlimited = False\<rparr>,
     cx_role = Some RoleAdmin\<rparr>"

theorem admin_takes_over_witness:
  "\<exists>db1 db2. memberUpdate plain_text bob_page ''ii'' (Some (\<lambda>_. ''owner'')) ann_and_bob = (SeeOther ''/account'', db1) \<and>
     memberRemove plain_text bob_page ''i'' db1 = (SeeOther ''/account'', db2) \<and> GetMembership 7 1 db2 = Inl AcctNotFound"
proof -
  have h: "member_key 7 2 ((owner_row 7 2 0)\<lparr>mb_Role := RoleAdmin\<rparr>)" "mb_Role ((owner_row 7 2 0)\<lparr>mb_Role := RoleAdmin\<rparr>) = RoleAdmin"
    "member_key 7 1 (owner_row 7 1 0)" "mb_Role (owner_row 7 1 0) = RoleOwner" "tx_ToLower plain_text ''owner'' = ''owner''" "(2 :: nat) \<noteq> 1"
    by (simp_all add: member_key_def owner_row_def plain_text_def)
  have c: "cx_role bob_page = Some RoleAdmin" "acct_ID (cx_account bob_page) = 7"
    "tx_parse_uuid plain_text ''ii'' = Some 2" "tx_parse_uuid plain_text ''i'' = Some 1"
    by (simp_all add: bob_page_def plain_text_def)
  from admin_takes_over [OF ann_and_bob_facts(1) h(6,5) ann_and_bob_facts(3) h(1,2) ann_and_bob_facts(2) h(3,4) c(1,2) refl c(3,4)]
  show ?thesis by blast
qed

theorem transfer_race_witness:
  "\<exists>db1. RemoveMember 7 2 ann_and_bob = (Inr (), db1) \<and>
     (\<forall>m \<in> set (ad_members (transfer_write 7 1 2 db1)). mb_AccountID m = 7 \<longrightarrow> mb_Role m \<noteq> RoleOwner)"
proof (rule transfer_race [OF ann_and_bob_facts(1)])
  show "transfer_check 7 1 2 ann_and_bob = None"
    by (simp add: transfer_check_def ann_and_bob_def owner_row_def member_key_def)
  show "mb_UserID m = 1" if "m \<in> set (ad_members ann_and_bob)" "mb_AccountID m = 7" "mb_Role m = RoleOwner" for m
    using that by (auto simp: ann_and_bob_def owner_row_def role_defs)
qed

end
