(* ===== verification/Audit_Views.thy ===== *)
theory Audit_Views
  imports Account_Web
begin

section \<open>Reading the audit log\<close>

text \<open>
  The listings of \<open>internal/audit/log.go\<close> and their two clients: the account's audit page
  (\<open>handlers/audit_viewer.go\<close>) and the alert feed of the API (\<open>handlers/v1_alerts.go\<close>). Both clients ask for
  one row more than they show to learn whether an older page exists. The locale \<open>keyset_pages\<close>
  gives the pages; what is added to it here is the client that fetches one row extra.
\<close>

subsection \<open>The listings\<close>

record Entry =
  en_ID :: int
  en_At :: gotime
  en_ActorEmail :: string
  en_Action :: string
  en_TargetKind :: string
  en_TargetID :: string
  en_IP :: string
  en_Metadata :: "(string \<times> string) list"

definition audit_entry :: "account_db \<Rightarrow> audit_row \<Rightarrow> Entry" where
  "audit_entry db w =
     \<lparr>en_ID = aw_id w, en_At = aw_at w,
      en_ActorEmail = (case Option.bind (aw_actor w) (\<lambda>i. sql_first (\<lambda>u. u_ID u = i) (ad_users db)) of None \<Rightarrow> [] | Some u \<Rightarrow> u_Email u),
      en_Action = aw_action w, en_TargetKind = coalesce (aw_target_kind w) [], en_TargetID = coalesce (aw_target_id w) [],
      en_IP = coalesce (aw_ip w) [], en_Metadata = aw_metadata w\<rparr>"

definition audit_query :: "(audit_row \<Rightarrow> bool) \<Rightarrow> int option \<Rightarrow> nat \<Rightarrow> account_db \<Rightarrow> Entry list" where
  "audit_query P before n db =
     map (audit_entry db) (take n (sort_key (\<lambda>w. - aw_id w)
       (filter (\<lambda>w. P w \<and> pred_option (\<lambda>b. aw_id w < b) before) (al_rows (ad_audit db)))))"

definition page_limit :: "int \<Rightarrow> nat" where
  "page_limit limit = (if limit \<le> 0 \<or> limit > 200 then 50 else nat limit)"

definition before_id :: "int \<Rightarrow> int option" where
  "before_id b = (if b = 0 then None else Some b)"

definition ListForAccount :: "uuid \<Rightarrow> int \<Rightarrow> int \<Rightarrow> account_db \<Rightarrow> Entry list" where
  "ListForAccount accountID limit beforeID db =
     audit_query (\<lambda>w. aw_account w = Some accountID) (before_id beforeID) (page_limit limit) db"

definition AlertActions :: "string list" where
  "AlertActions = [''drill.failed'', ''drill.completed'', ''heartbeat.down'', ''heartbeat.up'']"

definition ListAlertsForAccount :: "uuid \<Rightarrow> int \<Rightarrow> int \<Rightarrow> account_db \<Rightarrow> Entry list" where
  "ListAlertsForAccount accountID limit beforeID db =
     audit_query (\<lambda>w. aw_account w = Some accountID \<and> aw_action w \<in> set AlertActions) (before_id beforeID) (page_limit limit) db"

subsection \<open>The two clients\<close>

definition auditLogPageSize :: nat where "auditLogPageSize = 50"

definition auditLog :: "uuid \<Rightarrow> account_db \<Rightarrow> string \<Rightarrow> Entry list \<times> int" where
  "auditLog acct db v =
     (let before = (if v \<noteq> [] then fst (ParseInt v) else 0);
          entries = ListForAccount acct (int auditLogPageSize + 1) before db
      in if length entries > auditLogPageSize
         then (take auditLogPageSize entries, en_ID (last (take auditLogPageSize entries)))
         else (entries, 0))"

record apiAlert =
  aa_ID :: string
  aa_At :: gotime
  aa_Action :: string
  aa_TargetKind :: string
  aa_TargetID :: string
  aa_Metadata :: "(string \<times> string) list"

definition toAPIAlert :: "Entry \<Rightarrow> apiAlert" where
  "toAPIAlert e = \<lparr>aa_ID = dec_int (en_ID e), aa_At = en_At e, aa_Action = en_Action e, aa_TargetKind = en_TargetKind e,
     aa_TargetID = en_TargetID e, aa_Metadata = en_Metadata e\<rparr>"

definition v1ListAlerts :: "uuid \<Rightarrow> account_db \<Rightarrow> string \<Rightarrow> string \<Rightarrow> apiAlert list \<times> string \<times> nat" where
  "v1ListAlerts acct db limitParam cursor =
     (let limit = (if limitParam \<noteq> [] \<and> snd (ParseInt limitParam) \<and> 0 < fst (ParseInt limitParam) \<and> fst (ParseInt limitParam) \<le> 200
                   then fst (ParseInt limitParam) else 50);
          before = (if cursor \<noteq> [] \<and> snd (ParseInt cursor) \<and> 0 < fst (ParseInt cursor) then fst (ParseInt cursor) else 0);
          entries = ListAlertsForAccount acct (limit + 1) before db
      in if length entries > nat limit
         then (let out = take (nat limit) entries in (map toAPIAlert out, dec_int (en_ID (last out)), length out))
         else (map toAPIAlert entries, [], length entries))"

subsection \<open>Following the pages\<close>

text \<open>
  A client that starts without a cursor and passes on each page's cursor until there is none;
  \<open>fuel\<close> bounds the number of requests.
\<close>

fun feed_walk :: "(string \<Rightarrow> 'e list \<times> string) \<Rightarrow> nat \<Rightarrow> string \<Rightarrow> 'e list" where
  "feed_walk h 0 c = []"
| "feed_walk h (Suc fuel) c = (let (es, c') = h c in if c' = [] then es else es @ feed_walk h fuel c')"

definition audit_page :: "uuid \<Rightarrow> account_db \<Rightarrow> string \<Rightarrow> Entry list \<times> string" where
  "audit_page acct db v = (let (es, b) = auditLog acct db v in (es, if b = 0 then [] else dec_int b))"

definition alert_page :: "uuid \<Rightarrow> account_db \<Rightarrow> string \<Rightarrow> string \<Rightarrow> apiAlert list \<times> string" where
  "alert_page acct db limitParam c = (let (es, c', _) = v1ListAlerts acct db limitParam c in (es, c'))"

fun extra_walk :: "('r option \<Rightarrow> nat \<Rightarrow> 'r list) \<Rightarrow> nat \<Rightarrow> nat \<Rightarrow> 'r option \<Rightarrow> 'r list" where
  "extra_walk page n 0 c = []"
| "extra_walk page n (Suc fuel) c =
     (let p = page c (Suc n) in if length p > n then take n p @ extra_walk page n fuel (Some (last (take n p))) else p)"

context keyset_pages
begin

lemma extra_from:
  assumes "distinct (map key (rows s))" and "0 < n" and "length (rows s) \<le> fuel + i" and "i < length (rows s)"
  shows "extra_walk (page s) n fuel (Some (sort_key key (rows s) ! i)) = drop (Suc i) (sort_key key (rows s))"
  using assms(3,4)
proof (induction fuel arbitrary: i)
  case (Suc fuel)
  let ?S = "sort_key key (rows s)"
  have p: "page s (Some (?S ! i)) (Suc n) = take (Suc n) (drop (Suc i) ?S)"
    using page_after_nth [OF assms(1) Suc.prems(2)] .
  show ?case
  proof (cases "Suc i + n < length ?S")
    case True
    then have last: "last (take n (drop (Suc i) ?S)) = ?S ! (i + n)" using assms(2) by (simp add: last_take_nth)
    have "extra_walk (page s) n fuel (Some (?S ! (i + n))) = drop (Suc (i + n)) ?S"
      using Suc.IH [of "i + n"] Suc.prems True assms(2) by simp
    moreover have "take n (drop (Suc i) ?S) @ drop (Suc (i + n)) ?S = drop (Suc i) ?S"
      by (metis add.commute add_Suc_right append_take_drop_id drop_drop)
    ultimately show ?thesis using True last by (simp add: p min_def Let_def)
  qed (simp add: p min_def Let_def less_diff_conv add.commute [of n])
qed simp

lemma extra_all:
  assumes "distinct (map key (rows s))" and "0 < n" and "length (rows s) < fuel"
  shows "extra_walk (page s) n fuel None = sort_key key (rows s)"
proof (cases fuel)
  case (Suc f)
  let ?S = "sort_key key (rows s)"
  show ?thesis
  proof (cases "n < length ?S")
    case True
    then have last: "last (take n ?S) = ?S ! (n - 1)" using assms(2) by (simp add: last_take_nth)
    have "extra_walk (page s) n f (Some (?S ! (n - 1))) = drop n ?S"
      using extra_from [OF assms(1,2), of f "n - 1"] Suc assms(2,3) True by simp
    then show ?thesis using True last by (simp add: Suc page_first min_def Let_def)
  qed (simp add: Suc page_first min_def Let_def)
qed (use assms(3) in simp)

end

definition audit_rows :: "(audit_row \<Rightarrow> bool) \<times> account_db \<Rightarrow> Entry list" where
  "audit_rows s = map (audit_entry (snd s)) (filter (fst s) (al_rows (ad_audit (snd s))))"

definition entry_key :: "Entry \<Rightarrow> int" where
  "entry_key e = - en_ID e"

definition entry_page :: "(audit_row \<Rightarrow> bool) \<times> account_db \<Rightarrow> Entry option \<Rightarrow> nat \<Rightarrow> Entry list" where
  "entry_page s c n = audit_query (fst s) (map_option en_ID c) n (snd s)"

lemma audit_query_rows:
  "audit_query P before n db = take n (sort_key entry_key (filter (\<lambda>e. pred_option (\<lambda>b. en_ID e < b) before) (audit_rows (P, db))))"
proof -
  have k: "(\<lambda>w. - aw_id w) = (\<lambda>w. entry_key (audit_entry db w))" by (simp add: entry_key_def audit_entry_def)
  have i: "en_ID (audit_entry db w) = aw_id w" for w by (simp add: audit_entry_def)
  show ?thesis
    unfolding audit_query_def audit_rows_def k fst_conv snd_conv
    by (simp add: filter_map comp_def i take_map map_sort_key [symmetric] conj_commute)
qed

interpretation ap: keyset_pages audit_rows entry_key entry_page
  by unfold_locales (simp_all add: entry_page_def audit_query_rows entry_key_def split_paired_all)


subsection \<open>The feeds are complete\<close>

text \<open>Keys of the table are distinct, positive and below the sequence; recording an event keeps this.\<close>

definition audit_ok :: "audit_table \<Rightarrow> bool" where
  "audit_ok t \<longleftrightarrow> distinct (map aw_id (al_rows t)) \<and> 0 < al_seq t \<and> (\<forall>w \<in> set (al_rows t). 0 < aw_id w \<and> aw_id w < al_seq t)"

lemma audit_Record_ok:
  assumes "audit_ok t"
  shows "audit_ok (snd (audit_Record T now A e t))"
  using assms by (fastforce simp: audit_Record_def audit_ok_def split: option.splits)

lemma audit_rows_distinct:
  assumes "audit_ok (ad_audit db)"
  shows "distinct (map entry_key (audit_rows (P, db)))"
proof -
  have "distinct (map aw_id (filter P (al_rows (ad_audit db))))" using assms by (simp add: audit_ok_def distinct_map_filter)
  then show ?thesis by (simp add: audit_rows_def comp_def entry_key_def audit_entry_def distinct_map inj_on_def)
qed

lemma audit_rows_ids:
  assumes "audit_ok (ad_audit db)" and "e \<in> set (audit_rows (P, db))"
  shows "0 < en_ID e" "en_ID e < al_seq (ad_audit db)"
  using assms by (auto simp: audit_rows_def audit_ok_def audit_entry_def)

lemma audit_rows_length: "length (audit_rows (P, db)) \<le> length (al_rows (ad_audit db))"
  by (simp add: audit_rows_def)

lemma page_limit_id: "0 < k \<Longrightarrow> k \<le> 200 \<Longrightarrow> page_limit k = nat k"
  by (simp add: page_limit_def)

text \<open>
  A handler that shows \<open>n\<close> of the \<open>n + 1\<close> rows it fetched, with the last shown key as the next
  cursor, is walked as \<open>extra_walk\<close> walks the pages.
\<close>

lemma feed_walk_extra:
  assumes n: "0 < n"
    and h: "\<And>c. pred_option (\<lambda>e. e \<in> set (audit_rows (P, db))) c \<Longrightarrow>
      h (case c of None \<Rightarrow> [] | Some e \<Rightarrow> dec_int (en_ID e)) =
        (let p = entry_page (P, db) c (Suc n) in
         if n < length p then (map g (take n p), dec_int (en_ID (last (take n p)))) else (map g p, []))"
    and c: "pred_option (\<lambda>e. e \<in> set (audit_rows (P, db))) c"
  shows "feed_walk h fuel (case c of None \<Rightarrow> [] | Some e \<Rightarrow> dec_int (en_ID e)) = map g (extra_walk (entry_page (P, db)) n fuel c)"
  using c
proof (induction fuel arbitrary: c)
  case (Suc fuel)
  let ?p = "entry_page (P, db) c (Suc n)"
  have sub: "set ?p \<subseteq> set (audit_rows (P, db))"
    by (auto simp: entry_page_def audit_query_rows dest!: in_set_takeD)
  show ?case
  proof (cases "n < length ?p")
    case True
    then have "last (take n ?p) \<in> set (take n ?p)" using n by (intro last_in_set) auto
    then have m: "last (take n ?p) \<in> set (audit_rows (P, db))" using sub by (blast dest: in_set_takeD)
    have ne: "dec_int i \<noteq> []" for i by (simp add: dec_int_def dec_nat_nonempty)
    have "feed_walk h fuel (dec_int (en_ID (last (take n ?p)))) = map g (extra_walk (entry_page (P, db)) n fuel (Some (last (take n ?p))))"
      using Suc.IH [of "Some (last (take n ?p))"] m by simp
    with True h [OF Suc.prems] ne show ?thesis by (simp add: Let_def)
  qed (use h [OF Suc.prems] in \<open>simp add: Let_def\<close>)
qed simp

abbreviation of_account :: "uuid \<Rightarrow> audit_row \<Rightarrow> bool" where
  "of_account acct w \<equiv> aw_account w = Some acct"

abbreviation alert_of :: "uuid \<Rightarrow> audit_row \<Rightarrow> bool" where
  "alert_of acct w \<equiv> aw_account w = Some acct \<and> aw_action w \<in> set AlertActions"

lemma cursor_reads_back:
  assumes "audit_ok (ad_audit db)" and "al_seq (ad_audit db) \<le> 2 ^ 63" and "e \<in> set (audit_rows (P, db))"
  shows "ParseInt (dec_int (en_ID e)) = (en_ID e, True)" "dec_int (en_ID e) \<noteq> []" "0 < en_ID e" "before_id (en_ID e) = Some (en_ID e)"
proof -
  note i = audit_rows_ids [OF assms(1,3)]
  show "ParseInt (dec_int (en_ID e)) = (en_ID e, True)" using i assms(2) by (intro ParseInt_dec_int) auto
  show "dec_int (en_ID e) \<noteq> []" "0 < en_ID e" "before_id (en_ID e) = Some (en_ID e)"
    using i by (simp_all add: dec_int_def dec_nat_nonempty before_id_def)
qed

lemma before_id_0 [simp]: "before_id 0 = None"
  by (simp add: before_id_def)

lemma audit_page_entries:
  assumes "audit_ok (ad_audit db)" and "al_seq (ad_audit db) \<le> 2 ^ 63"
    and "pred_option (\<lambda>e. e \<in> set (audit_rows (of_account acct, db))) c"
  shows "audit_page acct db (case c of None \<Rightarrow> [] | Some e \<Rightarrow> dec_int (en_ID e)) =
    (let p = entry_page (of_account acct, db) c (Suc auditLogPageSize) in
     if auditLogPageSize < length p then (map id (take auditLogPageSize p), dec_int (en_ID (last (take auditLogPageSize p)))) else (map id p, []))"
proof -
  let ?p = "entry_page (of_account acct, db) c (Suc auditLogPageSize)"
  have "auditLog acct db (case c of None \<Rightarrow> [] | Some e \<Rightarrow> dec_int (en_ID e)) =
      (if auditLogPageSize < length ?p then (take auditLogPageSize ?p, en_ID (last (take auditLogPageSize ?p))) else (?p, 0))"
    using cursor_reads_back [OF assms(1,2)] assms(3)
    by (cases c) (simp_all add: auditLog_def ListForAccount_def entry_page_def page_limit_def auditLogPageSize_def Let_def)
  moreover have "en_ID (last (take auditLogPageSize ?p)) \<noteq> 0" if "auditLogPageSize < length ?p"
  proof -
    have "last (take auditLogPageSize ?p) \<in> set (take auditLogPageSize ?p)"
      using that by (intro last_in_set) (auto simp: auditLogPageSize_def)
    then have "last (take auditLogPageSize ?p) \<in> set (audit_rows (of_account acct, db))"
      by (auto simp: entry_page_def audit_query_rows dest!: in_set_takeD)
    from audit_rows_ids(1) [OF assms(1) this] show ?thesis by simp
  qed
  ultimately show ?thesis by (simp add: audit_page_def Let_def)
qed

lemma alert_page_entries:
  assumes "audit_ok (ad_audit db)" and "al_seq (ad_audit db) \<le> 2 ^ 63" and "0 < k" "k < 200"
    and "pred_option (\<lambda>e. e \<in> set (audit_rows (alert_of acct, db))) c"
  shows "alert_page acct db (dec_nat k) (case c of None \<Rightarrow> [] | Some e \<Rightarrow> dec_int (en_ID e)) =
    (let p = entry_page (alert_of acct, db) c (Suc k) in
     if k < length p then (map toAPIAlert (take k p), dec_int (en_ID (last (take k p)))) else (map toAPIAlert p, []))"
proof -
  have k: "ParseInt (dec_nat k) = (int k, True)" "dec_nat k \<noteq> []"
    using ParseInt_dec_int [of "int k"] assms(4) by (simp_all add: dec_int_def dec_nat_nonempty)
  have l: "page_limit (1 + int k) = Suc k" using assms(4) by (simp add: page_limit_def)
  show ?thesis
    using cursor_reads_back [OF assms(1,2)] assms(3-5)
    by (cases c) (simp_all add: alert_page_def v1ListAlerts_def ListAlertsForAccount_def entry_page_def k l Let_def add.commute [of _ 1])
qed

text \<open>
  Reading the audit log. A client that follows the cursors of the account's audit page sees
  every event of the account exactly once, newest first; so does a client of the alert feed for
  the alerts, for every page size from 1 to 199. With page size 200, which the API accepts as
  well, the extra row takes the listing over its bound of 200, it falls back to 50 rows, and the
  feed ends there without a cursor: the older alerts cannot be reached.
\<close>

theorem audit_feeds:
  assumes "audit_ok (ad_audit db)" and "al_seq (ad_audit db) \<le> 2 ^ 63" and "length (al_rows (ad_audit db)) < fuel"
  shows "feed_walk (audit_page acct db) fuel [] = sort_key entry_key (audit_rows (of_account acct, db)) \<and>
    (0 < k \<and> k < 200 \<longrightarrow>
      feed_walk (alert_page acct db (dec_nat k)) fuel [] = map toAPIAlert (sort_key entry_key (audit_rows (alert_of acct, db)))) \<and>
    feed_walk (alert_page acct db (dec_nat 200)) fuel [] = map toAPIAlert (take 50 (sort_key entry_key (audit_rows (alert_of acct, db))))"
proof (intro conjI impI)
  have len: "length (audit_rows (P, db)) < fuel" for P using audit_rows_length [of P db] assms(3) by simp
  note all = ap.extra_all [OF audit_rows_distinct [OF assms(1)] _ len]
  have "feed_walk (audit_page acct db) fuel [] = map id (extra_walk (entry_page (of_account acct, db)) auditLogPageSize fuel None)"
    using feed_walk_extra [OF _ audit_page_entries [OF assms(1,2)], where c = None and fuel = fuel] by (simp add: auditLogPageSize_def)
  then show "feed_walk (audit_page acct db) fuel [] = sort_key entry_key (audit_rows (of_account acct, db))"
    using all [of auditLogPageSize "of_account acct"] by (simp add: auditLogPageSize_def)
  show "feed_walk (alert_page acct db (dec_nat k)) fuel [] = map toAPIAlert (sort_key entry_key (audit_rows (alert_of acct, db)))"
    if "0 < k \<and> k < 200"
    using feed_walk_extra [OF _ alert_page_entries [OF assms(1,2)], where c = None and fuel = fuel] all [of k "alert_of acct"] that by simp
  have k: "ParseInt (dec_nat 200) = (200, True)" "dec_nat 200 \<noteq> []"
    using ParseInt_dec_int [of 200] by (simp_all add: dec_int_def dec_nat_nonempty)
  obtain f where f: "fuel = Suc f" using assms(3) by (cases fuel) auto
  show "feed_walk (alert_page acct db (dec_nat 200)) fuel [] = map toAPIAlert (take 50 (sort_key entry_key (audit_rows (alert_of acct, db))))"
    by (simp add: f alert_page_def v1ListAlerts_def ListAlertsForAccount_def before_id_def page_limit_def k audit_query_rows Let_def)
qed

definition sixty_alerts :: account_db where
  "sixty_alerts = \<lparr>ad_users = [], ad_accounts = [], ad_members = [], ad_invites = [], ad_events = [], ad_teams = [], ad_team_members = [],
     ad_audit = \<lparr>al_rows = map (\<lambda>i. \<lparr>aw_id = i, aw_at = 100 * i, aw_account = Some 7, aw_actor = None, aw_action = ''drill.failed'',
         aw_target_kind = None, aw_target_id = None, aw_ip = None, aw_user_agent = None, aw_metadata = []\<rparr>) [1..60], al_seq = 61\<rparr>\<rparr>"

theorem audit_feeds_witness:
  "length (feed_walk (alert_page 7 sixty_alerts ''2'') 99 []) = 60 \<and> length (feed_walk (alert_page 7 sixty_alerts ''200'') 99 []) = 50 \<and>
   length (feed_walk (audit_page 7 sixty_alerts) 99 []) = 60"
proof -
  have ok: "audit_ok (ad_audit sixty_alerts)" "al_seq (ad_audit sixty_alerts) \<le> 2 ^ 63" "length (al_rows (ad_audit sixty_alerts)) < 99"
    by (simp_all add: sixty_alerts_def audit_ok_def comp_def)
  have len: "length (audit_rows (of_account 7, sixty_alerts)) = 60" "length (audit_rows (alert_of 7, sixty_alerts)) = 60"
    by (simp_all add: audit_rows_def sixty_alerts_def AlertActions_def comp_def)
  have d: "dec_nat 2 = ''2''" "dec_nat 200 = ''200''" by code_simp+
  show ?thesis using audit_feeds [OF ok, of 7 2] by (simp add: len d)
qed

end
