(* ===== verification/Sign_In.thy ===== *)
theory Sign_In
  imports Passwords Totp Account_Web
begin

section \<open>Signing in: sessions, throttle, second factor, one-time links\<close>

text \<open>
  \<open>internal/auth\<close>: the login throttle (\<open>throttle.go\<close>), sessions (\<open>session.go\<close>), the second factor (\<open>mfa.go\<close>),
  magic links (\<open>magiclink.go\<close>) and email verification (\<open>verification.go\<close>), one definition per method. The tables
  are the record \<open>auth_db\<close>, around the account tables. The instant, fresh identifiers and random
  tokens are arguments. Of a token only its hash is stored.
\<close>

subsection \<open>Tables\<close>

record Session =
  se_ID :: uuid
  se_UserID :: uuid
  se_CreatedAt :: gotime
  se_ExpiresAt :: gotime
  se_ImpersonatorID :: "uuid option"
  se_MFAPending :: bool
  se_StaffVerifiedAt :: "gotime option"

record sess_row = Session +
  se_token_hash :: string
  se_last_seen :: gotime
  se_current :: "uuid option"

record User =
  us_ID :: uuid
  us_Email :: string
  us_EmailVerified :: bool
  us_IsStaff :: bool
  us_MFAEnabled :: bool
  us_CreatedAt :: gotime

record attempt_row =
  la_Email :: string
  la_IP :: "string option"
  la_Succeeded :: bool
  la_At :: gotime

record token_row =
  tk_ID :: uuid
  tk_UserID :: uuid
  tk_hash :: string
  tk_ExpiresAt :: gotime
  tk_ConsumedAt :: "gotime option"

record code_row =
  cd_UserID :: uuid
  cd_hash :: string
  cd_UsedAt :: "gotime option"

record auth_db =
  au_acct :: account_db
  au_sessions :: "sess_row list"
  au_attempts :: "attempt_row list"
  au_magic :: "token_row list"
  au_verify :: "token_row list"
  au_codes :: "code_row list"

datatype sign_error = ErrNoSession | AlreadyImpersonating | NotImpersonating | TokenInvalid | TokenGone | SignConstraint | NoUserRow

text \<open>
  What the server is built with: the text functions, HMAC-SHA1, the key derivation, the
  session timeouts and the throttle.
\<close>

record auth_env =
  env_text :: text_lib
  env_hmac :: "bytes \<Rightarrow> bytes \<Rightarrow> bytes"
  env_argon :: argon
  env_idle :: duration
  env_maxAge :: duration
  env_maxFails :: nat
  env_window :: duration

abbreviation au_users :: "auth_db \<Rightarrow> user_row list" where
  "au_users db \<equiv> ad_users (au_acct db)"

definition set_users :: "(user_row \<Rightarrow> bool) \<Rightarrow> (user_row \<Rightarrow> user_row) \<Rightarrow> auth_db \<Rightarrow> auth_db" where
  "set_users P f db = db\<lparr>au_acct := (au_acct db)\<lparr>ad_users := sql_update P f (au_users db)\<rparr>\<rparr>"

definition token_of :: "auth_env \<Rightarrow> string \<Rightarrow> string" where
  "token_of E raw = hashToken (env_text E) raw"

subsection \<open>The login throttle\<close>

record LockState =
  ls_Locked :: bool
  ls_RetryAfter :: duration

definition same_email :: "auth_env \<Rightarrow> string \<Rightarrow> string \<Rightarrow> bool" where
  "same_email E a b = (tx_citext (env_text E) a = tx_citext (env_text E) b)"

definition throttle_since :: "auth_env \<Rightarrow> gotime \<Rightarrow> string \<Rightarrow> auth_db \<Rightarrow> gotime" where
  "throttle_since E now email db =
     (let cutoff = now - env_window E;
          oks = map la_At (filter (\<lambda>a. same_email E (la_Email a) email \<and> la_Succeeded a \<and> la_At a > cutoff) (au_attempts db))
      in if oks \<noteq> [] \<and> foldr max oks (hd oks) > cutoff then foldr max oks (hd oks) else cutoff)"

definition throttle_fails :: "auth_env \<Rightarrow> gotime \<Rightarrow> string \<Rightarrow> auth_db \<Rightarrow> gotime list" where
  "throttle_fails E now email db =
     map la_At (filter (\<lambda>a. same_email E (la_Email a) email \<and> \<not> la_Succeeded a \<and> la_At a > throttle_since E now email db) (au_attempts db))"

definition Check :: "auth_env \<Rightarrow> gotime \<Rightarrow> string \<Rightarrow> auth_db \<Rightarrow> LockState option" where
  "Check E now email db =
     (if \<not> pg_text_ok email then None
      else
        (let fails = throttle_fails E now email db in
         if length fails < env_maxFails E then Some \<lparr>ls_Locked = False, ls_RetryAfter = 0\<rparr>
         else
           (let r = (if fails = [] then 0 else time_Sub (foldr min fails (hd fails) + env_window E) now)
            in Some \<lparr>ls_Locked = True, ls_RetryAfter = (if r < 0 then 0 else r)\<rparr>)))"

definition throttle_Record :: "auth_env \<Rightarrow> gotime \<Rightarrow> string \<Rightarrow> string \<Rightarrow> bool \<Rightarrow> auth_db \<Rightarrow> (sign_error + unit) \<times> auth_db" where
  "throttle_Record E now email ip succeeded db =
     (if \<not> pg_text_ok email then (Inl SignConstraint, db)
      else
        (case ipOrNil (env_text E) ip of
           None \<Rightarrow> (Inl SignConstraint, db)
         | Some i \<Rightarrow>
             (Inr (), db\<lparr>au_attempts := au_attempts db @ [\<lparr>la_Email = email, la_IP = i, la_Succeeded = succeeded, la_At = now\<rparr>]\<rparr>)))"

definition Prune :: "gotime \<Rightarrow> duration \<Rightarrow> auth_db \<Rightarrow> auth_db" where
  "Prune now olderThan db = db\<lparr>au_attempts := sql_delete (\<lambda>a. la_At a < now - olderThan) (au_attempts db)\<rparr>"

subsection \<open>Sessions\<close>

definition by_hash :: "string \<Rightarrow> sess_row \<Rightarrow> bool" where
  "by_hash h s = (se_token_hash s = h)"

text \<open>\<open>uuid.Nil\<close> is 0. The cookie set is the raw token.\<close>

definition create_session ::
    "auth_env \<Rightarrow> uuid \<Rightarrow> string \<Rightarrow> gotime \<Rightarrow> uuid \<Rightarrow> uuid \<Rightarrow> bool \<Rightarrow> auth_db \<Rightarrow> (sign_error + string) \<times> auth_db" where
  "create_session E newid raw now userID currentAccountID mfaPending db =
     (let h = token_of E raw in
      if newid \<in> set (map se_ID (au_sessions db)) \<or> h \<in> set (map se_token_hash (au_sessions db)) \<or>
         \<not> ad_user_exists userID (au_acct db) \<or> (currentAccountID \<noteq> 0 \<and> \<not> ad_account_exists currentAccountID (au_acct db))
      then (Inl SignConstraint, db)
      else (Inr raw, db\<lparr>au_sessions := au_sessions db @
        [\<lparr>se_ID = newid, se_UserID = userID, se_CreatedAt = now, se_ExpiresAt = now + env_maxAge E, se_ImpersonatorID = None,
          se_MFAPending = mfaPending, se_StaffVerifiedAt = None, se_token_hash = h, se_last_seen = now,
          se_current = (if currentAccountID = 0 then None else Some currentAccountID)\<rparr>]\<rparr>))"

definition Create_session ::
    "auth_env \<Rightarrow> uuid \<Rightarrow> string \<Rightarrow> gotime \<Rightarrow> uuid \<Rightarrow> uuid \<Rightarrow> auth_db \<Rightarrow> (sign_error + string) \<times> auth_db" where
  "Create_session E newid raw now userID currentAccountID db = create_session E newid raw now userID currentAccountID False db"

definition CreatePending ::
    "auth_env \<Rightarrow> uuid \<Rightarrow> string \<Rightarrow> gotime \<Rightarrow> uuid \<Rightarrow> auth_db \<Rightarrow> (sign_error + string) \<times> auth_db" where
  "CreatePending E newid raw now userID db =
     create_session E newid raw now userID 0 True
       (db\<lparr>au_sessions := sql_delete (\<lambda>s. se_UserID s = userID \<and> se_MFAPending s) (au_sessions db)\<rparr>)"

definition CurrentAccountID :: "auth_env \<Rightarrow> request \<Rightarrow> auth_db \<Rightarrow> sign_error + uuid" where
  "CurrentAccountID E r db =
     (case rq_Cookie r of
        None \<Rightarrow> Inl ErrNoSession
      | Some c \<Rightarrow>
          (case sql_first (by_hash (token_of E c)) (au_sessions db) of
             None \<Rightarrow> Inl ErrNoSession
           | Some s \<Rightarrow> Inr (coalesce (se_current s) 0)))"

definition upd_session :: "(sess_row \<Rightarrow> bool) \<Rightarrow> (sess_row \<Rightarrow> sess_row) \<Rightarrow> auth_db \<Rightarrow> auth_db" where
  "upd_session P f db = db\<lparr>au_sessions := sql_update P f (au_sessions db)\<rparr>"

definition SetCurrentAccount :: "auth_env \<Rightarrow> request \<Rightarrow> uuid \<Rightarrow> auth_db \<Rightarrow> (sign_error + unit) \<times> auth_db" where
  "SetCurrentAccount E r accountID db =
     (case rq_Cookie r of
        None \<Rightarrow> (Inl ErrNoSession, db)
      | Some c \<Rightarrow>
          if accountID \<noteq> 0 \<and> \<not> ad_account_exists accountID (au_acct db) \<and> (\<exists>s \<in> set (au_sessions db). by_hash (token_of E c) s)
          then (Inl SignConstraint, db)
          else (Inr (), upd_session (by_hash (token_of E c))
            (\<lambda>s. s\<lparr>se_current := if accountID = 0 then None else Some accountID\<rparr>) db))"

definition MarkStaffVerified :: "auth_env \<Rightarrow> gotime \<Rightarrow> request \<Rightarrow> auth_db \<Rightarrow> (sign_error + unit) \<times> auth_db" where
  "MarkStaffVerified E now r db =
     (case rq_Cookie r of
        None \<Rightarrow> (Inl ErrNoSession, db)
      | Some c \<Rightarrow> (Inr (), upd_session (by_hash (token_of E c)) (\<lambda>s. s\<lparr>se_StaffVerifiedAt := Some now\<rparr>) db))"

definition loadUser :: "uuid \<Rightarrow> auth_db \<Rightarrow> sign_error + User" where
  "loadUser i db =
     (case sql_first (\<lambda>u. u_ID u = i \<and> u_deleted_at u = None) (au_users db) of
        None \<Rightarrow> Inl ErrNoSession
      | Some u \<Rightarrow> Inr \<lparr>us_ID = u_ID u, us_Email = u_Email u, us_EmailVerified = u_EmailVerified u, us_IsStaff = u_IsStaff u,
          us_MFAEnabled = u_MFAEnabled u, us_CreatedAt = u_CreatedAt u\<rparr>)"

definition live_session :: "auth_env \<Rightarrow> gotime \<Rightarrow> string \<Rightarrow> sess_row \<Rightarrow> bool" where
  "live_session E now h s = (by_hash h s \<and> se_ExpiresAt s > now \<and> se_last_seen s > now - env_idle E)"

definition Lookup :: "auth_env \<Rightarrow> gotime \<Rightarrow> request \<Rightarrow> auth_db \<Rightarrow> (sign_error + User \<times> Session) \<times> auth_db" where
  "Lookup E now r db =
     (case rq_Cookie r of
        None \<Rightarrow> (Inl ErrNoSession, db)
      | Some c \<Rightarrow>
          (case sql_first (live_session E now (token_of E c)) (au_sessions db) of
             None \<Rightarrow> (Inl ErrNoSession, db)
           | Some s \<Rightarrow>
               (let db' = upd_session (live_session E now (token_of E c)) (\<lambda>s. s\<lparr>se_last_seen := now\<rparr>) db in
                (case loadUser (se_UserID s) db' of
                   Inl e \<Rightarrow> (Inl e, db')
                 | Inr u \<Rightarrow> (Inr (u, Session.truncate s), db')))))"

definition StartImpersonation :: "auth_env \<Rightarrow> request \<Rightarrow> uuid \<Rightarrow> uuid \<Rightarrow> auth_db \<Rightarrow> (sign_error + unit) \<times> auth_db" where
  "StartImpersonation E r staffUserID targetUserID db =
     (case rq_Cookie r of
        None \<Rightarrow> (Inl ErrNoSession, db)
      | Some c \<Rightarrow>
          (let P = \<lambda>s. by_hash (token_of E c) s \<and> se_ImpersonatorID s = None in
           if sql_affected P (au_sessions db) = 0 then (Inl AlreadyImpersonating, db)
           else if \<not> ad_user_exists targetUserID (au_acct db) \<or> \<not> ad_user_exists staffUserID (au_acct db) then (Inl SignConstraint, db)
           else (Inr (), upd_session P
             (\<lambda>s. s\<lparr>se_UserID := targetUserID, se_ImpersonatorID := Some staffUserID, se_current := None\<rparr>) db)))"

definition StopImpersonation :: "auth_env \<Rightarrow> request \<Rightarrow> auth_db \<Rightarrow> (sign_error + unit) \<times> auth_db" where
  "StopImpersonation E r db =
     (case rq_Cookie r of
        None \<Rightarrow> (Inl ErrNoSession, db)
      | Some c \<Rightarrow>
          (let P = \<lambda>s. by_hash (token_of E c) s \<and> se_ImpersonatorID s \<noteq> None in
           if sql_affected P (au_sessions db) = 0 then (Inl NotImpersonating, db)
           else (Inr (), upd_session P
             (\<lambda>s. s\<lparr>se_UserID := the (se_ImpersonatorID s), se_ImpersonatorID := None, se_current := None\<rparr>) db)))"

definition Destroy :: "auth_env \<Rightarrow> request \<Rightarrow> auth_db \<Rightarrow> auth_db" where
  "Destroy E r db =
     (case rq_Cookie r of
        None \<Rightarrow> db
      | Some c \<Rightarrow> db\<lparr>au_sessions := sql_delete (by_hash (token_of E c)) (au_sessions db)\<rparr>)"

subsection \<open>The second factor\<close>

definition by_user :: "uuid \<Rightarrow> user_row \<Rightarrow> bool" where
  "by_user i u = (u_ID u = i)"

definition EnableMFA :: "uuid \<Rightarrow> string \<Rightarrow> int \<Rightarrow> auth_db \<Rightarrow> (sign_error + unit) \<times> auth_db" where
  "EnableMFA userID secret confirmCounter db =
     (if \<not> pg_text_ok secret then (Inl SignConstraint, db)
      else (Inr (), set_users (by_user userID)
        (\<lambda>u. u\<lparr>u_TotpSecret := Some secret, u_MFAEnabled := True, u_LastCounter := Some confirmCounter\<rparr>) db))"

definition DisableMFA :: "uuid \<Rightarrow> auth_db \<Rightarrow> auth_db" where
  "DisableMFA userID db =
     (set_users (by_user userID) (\<lambda>u. u\<lparr>u_TotpSecret := None, u_MFAEnabled := False\<rparr>) db)
       \<lparr>au_codes := sql_delete (\<lambda>c. cd_UserID c = userID) (au_codes db)\<rparr>"

definition VerifyAndConsumeTOTP :: "auth_env \<Rightarrow> gotime \<Rightarrow> uuid \<Rightarrow> string \<Rightarrow> auth_db \<Rightarrow> (sign_error + bool) \<times> auth_db" where
  "VerifyAndConsumeTOTP E now userID code db =
     (case sql_first (by_user userID) (au_users db) of
        None \<Rightarrow> (Inl NoUserRow, db)
      | Some u \<Rightarrow>
          (case u_TotpSecret u of
             None \<Rightarrow> (Inr False, db)
           | Some secret \<Rightarrow>
               (case VerifyTOTPWithCounter (env_hmac E) secret code now of
                  (counter, ok) \<Rightarrow>
                    if \<not> ok then (Inr False, db)
                    else if (case u_LastCounter u of None \<Rightarrow> False | Some l \<Rightarrow> counter \<le> l) then (Inr False, db)
                    else (Inr True, set_users (by_user userID) (\<lambda>u. u\<lparr>u_LastCounter := Some counter\<rparr>) db))))"

definition recoveryCodeCount :: nat where "recoveryCodeCount = 10"

definition normalizeRecoveryCode :: "text_lib \<Rightarrow> string \<Rightarrow> string" where
  "normalizeRecoveryCode T s = tx_ToLower T (filter (\<lambda>c. c \<noteq> CHR ''-'' \<and> c \<noteq> CHR '' '') (TrimSpace s))"

definition code_hash :: "auth_env \<Rightarrow> string \<Rightarrow> string" where
  "code_hash E c = token_of E (normalizeRecoveryCode (env_text E) c)"

definition ReplaceRecoveryCodes :: "auth_env \<Rightarrow> uuid \<Rightarrow> string list \<Rightarrow> auth_db \<Rightarrow> (sign_error + unit) \<times> auth_db" where
  "ReplaceRecoveryCodes E userID codes db =
     (if codes \<noteq> [] \<and> \<not> ad_user_exists userID (au_acct db) then (Inl SignConstraint, db)
      else (Inr (), db\<lparr>au_codes := sql_delete (\<lambda>c. cd_UserID c = userID) (au_codes db) @
        map (\<lambda>c. \<lparr>cd_UserID = userID, cd_hash = code_hash E c, cd_UsedAt = None\<rparr>) codes\<rparr>))"

definition unused_code :: "uuid \<Rightarrow> string \<Rightarrow> code_row \<Rightarrow> bool" where
  "unused_code userID h c = (cd_UserID c = userID \<and> cd_hash c = h \<and> cd_UsedAt c = None)"

definition ConsumeRecoveryCode :: "auth_env \<Rightarrow> gotime \<Rightarrow> uuid \<Rightarrow> string \<Rightarrow> auth_db \<Rightarrow> bool \<times> auth_db" where
  "ConsumeRecoveryCode E now userID raw db =
     (let P = unused_code userID (code_hash E raw) in
      (sql_affected P (au_codes db) = 1, db\<lparr>au_codes := sql_update P (\<lambda>c. c\<lparr>cd_UsedAt := Some now\<rparr>) (au_codes db)\<rparr>))"

definition PendingMFAUser :: "auth_env \<Rightarrow> gotime \<Rightarrow> request \<Rightarrow> auth_db \<Rightarrow> sign_error + User" where
  "PendingMFAUser E now r db =
     (case rq_Cookie r of
        None \<Rightarrow> Inl ErrNoSession
      | Some c \<Rightarrow>
          (case sql_first (by_hash (token_of E c)) (au_sessions db) of
             None \<Rightarrow> Inl ErrNoSession
           | Some s \<Rightarrow>
               if \<not> se_MFAPending s \<or> now > se_ExpiresAt s then Inl ErrNoSession else loadUser (se_UserID s) db))"

definition CompleteMFA :: "auth_env \<Rightarrow> uuid \<Rightarrow> string \<Rightarrow> gotime \<Rightarrow> request \<Rightarrow> auth_db \<Rightarrow> (sign_error + string) \<times> auth_db" where
  "CompleteMFA E newid raw now r db =
     (case rq_Cookie r of
        None \<Rightarrow> (Inl ErrNoSession, db)
      | Some c \<Rightarrow>
          (case sql_first (by_hash (token_of E c)) (au_sessions db) of
             None \<Rightarrow> (Inl ErrNoSession, db)
           | Some s \<Rightarrow>
               if \<not> se_MFAPending s then (Inl ErrNoSession, db)
               else create_session E newid raw now (se_UserID s) 0 False
                 (db\<lparr>au_sessions := sql_delete (by_hash (token_of E c)) (au_sessions db)\<rparr>)))"

subsection \<open>One-time links\<close>

definition insert_token :: "uuid \<Rightarrow> string \<Rightarrow> gotime \<Rightarrow> uuid \<Rightarrow> auth_db \<Rightarrow> token_row list \<Rightarrow> token_row list option" where
  "insert_token newid h expiresAt userID db t =
     (if newid \<in> set (map tk_ID t) \<or> h \<in> set (map tk_hash t) \<or> \<not> ad_user_exists userID (au_acct db) then None
      else Some (t @ [\<lparr>tk_ID = newid, tk_UserID = userID, tk_hash = h, tk_ExpiresAt = expiresAt, tk_ConsumedAt = None\<rparr>]))"

definition consume_token :: "string \<Rightarrow> gotime \<Rightarrow> token_row list \<Rightarrow> sign_error + uuid \<times> token_row list" where
  "consume_token h now t =
     (case sql_first (\<lambda>k. tk_hash k = h) t of
        None \<Rightarrow> Inl TokenInvalid
      | Some k \<Rightarrow>
          if tk_ConsumedAt k \<noteq> None \<or> now > tk_ExpiresAt k then Inl TokenGone
          else Inr (tk_UserID k, sql_update (\<lambda>q. tk_ID q = tk_ID k) (\<lambda>q. q\<lparr>tk_ConsumedAt := Some now\<rparr>) t))"

definition MagicLinkTTL :: duration where "MagicLinkTTL = 15 * 60 * nsSecond"

definition CreateMagicLinkToken :: "auth_env \<Rightarrow> uuid \<Rightarrow> string \<Rightarrow> gotime \<Rightarrow> uuid \<Rightarrow> auth_db \<Rightarrow> (sign_error + string) \<times> auth_db" where
  "CreateMagicLinkToken E newid raw now userID db =
     (case insert_token newid (token_of E raw) (now + MagicLinkTTL) userID db (au_magic db) of
        None \<Rightarrow> (Inl SignConstraint, db)
      | Some t \<Rightarrow> (Inr raw, db\<lparr>au_magic := t\<rparr>))"

definition ConsumeMagicLink :: "auth_env \<Rightarrow> gotime \<Rightarrow> string \<Rightarrow> auth_db \<Rightarrow> (sign_error + uuid) \<times> auth_db" where
  "ConsumeMagicLink E now rawToken db =
     (case consume_token (token_of E rawToken) now (au_magic db) of
        Inl e \<Rightarrow> (Inl e, db)
      | Inr (userID, t) \<Rightarrow> (Inr userID, db\<lparr>au_magic := t\<rparr>))"

definition VerificationTTL :: duration where "VerificationTTL = 24 * 3600 * nsSecond"

definition CreateVerificationToken :: "auth_env \<Rightarrow> uuid \<Rightarrow> string \<Rightarrow> gotime \<Rightarrow> uuid \<Rightarrow> auth_db \<Rightarrow> (sign_error + string) \<times> auth_db" where
  "CreateVerificationToken E newid raw now userID db =
     (case insert_token newid (token_of E raw) (now + VerificationTTL) userID db (au_verify db) of
        None \<Rightarrow> (Inl SignConstraint, db)
      | Some t \<Rightarrow> (Inr raw, db\<lparr>au_verify := t\<rparr>))"

definition VerifyEmail :: "auth_env \<Rightarrow> gotime \<Rightarrow> string \<Rightarrow> auth_db \<Rightarrow> (sign_error + uuid) \<times> auth_db" where
  "VerifyEmail E now rawToken db =
     (case consume_token (token_of E rawToken) now (au_verify db) of
        Inl e \<Rightarrow> (Inl e, db)
      | Inr (userID, t) \<Rightarrow>
          (Inr userID, set_users (by_user userID) (\<lambda>u. u\<lparr>u_EmailVerified := True\<rparr>) (db\<lparr>au_verify := t\<rparr>)))"

end
