(* ===== verification/Sign_In_Web.thy ===== *)
theory Sign_In_Web
  imports Sign_In
begin

section \<open>The handlers for signing in\<close>

text \<open>
  The middleware of \<open>auth/context.go\<close> and the handlers of \<open>internal/web/handlers\<close> that create, change or end a
  session: \<open>auth.go\<close>, \<open>mfa.go\<close>, \<open>magiclink.go\<close>, \<open>verification.go\<close>, \<open>oauth.go\<close>, \<open>staff_sso.go\<close>, impersonation of
  \<open>admin.go\<close>, switching accounts and accepting invitations of \<open>account.go\<close>. A handler gives its response,
  what it does to the session cookie, the mails it sends, and the new tables; \<open>serve\<close> is one request
  through the middleware and the gates of its route. Requests that the CSRF check or a rate limiter refuses do not
  reach these handlers. A panic becomes status 500, as the recovering middleware makes it.
\<close>

subsection \<open>What handlers are given\<close>

text \<open>
  The identity providers, the decoding of their state cookie and the payment provider are
  parameters: \<open>web_identity\<close> answers a code with an address and whether it is verified, \<open>web_customer\<close> gives the new
  customer's identifier (\<open>None\<close> when billing is off or fails).
\<close>

record web_env =
  web_auth :: auth_env
  web_baseURL :: string
  web_staffEmails :: "string list"
  web_selfServe :: bool
  web_providers :: "string list"
  web_decodeState :: "string \<Rightarrow> (string \<times> string) option"
  web_identity :: "string \<Rightarrow> string \<Rightarrow> string \<Rightarrow> (string \<times> bool) option"
  web_customer :: "uuid \<Rightarrow> string \<Rightarrow> string \<Rightarrow> string option"

abbreviation web_text :: "web_env \<Rightarrow> text_lib" where
  "web_text W \<equiv> env_text (web_auth W)"

record fresh =
  fr_id :: "nat \<Rightarrow> uuid"
  fr_token :: "nat \<Rightarrow> string"
  fr_codes :: "string list"
  fr_salt :: bytes

datatype cookie = KeepCookie | SetCookie string | ClearCookie

type_synonym reply = "response \<times> cookie \<times> mail_msg list"

abbreviation plain_reply :: "response \<Rightarrow> reply" where
  "plain_reply resp \<equiv> (resp, KeepCookie, [])"

definition audit_web :: "web_env \<Rightarrow> gotime \<Rightarrow> audit_event \<Rightarrow> auth_db \<Rightarrow> auth_db" where
  "audit_web W now e db = db\<lparr>au_acct := audit_db (web_text W) now e (au_acct db)\<rparr>"

definition req_event :: "request \<Rightarrow> uuid option \<Rightarrow> uuid option \<Rightarrow> string \<Rightarrow> string \<Rightarrow> string \<Rightarrow> (string \<times> string) list \<Rightarrow> audit_event" where
  "req_event r acct actor action kind target meta =
     \<lparr>aud_AccountID = acct, aud_ActorID = actor, aud_Action = action, aud_TargetKind = kind, aud_TargetID = target,
      aud_IP = ClientIP r, aud_UserAgent = rq_UserAgent r, aud_Metadata = meta\<rparr>"

definition bare_event :: "uuid option \<Rightarrow> uuid option \<Rightarrow> string \<Rightarrow> string \<Rightarrow> string \<Rightarrow> (string \<times> string) list \<Rightarrow> audit_event" where
  "bare_event acct actor action kind target meta =
     \<lparr>aud_AccountID = acct, aud_ActorID = actor, aud_Action = action, aud_TargetKind = kind, aud_TargetID = target,
      aud_IP = [], aud_UserAgent = [], aud_Metadata = meta\<rparr>"

definition on_acct :: "(account_db \<Rightarrow> 'a \<times> account_db) \<Rightarrow> auth_db \<Rightarrow> 'a \<times> auth_db" where
  "on_acct f db = (case f (au_acct db) of (x, a) \<Rightarrow> (x, db\<lparr>au_acct := a\<rparr>))"

subsection \<open>Redirects and accounts\<close>

definition safeNext :: "string \<Rightarrow> string" where
  "safeNext nxt = (if nxt = [] \<or> take 1 nxt \<noteq> ''/'' \<or> take 2 nxt = ''//'' then [] else nxt)"

definition redirectTarget :: "string \<Rightarrow> string" where
  "redirectTarget nxt = (if nxt = [] then ''/dashboard'' else nxt)"

definition query_char :: "char \<Rightarrow> string" where
  "query_char c =
     (let n = (of_char c :: nat) in
      if (65 \<le> n \<and> n \<le> 90) \<or> (97 \<le> n \<and> n \<le> 122) \<or> (48 \<le> n \<and> n \<le> 57) \<or> c \<in> set ''-_.~'' then [c]
      else if c = CHR '' '' then ''+''
      else CHR ''%'' # upper_ascii (hex_byte c))"

definition QueryEscape :: "string \<Rightarrow> string" where
  "QueryEscape s = concat (map query_char s)"

definition pickDefaultAccount :: "uuid \<Rightarrow> account_db \<Rightarrow> uuid" where
  "pickDefaultAccount userID db =
     (case ListAccountsForUser userID db of
        [] \<Rightarrow> 0
      | (a, r) # rest \<Rightarrow>
          (case find (\<lambda>(a, r). r = RoleOwner) ((a, r) # rest) of None \<Rightarrow> acct_ID a | Some (b, _) \<Rightarrow> acct_ID b))"

definition nilIfZero :: "uuid \<Rightarrow> uuid option" where
  "nilIfZero i = (if i = 0 then None else Some i)"

definition insertUser ::
    "auth_env \<Rightarrow> uuid \<Rightarrow> gotime \<Rightarrow> string \<Rightarrow> string \<Rightarrow> bool \<Rightarrow> auth_db \<Rightarrow> (bool + uuid) \<times> auth_db" where
  "insertUser E newid now email hash verified db =
     (if \<not> pg_text_ok email \<or> \<not> pg_text_ok hash \<or> ad_user_exists newid (au_acct db) then (Inl False, db)
      else if \<exists>u \<in> set (au_users db). same_email E (u_Email u) email \<and> u_deleted_at u = None then (Inl True, db)
      else (Inr newid, db\<lparr>au_acct := (au_acct db)\<lparr>ad_users := au_users db @
        [\<lparr>u_ID = newid, u_Email = email, u_EmailVerified = verified, u_PasswordHash = hash, u_IsStaff = False, u_MFAEnabled = False,
          u_TotpSecret = None, u_LastCounter = None, u_CreatedAt = now, u_deleted_at = None\<rparr>]\<rparr>\<rparr>))"

definition user_by_email :: "auth_env \<Rightarrow> string \<Rightarrow> auth_db \<Rightarrow> user_row option" where
  "user_by_email E email db =
     (if pg_text_ok email then sql_first (\<lambda>u. same_email E (u_Email u) email \<and> u_deleted_at u = None) (au_users db) else None)"

subsection \<open>Middleware\<close>

record Impersonation =
  im_StaffUserID :: uuid
  im_StaffEmail :: string

record auth_ctx =
  ac_user :: "User option"
  ac_staffVerifiedAt :: "gotime option"
  ac_imp :: "Impersonation option"
  ac_account :: "Account option"
  ac_member :: "Membership option"

definition no_ctx :: auth_ctx where
  "no_ctx = \<lparr>ac_user = None, ac_staffVerifiedAt = None, ac_imp = None, ac_account = None, ac_member = None\<rparr>"

definition LoadUser :: "auth_env \<Rightarrow> gotime \<Rightarrow> request \<Rightarrow> auth_db \<Rightarrow> auth_ctx \<times> auth_db" where
  "LoadUser E now r db =
     (case Lookup E now r db of
        (Inl _, db') \<Rightarrow> (no_ctx, db')
      | (Inr (u, sess), db') \<Rightarrow>
          if se_MFAPending sess then (no_ctx, db')
          else (no_ctx\<lparr>ac_user := Some u, ac_staffVerifiedAt := se_StaffVerifiedAt sess,
            ac_imp := (case se_ImpersonatorID sess of
               None \<Rightarrow> None
             | Some i \<Rightarrow> (case loadUser i db' of Inl _ \<Rightarrow> None | Inr s \<Rightarrow> Some \<lparr>im_StaffUserID = us_ID s, im_StaffEmail = us_Email s\<rparr>))\<rparr>, db'))"

definition LoadCurrentAccount :: "auth_env \<Rightarrow> request \<Rightarrow> auth_ctx \<Rightarrow> auth_db \<Rightarrow> auth_ctx \<times> auth_db" where
  "LoadCurrentAccount E r ctx db =
     (case ac_user ctx of
        None \<Rightarrow> (ctx, db)
      | Some u \<Rightarrow>
          (let cur = (case CurrentAccountID E r db of Inl _ \<Rightarrow> 0 | Inr i \<Rightarrow> i);
               cur = (if cur \<noteq> 0 \<and> isl (GetMembership cur (us_ID u) (au_acct db)) then 0 else cur);
               (cur, db) = (if cur \<noteq> 0 then (cur, db)
                 else (case ListAccountsForUser (us_ID u) (au_acct db) of
                         [] \<Rightarrow> (0, db)
                       | (a, _) # _ \<Rightarrow> (acct_ID a, snd (SetCurrentAccount E r (acct_ID a) db))))
           in if cur = 0 then (ctx, db)
              else (case (GetAccount cur (au_acct db), GetMembership cur (us_ID u) (au_acct db)) of
                      (Inr acct, Inr m) \<Rightarrow> (ctx\<lparr>ac_account := Some acct, ac_member := Some m\<rparr>, db)
                    | _ \<Rightarrow> (ctx, db))))"

definition staffSSOWindow :: duration where "staffSSOWindow = 3600 * nsSecond"

definition staffSSOFresh :: "gotime option \<Rightarrow> gotime \<Rightarrow> bool" where
  "staffSSOFresh verifiedAt now = (case verifiedAt of None \<Rightarrow> False | Some t \<Rightarrow> time_Sub now t < staffSSOWindow)"

text \<open>A gate gives the response it refuses with, or \<open>None\<close> to pass the request on.\<close>

definition RequireUser :: "auth_ctx \<Rightarrow> response option" where
  "RequireUser ctx = (if ac_user ctx = None then Some (SeeOther ''/login'') else None)"

definition RequireStaff :: "auth_ctx \<Rightarrow> response option" where
  "RequireStaff ctx = (case ac_user ctx of None \<Rightarrow> Some (HttpStatus 404) | Some u \<Rightarrow> if us_IsStaff u then None else Some (HttpStatus 404))"

definition RequireAccount :: "auth_ctx \<Rightarrow> response option" where
  "RequireAccount ctx = (if ac_account ctx = None then Some (HttpStatus 403) else None)"

definition requireStaffSSO :: "web_env \<Rightarrow> gotime \<Rightarrow> auth_ctx \<Rightarrow> response option" where
  "requireStaffSSO W now ctx =
     (case RequireStaff ctx of
        Some resp \<Rightarrow> Some resp
      | None \<Rightarrow>
          if ''google'' \<notin> set (web_providers W) then None
          else if staffSSOFresh (ac_staffVerifiedAt ctx) now then None
          else Some (SeeOther ''/admin/sso''))"

subsection \<open>Passwords: sign-in, sign-up, sign-out\<close>

text \<open>The last part of every way of signing in: a pending session for a user with a second factor, else a full one.\<close>

definition finish_login ::
    "web_env \<Rightarrow> fresh \<Rightarrow> gotime \<Rightarrow> request \<Rightarrow> uuid \<Rightarrow> bool \<Rightarrow> string \<Rightarrow> string \<Rightarrow> (string \<times> string) list \<Rightarrow> auth_db \<Rightarrow> reply \<times> auth_db" where
  "finish_login W fr now r i mfaEnabled mfaDest dest meta db =
     (if mfaEnabled then
        (case CreatePending (web_auth W) (fr_id fr 0) (fr_token fr 0) now i db of
           (Inl _, db') \<Rightarrow> (plain_reply (HttpStatus 500), db')
         | (Inr raw, db') \<Rightarrow> ((SeeOther mfaDest, SetCookie raw, []), db'))
      else
        (let currentAccount = pickDefaultAccount i (au_acct db) in
         case Create_session (web_auth W) (fr_id fr 0) (fr_token fr 0) now i currentAccount db of
           (Inl _, db') \<Rightarrow> (plain_reply (HttpStatus 500), db')
         | (Inr raw, db') \<Rightarrow>
             ((SeeOther dest, SetCookie raw, []),
              audit_web W now (req_event r (nilIfZero currentAccount) (Some i) ''login.succeeded'' [] [] meta) db')))"

definition loginSubmit :: "web_env \<Rightarrow> fresh \<Rightarrow> gotime \<Rightarrow> request \<Rightarrow> form \<Rightarrow> auth_db \<Rightarrow> reply \<times> auth_db" where
  "loginSubmit W fr now r frm db =
     (case frm of
        None \<Rightarrow> (plain_reply (HttpStatus 400), db)
      | Some f \<Rightarrow>
          (let E = web_auth W;
               email = TrimSpace (tx_ToLower (web_text W) (f ''email''));
               password = f ''password'';
               nxt = safeNext (f ''next'');
               clientIP = ClientIP r
           in if email = [] \<or> password = [] then (plain_reply (HttpStatus 400), db)
              else if (case Check E now email db of None \<Rightarrow> False | Some l \<Rightarrow> ls_Locked l) then (plain_reply (HttpStatus 429), db)
              else
                (case user_by_email E email db of
                   None \<Rightarrow> (plain_reply (HttpStatus 401), snd (throttle_Record E now email clientIP False db))
                 | Some u \<Rightarrow>
                     (case VerifyPassword (env_argon E) password (u_PasswordHash u) of
                        PwPanic \<Rightarrow> (plain_reply (HttpStatus 500), db)
                      | PwOK \<Rightarrow>
                          finish_login W fr now r (u_ID u) (u_MFAEnabled u)
                            (''/login/mfa'' @ (if nxt \<noteq> [] then ''?next='' @ QueryEscape nxt else [])) (redirectTarget nxt) []
                            (snd (throttle_Record E now email clientIP True db))
                      | _ \<Rightarrow>
                          (plain_reply (HttpStatus 401),
                           audit_web W now (req_event r None None ''login.failed'' [] (tx_uuid (web_text W) (u_ID u)) [])
                             (snd (throttle_Record E now email clientIP False db)))))))"

definition set_customer :: "web_env \<Rightarrow> Account \<Rightarrow> string \<Rightarrow> auth_db \<Rightarrow> auth_db" where
  "set_customer W acct email db =
     (case web_customer W (acct_ID acct) email (acct_Name acct) of
        None \<Rightarrow> db
      | Some c \<Rightarrow> if c = [] then db else snd (on_acct (SetStripeCustomerID (acct_ID acct) c) db))"

definition promote_staff :: "web_env \<Rightarrow> string \<Rightarrow> uuid \<Rightarrow> auth_db \<Rightarrow> auth_db" where
  "promote_staff W email i db =
     (if email \<in> set (web_staffEmails W) then set_users (by_user i) (\<lambda>u. u\<lparr>u_IsStaff := True\<rparr>) db else db)"

definition signup_finish ::
    "web_env \<Rightarrow> fresh \<Rightarrow> gotime \<Rightarrow> request \<Rightarrow> string \<Rightarrow> string \<Rightarrow> uuid \<Rightarrow> Account \<Rightarrow> auth_db \<Rightarrow> reply \<times> auth_db" where
  "signup_finish W fr now r nxt email i acct db =
     (case Create_session (web_auth W) (fr_id fr 2) (fr_token fr 0) now i (acct_ID acct) db of
        (Inl _, db) \<Rightarrow> (plain_reply (HttpStatus 500), db)
      | (Inr raw, db) \<Rightarrow>
          (let db = audit_web W now (req_event r (Some (acct_ID acct)) (Some i) ''user.signed_up'' [] [] []) db
           in case CreateVerificationToken (web_auth W) (fr_id fr 3) (fr_token fr 1) now i db of
                (Inl _, db) \<Rightarrow>
                  ((SeeOther (redirectTarget nxt), SetCookie raw, [WelcomeMessage email (acct_Name acct)]), db)
              | (Inr token, db) \<Rightarrow>
                  ((SeeOther (redirectTarget nxt), SetCookie raw, [WelcomeMessage email (acct_Name acct),
                     VerifyEmailMessage email (absoluteURL (web_text W) (web_baseURL W) r (''/verify-email/'' @ token))]), db)))"

definition signup_user :: "web_env \<Rightarrow> fresh \<Rightarrow> gotime \<Rightarrow> request \<Rightarrow> string \<Rightarrow> string \<Rightarrow> uuid \<Rightarrow> auth_db \<Rightarrow> reply \<times> auth_db" where
  "signup_user W fr now r nxt email i db =
     (case on_acct (CreatePersonalAccount (web_text W) (fr_id fr 1) now i email) (promote_staff W email i db) of
        (Inl _, db) \<Rightarrow> (plain_reply (HttpStatus 500), db)
      | (Inr acct, db) \<Rightarrow>
          signup_finish W fr now r nxt email i acct
            (set_customer W acct email
              (audit_web W now (bare_event (Some (acct_ID acct)) (Some i) ''account.created'' ''account''
                 (tx_uuid (web_text W) (acct_ID acct)) [(''kind'', ''personal''), (''name'', acct_Name acct)]) db)))"

definition signupSubmit :: "web_env \<Rightarrow> fresh \<Rightarrow> gotime \<Rightarrow> request \<Rightarrow> form \<Rightarrow> auth_db \<Rightarrow> reply \<times> auth_db" where
  "signupSubmit W fr now r frm db =
     (if \<not> web_selfServe W then (plain_reply (HttpStatus 403), db)
      else
        (case frm of
           None \<Rightarrow> (plain_reply (HttpStatus 400), db)
         | Some f \<Rightarrow>
             (let E = web_auth W;
                  email = TrimSpace (tx_ToLower (web_text W) (f ''email''));
                  password = f ''password'';
                  nxt = safeNext (f ''next'')
              in if email = [] \<or> CHR ''@'' \<notin> set email then (plain_reply (HttpStatus 400), db)
                 else if length password < 12 then (plain_reply (HttpStatus 400), db)
                 else
                   (case insertUser E (fr_id fr 0) now email (HashPassword (env_argon E) (fr_salt fr) password) False db of
                      (Inl taken, db) \<Rightarrow> (plain_reply (HttpStatus (if taken then 409 else 500)), db)
                    | (Inr i, db) \<Rightarrow>
                        signup_user W fr now r nxt email i db))))"

definition logout :: "web_env \<Rightarrow> gotime \<Rightarrow> request \<Rightarrow> auth_ctx \<Rightarrow> auth_db \<Rightarrow> reply \<times> auth_db" where
  "logout W now r ctx db =
     ((SeeOther ''/login'', ClearCookie, []),
      Destroy (web_auth W) r
        (case ac_user ctx of
           None \<Rightarrow> db
         | Some u \<Rightarrow> audit_web W now (req_event r (map_option acct_ID (ac_account ctx)) (Some (us_ID u)) ''logout'' [] [] []) db))"

subsection \<open>The second factor\<close>

definition mfaEnable :: "web_env \<Rightarrow> fresh \<Rightarrow> gotime \<Rightarrow> request \<Rightarrow> User \<Rightarrow> form \<Rightarrow> auth_db \<Rightarrow> reply \<times> auth_db" where
  "mfaEnable W fr now r u frm db =
     (if us_MFAEnabled u then (plain_reply (SeeOther ''/account/mfa''), db)
      else
        (case frm of
           None \<Rightarrow> (plain_reply (HttpStatus 400), db)
         | Some f \<Rightarrow>
             (let E = web_auth W; secret = TrimSpace (f ''secret''); code = TrimSpace (f ''code'') in
              case VerifyTOTPWithCounter (env_hmac E) secret code now of
                (confirmCounter, ok) \<Rightarrow>
                  if secret = [] \<or> \<not> ok then (plain_reply (HttpStatus 400), db)
                  else
                    (case ReplaceRecoveryCodes E (us_ID u) (fr_codes fr) db of
                       (Inl _, db) \<Rightarrow> (plain_reply (HttpStatus 500), db)
                     | (Inr _, db) \<Rightarrow>
                         (case EnableMFA (us_ID u) secret confirmCounter db of
                            (Inl _, db) \<Rightarrow> (plain_reply (HttpStatus 500), db)
                          | (Inr _, db) \<Rightarrow>
                              (plain_reply (HttpStatus 200),
                               audit_web W now (req_event r None (Some (us_ID u)) ''mfa.enabled'' ''user'' (tx_uuid (web_text W) (us_ID u)) []) db))))))"

definition mfaDisable :: "web_env \<Rightarrow> gotime \<Rightarrow> request \<Rightarrow> User \<Rightarrow> auth_db \<Rightarrow> reply \<times> auth_db" where
  "mfaDisable W now r u db =
     (plain_reply (SeeOther ''/account/mfa''),
      audit_web W now (req_event r None (Some (us_ID u)) ''mfa.disabled'' ''user'' (tx_uuid (web_text W) (us_ID u)) []) (DisableMFA (us_ID u) db))"

text \<open>The code is tried as a one-time code first, then as a recovery code.\<close>

definition second_factor_ok :: "auth_env \<Rightarrow> gotime \<Rightarrow> uuid \<Rightarrow> string \<Rightarrow> auth_db \<Rightarrow> (sign_error + bool) \<times> auth_db" where
  "second_factor_ok E now userID code db =
     (case VerifyAndConsumeTOTP E now userID code db of
        (Inl e, db) \<Rightarrow> (Inl e, db)
      | (Inr ok, db) \<Rightarrow> if ok then (Inr True, db) else (case ConsumeRecoveryCode E now userID code db of (ok, db) \<Rightarrow> (Inr ok, db)))"

definition mfaChallengeSubmit :: "web_env \<Rightarrow> fresh \<Rightarrow> gotime \<Rightarrow> request \<Rightarrow> form \<Rightarrow> auth_db \<Rightarrow> reply \<times> auth_db" where
  "mfaChallengeSubmit W fr now r frm db =
     (let E = web_auth W in
      case PendingMFAUser E now r db of
        Inl _ \<Rightarrow> (plain_reply (SeeOther ''/login''), db)
      | Inr u \<Rightarrow>
          (case frm of
             None \<Rightarrow> (plain_reply (HttpStatus 400), db)
           | Some f \<Rightarrow>
               (case second_factor_ok E now (us_ID u) (TrimSpace (f ''code'')) db of
                  (Inl _, db) \<Rightarrow> (plain_reply (HttpStatus 500), db)
                | (Inr ok, db) \<Rightarrow>
                    if \<not> ok then (plain_reply (HttpStatus 401), db)
                    else
                      (case CompleteMFA E (fr_id fr 0) (fr_token fr 0) now r db of
                         (Inl _, db) \<Rightarrow> (plain_reply (SeeOther ''/login''), db)
                       | (Inr raw, db) \<Rightarrow>
                           ((SeeOther (redirectTarget (safeNext (f ''next''))), SetCookie raw, []),
                            audit_web W now (req_event r None (Some (us_ID u)) ''login.succeeded'' [] [] []) db)))))"

subsection \<open>One-time links\<close>

text \<open>
  \<open>allowed\<close> is the answer of the rate limiter for the address. The token is made in the background; here it
  is made at once.
\<close>

definition magicLinkRequest :: "web_env \<Rightarrow> fresh \<Rightarrow> gotime \<Rightarrow> request \<Rightarrow> bool \<Rightarrow> form \<Rightarrow> auth_db \<Rightarrow> reply \<times> auth_db" where
  "magicLinkRequest W fr now r allowed frm db =
     (case frm of
        None \<Rightarrow> (plain_reply (HttpStatus 400), db)
      | Some f \<Rightarrow>
          (let email = TrimSpace (tx_ToLower (web_text W) (f ''email'')) in
           if email = [] \<or> CHR ''@'' \<notin> set email then (plain_reply (HttpStatus 400), db)
           else if \<not> allowed then (plain_reply (HttpStatus 200), db)
           else
             (case user_by_email (web_auth W) email db of
                None \<Rightarrow> (plain_reply (HttpStatus 200), db)
              | Some u \<Rightarrow>
                  (case CreateMagicLinkToken (web_auth W) (fr_id fr 0) (fr_token fr 0) now (u_ID u) db of
                     (Inl _, db) \<Rightarrow> (plain_reply (HttpStatus 200), db)
                   | (Inr token, db) \<Rightarrow>
                       ((HttpStatus 200, KeepCookie,
                         [MagicLinkMessage email (absoluteURL (web_text W) (web_baseURL W) r (''/login/magic/'' @ token))]), db)))))"

definition magicLinkConsume :: "web_env \<Rightarrow> fresh \<Rightarrow> gotime \<Rightarrow> request \<Rightarrow> auth_ctx \<Rightarrow> string \<Rightarrow> auth_db \<Rightarrow> reply \<times> auth_db" where
  "magicLinkConsume W fr now r ctx token db =
     (if ac_user ctx \<noteq> None then (plain_reply (SeeOther ''/dashboard''), db)
      else
        (case ConsumeMagicLink (web_auth W) now token db of
           (Inl _, db) \<Rightarrow> (plain_reply (HttpStatus 400), db)
         | (Inr userID, db) \<Rightarrow>
             (case loadUser userID db of
                Inl _ \<Rightarrow> (plain_reply (HttpStatus 500), db)
              | Inr u \<Rightarrow> finish_login W fr now r userID (us_MFAEnabled u) ''/login/mfa'' ''/dashboard'' [] db)))"

definition verifyEmail :: "web_env \<Rightarrow> gotime \<Rightarrow> request \<Rightarrow> string \<Rightarrow> auth_db \<Rightarrow> reply \<times> auth_db" where
  "verifyEmail W now r token db =
     (case VerifyEmail (web_auth W) now token db of
        (Inl _, db) \<Rightarrow> (plain_reply (HttpStatus 400), db)
      | (Inr userID, db) \<Rightarrow>
          (plain_reply (HttpStatus 200),
           audit_web W now (req_event r None (Some userID) ''email.verified'' ''user'' (tx_uuid (web_text W) userID) []) db))"

definition verifyEmailResend :: "web_env \<Rightarrow> fresh \<Rightarrow> gotime \<Rightarrow> request \<Rightarrow> User \<Rightarrow> auth_db \<Rightarrow> reply \<times> auth_db" where
  "verifyEmailResend W fr now r u db =
     (if us_EmailVerified u then (plain_reply (HttpStatus 200), db)
      else
        (case CreateVerificationToken (web_auth W) (fr_id fr 0) (fr_token fr 0) now (us_ID u) db of
           (Inl _, db) \<Rightarrow> (plain_reply (HttpStatus 500), db)
         | (Inr token, db) \<Rightarrow>
             ((HttpStatus 200, KeepCookie,
               [VerifyEmailMessage (us_Email u) (absoluteURL (web_text W) (web_baseURL W) r (''/verify-email/'' @ token))]), db)))"

subsection \<open>Identity providers\<close>

record oauth_req =
  oq_provider :: string
  oq_staffCookie :: "string option"
  oq_stateCookie :: "string option"
  oq_staffStateCookie :: "string option"
  oq_state :: string
  oq_code :: string

definition completeStaffSSO :: "web_env \<Rightarrow> gotime \<Rightarrow> request \<Rightarrow> auth_ctx \<Rightarrow> string \<Rightarrow> string \<Rightarrow> auth_db \<Rightarrow> reply \<times> auth_db" where
  "completeStaffSSO W now r ctx provName email db =
     (let ssoEmail = tx_ToLower (web_text W) (TrimSpace email) in
      case ac_user ctx of
        None \<Rightarrow> (plain_reply (HttpStatus 403), db)
      | Some u \<Rightarrow>
          if \<not> tx_EqualFold (web_text W) (us_Email u) ssoEmail \<or> ssoEmail \<notin> set (web_staffEmails W) then (plain_reply (HttpStatus 403), db)
          else
            (case loadUser (us_ID u) db of
               Inl _ \<Rightarrow> (plain_reply (HttpStatus 403), db)
             | Inr cur \<Rightarrow>
                 if \<not> us_IsStaff cur then (plain_reply (HttpStatus 403), db)
                 else
                   (case MarkStaffVerified (web_auth W) now r db of
                      (Inl _, db) \<Rightarrow> (plain_reply (HttpStatus 500), db)
                    | (Inr _, db) \<Rightarrow>
                        (plain_reply (SeeOther ''/admin''),
                         audit_web W now (req_event r None (Some (us_ID u)) ''staff.sso_verified'' [] [] [(''provider'', provName)]) db))))"

datatype oauth_user = OauthUser uuid bool | SignupDisabled | OauthFailed

definition findOrCreateOAuthUser :: "web_env \<Rightarrow> fresh \<Rightarrow> gotime \<Rightarrow> string \<Rightarrow> bool \<Rightarrow> auth_db \<Rightarrow> oauth_user \<times> auth_db" where
  "findOrCreateOAuthUser W fr now email signupAllowed db =
     (let E = web_auth W in
      if \<not> pg_text_ok email then (OauthFailed, db)
      else
        (case user_by_email E email db of
           Some u \<Rightarrow> (OauthUser (u_ID u) (u_MFAEnabled u), db)
         | None \<Rightarrow>
             if \<not> signupAllowed then (SignupDisabled, db)
             else
               (case insertUser E (fr_id fr 1) now email (HashPassword (env_argon E) (fr_salt fr) (fr_token fr 1)) True db of
                  (Inl _, db) \<Rightarrow> (OauthFailed, db)
                | (Inr i, db) \<Rightarrow>
                    (case on_acct (CreatePersonalAccount (web_text W) (fr_id fr 2) now i email) (promote_staff W email i db) of
                       (Inl _, db) \<Rightarrow> (OauthFailed, db)
                     | (Inr acct, db) \<Rightarrow>
                         (OauthUser i False,
                          set_customer W acct email
                            (audit_web W now (bare_event (Some (acct_ID acct)) (Some i) ''user.signed_up'' ''account''
                              (tx_uuid (web_text W) (acct_ID acct)) [(''method'', ''oauth'')]) db))))))"

definition oauth_sign_in :: "web_env \<Rightarrow> fresh \<Rightarrow> gotime \<Rightarrow> request \<Rightarrow> string \<Rightarrow> string \<Rightarrow> auth_db \<Rightarrow> reply \<times> auth_db" where
  "oauth_sign_in W fr now r provName email db =
     (case findOrCreateOAuthUser W fr now (tx_ToLower (web_text W) (TrimSpace email)) (web_selfServe W) db of
        (SignupDisabled, db) \<Rightarrow> (plain_reply (HttpStatus 403), db)
      | (OauthFailed, db) \<Rightarrow> (plain_reply (HttpStatus 500), db)
      | (OauthUser i mfaEnabled, db) \<Rightarrow>
          finish_login W fr now r i mfaEnabled ''/login/mfa'' ''/dashboard'' [(''method'', ''oauth''), (''provider'', provName)] db)"

definition oauthCallback :: "web_env \<Rightarrow> fresh \<Rightarrow> gotime \<Rightarrow> request \<Rightarrow> auth_ctx \<Rightarrow> oauth_req \<Rightarrow> auth_db \<Rightarrow> reply \<times> auth_db" where
  "oauthCallback W fr now r ctx q db =
     (if oq_provider q \<notin> set (web_providers W) then (plain_reply (HttpStatus 404), db)
      else
        (let isStaffFlow = (oq_staffCookie q = Some ''1'');
             ck = coalesce (if isStaffFlow then oq_staffStateCookie q else oq_stateCookie q) []
         in if ck = [] \<or> oq_state q = [] then (plain_reply (HttpStatus 400), db)
            else
              (case web_decodeState W ck of
                 None \<Rightarrow> (plain_reply (HttpStatus 400), db)
               | Some (state, verifier) \<Rightarrow>
                   if state = [] \<or> verifier = [] \<or> state \<noteq> oq_state q then (plain_reply (HttpStatus 400), db)
                   else if oq_code q = [] then (plain_reply (HttpStatus 400), db)
                   else
                     (case web_identity W (oq_provider q) (oq_code q) verifier of
                        None \<Rightarrow> (plain_reply (HttpStatus 502), db)
                      | Some (email, verified) \<Rightarrow>
                          if \<not> verified then (plain_reply (HttpStatus 403), db)
                          else if isStaffFlow then completeStaffSSO W now r ctx (oq_provider q) email db
                          else if ac_user ctx \<noteq> None then (plain_reply (SeeOther ''/dashboard''), db)
                          else
                            oauth_sign_in W fr now r (oq_provider q) email db))))"

subsection \<open>Impersonation, switching accounts, accepting invitations\<close>

definition adminImpersonate :: "web_env \<Rightarrow> gotime \<Rightarrow> request \<Rightarrow> User \<Rightarrow> string \<Rightarrow> form \<Rightarrow> auth_db \<Rightarrow> reply \<times> auth_db" where
  "adminImpersonate W now r staff i frm db =
     (case tx_parse_uuid (web_text W) i of
        None \<Rightarrow> (plain_reply (HttpStatus 404), db)
      | Some userID \<Rightarrow>
          (case frm of
             None \<Rightarrow> (plain_reply (HttpStatus 400), db)
           | Some f \<Rightarrow>
               (let reason = TrimSpace (f ''reason'') in
                if length reason < 3 then (plain_reply (HttpStatus 400), db)
                else if userID = us_ID staff then (plain_reply (HttpStatus 400), db)
                else
                  (case StartImpersonation (web_auth W) r (us_ID staff) userID db of
                     (Inl _, db) \<Rightarrow> (plain_reply (HttpStatus 409), db)
                   | (Inr _, db) \<Rightarrow>
                       (plain_reply (SeeOther ''/dashboard''),
                        audit_web W now (req_event r None (Some (us_ID staff)) ''staff.impersonation_started'' ''user''
                          (tx_uuid (web_text W) userID) [(''reason'', reason)]) db)))))"

definition impersonateStop :: "web_env \<Rightarrow> gotime \<Rightarrow> request \<Rightarrow> auth_ctx \<Rightarrow> auth_db \<Rightarrow> reply \<times> auth_db" where
  "impersonateStop W now r ctx db =
     (case ac_imp ctx of
        None \<Rightarrow> (plain_reply (SeeOther ''/dashboard''), db)
      | Some imp \<Rightarrow>
          (case StopImpersonation (web_auth W) r db of
             (Inl _, db) \<Rightarrow> (plain_reply (HttpStatus 500), db)
           | (Inr _, db) \<Rightarrow>
               (plain_reply (SeeOther ''/admin''),
                audit_web W now (req_event r None (Some (im_StaffUserID imp)) ''staff.impersonation_stopped'' [] [] []) db)))"

definition accountSwitch :: "web_env \<Rightarrow> gotime \<Rightarrow> request \<Rightarrow> User \<Rightarrow> form \<Rightarrow> auth_db \<Rightarrow> reply \<times> auth_db" where
  "accountSwitch W now r u frm db =
     (case frm of
        None \<Rightarrow> (plain_reply (HttpStatus 400), db)
      | Some f \<Rightarrow>
          (case tx_parse_uuid (web_text W) (f ''account_id'') of
             None \<Rightarrow> (plain_reply (HttpStatus 400), db)
           | Some target \<Rightarrow>
               if isl (GetMembership target (us_ID u) (au_acct db)) then (plain_reply (HttpStatus 403), db)
               else
                 (case SetCurrentAccount (web_auth W) r target db of
                    (Inl _, db) \<Rightarrow> (plain_reply (HttpStatus 500), db)
                  | (Inr _, db) \<Rightarrow>
                      (plain_reply (SeeOther (redirectTarget (safeNext (f ''next'')))),
                       audit_web W now (bare_event (Some target) (Some (us_ID u)) ''account.switched'' ''account''
                         (tx_uuid (web_text W) target) []) db))))"

definition invitationAccept :: "web_env \<Rightarrow> gotime \<Rightarrow> request \<Rightarrow> auth_ctx \<Rightarrow> string \<Rightarrow> auth_db \<Rightarrow> reply \<times> auth_db" where
  "invitationAccept W now r ctx token db =
     (case ac_user ctx of
        None \<Rightarrow> (plain_reply (SeeOther (''/signup?next=/invitations/'' @ token)), db)
      | Some u \<Rightarrow>
          (case on_acct (AcceptInvitation (web_text W) now token (us_ID u) (us_Email u)) db of
             (Inl e, db) \<Rightarrow>
               (plain_reply (HttpStatus (if e = AcctNotFound then 404 else if e = InvitationGone then 200
                  else if e = InvitationWrongEmail then 403 else 500)), db)
           | (Inr i, db) \<Rightarrow>
               (let db = audit_web W now (bare_event (Some (iv_AccountID i)) (Some (us_ID u)) ''account.member_added'' ''user''
                      (tx_uuid (web_text W) (us_ID u)) [(''role'', iv_Role i), (''via'', ''invitation'')]) db
                in case SetCurrentAccount (web_auth W) r (iv_AccountID i) db of
                     (Inl _, db) \<Rightarrow> (plain_reply (HttpStatus 500), db)
                   | (Inr _, db) \<Rightarrow> (plain_reply (SeeOther ''/dashboard''), db))))"

subsection \<open>One request\<close>

datatype route =
    Login form
  | Signup form
  | Logout
  | MfaChallenge form
  | MagicRequest bool form
  | MagicConsume string
  | OauthCallback oauth_req
  | VerifyLink string
  | VerifyResend
  | MfaEnable form
  | MfaDisable
  | Impersonate string form
  | ImpersonateStop
  | SwitchAccount form
  | AcceptInvite string
  | OtherPage

definition with_user :: "response option list \<Rightarrow> auth_ctx \<Rightarrow> (User \<Rightarrow> auth_db \<Rightarrow> reply \<times> auth_db) \<Rightarrow> auth_db \<Rightarrow> reply \<times> auth_db" where
  "with_user gates ctx h db =
     (case find (\<lambda>g. g \<noteq> None) gates of
        Some (Some resp) \<Rightarrow> (plain_reply resp, db)
      | _ \<Rightarrow> (case ac_user ctx of None \<Rightarrow> (plain_reply (HttpStatus 500), db) | Some u \<Rightarrow> h u db))"

definition load_ctx :: "web_env \<Rightarrow> gotime \<Rightarrow> request \<Rightarrow> auth_db \<Rightarrow> auth_ctx \<times> auth_db" where
  "load_ctx W now r db = (case LoadUser (web_auth W) now r db of (ctx, db) \<Rightarrow> LoadCurrentAccount (web_auth W) r ctx db)"

definition handle :: "web_env \<Rightarrow> fresh \<Rightarrow> gotime \<Rightarrow> request \<Rightarrow> auth_ctx \<Rightarrow> route \<Rightarrow> auth_db \<Rightarrow> reply \<times> auth_db" where
  "handle W fr now r ctx rt db =
     (let app = [RequireUser ctx, RequireAccount ctx] in
      case rt of
        Login f \<Rightarrow> loginSubmit W fr now r f db
      | Signup f \<Rightarrow> signupSubmit W fr now r f db
      | Logout \<Rightarrow> logout W now r ctx db
      | MfaChallenge f \<Rightarrow> mfaChallengeSubmit W fr now r f db
      | MagicRequest ok f \<Rightarrow> magicLinkRequest W fr now r ok f db
      | MagicConsume t \<Rightarrow> magicLinkConsume W fr now r ctx t db
      | OauthCallback q \<Rightarrow> oauthCallback W fr now r ctx q db
      | VerifyLink t \<Rightarrow> verifyEmail W now r t db
      | AcceptInvite t \<Rightarrow> invitationAccept W now r ctx t db
      | VerifyResend \<Rightarrow> with_user app ctx (verifyEmailResend W fr now r) db
      | MfaEnable f \<Rightarrow> with_user app ctx (\<lambda>u. mfaEnable W fr now r u f) db
      | MfaDisable \<Rightarrow> with_user app ctx (mfaDisable W now r) db
      | SwitchAccount f \<Rightarrow> with_user app ctx (\<lambda>u. accountSwitch W now r u f) db
      | Impersonate i f \<Rightarrow> with_user [RequireUser ctx, requireStaffSSO W now ctx] ctx (\<lambda>u. adminImpersonate W now r u i f) db
      | ImpersonateStop \<Rightarrow> with_user [RequireUser ctx] ctx (\<lambda>_. impersonateStop W now r ctx) db
      | OtherPage \<Rightarrow> (plain_reply (HttpStatus 200), db))"

definition serve :: "web_env \<Rightarrow> fresh \<Rightarrow> gotime \<Rightarrow> request \<Rightarrow> route \<Rightarrow> auth_db \<Rightarrow> reply \<times> auth_db" where
  "serve W fr now r rt db = (case load_ctx W now r db of (ctx, db) \<Rightarrow> handle W fr now r ctx rt db)"

end
