(* ===== verification/Sign_In_Safety.thy ===== *)
theory Sign_In_Safety
  imports Sign_In_Web
begin

text \<open>
  Properties of signing in over theory \<open>Sign_In_Web\<close>: which requests can make a full session and for whom, that codes
  and links are used once, and what the login throttle does and does not count.
\<close>

section \<open>Who a full session belongs to\<close>

text \<open>
  The person behind a session is the impersonating member of staff, if there is one, else the
  session's user. \<open>full_sessions\<close> are the token hashes of the sessions that need no further code, with
  the person behind each.
\<close>

definition real_user :: "sess_row \<Rightarrow> uuid" where
  "real_user s = coalesce (se_ImpersonatorID s) (se_UserID s)"

definition full_sessions :: "auth_db \<Rightarrow> (string \<times> uuid) set" where
  "full_sessions db = (\<lambda>s. (se_token_hash s, real_user s)) ` {s \<in> set (au_sessions db). \<not> se_MFAPending s}"

definition sess_core :: "sess_row \<Rightarrow> string \<times> bool \<times> uuid \<times> uuid option \<times> gotime" where
  "sess_core s = (se_token_hash s, se_MFAPending s, se_UserID s, se_ImpersonatorID s, se_ExpiresAt s)"

abbreviation sess_cores :: "auth_db \<Rightarrow> (string \<times> bool \<times> uuid \<times> uuid option \<times> gotime) list" where
  "sess_cores db \<equiv> map sess_core (au_sessions db)"

lemma full_sessions_cores:
  "full_sessions db = (\<lambda>(h, p, u, i, _). (h, coalesce i u)) ` {c \<in> set (sess_cores db). \<not> fst (snd c)}"
  by (force simp: full_sessions_def sess_core_def real_user_def)

lemma full_sessions_cong: "sess_cores db = sess_cores db' \<Longrightarrow> full_sessions db = full_sessions db'"
  by (simp add: full_sessions_cores)

lemma full_sessions_same: "au_sessions db' = au_sessions db \<Longrightarrow> full_sessions db' = full_sessions db"
  by (simp add: full_sessions_def)

subsection \<open>What each operation does to the sessions\<close>

lemma audit_web_simps [simp]:
  "au_sessions (audit_web W now e db) = au_sessions db" "au_users (audit_web W now e db) = au_users db"
  "au_codes (audit_web W now e db) = au_codes db" "au_magic (audit_web W now e db) = au_magic db"
  "au_verify (audit_web W now e db) = au_verify db" "au_attempts (audit_web W now e db) = au_attempts db"
  by (simp_all add: audit_web_def)

lemma full_audit_web [simp]: "full_sessions (audit_web W now e db) = full_sessions db"
  by (simp add: full_sessions_def)

lemma set_users_simps [simp]:
  "au_sessions (set_users P f db) = au_sessions db" "au_codes (set_users P f db) = au_codes db"
  "au_magic (set_users P f db) = au_magic db" "au_verify (set_users P f db) = au_verify db"
  "au_attempts (set_users P f db) = au_attempts db" "au_users (set_users P f db) = sql_update P f (au_users db)"
  by (simp_all add: set_users_def)

lemma upd_session_cores:
  assumes "\<And>s. P s \<Longrightarrow> sess_core (f s) = sess_core s"
  shows "sess_cores (upd_session P f db) = sess_cores db"
  using assms by (simp add: upd_session_def sql_update_def)

lemma SetCurrentAccount_cores: "sess_cores (snd (SetCurrentAccount E r a db)) = sess_cores db"
  unfolding SetCurrentAccount_def by (auto simp: upd_session_cores sess_core_def split: option.split)

lemma SetCurrentAccount_rest: "\<exists>S. snd (SetCurrentAccount E r a db) = db\<lparr>au_sessions := S\<rparr>"
  unfolding SetCurrentAccount_def by (auto simp: upd_session_def split: option.split intro: exI [of _ "au_sessions db"])

lemma MarkStaffVerified_cores: "sess_cores (snd (MarkStaffVerified E now r db)) = sess_cores db"
  unfolding MarkStaffVerified_def by (auto simp: upd_session_cores sess_core_def split: option.split)

lemma full_create:
  "full_sessions (snd (create_session E newid raw now i a pending db)) \<subseteq>
    (if pending then {} else {(token_of E raw, i)}) \<union> full_sessions db"
  by (auto simp: create_session_def Let_def full_sessions_def real_user_def)

lemma full_delete: "full_sessions (db\<lparr>au_sessions := sql_delete P (au_sessions db)\<rparr>) \<subseteq> full_sessions db"
  by (auto simp: full_sessions_def sql_delete_def)

lemma full_CreatePending: "full_sessions (snd (CreatePending E newid raw now i db)) \<subseteq> full_sessions db"
  unfolding CreatePending_def using full_create [of E newid raw now i 0 True] full_delete by fastforce

lemma full_Destroy: "full_sessions (Destroy E r db) \<subseteq> full_sessions db"
  unfolding Destroy_def using full_delete by (auto split: option.split)

lemma full_StopImpersonation: "full_sessions (snd (StopImpersonation E r db)) \<subseteq> full_sessions db"
  unfolding StopImpersonation_def
  by (auto simp: Let_def upd_session_def set_sql_update full_sessions_def real_user_def image_iff split: option.split)

lemma full_StartImpersonation:
  assumes "distinct (map se_token_hash (au_sessions db))"
    and "rq_Cookie r = Some c" "s \<in> set (au_sessions db)" "se_token_hash s = token_of E c" "se_UserID s = staff"
  shows "full_sessions (snd (StartImpersonation E r staff target db)) \<subseteq> full_sessions db"
proof -
  have u: "t = s" if "t \<in> set (au_sessions db)" "by_hash (token_of E c) t" for t
    using assms(1,3,4) that by (auto simp: by_hash_def distinct_map inj_on_def)
  show ?thesis
    using assms(2,5) u
    by (auto simp: StartImpersonation_def Let_def upd_session_def set_sql_update full_sessions_def real_user_def image_iff)
qed

subsection \<open>The middleware only touches the session it looks at\<close>

definition ctx_change :: "auth_db \<Rightarrow> auth_db \<Rightarrow> bool" where
  "ctx_change db db' \<longleftrightarrow> (\<exists>S. db' = db\<lparr>au_sessions := S\<rparr> \<and> map sess_core S = sess_cores db)"

lemma ctx_change_refl [simp]: "ctx_change db db"
  unfolding ctx_change_def by (rule exI [of _ "au_sessions db"]) simp

lemma ctx_change_trans: "ctx_change db1 db2 \<Longrightarrow> ctx_change db2 db3 \<Longrightarrow> ctx_change db1 db3"
  by (force simp: ctx_change_def)

lemma ctx_change_SetCurrentAccount: "ctx_change db (snd (SetCurrentAccount E r a db))"
proof -
  obtain S where "snd (SetCurrentAccount E r a db) = db\<lparr>au_sessions := S\<rparr>" using SetCurrentAccount_rest by blast
  then show ?thesis unfolding ctx_change_def using SetCurrentAccount_cores [of E r a db] by auto
qed

lemma ctx_change_Lookup: "ctx_change db (snd (Lookup E now r db))"
proof -
  have "ctx_change db (upd_session P (\<lambda>s. s\<lparr>se_last_seen := now\<rparr>) db)" for P
    using upd_session_cores [of P "\<lambda>s. s\<lparr>se_last_seen := now\<rparr>" db]
    by (auto simp: ctx_change_def upd_session_def sess_core_def)
  then show ?thesis by (auto simp: Lookup_def Let_def split: option.split sum.split)
qed

lemma ctx_change_load: "ctx_change db (snd (load_ctx W now r db))"
proof -
  have 1: "ctx_change db (snd (LoadUser E now r db))" for E
    using ctx_change_Lookup [of db E now r] by (auto simp: LoadUser_def split: prod.split sum.split)
  have 2: "ctx_change db (snd (LoadCurrentAccount E r ctx db))" for E ctx db
    using ctx_change_SetCurrentAccount [of db E r] by (auto simp: LoadCurrentAccount_def Let_def split: option.split sum.split list.split prod.split)
  show ?thesis
    using 1 [of "web_auth W"] 2 by (auto simp: load_ctx_def split: prod.split intro: ctx_change_trans)
qed

text \<open>A user in the context comes from a full session whose token the request carries.\<close>

lemma loadUser_row:
  "loadUser i db = Inr u \<Longrightarrow> \<exists>w \<in> set (au_users db). u_ID w = i \<and> us_ID u = i \<and> us_MFAEnabled u = u_MFAEnabled w \<and> us_IsStaff u = u_IsStaff w"
  by (auto simp: loadUser_def split: option.splits dest!: sql_first_Some)

lemma ctx_user:
  assumes "ac_user (fst (load_ctx W now r db)) = Some u"
  shows "\<exists>c s. rq_Cookie r = Some c \<and> s \<in> set (au_sessions db) \<and> se_token_hash s = token_of (web_auth W) c \<and>
    \<not> se_MFAPending s \<and> se_UserID s = us_ID u"
proof -
  let ?E = "web_auth W"
  have acc: "ac_user (fst (LoadCurrentAccount E r ctx db)) = ac_user ctx" for E ctx db
    by (auto simp: LoadCurrentAccount_def Let_def split: option.split sum.split list.split prod.split)
  have "ac_user (fst (LoadUser ?E now r db)) = Some u"
    using assms acc by (simp add: load_ctx_def split: prod.splits)
  then obtain sess where l: "fst (Lookup ?E now r db) = Inr (u, sess)" "\<not> se_MFAPending sess"
    by (auto simp: LoadUser_def no_ctx_def split: prod.splits sum.splits if_splits)
  then obtain c s where cs: "rq_Cookie r = Some c" "sql_first (live_session ?E now (token_of ?E c)) (au_sessions db) = Some s"
    "sess = Session.truncate s" "us_ID u = se_UserID s"
    by (auto simp: Lookup_def Let_def split: option.splits sum.splits dest: loadUser_row)
  with l(2) sql_first_Some [OF cs(2)] show ?thesis
    by (auto simp: live_session_def by_hash_def Session.truncate_def)
qed

subsection \<open>Handlers that leave the sessions alone\<close>

lemma store_sessions [simp]:
  "au_sessions (snd (throttle_Record E now email ip ok db)) = au_sessions db"
  "au_sessions (snd (ReplaceRecoveryCodes E i codes db)) = au_sessions db"
  "au_sessions (snd (EnableMFA i secret n db)) = au_sessions db"
  "au_sessions (DisableMFA i db) = au_sessions db"
  "au_sessions (snd (VerifyAndConsumeTOTP E now i code db)) = au_sessions db"
  "au_sessions (snd (ConsumeRecoveryCode E now i code db)) = au_sessions db"
  "au_sessions (snd (CreateMagicLinkToken E newid raw now i db)) = au_sessions db"
  "au_sessions (snd (ConsumeMagicLink E now raw db)) = au_sessions db"
  "au_sessions (snd (CreateVerificationToken E newid raw now i db)) = au_sessions db"
  "au_sessions (snd (VerifyEmail E now raw db)) = au_sessions db"
  "au_sessions (snd (insertUser E newid now email hash v db)) = au_sessions db"
  "au_sessions (snd (on_acct f db)) = au_sessions db"
  "au_sessions (promote_staff W email i db) = au_sessions db"
  by (auto simp: throttle_Record_def ReplaceRecoveryCodes_def EnableMFA_def DisableMFA_def VerifyAndConsumeTOTP_def ConsumeRecoveryCode_def
      CreateMagicLinkToken_def ConsumeMagicLink_def CreateVerificationToken_def VerifyEmail_def insertUser_def on_acct_def promote_staff_def Let_def
      split: option.split sum.split prod.split)

lemma set_customer_sessions [simp]: "au_sessions (set_customer W acct email db) = au_sessions db"
  by (auto simp: set_customer_def split: option.split)

lemma store_users [simp]:
  "au_users (snd (throttle_Record E now email ip ok db)) = au_users db"
  "au_users (snd (create_session E newid raw now i a p db)) = au_users db"
  "au_users (snd (CreatePending E newid raw now i db)) = au_users db"
  "au_users (snd (CreateVerificationToken E newid raw now i db)) = au_users db"
  "au_users (snd (ConsumeMagicLink E now raw db)) = au_users db"
  by (auto simp: throttle_Record_def create_session_def CreatePending_def CreateVerificationToken_def ConsumeMagicLink_def Let_def
      split: option.split sum.split prod.split)

lemma handler_sessions [simp]:
  "au_sessions (snd (mfaEnable W fr now r u f db)) = au_sessions db"
  "au_sessions (snd (mfaDisable W now r u db)) = au_sessions db"
  "au_sessions (snd (magicLinkRequest W fr now r ok f db)) = au_sessions db"
  "au_sessions (snd (verifyEmail W now r t db)) = au_sessions db"
  "au_sessions (snd (verifyEmailResend W fr now r u db)) = au_sessions db"
  by (simp_all add: mfaEnable_def mfaDisable_def magicLinkRequest_def verifyEmail_def verifyEmailResend_def Let_def case_prod_beta
      split: option.split sum.split)

subsection \<open>Handlers that sign in\<close>

text \<open>The users with an identifier have no second factor.\<close>

definition no_mfa :: "auth_db \<Rightarrow> uuid \<Rightarrow> bool" where
  "no_mfa db i \<longleftrightarrow> (\<exists>u \<in> set (au_users db). u_ID u = i) \<and> (\<forall>u \<in> set (au_users db). u_ID u = i \<longrightarrow> \<not> u_MFAEnabled u)"

lemma no_mfa_row:
  assumes "distinct (map u_ID (au_users db))" "u \<in> set (au_users db)" "\<not> u_MFAEnabled u"
  shows "no_mfa db (u_ID u)"
  using assms by (auto simp: no_mfa_def distinct_map inj_on_def)

lemma no_mfa_cong: "au_users db' = au_users db \<Longrightarrow> no_mfa db' i = no_mfa db i"
  by (simp add: no_mfa_def)

lemma full_finish_login:
  "full_sessions (snd (finish_login W fr now r i m d1 d2 meta db)) \<subseteq>
    (if m then {} else {(token_of (web_auth W) (fr_token fr 0), i)}) \<union> full_sessions db"
  using full_CreatePending [of "web_auth W" "fr_id fr 0" "fr_token fr 0" now i db]
    full_create [of "web_auth W" "fr_id fr 0" "fr_token fr 0" now i "pickDefaultAccount i (au_acct db)" False db]
  by (auto simp: finish_login_def Create_session_def Let_def case_prod_beta split: sum.split)

lemma users_finish_login [simp]: "au_users (snd (finish_login W fr now r i m d1 d2 meta db)) = au_users db"
  by (simp add: finish_login_def Create_session_def Let_def case_prod_beta split: sum.split)

lemma user_by_email_row: "user_by_email E email db = Some u \<Longrightarrow> u \<in> set (au_users db) \<and> u_deleted_at u = None"
  by (auto simp: user_by_email_def dest: sql_first_Some split: if_splits)

lemma loginSubmit_cases:
  "(\<exists>rep db1. loginSubmit W fr now r frm db = (rep, db1) \<and> au_sessions db1 = au_sessions db) \<or>
   (\<exists>f u d1 d2. frm = Some f \<and> u \<in> set (au_users db) \<and>
      VerifyPassword (env_argon (web_auth W)) (f ''password'') (u_PasswordHash u) = PwOK \<and>
      loginSubmit W fr now r frm db = finish_login W fr now r (u_ID u) (u_MFAEnabled u) d1 d2 []
        (snd (throttle_Record (web_auth W) now (TrimSpace (tx_ToLower (web_text W) (f ''email''))) (ClientIP r) True db)))"
proof (cases "\<exists>f u. frm = Some f \<and> user_by_email (web_auth W) (TrimSpace (tx_ToLower (web_text W) (f ''email''))) db = Some u \<and>
    VerifyPassword (env_argon (web_auth W)) (f ''password'') (u_PasswordHash u) = PwOK")
  case True
  then obtain f u where f: "frm = Some f" and u: "user_by_email (web_auth W) (TrimSpace (tx_ToLower (web_text W) (f ''email''))) db = Some u"
    and pw: "VerifyPassword (env_argon (web_auth W)) (f ''password'') (u_PasswordHash u) = PwOK" by blast
  let ?n = "safeNext (f ''next'')"
  have "(\<exists>rep. loginSubmit W fr now r frm db = (rep, db)) \<or>
      loginSubmit W fr now r frm db = finish_login W fr now r (u_ID u) (u_MFAEnabled u)
        (''/login/mfa'' @ (if ?n \<noteq> [] then ''?next='' @ QueryEscape ?n else [])) (redirectTarget ?n) []
        (snd (throttle_Record (web_auth W) now (TrimSpace (tx_ToLower (web_text W) (f ''email''))) (ClientIP r) True db))"
    by (simp add: loginSubmit_def f u pw Let_def)
  then show ?thesis using f pw user_by_email_row [OF u] by blast
next
  case False
  then show ?thesis by (auto simp: loginSubmit_def Let_def split: option.split pw_result.split)
qed

lemma full_loginSubmit:
  assumes "distinct (map u_ID (au_users db))" and "(h, i) \<in> full_sessions (snd (loginSubmit W fr now r f db))"
  shows "(h, i) \<in> full_sessions db \<or> h = token_of (web_auth W) (fr_token fr 0) \<and> no_mfa (snd (loginSubmit W fr now r f db)) i"
  using loginSubmit_cases [of W fr now r f db]
proof (elim disjE exE conjE)
  fix rep db1 assume "loginSubmit W fr now r f db = (rep, db1)" "au_sessions db1 = au_sessions db"
  with assms(2) show ?thesis by (simp add: full_sessions_def)
next
  fix g u d1 d2 assume u: "u \<in> set (au_users db)"
    and l: "loginSubmit W fr now r f db = finish_login W fr now r (u_ID u) (u_MFAEnabled u) d1 d2 []
        (snd (throttle_Record (web_auth W) now (TrimSpace (tx_ToLower (web_text W) (g ''email''))) (ClientIP r) True db))"
  note full_finish_login [THEN subsetD, OF assms(2) [unfolded l]]
  moreover have "full_sessions (snd (throttle_Record E now e ip ok db)) = full_sessions db" for E now e ip ok
    by (simp add: full_sessions_def)
  ultimately show ?thesis
    using no_mfa_row [OF assms(1) u] by (auto simp: l no_mfa_def split: if_splits)
qed

lemma full_magicLinkConsume:
  assumes "distinct (map u_ID (au_users db))" and "(h, i) \<in> full_sessions (snd (magicLinkConsume W fr now r ctx t db))"
  shows "(h, i) \<in> full_sessions db \<or> h = token_of (web_auth W) (fr_token fr 0) \<and> no_mfa (snd (magicLinkConsume W fr now r ctx t db)) i"
proof -
  let ?db1 = "snd (ConsumeMagicLink (web_auth W) now t db)"
  have f: "full_sessions ?db1 = full_sessions db" by (simp add: full_sessions_def)
  show ?thesis
  proof (cases "\<exists>userID u. ac_user ctx = None \<and> fst (ConsumeMagicLink (web_auth W) now t db) = Inr userID \<and> loadUser userID ?db1 = Inr u")
    case True
    then obtain userID u where c: "ac_user ctx = None" "fst (ConsumeMagicLink (web_auth W) now t db) = Inr userID" "loadUser userID ?db1 = Inr u"
      by blast
    then have m: "magicLinkConsume W fr now r ctx t db = finish_login W fr now r userID (us_MFAEnabled u) ''/login/mfa'' ''/dashboard'' [] ?db1"
      by (simp add: magicLinkConsume_def case_prod_beta)
    have "(h, i) \<in> (if us_MFAEnabled u then {} else {(token_of (web_auth W) (fr_token fr 0), userID)}) \<union> full_sessions db"
      using full_finish_login [THEN subsetD, OF assms(2) [unfolded m]] by (simp add: f)
    moreover obtain w where "w \<in> set (au_users db)" "u_ID w = userID" "us_MFAEnabled u = u_MFAEnabled w" using loadUser_row [OF c(3)] by auto
    ultimately show ?thesis using no_mfa_row [OF assms(1), of w] by (auto simp: m no_mfa_def split: if_splits)
  next
    case False
    then have "full_sessions (snd (magicLinkConsume W fr now r ctx t db)) = full_sessions db"
      using f by (cases "ac_user ctx"; cases "fst (ConsumeMagicLink (web_auth W) now t db)"; cases "loadUser (projr (fst (ConsumeMagicLink (web_auth W) now t db))) ?db1")
        (simp_all add: magicLinkConsume_def case_prod_beta)
    with assms(2) show ?thesis by simp
  qed
qed

lemma users_on_acct_CreatePersonalAccount [simp]:
  "au_users (snd (on_acct (CreatePersonalAccount T newid now i email) db)) = au_users db"
  by (auto simp: on_acct_def CreatePersonalAccount_def Let_def split: prod.split)

lemma users_set_customer [simp]: "au_users (set_customer W acct email db) = au_users db"
  by (auto simp: set_customer_def on_acct_def SetStripeCustomerID_def upd_account_def split: option.split prod.split)

lemma insertUser_users:
  assumes "fst (insertUser E newid now email hash v db) = Inr i" and "distinct (map u_ID (au_users db))"
  shows "distinct (map u_ID (au_users (snd (insertUser E newid now email hash v db)))) \<and>
    (\<exists>u \<in> set (au_users (snd (insertUser E newid now email hash v db))). u_ID u = i \<and> \<not> u_MFAEnabled u)"
  using assms by (auto simp: insertUser_def ad_user_exists_def split: if_splits)

lemma promote_staff_users:
  assumes "distinct (map u_ID (au_users db))" and "u \<in> set (au_users db)" "u_ID u = i" "\<not> u_MFAEnabled u"
  shows "distinct (map u_ID (au_users (promote_staff W email j db))) \<and>
    (\<exists>u \<in> set (au_users (promote_staff W email j db)). u_ID u = i \<and> \<not> u_MFAEnabled u)"
proof -
  let ?f = "\<lambda>w. if by_user j w then w\<lparr>u_IsStaff := True\<rparr> else w"
  have "map u_ID (map ?f t) = map u_ID t" for t by simp
  moreover have "?f u \<in> ?f ` set (au_users db)" "u_ID (?f u) = u_ID u" "\<not> u_MFAEnabled (?f u)" using assms by auto
  ultimately show ?thesis using assms unfolding promote_staff_def by (auto simp: sql_update_def simp del: map_map)
qed

text \<open>A user made by signing up has no second factor yet.\<close>

lemma new_user_no_mfa:
  assumes "fst (insertUser E newid now email hash v db) = Inr i" and "distinct (map u_ID (au_users db))"
    and "au_users db' = au_users (promote_staff W email' j (snd (insertUser E newid now email hash v db)))"
  shows "no_mfa db' i" "distinct (map u_ID (au_users db'))"
proof -
  obtain u where "u \<in> set (au_users (snd (insertUser E newid now email hash v db)))" "u_ID u = i" "\<not> u_MFAEnabled u"
    and "distinct (map u_ID (au_users (snd (insertUser E newid now email hash v db))))"
    using insertUser_users [OF assms(1,2)] by blast
  from promote_staff_users [OF this(4,1,2,3)] obtain w where w: "w \<in> set (au_users db')" "u_ID w = i" "\<not> u_MFAEnabled w"
    and d: "distinct (map u_ID (au_users db'))" unfolding assms(3) by blast
  show "no_mfa db' i" using no_mfa_row [OF d w(1,3)] w(2) by simp
  show "distinct (map u_ID (au_users db'))" by (rule d)
qed

lemma findOrCreate_no_mfa:
  assumes "findOrCreateOAuthUser W fr now email ok db = (OauthUser i m, db1)" and "distinct (map u_ID (au_users db))"
  shows "au_sessions db1 = au_sessions db \<and> (\<not> m \<longrightarrow> no_mfa db1 i)"
proof (cases "user_by_email (web_auth W) email db")
  case (Some u)
  with assms(1) have "db1 = db" "i = u_ID u" "m = u_MFAEnabled u"
    by (auto simp: findOrCreateOAuthUser_def Let_def split: if_splits)
  with no_mfa_row [OF assms(2)] user_by_email_row [OF Some] show ?thesis by auto
next
  case None
  let ?ins = "insertUser (web_auth W) (fr_id fr 1) now email (HashPassword (env_argon (web_auth W)) (fr_salt fr) (fr_token fr 1)) True db"
  let ?cr = "on_acct (CreatePersonalAccount (web_text W) (fr_id fr 2) now (projr (fst ?ins)) email) (promote_staff W email (projr (fst ?ins)) (snd ?ins))"
  from None assms(1) obtain acct e where i: "fst ?ins = Inr i" and db1: "db1 = set_customer W acct email (audit_web W now e (snd ?cr))"
    by (auto simp: findOrCreateOAuthUser_def Let_def case_prod_beta split: if_splits sum.splits)
  have "au_users db1 = au_users (promote_staff W email (projr (fst ?ins)) (snd ?ins))" by (simp add: db1)
  from new_user_no_mfa(1) [OF i assms(2) this] show ?thesis by (simp add: db1)
qed

lemma findOrCreate_sessions: "au_sessions (snd (findOrCreateOAuthUser W fr now email ok db)) = au_sessions db"
  by (simp add: findOrCreateOAuthUser_def Let_def case_prod_beta split: option.split sum.split)

lemma full_completeStaffSSO: "full_sessions (snd (completeStaffSSO W now r ctx p email db)) = full_sessions db"
proof -
  have "full_sessions (snd (MarkStaffVerified (web_auth W) now r db)) = full_sessions db"
    by (rule full_sessions_cong [OF MarkStaffVerified_cores])
  then show ?thesis by (simp add: completeStaffSSO_def Let_def case_prod_beta split: option.split sum.split)
qed

lemma full_oauth_sign_in:
  assumes "distinct (map u_ID (au_users db))" and "(h, i) \<in> full_sessions (snd (oauth_sign_in W fr now r p email db))"
  shows "(h, i) \<in> full_sessions db \<or> h = token_of (web_auth W) (fr_token fr 0) \<and> no_mfa (snd (oauth_sign_in W fr now r p email db)) i"
proof -
  obtain res db1 where c: "findOrCreateOAuthUser W fr now (tx_ToLower (web_text W) (TrimSpace email)) (web_selfServe W) db = (res, db1)"
    by fastforce
  then have f: "full_sessions db1 = full_sessions db"
    using findOrCreate_sessions [of W fr now "tx_ToLower (web_text W) (TrimSpace email)" "web_selfServe W" db] by (simp add: full_sessions_def)
  show ?thesis
  proof (cases res)
    case (OauthUser u m)
    from findOrCreate_no_mfa [OF c [unfolded OauthUser] assms(1)] full_finish_login [of W fr now r u m] assms(2) show ?thesis
      by (fastforce simp: oauth_sign_in_def c OauthUser f no_mfa_def split: if_splits)
  qed (use assms(2) in \<open>simp_all add: oauth_sign_in_def c f\<close>)
qed

lemma full_oauthCallback:
  assumes "distinct (map u_ID (au_users db))" and "(h, i) \<in> full_sessions (snd (oauthCallback W fr now r ctx q db))"
  shows "(h, i) \<in> full_sessions db \<or> h = token_of (web_auth W) (fr_token fr 0) \<and> no_mfa (snd (oauthCallback W fr now r ctx q db)) i"
proof (cases "\<exists>email. oauthCallback W fr now r ctx q db = oauth_sign_in W fr now r (oq_provider q) email db")
  case True
  then obtain email where e: "oauthCallback W fr now r ctx q db = oauth_sign_in W fr now r (oq_provider q) email db" by blast
  from full_oauth_sign_in [OF assms(1) assms(2) [unfolded e]] show ?thesis unfolding e .
next
  case False
  then have "full_sessions (snd (oauthCallback W fr now r ctx q db)) = full_sessions db"
    by (auto simp: oauthCallback_def Let_def full_completeStaffSSO split: option.splits prod.splits if_splits)
  with assms(2) show ?thesis by simp
qed

lemma full_signup_finish:
  "full_sessions (snd (signup_finish W fr now r nxt email i acct db)) \<subseteq> {(token_of (web_auth W) (fr_token fr 0), i)} \<union> full_sessions db"
  "au_users (snd (signup_finish W fr now r nxt email i acct db)) = au_users db"
proof -
  let ?cr = "create_session (web_auth W) (fr_id fr 2) (fr_token fr 0) now i (acct_ID acct) False db"
  have "au_sessions (snd (signup_finish W fr now r nxt email i acct db)) = au_sessions (snd ?cr)"
    "au_users (snd (signup_finish W fr now r nxt email i acct db)) = au_users (snd ?cr)"
    by (simp_all add: signup_finish_def Create_session_def Let_def case_prod_beta split: sum.split)
  then show "full_sessions (snd (signup_finish W fr now r nxt email i acct db)) \<subseteq> {(token_of (web_auth W) (fr_token fr 0), i)} \<union> full_sessions db"
    "au_users (snd (signup_finish W fr now r nxt email i acct db)) = au_users db"
    using full_create [of "web_auth W" "fr_id fr 2" "fr_token fr 0" now i "acct_ID acct" False db] by (simp_all add: full_sessions_def)
qed

lemma full_signup_user:
  "full_sessions (snd (signup_user W fr now r nxt email i db)) \<subseteq> {(token_of (web_auth W) (fr_token fr 0), i)} \<union> full_sessions db"
  "au_users (snd (signup_user W fr now r nxt email i db)) = au_users (promote_staff W email i db)"
proof -
  let ?cr = "on_acct (CreatePersonalAccount (web_text W) (fr_id fr 1) now i email) (promote_staff W email i db)"
  have f: "full_sessions (snd ?cr) = full_sessions db" "full_sessions (set_customer W a email db') = full_sessions db'" for a db'
    by (simp_all add: full_sessions_def)
  show "full_sessions (snd (signup_user W fr now r nxt email i db)) \<subseteq> {(token_of (web_auth W) (fr_token fr 0), i)} \<union> full_sessions db"
  proof (cases "fst ?cr")
    case (Inr acct)
    let ?e = "bare_event (Some (acct_ID acct)) (Some i) ''account.created'' ''account''
        (tx_uuid (web_text W) (acct_ID acct)) [(''kind'', ''personal''), (''name'', acct_Name acct)]"
    show ?thesis
      using full_signup_finish(1) [of W fr now r nxt email i acct "set_customer W acct email (audit_web W now ?e (snd ?cr))"]
      unfolding f full_audit_web by (simp only: signup_user_def case_prod_beta Inr sum.case)
  qed (simp add: signup_user_def case_prod_beta f(1) subset_insertI del: One_nat_def)
  show "au_users (snd (signup_user W fr now r nxt email i db)) = au_users (promote_staff W email i db)"
    by (simp add: signup_user_def case_prod_beta full_signup_finish(2) split: sum.split)
qed

lemma full_signupSubmit:
  assumes "distinct (map u_ID (au_users db))" and "(h, i) \<in> full_sessions (snd (signupSubmit W fr now r frm db))"
  shows "(h, i) \<in> full_sessions db \<or> h = token_of (web_auth W) (fr_token fr 0) \<and> no_mfa (snd (signupSubmit W fr now r frm db)) i"
proof -
  consider "au_sessions (snd (signupSubmit W fr now r frm db)) = au_sessions db"
    | nxt email hash j where "fst (insertUser (web_auth W) (fr_id fr 0) now email hash False db) = Inr j"
      "snd (signupSubmit W fr now r frm db) = snd (signup_user W fr now r nxt email j (snd (insertUser (web_auth W) (fr_id fr 0) now email hash False db)))"
  proof (cases frm)
    case (Some f)
    let ?e = "TrimSpace (tx_ToLower (web_text W) (f ''email''))" and ?h = "HashPassword (env_argon (web_auth W)) (fr_salt fr) (f ''password'')"
    let ?ins = "insertUser (web_auth W) (fr_id fr 0) now ?e ?h False db"
    have "au_sessions (snd (signupSubmit W fr now r frm db)) = au_sessions db \<or>
        (\<exists>j. fst ?ins = Inr j \<and> snd (signupSubmit W fr now r frm db) = snd (signup_user W fr now r (safeNext (f ''next'')) ?e j (snd ?ins)))"
      by (cases "fst ?ins") (simp_all add: signupSubmit_def Some Let_def case_prod_beta)
    with that show thesis by blast
  qed (simp add: signupSubmit_def that(1))
  then show ?thesis
  proof cases
    case (2 nxt email hash j)
    let ?ins = "insertUser (web_auth W) (fr_id fr 0) now email hash False db"
    have "full_sessions (snd ?ins) = full_sessions db" by (simp add: full_sessions_def)
    then have "(h, i) \<in> full_sessions db \<or> h = token_of (web_auth W) (fr_token fr 0) \<and> i = j"
      using full_signup_user(1) [of W fr now r nxt email j "snd ?ins"] assms(2) 2 by auto
    moreover have "no_mfa (snd (signupSubmit W fr now r frm db)) j"
      using new_user_no_mfa(1) [OF 2(1) assms(1)] by (simp add: 2(2) full_signup_user(2))
    ultimately show ?thesis by auto
  qed (use assms(2) in \<open>simp add: full_sessions_def\<close>)
qed

lemma full_mfaChallenge:
  assumes "(h, i) \<in> full_sessions (snd (mfaChallengeSubmit W fr now r frm db))"
  shows "(h, i) \<in> full_sessions db \<or>
    h = token_of (web_auth W) (fr_token fr 0) \<and>
    (\<exists>f u. frm = Some f \<and> PendingMFAUser (web_auth W) now r db = Inr u \<and> us_ID u = i \<and>
      fst (second_factor_ok (web_auth W) now i (TrimSpace (f ''code'')) db) = Inr True)"
proof -
  let ?E = "web_auth W"
  have sf: "au_sessions (snd (second_factor_ok ?E now u code db)) = au_sessions db" for u code
    by (simp add: second_factor_ok_def case_prod_beta split: sum.split)
  show ?thesis
  proof (cases "\<exists>f u. frm = Some f \<and> PendingMFAUser ?E now r db = Inr u \<and> fst (second_factor_ok ?E now (us_ID u) (TrimSpace (f ''code'')) db) = Inr True")
    case True
    then obtain f u where f: "frm = Some f" "PendingMFAUser ?E now r db = Inr u" "fst (second_factor_ok ?E now (us_ID u) (TrimSpace (f ''code'')) db) = Inr True"
      by blast
    then obtain c s where c: "rq_Cookie r = Some c" "sql_first (by_hash (token_of ?E c)) (au_sessions db) = Some s" "se_MFAPending s"
      "us_ID u = se_UserID s"
      by (auto simp: PendingMFAUser_def split: option.splits if_splits dest: loadUser_row)
    let ?db1 = "snd (second_factor_ok ?E now (us_ID u) (TrimSpace (f ''code'')) db)"
    have "full_sessions (snd (mfaChallengeSubmit W fr now r frm db)) = full_sessions (snd (CompleteMFA ?E (fr_id fr 0) (fr_token fr 0) now r ?db1))"
      using f by (simp add: mfaChallengeSubmit_def Let_def case_prod_beta split: sum.split)
    moreover have "full_sessions (snd (CompleteMFA ?E (fr_id fr 0) (fr_token fr 0) now r ?db1)) \<subseteq> {(token_of ?E (fr_token fr 0), se_UserID s)} \<union> full_sessions db"
      using full_create [of ?E "fr_id fr 0" "fr_token fr 0" now "se_UserID s" 0 False] full_delete [where db = ?db1] c full_sessions_same [OF sf]
      by (fastforce simp: CompleteMFA_def sf)
    ultimately show ?thesis using assms f c by auto
  next
    case False
    then have "full_sessions (snd (mfaChallengeSubmit W fr now r frm db)) = full_sessions db"
      using full_sessions_same [OF sf]
      by (cases frm; cases "PendingMFAUser ?E now r db";
          cases "fst (second_factor_ok ?E now (us_ID (projr (PendingMFAUser ?E now r db))) (TrimSpace (the frm ''code'')) db)")
        (simp_all add: mfaChallengeSubmit_def Let_def case_prod_beta)
    with assms show ?thesis by simp
  qed
qed

subsection \<open>The invariant of the tables\<close>

definition auth_ok :: "auth_db \<Rightarrow> bool" where
  "auth_ok db \<longleftrightarrow> distinct (map se_token_hash (au_sessions db)) \<and> distinct (map u_ID (au_users db))"

lemma auth_ok_cong: "sess_cores db' = sess_cores db \<Longrightarrow> map u_ID (au_users db') = map u_ID (au_users db) \<Longrightarrow> auth_ok db \<Longrightarrow> auth_ok db'"
proof -
  have h: "map se_token_hash S = map fst (map sess_core S)" for S by (simp add: sess_core_def)
  assume "sess_cores db' = sess_cores db" "map u_ID (au_users db') = map u_ID (au_users db)" "auth_ok db"
  then show ?thesis unfolding auth_ok_def h by simp
qed

lemma ids_update [simp]: "(\<And>u. u_ID (f u) = u_ID u) \<Longrightarrow> map u_ID (sql_update P f t) = map u_ID t"
  by (simp add: sql_update_def)

lemma users_AcceptInvitation [simp]: "ad_users (snd (AcceptInvitation T now t u e db)) = ad_users db"
  by (auto simp: AcceptInvitation_def Let_def split: option.split)

lemma users_CreatePersonalAccount [simp]: "ad_users (snd (CreatePersonalAccount T newid now i email db)) = ad_users db"
  by (auto simp: CreatePersonalAccount_def Let_def)

lemma ok_create [simp]: "auth_ok db \<Longrightarrow> auth_ok (snd (create_session E newid raw now i a p db))"
  by (auto simp: auth_ok_def create_session_def Let_def)

lemma ok_delete [simp]: "auth_ok db \<Longrightarrow> auth_ok (db\<lparr>au_sessions := sql_delete P (au_sessions db)\<rparr>)"
  by (simp add: auth_ok_def sql_delete_def distinct_map_filter)

lemma ok_session_hash: "auth_ok db \<Longrightarrow> (\<And>s. se_token_hash (f s) = se_token_hash s) \<Longrightarrow> auth_ok (upd_session P f db)"
  by (auto simp: auth_ok_def upd_session_def map_sql_update_key)

lemma ok_ops [simp]:
  assumes "auth_ok db"
  shows "auth_ok (audit_web W now e db)" "auth_ok (snd (throttle_Record E now email ip ok db))"
    "auth_ok (snd (ReplaceRecoveryCodes E i codes db))" "auth_ok (snd (EnableMFA i secret n db))" "auth_ok (DisableMFA i db)"
    "auth_ok (snd (VerifyAndConsumeTOTP E now i code db))" "auth_ok (snd (ConsumeRecoveryCode E now i code db))"
    "auth_ok (snd (CreateMagicLinkToken E newid raw now i db))" "auth_ok (snd (ConsumeMagicLink E now raw db))"
    "auth_ok (snd (CreateVerificationToken E newid raw now i db))" "auth_ok (snd (VerifyEmail E now raw db))"
    "auth_ok (promote_staff W email i db)" "auth_ok (set_customer W acct email db)"
    "auth_ok (snd (on_acct (CreatePersonalAccount T newid now i email) db))" "auth_ok (snd (on_acct (AcceptInvitation T now t i email) db))"
  using assms
  by (auto simp: auth_ok_def throttle_Record_def ReplaceRecoveryCodes_def EnableMFA_def DisableMFA_def VerifyAndConsumeTOTP_def ConsumeRecoveryCode_def
      CreateMagicLinkToken_def ConsumeMagicLink_def CreateVerificationToken_def VerifyEmail_def promote_staff_def Let_def case_prod_beta on_acct_def
      split: option.split sum.split) 

lemma ok_sessions [simp]:
  assumes "auth_ok db"
  shows "auth_ok (snd (Create_session E newid raw now i a db))" "auth_ok (snd (CreatePending E newid raw now i db))"
    "auth_ok (snd (CompleteMFA E newid raw now r db))" "auth_ok (Destroy E r db)" "auth_ok (snd (SetCurrentAccount E r a db))"
    "auth_ok (snd (MarkStaffVerified E now r db))" "auth_ok (snd (StartImpersonation E r i j db))" "auth_ok (snd (StopImpersonation E r db))"
  using assms
  by (auto simp: Create_session_def CreatePending_def CompleteMFA_def Destroy_def SetCurrentAccount_def MarkStaffVerified_def StartImpersonation_def
      StopImpersonation_def Let_def ok_session_hash split: option.split)

lemma ok_insertUser [simp]: "auth_ok db \<Longrightarrow> auth_ok (snd (insertUser E newid now email hash v db))"
  by (auto simp: auth_ok_def insertUser_def ad_user_exists_def)

lemma ok_ctx: "ctx_change db db' \<Longrightarrow> auth_ok db \<Longrightarrow> auth_ok db'"
  by (auto simp: ctx_change_def intro: auth_ok_cong [rotated 2])

lemma ok_sign_in [simp]:
  assumes "auth_ok db"
  shows "auth_ok (snd (finish_login W fr now r i m d1 d2 meta db))" "auth_ok (snd (signup_finish W fr now r nxt email i acct db))"
    "auth_ok (snd (second_factor_ok E now i code db))" "auth_ok (snd (findOrCreateOAuthUser W fr now email ok db))"
    "auth_ok (snd (completeStaffSSO W now r ctx p email db))"
  using assms
  by (simp_all add: finish_login_def signup_finish_def second_factor_ok_def findOrCreateOAuthUser_def completeStaffSSO_def Let_def case_prod_beta
      split: sum.split option.split)

lemma ok_oauth_sign_in [simp]: "auth_ok db \<Longrightarrow> auth_ok (snd (oauth_sign_in W fr now r p email db))"
  by (simp add: oauth_sign_in_def case_prod_beta split: oauth_user.split)

lemma ok_signup_user [simp]: "auth_ok db \<Longrightarrow> auth_ok (snd (signup_user W fr now r nxt email i db))"
  by (simp add: signup_user_def case_prod_beta split: sum.split)

lemma ok_handlers [simp]:
  assumes "auth_ok db"
  shows "auth_ok (snd (loginSubmit W fr now r f db))" "auth_ok (snd (signupSubmit W fr now r f db))" "auth_ok (snd (logout W now r ctx db))"
    "auth_ok (snd (mfaChallengeSubmit W fr now r f db))" "auth_ok (snd (magicLinkRequest W fr now r ok f db))"
    "auth_ok (snd (magicLinkConsume W fr now r ctx t db))" "auth_ok (snd (oauthCallback W fr now r ctx q db))"
    "auth_ok (snd (verifyEmail W now r t db))" "auth_ok (snd (verifyEmailResend W fr now r u db))"
    "auth_ok (snd (mfaEnable W fr now r u f db))" "auth_ok (snd (mfaDisable W now r u db))"
    "auth_ok (snd (adminImpersonate W now r u i f db))" "auth_ok (snd (impersonateStop W now r ctx db))"
    "auth_ok (snd (accountSwitch W now r u f db))" "auth_ok (snd (invitationAccept W now r ctx t db))"
  using assms
  by (simp_all add: loginSubmit_def signupSubmit_def logout_def mfaChallengeSubmit_def magicLinkRequest_def magicLinkConsume_def oauthCallback_def
      verifyEmail_def verifyEmailResend_def mfaEnable_def mfaDisable_def adminImpersonate_def impersonateStop_def accountSwitch_def
      invitationAccept_def Let_def case_prod_beta split: option.split sum.split pw_result.split)

lemma ok_with_user: "auth_ok db \<Longrightarrow> (\<And>u. auth_ok (snd (h u db))) \<Longrightarrow> auth_ok (snd (with_user gates ctx h db))"
  by (auto simp: with_user_def split: option.split)

lemma ok_serve: "auth_ok db \<Longrightarrow> auth_ok (snd (serve W fr now r rt db))"
  using ok_ctx [OF ctx_change_load [of db W now r]]
  by (cases rt) (simp_all add: serve_def handle_def case_prod_beta Let_def ok_with_user)

subsection \<open>The second factor cannot be skipped\<close>

inductive auth_step :: "web_env \<Rightarrow> auth_db \<Rightarrow> auth_db \<Rightarrow> bool" for W where
  request: "auth_step W db (snd (serve W fr now r rt db))"

lemma ok_run: "(auth_step W)\<^sup>*\<^sup>* db0 db \<Longrightarrow> auth_ok db0 \<Longrightarrow> auth_ok db"
  by (induction rule: rtranclp_induct) (auto elim: auth_step.cases simp: ok_serve)

definition passed_second_factor :: "web_env \<Rightarrow> gotime \<Rightarrow> request \<Rightarrow> route \<Rightarrow> uuid \<Rightarrow> auth_db \<Rightarrow> bool" where
  "passed_second_factor W now r rt i db \<longleftrightarrow>
     (\<exists>f u. rt = MfaChallenge (Some f) \<and> PendingMFAUser (web_auth W) now r db = Inr u \<and> us_ID u = i \<and>
       fst (second_factor_ok (web_auth W) now i (TrimSpace (f ''code'')) db) = Inr True)"

lemma second_factor_ctx:
  assumes "ctx_change db db1"
  shows "fst (second_factor_ok E now i code db1) = fst (second_factor_ok E now i code db)"
  using assms by (auto simp: ctx_change_def second_factor_ok_def VerifyAndConsumeTOTP_def ConsumeRecoveryCode_def set_users_def Let_def case_prod_beta
      split: option.split sum.split)

lemma first_core:
  "map_option sess_core (sql_first (by_hash h) S) = sql_first (\<lambda>c. fst c = h) (map sess_core S)"
  by (induction S) (auto simp: by_hash_def sess_core_def)

lemma PendingMFAUser_ctx:
  assumes "ctx_change db db1"
  shows "PendingMFAUser E now r db1 = PendingMFAUser E now r db"
proof -
  from assms obtain S where S: "db1 = db\<lparr>au_sessions := S\<rparr>" "map sess_core S = sess_cores db" by (auto simp: ctx_change_def)
  have u: "loadUser i (db\<lparr>au_sessions := S\<rparr>) = loadUser i db" for i by (simp add: loadUser_def)
  let ?h = "token_of E (the (rq_Cookie r))"
  have "map_option sess_core (sql_first (by_hash ?h) S) = map_option sess_core (sql_first (by_hash ?h) (au_sessions db))"
    by (simp add: first_core S(2))
  then show ?thesis
    by (cases "rq_Cookie r"; cases "sql_first (by_hash (token_of E (the (rq_Cookie r)))) S";
        cases "sql_first (by_hash (token_of E (the (rq_Cookie r)))) (au_sessions db)")
      (auto simp: PendingMFAUser_def S(1) u sess_core_def)
qed

lemma ctx_change_core: "ctx_change db db1 \<Longrightarrow> s \<in> set (au_sessions db1) \<Longrightarrow> \<exists>s0 \<in> set (au_sessions db). sess_core s0 = sess_core s"
proof -
  assume "ctx_change db db1" "s \<in> set (au_sessions db1)"
  then have "sess_core s \<in> set (sess_cores db)" unfolding ctx_change_def by (metis (no_types, lifting) image_eqI list.set_map auth_db.select_convs(2) auth_db.surjective auth_db.update_convs(2))
  then show ?thesis by auto
qed

lemma ctx_change_sym: "ctx_change db db1 \<Longrightarrow> ctx_change db1 db"
  by (force simp: ctx_change_def intro: exI [of _ "au_sessions db"])

lemma full_with_user:
  "\<exists>u. snd (with_user gates ctx h db) = db \<or> ac_user ctx = Some u \<and> snd (with_user gates ctx h db) = snd (h u db)"
  by (auto simp: with_user_def split: option.split)

lemma full_with_user_same:
  "(\<And>u. full_sessions (snd (h u db)) \<subseteq> full_sessions db) \<Longrightarrow> full_sessions (snd (with_user gates ctx h db)) \<subseteq> full_sessions db"
  using full_with_user [of gates ctx h db] by fastforce

lemma full_same_handlers [simp]:
  "full_sessions (snd (mfaEnable W fr now r u f db)) = full_sessions db" "full_sessions (snd (mfaDisable W now r u db)) = full_sessions db"
  "full_sessions (snd (magicLinkRequest W fr now r ok f db)) = full_sessions db" "full_sessions (snd (verifyEmail W now r t db)) = full_sessions db"
  "full_sessions (snd (verifyEmailResend W fr now r u db)) = full_sessions db"
  by (simp_all add: full_sessions_def)

lemma full_account_handlers:
  "full_sessions (snd (accountSwitch W now r u f db)) = full_sessions db"
  "full_sessions (snd (invitationAccept W now r ctx t db)) = full_sessions db"
  "full_sessions (snd (impersonateStop W now r ctx db)) \<subseteq> full_sessions db"
  "full_sessions (snd (logout W now r ctx db)) \<subseteq> full_sessions db"
proof -
  have c: "full_sessions (snd (SetCurrentAccount (web_auth W) r a db)) = full_sessions db" for a db
    by (rule full_sessions_cong [OF SetCurrentAccount_cores])
  have o: "full_sessions (snd (on_acct g db)) = full_sessions db" for g :: "account_db \<Rightarrow> (account_error + Invitation) \<times> account_db" by (simp add: full_sessions_def)
  show "full_sessions (snd (accountSwitch W now r u f db)) = full_sessions db"
    by (simp add: accountSwitch_def case_prod_beta c split: option.split sum.split)
  show "full_sessions (snd (invitationAccept W now r ctx t db)) = full_sessions db"
    by (simp add: invitationAccept_def case_prod_beta c o Let_def split: option.split sum.split)
  show "full_sessions (snd (impersonateStop W now r ctx db)) \<subseteq> full_sessions db"
    using full_StopImpersonation [of "web_auth W" r db] by (simp add: impersonateStop_def case_prod_beta split: option.split sum.split)
  show "full_sessions (snd (logout W now r ctx db)) \<subseteq> full_sessions db"
    using full_Destroy [of "web_auth W" r] full_Destroy [of "web_auth W" r "audit_web W now e db" for e]
    by (cases "ac_user ctx") (simp_all add: logout_def)
qed

lemma full_adminImpersonate:
  assumes "auth_ok db" and "rq_Cookie r = Some c" "s \<in> set (au_sessions db)" "se_token_hash s = token_of (web_auth W) c" "se_UserID s = us_ID u"
  shows "full_sessions (snd (adminImpersonate W now r u i f db)) \<subseteq> full_sessions db"
  using full_StartImpersonation [OF _ assms(2-5)] assms(1)
  by (simp add: adminImpersonate_def case_prod_beta Let_def auth_ok_def split: option.split sum.split)

lemma full_handle:
  assumes "distinct (map u_ID (au_users db))" and "\<And>f. rt \<noteq> MfaChallenge f" and "\<And>j f. rt \<noteq> Impersonate j f"
    and "(h, i) \<in> full_sessions (snd (handle W fr now r ctx rt db))"
  shows "(h, i) \<in> full_sessions db \<or> h = token_of (web_auth W) (fr_token fr 0) \<and> no_mfa (snd (handle W fr now r ctx rt db)) i"
proof (cases rt)
  case (Login f)
  with full_loginSubmit [OF assms(1), of h i W fr now r f] assms(4) show ?thesis by (simp add: handle_def)
next
  case (Signup f)
  with full_signupSubmit [OF assms(1), of h i W fr now r f] assms(4) show ?thesis by (simp add: handle_def)
next
  case (MagicConsume t)
  with full_magicLinkConsume [OF assms(1), of h i W fr now r ctx t] assms(4) show ?thesis by (simp add: handle_def)
next
  case (OauthCallback q)
  with full_oauthCallback [OF assms(1), of h i W fr now r ctx q] assms(4) show ?thesis by (simp add: handle_def)
next
  case Logout
  with full_account_handlers(4) [of W now r ctx db] assms(4) show ?thesis by (auto simp: handle_def)
next
  case ImpersonateStop
  with full_with_user_same [of "\<lambda>_. impersonateStop W now r ctx" db, OF full_account_handlers(3)] assms(4) show ?thesis by (fastforce simp: handle_def)
next
  case (SwitchAccount f)
  with full_with_user_same [of "\<lambda>u. accountSwitch W now r u f" db] full_account_handlers(1) assms(4) show ?thesis by (fastforce simp: handle_def)
next
  case VerifyResend
  with full_with_user_same [of "verifyEmailResend W fr now r" db] assms(4) show ?thesis by (fastforce simp: handle_def)
next
  case (MfaEnable f)
  with full_with_user_same [of "\<lambda>u. mfaEnable W fr now r u f" db] assms(4) show ?thesis by (fastforce simp: handle_def)
next
  case MfaDisable
  with full_with_user_same [of "mfaDisable W now r" db] assms(4) show ?thesis by (fastforce simp: handle_def)
qed (use assms full_account_handlers(2) in \<open>simp_all add: handle_def\<close>)

text \<open>
  C5. The second factor cannot be skipped. In every run of requests, a full session that exists
  after a request and not before it belongs to a user who has no second factor, or the request was
  the second step of signing in: it carried the token of a pending session of that user, and
  the code it brought was accepted as a fresh one-time code or an unused recovery code. Passwords, magic
  links, identity providers and sign-up make no exception, and impersonation never changes who is
  behind a session.
\<close>

theorem second_factor:
  assumes "(auth_step W)\<^sup>*\<^sup>* db0 db" and "au_sessions db0 = []" and "distinct (map u_ID (au_users db0))"
    and "(h, i) \<in> full_sessions (snd (serve W fr now r rt db))"
  shows "(h, i) \<in> full_sessions db \<or>
    h = token_of (web_auth W) (fr_token fr 0) \<and> (no_mfa (snd (serve W fr now r rt db)) i \<or> passed_second_factor W now r rt i db)"
proof -
  have ok: "auth_ok db" using ok_run [OF assms(1)] assms(2,3) by (simp add: auth_ok_def)
  obtain ctx db1 where l: "load_ctx W now r db = (ctx, db1)" by fastforce
  have ch: "ctx_change db db1" using ctx_change_load [of db W now r] by (simp add: l)
  have ok1: "auth_ok db1" and d1: "distinct (map u_ID (au_users db1))" using ok_ctx [OF ch ok] by (simp_all add: auth_ok_def)
  have f1: "full_sessions db1 = full_sessions db" using ch by (auto simp: ctx_change_def intro!: full_sessions_cong)
  have sv: "snd (serve W fr now r rt db) = snd (handle W fr now r ctx rt db1)" by (simp add: serve_def l)
  note a = assms(4) [unfolded sv]
  show ?thesis
    unfolding sv
  proof (cases rt)
    case (MfaChallenge frm)
    with full_mfaChallenge [of h i W fr now r frm db1] a show "(h, i) \<in> full_sessions db \<or>
        h = token_of (web_auth W) (fr_token fr 0) \<and> (no_mfa (snd (handle W fr now r ctx rt db1)) i \<or> passed_second_factor W now r rt i db)"
      by (auto simp: handle_def f1 passed_second_factor_def second_factor_ctx [OF ch] PendingMFAUser_ctx [OF ch])
  next
    case (Impersonate j f)
    show "(h, i) \<in> full_sessions db \<or>
        h = token_of (web_auth W) (fr_token fr 0) \<and> (no_mfa (snd (handle W fr now r ctx rt db1)) i \<or> passed_second_factor W now r rt i db)"
    proof (cases "snd (handle W fr now r ctx rt db1) = db1")
      case False
      then obtain u where u: "ac_user ctx = Some u" "snd (handle W fr now r ctx rt db1) = snd (adminImpersonate W now r u j f db1)"
        using full_with_user [of "[RequireUser ctx, requireStaffSSO W now ctx]" ctx "\<lambda>u. adminImpersonate W now r u j f" db1] Impersonate
        by (auto simp: handle_def)
      then obtain c s0 where c: "rq_Cookie r = Some c" "s0 \<in> set (au_sessions db)" "se_token_hash s0 = token_of (web_auth W) c" "se_UserID s0 = us_ID u"
        using ctx_user [of W now r db u] by (auto simp: l)
      then obtain s where "s \<in> set (au_sessions db1)" "se_token_hash s = token_of (web_auth W) c" "se_UserID s = us_ID u"
        using ctx_change_core [OF ctx_change_sym [OF ch] c(2)] by (auto simp: sess_core_def)
      from full_adminImpersonate [OF ok1 c(1) this] a u f1 show ?thesis by auto
    qed (use a f1 in simp)
  qed (use full_handle [OF d1 _ _ a] f1 in auto)
qed

section \<open>A code is used once\<close>

text \<open>
  A time step is spent for a user when no one-time code of it or an earlier step can be accepted
  any more; a recovery code is spent when no unused row has its hash.
\<close>

definition spent_step :: "uuid \<Rightarrow> int \<Rightarrow> auth_db \<Rightarrow> bool" where
  "spent_step i c db \<longleftrightarrow> (\<forall>u \<in> set (au_users db). u_ID u = i \<longrightarrow> u_TotpSecret u = None \<or> (\<exists>l. u_LastCounter u = Some l \<and> c \<le> l))"

definition spent_code :: "uuid \<Rightarrow> string \<Rightarrow> auth_db \<Rightarrow> bool" where
  "spent_code i h db \<longleftrightarrow> (\<forall>k \<in> set (au_codes db). \<not> unused_code i h k)"

definition spent :: "uuid \<Rightarrow> int option \<Rightarrow> string option \<Rightarrow> auth_db \<Rightarrow> bool" where
  "spent i c h db \<longleftrightarrow> pred_option (\<lambda>c. spent_step i c db) c \<and> pred_option (\<lambda>h. spent_code i h db) h"

lemma spent_cong: "au_users db' = au_users db \<Longrightarrow> au_codes db' = au_codes db \<Longrightarrow> spent i c h db' = spent i c h db"
  by (simp add: spent_def spent_step_def spent_code_def)

lemma spent_stepI:
  assumes "spent i c h db" and "\<And>u. u_ID (f u) = u_ID u \<and> (P u \<longrightarrow> u_ID u = i \<longrightarrow> u_TotpSecret (f u) = None \<or>
      u_TotpSecret (f u) = u_TotpSecret u \<and> (u_LastCounter (f u) = u_LastCounter u))"
  shows "spent i c h (set_users P f db)"
  using assms by (force simp: spent_def spent_step_def spent_code_def set_sql_update pred_option_def)

lemma spent_frame [simp]:
  "spent i c h (audit_web W now e db) = spent i c h db" "spent i c h (snd (throttle_Record E now email ip ok db)) = spent i c h db"
  "spent i c h (snd (create_session E newid raw now j a p db)) = spent i c h db"
  "spent i c h (snd (CreatePending E newid raw now j db)) = spent i c h db"
  "spent i c h (snd (CompleteMFA E newid raw now r db)) = spent i c h db" "spent i c h (Destroy E r db) = spent i c h db"
  "spent i c h (snd (SetCurrentAccount E r a db)) = spent i c h db" "spent i c h (snd (MarkStaffVerified E now r db)) = spent i c h db"
  "spent i c h (snd (StartImpersonation E r j k db)) = spent i c h db" "spent i c h (snd (StopImpersonation E r db)) = spent i c h db"
  "spent i c h (snd (CreateMagicLinkToken E newid raw now j db)) = spent i c h db" "spent i c h (snd (ConsumeMagicLink E now raw db)) = spent i c h db"
  "spent i c h (snd (CreateVerificationToken E newid raw now j db)) = spent i c h db"
  "spent i c h (snd (on_acct (CreatePersonalAccount T newid now j email) db)) = spent i c h db"
  "spent i c h (snd (on_acct (AcceptInvitation T now t j email) db)) = spent i c h db"
  "spent i c h (snd (on_acct (SetStripeCustomerID a x) db)) = spent i c h db"
proof -
  show "spent i c h (audit_web W now e db) = spent i c h db" by (rule spent_cong) simp_all
  show "spent i c h (snd (throttle_Record E now email ip ok db)) = spent i c h db"
    by (rule spent_cong) (auto simp: throttle_Record_def split: option.split)
  show "spent i c h (snd (create_session E newid raw now j a p db)) = spent i c h db"
    by (rule spent_cong) (auto simp: create_session_def Let_def)
  show "spent i c h (snd (CreatePending E newid raw now j db)) = spent i c h db"
    by (rule spent_cong) (auto simp: CreatePending_def create_session_def Let_def)
  show "spent i c h (snd (CompleteMFA E newid raw now r db)) = spent i c h db"
    by (rule spent_cong) (auto simp: CompleteMFA_def create_session_def Let_def split: option.split)
  show "spent i c h (Destroy E r db) = spent i c h db"
    by (rule spent_cong) (auto simp: Destroy_def split: option.split)
  show "spent i c h (snd (SetCurrentAccount E r a db)) = spent i c h db"
    by (rule spent_cong) (auto simp: SetCurrentAccount_def upd_session_def split: option.split)
  show "spent i c h (snd (MarkStaffVerified E now r db)) = spent i c h db"
    by (rule spent_cong) (auto simp: MarkStaffVerified_def upd_session_def split: option.split)
  show "spent i c h (snd (StartImpersonation E r j k db)) = spent i c h db"
    by (rule spent_cong) (auto simp: StartImpersonation_def upd_session_def Let_def split: option.split)
  show "spent i c h (snd (StopImpersonation E r db)) = spent i c h db"
    by (rule spent_cong) (auto simp: StopImpersonation_def upd_session_def Let_def split: option.split)
  show "spent i c h (snd (CreateMagicLinkToken E newid raw now j db)) = spent i c h db"
    by (rule spent_cong) (auto simp: CreateMagicLinkToken_def split: option.split)
  show "spent i c h (snd (ConsumeMagicLink E now raw db)) = spent i c h db"
    by (rule spent_cong) (auto simp: ConsumeMagicLink_def split: sum.split)
  show "spent i c h (snd (CreateVerificationToken E newid raw now j db)) = spent i c h db"
    by (rule spent_cong) (auto simp: CreateVerificationToken_def split: option.split)
  show "spent i c h (snd (on_acct (CreatePersonalAccount T newid now j email) db)) = spent i c h db"
    "spent i c h (snd (on_acct (AcceptInvitation T now t j email) db)) = spent i c h db"
    "spent i c h (snd (on_acct (SetStripeCustomerID a x) db)) = spent i c h db"
    by (rule spent_cong; auto simp: on_acct_def case_prod_beta SetStripeCustomerID_def upd_account_def)+
qed

lemma spent_ops [simp]:
  assumes "spent i c h db"
  shows "spent i c h (snd (VerifyEmail E now raw db))" "spent i c h (promote_staff W email j db)" "spent i c h (DisableMFA j db)"
    "spent i c h (snd (ConsumeRecoveryCode E now j code db))"
    "spent i c h (snd (insertUser E newid now email hash v db))" "spent i c h (set_customer W acct email db)"
proof -
  have "spent i c h (set_users (by_user j) (\<lambda>u. u\<lparr>u_EmailVerified := True\<rparr>) (db\<lparr>au_verify := t\<rparr>))" for j t
    by (rule spent_stepI) (use assms in \<open>simp_all add: spent_cong [of "db\<lparr>au_verify := t\<rparr>" db]\<close>)
  then show "spent i c h (snd (VerifyEmail E now raw db))" using assms by (auto simp: VerifyEmail_def split: sum.split)
  show "spent i c h (promote_staff W email j db)" using assms by (auto simp: promote_staff_def intro!: spent_stepI)
  show "spent i c h (DisableMFA j db)"
    using assms by (auto simp: DisableMFA_def spent_def spent_step_def spent_code_def set_sql_update set_sql_delete pred_option_def)
  show "spent i c h (snd (ConsumeRecoveryCode E now j code db))"
    using assms by (force simp: ConsumeRecoveryCode_def Let_def spent_def spent_step_def spent_code_def set_sql_update pred_option_def unused_code_def)
  show "spent i c h (snd (insertUser E newid now email hash v db))"
    using assms by (auto simp: insertUser_def spent_def spent_step_def spent_code_def pred_option_def)
  show "spent i c h (set_customer W acct email db)" using assms by (auto simp: set_customer_def split: option.split)
qed

lemma TOTP_accepted:
  assumes "fst (VerifyAndConsumeTOTP E now j code db) = Inr True"
  shows "\<exists>u secret n. sql_first (by_user j) (au_users db) = Some u \<and> u_TotpSecret u = Some secret \<and>
    VerifyTOTPWithCounter (env_hmac E) secret code now = (n, True) \<and> (\<forall>l. u_LastCounter u = Some l \<longrightarrow> l < n) \<and>
    snd (VerifyAndConsumeTOTP E now j code db) = set_users (by_user j) (\<lambda>u. u\<lparr>u_LastCounter := Some n\<rparr>) db"
proof -
  from assms obtain u where u: "sql_first (by_user j) (au_users db) = Some u"
    by (cases "sql_first (by_user j) (au_users db)") (simp_all add: VerifyAndConsumeTOTP_def)
  with assms obtain secret where s: "u_TotpSecret u = Some secret"
    by (cases "u_TotpSecret u") (simp_all add: VerifyAndConsumeTOTP_def)
  obtain n ok where n: "VerifyTOTPWithCounter (env_hmac E) secret code now = (n, ok)" by fastforce
  have "ok" "\<forall>l. u_LastCounter u = Some l \<longrightarrow> l < n"
    using assms by (auto simp: VerifyAndConsumeTOTP_def u s n split: if_splits option.splits)
  then show ?thesis by (auto simp: VerifyAndConsumeTOTP_def u s n split: option.split)
qed

lemma spent_TOTP [simp]:
  assumes "auth_ok db" and "spent i c h db"
  shows "spent i c h (snd (VerifyAndConsumeTOTP E now j code db))"
proof (cases "fst (VerifyAndConsumeTOTP E now j code db) = Inr True")
  case True
  then obtain u n where u: "sql_first (by_user j) (au_users db) = Some u" and n: "\<And>l. u_LastCounter u = Some l \<Longrightarrow> l < n"
    and sec: "u_TotpSecret u \<noteq> None"
    and db: "snd (VerifyAndConsumeTOTP E now j code db) = set_users (by_user j) (\<lambda>u. u\<lparr>u_LastCounter := Some n\<rparr>) db"
    using TOTP_accepted [OF True] by blast
  have row: "w = u" if "w \<in> set (au_users db)" "by_user j w" for w
    using assms(1) sql_first_Some [OF u] that by (auto simp: auth_ok_def by_user_def distinct_map inj_on_def)
  have "spent_step i x (set_users (by_user j) (\<lambda>u. u\<lparr>u_LastCounter := Some n\<rparr>) db)" if "spent_step i x db" for x
    using that row sec n by (fastforce simp: spent_step_def set_sql_update by_user_def)
  with assms(2) show ?thesis unfolding db by (auto simp: spent_def spent_code_def pred_option_def)
next
  case False
  then have "snd (VerifyAndConsumeTOTP E now j code db) = db"
    by (auto simp: VerifyAndConsumeTOTP_def split: option.splits prod.splits if_splits)
  with assms(2) show ?thesis by simp
qed

lemma spent_enroll:
  assumes "spent i c h db" and "j \<noteq> i"
  shows "spent i c h (snd (ReplaceRecoveryCodes E j codes db))" "spent i c h (snd (EnableMFA j secret n db))"
proof -
  show "spent i c h (snd (ReplaceRecoveryCodes E j codes db))"
    using assms by (auto simp: ReplaceRecoveryCodes_def spent_def spent_step_def spent_code_def unused_code_def set_sql_delete pred_option_def)
  show "spent i c h (snd (EnableMFA j secret n db))"
    using assms by (auto simp: EnableMFA_def by_user_def intro!: spent_stepI)
qed

lemma spent_sign_in [simp]:
  assumes "auth_ok db" "spent i c h db"
  shows "spent i c h (snd (finish_login W fr now r j m d1 d2 meta db))" "spent i c h (snd (signup_finish W fr now r nxt email j acct db))"
    "spent i c h (snd (second_factor_ok E now j code db))" "spent i c h (snd (findOrCreateOAuthUser W fr now email ok db))"
    "spent i c h (snd (completeStaffSSO W now r ctx p email db))"
  using assms
  by (simp_all add: finish_login_def Create_session_def signup_finish_def second_factor_ok_def findOrCreateOAuthUser_def completeStaffSSO_def Let_def
      case_prod_beta split: sum.split option.split)

lemma spent_sign_in2 [simp]:
  assumes "auth_ok db" "spent i c h db"
  shows "spent i c h (snd (oauth_sign_in W fr now r p email db))" "spent i c h (snd (signup_user W fr now r nxt email j db))"
  using assms by (simp_all add: oauth_sign_in_def signup_user_def case_prod_beta split: sum.split oauth_user.split)

lemma spent_handlers [simp]:
  assumes "auth_ok db" "spent i c h db"
  shows "spent i c h (snd (loginSubmit W fr now r f db))" "spent i c h (snd (signupSubmit W fr now r f db))" "spent i c h (snd (logout W now r ctx db))"
    "spent i c h (snd (mfaChallengeSubmit W fr now r f db))" "spent i c h (snd (magicLinkRequest W fr now r ok f db))"
    "spent i c h (snd (magicLinkConsume W fr now r ctx t db))" "spent i c h (snd (oauthCallback W fr now r ctx q db))"
    "spent i c h (snd (verifyEmail W now r t db))" "spent i c h (snd (verifyEmailResend W fr now r u db))"
    "spent i c h (snd (mfaDisable W now r u db))"
    "spent i c h (snd (adminImpersonate W now r u j f db))" "spent i c h (snd (impersonateStop W now r ctx db))"
    "spent i c h (snd (accountSwitch W now r u f db))" "spent i c h (snd (invitationAccept W now r ctx t db))"
  using assms
  by (simp_all add: loginSubmit_def signupSubmit_def logout_def mfaChallengeSubmit_def magicLinkRequest_def magicLinkConsume_def oauthCallback_def
      verifyEmail_def verifyEmailResend_def mfaDisable_def adminImpersonate_def impersonateStop_def accountSwitch_def
      invitationAccept_def Let_def case_prod_beta split: option.split sum.split pw_result.split)

lemma spent_mfaEnable: "spent i c h db \<Longrightarrow> us_ID u \<noteq> i \<Longrightarrow> spent i c h (snd (mfaEnable W fr now r u f db))"
  by (simp add: mfaEnable_def Let_def case_prod_beta spent_enroll split: option.split sum.split)

lemma spent_ctx: "ctx_change db db' \<Longrightarrow> spent i c h db' = spent i c h db"
  by (rule spent_cong) (auto simp: ctx_change_def)

lemma spent_with_user: "spent i c h db \<Longrightarrow> (\<And>u. ac_user ctx = Some u \<Longrightarrow> spent i c h (snd (g u db))) \<Longrightarrow> spent i c h (snd (with_user gates ctx g db))"
  by (auto simp: with_user_def split: option.split)

text \<open>Requests other than the user's own enrolment of a second factor.\<close>

inductive quiet_step :: "web_env \<Rightarrow> uuid \<Rightarrow> auth_db \<Rightarrow> auth_db \<Rightarrow> bool" for W i where
  request: "(\<And>f u. rt = MfaEnable f \<Longrightarrow> ac_user (fst (load_ctx W now r db)) = Some u \<Longrightarrow> us_ID u \<noteq> i) \<Longrightarrow>
    quiet_step W i db (snd (serve W fr now r rt db))"

lemma spent_serve:
  assumes "auth_ok db" "spent i c h db"
    and "\<And>f u. rt = MfaEnable f \<Longrightarrow> ac_user (fst (load_ctx W now r db)) = Some u \<Longrightarrow> us_ID u \<noteq> i"
  shows "spent i c h (snd (serve W fr now r rt db))"
proof -
  let ?l = "load_ctx W now r db"
  have ok: "auth_ok (snd ?l)" by (rule ok_ctx [OF ctx_change_load assms(1)])
  have sp: "spent i c h (snd ?l)" using spent_ctx [OF ctx_change_load] assms(2) by blast
  show ?thesis
    using ok sp assms(3)
    by (cases rt) (auto simp: serve_def handle_def case_prod_beta Let_def intro!: spent_with_user spent_mfaEnable)
qed

lemma spent_run:
  assumes "(quiet_step W i)\<^sup>*\<^sup>* db db2" and "auth_ok db" "spent i c h db"
  shows "auth_ok db2 \<and> spent i c h db2"
  using assms(1)
proof (induction rule: rtranclp_induct)
  case (step db1 db2)
  from step.hyps(2) show ?case
  proof cases
    case (request rt now r fr)
    with step.IH show ?thesis by (auto intro!: spent_serve ok_serve)
  qed
qed (use assms(2,3) in simp)

text \<open>The time step a code matches for a user, if it matches one.\<close>

definition matched_step :: "auth_env \<Rightarrow> gotime \<Rightarrow> uuid \<Rightarrow> string \<Rightarrow> auth_db \<Rightarrow> int option" where
  "matched_step E now i code db =
     (case sql_first (by_user i) (au_users db) of
        None \<Rightarrow> None
      | Some u \<Rightarrow>
          (case u_TotpSecret u of
             None \<Rightarrow> None
           | Some secret \<Rightarrow>
               (case VerifyTOTPWithCounter (env_hmac E) secret code now of (c, ok) \<Rightarrow> if ok then Some c else None)))"

lemma spent_step_refuses:
  assumes "spent_step i c db" and "matched_step E now i code db = Some c'" and "c' \<le> c"
  shows "VerifyAndConsumeTOTP E now i code db = (Inr False, db)"
proof -
  from assms(2) obtain u secret where u: "sql_first (by_user i) (au_users db) = Some u" "u_TotpSecret u = Some secret"
    "VerifyTOTPWithCounter (env_hmac E) secret code now = (c', True)"
    by (auto simp: matched_step_def split: option.splits prod.splits if_splits)
  moreover obtain l where "u_LastCounter u = Some l" "c \<le> l"
    using assms(1) sql_first_Some [OF u(1)] u(2) by (auto simp: spent_step_def by_user_def)
  ultimately show ?thesis using assms(3) by (simp add: VerifyAndConsumeTOTP_def)
qed

lemma spent_code_refuses: "spent_code i (code_hash E code) db \<Longrightarrow> \<not> fst (ConsumeRecoveryCode E now i code db)"
  by (auto simp: ConsumeRecoveryCode_def Let_def spent_code_def sql_affected_def filter_empty_conv)

lemma challenge_spends:
  assumes "auth_ok db" and "passed_second_factor W now r (MfaChallenge (Some f)) i db"
  shows "spent i (if fst (VerifyAndConsumeTOTP (web_auth W) now i (TrimSpace (f ''code'')) db) = Inr True
         then matched_step (web_auth W) now i (TrimSpace (f ''code'')) db else None)
      (if fst (VerifyAndConsumeTOTP (web_auth W) now i (TrimSpace (f ''code'')) db) = Inr True then None
       else Some (code_hash (web_auth W) (TrimSpace (f ''code''))))
      (snd (second_factor_ok (web_auth W) now i (TrimSpace (f ''code'')) db))"
proof (cases "fst (VerifyAndConsumeTOTP (web_auth W) now i (TrimSpace (f ''code'')) db) = Inr True")
  case True
  from TOTP_accepted [OF this] obtain u secret n where u: "sql_first (by_user i) (au_users db) = Some u" "u_TotpSecret u = Some secret"
    "VerifyTOTPWithCounter (env_hmac (web_auth W)) secret (TrimSpace (f ''code'')) now = (n, True)"
    "snd (VerifyAndConsumeTOTP (web_auth W) now i (TrimSpace (f ''code'')) db) = set_users (by_user i) (\<lambda>u. u\<lparr>u_LastCounter := Some n\<rparr>) db"
    by blast
  have "second_factor_ok (web_auth W) now i (TrimSpace (f ''code'')) db = (Inr True, snd (VerifyAndConsumeTOTP (web_auth W) now i (TrimSpace (f ''code'')) db))"
    using True by (simp add: second_factor_ok_def case_prod_beta)
  moreover have "matched_step (web_auth W) now i (TrimSpace (f ''code'')) db = Some n" using u by (simp add: matched_step_def)
  moreover have "spent_step i n (set_users (by_user i) (\<lambda>u. u\<lparr>u_LastCounter := Some n\<rparr>) db)"
    by (simp add: spent_step_def sql_update_def by_user_def del: if_image_distrib)
  ultimately show ?thesis using True u(4) by (simp add: spent_def)
next
  case False
  have "\<not> unused_code i h (k\<lparr>cd_UsedAt := Some now\<rparr>)" for h k by (simp add: unused_code_def)
  then have "spent_code i (code_hash (web_auth W) x) (snd (ConsumeRecoveryCode (web_auth W) now i x db'))" for x db'
    by (auto simp: ConsumeRecoveryCode_def Let_def spent_code_def set_sql_update)
  moreover have "fst (VerifyAndConsumeTOTP (web_auth W) now i (TrimSpace (f ''code'')) db) = Inr False"
    using assms(2) False by (auto simp: passed_second_factor_def second_factor_ok_def case_prod_beta split: sum.splits)
  ultimately show ?thesis using False by (simp add: spent_def second_factor_ok_def case_prod_beta)
qed

lemma spent_challenge:
  assumes "PendingMFAUser (web_auth W) now r db = Inr u" "fst (second_factor_ok (web_auth W) now (us_ID u) (TrimSpace (f ''code'')) db) = Inr True"
    and "spent i c h (snd (second_factor_ok (web_auth W) now (us_ID u) (TrimSpace (f ''code'')) db))"
  shows "spent i c h (snd (mfaChallengeSubmit W fr now r (Some f) db))"
  using assms by (simp add: mfaChallengeSubmit_def Let_def case_prod_beta split: sum.split)

text \<open>
  C12. A code is used once. After a request passed the second factor, and until the user enrols a second factor anew, whatever other
  requests follow: when a one-time code was accepted, no code of the same or an earlier time
  step is accepted for that user again, at any time; when a recovery code was accepted, it is not
  accepted again, however it is spelt. Enrolling anew sets the last accepted step to that of the confirming code, which
  for the same secret may lie before a step whose code was used.
\<close>

theorem codes_used_once:
  assumes "auth_ok db" and "passed_second_factor W now r (MfaChallenge (Some f)) i db"
    and "(quiet_step W i)\<^sup>*\<^sup>* (snd (serve W fr now r (MfaChallenge (Some f)) db)) db2"
  shows "if fst (VerifyAndConsumeTOTP (web_auth W) now i (TrimSpace (f ''code'')) db) = Inr True
    then matched_step (web_auth W) now i (TrimSpace (f ''code'')) db = Some c \<and> matched_step (web_auth W) now' i code' db2 = Some c' \<and> c' \<le> c \<longrightarrow>
      VerifyAndConsumeTOTP (web_auth W) now' i code' db2 = (Inr False, db2)
    else code_hash (web_auth W) code' = code_hash (web_auth W) (TrimSpace (f ''code'')) \<longrightarrow>
      \<not> fst (ConsumeRecoveryCode (web_auth W) now' i code' db2)"
proof -
  let ?E = "web_auth W" and ?code = "TrimSpace (f ''code'')"
  let ?c = "if fst (VerifyAndConsumeTOTP ?E now i ?code db) = Inr True then matched_step ?E now i ?code db else None"
  let ?h = "if fst (VerifyAndConsumeTOTP ?E now i ?code db) = Inr True then None else Some (code_hash ?E ?code)"
  obtain ctx db1 where l: "load_ctx W now r db = (ctx, db1)" by fastforce
  have ch: "ctx_change db db1" using ctx_change_load [of db W now r] by (simp add: l)
  have same: "VerifyAndConsumeTOTP ?E now i ?code db1 = map_prod id (\<lambda>d. d\<lparr>au_sessions := au_sessions db1\<rparr>) (VerifyAndConsumeTOTP ?E now i ?code db)"
    "matched_step ?E now i ?code db1 = matched_step ?E now i ?code db"
    using ch by (auto simp: ctx_change_def VerifyAndConsumeTOTP_def matched_step_def set_users_def split: option.split prod.split)
  from assms(2) have p: "passed_second_factor W now r (MfaChallenge (Some f)) i db1"
    by (simp add: passed_second_factor_def second_factor_ctx [OF ch] PendingMFAUser_ctx [OF ch])
  then obtain u where u: "PendingMFAUser ?E now r db1 = Inr u" "us_ID u = i" "fst (second_factor_ok ?E now i ?code db1) = Inr True"
    by (auto simp: passed_second_factor_def)
  have "spent i ?c ?h (snd (second_factor_ok ?E now i ?code db1))"
    using challenge_spends [OF ok_ctx [OF ch assms(1)] p] unfolding same by simp
  then have "spent i ?c ?h (snd (mfaChallengeSubmit W fr now r (Some f) db1))"
    using u by (intro spent_challenge [of W now r db1 u]) simp_all
  then have "spent i ?c ?h (snd (serve W fr now r (MfaChallenge (Some f)) db))" by (simp add: serve_def l handle_def)
  from spent_run [OF assms(3) ok_serve [OF assms(1)] this] have "spent i ?c ?h db2" by blast
  then show ?thesis
    using spent_step_refuses [of i c db2 ?E now' code' c'] spent_code_refuses [of i ?E code' db2] by (auto simp: spent_def)
qed

end
