(* ===== verification/Sign_In_Limits.thy ===== *)
theory Sign_In_Limits
  imports Sign_In_Safety Account_Ownership
begin

text \<open>
  The login throttle, the one-time links, and concrete instances of the properties of signing in.
\<close>

section \<open>The login throttle\<close>

lemma foldr_max_less: "xs \<noteq> [] \<Longrightarrow> foldr max xs (hd xs) < (x :: int) \<longleftrightarrow> (\<forall>y \<in> set xs. y < x)"
proof -
  have "foldr max xs a < x \<longleftrightarrow> a < x \<and> (\<forall>y \<in> set xs. y < x)" for a by (induction xs) auto
  then show "xs \<noteq> [] \<Longrightarrow> ?thesis" by auto
qed

lemma foldr_min_le: "xs \<noteq> [] \<Longrightarrow> (x :: int) < foldr min xs (hd xs) \<longleftrightarrow> (\<forall>y \<in> set xs. x < y)"
proof -
  have "x < foldr min xs a \<longleftrightarrow> x < a \<and> (\<forall>y \<in> set xs. x < y)" for a by (induction xs) auto
  then show "xs \<noteq> [] \<Longrightarrow> ?thesis" by auto
qed

lemma foldr_min_in: "xs \<noteq> [] \<Longrightarrow> foldr min xs (hd xs) \<in> set (xs :: int list)"
proof -
  have "foldr min xs a \<in> set (a # xs)" for a by (induction xs) (auto simp: min_def)
  then show "xs \<noteq> [] \<Longrightarrow> ?thesis" by (metis insert_absorb list.set(2) list.set_sel(1))
qed

lemma length_filter_strict:
  "(\<And>x. P x \<Longrightarrow> Q x) \<Longrightarrow> a \<in> set xs \<Longrightarrow> Q a \<Longrightarrow> \<not> P a \<Longrightarrow> length (filter P xs) < length (filter Q xs)"
proof (induction xs)
  case (Cons y xs)
  have "length (filter P xs) \<le> length (filter Q xs)" using Cons.prems(1) by (induction xs) auto
  with Cons show ?case by (auto simp: less_Suc_eq_le)
qed simp

definition counts :: "auth_env \<Rightarrow> gotime \<Rightarrow> string \<Rightarrow> auth_db \<Rightarrow> gotime \<Rightarrow> bool" where
  "counts E now email db x \<longleftrightarrow> now - env_window E < x \<and>
     (\<forall>a \<in> set (au_attempts db). same_email E (la_Email a) email \<and> la_Succeeded a \<longrightarrow> la_At a < x)"

lemma throttle_since_less: "throttle_since E now email db < x \<longleftrightarrow> counts E now email db x"
proof -
  let ?P = "\<lambda>a. same_email E (la_Email a) email \<and> la_Succeeded a \<and> la_At a > now - env_window E"
  let ?oks = "map la_At (filter ?P (au_attempts db))"
  have m: "foldr max ?oks (hd ?oks) < x \<longleftrightarrow> (\<forall>y \<in> set ?oks. y < x)" if "?oks \<noteq> []"
    using foldr_max_less [OF that] .
  have g: "now - env_window E < foldr max ?oks (hd ?oks)" if "?oks \<noteq> []"
  proof -
    have "\<not> (\<forall>y \<in> set ?oks. y < hd ?oks)" using that by (meson less_irrefl list.set_sel(1))
    then have "hd ?oks \<le> foldr max ?oks (hd ?oks)" using foldr_max_less [OF that, of "hd ?oks"] by linarith
    moreover have "hd ?oks \<in> set ?oks" using that by (rule list.set_sel(1))
    ultimately show ?thesis by auto
  qed
  show ?thesis
  proof (cases "?oks = []")
    case True
    then have "\<forall>a \<in> set (au_attempts db). same_email E (la_Email a) email \<and> la_Succeeded a \<longrightarrow> la_At a \<le> now - env_window E"
      by (auto simp: filter_empty_conv)
    moreover have "throttle_since E now email db = now - env_window E" unfolding throttle_since_def Let_def using True by simp
    ultimately show ?thesis unfolding counts_def by (metis order_le_less_trans)
  next
    case False
    have "throttle_since E now email db = foldr max ?oks (hd ?oks)"
      unfolding throttle_since_def Let_def using False g [OF False] by simp
    then have "throttle_since E now email db < x \<longleftrightarrow> (\<forall>y \<in> set ?oks. y < x)" using m [OF False] by simp
    also have "\<dots> \<longleftrightarrow> counts E now email db x"
    proof
      assume "\<forall>y \<in> set ?oks. y < x"
      then have "foldr max ?oks (hd ?oks) < x" using m [OF False] by simp
      then have "now - env_window E < x" using g [OF False] by linarith
      with \<open>\<forall>y \<in> set ?oks. y < x\<close> show "counts E now email db x" by (force simp: counts_def)
    qed (auto simp: counts_def)
    finally show ?thesis .
  qed
qed

lemma throttle_fails_counts:
  "throttle_fails E now email db =
    map la_At (filter (\<lambda>a. same_email E (la_Email a) email \<and> \<not> la_Succeeded a \<and> counts E now email db (la_At a)) (au_attempts db))"
  by (simp add: throttle_fails_def throttle_since_less)

lemma loginSubmit_locked:
  assumes "f ''password'' \<noteq> []" "TrimSpace (tx_ToLower (web_text W) (f ''email'')) = email" "email \<noteq> []"
    and "Check (web_auth W) now email db = Some l" "ls_Locked l"
  shows "loginSubmit W fr now r (Some f) db = (plain_reply (HttpStatus 429), db)"
  using assms by (simp add: loginSubmit_def Let_def)

text \<open>
  The lockout is exact. When the failures that count reach the limit, signing in is refused for the
  address, whatever the password, and nothing is recorded, until exactly the time the answer
  gives to the client; from then on the address is no longer locked.
\<close>

theorem lockout_exact:
  assumes "Check (web_auth W) now email db = Some l" and "ls_Locked l"
    and "length (throttle_fails (web_auth W) now email db) = env_maxFails (web_auth W)" and "0 < env_maxFails (web_auth W)"
    and "\<And>a. a \<in> set (au_attempts db) \<Longrightarrow> la_At a \<le> now" and "0 < env_window (web_auth W)" "env_window (web_auth W) < 2 ^ 63"
    and "now \<le> t"
  shows "Check (web_auth W) t email db \<noteq> None \<and> (ls_Locked (the (Check (web_auth W) t email db)) \<longleftrightarrow> t < now + ls_RetryAfter l) \<and>
    (f ''password'' \<noteq> [] \<and> TrimSpace (tx_ToLower (web_text W) (f ''email'')) = email \<and> email \<noteq> [] \<and> t < now + ls_RetryAfter l \<longrightarrow>
      loginSubmit W fr t r (Some f) db = (plain_reply (HttpStatus 429), db))"
proof -
  let ?E = "web_auth W"
  let ?Q = "\<lambda>n a. same_email ?E (la_Email a) email \<and> \<not> la_Succeeded a \<and> counts ?E n email db (la_At a)"
  let ?fs = "throttle_fails ?E now email db"
  have ne: "?fs \<noteq> []" using assms(3,4) by auto
  have ok: "pg_text_ok email" using assms(1) by (auto simp: Check_def split: if_splits)
  let ?old = "foldr min ?fs (hd ?fs)"
  have old_in: "?old \<in> set ?fs" by (rule foldr_min_in [OF ne])
  then have old: "now - env_window ?E < ?old" "?old \<le> now" using assms(5) by (auto simp: throttle_fails_counts counts_def)
  have l: "ls_RetryAfter l = ?old + env_window ?E - now"
    using assms(1,3) old assms(6,7) ne ok by (auto simp: Check_def Let_def time_Sub_def split: if_splits)
  have sub: "?Q t a \<longleftrightarrow> ?Q now a \<and> t - env_window ?E < la_At a" for a using assms(8) by (auto simp: counts_def)
  have lt: "length (throttle_fails ?E t email db) < env_maxFails ?E \<longleftrightarrow> \<not> t < ?old + env_window ?E"
  proof
    assume "\<not> t < ?old + env_window ?E"
    moreover obtain a where a: "a \<in> set (au_attempts db)" "?Q now a" "la_At a = ?old" using old_in by (auto simp: throttle_fails_counts)
    ultimately have "\<not> ?Q t a" using sub [of a] by linarith
    then have "length (filter (?Q t) (au_attempts db)) < length (filter (?Q now) (au_attempts db))"
      using a(1,2) sub by (intro length_filter_strict [of "?Q t" "?Q now" a]) blast+
    then show "length (throttle_fails ?E t email db) < env_maxFails ?E" using assms(3) by (simp add: throttle_fails_counts)
  next
    assume "length (throttle_fails ?E t email db) < env_maxFails ?E"
    moreover have "?Q t a \<longleftrightarrow> ?Q now a" if "t < ?old + env_window ?E" "a \<in> set (au_attempts db)" for a
    proof -
      have "?old \<le> la_At a" if "?Q now a"
        using that \<open>a \<in> set (au_attempts db)\<close> foldr_min_le [OF ne, of "la_At a"] by (force simp: throttle_fails_counts)
      with that sub [of a] show ?thesis by linarith
    qed
    ultimately show "\<not> t < ?old + env_window ?E"
      using assms(3) filter_cong [of "au_attempts db" "au_attempts db" "?Q t" "?Q now"] by (auto simp: throttle_fails_counts)
  qed
  have c: "Check ?E t email db \<noteq> None" "ls_Locked (the (Check ?E t email db)) \<longleftrightarrow> t < now + ls_RetryAfter l"
    using lt l ok by (auto simp: Check_def Let_def)
  then show ?thesis
    using loginSubmit_locked [of f W email t db] by fastforce
qed

section \<open>What the throttle does not count\<close>

lemma bad_address_unrecorded:
  assumes "ClientIP r \<noteq> []" "tx_inet (web_text W) (ClientIP r) = None"
  shows "snd (throttle_Record (web_auth W) now email (ClientIP r) ok db) = db"
    "ad_audit (audit_db (web_text W) now (req_event r acct actor action kind target meta) a) = ad_audit a"
  using assms by (simp_all add: throttle_Record_def ipOrNil_def audit_db_def audit_Record_def req_event_def)

lemma load_attempts [simp]: "au_attempts (snd (load_ctx W now r db)) = au_attempts db" "au_acct (snd (load_ctx W now r db)) = au_acct db"
  using ctx_change_load [of db W now r] by (auto simp: ctx_change_def)

lemma guess_unrecorded:
  assumes "ClientIP r \<noteq> []" "tx_inet (web_text W) (ClientIP r) = None"
  shows "au_attempts (snd (serve W fr now r (Login frm) db)) = au_attempts db \<and>
    ad_audit (au_acct (snd (serve W fr now r (Login frm) db))) = ad_audit (au_acct db)"
proof -
  note b = bad_address_unrecorded [OF assms]
  have f: "au_attempts (snd (finish_login W fr now r i m d1 d2 meta db)) = au_attempts db \<and>
      ad_audit (au_acct (snd (finish_login W fr now r i m d1 d2 meta db))) = ad_audit (au_acct db)" for i m d1 d2 meta db
    by (simp add: finish_login_def Create_session_def CreatePending_def create_session_def audit_web_def b Let_def case_prod_beta)
  show ?thesis
    by (simp add: serve_def handle_def case_prod_beta loginSubmit_def Let_def b f audit_web_def split: option.split pw_result.split)
qed

lemma Check_cong: "au_attempts db' = au_attempts db \<Longrightarrow> Check E now email db' = Check E now email db"
  by (simp add: Check_def throttle_fails_def throttle_since_def)

text \<open>
  The throttle can be avoided. The client's address is taken from the header \<open>X-Forwarded-For\<close>, which
  the client writes. When it is no address, recording the attempt fails and the handler ignores the error: any
  number of guesses leaves the table of attempts and the audit log as they were, and the
  address never becomes locked.
\<close>

theorem throttle_bypass:
  assumes "rq_XForwardedFor r = xff" "xff \<noteq> []" "CHR '','' \<notin> set xff" "TrimSpace xff \<noteq> []" "tx_inet (web_text W) (TrimSpace xff) = None"
    and "Check (web_auth W) now email db = Some l" "\<not> ls_Locked l"
  shows "let db' = foldl (\<lambda>d (fr, f). snd (serve W fr now r (Login (Some f)) d)) db guesses in
    au_attempts db' = au_attempts db \<and> ad_audit (au_acct db') = ad_audit (au_acct db) \<and> Check (web_auth W) now email db' = Some l"
proof -
  have ip: "ClientIP r \<noteq> []" "tx_inet (web_text W) (ClientIP r) = None" using assms by (simp_all add: ClientIP_def)
  let ?d = "foldl (\<lambda>d (fr, f). snd (serve W fr now r (Login (Some f)) d)) db guesses"
  have d: "au_attempts ?d = au_attempts db \<and> ad_audit (au_acct ?d) = ad_audit (au_acct db)"
    by (induction guesses arbitrary: db) (simp_all add: split_beta guess_unrecorded [OF ip])
  with Check_cong [OF d [THEN conjunct1], of "web_auth W" now email] assms(6) show ?thesis unfolding Let_def by (intro conjI) simp_all
qed

section \<open>One-time links\<close>

text \<open>
  What both kinds of link promise. A provider keeps a table of tokens in its state; redeeming a token reads and marks it
  as \<open>consume_token\<close> says, and every step of the system only adds rows and marks. The client's lemma: a link is good at
  most once and until it expires, and for the user it was issued to.
\<close>

definition token_core :: "token_row \<Rightarrow> uuid \<times> uuid \<times> string \<times> gotime" where
  "token_core k = (tk_ID k, tk_UserID k, tk_hash k, tk_ExpiresAt k)"

definition token_later :: "token_row \<Rightarrow> token_row \<Rightarrow> bool" where
  "token_later k k' \<longleftrightarrow> token_core k' = token_core k \<and> (tk_ConsumedAt k \<noteq> None \<longrightarrow> tk_ConsumedAt k' \<noteq> None)"

definition table_later :: "token_row list \<Rightarrow> token_row list \<Rightarrow> bool" where
  "table_later t t' \<longleftrightarrow> (\<exists>m new. t' = map m t @ new \<and> (\<forall>k. token_later k (m k)))"

lemma token_later_refl [simp]: "token_later k k"
  by (simp add: token_later_def)

lemma table_later_refl [simp]: "table_later t t"
  unfolding table_later_def by (rule exI [of _ id]) simp

lemma table_later_append [simp]: "table_later t (t @ new)"
  unfolding table_later_def by (rule exI [of _ id]) simp

lemma token_later_trans: "token_later a b \<Longrightarrow> token_later b c \<Longrightarrow> token_later a c"
  by (auto simp: token_later_def)

lemma table_later_trans: "table_later a b \<Longrightarrow> table_later b c \<Longrightarrow> table_later a c"
proof -
  assume "table_later a b" "table_later b c"
  then obtain m x n y where "b = map m a @ x" "\<forall>k. token_later k (m k)" "c = map n b @ y" "\<forall>k. token_later k (n k)"
    unfolding table_later_def by blast
  then show ?thesis
    unfolding table_later_def by (intro exI [of _ "n \<circ> m"] exI [of _ "map n x @ y"]) (auto intro: token_later_trans)
qed

lemma first_later:
  assumes "table_later t t'" and "sql_first (\<lambda>k. tk_hash k = h) t = Some k"
  shows "\<exists>k'. sql_first (\<lambda>k. tk_hash k = h) t' = Some k' \<and> token_later k k'"
proof -
  from assms(1) obtain m new where t': "t' = map m t @ new" and m: "\<And>k. token_later k (m k)" unfolding table_later_def by blast
  have "tk_hash (m k) = tk_hash k" for k using m [of k] by (simp add: token_later_def token_core_def)
  then have "sql_first (\<lambda>k. tk_hash k = h) (map m t) = map_option m (sql_first (\<lambda>k. tk_hash k = h) t)" by (induction t) auto
  with assms(2) m [of k] show ?thesis by (simp add: t' sql_first_append)
qed

lemma consume_later: "consume_token h now t = Inr (u, t') \<Longrightarrow> table_later t t'"
proof -
  assume "consume_token h now t = Inr (u, t')"
  then have "\<exists>k :: token_row. t' = sql_update (\<lambda>q. tk_ID q = tk_ID k) (\<lambda>q. q\<lparr>tk_ConsumedAt := Some now\<rparr>) t"
    by (auto simp: consume_token_def split: option.splits if_splits)
  then obtain k :: token_row where "t' = sql_update (\<lambda>q. tk_ID q = tk_ID k) (\<lambda>q. q\<lparr>tk_ConsumedAt := Some now\<rparr>) t" by blast
  then show ?thesis
    unfolding table_later_def sql_update_def
    by (intro exI [of _ "\<lambda>q. if tk_ID q = tk_ID k then q\<lparr>tk_ConsumedAt := Some now\<rparr> else q"] exI [of _ "[]"]) (auto simp: token_later_def token_core_def)
qed

locale one_time_links =
  fixes tokens :: "'s \<Rightarrow> token_row list"
    and redeem :: "string \<Rightarrow> gotime \<Rightarrow> 's \<Rightarrow> (sign_error + uuid) \<times> 's"
    and step :: "'s \<Rightarrow> 's \<Rightarrow> bool"
  assumes redeem_fail: "consume_token h now (tokens s) = Inl e \<Longrightarrow> redeem h now s = (Inl e, s)"
    and redeem_ok: "consume_token h now (tokens s) = Inr (u, t) \<Longrightarrow> fst (redeem h now s) = Inr u \<and> tokens (snd (redeem h now s)) = t"
    and step_later: "step s s' \<Longrightarrow> table_later (tokens s) (tokens s')"
begin

lemma steps_later: "step\<^sup>*\<^sup>* s s' \<Longrightarrow> table_later (tokens s) (tokens s')"
  by (induction rule: rtranclp_induct) (auto intro: table_later_trans step_later)

lemma redeem_cases:
  assumes "fst (redeem h now s) = Inr u"
  shows "\<exists>k t. sql_first (\<lambda>k. tk_hash k = h) (tokens s) = Some k \<and> tk_UserID k = u \<and> tk_ConsumedAt k = None \<and> now \<le> tk_ExpiresAt k \<and>
    consume_token h now (tokens s) = Inr (u, t) \<and> tokens (snd (redeem h now s)) = t"
proof (cases "consume_token h now (tokens s)")
  case (Inl e)
  with redeem_fail assms show ?thesis by fastforce
next
  case (Inr p)
  with redeem_ok [of h now s "fst p" "snd p"] assms show ?thesis
    by (auto simp: consume_token_def split: option.splits if_splits)
qed

lemma used_once:
  assumes "fst (redeem h now s) = Inr u" and "step\<^sup>*\<^sup>* (snd (redeem h now s)) s'"
  shows "redeem h now' s' = (Inl TokenGone, s')"
proof -
  from redeem_cases [OF assms(1)] obtain k t where k: "sql_first (\<lambda>k. tk_hash k = h) (tokens s) = Some k"
    and c: "consume_token h now (tokens s) = Inr (u, t)" and t: "tokens (snd (redeem h now s)) = t" by blast
  have "sql_first (\<lambda>k. tk_hash k = h) t = Some (k\<lparr>tk_ConsumedAt := Some now\<rparr>)"
    using c k by (auto simp: consume_token_def sql_first_update split: if_splits)
  with first_later [OF steps_later [OF assms(2)]] obtain k' where "sql_first (\<lambda>k. tk_hash k = h) (tokens s') = Some k'" "tk_ConsumedAt k' \<noteq> None"
    by (fastforce simp: t token_later_def)
  then show ?thesis by (intro redeem_fail) (simp add: consume_token_def)
qed

lemma good_until:
  assumes "sql_first (\<lambda>k. tk_hash k = h) (tokens s) = Some k" and "step\<^sup>*\<^sup>* s s'" and "fst (redeem h now s') = Inr u"
  shows "u = tk_UserID k \<and> now \<le> tk_ExpiresAt k"
proof -
  from redeem_cases [OF assms(3)] obtain k' where "sql_first (\<lambda>k. tk_hash k = h) (tokens s') = Some k'" "tk_UserID k' = u" "now \<le> tk_ExpiresAt k'"
    by blast
  with first_later [OF steps_later [OF assms(2)] assms(1)] show ?thesis by (auto simp: token_later_def token_core_def)
qed

end

subsection \<open>The two kinds of link\<close>

definition redeem_magic :: "string \<Rightarrow> gotime \<Rightarrow> auth_db \<Rightarrow> (sign_error + uuid) \<times> auth_db" where
  "redeem_magic h now db =
     (case consume_token h now (au_magic db) of Inl e \<Rightarrow> (Inl e, db) | Inr (userID, t) \<Rightarrow> (Inr userID, db\<lparr>au_magic := t\<rparr>))"

definition redeem_verify :: "string \<Rightarrow> gotime \<Rightarrow> auth_db \<Rightarrow> (sign_error + uuid) \<times> auth_db" where
  "redeem_verify h now db =
     (case consume_token h now (au_verify db) of
        Inl e \<Rightarrow> (Inl e, db)
      | Inr (userID, t) \<Rightarrow> (Inr userID, set_users (by_user userID) (\<lambda>u. u\<lparr>u_EmailVerified := True\<rparr>) (db\<lparr>au_verify := t\<rparr>)))"

lemma redeem_eqs:
  "ConsumeMagicLink E now raw db = redeem_magic (token_of E raw) now db" "VerifyEmail E now raw db = redeem_verify (token_of E raw) now db"
  by (simp_all add: ConsumeMagicLink_def VerifyEmail_def redeem_magic_def redeem_verify_def)

text \<open>Both tables only grow and get marks; \<open>links_later\<close> says it of both at once.\<close>

definition links_later :: "auth_db \<Rightarrow> auth_db \<Rightarrow> bool" where
  "links_later db db' \<longleftrightarrow> table_later (au_magic db) (au_magic db') \<and> table_later (au_verify db) (au_verify db')"

lemma links_later_trans: "links_later a b \<Longrightarrow> links_later b c \<Longrightarrow> links_later a c"
  by (auto simp: links_later_def intro: table_later_trans)

lemma links_same: "au_magic db' = au_magic db \<Longrightarrow> au_verify db' = au_verify db \<Longrightarrow> links_later db0 db' = links_later db0 db"
  by (simp add: links_later_def)

lemma links_frame [simp]:
  "links_later db0 (audit_web W now e db) = links_later db0 db" "links_later db0 (snd (throttle_Record E now email ip ok db)) = links_later db0 db"
  "links_later db0 (snd (create_session E newid raw now j a p db)) = links_later db0 db"
  "links_later db0 (snd (CreatePending E newid raw now j db)) = links_later db0 db"
  "links_later db0 (snd (CompleteMFA E newid raw now r db)) = links_later db0 db" "links_later db0 (Destroy E r db) = links_later db0 db"
  "links_later db0 (snd (SetCurrentAccount E r a db)) = links_later db0 db" "links_later db0 (snd (MarkStaffVerified E now r db)) = links_later db0 db"
  "links_later db0 (snd (StartImpersonation E r j k db)) = links_later db0 db" "links_later db0 (snd (StopImpersonation E r db)) = links_later db0 db"
  "links_later db0 (snd (ReplaceRecoveryCodes E j codes db)) = links_later db0 db" "links_later db0 (snd (EnableMFA j secret n db)) = links_later db0 db"
  "links_later db0 (DisableMFA j db) = links_later db0 db" "links_later db0 (snd (VerifyAndConsumeTOTP E now j code db)) = links_later db0 db"
  "links_later db0 (snd (ConsumeRecoveryCode E now j code db)) = links_later db0 db" "links_later db0 (snd (insertUser E newid now email hash v db)) = links_later db0 db"
  "links_later db0 (promote_staff W email j db) = links_later db0 db"
  by (intro links_same; simp add: throttle_Record_def create_session_def CreatePending_def CompleteMFA_def Destroy_def SetCurrentAccount_def upd_session_def
      MarkStaffVerified_def StartImpersonation_def StopImpersonation_def ReplaceRecoveryCodes_def EnableMFA_def DisableMFA_def VerifyAndConsumeTOTP_def
      ConsumeRecoveryCode_def insertUser_def promote_staff_def Let_def case_prod_beta split: option.split sum.split)+

lemma links_on_acct [simp]: "links_later db0 (snd (on_acct f db)) = links_later db0 db"
  by (rule links_same) (simp_all add: on_acct_def case_prod_beta)

lemma links_set_customer [simp]: "links_later db0 (set_customer W acct email db) = links_later db0 db"
  by (simp add: set_customer_def split: option.split)

lemma links_tokens [simp]:
  assumes "links_later db0 db"
  shows "links_later db0 (snd (CreateMagicLinkToken E newid raw now j db))" "links_later db0 (snd (CreateVerificationToken E newid raw now j db))"
    "links_later db0 (snd (ConsumeMagicLink E now raw db))" "links_later db0 (snd (VerifyEmail E now raw db))"
  using assms
  by (auto simp: links_later_def CreateMagicLinkToken_def CreateVerificationToken_def insert_token_def ConsumeMagicLink_def VerifyEmail_def
      split: option.split sum.split dest: consume_later intro: table_later_trans)

lemma links_sign_in [simp]:
  assumes "links_later db0 db"
  shows "links_later db0 (snd (finish_login W fr now r j m d1 d2 meta db))" "links_later db0 (snd (signup_finish W fr now r nxt email j acct db))"
    "links_later db0 (snd (second_factor_ok E now j code db))" "links_later db0 (snd (findOrCreateOAuthUser W fr now email ok db))"
    "links_later db0 (snd (completeStaffSSO W now r ctx p email db))"
  using assms
  by (simp_all add: finish_login_def Create_session_def signup_finish_def second_factor_ok_def findOrCreateOAuthUser_def completeStaffSSO_def Let_def
      case_prod_beta split: sum.split option.split)

lemma links_sign_in2 [simp]:
  assumes "links_later db0 db"
  shows "links_later db0 (snd (oauth_sign_in W fr now r p email db))" "links_later db0 (snd (signup_user W fr now r nxt email j db))"
  using assms by (simp_all add: oauth_sign_in_def signup_user_def case_prod_beta split: sum.split oauth_user.split)

lemma links_handlers [simp]:
  assumes "links_later db0 db"
  shows "links_later db0 (snd (loginSubmit W fr now r f db))" "links_later db0 (snd (signupSubmit W fr now r f db))" "links_later db0 (snd (logout W now r ctx db))"
    "links_later db0 (snd (mfaChallengeSubmit W fr now r f db))" "links_later db0 (snd (magicLinkRequest W fr now r ok f db))"
    "links_later db0 (snd (magicLinkConsume W fr now r ctx t db))" "links_later db0 (snd (oauthCallback W fr now r ctx q db))"
    "links_later db0 (snd (verifyEmail W now r t db))" "links_later db0 (snd (verifyEmailResend W fr now r u db))"
    "links_later db0 (snd (mfaEnable W fr now r u f db))" "links_later db0 (snd (mfaDisable W now r u db))"
    "links_later db0 (snd (adminImpersonate W now r u j f db))" "links_later db0 (snd (impersonateStop W now r ctx db))"
    "links_later db0 (snd (accountSwitch W now r u f db))" "links_later db0 (snd (invitationAccept W now r ctx t db))"
  using assms
  by (simp_all add: loginSubmit_def signupSubmit_def logout_def mfaChallengeSubmit_def magicLinkRequest_def magicLinkConsume_def oauthCallback_def
      verifyEmail_def verifyEmailResend_def mfaEnable_def mfaDisable_def adminImpersonate_def impersonateStop_def accountSwitch_def
      invitationAccept_def Let_def case_prod_beta split: option.split sum.split pw_result.split)

lemma links_step: "auth_step W db db' \<Longrightarrow> links_later db db'"
proof (erule auth_step.cases)
  fix d fr now r rt assume "db = d" "db' = snd (serve W fr now r rt d)"
  moreover have "links_later d (snd (load_ctx W now r d))" using ctx_change_load [of d W now r] by (auto simp: ctx_change_def links_later_def)
  moreover have "links_later d (snd (with_user gates ctx h e))" if "links_later d e" "\<And>u. links_later d (snd (h u e))" for gates ctx h e
    using that by (auto simp: with_user_def split: option.split)
  ultimately show ?thesis by (cases rt) (simp_all add: serve_def handle_def case_prod_beta Let_def)
qed

interpretation magic: one_time_links au_magic redeem_magic "auth_step W" for W
  by unfold_locales (auto simp: redeem_magic_def links_later_def dest: links_step)

interpretation verification: one_time_links au_verify redeem_verify "auth_step W" for W
  by unfold_locales (auto simp: redeem_verify_def links_later_def dest: links_step)

text \<open>
  One-time links. A magic link or a verification link works only until it expires, fifteen minutes or a
  day after it was made, and for the user it was made for, whatever requests come in
  between; once it has worked it is refused for ever.
\<close>

theorem links_used_once:
  assumes "CreateMagicLinkToken E i1 raw1 t1 u1 db1 = (Inr raw1, db2)" and "(auth_step W)\<^sup>*\<^sup>* db2 db3"
    and "ConsumeMagicLink E n1 raw1 db3 = (Inr v1, db4)" and "(auth_step W)\<^sup>*\<^sup>* db4 db5"
    and "CreateVerificationToken E i2 raw2 t2 u2 dc1 = (Inr raw2, dc2)" and "(auth_step W)\<^sup>*\<^sup>* dc2 dc3"
    and "VerifyEmail E n2 raw2 dc3 = (Inr v2, dc4)" and "(auth_step W)\<^sup>*\<^sup>* dc4 dc5"
  shows "v1 = u1 \<and> n1 \<le> t1 + 15 * 60 * nsSecond \<and> ConsumeMagicLink E n1' raw1 db5 = (Inl TokenGone, db5) \<and>
    v2 = u2 \<and> n2 \<le> t2 + 24 * 3600 * nsSecond \<and> VerifyEmail E n2' raw2 dc5 = (Inl TokenGone, dc5)"
proof -
  have first: "insert_token i h x u d t = Some t' \<Longrightarrow> sql_first (\<lambda>k. tk_hash k = h) t' =
      Some \<lparr>tk_ID = i, tk_UserID = u, tk_hash = h, tk_ExpiresAt = x, tk_ConsumedAt = None\<rparr>" for i h x u d t t'
  proof -
    assume "insert_token i h x u d t = Some t'"
    then have "h \<notin> set (map tk_hash t)" "t' = t @ [\<lparr>tk_ID = i, tk_UserID = u, tk_hash = h, tk_ExpiresAt = x, tk_ConsumedAt = None\<rparr>]"
      by (auto simp: insert_token_def split: if_splits)
    moreover from this(1) have "sql_first (\<lambda>k. tk_hash k = h) t = None" by (force simp: sql_first_None)
    ultimately show ?thesis by (simp add: sql_first_append)
  qed
  have k1: "sql_first (\<lambda>k. tk_hash k = token_of E raw1) (au_magic db2) =
      Some \<lparr>tk_ID = i1, tk_UserID = u1, tk_hash = token_of E raw1, tk_ExpiresAt = t1 + MagicLinkTTL, tk_ConsumedAt = None\<rparr>"
    using assms(1) by (auto simp: CreateMagicLinkToken_def dest: first split: option.splits)
  have k2: "sql_first (\<lambda>k. tk_hash k = token_of E raw2) (au_verify dc2) =
      Some \<lparr>tk_ID = i2, tk_UserID = u2, tk_hash = token_of E raw2, tk_ExpiresAt = t2 + VerificationTTL, tk_ConsumedAt = None\<rparr>"
    using assms(5) by (auto simp: CreateVerificationToken_def dest: first split: option.splits)
  have r1: "fst (redeem_magic (token_of E raw1) n1 db3) = Inr v1" "snd (redeem_magic (token_of E raw1) n1 db3) = db4"
    and r2: "fst (redeem_verify (token_of E raw2) n2 dc3) = Inr v2" "snd (redeem_verify (token_of E raw2) n2 dc3) = dc4"
    using assms(3,7) by (simp_all add: redeem_eqs)
  have "redeem_magic (token_of E raw1) n1' db5 = (Inl TokenGone, db5)"
    using magic.used_once [OF r1(1)] assms(4) by (simp add: r1(2))
  moreover have "redeem_verify (token_of E raw2) n2' dc5 = (Inl TokenGone, dc5)"
    using verification.used_once [OF r2(1)] assms(8) by (simp add: r2(2))
  ultimately show ?thesis
    using magic.good_until [OF k1 assms(2) r1(1)] verification.good_until [OF k2 assms(6) r2(1)]
    by (simp add: redeem_eqs MagicLinkTTL_def VerificationTTL_def)
qed

section \<open>Concrete instances\<close>

definition toy_env :: auth_env where
  "toy_env = \<lparr>env_text = plain_text, env_hmac = toy_hmac, env_argon = toy_argon, env_idle = 1000, env_maxAge = 5000, env_maxFails = 2, env_window = 100\<rparr>"

definition toy_web :: web_env where
  "toy_web = \<lparr>web_auth = toy_env, web_baseURL = [], web_staffEmails = [], web_selfServe = True, web_providers = [], web_decodeState = (\<lambda>_. None),
     web_identity = (\<lambda>_ _ _. None), web_customer = (\<lambda>_ _ _. None)\<rparr>"

definition toy_fresh :: fresh where
  "toy_fresh = \<lparr>fr_id = (\<lambda>n. 100 + n), fr_token = (\<lambda>n. ''new''), fr_codes = [], fr_salt = ''salt''\<rparr>"

definition toy_request :: request where
  "toy_request = \<lparr>rq_Cookie = None, rq_XForwardedFor = ''unknown'', rq_RemoteAddr = ''1.2.3.4:5'', rq_UserAgent = [], rq_Host = ''h'',
     rq_TLS = True, rq_XForwardedProto = []\<rparr>"

definition jo :: user_row where
  "jo = \<lparr>u_ID = 1, u_Email = ''jo@x'', u_EmailVerified = False, u_PasswordHash = [], u_IsStaff = False, u_MFAEnabled = False,
     u_TotpSecret = None, u_LastCounter = None, u_CreatedAt = 0, u_deleted_at = None\<rparr>"

definition jo_db :: auth_db where
  "jo_db = \<lparr>au_acct = two_users\<lparr>ad_users := [jo]\<rparr>, au_sessions = [],
     au_attempts = map (\<lambda>t. \<lparr>la_Email = ''jo@x'', la_IP = None, la_Succeeded = False, la_At = t\<rparr>) [10, 40],
     au_magic = [], au_verify = [], au_codes = []\<rparr>"

definition jo_link :: auth_db where
  "jo_link = snd (CreateMagicLinkToken toy_env 9 ''m'' 50 1 jo_db)"

lemma toy_hash: "token_of toy_env ''m'' \<noteq> token_of toy_env ''new''"
  by code_simp

lemma jo_link_eq:
  "CreateMagicLinkToken toy_env 9 ''m'' 50 1 jo_db = (Inr ''m'', jo_link)"
  "jo_link = jo_db\<lparr>au_magic := [\<lparr>tk_ID = 9, tk_UserID = 1, tk_hash = token_of toy_env ''m'', tk_ExpiresAt = 50 + MagicLinkTTL, tk_ConsumedAt = None\<rparr>]\<rparr>"
  by (simp_all add: jo_link_def CreateMagicLinkToken_def insert_token_def jo_db_def ad_user_exists_def jo_def)

lemma jo_consumes:
  "ConsumeMagicLink toy_env 60 ''m'' jo_link =
    (Inr 1, jo_db\<lparr>au_magic := [\<lparr>tk_ID = 9, tk_UserID = 1, tk_hash = token_of toy_env ''m'', tk_ExpiresAt = 50 + MagicLinkTTL, tk_ConsumedAt = Some 60\<rparr>]\<rparr>)"
  by (simp add: jo_link_eq(2) ConsumeMagicLink_def consume_token_def MagicLinkTTL_def)

lemma toy_parts [simp]: "web_auth toy_web = toy_env" "fr_token toy_fresh n = ''new''" "fr_id toy_fresh n = 100 + n"
  by (simp_all add: toy_web_def toy_fresh_def)

lemma no_cookie_ctx: "load_ctx toy_web now toy_request db = (no_ctx, db)"
  by (simp add: load_ctx_def LoadUser_def Lookup_def toy_request_def LoadCurrentAccount_def no_ctx_def)

theorem second_factor_witness:
  "(token_of toy_env ''new'', 1) \<in> full_sessions (snd (serve toy_web toy_fresh 60 toy_request (MagicConsume ''m'') jo_link)) \<and>
   no_mfa (snd (serve toy_web toy_fresh 60 toy_request (MagicConsume ''m'') jo_link)) 1"
proof -
  let ?db = "snd (serve toy_web toy_fresh 60 toy_request (MagicConsume ''m'') jo_link)"
  have f: "(token_of toy_env ''new'', 1) \<in> full_sessions ?db"
    by (simp add: serve_def no_cookie_ctx handle_def magicLinkConsume_def no_ctx_def jo_consumes loadUser_def jo_db_def jo_def
        finish_login_def pickDefaultAccount_def ListAccountsForUser_def two_users_def Create_session_def create_session_def Let_def
        ad_user_exists_def) (simp add: full_sessions_def real_user_def image_iff)
  have "(auth_step toy_web)\<^sup>*\<^sup>* jo_link jo_link" "au_sessions jo_link = []" "distinct (map u_ID (au_users jo_link))"
    by (simp_all add: jo_link_eq(2) jo_db_def)
  from second_factor [OF this f] f show ?thesis
    by (auto simp: passed_second_factor_def full_sessions_def jo_link_eq(2) jo_db_def)
qed

theorem links_used_once_witness:
  "\<exists>db4 dc2 dc4. ConsumeMagicLink toy_env 60 ''m'' jo_link = (Inr 1, db4) \<and> ConsumeMagicLink toy_env 70 ''m'' db4 = (Inl TokenGone, db4) \<and>
     CreateVerificationToken toy_env 8 ''m'' 0 1 jo_db = (Inr ''m'', dc2) \<and> VerifyEmail toy_env 60 ''m'' dc2 = (Inr 1, dc4) \<and>
     VerifyEmail toy_env 70 ''m'' dc4 = (Inl TokenGone, dc4)"
proof -
  obtain dc2 where c: "CreateVerificationToken toy_env 8 ''m'' 0 1 jo_db = (Inr ''m'', dc2)"
    and dc2: "au_verify dc2 = [\<lparr>tk_ID = 8, tk_UserID = 1, tk_hash = token_of toy_env ''m'', tk_ExpiresAt = VerificationTTL, tk_ConsumedAt = None\<rparr>]"
    by (simp add: CreateVerificationToken_def insert_token_def jo_db_def ad_user_exists_def jo_def)
  obtain dc4 where v: "VerifyEmail toy_env 60 ''m'' dc2 = (Inr 1, dc4)"
    by (simp add: VerifyEmail_def consume_token_def dc2 VerificationTTL_def)
  from links_used_once [OF jo_link_eq(1) rtranclp.rtrancl_refl [of "auth_step toy_web"] jo_consumes rtranclp.rtrancl_refl c rtranclp.rtrancl_refl v rtranclp.rtrancl_refl]
  show ?thesis using c v jo_consumes by blast
qed

lemma jo_fails: "throttle_fails toy_env 50 ''jo@x'' jo_db = [10, 40]"
  by (simp add: throttle_fails_counts counts_def jo_db_def same_email_def toy_env_def)

theorem lockout_exact_witness:
  "ls_Locked (the (Check toy_env 109 ''jo@x'' jo_db)) \<and> \<not> ls_Locked (the (Check toy_env 110 ''jo@x'' jo_db))"
proof -
  have "pg_text_ok ''jo@x''" by code_simp
  then have c: "Check toy_env 50 ''jo@x'' jo_db = Some \<lparr>ls_Locked = True, ls_RetryAfter = 60\<rparr>"
    unfolding Check_def jo_fails by (simp add: toy_env_def time_Sub_def)
  have h: "Check (web_auth toy_web) 50 ''jo@x'' jo_db = Some \<lparr>ls_Locked = True, ls_RetryAfter = 60\<rparr>"
    "length (throttle_fails (web_auth toy_web) 50 ''jo@x'' jo_db) = env_maxFails (web_auth toy_web)" "0 < env_maxFails (web_auth toy_web)"
    "0 < env_window (web_auth toy_web)" "env_window (web_auth toy_web) < 2 ^ 63"
    using c by (simp_all add: jo_fails) (simp_all add: toy_env_def)
  have a: "\<And>a. a \<in> set (au_attempts jo_db) \<Longrightarrow> la_At a \<le> 50" by (auto simp: jo_db_def)
  show ?thesis
    using lockout_exact [OF h(1) _ h(2,3) a h(4,5), of 109] lockout_exact [OF h(1) _ h(2,3) a h(4,5), of 110] by simp
qed

theorem throttle_bypass_witness:
  "au_attempts (foldl (\<lambda>d (fr, f). snd (serve toy_web fr 50 toy_request (Login (Some f)) d)) jo_db
     (replicate 1000 (toy_fresh, \<lambda>_. ''al@x''))) = au_attempts jo_db"
proof -
  have t: "TrimSpace ''unknown'' = ''unknown''" "pg_text_ok ''al@x''" by code_simp+
  have f: "throttle_fails toy_env 50 ''al@x'' jo_db = []" by (simp add: throttle_fails_counts jo_db_def same_email_def toy_env_def plain_text_def)
  have h: "rq_XForwardedFor toy_request = ''unknown''" "''unknown'' \<noteq> []" "CHR '','' \<notin> set ''unknown''" "TrimSpace ''unknown'' \<noteq> []"
    "tx_inet (web_text toy_web) (TrimSpace ''unknown'') = None"
    by (simp_all add: toy_request_def t toy_env_def plain_text_def)
  have c: "Check (web_auth toy_web) 50 ''al@x'' jo_db = Some \<lparr>ls_Locked = False, ls_RetryAfter = 0\<rparr>"
    using t(2) by (simp add: Check_def f) (simp add: toy_env_def)
  from throttle_bypass [OF h c] show ?thesis by (simp only: Let_def) simp
qed

definition jo_pending :: auth_db where
  "jo_pending = jo_db\<lparr>au_sessions := [\<lparr>se_ID = 5, se_UserID = 1, se_CreatedAt = 0, se_ExpiresAt = 5000, se_ImpersonatorID = None, se_MFAPending = True,
       se_StaffVerifiedAt = None, se_token_hash = token_of toy_env ''s'', se_last_seen = 0, se_current = None\<rparr>],
     au_codes := [\<lparr>cd_UserID = 1, cd_hash = code_hash toy_env ''abcd'', cd_UsedAt = None\<rparr>]\<rparr>"

theorem codes_used_once_witness:
  "passed_second_factor toy_web 60 (toy_request\<lparr>rq_Cookie := Some ''s''\<rparr>) (MfaChallenge (Some (\<lambda>_. ''abcd''))) 1 jo_pending \<and>
   \<not> fst (ConsumeRecoveryCode toy_env 70 1 ''ab-cd''
       (snd (serve toy_web toy_fresh 60 (toy_request\<lparr>rq_Cookie := Some ''s''\<rparr>) (MfaChallenge (Some (\<lambda>_. ''abcd''))) jo_pending)))"
proof -
  have t: "TrimSpace ''abcd'' = ''abcd''" "TrimSpace ''ab-cd'' = ''ab-cd''" by code_simp+
  have n: "code_hash toy_env ''ab-cd'' = code_hash toy_env ''abcd''" by (simp add: code_hash_def normalizeRecoveryCode_def t)
  have v: "VerifyAndConsumeTOTP toy_env 60 1 ''abcd'' jo_pending = (Inr False, jo_pending)"
    by (simp add: VerifyAndConsumeTOTP_def jo_pending_def jo_db_def jo_def by_user_def)
  have ok: "auth_ok jo_pending" by (simp add: auth_ok_def jo_pending_def jo_db_def)
  have p: "passed_second_factor toy_web 60 (toy_request\<lparr>rq_Cookie := Some ''s''\<rparr>) (MfaChallenge (Some (\<lambda>_. ''abcd''))) 1 jo_pending"
    by (simp add: passed_second_factor_def t second_factor_ok_def v ConsumeRecoveryCode_def Let_def del: One_nat_def)
      (simp add: jo_pending_def jo_db_def jo_def PendingMFAUser_def by_hash_def loadUser_def sql_affected_def unused_code_def)
  from codes_used_once [OF ok p rtranclp.rtrancl_refl, where fr = toy_fresh and now' = 70 and code' = "''ab-cd''"] p show ?thesis
    by (simp add: t v n del: One_nat_def)
qed

end
