(* ===== verification/Source_Paths.thy ===== *)
theory Source_Paths
  imports Go_Text
begin

section \<open>Paths of dumps\<close>

text \<open>
  \<open>resolveSourcePath\<close> of \<open>internal/web/handlers/drills.go\<close>, which decides whether a path a customer entered
  may be restored, on the functions of Go's \<open>path/filepath\<close> for Unix that it uses. The working
  directory and the file system are parameters: \<open>fs_stat\<close> tells of a path that exists whether it is a
  directory, and its size.
\<close>

subsection \<open>The package filepath\<close>

fun split_slash :: "string \<Rightarrow> string list" where
  "split_slash [] = [[]]"
| "split_slash (c # s) =
     (if c = CHR ''/'' then [] # split_slash s
      else (case split_slash s of e # es \<Rightarrow> (c # e) # es | [] \<Rightarrow> [[c]]))"

fun join_slash :: "string list \<Rightarrow> string" where
  "join_slash [] = []"
| "join_slash [e] = e"
| "join_slash (e # es) = e @ ''/'' @ join_slash es"

text \<open>The elements of a path from left to right, with the cleaned elements so far as a stack, last one first.\<close>

fun clean_stack :: "bool \<Rightarrow> string list \<Rightarrow> string list \<Rightarrow> string list" where
  "clean_stack rooted st [] = st"
| "clean_stack rooted st (e # es) =
     (if e = [] \<or> e = ''.'' then clean_stack rooted st es
      else if e = ''..'' then
        (if st \<noteq> [] \<and> hd st \<noteq> ''..'' then clean_stack rooted (tl st) es
         else if rooted then clean_stack rooted st es
         else clean_stack rooted (''..'' # st) es)
      else clean_stack rooted (e # st) es)"

definition IsAbs :: "string \<Rightarrow> bool" where
  "IsAbs p = (take 1 p = ''/'')"

definition clean_elems :: "string \<Rightarrow> string list" where
  "clean_elems p = rev (clean_stack (IsAbs p) [] (split_slash p))"

definition Clean :: "string \<Rightarrow> string" where
  "Clean p =
     (if IsAbs p then CHR ''/'' # join_slash (clean_elems p)
      else if clean_elems p = [] then ''.'' else join_slash (clean_elems p))"

definition Join2 :: "string \<Rightarrow> string \<Rightarrow> string" where
  "Join2 a b = (if a = [] then (if b = [] then [] else Clean b) else Clean (a @ ''/'' @ b))"

definition Abs :: "string option \<Rightarrow> string \<Rightarrow> string option" where
  "Abs cwd p = (if IsAbs p then Some (Clean p) else map_option (\<lambda>wd. Join2 wd p) cwd)"

text \<open>\<open>Rel\<close> of two absolute paths.\<close>

fun drop_common :: "string list \<Rightarrow> string list \<Rightarrow> string list \<times> string list" where
  "drop_common (b # bs) (t # ts) = (if b = t then drop_common bs ts else (b # bs, t # ts))"
| "drop_common bs ts = (bs, ts)"

definition Rel :: "string \<Rightarrow> string \<Rightarrow> string" where
  "Rel base targ =
     (case drop_common (clean_elems base) (clean_elems targ) of
        ([], []) \<Rightarrow> ''.''
      | (bs, ts) \<Rightarrow> join_slash (map (\<lambda>_. ''..'') bs @ ts))"

subsection \<open>Resolving a source path\<close>

record file_info =
  fi_IsDir :: bool
  fi_Size :: int

record source_env =
  so_cwd :: "string option"
  so_sourceDir :: string
  so_stat :: "string \<Rightarrow> file_info option"
  so_readDir :: "string \<Rightarrow> file_info list"

definition resolveSourcePath :: "source_env \<Rightarrow> string \<Rightarrow> string option" where
  "resolveSourcePath E p0 =
     (let p = TrimSpace p0 in
      if p = [] then None
      else
        (case Abs (so_cwd E) (so_sourceDir E) of
           None \<Rightarrow> None
         | Some root \<Rightarrow>
             (case Abs (so_cwd E) p of
                None \<Rightarrow> None
              | Some a \<Rightarrow>
                  (let q = Clean a; rel = Rel root q in
                   if rel = ''..'' \<or> take 3 rel = ''../'' then None
                   else
                     (case so_stat E q of
                        None \<Rightarrow> None
                      | Some info \<Rightarrow>
                          if fi_IsDir info \<and> so_stat E (Join2 q ''toc.dat'') = None then None else Some q)))))"

section \<open>Confinement\<close>

text \<open>A plain element names an entry of the directory it stands in.\<close>

definition plain_elem :: "string \<Rightarrow> bool" where
  "plain_elem e \<longleftrightarrow> e \<noteq> [] \<and> e \<noteq> ''.'' \<and> e \<noteq> ''..'' \<and> CHR ''/'' \<notin> set e"

lemma split_slash_nonempty: "split_slash s \<noteq> []"
  by (cases s) (simp_all split: list.split)

lemma split_slash_plain: "e \<in> set (split_slash s) \<Longrightarrow> CHR ''/'' \<notin> set e"
  by (induction s arbitrary: e) (auto split: if_splits list.splits)

lemma clean_stack_plain:
  assumes "\<And>e. e \<in> set st \<Longrightarrow> plain_elem e" and "\<And>e. e \<in> set es \<Longrightarrow> CHR ''/'' \<notin> set e" and "e \<in> set (clean_stack True st es)"
  shows "plain_elem e"
  using assms
proof (induction True st es rule: clean_stack.induct)
  case (2 st x es)
  from 2(5) consider "x = [] \<or> x = ''.''" | "x = ''..''" "st \<noteq> []" | "x = ''..''" "st = []" | "x \<noteq> []" "x \<noteq> ''.''" "x \<noteq> ''..''" by blast
  then show ?case
  proof cases
    case 1
    with 2 show ?thesis by simp
  next
    case 2
    then have "hd st \<noteq> ''..''" using "2.prems"(1) [of "hd st"] by (auto simp: plain_elem_def)
    moreover have "\<And>e. e \<in> set (tl st) \<Longrightarrow> plain_elem e" using "2.prems"(1) list.set_sel(2) by (metis list.sel(2))
    ultimately show ?thesis using "2.hyps"(2) "2.prems" 2 by auto
  next
    case 3
    with "2.hyps"(3) "2.prems" show ?thesis by auto
  next
    case 4
    with "2.prems" "2.hyps"(5) show ?thesis by (auto simp: plain_elem_def)
  qed
qed simp

lemma clean_elems_plain: "IsAbs p \<Longrightarrow> e \<in> set (clean_elems p) \<Longrightarrow> plain_elem e"
  unfolding clean_elems_def using clean_stack_plain [of "[]" "split_slash p" e] split_slash_plain by simp

lemma clean_stack_id: "(\<And>e. e \<in> set es \<Longrightarrow> plain_elem e) \<Longrightarrow> clean_stack True st es = rev es @ st"
  by (induction es arbitrary: st) (auto simp: plain_elem_def)

lemma split_slash_no_slash: "CHR ''/'' \<notin> set e \<Longrightarrow> split_slash e = [e]"
  by (induction e) auto

lemma split_slash_app: "CHR ''/'' \<notin> set e \<Longrightarrow> split_slash (e @ CHR ''/'' # s) = e # split_slash s"
  by (induction e) (auto split: list.splits)

lemma split_join: "es \<noteq> [] \<Longrightarrow> (\<And>e. e \<in> set es \<Longrightarrow> CHR ''/'' \<notin> set e) \<Longrightarrow> split_slash (join_slash es) = es"
  by (induction es rule: join_slash.induct) (auto simp: split_slash_no_slash split_slash_app)

lemma clean_elems_join:
  assumes "\<And>e. e \<in> set es \<Longrightarrow> plain_elem e"
  shows "clean_elems (CHR ''/'' # join_slash es) = es"
proof (cases "es = []")
  case True
  then show ?thesis by (simp add: clean_elems_def IsAbs_def)
next
  case False
  with assms split_join [of es] have "split_slash (join_slash es) = es" by (simp add: plain_elem_def)
  with clean_stack_id [of es "[]"] assms show ?thesis by (simp add: clean_elems_def IsAbs_def)
qed

lemma Clean_abs:
  assumes "IsAbs p"
  shows "Clean p = CHR ''/'' # join_slash (clean_elems p)" "IsAbs (Clean p)" "clean_elems (Clean p) = clean_elems p" "Clean (Clean p) = Clean p"
proof -
  show 1: "Clean p = CHR ''/'' # join_slash (clean_elems p)" "IsAbs (Clean p)" using assms by (simp_all add: Clean_def IsAbs_def)
  show 2: "clean_elems (Clean p) = clean_elems p" unfolding 1(1) using clean_elems_join clean_elems_plain [OF assms] by blast
  show "Clean (Clean p) = Clean p" using 1 2 by (simp add: Clean_def)
qed

lemma Abs_abs:
  assumes "\<And>wd. cwd = Some wd \<Longrightarrow> IsAbs wd" and "Abs cwd p = Some q"
  shows "\<exists>r. IsAbs r \<and> q = Clean r"
proof (cases "IsAbs p")
  case True
  with assms(2) show ?thesis by (auto simp: Abs_def)
next
  case False
  with assms(2) obtain wd where "cwd = Some wd" "q = Join2 wd p" by (auto simp: Abs_def)
  with assms(1) [of wd] show ?thesis by (intro exI [of _ "wd @ ''/'' @ p"]) (cases wd; auto simp: Join2_def IsAbs_def)
qed

lemma drop_common_split:
  "drop_common bs ts = (bs', ts') \<Longrightarrow> \<exists>c. bs = c @ bs' \<and> ts = c @ ts' \<and> (bs' \<noteq> [] \<and> ts' \<noteq> [] \<longrightarrow> hd bs' \<noteq> hd ts')"
proof (induction bs ts rule: drop_common.induct)
  case (1 b bs t ts)
  then show ?case by (cases "b = t") (auto intro: exI [of _ "b # c" for c])
qed auto

lemma join_slash_prefix:
  assumes "plain_elem e"
  shows "join_slash (e # es) \<noteq> ''..'' \<and> take 3 (join_slash (e # es)) \<noteq> ''../''"
proof -
  obtain t where t: "join_slash (e # es) = e @ t" "t = [] \<or> hd t = CHR ''/''" by (cases es) auto
  show ?thesis
  proof (cases e)
    case (Cons a e1)
    note a = Cons
    show ?thesis
    proof (cases e1)
      case Nil
      with assms t a show ?thesis by (cases t) (auto simp: plain_elem_def)
    next
      case (Cons b e2)
      with assms t a show ?thesis by (cases e2) (auto simp: plain_elem_def)
    qed
  qed (use assms in \<open>simp add: plain_elem_def\<close>)
qed

lemma Rel_inside:
  assumes "IsAbs p" and "IsAbs q"
  shows "(Rel p q = ''..'' \<or> take 3 (Rel p q) = ''../'') \<longleftrightarrow> \<not> (\<exists>rest. clean_elems q = clean_elems p @ rest)"
proof -
  obtain bs ts where d: "drop_common (clean_elems p) (clean_elems q) = (bs, ts)" by force
  from drop_common_split [OF d] obtain c where c: "clean_elems p = c @ bs" "clean_elems q = c @ ts" "bs \<noteq> [] \<and> ts \<noteq> [] \<longrightarrow> hd bs \<noteq> hd ts" by blast
  have out: "(\<exists>rest. clean_elems q = clean_elems p @ rest) \<longleftrightarrow> bs = []"
    using c by (cases bs) (auto simp: append_eq_append_conv2 Cons_eq_append_conv)
  show ?thesis
  proof (cases bs)
    case Nil
    have "plain_elem (hd ts)" if "ts \<noteq> []" using clean_elems_plain [OF assms(2), of "hd ts"] c(2) that by simp
    then have "\<not> (Rel p q = ''..'' \<or> take 3 (Rel p q) = ''../'')"
      using join_slash_prefix [of "hd ts" "tl ts"] by (cases ts) (auto simp: Rel_def d Nil)
    with out Nil show ?thesis by simp
  next
    case (Cons b bs')
    then have "Rel p q = ''..'' \<or> take 3 (Rel p q) = ''../''"
      by (cases "map (\<lambda>_. ''..'') bs' @ ts") (auto simp: Rel_def d)
    with out Cons show ?thesis by simp
  qed
qed

text \<open>
  C29. A source path stays inside the backups directory. With an absolute working directory,
  \<open>resolveSourcePath\<close> accepts exactly the paths whose absolute form has the elements of the backups
  directory followed by further ones, and which name a file or a directory with a table of
  contents. The path it returns is absolute and has plain elements only, no \<open>..\<close> among them,
  so that it leads down from that directory.
\<close>

theorem source_confined:
  assumes "\<And>wd. so_cwd E = Some wd \<Longrightarrow> IsAbs wd"
  shows "(resolveSourcePath E p = Some q \<longleftrightarrow>
      TrimSpace p \<noteq> [] \<and> Abs (so_cwd E) (TrimSpace p) = Some q \<and>
      (\<exists>root rest. Abs (so_cwd E) (so_sourceDir E) = Some root \<and> clean_elems q = clean_elems root @ rest) \<and>
      (\<exists>info. so_stat E q = Some info \<and> (fi_IsDir info \<longrightarrow> so_stat E (Join2 q ''toc.dat'') \<noteq> None))) \<and>
    (resolveSourcePath E p = Some q \<longrightarrow> q = CHR ''/'' # join_slash (clean_elems q) \<and> list_all plain_elem (clean_elems q))"
proof -
  have abs: "IsAbs r" "Clean r = r" "r = CHR ''/'' # join_slash (clean_elems r)" "list_all plain_elem (clean_elems r)"
    if "Abs (so_cwd E) x = Some r" for x r
  proof -
    from Abs_abs [OF assms that] obtain y where y: "IsAbs y" "r = Clean y" by blast
    with Clean_abs [OF y(1)] clean_elems_plain [of y] show "IsAbs r" "Clean r = r"
      "r = CHR ''/'' # join_slash (clean_elems r)" "list_all plain_elem (clean_elems r)"
      by (auto simp: list_all_iff)
  qed
  show ?thesis
  proof (cases "Abs (so_cwd E) (so_sourceDir E)")
    case (Some root)
    note root = Some
    show ?thesis
    proof (cases "Abs (so_cwd E) (TrimSpace p)")
      case (Some a)
      from Rel_inside [OF abs(1) [OF root] abs(1) [OF Some]] abs(2,3,4) [OF Some] root Some
      show ?thesis by (auto simp: resolveSourcePath_def Let_def split: option.splits)
    qed (use root in \<open>simp add: resolveSourcePath_def Let_def\<close>)
  qed (simp add: resolveSourcePath_def Let_def)
qed

definition one_dump :: source_env where
  "one_dump = \<lparr>so_cwd = Some ''/s'', so_sourceDir = ''b'',
     so_stat = (\<lambda>p. if p = ''/s/b/a'' then Some \<lparr>fi_IsDir = False, fi_Size = 9\<rparr> else None), so_readDir = (\<lambda>_. [])\<rparr>"

theorem source_confined_witness:
  "resolveSourcePath one_dump ''x/../b/./a'' = Some ''/s/b/a'' \<and>
   resolveSourcePath one_dump ''b/../../e'' = None \<and>
   (\<exists>root rest. Abs (Some ''/s'') ''b'' = Some root \<and> clean_elems ''/s/b/a'' = clean_elems root @ rest)"
proof -
  have c: "so_cwd one_dump = Some wd \<Longrightarrow> IsAbs wd" for wd by (auto simp: one_dump_def IsAbs_def)
  have t: "TrimSpace ''x/../b/./a'' = ''x/../b/./a''" "TrimSpace ''b/../../e'' = ''b/../../e''"
    by (simp_all add: TrimSpace_printable printable_def)
  have a: "Abs (Some ''/s'') ''b'' = Some ''/s/b''" "Abs (Some ''/s'') ''x/../b/./a'' = Some ''/s/b/a''" "Abs (Some ''/s'') ''b/../../e'' = Some ''/e''"
    "Clean ''/s/b/a'' = ''/s/b/a''" "Clean ''/e'' = ''/e''" "Rel ''/s/b'' ''/s/b/a'' = ''a''" "Rel ''/s/b'' ''/e'' = ''../../e''"
    by (simp_all add: Abs_def Clean_def Join2_def clean_elems_def IsAbs_def Rel_def)
  have r: "resolveSourcePath one_dump ''x/../b/./a'' = Some ''/s/b/a'' \<and> resolveSourcePath one_dump ''b/../../e'' = None"
    by (simp add: resolveSourcePath_def t a one_dump_def)
  have "so_cwd one_dump = Some ''/s''" "so_sourceDir one_dump = ''b''" by (simp_all add: one_dump_def)
  with source_confined [of one_dump, OF c, of "''x/../b/./a''" "''/s/b/a''"] r show ?thesis by simp
qed

end
