(* ===== verification/Drill_Web.thy ===== *)
theory Drill_Web
  imports Source_Paths Account_Web Scheduler
begin

section \<open>The handlers for databases and drills\<close>

text \<open>
  \<open>internal/web/handlers/drills.go\<close>, \<open>drill_quota.go\<close> and \<open>onboarding.go\<close>: adding databases and assertions, schedules, and
  starting drills. The handlers that only write tables are functions on the account tables (for the
  audit log) and the drill tables, as in \<open>Account_Web\<close>. The ones that start a drill go through the queue: they are
  procedures over the world of \<open>Drill_Steps\<close>, so that each of their calls can fail; the account tables are then
  only read. An event such a handler gives to the audit log is part of its result. The file
  system is the record \<open>source_env\<close>.
\<close>

type_synonym web_db = "account_db \<times> drill_db"

definition scope_of :: "page_ctx \<Rightarrow> account_db \<Rightarrow> Scope" where
  "scope_of cx adb = databaseScopeCtx (cx_role cx) (acct_ID (cx_account cx)) (cx_user cx) adb"

definition page_event :: "page_ctx \<Rightarrow> string \<Rightarrow> string \<Rightarrow> string \<Rightarrow> audit_event" where
  "page_event cx action kind target =
     \<lparr>aud_AccountID = Some (acct_ID (cx_account cx)), aud_ActorID = Some (cx_user cx), aud_Action = action, aud_TargetKind = kind,
      aud_TargetID = target, aud_IP = ClientIP (cx_req cx), aud_UserAgent = rq_UserAgent (cx_req cx), aud_Metadata = []\<rparr>"

subsection \<open>Who may drill what\<close>

definition canDrillReal :: "gotime \<Rightarrow> Account option \<Rightarrow> bool" where
  "canDrillReal now a =
     (case a of
        None \<Rightarrow> False
      | Some a \<Rightarrow> if acct_Unlimited a then True else if IsPaid (acct_Plan a) then True else TrialActive now a)"

definition blockFreeRealWeb :: "gotime \<Rightarrow> Account option \<Rightarrow> response option" where
  "blockFreeRealWeb now a = (if a = None \<or> canDrillReal now a then None else Some (HttpStatus 402))"

text \<open>\<open>True\<close> within the quota, \<open>False\<close> for the quota error; an error of the count itself is the procedure's error.\<close>

definition enforceDrillQuota :: "('r, 'e) Deps \<Rightarrow> Account option \<Rightarrow> (('r, 'e) world, bool) proc" where
  "enforceDrillQuota D acct =
     (case acct of
        None \<Rightarrow> ret True
      | Some a \<Rightarrow>
          if acct_Unlimited a then ret True
          else if DrillsPerDay (LimitsFor (acct_Plan a)) = Unlimited then ret True
          else
            bindM (getM w_now) (\<lambda>now.
            bindM (db_read D (\<lambda>db. Inr (CountDrillsSince (acct_ID a) (now - 24 * nsHour) db))) (\<lambda>n.
              ret (\<not> int n \<ge> DrillsPerDay (LimitsFor (acct_Plan a))))))"

definition dump_total :: "source_env \<Rightarrow> string \<Rightarrow> file_info \<Rightarrow> int" where
  "dump_total E uri fi =
     (if fi_IsDir fi then sum_list (map fi_Size (filter (\<lambda>e. \<not> fi_IsDir e) (so_readDir E uri))) else fi_Size fi)"

definition enforceDumpSize :: "source_env \<Rightarrow> string \<Rightarrow> string \<Rightarrow> Account option \<Rightarrow> bool" where
  "enforceDumpSize E sourceKind sourceURI acct =
     (if sourceKind \<noteq> ''postgres_dump_local'' \<or> sourceURI = [] then True
      else
        (case acct of
           None \<Rightarrow> True
         | Some a \<Rightarrow>
             if acct_Unlimited a then True
             else if MaxDumpBytes (LimitsFor (acct_Plan a)) \<le> 0 then True
             else
               (case so_stat E sourceURI of
                  None \<Rightarrow> True
                | Some fi \<Rightarrow> \<not> dump_total E sourceURI fi > MaxDumpBytes (LimitsFor (acct_Plan a)))))"

definition drillInsertOpts :: "Account option \<Rightarrow> nat" where
  "drillInsertOpts acct =
     (case acct of
        None \<Rightarrow> 3
      | Some a \<Rightarrow>
          if acct_Unlimited a then 1
          else if acct_Plan a = PlanScale then 1 else if acct_Plan a = PlanPro then 2
          else if acct_Plan a = PlanStarter then 3 else if acct_Plan a = PlanTrial then 4 else 3)"

subsection \<open>Databases\<close>

definition targetCreate :: "text_lib \<Rightarrow> source_env \<Rightarrow> uuid \<Rightarrow> page_ctx \<Rightarrow> form \<Rightarrow> web_db \<Rightarrow> response \<times> web_db" where
  "targetCreate T E newid cx frm db =
     (let acct = cx_account cx in
      case blockFreeRealWeb (cx_now cx) (Some acct) of
        Some resp \<Rightarrow> (resp, db)
      | None \<Rightarrow>
          (let n = length (filter (\<lambda>t. \<not> t_IsSample t) (ListTargets (acct_ID acct) ScopeAll (snd db))) in
           case enforceLimit n (Databases (EffectiveLimits acct)) of
             Some resp \<Rightarrow> (resp, db)
           | None \<Rightarrow>
               (case frm of
                  None \<Rightarrow> (HttpStatus 400, db)
                | Some f \<Rightarrow>
                    (let name = TrimSpace (f ''name''); uri = TrimSpace (f ''source_uri'') in
                     if name = [] \<or> uri = [] then (HttpStatus 400, db)
                     else
                       (case resolveSourcePath E uri of
                          None \<Rightarrow> (HttpStatus 400, db)
                        | Some cleanPath \<Rightarrow>
                            (case CreateTarget newid (cx_now cx)
                               \<lparr>t_ID = 0, t_AccountID = acct_ID acct, t_CreatedByUserID = cx_user cx, t_Name = name,
                                t_SourceKind = ''postgres_dump_local'', t_SourceURI = cleanPath, t_TeamID = None, t_CreatedAt = 0,
                                t_DrillCadence = [], t_NextDrillAt = None, t_IsSample = False\<rparr> (snd db) of
                               (Inl _, d) \<Rightarrow> (HttpStatus 500, fst db, d)
                             | (Inr t, d) \<Rightarrow>
                                 (SeeOther (''/databases/'' @ tx_uuid T (t_ID t)),
                                  audit_db T (cx_now cx) (page_event cx ''target.created'' ''database_target'' (tx_uuid T (t_ID t))) (fst db),
                                  d)))))))"

definition targetScheduleUpdate :: "text_lib \<Rightarrow> page_ctx \<Rightarrow> string \<Rightarrow> form \<Rightarrow> web_db \<Rightarrow> response \<times> web_db" where
  "targetScheduleUpdate T cx i frm db =
     (let acct = cx_account cx in
      case tx_parse_uuid T i of
        None \<Rightarrow> (HttpStatus 404, db)
      | Some tid \<Rightarrow>
          (case GetTarget (acct_ID acct) tid (scope_of cx (fst db)) (snd db) of
             Inl _ \<Rightarrow> (HttpStatus 404, db)
           | Inr t \<Rightarrow>
               (case frm of
                  None \<Rightarrow> (HttpStatus 400, db)
                | Some f \<Rightarrow>
                    (let cadence = TrimSpace (f ''cadence'') in
                     if \<not> CadenceAllowedForAccount acct cadence then (HttpStatus 403, db)
                     else
                       (let nextAt = (if cadence \<noteq> ''off'' then Some (cx_now cx + CadenceInterval cadence) else None) in
                        case SetTargetSchedule (acct_ID acct) tid cadence nextAt (snd db) of
                          (Inl _, d) \<Rightarrow> (HttpStatus 500, fst db, d)
                        | (Inr _, d) \<Rightarrow>
                            (SeeOther (''/databases/'' @ tx_uuid T tid),
                             audit_db T (cx_now cx) ((page_event cx ''target.schedule_updated'' ''database_target'' (tx_uuid T tid))
                               \<lparr>aud_IP := [], aud_UserAgent := [], aud_Metadata := [(''cadence'', cadence)]\<rparr>) (fst db), d))))))"

fun atoi_loop :: "int \<Rightarrow> int \<Rightarrow> string \<Rightarrow> int option" where
  "atoi_loop hi n [] = Some n"
| "atoi_loop hi n (c # s) =
     (if \<not> is_dec c then None
      else (let n = n * 10 + (of_char c - 48) in if n > hi then None else atoi_loop hi n s))"

definition atoiInRange :: "string \<Rightarrow> int \<Rightarrow> int \<Rightarrow> int option" where
  "atoiInRange s lo hi =
     (if s = [] then None
      else (case atoi_loop hi 0 s of None \<Rightarrow> None | Some n \<Rightarrow> if n < lo then None else Some n))"

definition buildAssertionConfig :: "string \<Rightarrow> string \<Rightarrow> string \<Rightarrow> string \<Rightarrow> config option" where
  "buildAssertionConfig kind table column minRowsInput =
     (if \<not> ValidKind kind then None
      else
        (let cfg = [(''table'', JStr table)];
             ext = (if kind = KindRowCount then
                 (if minRowsInput \<noteq> [] then
                    (case atoiInRange minRowsInput 0 1000000000 of None \<Rightarrow> None | Some n \<Rightarrow> Some (cfg @ [(''min_rows'', JNum n 0)]))
                  else Some (cfg @ [(''min_rows'', JNum 1 0)]))
               else if kind = KindColumnExists \<or> kind = KindNoNulls then Some (cfg @ [(''column'', JStr column)])
               else Some cfg)
         in case ext of
              None \<Rightarrow> None
            | Some c \<Rightarrow> (case ValidateConfig kind c of Some _ \<Rightarrow> None | None \<Rightarrow> Some c)))"

definition assertionCreate :: "text_lib \<Rightarrow> uuid \<Rightarrow> page_ctx \<Rightarrow> string \<Rightarrow> form \<Rightarrow> web_db \<Rightarrow> response \<times> web_db" where
  "assertionCreate T newid cx i frm db =
     (let acct = cx_account cx in
      case tx_parse_uuid T i of
        None \<Rightarrow> (HttpStatus 404, db)
      | Some tid \<Rightarrow>
          (case GetTarget (acct_ID acct) tid (scope_of cx (fst db)) (snd db) of
             Inl _ \<Rightarrow> (HttpStatus 404, db)
           | Inr t \<Rightarrow>
               (case frm of
                  None \<Rightarrow> (HttpStatus 400, db)
                | Some f \<Rightarrow>
                    (let kind = TrimSpace (f ''kind'') in
                     case buildAssertionConfig kind (TrimSpace (f ''table'')) (TrimSpace (f ''column'')) (TrimSpace (f ''min_rows'')) of
                       None \<Rightarrow> (HttpStatus 400, db)
                     | Some cfg \<Rightarrow>
                         (case CreateAssertion newid (cx_now cx) (t_ID t) kind (JObj cfg) (snd db) of
                            (Inl _, d) \<Rightarrow> (HttpStatus 500, fst db, d)
                          | (Inr _, d) \<Rightarrow>
                              (SeeOther (''/databases/'' @ tx_uuid T (t_ID t)),
                               audit_db T (cx_now cx) (page_event cx ''assertion.created'' ''database_target'' (tx_uuid T (t_ID t))) (fst db), d))))))"

definition assertionDelete :: "text_lib \<Rightarrow> page_ctx \<Rightarrow> string \<Rightarrow> string \<Rightarrow> web_db \<Rightarrow> response \<times> web_db" where
  "assertionDelete T cx targetID assertion_id db =
     (let acct = cx_account cx in
      case tx_parse_uuid T assertion_id of
        None \<Rightarrow> (HttpStatus 404, db)
      | Some aid \<Rightarrow>
          if (case tx_parse_uuid T targetID of
                None \<Rightarrow> False
              | Some tid \<Rightarrow> isl (GetTarget (acct_ID acct) tid (scope_of cx (fst db)) (snd db)))
          then (HttpStatus 404, db)
          else
            (case DeleteAssertion (acct_ID acct) aid (snd db) of
               (r, d) \<Rightarrow>
                 if (case r of Inl e \<Rightarrow> e \<noteq> ErrNotFound | Inr _ \<Rightarrow> False) then (HttpStatus 500, fst db, d)
                 else
                   (SeeOther (''/databases/'' @ targetID),
                    audit_db T (cx_now cx) (page_event cx ''assertion.deleted'' ''database_target'' targetID) (fst db), d)))"

subsection \<open>Drills\<close>

definition drillCreate ::
    "('r, 'e) Deps \<Rightarrow> uuid_lib \<Rightarrow> text_lib \<Rightarrow> bool \<Rightarrow> source_env \<Rightarrow> page_ctx \<Rightarrow> account_db \<Rightarrow> form \<Rightarrow> (('r, 'e) world, response) proc" where
  "drillCreate D U T audited E cx adb frm =
     (let acct = cx_account cx in
      case frm of
        None \<Rightarrow> ret (HttpStatus 400)
      | Some f \<Rightarrow>
          (let idem = TrimSpace (f ''idempotency_key''); targetIDStr = TrimSpace (f ''target_id'') in
           if idem = [] then ret (HttpStatus 400)
           else
             (case tx_parse_uuid T targetIDStr of
                None \<Rightarrow> ret (HttpStatus 400)
              | Some targetID \<Rightarrow>
                  bindM (tryM (db_read D (GetTarget (acct_ID acct) targetID (scope_of cx adb)))) (\<lambda>tr.
                    case tr of
                      Inl _ \<Rightarrow> ret (HttpStatus 404)
                    | Inr target \<Rightarrow>
                        bindM (getM w_now) (\<lambda>now.
                          if \<not> t_IsSample target \<and> blockFreeRealWeb now (Some acct) \<noteq> None then ret (HttpStatus 402)
                          else
                            bindM (tryM (enforceDrillQuota D (Some acct))) (\<lambda>q.
                              if q = Inr False then ret (HttpStatus 429)
                              else if \<not> t_IsSample target \<and> \<not> enforceDumpSize E (t_SourceKind target) (t_SourceURI target) (Some acct)
                              then ret (HttpStatus 413)
                              else
                                bindM (tryM (db_write D (\<lambda>now newid.
                                    CreateDrillIdempotent U newid now (acct_ID acct) (cx_user cx) (t_ID target) idem))) (\<lambda>cr.
                                  case cr of
                                    Inl _ \<Rightarrow> ret (HttpStatus 500)
                                  | Inr (drillID, reused) \<Rightarrow>
                                      if reused then ret (SeeOther (''/drills/'' @ tx_uuid T drillID))
                                      else
                                        bindM (tryM (EnqueueDrill D audited drillID (drillInsertOpts (Some acct)))) (\<lambda>er.
                                          case er of
                                            Inl _ \<Rightarrow> ret (HttpStatus 500)
                                          | Inr _ \<Rightarrow> ret (SeeOther (''/drills/'' @ tx_uuid T drillID)))))))))
      )"

subsection \<open>The sample\<close>

text \<open>\<open>MaterializeSample\<close> writes a file of the server's own; \<open>written\<close> says whether the writes worked.\<close>

definition MaterializeSample :: "source_env \<Rightarrow> bool \<Rightarrow> string option" where
  "MaterializeSample E written =
     (case Abs (so_cwd E) (Join2 (so_sourceDir E) ''_dokaz_sample'') of
        None \<Rightarrow> None
      | Some dir \<Rightarrow> if written then Some (Join2 dir ''sample.dump'') else None)"

definition ensureSampleTarget ::
    "('r, 'e) Deps \<Rightarrow> source_env \<Rightarrow> bool \<Rightarrow> uuid \<Rightarrow> uuid \<Rightarrow> (('r, 'e) world, Target) proc" where
  "ensureSampleTarget D E written accountID userID =
     (case MaterializeSample E written of
        None \<Rightarrow> errM ''materialize''
      | Some path \<Rightarrow>
          bindM (db_read D (\<lambda>db. case GetSampleTarget accountID db of Inl e \<Rightarrow> if e = ErrNotFound then Inr None else Inl e | Inr t \<Rightarrow> Inr (Some t))) (\<lambda>r.
            case r of
              Some t \<Rightarrow> ret t
            | None \<Rightarrow>
                bindM (tryM (db_write D (\<lambda>now newid. CreateTarget newid now
                    \<lparr>t_ID = 0, t_AccountID = accountID, t_CreatedByUserID = userID, t_Name = ''Sample dataset (demo)'',
                     t_SourceKind = ''postgres_dump_local'', t_SourceURI = path, t_TeamID = None, t_CreatedAt = 0,
                     t_DrillCadence = [], t_NextDrillAt = None, t_IsSample = True\<rparr>))) (\<lambda>cr.
                  case cr of
                    Inl e \<Rightarrow>
                      bindM (tryM (db_read D (GetSampleTarget accountID))) (\<lambda>g. case g of Inl _ \<Rightarrow> errM e | Inr t2 \<Rightarrow> ret t2)
                  | Inr t \<Rightarrow>
                      thenM (ignoreM (db_write D (\<lambda>now newid. CreateAssertion newid now (t_ID t) KindTableExists (JObj [(''table'', JStr ''events'')]))))
                        (ret t))))"

definition runSampleDrill ::
    "('r, 'e) Deps \<Rightarrow> uuid_lib \<Rightarrow> text_lib \<Rightarrow> bool \<Rightarrow> source_env \<Rightarrow> bool \<Rightarrow> string \<Rightarrow> page_ctx \<Rightarrow>
      (('r, 'e) world, response \<times> audit_event option) proc" where
  "runSampleDrill D U T audited E written newkey cx =
     (let acct = cx_account cx in
      bindM (tryM (enforceDrillQuota D (Some acct))) (\<lambda>q.
        if q = Inr False then ret (HttpStatus 429, None)
        else
          bindM (tryM (ensureSampleTarget D E written (acct_ID acct) (cx_user cx))) (\<lambda>tr.
            case tr of
              Inl _ \<Rightarrow> ret (HttpStatus 500, None)
            | Inr t \<Rightarrow>
                bindM (tryM (db_write D (\<lambda>now newid.
                    CreateDrillIdempotent U newid now (acct_ID acct) (cx_user cx) (t_ID t) newkey))) (\<lambda>cr.
                  case cr of
                    Inl _ \<Rightarrow> ret (HttpStatus 500, None)
                  | Inr (drillID, reused) \<Rightarrow>
                      bindM (if reused then ret (Inr ()) else tryM (EnqueueDrill D audited drillID (drillInsertOpts (Some acct)))) (\<lambda>er.
                        case er of
                          Inl _ \<Rightarrow> ret (HttpStatus 500, None)
                        | Inr _ \<Rightarrow>
                            ret (SeeOther (''/drills/'' @ tx_uuid T drillID),
                              Some (page_event cx ''drill.sample_run'' ''drill'' (tx_uuid T drillID))))))))"

end
