(* ===== verification/Bearer_Tokens.thy ===== *)
theory Bearer_Tokens
  imports Sign_In Account_Ownership "HOL-Library.Sublist"
begin

section \<open>Bearer tokens: API keys, mobile tokens, share links\<close>

text \<open>
  \<open>internal/apikey/apikey.go\<close>, \<open>internal/mobileauth/mobileauth.go\<close> and \<open>internal/sharelink/sharelink.go\<close>: three stores of
  tokens that open something to whoever holds them, one definition per method. The tables are the record
  \<open>bearer_db\<close>, beside the tables of sign-in and of drills. Of a token only its hash is stored; the
  random bytes it is made from are an argument, as are the instant and fresh identifiers. A
  token the primary or the unique key refuses, or a text the server cannot store, is \<open>BearerConstraint\<close>.
\<close>

subsection \<open>Tables\<close>

record Key =
  ak_ID :: uuid
  ak_AccountID :: uuid
  ak_Name :: string
  ak_Prefix :: string
  ak_Scopes :: "string list"
  ak_CreatedByUserID :: uuid
  ak_CreatedAt :: gotime
  ak_LastUsedAt :: "gotime option"
  ak_RevokedAt :: "gotime option"
  ak_Secret :: string

record key_row = Key +
  ak_hash :: string

record Token =
  mt_ID :: uuid
  mt_UserID :: uuid
  mt_AccountID :: uuid
  mt_Prefix :: string
  mt_DeviceName :: string
  mt_CreatedAt :: gotime
  mt_LastUsedAt :: "gotime option"
  mt_ExpiresAt :: gotime
  mt_RevokedAt :: "gotime option"
  mt_Secret :: string

record mobile_row = Token +
  mt_hash :: string

record Challenge =
  ch_UserID :: uuid
  ch_AccountID :: uuid
  ch_DeviceName :: string

record challenge_row = Challenge +
  ch_ID :: uuid
  ch_ExpiresAt :: gotime

record Link =
  ln_ID :: uuid
  ln_DrillID :: uuid
  ln_AccountID :: uuid
  ln_CreatedByID :: uuid
  ln_TokenPrefix :: string
  ln_Label :: string
  ln_ExpiresAt :: gotime
  ln_RevokedAt :: "gotime option"
  ln_LastViewedAt :: "gotime option"
  ln_ViewCount :: nat
  ln_CreatedAt :: gotime

record link_row = Link +
  ln_hash :: bytes

record Minted =
  mi_Link :: Link
  mi_Token :: string

record bearer_db =
  bd_auth :: auth_db
  bd_drill :: drill_db
  bd_keys :: "key_row list"
  bd_mobile :: "mobile_row list"
  bd_challenges :: "challenge_row list"
  bd_links :: "link_row list"

datatype bearer_error = BearerNotFound | BearerRevoked | BearerExpired | BearerConstraint

definition live_account :: "uuid \<Rightarrow> bearer_db \<Rightarrow> bool" where
  "live_account i s = (\<exists>a \<in> set (ad_accounts (au_acct (bd_auth s))). acct_ID a = i \<and> acct_deleted_at a = None)"

definition bd_account_exists :: "uuid \<Rightarrow> bearer_db \<Rightarrow> bool" where
  "bd_account_exists i s = ad_account_exists i (au_acct (bd_auth s))"

definition bd_user_exists :: "uuid \<Rightarrow> bearer_db \<Rightarrow> bool" where
  "bd_user_exists i s = ad_user_exists i (au_acct (bd_auth s))"

subsection \<open>Tokens\<close>

text \<open>The URL alphabet of base 64 has a dash and an underscore for plus and slash.\<close>

definition b64url_raw :: "bytes \<Rightarrow> string" where
  "b64url_raw b = map (\<lambda>c. if c = CHR ''+'' then CHR ''-'' else if c = CHR ''/'' then CHR ''_'' else c) (b64_raw b)"

definition keyPrefix :: string where "keyPrefix = ''so_''"

definition apikey_generate :: "bytes \<Rightarrow> string" where
  "apikey_generate b = keyPrefix @ b64url_raw b"

definition apikey_hash :: "text_lib \<Rightarrow> string \<Rightarrow> string" where
  "apikey_hash T raw = hexEncode (tx_sha256 T raw)"

definition apikey_displayPrefix :: "string \<Rightarrow> string" where
  "apikey_displayPrefix raw = (if length raw < 12 then raw else take 12 raw)"

definition mobile_tokenPrefix :: string where "mobile_tokenPrefix = ''so_m_''"

definition mobile_generate :: "bytes \<Rightarrow> string" where
  "mobile_generate b = mobile_tokenPrefix @ b64url_raw b"

definition mobile_hash :: "text_lib \<Rightarrow> string \<Rightarrow> string" where
  "mobile_hash T raw = hexEncode (tx_sha256 T raw)"

definition mobile_displayPrefix :: "string \<Rightarrow> string" where
  "mobile_displayPrefix raw = (if length raw < 13 then raw else take 13 raw)"

definition share_tokenPrefix :: string where "share_tokenPrefix = ''sh_''"

definition newToken :: "bytes \<Rightarrow> string" where
  "newToken b = share_tokenPrefix @ b64url_raw b"

subsection \<open>API keys\<close>

definition ScopeDatabasesRead :: string where "ScopeDatabasesRead = ''databases:read''"
definition ScopeDatabasesWrite :: string where "ScopeDatabasesWrite = ''databases:write''"
definition ScopeDrillsRead :: string where "ScopeDrillsRead = ''drills:read''"
definition ScopeDrillsWrite :: string where "ScopeDrillsWrite = ''drills:write''"
definition ScopeHeartbeatsRead :: string where "ScopeHeartbeatsRead = ''heartbeats:read''"
definition ScopeAccountDelete :: string where "ScopeAccountDelete = ''account:delete''"

definition AllScopes :: "string list" where
  "AllScopes = [ScopeDatabasesRead, ScopeDatabasesWrite, ScopeDrillsRead, ScopeDrillsWrite, ScopeHeartbeatsRead]"

definition GrantableScopes :: "string list" where
  "GrantableScopes = [ScopeDatabasesRead, ScopeDatabasesWrite, ScopeDrillsRead, ScopeDrillsWrite, ScopeHeartbeatsRead, ScopeAccountDelete]"

definition ValidScope :: "string \<Rightarrow> bool" where
  "ValidScope s = (s \<in> set [ScopeDatabasesRead, ScopeDatabasesWrite, ScopeDrillsRead, ScopeDrillsWrite, ScopeHeartbeatsRead, ScopeAccountDelete])"

definition HasScope :: "Key \<Rightarrow> string \<Rightarrow> bool" where
  "HasScope k s = (\<exists>sc \<in> set (ak_Scopes k). sc = s)"

definition normalizeScopes :: "string list \<Rightarrow> string list" where
  "normalizeScopes req =
     (let out = filter (\<lambda>s. s \<in> set req) GrantableScopes in if out = [] then AllScopes else out)"

definition apikey_Create ::
    "text_lib \<Rightarrow> uuid \<Rightarrow> bytes \<Rightarrow> gotime \<Rightarrow> uuid \<Rightarrow> uuid \<Rightarrow> string \<Rightarrow> string list \<Rightarrow> bearer_db \<Rightarrow> (bearer_error + Key) \<times> bearer_db" where
  "apikey_Create T newid rnd now accountID createdBy name scopes s =
     (let raw = apikey_generate rnd; h = apikey_hash T raw in
      if newid \<in> set (map ak_ID (bd_keys s)) \<or> h \<in> set (map ak_hash (bd_keys s)) \<or> \<not> pg_text_ok name \<or>
         \<not> bd_account_exists accountID s \<or> \<not> bd_user_exists createdBy s
      then (Inl BearerConstraint, s)
      else
        (let k = \<lparr>ak_ID = newid, ak_AccountID = accountID, ak_Name = name, ak_Prefix = apikey_displayPrefix raw,
               ak_Scopes = normalizeScopes scopes, ak_CreatedByUserID = createdBy, ak_CreatedAt = now, ak_LastUsedAt = None,
               ak_RevokedAt = None, ak_Secret = []\<rparr>
         in (Inr (k\<lparr>ak_CreatedByUserID := 0, ak_Secret := raw\<rparr>),
             s\<lparr>bd_keys := bd_keys s @ [Key.extend k (key_row.fields h)]\<rparr>)))"

definition apikey_Authenticate :: "text_lib \<Rightarrow> gotime \<Rightarrow> string \<Rightarrow> bearer_db \<Rightarrow> (bearer_error + Key) \<times> bearer_db" where
  "apikey_Authenticate T now raw s =
     (if take (length keyPrefix) raw \<noteq> keyPrefix then (Inl BearerNotFound, s)
      else
        (case sql_first (\<lambda>k. ak_hash k = apikey_hash T raw \<and> live_account (ak_AccountID k) s) (bd_keys s) of
           None \<Rightarrow> (Inl BearerNotFound, s)
         | Some k \<Rightarrow>
             if ak_RevokedAt k \<noteq> None then (Inl BearerRevoked, s)
             else (Inr (Key.truncate k),
               s\<lparr>bd_keys := sql_update (\<lambda>q. ak_ID q = ak_ID k) (\<lambda>q. q\<lparr>ak_LastUsedAt := Some now\<rparr>) (bd_keys s)\<rparr>)))"

definition apikey_List :: "uuid \<Rightarrow> bearer_db \<Rightarrow> Key list" where
  "apikey_List accountID s =
     map Key.truncate (sort_key (\<lambda>k. - ak_CreatedAt k) (filter (\<lambda>k. ak_AccountID k = accountID) (bd_keys s)))"

definition apikey_Revoke :: "gotime \<Rightarrow> uuid \<Rightarrow> uuid \<Rightarrow> bearer_db \<Rightarrow> (bearer_error + unit) \<times> bearer_db" where
  "apikey_Revoke now accountID i s =
     (let P = \<lambda>k. ak_ID k = i \<and> ak_AccountID k = accountID \<and> ak_RevokedAt k = None in
      if sql_affected P (bd_keys s) = 0 then (Inl BearerNotFound, s)
      else (Inr (), s\<lparr>bd_keys := sql_update P (\<lambda>k. k\<lparr>ak_RevokedAt := Some now\<rparr>) (bd_keys s)\<rparr>))"

subsection \<open>Mobile tokens\<close>

definition mobile_DefaultTTL :: duration where "mobile_DefaultTTL = 30 * 24 * nsHour"

definition ChallengeTTL :: duration where "ChallengeTTL = 10 * nsMinute"

definition mobile_Create ::
    "text_lib \<Rightarrow> uuid \<Rightarrow> bytes \<Rightarrow> gotime \<Rightarrow> uuid \<Rightarrow> uuid \<Rightarrow> string \<Rightarrow> duration \<Rightarrow> bearer_db \<Rightarrow> (bearer_error + Token) \<times> bearer_db" where
  "mobile_Create T newid rnd now userID accountID deviceName ttl s =
     (let raw = mobile_generate rnd; h = mobile_hash T raw; ttl = (if ttl \<le> 0 then mobile_DefaultTTL else ttl) in
      if newid \<in> set (map mt_ID (bd_mobile s)) \<or> h \<in> set (map mt_hash (bd_mobile s)) \<or> \<not> pg_text_ok deviceName \<or>
         \<not> bd_account_exists accountID s \<or> \<not> bd_user_exists userID s
      then (Inl BearerConstraint, s)
      else
        (let t = \<lparr>mt_ID = newid, mt_UserID = userID, mt_AccountID = accountID, mt_Prefix = mobile_displayPrefix raw,
               mt_DeviceName = deviceName, mt_CreatedAt = now, mt_LastUsedAt = None, mt_ExpiresAt = now + ttl, mt_RevokedAt = None,
               mt_Secret = []\<rparr>
         in (Inr (t\<lparr>mt_Secret := raw\<rparr>), s\<lparr>bd_mobile := bd_mobile s @ [Token.extend t (mobile_row.fields h)]\<rparr>)))"

definition mobile_Authenticate :: "text_lib \<Rightarrow> gotime \<Rightarrow> string \<Rightarrow> bearer_db \<Rightarrow> (bearer_error + Token) \<times> bearer_db" where
  "mobile_Authenticate T now raw s =
     (if take (length mobile_tokenPrefix) raw \<noteq> mobile_tokenPrefix then (Inl BearerNotFound, s)
      else
        (case sql_first (\<lambda>t. mt_hash t = mobile_hash T raw \<and> live_account (mt_AccountID t) s) (bd_mobile s) of
           None \<Rightarrow> (Inl BearerNotFound, s)
         | Some t \<Rightarrow>
             if mt_RevokedAt t \<noteq> None then (Inl BearerRevoked, s)
             else if now > mt_ExpiresAt t then (Inl BearerExpired, s)
             else (Inr (Token.truncate t),
               s\<lparr>bd_mobile := sql_update (\<lambda>q. mt_ID q = mt_ID t) (\<lambda>q. q\<lparr>mt_LastUsedAt := Some now\<rparr>) (bd_mobile s)\<rparr>)))"

definition mobile_List :: "uuid \<Rightarrow> bearer_db \<Rightarrow> Token list" where
  "mobile_List userID s =
     map Token.truncate (sort_key (\<lambda>t. - mt_CreatedAt t) (filter (\<lambda>t. mt_UserID t = userID) (bd_mobile s)))"

definition mobile_Revoke :: "gotime \<Rightarrow> uuid \<Rightarrow> uuid \<Rightarrow> bearer_db \<Rightarrow> (bearer_error + unit) \<times> bearer_db" where
  "mobile_Revoke now userID tokenID s =
     (let P = \<lambda>t. mt_ID t = tokenID \<and> mt_UserID t = userID \<and> mt_RevokedAt t = None in
      if sql_affected P (bd_mobile s) = 0 then (Inl BearerNotFound, s)
      else (Inr (), s\<lparr>bd_mobile := sql_update P (\<lambda>t. t\<lparr>mt_RevokedAt := Some now\<rparr>) (bd_mobile s)\<rparr>))"

definition CreateChallenge ::
    "uuid \<Rightarrow> gotime \<Rightarrow> uuid \<Rightarrow> uuid \<Rightarrow> string \<Rightarrow> bearer_db \<Rightarrow> (bearer_error + uuid) \<times> bearer_db" where
  "CreateChallenge newid now userID accountID deviceName s =
     (if newid \<in> set (map ch_ID (bd_challenges s)) \<or> \<not> pg_text_ok deviceName \<or> \<not> bd_account_exists accountID s \<or> \<not> bd_user_exists userID s
      then (Inl BearerConstraint, s)
      else (Inr newid, s\<lparr>bd_challenges := bd_challenges s @
        [\<lparr>ch_UserID = userID, ch_AccountID = accountID, ch_DeviceName = deviceName, ch_ID = newid, ch_ExpiresAt = now + ChallengeTTL\<rparr>]\<rparr>))"

definition ConsumeChallenge :: "gotime \<Rightarrow> uuid \<Rightarrow> bearer_db \<Rightarrow> (bearer_error + Challenge) \<times> bearer_db" where
  "ConsumeChallenge now i s =
     (case sql_first (\<lambda>c. ch_ID c = i) (bd_challenges s) of
        None \<Rightarrow> (Inl BearerNotFound, s)
      | Some c \<Rightarrow>
          (if now > ch_ExpiresAt c then Inl BearerExpired else Inr (Challenge.truncate c),
           s\<lparr>bd_challenges := sql_delete (\<lambda>c. ch_ID c = i) (bd_challenges s)\<rparr>))"

subsection \<open>Share links\<close>

definition share_DefaultTTL :: duration where "share_DefaultTTL = 30 * 24 * nsHour"

definition Active :: "gotime \<Rightarrow> Link \<Rightarrow> bool" where
  "Active now l = (if ln_RevokedAt l \<noteq> None then False else now < ln_ExpiresAt l)"

definition share_Create ::
    "text_lib \<Rightarrow> uuid \<Rightarrow> bytes \<Rightarrow> gotime \<Rightarrow> uuid \<Rightarrow> uuid \<Rightarrow> uuid \<Rightarrow> string \<Rightarrow> duration \<Rightarrow> bearer_db \<Rightarrow> (bearer_error + Minted) \<times> bearer_db" where
  "share_Create T newid rnd now drillID accountID createdBy lbl ttl s =
     (let ttl = (if ttl \<le> 0 then share_DefaultTTL else ttl); tok = newToken rnd; h = tx_sha256 T tok in
      if newid \<in> set (map ln_ID (bd_links s)) \<or> h \<in> set (map ln_hash (bd_links s)) \<or> \<not> pg_text_ok lbl \<or>
         \<not> drill_exists drillID (bd_drill s) \<or> \<not> bd_account_exists accountID s \<or> \<not> bd_user_exists createdBy s
      then (Inl BearerConstraint, s)
      else
        (let l = \<lparr>ln_ID = newid, ln_DrillID = drillID, ln_AccountID = accountID, ln_CreatedByID = createdBy,
               ln_TokenPrefix = take (length share_tokenPrefix + 6) tok, ln_Label = lbl, ln_ExpiresAt = now + ttl, ln_RevokedAt = None,
               ln_LastViewedAt = None, ln_ViewCount = 0, ln_CreatedAt = now\<rparr>
         in (Inr \<lparr>mi_Link = l, mi_Token = tok\<rparr>, s\<lparr>bd_links := bd_links s @ [Link.extend l (link_row.fields h)]\<rparr>)))"

definition share_Resolve :: "text_lib \<Rightarrow> gotime \<Rightarrow> string \<Rightarrow> bearer_db \<Rightarrow> (bearer_error + Link) \<times> bearer_db" where
  "share_Resolve T now token s =
     (if take (length share_tokenPrefix) token \<noteq> share_tokenPrefix then (Inl BearerNotFound, s)
      else
        (case sql_first (\<lambda>l. ln_hash l = tx_sha256 T token) (bd_links s) of
           None \<Rightarrow> (Inl BearerNotFound, s)
         | Some l \<Rightarrow>
             if \<not> Active now (Link.truncate l) then (Inl BearerNotFound, s)
             else (Inr (Link.truncate l),
               s\<lparr>bd_links := sql_update (\<lambda>q. ln_ID q = ln_ID l)
                  (\<lambda>q. q\<lparr>ln_LastViewedAt := Some now, ln_ViewCount := ln_ViewCount q + 1\<rparr>) (bd_links s)\<rparr>)))"

definition ListForDrill :: "uuid \<Rightarrow> bearer_db \<Rightarrow> Link list" where
  "ListForDrill drillID s =
     map Link.truncate (sort_key (\<lambda>l. - ln_CreatedAt l) (filter (\<lambda>l. ln_DrillID l = drillID) (bd_links s)))"

definition share_Revoke :: "gotime \<Rightarrow> uuid \<Rightarrow> bearer_db \<Rightarrow> bearer_db" where
  "share_Revoke now i s =
     s\<lparr>bd_links := sql_update (\<lambda>l. ln_ID l = i \<and> ln_RevokedAt l = None) (\<lambda>l. l\<lparr>ln_RevokedAt := Some now\<rparr>) (bd_links s)\<rparr>"

subsection \<open>Runs\<close>

text \<open>
  Every operation of the three stores is a step, and so is anything that happens to the other
  tables: users and accounts may change in any way in between.
\<close>

inductive bearer_step :: "text_lib \<Rightarrow> bearer_db \<Rightarrow> bearer_db \<Rightarrow> bool" for T where
  key_create: "bearer_step T s (snd (apikey_Create T i b now acc u name scopes s))"
| key_use: "bearer_step T s (snd (apikey_Authenticate T now raw s))"
| key_revoke: "bearer_step T s (snd (apikey_Revoke now acc i s))"
| mobile_create: "bearer_step T s (snd (mobile_Create T i b now u acc name ttl s))"
| mobile_use: "bearer_step T s (snd (mobile_Authenticate T now raw s))"
| mobile_revoke: "bearer_step T s (snd (mobile_Revoke now u i s))"
| challenge_create: "bearer_step T s (snd (CreateChallenge i now u acc name s))"
| challenge_use: "bearer_step T s (snd (ConsumeChallenge now i s))"
| link_create: "bearer_step T s (snd (share_Create T i b now d acc u name ttl s))"
| link_use: "bearer_step T s (snd (share_Resolve T now raw s))"
| link_revoke: "bearer_step T s (share_Revoke now i s)"
| other: "bearer_step T s (s\<lparr>bd_auth := a, bd_drill := d\<rparr>)"

section \<open>What a token opens\<close>

text \<open>
  The contract of the stores. The row of a token is the only one with its hash; \<open>core\<close> is what it was
  made for and never changes, and a row that is revoked stays so. A token is let in exactly when its
  row is not revoked and \<open>opens\<close> holds.
\<close>

definition grown :: "('r \<Rightarrow> 'h) \<Rightarrow> ('r \<Rightarrow> 'c) \<Rightarrow> ('r \<Rightarrow> bool) \<Rightarrow> 'r list \<Rightarrow> 'r list \<Rightarrow> bool" where
  "grown hash_of core revoked rs rs' \<longleftrightarrow>
     (\<exists>f news. rs' = map f rs @ news \<and> (\<forall>r. hash_of (f r) = hash_of r \<and> core (f r) = core r \<and> (revoked r \<longrightarrow> revoked (f r))) \<and>
        (\<forall>n \<in> set news. hash_of n \<notin> hash_of ` set rs))"

lemma grown_refl: "grown hash_of core revoked rs rs"
  unfolding grown_def by (rule exI [of _ "\<lambda>r. r"], rule exI [of _ "[]"]) simp

lemma grown_add: "hash_of n \<notin> hash_of ` set rs \<Longrightarrow> grown hash_of core revoked rs (rs @ [n])"
  unfolding grown_def by (rule exI [of _ "\<lambda>r. r"], rule exI [of _ "[n]"]) simp

lemma grown_update:
  assumes "\<And>r. hash_of (f r) = hash_of r \<and> core (f r) = core r \<and> (revoked r \<longrightarrow> revoked (f r))"
  shows "grown hash_of core revoked rs (sql_update P f rs)"
  unfolding grown_def using assms
  by (intro exI [of _ "\<lambda>r. if P r then f r else r"] exI [of _ "[]"]) (simp add: sql_update_def)

locale bearer_store =
  fixes rows :: "'s \<Rightarrow> 'r list"
    and hash_of :: "'r \<Rightarrow> 'h"
    and core :: "'r \<Rightarrow> 'c"
    and revoked :: "'r \<Rightarrow> bool"
    and digest :: "string \<Rightarrow> 'h"
    and proper :: "string \<Rightarrow> bool"
    and opens :: "gotime \<Rightarrow> 'c \<Rightarrow> 's \<Rightarrow> bool"
    and admit :: "gotime \<Rightarrow> string \<Rightarrow> 's \<Rightarrow> ('e + 'v) \<times> 's"
    and view :: "'v \<Rightarrow> 'c"
    and step :: "'s \<Rightarrow> 's \<Rightarrow> bool"
  assumes admit_spec: "proper raw \<Longrightarrow> filter (\<lambda>r. hash_of r = digest raw) (rows s) = [r] \<Longrightarrow>
      (case fst (admit now raw s) of Inl _ \<Rightarrow> revoked r \<or> \<not> opens now (core r) s
       | Inr v \<Rightarrow> \<not> revoked r \<and> opens now (core r) s \<and> view v = core r)"
    and step_grown: "step s s' \<Longrightarrow> grown hash_of core revoked (rows s) (rows s')"
begin

definition sole :: "string \<Rightarrow> 'r \<Rightarrow> 's \<Rightarrow> bool" where
  "sole raw r s \<longleftrightarrow> filter (\<lambda>r. hash_of r = digest raw) (rows s) = [r]"

lemma sole_grown:
  assumes "grown hash_of core revoked (rows s) (rows s')" and "sole raw r s"
  shows "\<exists>r'. sole raw r' s' \<and> core r' = core r \<and> (revoked r \<longrightarrow> revoked r')"
proof -
  from assms(1) obtain f news where f: "rows s' = map f (rows s) @ news"
    "\<And>r. hash_of (f r) = hash_of r \<and> core (f r) = core r \<and> (revoked r \<longrightarrow> revoked (f r))"
    "\<And>n. n \<in> set news \<Longrightarrow> hash_of n \<notin> hash_of ` set (rows s)"
    unfolding grown_def by blast
  have r: "r \<in> set (rows s)" "hash_of r = digest raw"
    using assms(2) by (auto simp: sole_def filter_eq_Cons_iff)
  have "filter (\<lambda>r. hash_of r = digest raw) news = []"
    unfolding filter_empty_conv using f(3) r by (metis imageI)
  then have "sole raw (f r) s'"
    using assms(2) f(1,2) by (simp add: sole_def filter_map o_def)
  with f(2) show ?thesis by blast
qed

lemma sole_steps:
  assumes "step\<^sup>*\<^sup>* s s'" and "sole raw r s"
  shows "\<exists>r'. sole raw r' s' \<and> core r' = core r \<and> (revoked r \<longrightarrow> revoked r')"
  using assms
proof (induction rule: rtranclp_induct)
  case (step s' s'')
  then obtain r' where "sole raw r' s'" "core r' = core r" "revoked r \<longrightarrow> revoked r'" by blast
  with sole_grown [OF step_grown [OF step.hyps(2)]] show ?case by metis
qed blast

lemma admitted:
  assumes "proper raw" and "sole raw r s" and "step\<^sup>*\<^sup>* s s'"
  shows "case fst (admit now raw s') of
      Inl _ \<Rightarrow> opens now (core r) s' \<longrightarrow> (\<exists>r' \<in> set (rows s'). core r' = core r \<and> revoked r')
    | Inr v \<Rightarrow> opens now (core r) s' \<and> view v = core r"
proof -
  from sole_steps [OF assms(3,2)] obtain r' where r': "sole raw r' s'" "core r' = core r" by blast
  then have "r' \<in> set (rows s')" by (auto simp: sole_def filter_eq_Cons_iff)
  with admit_spec [OF assms(1) r'(1) [unfolded sole_def], of now] r'(2) show ?thesis
    by (auto split: sum.splits)
qed

lemma refused:
  assumes "proper raw" and "sole raw r s" and "revoked r" and "step\<^sup>*\<^sup>* s s'"
  shows "isl (fst (admit now raw s'))"
proof -
  from sole_steps [OF assms(4,2)] assms(3) obtain r' where r': "sole raw r' s'" "revoked r'" by blast
  from admit_spec [OF assms(1) r'(1) [unfolded sole_def], of now] r'(2) show ?thesis
    by (auto split: sum.splits)
qed

end

subsection \<open>The three stores\<close>

definition key_core :: "key_row \<Rightarrow> uuid \<times> uuid \<times> uuid \<times> string list" where
  "key_core k = (ak_ID k, ak_AccountID k, ak_CreatedByUserID k, ak_Scopes k)"

definition mobile_core :: "mobile_row \<Rightarrow> uuid \<times> uuid \<times> uuid \<times> gotime" where
  "mobile_core t = (mt_ID t, mt_UserID t, mt_AccountID t, mt_ExpiresAt t)"

definition link_core :: "link_row \<Rightarrow> uuid \<times> uuid \<times> uuid \<times> gotime" where
  "link_core l = (ln_ID l, ln_DrillID l, ln_AccountID l, ln_ExpiresAt l)"

lemma sql_first_filter: "sql_first P rs = (case filter P rs of [] \<Rightarrow> None | r # _ \<Rightarrow> Some r)"
  by (induction rs) auto

lemma sql_first_sole: "filter P rs = [r] \<Longrightarrow> sql_first (\<lambda>r. P r \<and> Q r) rs = (if Q r then Some r else None)"
proof -
  assume "filter P rs = [r]"
  moreover have "filter (\<lambda>r. P r \<and> Q r) rs = filter Q (filter P rs)" by (simp add: conj_commute)
  ultimately show ?thesis by (simp add: sql_first_filter)
qed

lemma keys_grown: "bearer_step T s s' \<Longrightarrow> grown ak_hash key_core (\<lambda>k. ak_RevokedAt k \<noteq> None) (bd_keys s) (bd_keys s')"
  by (erule bearer_step.cases)
    (auto simp: apikey_Create_def apikey_Authenticate_def apikey_Revoke_def mobile_Create_def mobile_Authenticate_def
      mobile_Revoke_def CreateChallenge_def ConsumeChallenge_def share_Create_def share_Resolve_def share_Revoke_def Let_def key_core_def
      Key.defs key_row.defs intro!: grown_refl grown_add grown_update split: option.split)

lemma mobile_grown: "bearer_step T s s' \<Longrightarrow> grown mt_hash mobile_core (\<lambda>k. mt_RevokedAt k \<noteq> None) (bd_mobile s) (bd_mobile s')"
  by (erule bearer_step.cases)
    (auto simp: apikey_Create_def apikey_Authenticate_def apikey_Revoke_def mobile_Create_def mobile_Authenticate_def
      mobile_Revoke_def CreateChallenge_def ConsumeChallenge_def share_Create_def share_Resolve_def share_Revoke_def Let_def mobile_core_def
      Token.defs mobile_row.defs intro!: grown_refl grown_add grown_update split: option.split)

lemma links_grown: "bearer_step T s s' \<Longrightarrow> grown ln_hash link_core (\<lambda>k. ln_RevokedAt k \<noteq> None) (bd_links s) (bd_links s')"
  by (erule bearer_step.cases)
    (auto simp: apikey_Create_def apikey_Authenticate_def apikey_Revoke_def mobile_Create_def mobile_Authenticate_def
      mobile_Revoke_def CreateChallenge_def ConsumeChallenge_def share_Create_def share_Resolve_def share_Revoke_def Let_def link_core_def
      Link.defs link_row.defs intro!: grown_refl grown_add grown_update split: option.split)

interpretation api_keys: bearer_store bd_keys ak_hash key_core "\<lambda>k. ak_RevokedAt k \<noteq> None" "apikey_hash T"
    "\<lambda>raw. take (length keyPrefix) raw = keyPrefix" "\<lambda>now c s. live_account (fst (snd c)) s" "apikey_Authenticate T"
    "\<lambda>k. (ak_ID k, ak_AccountID k, ak_CreatedByUserID k, ak_Scopes k)" "bearer_step T" for T
proof (unfold_locales, goal_cases)
  case (1 raw s r now)
  then show ?case
    by (simp add: apikey_Authenticate_def key_core_def Key.defs sql_first_sole [where Q = "\<lambda>k. live_account (ak_AccountID k) s"])
qed (rule keys_grown)

interpretation mobile_tokens: bearer_store bd_mobile mt_hash mobile_core "\<lambda>k. mt_RevokedAt k \<noteq> None" "mobile_hash T"
    "\<lambda>raw. take (length mobile_tokenPrefix) raw = mobile_tokenPrefix"
    "\<lambda>now c s. live_account (fst (snd (snd c))) s \<and> now \<le> snd (snd (snd c))" "mobile_Authenticate T"
    "\<lambda>k. (mt_ID k, mt_UserID k, mt_AccountID k, mt_ExpiresAt k)" "bearer_step T" for T
proof (unfold_locales, goal_cases)
  case (1 raw s r now)
  then show ?case
    by (simp add: mobile_Authenticate_def mobile_core_def Token.defs sql_first_sole [where Q = "\<lambda>k. live_account (mt_AccountID k) s"] not_less)
qed (rule mobile_grown)

interpretation share_links: bearer_store bd_links ln_hash link_core "\<lambda>k. ln_RevokedAt k \<noteq> None" "tx_sha256 T"
    "\<lambda>raw. take (length share_tokenPrefix) raw = share_tokenPrefix" "\<lambda>now c s. now < snd (snd (snd c))" "share_Resolve T"
    "\<lambda>k. (ln_ID k, ln_DrillID k, ln_AccountID k, ln_ExpiresAt k)" "bearer_step T" for T
proof (unfold_locales, goal_cases)
  case (1 raw s r now)
  then show ?case
    by (auto simp add: share_Resolve_def link_core_def Link.defs Active_def sql_first_sole [where Q = "\<lambda>_. True", simplified])
qed (rule links_grown)

lemmas key_sole = api_keys.sole_steps [unfolded api_keys.sole_def]
lemmas mobile_sole = mobile_tokens.sole_steps [unfolded mobile_tokens.sole_def]
lemmas link_sole = share_links.sole_steps [unfolded share_links.sole_def]
lemmas key_admitted = api_keys.admitted [unfolded api_keys.sole_def]
lemmas key_refused = api_keys.refused [unfolded api_keys.sole_def]
lemmas mobile_admitted = mobile_tokens.admitted [unfolded mobile_tokens.sole_def]
lemmas mobile_refused = mobile_tokens.refused [unfolded mobile_tokens.sole_def]
lemmas link_admitted = share_links.admitted [unfolded share_links.sole_def]
lemmas link_refused = share_links.refused [unfolded share_links.sole_def]

lemma filter_none: "x \<notin> set (map f xs) \<Longrightarrow> filter (\<lambda>r. f r = x) xs = []"
  by (induction xs) auto

lemma key_created:
  assumes "apikey_Create T i b now acc u name scopes s = (Inr k, s')"
  shows "take (length keyPrefix) (ak_Secret k) = keyPrefix \<and>
    (\<exists>r. filter (\<lambda>r. ak_hash r = apikey_hash T (ak_Secret k)) (bd_keys s') = [r] \<and> key_core r = (i, acc, u, normalizeScopes scopes))"
  using assms by (auto simp: apikey_Create_def Let_def Key.defs key_row.defs key_core_def filter_none apikey_generate_def split: if_splits)

lemma mobile_created:
  assumes "mobile_Create T i b now u acc name ttl s = (Inr m, s')"
  shows "take (length mobile_tokenPrefix) (mt_Secret m) = mobile_tokenPrefix \<and>
    (\<exists>r. filter (\<lambda>r. mt_hash r = mobile_hash T (mt_Secret m)) (bd_mobile s') = [r] \<and>
      mobile_core r = (i, u, acc, now + (if ttl \<le> 0 then mobile_DefaultTTL else ttl)))"
  using assms by (auto simp: mobile_Create_def Let_def Token.defs mobile_row.defs mobile_core_def filter_none mobile_generate_def split: if_splits)

lemma link_created:
  assumes "share_Create T i b now d acc u lbl ttl s = (Inr l, s')"
  shows "take (length share_tokenPrefix) (mi_Token l) = share_tokenPrefix \<and>
    (\<exists>r. filter (\<lambda>r. ln_hash r = tx_sha256 T (mi_Token l)) (bd_links s') = [r] \<and>
      link_core r = (i, d, acc, now + (if ttl \<le> 0 then share_DefaultTTL else ttl)))"
  using assms by (auto simp: share_Create_def Let_def Link.defs link_row.defs link_core_def filter_none newToken_def split: if_splits)

lemma sole_sql_update:
  assumes "filter (\<lambda>r. h r = x) rs = [r]" and "\<And>r. h (f r) = h r"
  shows "filter (\<lambda>r. h r = x) (sql_update P f rs) = [if P r then f r else r]"
proof -
  have "(\<lambda>r. h (if P r then f r else r) = x) = (\<lambda>r. h r = x)" using assms(2) by auto
  with assms(1) show ?thesis by (simp add: sql_update_def filter_map o_def)
qed

text \<open>
  Revoking a row by its identifier and owner.
\<close>

lemma key_revoked:
  assumes "filter (\<lambda>r. ak_hash r = h) (bd_keys s) = [r]" and "ak_ID r = i" "ak_AccountID r = acc"
    and "apikey_Revoke now acc i s = (Inr (), s')"
  shows "\<exists>r'. filter (\<lambda>r. ak_hash r = h) (bd_keys s') = [r'] \<and> ak_RevokedAt r' \<noteq> None"
proof -
  have "bd_keys s' = sql_update (\<lambda>k. ak_ID k = i \<and> ak_AccountID k = acc \<and> ak_RevokedAt k = None) (\<lambda>k. k\<lparr>ak_RevokedAt := Some now\<rparr>) (bd_keys s)"
    using assms(4) by (auto simp: apikey_Revoke_def Let_def split: if_splits)
  with sole_sql_update [OF assms(1), of "\<lambda>k. k\<lparr>ak_RevokedAt := Some now\<rparr>"] assms(2,3) show ?thesis by simp
qed

lemma mobile_revoked:
  assumes "filter (\<lambda>r. mt_hash r = h) (bd_mobile s) = [r]" and "mt_ID r = i" "mt_UserID r = u"
    and "mobile_Revoke now u i s = (Inr (), s')"
  shows "\<exists>r'. filter (\<lambda>r. mt_hash r = h) (bd_mobile s') = [r'] \<and> mt_RevokedAt r' \<noteq> None"
proof -
  have "bd_mobile s' = sql_update (\<lambda>k. mt_ID k = i \<and> mt_UserID k = u \<and> mt_RevokedAt k = None) (\<lambda>k. k\<lparr>mt_RevokedAt := Some now\<rparr>) (bd_mobile s)"
    using assms(4) by (auto simp: mobile_Revoke_def Let_def split: if_splits)
  with sole_sql_update [OF assms(1), of "\<lambda>k. k\<lparr>mt_RevokedAt := Some now\<rparr>"] assms(2,3) show ?thesis by simp
qed

lemma link_revoked:
  assumes "filter (\<lambda>r. ln_hash r = h) (bd_links s) = [r]" and "ln_ID r = i"
  shows "\<exists>r'. filter (\<lambda>r. ln_hash r = h) (bd_links (share_Revoke now i s)) = [r'] \<and> ln_RevokedAt r' \<noteq> None"
  using sole_sql_update [OF assms(1), of "\<lambda>k. k\<lparr>ln_RevokedAt := Some now\<rparr>"] assms(2) by (simp add: share_Revoke_def)

text \<open>
  C26. What a bearer token opens. An API key, a mobile token and a share link, each as it was handed
  out and after any run of the stores, is let in for what it was made for and nothing else: the
  key for its account with the scopes it was given, the token for its user and account, the link
  for its drill. A key works while its account is not deleted, a token until it expires as well, a
  link until it expires; a refusal before that means that the row was revoked. Once revoked it is
  refused for ever.
\<close>

theorem bearer_tokens:
  assumes "apikey_Create T ki kb kt kacc ku kname scopes s0 = (Inr k, s1)"
    and "mobile_Create T mi mb mt mu macc mname mttl s1 = (Inr m, s2)"
    and "share_Create T li lb lt d lacc lu lbl lttl s2 = (Inr l, s3)"
    and "(bearer_step T)\<^sup>*\<^sup>* s3 s"
  shows "(case fst (apikey_Authenticate T now (ak_Secret k) s) of
        Inr k' \<Rightarrow> (ak_ID k', ak_AccountID k', ak_CreatedByUserID k', ak_Scopes k') = (ki, kacc, ku, normalizeScopes scopes) \<and> live_account kacc s
      | Inl _ \<Rightarrow> live_account kacc s \<longrightarrow> (\<exists>r \<in> set (bd_keys s). ak_ID r = ki \<and> ak_RevokedAt r \<noteq> None)) \<and>
    (case fst (mobile_Authenticate T now (mt_Secret m) s) of
        Inr m' \<Rightarrow> (mt_ID m', mt_UserID m', mt_AccountID m') = (mi, mu, macc) \<and> live_account macc s \<and>
          now \<le> mt + (if mttl \<le> 0 then mobile_DefaultTTL else mttl)
      | Inl _ \<Rightarrow> live_account macc s \<and> now \<le> mt + (if mttl \<le> 0 then mobile_DefaultTTL else mttl) \<longrightarrow>
          (\<exists>r \<in> set (bd_mobile s). mt_ID r = mi \<and> mt_RevokedAt r \<noteq> None)) \<and>
    (case fst (share_Resolve T now (mi_Token l) s) of
        Inr l' \<Rightarrow> (ln_ID l', ln_DrillID l', ln_AccountID l') = (li, d, lacc) \<and> now < lt + (if lttl \<le> 0 then share_DefaultTTL else lttl)
      | Inl _ \<Rightarrow> now < lt + (if lttl \<le> 0 then share_DefaultTTL else lttl) \<longrightarrow>
          (\<exists>r \<in> set (bd_links s). ln_ID r = li \<and> ln_RevokedAt r \<noteq> None)) \<and>
    (apikey_Revoke t kacc ki s = (Inr (), s') \<and> (bearer_step T)\<^sup>*\<^sup>* s' s'' \<longrightarrow> isl (fst (apikey_Authenticate T now' (ak_Secret k) s''))) \<and>
    (mobile_Revoke t mu mi s = (Inr (), s') \<and> (bearer_step T)\<^sup>*\<^sup>* s' s'' \<longrightarrow> isl (fst (mobile_Authenticate T now' (mt_Secret m) s''))) \<and>
    ((bearer_step T)\<^sup>*\<^sup>* (share_Revoke t li s) s'' \<longrightarrow> isl (fst (share_Resolve T now' (mi_Token l) s'')))"
proof (intro conjI impI)
  have s2: "(bearer_step T)\<^sup>*\<^sup>* s2 s"
    using bearer_step.link_create [of T s2 li lb lt d lacc lu lbl lttl] assms(3,4) by (simp add: converse_rtranclp_into_rtranclp)
  have s1: "(bearer_step T)\<^sup>*\<^sup>* s1 s"
    using bearer_step.mobile_create [of T s1 mi mb mt mu macc mname mttl] assms(2) s2 by (simp add: converse_rtranclp_into_rtranclp)
  note K = key_created [OF assms(1)] and M = mobile_created [OF assms(2)] and L = link_created [OF assms(3)]
  from K obtain kr where kr: "filter (\<lambda>r. ak_hash r = apikey_hash T (ak_Secret k)) (bd_keys s1) = [kr]" "key_core kr = (ki, kacc, ku, normalizeScopes scopes)" by blast
  from M obtain mr where mr: "filter (\<lambda>r. mt_hash r = mobile_hash T (mt_Secret m)) (bd_mobile s2) = [mr]"
    "mobile_core mr = (mi, mu, macc, mt + (if mttl \<le> 0 then mobile_DefaultTTL else mttl))" by blast
  from L obtain lr where lr: "filter (\<lambda>r. ln_hash r = tx_sha256 T (mi_Token l)) (bd_links s3) = [lr]"
    "link_core lr = (li, d, lacc, lt + (if lttl \<le> 0 then share_DefaultTTL else lttl))" by blast
  show "case fst (apikey_Authenticate T now (ak_Secret k) s) of
        Inr k' \<Rightarrow> (ak_ID k', ak_AccountID k', ak_CreatedByUserID k', ak_Scopes k') = (ki, kacc, ku, normalizeScopes scopes) \<and> live_account kacc s
      | Inl _ \<Rightarrow> live_account kacc s \<longrightarrow> (\<exists>r \<in> set (bd_keys s). ak_ID r = ki \<and> ak_RevokedAt r \<noteq> None)"
    using key_admitted [OF conjunct1 [OF K] kr(1) s1, of now] kr(2) by (auto simp: key_core_def split: sum.splits)
  show "case fst (mobile_Authenticate T now (mt_Secret m) s) of
        Inr m' \<Rightarrow> (mt_ID m', mt_UserID m', mt_AccountID m') = (mi, mu, macc) \<and> live_account macc s \<and>
          now \<le> mt + (if mttl \<le> 0 then mobile_DefaultTTL else mttl)
      | Inl _ \<Rightarrow> live_account macc s \<and> now \<le> mt + (if mttl \<le> 0 then mobile_DefaultTTL else mttl) \<longrightarrow>
          (\<exists>r \<in> set (bd_mobile s). mt_ID r = mi \<and> mt_RevokedAt r \<noteq> None)"
    using mobile_admitted [OF conjunct1 [OF M] mr(1) s2, of now] mr(2) by (auto simp: mobile_core_def split: sum.splits)
  show "case fst (share_Resolve T now (mi_Token l) s) of
        Inr l' \<Rightarrow> (ln_ID l', ln_DrillID l', ln_AccountID l') = (li, d, lacc) \<and> now < lt + (if lttl \<le> 0 then share_DefaultTTL else lttl)
      | Inl _ \<Rightarrow> now < lt + (if lttl \<le> 0 then share_DefaultTTL else lttl) \<longrightarrow>
          (\<exists>r \<in> set (bd_links s). ln_ID r = li \<and> ln_RevokedAt r \<noteq> None)"
    using link_admitted [OF conjunct1 [OF L] lr(1) assms(4), of now] lr(2) by (auto simp: link_core_def split: sum.splits)
  show "isl (fst (apikey_Authenticate T now' (ak_Secret k) s''))" if "apikey_Revoke t kacc ki s = (Inr (), s') \<and> (bearer_step T)\<^sup>*\<^sup>* s' s''"
    using key_sole [OF s1 kr(1)] key_revoked [of "apikey_hash T (ak_Secret k)" s _ ki kacc t s'] key_refused [OF conjunct1 [OF K]] kr(2) that
    by (metis (lifting) Pair_inject key_core_def)
  show "isl (fst (mobile_Authenticate T now' (mt_Secret m) s''))" if "mobile_Revoke t mu mi s = (Inr (), s') \<and> (bearer_step T)\<^sup>*\<^sup>* s' s''"
    using mobile_sole [OF s2 mr(1)] mobile_revoked [of "mobile_hash T (mt_Secret m)" s _ mi mu t s'] mobile_refused [OF conjunct1 [OF M]] mr(2) that
    by (metis (lifting) Pair_inject mobile_core_def)
  show "isl (fst (share_Resolve T now' (mi_Token l) s''))" if "(bearer_step T)\<^sup>*\<^sup>* (share_Revoke t li s) s''"
    using link_sole [OF assms(4) lr(1)] link_revoked [of "tx_sha256 T (mi_Token l)" s _ li t] link_refused [OF conjunct1 [OF L]] lr(2) that
    by (metis (lifting) Pair_inject link_core_def)
qed

lemma scope_lists:
  "ValidScope s \<longleftrightarrow> s \<in> set GrantableScopes" "distinct GrantableScopes" "distinct AllScopes" "AllScopes \<noteq> []"
  "GrantableScopes = AllScopes @ [ScopeAccountDelete]" "ScopeAccountDelete \<notin> set AllScopes" "ScopeAccountDelete \<in> set GrantableScopes"
  by (simp_all add: ValidScope_def GrantableScopes_def AllScopes_def ScopeDatabasesRead_def ScopeDatabasesWrite_def ScopeDrillsRead_def
      ScopeDrillsWrite_def ScopeHeartbeatsRead_def ScopeAccountDelete_def)

lemma normalizeScopes_cases:
  obtains "\<exists>s \<in> set req. ValidScope s" "normalizeScopes req = filter (\<lambda>s. s \<in> set req) GrantableScopes" "normalizeScopes req \<noteq> []"
  | "\<not> (\<exists>s \<in> set req. ValidScope s)" "normalizeScopes req = AllScopes"
proof (cases "filter (\<lambda>s. s \<in> set req) GrantableScopes = []")
  case True
  then show ?thesis by (intro that(2)) (auto simp: normalizeScopes_def filter_empty_conv scope_lists(1))
next
  case False
  then show ?thesis by (intro that(1)) (auto simp: normalizeScopes_def filter_empty_conv scope_lists(1))
qed

text \<open>
  The scopes of a key. Whatever a key was asked for, it gets known scopes only, each once and in
  canonical order. It gets those that were asked for, except that a request without any known
  scope gets full access to resources; deleting the account has to be asked for by name.
\<close>

theorem scopes_granted:
  "distinct (normalizeScopes req) \<and> normalizeScopes req \<noteq> [] \<and>
   set (normalizeScopes req) = (if \<exists>s \<in> set req. ValidScope s then {s \<in> set req. ValidScope s} else set AllScopes) \<and>
   subseq (normalizeScopes req) GrantableScopes \<and>
   (ScopeAccountDelete \<in> set (normalizeScopes req) \<longleftrightarrow> ScopeAccountDelete \<in> set req) \<and>
   normalizeScopes (normalizeScopes req) = normalizeScopes req"
proof (cases req rule: normalizeScopes_cases)
  case 1
  then have "filter (\<lambda>s. s \<in> set (normalizeScopes req)) GrantableScopes = normalizeScopes req"
    by (simp add: conj_commute cong: filter_cong)
  then have "normalizeScopes (normalizeScopes req) = normalizeScopes req"
    using 1(3) unfolding normalizeScopes_def [of "normalizeScopes req"] Let_def by argo
  with 1 scope_lists(2,7) show ?thesis by (auto simp: scope_lists(1))
next
  case 2
  have "filter (\<lambda>s. s \<in> set AllScopes) GrantableScopes = AllScopes" by (simp add: scope_lists(5,6))
  then have "normalizeScopes AllScopes = AllScopes" by (simp add: normalizeScopes_def scope_lists(4))
  with 2 show ?thesis using scope_lists(3,4,6) by (auto simp: scope_lists(1,5))
qed

section \<open>Examples\<close>

definition bearer_demo :: bearer_db where
  "bearer_demo = \<lparr>bd_auth = \<lparr>au_acct = ann_account, au_sessions = [], au_attempts = [], au_magic = [], au_verify = [], au_codes = []\<rparr>,
     bd_drill = snd (CreateDrillIdempotent unary_uuid 7 100 1 2 3 ''k'' sample_db), bd_keys = [], bd_mobile = [], bd_challenges = [], bd_links = []\<rparr>"

lemma bearer_demo_facts:
  "bd_account_exists 7 bearer_demo" "bd_user_exists 1 bearer_demo" "drill_exists 7 (bd_drill bearer_demo)"
  "bd_keys bearer_demo = []" "bd_mobile bearer_demo = []" "bd_links bearer_demo = []" "pg_text_ok ''x''"
proof -
  show "bd_account_exists 7 bearer_demo" "bd_user_exists 1 bearer_demo"
    by (simp_all add: bearer_demo_def bd_account_exists_def bd_user_exists_def ad_account_exists_def ad_user_exists_def ann_account_facts
        two_users_def flip: set_map)
  show "drill_exists 7 (bd_drill bearer_demo)"
    by (simp add: bearer_demo_def CreateDrillIdempotent_def sample_db_def target_exists_def sample_target_def account_exists_def
        sample_account_row_def user_exists_def drill_exists_def Let_def)
  show "pg_text_ok ''x''" by code_simp
qed (simp_all add: bearer_demo_def)

theorem bearer_tokens_witness:
  "\<exists>(k :: Key) (m :: Token) (l :: Minted) s. \<not> isl (fst (apikey_Authenticate plain_text 5 (ak_Secret k) s)) \<and> mt_ID m = 12 \<and>
     isl (fst (apikey_Authenticate plain_text 6 (ak_Secret k) (snd (apikey_Revoke 6 7 11 s)))) \<and>
     isl (fst (share_Resolve plain_text 6 (mi_Token l) (share_Revoke 6 13 s)))"
proof -
  note defs = apikey_Create_def mobile_Create_def share_Create_def Let_def Key.defs key_row.defs bd_account_exists_def bd_user_exists_def
  note facts = bearer_demo_facts [unfolded bd_account_exists_def bd_user_exists_def]
  obtain k s1 where k: "apikey_Create plain_text 11 ''a'' 0 7 1 ''x'' [] bearer_demo = (Inr k, s1)"
    and s1: "bd_auth s1 = bd_auth bearer_demo" "bd_drill s1 = bd_drill bearer_demo" "bd_mobile s1 = []" "bd_links s1 = []"
      "map (\<lambda>r. (ak_ID r, ak_AccountID r, ak_RevokedAt r)) (bd_keys s1) = [(11, 7, None)]"
    using facts by (simp add: defs)
  obtain m s2 where m: "mobile_Create plain_text 12 ''b'' 0 1 7 ''x'' 0 s1 = (Inr m, s2)" "mt_ID m = 12"
    and s2: "bd_auth s2 = bd_auth bearer_demo" "bd_drill s2 = bd_drill bearer_demo" "bd_links s2 = []" "bd_keys s2 = bd_keys s1"
    using facts s1 by (simp add: defs)
  obtain l s3 where l: "share_Create plain_text 13 ''c'' 0 7 7 1 ''x'' 0 s2 = (Inr l, s3)"
    and s3: "bd_auth s3 = bd_auth bearer_demo" "bd_keys s3 = bd_keys s1"
    using facts s2 by (simp add: defs)
  have "ad_accounts two_users = []" by (simp add: two_users_def)
  then have live: "live_account 7 s3"
    using ann_account_facts(2) s3 unfolding live_account_def bearer_demo_def
    by (auto simp: ann_account_def CreatePersonalAccount_def Let_def split: if_splits)
  obtain r where r: "bd_keys s3 = [r]" "ak_ID r = 11" "ak_AccountID r = 7" "ak_RevokedAt r = None"
    using s1(5) s3(2) by (auto simp: map_eq_Cons_conv)
  have rv: "apikey_Revoke 6 7 11 s3 = (Inr (), snd (apikey_Revoke 6 7 11 s3))"
    using r by (simp add: apikey_Revoke_def Let_def sql_affected_def)
  note B = bearer_tokens [OF k m(1) l rtranclp.rtrancl_refl]
  have "\<not> isl (fst (apikey_Authenticate plain_text 5 (ak_Secret k) s3))"
    using B [of 5, THEN conjunct1] live r by (auto split: sum.splits)
  moreover have "isl (fst (apikey_Authenticate plain_text 6 (ak_Secret k) (snd (apikey_Revoke 6 7 11 s3))))"
    using B [of _ 6 "snd (apikey_Revoke 6 7 11 s3)" "snd (apikey_Revoke 6 7 11 s3)" 6] rv by blast
  moreover have "isl (fst (share_Resolve plain_text 6 (mi_Token l) (share_Revoke 6 13 s3)))"
    using B [of _ 6 _ "share_Revoke 6 13 s3" 6] by blast
  ultimately show ?thesis using m(2) by blast
qed

end
