(* ===== verification/Api_V1.thy ===== *)
theory Api_V1
  imports Drill_Web Bearer_Tokens Heartbeat_Monitors
begin

section \<open>The REST API\<close>

text \<open>
  \<open>internal/web/handlers/v1.go\<close>, \<open>v1_databases.go\<close>, \<open>v1_drills.go\<close> and \<open>v1_heartbeats.go\<close>: authentication by API key, scopes, the
  idempotency layer and the endpoints. A reply is a status with a body; a body is the value
  that the envelope carries, an error its code. Request bodies come decoded: \<open>None\<close> is a body that the
  strict decoder refuses. Endpoints that write are procedures over the world of \<open>Drill_Steps\<close>; the idempotency layer
  is generic in the state of the handler it wraps. The encoding of page cursors (JSON in
  base 64) is the parameter \<open>cursor_codec\<close>, of which the code relies on reading back what it wrote.
\<close>

subsection \<open>Representations\<close>

record apiAssertion =
  as_ID :: string
  as_Kind :: string
  as_Config :: config

record apiDatabase =
  ab_ID :: string
  ab_Name :: string
  ab_SourceKind :: string
  ab_SourceURI :: string
  ab_Assertions :: "apiAssertion list"
  ab_CreatedAt :: gotime

record apiDrill =
  av_ID :: string
  av_DatabaseID :: string
  av_Status :: Status
  av_StartedAt :: "gotime option"
  av_CompletedAt :: "gotime option"
  av_Error :: "string option"
  av_HasEvidence :: bool
  av_SourceHash :: "string option"
  av_CreatedAt :: gotime

record apiStep =
  at_Name :: string
  at_Status :: Status
  at_StartedAt :: "gotime option"
  at_CompletedAt :: "gotime option"
  at_Error :: "string option"

record apiStepLog =
  sl_Step :: string
  sl_Snippet :: "string option"
  sl_SHA256 :: "string option"
  sl_Truncated :: "bool option"
  sl_SnippetBytes :: nat

record apiAssertionResult =
  af_Kind :: string
  af_Expected :: json
  af_Actual :: json
  af_Passed :: bool

record apiHeartbeat =
  ah_ID :: string
  ah_Name :: string
  ah_Slug :: string
  ah_Status :: hb_status
  ah_Overdue :: bool
  ah_PeriodSeconds :: int
  ah_GraceSeconds :: int
  ah_LastPingAt :: "gotime option"
  ah_ExpectedBy :: "gotime option"
  ah_CreatedAt :: gotime

datatype api_body =
    ApiError string
  | ApiDatabases "apiDatabase list" nat string
  | ApiDatabase apiDatabase
  | ApiDrills "apiDrill list" nat string
  | ApiDrill apiDrill
  | ApiDrillDetail apiDrill "apiStep list" "apiAssertionResult list"
  | ApiPDF bytes
  | ApiLogs "apiStepLog list"
  | ApiSignature SigRow
  | ApiHeartbeats "apiHeartbeat list"
  | ApiHeartbeat apiHeartbeat
  | ApiDeleted string

record api_reply =
  rp_status :: nat
  rp_body :: api_body
  rp_replayed :: bool

definition writeData :: "nat \<Rightarrow> api_body \<Rightarrow> api_reply" where
  "writeData status body = \<lparr>rp_status = status, rp_body = body, rp_replayed = False\<rparr>"

definition writeAPIError :: "nat \<Rightarrow> string \<Rightarrow> api_reply" where
  "writeAPIError status code = \<lparr>rp_status = status, rp_body = ApiError code, rp_replayed = False\<rparr>"

subsection \<open>Authentication and scopes\<close>

definition bearerToken :: "string \<Rightarrow> string option" where
  "bearerToken h = (if length h \<le> 7 \<or> take 7 h \<noteq> ''Bearer '' then None else Some (drop 7 h))"

text \<open>What the middleware puts into the request's context: the account and the key.\<close>

definition v1Authenticate :: "text_lib \<Rightarrow> gotime \<Rightarrow> string \<Rightarrow> bearer_db \<Rightarrow> (api_reply + Account \<times> Key) \<times> bearer_db" where
  "v1Authenticate T now authorization s =
     (case bearerToken authorization of
        None \<Rightarrow> (Inl (writeAPIError 401 ''unauthorized''), s)
      | Some raw \<Rightarrow>
          (case apikey_Authenticate T now raw s of
             (Inl _, s') \<Rightarrow> (Inl (writeAPIError 401 ''unauthorized''), s')
           | (Inr k, s') \<Rightarrow>
               (case GetAccount (ak_AccountID k) (au_acct (bd_auth s')) of
                  Inl _ \<Rightarrow> (Inl (writeAPIError 401 ''unauthorized''), s')
                | Inr acct \<Rightarrow> (Inr (acct, k), s'))))"

definition v1RequireScope :: "string \<Rightarrow> Key \<Rightarrow> api_reply option" where
  "v1RequireScope scope k = (if \<not> HasScope k scope then Some (writeAPIError 403 ''insufficient_scope'') else None)"

definition v1RequireUnlapsedTrial :: "gotime \<Rightarrow> Account \<Rightarrow> api_reply option" where
  "v1RequireUnlapsedTrial now acct = (if TrialLapsed now acct then Some (writeAPIError 402 ''trial_expired'') else None)"

definition v1BlockFreeReal :: "gotime \<Rightarrow> Account \<Rightarrow> api_reply option" where
  "v1BlockFreeReal now acct = (if canDrillReal now (Some acct) then None else Some (writeAPIError 402 ''plan_required''))"

subsection \<open>Idempotency\<close>

record api_idem =
  ix_AccountID :: uuid
  ix_Key :: string
  ix_Fingerprint :: string
  ix_Status :: nat
  ix_Body :: api_body
  ix_CreatedAt :: gotime

record 'w api_site =
  as_world :: 'w
  as_idem :: "api_idem list"

definition on_world :: "('w, 'a) proc \<Rightarrow> ('w api_site, 'a) proc" where
  "on_world p fs s = (case p fs (as_world s) of (r, fs', w) \<Rightarrow> (r, fs', s\<lparr>as_world := w\<rparr>))"

definition fingerprintRequest :: "text_lib \<Rightarrow> string \<Rightarrow> string \<Rightarrow> bytes \<Rightarrow> string" where
  "fingerprintRequest T m path body = b64_raw (tx_sha256 T (m @ [CHR 0x00] @ path @ [CHR 0x00] @ body))"

definition idem_of :: "uuid \<Rightarrow> string \<Rightarrow> api_idem \<Rightarrow> bool" where
  "idem_of acc key r = (ix_AccountID r = acc \<and> ix_Key r = key)"

definition store_reply :: "gotime \<Rightarrow> uuid \<Rightarrow> string \<Rightarrow> string \<Rightarrow> api_reply \<Rightarrow> 'w api_site \<Rightarrow> (string + unit) \<times> 'w api_site" where
  "store_reply now acc key fp rep s =
     (if \<not> pg_text_ok key then (Inl ''invalid byte sequence'', s)
      else if \<exists>r \<in> set (as_idem s). idem_of acc key r then (Inr (), s)
      else (Inr (), s\<lparr>as_idem := as_idem s @ [\<lparr>ix_AccountID = acc, ix_Key = key, ix_Fingerprint = fp, ix_Status = rp_status rep,
        ix_Body = rp_body rep, ix_CreatedAt = now\<rparr>]\<rparr>))"

text \<open>
  The body was read up to a mebibyte before; \<open>handler\<close> gets it again. A text the server cannot store
  makes the lookup fail, which counts as not found.
\<close>

definition v1Idempotency ::
    "text_lib \<Rightarrow> gotime \<Rightarrow> uuid \<Rightarrow> string \<Rightarrow> string \<Rightarrow> string \<Rightarrow> bytes \<Rightarrow> ('w, api_reply) proc \<Rightarrow> ('w api_site, api_reply) proc" where
  "v1Idempotency T now acc key m path body handler =
     (if key = [] then ret (writeAPIError 400 ''idempotency_key_required'')
      else
        (let fp = fingerprintRequest T m path body in
         bindM (tryM (call (\<lambda>s. (if pg_text_ok key then Inr (sql_first (idem_of acc key) (as_idem s)) else Inl ''invalid byte sequence'', s)))) (\<lambda>found.
           case found of
             Inr (Some r) \<Rightarrow>
               if ix_Fingerprint r \<noteq> fp then ret (writeAPIError 409 ''idempotency_key_reused'')
               else ret \<lparr>rp_status = ix_Status r, rp_body = ix_Body r, rp_replayed = True\<rparr>
           | _ \<Rightarrow>
               bindM (on_world handler) (\<lambda>rep.
                 thenM (if rp_status rep < 500 then ignoreM (call (store_reply now acc key fp rep)) else ret ()) (ret rep)))))"

subsection \<open>Pages\<close>

record cursor_codec =
  cc_encode :: "gotime \<times> uuid \<Rightarrow> string"
  cc_decode :: "string \<Rightarrow> (gotime \<times> uuid) option"

definition v1DefaultLimit :: int where "v1DefaultLimit = 25"

definition v1MaxLimit :: int where "v1MaxLimit = 100"

definition parsePageParams :: "cursor_codec \<Rightarrow> string \<Rightarrow> string \<Rightarrow> (int \<times> (gotime \<times> uuid) option) option" where
  "parsePageParams C limitParam cursor =
     (case (if limitParam \<noteq> [] then
              (case ParseInt limitParam of (n, ok) \<Rightarrow>
                 if \<not> ok \<or> n < 1 then None else Some (if n > v1MaxLimit then v1MaxLimit else n))
            else Some v1DefaultLimit) of
        None \<Rightarrow> None
      | Some limit \<Rightarrow>
          if cursor \<noteq> [] then (case cc_decode C cursor of None \<Rightarrow> None | Some c \<Rightarrow> Some (limit, Some c))
          else Some (limit, None))"

definition next_page :: "('r \<Rightarrow> string) \<Rightarrow> int \<Rightarrow> 'r list \<Rightarrow> 'r list \<times> string" where
  "next_page enc limit rows =
     (if length rows > nat limit then (take (nat limit) rows, enc (rows ! (nat limit - 1))) else (rows, []))"

subsection \<open>Databases\<close>

definition toAPIAssertion :: "text_lib \<Rightarrow> Assertion \<Rightarrow> apiAssertion" where
  "toAPIAssertion T a = \<lparr>as_ID = tx_uuid T (a_ID a), as_Kind = a_Kind a, as_Config = (case a_Config a of JObj c \<Rightarrow> c | _ \<Rightarrow> [])\<rparr>"

definition toAPIDatabase :: "text_lib \<Rightarrow> Target \<Rightarrow> Assertion list \<Rightarrow> apiDatabase" where
  "toAPIDatabase T t asserts =
     \<lparr>ab_ID = tx_uuid T (t_ID t), ab_Name = t_Name t, ab_SourceKind = t_SourceKind t, ab_SourceURI = t_SourceURI t,
      ab_Assertions = map (toAPIAssertion T) asserts, ab_CreatedAt = t_CreatedAt t\<rparr>"

definition v1ListDatabases :: "text_lib \<Rightarrow> cursor_codec \<Rightarrow> Account \<Rightarrow> string \<Rightarrow> string \<Rightarrow> drill_db \<Rightarrow> api_reply" where
  "v1ListDatabases T C acct limitParam cursor db =
     (case parsePageParams C limitParam cursor of
        None \<Rightarrow> writeAPIError 400 ''bad_request''
      | Some (limit, c) \<Rightarrow>
          (case ListTargetsPage (acct_ID acct) ScopeAll (map_option fst c) (map_option snd c) (limit + 1) db of
             Inl _ \<Rightarrow> writeAPIError 500 ''internal''
           | Inr targets \<Rightarrow>
               (case next_page (\<lambda>t. cc_encode C (t_CreatedAt t, t_ID t)) limit targets of (ts, nxt) \<Rightarrow>
                  (let byTarget = ListAssertionsForTargets (map t_ID ts) db in
                   writeData 200 (ApiDatabases (map (\<lambda>t. toAPIDatabase T t (coalesce (byTarget (t_ID t)) [])) ts) (length ts) nxt)))))"

definition v1GetDatabase :: "text_lib \<Rightarrow> Account \<Rightarrow> string \<Rightarrow> drill_db \<Rightarrow> api_reply" where
  "v1GetDatabase T acct i db =
     (case tx_parse_uuid T i of
        None \<Rightarrow> writeAPIError 404 ''not_found''
      | Some tid \<Rightarrow>
          (case GetTarget (acct_ID acct) tid ScopeAll db of
             Inl _ \<Rightarrow> writeAPIError 404 ''not_found''
           | Inr t \<Rightarrow> writeData 200 (ApiDatabase (toAPIDatabase T t (ListTargetAssertions (t_ID t) db)))))"

record createDatabaseReq =
  cq_Name :: string
  cq_SourceURI :: string
  cq_Assertions :: "(string \<times> config) list"

fun attach_assertions :: "('r, 'e) Deps \<Rightarrow> uuid \<Rightarrow> (string \<times> config) list \<Rightarrow> (('r, 'e) world, Assertion list) proc" where
  "attach_assertions D tid [] = ret []"
| "attach_assertions D tid ((kind, cfg) # rest) =
     bindM (db_write D (\<lambda>now newid. CreateAssertion newid now tid kind (JObj cfg))) (\<lambda>a.
     bindM (attach_assertions D tid rest) (\<lambda>as. ret (a # as)))"

definition v1CreateDatabase ::
    "('r, 'e) Deps \<Rightarrow> text_lib \<Rightarrow> source_env \<Rightarrow> Account \<Rightarrow> Key \<Rightarrow> createDatabaseReq option \<Rightarrow> (('r, 'e) world, api_reply) proc" where
  "v1CreateDatabase D T E acct k req =
     bindM (getM w_now) (\<lambda>now.
       case v1BlockFreeReal now acct of
         Some rep \<Rightarrow> ret rep
       | None \<Rightarrow>
           (case req of
              None \<Rightarrow> ret (writeAPIError 400 ''bad_request'')
            | Some q \<Rightarrow>
                (let name = TrimSpace (cq_Name q); uri = TrimSpace (cq_SourceURI q) in
                 if name = [] \<or> uri = [] then ret (writeAPIError 400 ''validation'')
                 else if \<exists>a \<in> set (cq_Assertions q). ValidateConfig (fst a) (snd a) \<noteq> None then ret (writeAPIError 400 ''validation'')
                 else
                   (case resolveSourcePath E uri of
                      None \<Rightarrow> ret (writeAPIError 400 ''validation'')
                    | Some cleanPath \<Rightarrow>
                        bindM (tryM (db_read D (\<lambda>db. Inr (ListTargets (acct_ID acct) ScopeAll db)))) (\<lambda>ex.
                          if AtLimit (case ex of Inl _ \<Rightarrow> 0 | Inr ts \<Rightarrow> int (length ts)) (Databases (EffectiveLimits acct))
                          then ret (writeAPIError 403 ''plan_limit'')
                          else
                            bindM (tryM (db_write D (\<lambda>now newid. CreateTarget newid now
                                \<lparr>t_ID = 0, t_AccountID = acct_ID acct, t_CreatedByUserID = ak_CreatedByUserID k, t_Name = name,
                                 t_SourceKind = ''postgres_dump_local'', t_SourceURI = cleanPath, t_TeamID = None, t_CreatedAt = 0,
                                 t_DrillCadence = [], t_NextDrillAt = None, t_IsSample = False\<rparr>))) (\<lambda>cr.
                              case cr of
                                Inl _ \<Rightarrow> ret (writeAPIError 500 ''internal'')
                              | Inr t \<Rightarrow>
                                  bindM (tryM (attach_assertions D (t_ID t) (cq_Assertions q))) (\<lambda>ar.
                                    case ar of
                                      Inl _ \<Rightarrow> ret (writeAPIError 500 ''internal'')
                                    | Inr stored \<Rightarrow> ret (writeData 201 (ApiDatabase (toAPIDatabase T t stored))))))))))"

subsection \<open>Drills\<close>

definition toAPIDrill :: "text_lib \<Rightarrow> Drill \<Rightarrow> apiDrill" where
  "toAPIDrill T d =
     \<lparr>av_ID = tx_uuid T (d_ID d), av_DatabaseID = tx_uuid T (d_TargetID d), av_Status = d_Status d, av_StartedAt = d_StartedAt d,
      av_CompletedAt = d_CompletedAt d, av_Error = d_Error d,
      av_HasEvidence = (case d_EvidencePath d of None \<Rightarrow> False | Some p \<Rightarrow> p \<noteq> []), av_SourceHash = d_SourceHash d, av_CreatedAt = d_CreatedAt d\<rparr>"

definition v1ListDrills :: "text_lib \<Rightarrow> cursor_codec \<Rightarrow> Account \<Rightarrow> string \<Rightarrow> string \<Rightarrow> drill_db \<Rightarrow> api_reply" where
  "v1ListDrills T C acct limitParam cursor db =
     (case parsePageParams C limitParam cursor of
        None \<Rightarrow> writeAPIError 400 ''bad_request''
      | Some (limit, c) \<Rightarrow>
          (case ListDrillsPage (acct_ID acct) ScopeAll (map_option fst c) (map_option snd c) (limit + 1) db of
             Inl _ \<Rightarrow> writeAPIError 500 ''internal''
           | Inr drills \<Rightarrow>
               (case next_page (\<lambda>d. cc_encode C (d_CreatedAt d, d_ID d)) limit drills of (ds, nxt) \<Rightarrow>
                  writeData 200 (ApiDrills (map (toAPIDrill T) ds) (length ds) nxt))))"

definition v1GetDrill :: "text_lib \<Rightarrow> Account \<Rightarrow> string \<Rightarrow> drill_db \<Rightarrow> api_reply" where
  "v1GetDrill T acct i db =
     (case tx_parse_uuid T i of
        None \<Rightarrow> writeAPIError 404 ''not_found''
      | Some did \<Rightarrow>
          (case GetDrill (acct_ID acct) did ScopeAll db of
             Inl _ \<Rightarrow> writeAPIError 404 ''not_found''
           | Inr d \<Rightarrow>
               writeData 200 (ApiDrillDetail (toAPIDrill T d)
                 (map (\<lambda>s. \<lparr>at_Name = step_string (s_Name s), at_Status = s_Status s, at_StartedAt = s_StartedAt s,
                    at_CompletedAt = s_CompletedAt s, at_Error = s_Error s\<rparr>) (ListSteps (d_ID d) db))
                 (map (\<lambda>a. \<lparr>af_Kind = ar_Kind a, af_Expected = ar_Expected a, af_Actual = ar_Actual a, af_Passed = ar_Passed a\<rparr>)
                   (ListAssertions (d_ID d) db)))))"

definition v1CreateDrill ::
    "('r, 'e) Deps \<Rightarrow> uuid_lib \<Rightarrow> text_lib \<Rightarrow> bool \<Rightarrow> source_env \<Rightarrow> Account \<Rightarrow> Key \<Rightarrow> string \<Rightarrow> string option \<Rightarrow> (('r, 'e) world, api_reply) proc" where
  "v1CreateDrill D U T audited E acct k idemKey req =
     (case req of
        None \<Rightarrow> ret (writeAPIError 400 ''bad_request'')
      | Some databaseID \<Rightarrow>
          (case tx_parse_uuid T databaseID of
             None \<Rightarrow> ret (writeAPIError 400 ''validation'')
           | Some targetID \<Rightarrow>
               bindM (tryM (db_read D (GetTarget (acct_ID acct) targetID ScopeAll))) (\<lambda>tr.
                 case tr of
                   Inl _ \<Rightarrow> ret (writeAPIError 404 ''not_found'')
                 | Inr target \<Rightarrow>
                     bindM (getM w_now) (\<lambda>now.
                       if \<not> t_IsSample target \<and> v1BlockFreeReal now acct \<noteq> None then ret (writeAPIError 402 ''plan_required'')
                       else
                         bindM (tryM (enforceDrillQuota D (Some acct))) (\<lambda>q.
                           if q = Inr False then ret (writeAPIError 429 ''drill_quota_exceeded'')
                           else if \<not> t_IsSample target \<and> \<not> enforceDumpSize E (t_SourceKind target) (t_SourceURI target) (Some acct)
                           then ret (writeAPIError 413 ''dump_too_large'')
                           else
                             bindM (tryM (db_write D (\<lambda>now newid.
                                 CreateDrillIdempotent U newid now (acct_ID acct) (ak_CreatedByUserID k) (t_ID target) idemKey))) (\<lambda>cr.
                               case cr of
                                 Inl _ \<Rightarrow> ret (writeAPIError 500 ''internal'')
                               | Inr (drillID, _) \<Rightarrow>
                                   bindM (tryM (EnqueueDrill D audited drillID (drillInsertOpts (Some acct)))) (\<lambda>er.
                                     case er of
                                       Inl _ \<Rightarrow> ret (writeAPIError 500 ''internal'')
                                     | Inr _ \<Rightarrow>
                                         bindM (tryM (db_read D (GetDrill (acct_ID acct) drillID ScopeAll))) (\<lambda>dr.
                                           case dr of
                                             Inl _ \<Rightarrow> ret (writeAPIError 500 ''internal'')
                                           | Inr d \<Rightarrow> ret (writeData 201 (ApiDrill (toAPIDrill T d)))))))))))"

definition v1GetEvidence :: "text_lib \<Rightarrow> 's Service \<Rightarrow> Account \<Rightarrow> string \<Rightarrow> drill_db \<Rightarrow> ('s estate, api_reply) proc" where
  "v1GetEvidence T S acct i db =
     (case tx_parse_uuid T i of
        None \<Rightarrow> ret (writeAPIError 404 ''not_found'')
      | Some did \<Rightarrow>
          (case GetDrill (acct_ID acct) did ScopeAll db of
             Inl _ \<Rightarrow> ret (writeAPIError 404 ''not_found'')
           | Inr d \<Rightarrow>
               (case d_EvidencePath d of
                  None \<Rightarrow> ret (writeAPIError 404 ''no_evidence'')
                | Some p \<Rightarrow>
                    if p = [] then ret (writeAPIError 404 ''no_evidence'')
                    else
                      bindM (tryM (Read S (acct_ID acct) p)) (\<lambda>b.
                        case b of
                          Inl e \<Rightarrow> if e = ErrShredded then ret (writeAPIError 410 ''evidence_unavailable'') else ret (writeAPIError 500 ''internal'')
                        | Inr body \<Rightarrow> ret (writeData 200 (ApiPDF body))))))"

definition v1GetLogs :: "text_lib \<Rightarrow> Account \<Rightarrow> string \<Rightarrow> drill_db \<Rightarrow> api_reply" where
  "v1GetLogs T acct i db =
     (case tx_parse_uuid T i of
        None \<Rightarrow> writeAPIError 404 ''not_found''
      | Some did \<Rightarrow>
          (case GetDrill (acct_ID acct) did ScopeAll db of
             Inl _ \<Rightarrow> writeAPIError 404 ''not_found''
           | Inr _ \<Rightarrow>
               writeData 200 (ApiLogs (map (\<lambda>s. \<lparr>sl_Step = step_string (s_Name s), sl_Snippet = s_OutputSnippet s, sl_SHA256 = s_OutputSHA256 s,
                    sl_Truncated = s_OutputTruncated s, sl_SnippetBytes = (case s_OutputSnippet s of None \<Rightarrow> 0 | Some x \<Rightarrow> length x)\<rparr>)
                 (filter (\<lambda>s. \<not> (s_OutputSnippet s = None \<and> s_OutputSHA256 s = None)) (ListSteps did db))))))"

definition v1GetSignature :: "text_lib \<Rightarrow> Account \<Rightarrow> string \<Rightarrow> drill_db \<Rightarrow> ('s estate, api_reply) proc" where
  "v1GetSignature T acct i db =
     (case tx_parse_uuid T i of
        None \<Rightarrow> ret (writeAPIError 404 ''not_found'')
      | Some did \<Rightarrow>
          (case GetDrill (acct_ID acct) did ScopeAll db of
             Inl _ \<Rightarrow> ret (writeAPIError 404 ''not_found'')
           | Inr _ \<Rightarrow>
               bindM (tryM (GetSignature did)) (\<lambda>r.
                 case r of
                   Inl _ \<Rightarrow> ret (writeAPIError 500 ''internal'')
                 | Inr None \<Rightarrow> ret (writeAPIError 404 ''no_signature'')
                 | Inr (Some rec) \<Rightarrow> ret (writeData 200 (ApiSignature rec)))))"

subsection \<open>Heartbeats\<close>

definition toAPIHeartbeat :: "text_lib \<Rightarrow> Heartbeat \<Rightarrow> gotime \<Rightarrow> apiHeartbeat" where
  "toAPIHeartbeat T h now =
     \<lparr>ah_ID = tx_uuid T (hb_ID h), ah_Name = hb_Name h, ah_Slug = hb_Slug h, ah_Status = hb_Status h, ah_Overdue = Overdue now h,
      ah_PeriodSeconds = hb_PeriodSeconds h, ah_GraceSeconds = hb_GraceSeconds h, ah_LastPingAt = hb_LastPingAt h,
      ah_ExpectedBy = hb_ExpectedBy h, ah_CreatedAt = hb_CreatedAt h\<rparr>"

definition v1ListHeartbeats :: "text_lib \<Rightarrow> gotime \<Rightarrow> Account \<Rightarrow> hb_db \<Rightarrow> api_reply" where
  "v1ListHeartbeats T now acct db = writeData 200 (ApiHeartbeats (map (\<lambda>h. toAPIHeartbeat T h now) (hb_List (acct_ID acct) db)))"

definition v1GetHeartbeat :: "text_lib \<Rightarrow> gotime \<Rightarrow> Account \<Rightarrow> string \<Rightarrow> hb_db \<Rightarrow> api_reply" where
  "v1GetHeartbeat T now acct i db =
     (case tx_parse_uuid T i of
        None \<Rightarrow> writeAPIError 404 ''not_found''
      | Some hid \<Rightarrow>
          (case hb_Get (acct_ID acct) hid db of
             Inl _ \<Rightarrow> writeAPIError 404 ''not_found''
           | Inr h \<Rightarrow> writeData 200 (ApiHeartbeat (toAPIHeartbeat T h now))))"

end
