(* ===== verification/Drill_Requests.thy ===== *)
theory Drill_Requests
  imports Api_V1
begin

section \<open>Starting drills by request\<close>

text \<open>
  What the three ways to start a drill by request have in common: the web form, the sample and the
  API. The daily quota over runs of requests, what becomes of a drill whose first job could not be enqueued,
  the idempotency layer, and a gap between the check and the deletion of assertions.
\<close>

subsection \<open>Calls without faults\<close>

lemma try_read: "tryM (db_read D f) [] w = (Ret (dbErr D (f (w_db w))), [], w)"
  by (auto simp: tryM_def db_read_def call_ok split: sum.split)

lemma try_write:
  "tryM (db_write D f) [] w =
     (Ret (dbErr D (fst (f (w_now w) (w_fresh w) (w_db w)))), [], w\<lparr>w_db := snd (f (w_now w) (w_fresh w) (w_db w)), w_fresh := w_fresh w + 1\<rparr>)"
  by (auto simp: tryM_def db_write_def call_ok split: sum.split prod.split)

definition within_quota :: "Account \<Rightarrow> ('r, 'e) world \<Rightarrow> bool" where
  "within_quota a w \<longleftrightarrow> acct_Unlimited a \<or> DrillsPerDay (LimitsFor (acct_Plan a)) = Unlimited \<or>
     int (CountDrillsSince (acct_ID a) (w_now w - 24 * nsHour) (w_db w)) < DrillsPerDay (LimitsFor (acct_Plan a))"

lemma try_quota: "tryM (enforceDrillQuota D (Some a)) [] w = (Ret (Inr (within_quota a w)), [], w)"
  by (auto simp: enforceDrillQuota_def within_quota_def tryM_def ret_def bindM_def getM_def db_read_def call_ok dbErr_def)

lemma keeps_enqueue: "keeps (\<lambda>w. db_drills (w_db w) = X \<and> db_idem (w_db w) = Y \<and> w_now w = t) (EnqueueDrill D audited d p)"
  unfolding EnqueueDrill_def Record_def insert_job_def
  by (intro hoare keeps_db_write; (rule keeps_call)?) (auto simp: CreateStepIfMissing_def Let_def split: option.splits sum.splits)

text \<open>Without faults a procedure comes to its end and uses no fault.\<close>

definition calm :: "('w, 'a) proc \<Rightarrow> bool" where
  "calm p \<longleftrightarrow> (\<forall>w. \<exists>r w'. p [] w = (r, [], w') \<and> r \<noteq> Crashed)"

lemma calm_simps: "calm (ret a)" "calm (errM e)" "calm (getM f)" "calm (modM g)" "calm (call h)"
  by (auto simp: calm_def ret_def errM_def getM_def modM_def call_ok split: sum.split prod.split)

lemma calm_bindM:
  assumes "calm p" and "\<And>a. calm (q a)"
  shows "calm (bindM p q)"
  unfolding calm_def
proof
  fix w
  from assms(1) obtain r w' where r: "p [] w = (r, [], w')" "r \<noteq> Crashed" unfolding calm_def by blast
  then show "\<exists>r w'. bindM p q [] w = (r, [], w') \<and> r \<noteq> Crashed"
    using assms(2) by (cases r) (auto simp: bindM_def calm_def)
qed

lemma calm_tryM: "calm p \<Longrightarrow> calm (tryM p)"
  unfolding calm_def
proof
  fix w assume "\<forall>w. \<exists>r w'. p [] w = (r, [], w') \<and> r \<noteq> Crashed"
  then obtain r w' where "p [] w = (r, [], w')" "r \<noteq> Crashed" by blast
  then show "\<exists>r w'. tryM p [] w = (r, [], w') \<and> r \<noteq> Crashed" by (cases r) (auto simp: tryM_def)
qed

lemma calm_others: "calm p \<Longrightarrow> calm q \<Longrightarrow> calm (thenM p q)" "calm p \<Longrightarrow> calm (ignoreM p)"
  "(\<And>x. calm (f x)) \<Longrightarrow> calm (forM xs f)"
  "calm (db_write D g)" "calm (db_read D h)"
proof -
  show t: "calm p \<Longrightarrow> calm q \<Longrightarrow> calm (thenM p q)" for p :: "('x, 'y) proc" and q :: "('x, 'z) proc"
    by (simp add: thenM_def calm_bindM)
  show "calm p \<Longrightarrow> calm (ignoreM p)" by (simp add: ignoreM_def calm_bindM calm_tryM calm_simps)
  show "(\<And>x. calm (f x)) \<Longrightarrow> calm (forM xs f)" by (induction xs) (simp_all add: calm_simps t)
  show "calm (db_write D g)" "calm (db_read D h)" by (simp_all add: db_write_def db_read_def calm_simps)
qed

lemmas calm_rules = calm_bindM calm_tryM calm_others calm_simps

lemma calm_enqueue: "calm (EnqueueDrill D audited d p)"
  unfolding EnqueueDrill_def Record_def insert_job_def
  by (intro calm_rules) (auto intro!: calm_rules split: sum.split)

lemma enqueue_no_faults:
  obtains r w' where "tryM (EnqueueDrill D audited d p) [] w = (Ret r, [], w')" "db_drills (w_db w') = db_drills (w_db w)"
    "db_idem (w_db w') = db_idem (w_db w)" "w_now w' = w_now w"
proof -
  from calm_enqueue [of D audited d p] obtain r w' where r: "EnqueueDrill D audited d p [] w = (r, [], w')" "r \<noteq> Crashed"
    unfolding calm_def by blast
  have "db_drills (w_db w') = db_drills (w_db w) \<and> db_idem (w_db w') = db_idem (w_db w) \<and> w_now w' = w_now w"
    using keepsD [OF keeps_enqueue [of _ _ _ D audited d p], where w = w and fs = "[]"] r(1) by (simp add: final_def)
  moreover obtain x where "tryM (EnqueueDrill D audited d p) [] w = (Ret x, [], w')" using r by (cases r) (auto simp: tryM_def)
  ultimately show ?thesis using that by blast
qed

subsection \<open>The halves of a request\<close>

text \<open>
  Each handler first looks at the account, with the count of its drills as the last look, and then creates the drill and
  enqueues its first job. No lock is held in between, so that other requests of the account may run there. The two halves
  of each handler are named here, and each handler is proved to be its two halves in a row, under every
  sequence of faults.
\<close>

definition web_count ::
    "('r, 'e) Deps \<Rightarrow> text_lib \<Rightarrow> page_ctx \<Rightarrow> account_db \<Rightarrow> form \<Rightarrow> (('r, 'e) world, response + string \<times> Target) proc" where
  "web_count D T cx adb frm =
     (case frm of
        None \<Rightarrow> ret (Inl (HttpStatus 400))
      | Some f \<Rightarrow>
          if TrimSpace (f ''idempotency_key'') = [] then ret (Inl (HttpStatus 400))
          else
            (case tx_parse_uuid T (TrimSpace (f ''target_id'')) of
               None \<Rightarrow> ret (Inl (HttpStatus 400))
             | Some targetID \<Rightarrow>
                 bindM (tryM (db_read D (GetTarget (acct_ID (cx_account cx)) targetID (scope_of cx adb)))) (\<lambda>tr.
                   case tr of
                     Inl _ \<Rightarrow> ret (Inl (HttpStatus 404))
                   | Inr target \<Rightarrow>
                       bindM (getM w_now) (\<lambda>now.
                         if \<not> t_IsSample target \<and> blockFreeRealWeb now (Some (cx_account cx)) \<noteq> None then ret (Inl (HttpStatus 402))
                         else
                           bindM (tryM (enforceDrillQuota D (Some (cx_account cx)))) (\<lambda>q.
                             if q = Inr False then ret (Inl (HttpStatus 429)) else ret (Inr (TrimSpace (f ''idempotency_key''), target)))))))"

definition web_start ::
    "('r, 'e) Deps \<Rightarrow> uuid_lib \<Rightarrow> text_lib \<Rightarrow> bool \<Rightarrow> source_env \<Rightarrow> page_ctx \<Rightarrow> string \<Rightarrow> Target \<Rightarrow> (('r, 'e) world, response) proc" where
  "web_start D U T audited E cx idem target =
     (if \<not> t_IsSample target \<and> \<not> enforceDumpSize E (t_SourceKind target) (t_SourceURI target) (Some (cx_account cx)) then ret (HttpStatus 413)
      else
        bindM (tryM (db_write D (\<lambda>now newid. CreateDrillIdempotent U newid now (acct_ID (cx_account cx)) (cx_user cx) (t_ID target) idem))) (\<lambda>cr.
          case cr of
            Inl _ \<Rightarrow> ret (HttpStatus 500)
          | Inr (drillID, reused) \<Rightarrow>
              if reused then ret (SeeOther (''/drills/'' @ tx_uuid T drillID))
              else
                bindM (tryM (EnqueueDrill D audited drillID (drillInsertOpts (Some (cx_account cx))))) (\<lambda>er.
                  case er of Inl _ \<Rightarrow> ret (HttpStatus 500) | Inr _ \<Rightarrow> ret (SeeOther (''/drills/'' @ tx_uuid T drillID)))))"

definition sample_start ::
    "('r, 'e) Deps \<Rightarrow> uuid_lib \<Rightarrow> text_lib \<Rightarrow> bool \<Rightarrow> source_env \<Rightarrow> bool \<Rightarrow> string \<Rightarrow> page_ctx \<Rightarrow> (('r, 'e) world, response \<times> audit_event option) proc" where
  "sample_start D U T audited E written newkey cx =
     bindM (tryM (ensureSampleTarget D E written (acct_ID (cx_account cx)) (cx_user cx))) (\<lambda>tr.
       case tr of
         Inl _ \<Rightarrow> ret (HttpStatus 500, None)
       | Inr t \<Rightarrow>
           bindM (tryM (db_write D (\<lambda>now newid. CreateDrillIdempotent U newid now (acct_ID (cx_account cx)) (cx_user cx) (t_ID t) newkey))) (\<lambda>cr.
             case cr of
               Inl _ \<Rightarrow> ret (HttpStatus 500, None)
             | Inr (drillID, reused) \<Rightarrow>
                 bindM (if reused then ret (Inr ()) else tryM (EnqueueDrill D audited drillID (drillInsertOpts (Some (cx_account cx))))) (\<lambda>er.
                   case er of
                     Inl _ \<Rightarrow> ret (HttpStatus 500, None)
                   | Inr _ \<Rightarrow>
                       ret (SeeOther (''/drills/'' @ tx_uuid T drillID), Some (page_event cx ''drill.sample_run'' ''drill'' (tx_uuid T drillID))))))"

definition api_count ::
    "('r, 'e) Deps \<Rightarrow> text_lib \<Rightarrow> Account \<Rightarrow> string option \<Rightarrow> (('r, 'e) world, api_reply + Target) proc" where
  "api_count D T acct req =
     (case req of
        None \<Rightarrow> ret (Inl (writeAPIError 400 ''bad_request''))
      | Some databaseID \<Rightarrow>
          (case tx_parse_uuid T databaseID of
             None \<Rightarrow> ret (Inl (writeAPIError 400 ''validation''))
           | Some targetID \<Rightarrow>
               bindM (tryM (db_read D (GetTarget (acct_ID acct) targetID ScopeAll))) (\<lambda>tr.
                 case tr of
                   Inl _ \<Rightarrow> ret (Inl (writeAPIError 404 ''not_found''))
                 | Inr target \<Rightarrow>
                     bindM (getM w_now) (\<lambda>now.
                       if \<not> t_IsSample target \<and> v1BlockFreeReal now acct \<noteq> None then ret (Inl (writeAPIError 402 ''plan_required''))
                       else
                         bindM (tryM (enforceDrillQuota D (Some acct))) (\<lambda>q.
                           if q = Inr False then ret (Inl (writeAPIError 429 ''drill_quota_exceeded'')) else ret (Inr target))))))"

definition api_start ::
    "('r, 'e) Deps \<Rightarrow> uuid_lib \<Rightarrow> text_lib \<Rightarrow> bool \<Rightarrow> source_env \<Rightarrow> Account \<Rightarrow> Key \<Rightarrow> string \<Rightarrow> Target \<Rightarrow> (('r, 'e) world, api_reply) proc" where
  "api_start D U T audited E acct k idemKey target =
     (if \<not> t_IsSample target \<and> \<not> enforceDumpSize E (t_SourceKind target) (t_SourceURI target) (Some acct) then ret (writeAPIError 413 ''dump_too_large'')
      else
        bindM (tryM (db_write D (\<lambda>now newid. CreateDrillIdempotent U newid now (acct_ID acct) (ak_CreatedByUserID k) (t_ID target) idemKey))) (\<lambda>cr.
          case cr of
            Inl _ \<Rightarrow> ret (writeAPIError 500 ''internal'')
          | Inr (drillID, _) \<Rightarrow>
              bindM (tryM (EnqueueDrill D audited drillID (drillInsertOpts (Some acct)))) (\<lambda>er.
                case er of
                  Inl _ \<Rightarrow> ret (writeAPIError 500 ''internal'')
                | Inr _ \<Rightarrow>
                    bindM (tryM (db_read D (GetDrill (acct_ID acct) drillID ScopeAll))) (\<lambda>dr.
                      case dr of Inl _ \<Rightarrow> ret (writeAPIError 500 ''internal'') | Inr d \<Rightarrow> ret (writeData 201 (ApiDrill (toAPIDrill T d)))))))"

lemma bind_ret: "bindM (ret a) q = q a"
  by (simp add: bindM_def ret_def fun_eq_iff)

lemma bind_bind: "bindM (bindM p q) r = bindM p (\<lambda>a. bindM (q a) r)"
  by (auto simp: bindM_def fun_eq_iff split: prod.split outcome.split)

lemma bind_cases:
  "bindM (case s of Inl e \<Rightarrow> f e | Inr a \<Rightarrow> g a) q = (case s of Inl e \<Rightarrow> bindM (f e) q | Inr a \<Rightarrow> bindM (g a) q)"
  "bindM (case x of None \<Rightarrow> p | Some y \<Rightarrow> h y) q = (case x of None \<Rightarrow> bindM p q | Some y \<Rightarrow> bindM (h y) q)"
  "bindM (if b then p else p') q = (if b then bindM p q else bindM p' q)"
  by (simp_all split: sum.split option.split)

lemmas bind_halves = bind_ret bind_bind bind_cases

theorem drillCreate_halves:
  "drillCreate D U T audited E cx adb frm =
     bindM (web_count D T cx adb frm) (\<lambda>r. case r of Inl x \<Rightarrow> ret x | Inr (idem, target) \<Rightarrow> web_start D U T audited E cx idem target)"
  by (simp add: drillCreate_def web_count_def web_start_def Let_def bind_halves cong: option.case_cong sum.case_cong if_cong)

theorem runSampleDrill_halves:
  "runSampleDrill D U T audited E written newkey cx =
     bindM (tryM (enforceDrillQuota D (Some (cx_account cx))))
       (\<lambda>q. if q = Inr False then ret (HttpStatus 429, None) else sample_start D U T audited E written newkey cx)"
  unfolding runSampleDrill_def sample_start_def Let_def ..

theorem v1CreateDrill_halves:
  "v1CreateDrill D U T audited E acct k idemKey req =
     bindM (api_count D T acct req) (\<lambda>r. case r of Inl x \<Rightarrow> ret x | Inr target \<Rightarrow> api_start D U T audited E acct k idemKey target)"
  by (simp add: v1CreateDrill_def api_count_def api_start_def bind_halves cong: option.case_cong sum.case_cong if_cong)

text \<open>Without faults a first half changes nothing, and lets the request go on only within the quota.\<close>

lemma web_count_run:
  obtains r where "web_count D T cx adb frm [] w = (Ret r, [], w)" and "\<not> isl r \<Longrightarrow> within_quota (cx_account cx) w"
  by (rule that [of "case fst (web_count D T cx adb frm [] w) of Ret r \<Rightarrow> r"])
    (auto simp: web_count_def bindM_def getM_def ret_def try_read try_quota split: option.splits sum.splits if_splits)

lemma api_count_run:
  obtains r where "api_count D T acct req [] w = (Ret r, [], w)" and "\<not> isl r \<Longrightarrow> within_quota acct w"
  by (rule that [of "case fst (api_count D T acct req [] w) of Ret r \<Rightarrow> r"])
    (auto simp: api_count_def bindM_def getM_def ret_def try_read try_quota split: option.splits sum.splits if_splits)

text \<open>A second half adds no drill, or one drill of the account, made now.\<close>

definition stays :: "('r, 'e) world \<Rightarrow> ('r, 'e) world \<Rightarrow> bool" where
  "stays w w' \<longleftrightarrow> db_drills (w_db w') = db_drills (w_db w) \<and> w_now w' = w_now w"

lemma stays_refl: "stays w w" and stays_trans: "stays w w1 \<Longrightarrow> stays w1 w2 \<Longrightarrow> stays w w2"
  by (simp_all add: stays_def)

definition adds_drill :: "Account \<Rightarrow> ('r, 'e) world \<Rightarrow> ('r, 'e) world \<Rightarrow> bool" where
  "adds_drill a w w' \<longleftrightarrow> w_now w' = w_now w \<and>
     (db_drills (w_db w') = db_drills (w_db w) \<or>
      (\<exists>dr. db_drills (w_db w') = db_drills (w_db w) @ [dr] \<and> d_AccountID dr = acct_ID a \<and> d_CreatedAt dr = w_now w))"

lemma create_drills:
  "db_drills (snd (CreateDrillIdempotent U newid now acc u t key db)) = db_drills db \<or>
   (\<exists>dr. db_drills (snd (CreateDrillIdempotent U newid now acc u t key db)) = db_drills db @ [dr] \<and> d_AccountID dr = acc \<and> d_CreatedAt dr = now)"
  by (auto simp: CreateDrillIdempotent_def Let_def split: option.splits)

lemma adds_create:
  assumes "acct_ID a = acc" and "\<And>d reused w1. stays w1 (final (q d reused [] w1))"
  shows "adds_drill a w (final (bindM (tryM (db_write D (\<lambda>now newid. CreateDrillIdempotent U newid now acc u t key)))
    (\<lambda>cr. case cr of Inl _ \<Rightarrow> ret x | Inr (d, reused) \<Rightarrow> q d reused) [] w))"
proof -
  let ?c = "CreateDrillIdempotent U (w_fresh w) (w_now w) acc u t key (w_db w)"
  let ?w1 = "w\<lparr>w_db := snd ?c, w_fresh := w_fresh w + 1\<rparr>"
  have c: "db_drills (snd ?c) = db_drills (w_db w) \<or> (\<exists>dr. db_drills (snd ?c) = db_drills (w_db w) @ [dr] \<and> d_AccountID dr = acc \<and> d_CreatedAt dr = w_now w)"
    by (rule create_drills)
  show ?thesis
  proof (cases "fst ?c")
    case (Inl e)
    with c assms(1) show ?thesis by (auto simp: bindM_def try_write dbErr_def ret_def final_def adds_drill_def)
  next
    case (Inr p)
    with c assms(1) assms(2) [of ?w1 "fst p" "snd p"] show ?thesis
      by (auto simp: stays_def bindM_def try_write dbErr_def adds_drill_def split: prod.split)
  qed
qed

lemma stays_adds: "stays w w' \<Longrightarrow> adds_drill a w w'"
  by (simp add: adds_drill_def stays_def)

lemma adds_later: "stays w w1 \<Longrightarrow> adds_drill a w1 w2 \<Longrightarrow> adds_drill a w w2"
  by (simp add: stays_def adds_drill_def)

lemma enqueue_then:
  assumes "\<And>r w1. stays w1 (final (q r [] w1))"
  shows "stays w (final (bindM (tryM (EnqueueDrill D audited d p)) q [] w))"
proof -
  obtain r w' where "tryM (EnqueueDrill D audited d p) [] w = (Ret r, [], w')" "stays w w'"
    using enqueue_no_faults [of D audited d p w] unfolding stays_def by metis
  with assms [of w' r] show ?thesis by (auto simp: bindM_def intro: stays_trans)
qed

lemma final_ret: "final (ret x [] w) = w"
  by (simp add: ret_def final_def)

lemma final_read: "final (bindM (tryM (db_read D f)) q [] w) = final (q (dbErr D (f (w_db w))) [] w)"
  by (simp add: bindM_def try_read)

lemmas final_calls = final_ret final_read

lemma adds_web_start: "adds_drill (cx_account cx) w (final (web_start D U T audited E cx idem target [] w))"
  by (auto simp: web_start_def final_ret stays_refl split: sum.split intro!: adds_create enqueue_then intro: stays_adds)

lemma adds_api_start: "adds_drill acct w (final (api_start D U T audited E acct k idemKey target [] w))"
  by (auto simp: api_start_def final_calls stays_refl split: sum.split intro!: adds_create enqueue_then intro: stays_adds)

lemma keeps_sample:
  "keeps (\<lambda>w. db_drills (w_db w) = X \<and> db_idem (w_db w) = Y \<and> w_now w = t) (ensureSampleTarget D E written acc u)"
  unfolding ensureSampleTarget_def
  by (intro hoare keeps_db_write) (auto simp: CreateTarget_def CreateAssertion_def Let_def split: option.splits sum.splits if_splits)

lemma calm_sample: "calm (ensureSampleTarget D E written acc u)"
  unfolding ensureSampleTarget_def by (auto intro!: calm_rules split: option.split sum.split)

lemma sample_then:
  assumes "\<And>r w1. adds_drill a w1 (final (q r [] w1))"
  shows "adds_drill a w (final (bindM (tryM (ensureSampleTarget D E written acc u)) q [] w))"
proof -
  from calm_tryM [OF calm_sample [of D E written acc u]] obtain r w'
    where r: "tryM (ensureSampleTarget D E written acc u) [] w = (r, [], w')" "r \<noteq> Crashed" unfolding calm_def by blast
  from r have "r \<noteq> Err e" for e by (cases "ensureSampleTarget D E written acc u [] w"; cases "fst (ensureSampleTarget D E written acc u [] w)") (auto simp: tryM_def)
  with r(2) obtain x where x: "r = Ret x" by (cases r) auto
  have "stays w w'"
    using keepsD [OF keeps_tryM [OF keeps_sample [of _ _ _ D E written acc u]], where w = w and fs = "[]"] r(1)
    by (simp add: final_def stays_def)
  with assms [of w' x] r x show ?thesis by (auto simp: bindM_def intro: adds_later)
qed

lemma adds_sample_start: "adds_drill (cx_account cx) w (final (sample_start D U T audited E written newkey cx [] w))"
proof -
  have "stays v (final (bindM (if reused then ret (Inr ()) else tryM (EnqueueDrill D audited d p))
      (\<lambda>er. case er of Inl _ \<Rightarrow> ret x | Inr _ \<Rightarrow> ret y) [] v))" for v reused d p and x y :: "response \<times> audit_event option"
    by (auto simp: final_ret stays_refl bind_ret split: sum.split intro!: enqueue_then)
  then show ?thesis
    unfolding sample_start_def
    by (intro sample_then) (auto simp: final_ret split: sum.split intro!: adds_create stays_adds [OF stays_refl])
qed

section \<open>The daily quota\<close>

definition created_times :: "Account \<Rightarrow> ('r, 'e) world \<Rightarrow> gotime list" where
  "created_times a w = map d_CreatedAt (filter (\<lambda>d. d_AccountID d = acct_ID a) (db_drills (w_db w)))"

text \<open>
  Requests of one account that overlap, without faults. A state is the world with the second halves that are still
  to run, at most \<open>m\<close> at any moment. A request counts the drills and then is in flight; later its
  second half runs, or the request is given up. In between, anything may happen that
  neither moves the clock back nor adds or removes drills of the account.
\<close>

type_synonym ('r, 'e) second_half = "('r, 'e) world \<Rightarrow> ('r, 'e) world"

inductive overlapping :: "('r, 'e) Deps \<Rightarrow> Account \<Rightarrow> nat \<Rightarrow> ('r, 'e) world \<Rightarrow> ('r, 'e) second_half list \<Rightarrow> bool" for D a m where
  over_none: "created_times a w = [] \<Longrightarrow> overlapping D a m w []"
| over_web: "overlapping D a m w pend \<Longrightarrow> length pend < m \<Longrightarrow> cx_account cx = a \<Longrightarrow> web_count D T cx adb frm [] w = (Ret (Inr (idem, target)), [], w') \<Longrightarrow>
    overlapping D a m w' (pend @ [\<lambda>v. final (web_start D U T audited E cx idem target [] v)])"
| over_sample: "overlapping D a m w pend \<Longrightarrow> length pend < m \<Longrightarrow> cx_account cx = a \<Longrightarrow> tryM (enforceDrillQuota D (Some a)) [] w = (Ret q, [], w') \<Longrightarrow> q \<noteq> Inr False \<Longrightarrow>
    overlapping D a m w' (pend @ [\<lambda>v. final (sample_start D U T audited E written newkey cx [] v)])"
| over_api: "overlapping D a m w pend \<Longrightarrow> length pend < m \<Longrightarrow> api_count D T a req [] w = (Ret (Inr target), [], w') \<Longrightarrow>
    overlapping D a m w' (pend @ [\<lambda>v. final (api_start D U T audited E a k idemKey target [] v)])"
| over_start: "overlapping D a m w (pend1 @ f # pend2) \<Longrightarrow> overlapping D a m (f w) (pend1 @ pend2)"
| over_given_up: "overlapping D a m w (pend1 @ f # pend2) \<Longrightarrow> overlapping D a m w (pend1 @ pend2)"
| over_later: "overlapping D a m w pend \<Longrightarrow> w_now w \<le> w_now w' \<Longrightarrow> created_times a w' = created_times a w \<Longrightarrow> overlapping D a m w' pend"

text \<open>A request that nothing interrupts is a special case: the three handlers as a whole.\<close>

lemma over_drillCreate:
  assumes "overlapping D a m w pend" and "length pend < m" and "cx_account cx = a"
  shows "overlapping D a m (final (drillCreate D U T audited E cx adb frm [] w)) pend"
proof -
  obtain r where r: "web_count D T cx adb frm [] w = (Ret r, [], w)" by (rule web_count_run)
  show ?thesis
  proof (cases r)
    case (Inr p)
    then have "overlapping D a m w (pend @ [\<lambda>v. final (web_start D U T audited E cx (fst p) (snd p) [] v)])"
      using r assms by (cases p) (auto intro!: over_web)
    from over_start [of D a m w pend _ "[]", OF this] show ?thesis
      using r Inr by (cases p) (simp add: drillCreate_halves bindM_def)
  qed (use r assms(1) in \<open>simp add: drillCreate_halves bindM_def final_ret\<close>)
qed

lemma over_v1CreateDrill:
  assumes "overlapping D a m w pend" and "length pend < m"
  shows "overlapping D a m (final (v1CreateDrill D U T audited E a k idemKey req [] w)) pend"
proof -
  obtain r where r: "api_count D T a req [] w = (Ret r, [], w)" by (rule api_count_run)
  show ?thesis
  proof (cases r)
    case (Inr t)
    then have "overlapping D a m w (pend @ [\<lambda>v. final (api_start D U T audited E a k idemKey t [] v)])" using r assms by (auto intro!: over_api)
    from over_start [of D a m w pend _ "[]", OF this] show ?thesis using r Inr by (simp add: v1CreateDrill_halves bindM_def)
  qed (use r assms(1) in \<open>simp add: v1CreateDrill_halves bindM_def final_ret\<close>)
qed

lemma over_runSampleDrill:
  assumes "overlapping D a m w pend" and "length pend < m" and "cx_account cx = a"
  shows "overlapping D a m (final (runSampleDrill D U T audited E written newkey cx [] w)) pend"
proof (cases "within_quota a w")
  case True
  then have "overlapping D a m w (pend @ [\<lambda>v. final (sample_start D U T audited E written newkey cx [] v)])"
    using assms try_quota [of D a w] by (intro over_sample) auto
  from over_start [of D a m w pend _ "[]", OF this] show ?thesis
    using True assms(3) by (simp add: runSampleDrill_halves bindM_def try_quota)
qed (use assms in \<open>simp add: runSampleDrill_halves bindM_def try_quota final_ret\<close>)

definition in_day :: "gotime \<Rightarrow> gotime list \<Rightarrow> gotime list" where
  "in_day t = filter (\<lambda>c. t \<le> c \<and> c \<le> t + 24 * nsHour)"

text \<open>
  The invariant: in each period the drills do not exceed the cap with the requests that may overlap, and for each
  period that is not over, neither do they together with the requests in flight.
\<close>

definition quota_kept :: "Account \<Rightarrow> nat \<Rightarrow> ('r, 'e) world \<Rightarrow> ('r, 'e) second_half list \<Rightarrow> bool" where
  "quota_kept a m w pend \<longleftrightarrow> (\<forall>f \<in> set pend. \<forall>v. adds_drill a v (f v)) \<and> (\<forall>c \<in> set (created_times a w). c \<le> w_now w) \<and>
     (\<forall>t. int (length (in_day t (created_times a w))) < DrillsPerDay (LimitsFor (acct_Plan a)) + int m) \<and>
     (\<forall>t. w_now w \<le> t + 24 * nsHour \<longrightarrow>
        int (length (in_day t (created_times a w))) + int (length pend) < DrillsPerDay (LimitsFor (acct_Plan a)) + int m)"

lemma DrillsPerDay_pos: "DrillsPerDay (LimitsFor p) > 0"
  by (simp add: LimitsFor_def Let_def)

lemma count_created: "CountDrillsSince (acct_ID a) since (w_db w) = length (filter (\<lambda>c. since \<le> c) (created_times a w))"
  by (simp add: CountDrillsSince_def sql_affected_def created_times_def filter_map comp_def conj_commute)

lemma length_filter_le_mono: "(\<And>x. P x \<Longrightarrow> Q x) \<Longrightarrow> length (filter P xs) \<le> length (filter Q xs)"
  by (induction xs) auto

lemma quota_flight:
  assumes "quota_kept a m w pend" and "length pend < m" and "within_quota a w" and "\<not> acct_Unlimited a" and "\<And>v. adds_drill a v (f v)"
  shows "quota_kept a m w (pend @ [f])"
proof -
  let ?L = "DrillsPerDay (LimitsFor (acct_Plan a))" and ?c = "created_times a w"
  have few: "int (length (filter (\<lambda>c. w_now w - 24 * nsHour \<le> c) ?c)) < ?L"
    using assms(3,4) DrillsPerDay_pos [of "acct_Plan a"] by (simp add: within_quota_def Unlimited_def count_created)
  have "int (length (in_day t ?c)) + int (length (pend @ [f])) < ?L + int m" if t: "w_now w \<le> t + 24 * nsHour" for t
  proof -
    have "length (in_day t ?c) \<le> length (filter (\<lambda>c. w_now w - 24 * nsHour \<le> c) ?c)"
      unfolding in_day_def using t by (intro length_filter_le_mono) auto
    then show ?thesis using few assms(2) by simp
  qed
  then show ?thesis using assms(1,5) by (auto simp: quota_kept_def)
qed

lemma quota_start:
  assumes "quota_kept a m w (pend1 @ f # pend2)"
  shows "quota_kept a m (f w) (pend1 @ pend2)"
proof -
  have ad: "adds_drill a w (f w)" using assms by (simp add: quota_kept_def)
  have now: "w_now (f w) = w_now w" using ad by (simp add: adds_drill_def)
  from ad consider "created_times a (f w) = created_times a w" | "created_times a (f w) = created_times a w @ [w_now w]"
    by (auto simp: adds_drill_def created_times_def)
  then show ?thesis
  proof cases
    case 1
    then show ?thesis using assms now by (fastforce simp: quota_kept_def)
  next
    case 2
    have one: "length (in_day t (created_times a (f w))) \<le> length (in_day t (created_times a w)) + 1" for t using 2 by (simp add: in_day_def)
    have "int (length (in_day t (created_times a (f w)))) + int (length (pend1 @ pend2)) < DrillsPerDay (LimitsFor (acct_Plan a)) + int m"
      if "w_now w \<le> t + 24 * nsHour" for t
      using assms that one [of t] by (force simp: quota_kept_def)
    moreover have "int (length (in_day t (created_times a (f w)))) < DrillsPerDay (LimitsFor (acct_Plan a)) + int m" for t
    proof (cases "w_now w \<le> t + 24 * nsHour")
      case True
      then show ?thesis using calculation [of t] by simp
    next
      case False
      then have "in_day t (created_times a (f w)) = in_day t (created_times a w)" using 2 by (simp add: in_day_def)
      then show ?thesis using assms by (simp add: quota_kept_def)
    qed
    ultimately show ?thesis using assms now 2 by (auto simp: quota_kept_def)
  qed
qed

lemma overlapping_quota: "overlapping D a m w pend \<Longrightarrow> \<not> acct_Unlimited a \<Longrightarrow> quota_kept a m w pend"
proof (induction rule: overlapping.induct)
  case (over_none w)
  then show ?case using DrillsPerDay_pos [of "acct_Plan a"] by (simp add: quota_kept_def in_day_def)
next
  case (over_web w pend cx T adb frm idem target w' U audited E)
  from web_count_run [of D T cx adb frm w] have "w' = w" "within_quota a w" using over_web.hyps by auto
  with over_web show ?case by (auto intro!: quota_flight adds_web_start)
next
  case (over_sample w pend cx q w' U T audited E written newkey)
  then have "w' = w" "within_quota a w" by (auto simp: try_quota)
  with over_sample show ?case by (auto intro!: quota_flight adds_sample_start)
next
  case (over_api w pend T req target w' U audited E k idemKey)
  from api_count_run [of D T a req w] have "w' = w" "within_quota a w" using over_api.hyps by auto
  with over_api show ?case by (auto intro!: quota_flight adds_api_start)
next
  case (over_start w pend1 f pend2)
  then show ?case by (blast intro: quota_start)
next
  case (over_given_up w pend1 f pend2)
  then show ?case by (fastforce simp: quota_kept_def)
next
  case (over_later w pend w')
  then show ?case by (force simp: quota_kept_def)
qed

text \<open>
  C27. The daily quota. An account starts its drills through the web form, the sample button and the API, in any order
  and with every call working. The handlers count and create without a lock; if at no moment more than
  \<open>m\<close> requests are between their count and their end, then in every period of twenty-four hours at most \<open>m - 1\<close> more of its
  drills were created than its plan allows: for requests that do not overlap (\<open>m = 1\<close>), at most as many as the plan allows.
\<close>

theorem quota_window:
  assumes "overlapping D a m w pend" and "\<not> acct_Unlimited a"
  shows "int (length (in_day t (created_times a w))) \<le> DrillsPerDay (LimitsFor (acct_Plan a)) + (int m - 1)"
proof -
  have "int (length (in_day t (created_times a w))) < DrillsPerDay (LimitsFor (acct_Plan a)) + int m"
    using overlapping_quota [OF assms] by (simp add: quota_kept_def)
  then show ?thesis by simp
qed

section \<open>Idempotent replies\<close>

lemma b64_raw_inj: "b64_raw a = b64_raw b \<longleftrightarrow> a = b"
  by (metis b64_raw_roundtrip option.inject)

lemma cut_at:
  assumes "xs @ c # ys = xs' @ c # ys'" and "c \<notin> set xs" "c \<notin> set xs'"
  shows "xs = xs' \<and> ys = ys'"
proof -
  have t: "takeWhile (\<lambda>x. x \<noteq> c) (us @ c # vs) = us" if "c \<notin> set us" for us vs using that by (induction us) auto
  have "xs = xs'" using t [OF assms(2), of ys] t [OF assms(3), of ys'] assms(1) by simp
  with assms(1) show ?thesis by simp
qed

definition no_collision :: "text_lib \<Rightarrow> string \<Rightarrow> string \<Rightarrow> bytes \<Rightarrow> string \<Rightarrow> string \<Rightarrow> bytes \<Rightarrow> bool" where
  "no_collision T m path body m' path' body' \<longleftrightarrow>
     (tx_sha256 T (m @ CHR 0x00 # path @ CHR 0x00 # body) = tx_sha256 T (m' @ CHR 0x00 # path' @ CHR 0x00 # body') \<longrightarrow>
      m @ CHR 0x00 # path @ CHR 0x00 # body = m' @ CHR 0x00 # path' @ CHR 0x00 # body')"

lemma fingerprint_inj:
  assumes "fingerprintRequest T m path body = fingerprintRequest T m' path' body'" and "no_collision T m path body m' path' body'"
    and "CHR 0x00 \<notin> set m" "CHR 0x00 \<notin> set m'" "CHR 0x00 \<notin> set path" "CHR 0x00 \<notin> set path'"
  shows "m = m' \<and> path = path' \<and> body = body'"
proof -
  have "m @ CHR 0x00 # (path @ CHR 0x00 # body) = m' @ CHR 0x00 # (path' @ CHR 0x00 # body')"
    using assms(1,2) by (simp add: fingerprintRequest_def b64_raw_inj no_collision_def)
  from cut_at [OF this assms(3,4)] have "m = m'" and rest: "path @ CHR 0x00 # body = path' @ CHR 0x00 # body'" by simp_all
  from cut_at [OF rest assms(5,6)] \<open>m = m'\<close> show ?thesis by simp
qed

lemma idem_first:
  assumes "sql_first (idem_of acc key) (as_idem s) = None" and "idem_of acc key r"
  shows "sql_first (idem_of acc key) (as_idem s @ r # others) = Some r"
  using assms by (simp add: sql_first_append)

lemma idem_found:
  assumes "key \<noteq> []" "pg_text_ok key" "sql_first (idem_of acc key) (as_idem s) = Some r"
  shows "v1Idempotency T now acc key m path body handler [] s =
    (Ret (if ix_Fingerprint r \<noteq> fingerprintRequest T m path body then writeAPIError 409 ''idempotency_key_reused''
      else \<lparr>rp_status = ix_Status r, rp_body = ix_Body r, rp_replayed = True\<rparr>), [], s)"
  using assms by (simp add: v1Idempotency_def Let_def bindM_def tryM_def call_ok ret_def)

lemma idem_new:
  assumes "key \<noteq> []" "pg_text_ok key" "sql_first (idem_of acc key) (as_idem s) = None"
    and "handler [] (as_world s) = (Ret rep, [], w)"
  shows "v1Idempotency T now acc key m path body handler [] s = (Ret rep, [],
    s\<lparr>as_world := w, as_idem := as_idem s @ (if rp_status rep < 500 then [\<lparr>ix_AccountID = acc, ix_Key = key,
      ix_Fingerprint = fingerprintRequest T m path body, ix_Status = rp_status rep, ix_Body = rp_body rep, ix_CreatedAt = now\<rparr>] else [])\<rparr>)"
proof -
  have "\<not> (\<exists>r \<in> set (as_idem s). idem_of acc key r)" using assms(3) by (auto simp: sql_first_None)
  with assms show ?thesis
    by (simp add: v1Idempotency_def Let_def bindM_def tryM_def call_ok ret_def on_world_def thenM_def ignoreM_def store_reply_def)
qed

text \<open>
  C28. Requests under an idempotency key. The first request under a key runs its handler. When the reply is
  no server error, a later request of the account under the key gets the same status and body, marked as
  replayed, when it is the same request, and \<open>409\<close> when method, path or body differ; in both cases nothing is
  executed and nothing changes. A server error is not kept: the next request runs again. Another request is told
  apart as far as the hash does not collide on the two.
\<close>

theorem idempotent_replay:
  assumes "key \<noteq> []" "pg_text_ok key" "sql_first (idem_of acc key) (as_idem s) = None"
    and "handler [] (as_world s) = (Ret rep, [], w)"
    and "v1Idempotency T now acc key m path body handler [] s = (Ret rep1, fs, s1)"
    and "as_idem s2 = as_idem s1 @ others"
    and "CHR 0x00 \<notin> set m" "CHR 0x00 \<notin> set m'" "CHR 0x00 \<notin> set path" "CHR 0x00 \<notin> set path'"
    and "no_collision T m path body m' path' body'"
  shows "rep1 = rep \<and> as_world s1 = w \<and>
    (if rp_status rep < 500
     then v1Idempotency T now' acc key m' path' body' handler' [] s2 =
       (Ret (if (m', path', body') = (m, path, body) then rep\<lparr>rp_replayed := True\<rparr> else writeAPIError 409 ''idempotency_key_reused''), [], s2)
     else as_idem s1 = as_idem s)"
proof -
  let ?r = "\<lparr>ix_AccountID = acc, ix_Key = key, ix_Fingerprint = fingerprintRequest T m path body, ix_Status = rp_status rep,
    ix_Body = rp_body rep, ix_CreatedAt = now\<rparr>"
  from idem_new [of key acc s handler rep w T now m path body] assms(1-5)
  have s1: "rep1 = rep" "s1 = s\<lparr>as_world := w, as_idem := as_idem s @ (if rp_status rep < 500 then [?r] else [])\<rparr>" by simp_all
  have same: "fingerprintRequest T m path body = fingerprintRequest T m' path' body' \<longleftrightarrow> (m', path', body') = (m, path, body)"
    using fingerprint_inj [OF _ assms(11,7-10)] by auto
  have "v1Idempotency T now' acc key m' path' body' handler' [] s2 =
       (Ret (if (m', path', body') = (m, path, body) then rep\<lparr>rp_replayed := True\<rparr> else writeAPIError 409 ''idempotency_key_reused''), [], s2)"
    if "rp_status rep < 500"
  proof -
    from that s1 assms(6) have "as_idem s2 = as_idem s @ ?r # others" by simp
    with idem_first [OF assms(3), of ?r others] have "sql_first (idem_of acc key) (as_idem s2) = Some ?r" by (simp add: idem_of_def)
    from idem_found [OF assms(1,2) this] same show ?thesis by (cases rep) simp
  qed
  with s1 show ?thesis by simp
qed

text \<open>The reply to a drill request whose body the decoder refuses.\<close>

theorem idempotent_replay_witness:
  "\<forall>E a k. \<exists>s1. v1Idempotency plain_text 5 1 ''k'' ''POST'' ''/drills'' ''x'' (v1CreateDrill (demo_deps True) demo_uuid plain_text True E a k ''k'' None) []
       \<lparr>as_world = demo_start, as_idem = []\<rparr> = (Ret (writeAPIError 400 ''bad_request''), [], s1) \<and>
     v1Idempotency plain_text 6 1 ''k'' ''POST'' ''/drills'' ''x'' (v1CreateDrill (demo_deps True) demo_uuid plain_text True E a k ''k'' (Some [])) [] s1 =
       (Ret ((writeAPIError 400 ''bad_request'')\<lparr>rp_replayed := True\<rparr>), [], s1)"
proof (intro allI)
  fix E a k
  let ?h = "v1CreateDrill (demo_deps True) demo_uuid plain_text True E a k ''k''"
  let ?s = "\<lparr>as_world = demo_start, as_idem = []\<rparr>"
  have h: "?h None [] (as_world ?s) = (Ret (writeAPIError 400 ''bad_request''), [], demo_start)"
    by (simp add: v1CreateDrill_def ret_def)
  have k: "pg_text_ok ''k''" by code_simp
  obtain s1 where s1: "v1Idempotency plain_text 5 1 ''k'' ''POST'' ''/drills'' ''x'' (?h None) [] ?s = (Ret (writeAPIError 400 ''bad_request''), [], s1)"
    using idem_new [of "''k''" 1 ?s "?h None" _ demo_start plain_text 5 "''POST''" "''/drills''" "''x''"] k h by simp
  have "v1Idempotency plain_text 6 1 ''k'' ''POST'' ''/drills'' ''x'' (?h (Some [])) [] s1 =
       (Ret ((writeAPIError 400 ''bad_request'')\<lparr>rp_replayed := True\<rparr>), [], s1)"
    using idempotent_replay [of "''k''" 1 ?s "?h None" _ demo_start plain_text 5 "''POST''" "''/drills''" "''x''" _ _ s1 s1 "[]" "''POST''" "''/drills''" "''x''" 6 "?h (Some [])"]
    k h s1 by (simp add: no_collision_def writeAPIError_def)
  with s1 show "\<exists>s1. v1Idempotency plain_text 5 1 ''k'' ''POST'' ''/drills'' ''x'' (?h None) [] ?s = (Ret (writeAPIError 400 ''bad_request''), [], s1) \<and>
     v1Idempotency plain_text 6 1 ''k'' ''POST'' ''/drills'' ''x'' (?h (Some [])) [] s1 =
       (Ret ((writeAPIError 400 ''bad_request'')\<lparr>rp_replayed := True\<rparr>), [], s1)" by blast
qed

section \<open>A drill whose job was not enqueued\<close>

definition may_drill :: "source_env \<Rightarrow> Account \<Rightarrow> Target \<Rightarrow> ('r, 'e) world \<Rightarrow> bool" where
  "may_drill E a t w \<longleftrightarrow> \<not> acct_Unlimited a \<and> within_quota a w \<and>
     (t_IsSample t \<or> canDrillReal (w_now w) (Some a) \<and> enforceDumpSize E (t_SourceKind t) (t_SourceURI t) (Some a))"

definition new_drill :: "('r, 'e) Deps \<Rightarrow> uuid_lib \<Rightarrow> uuid \<Rightarrow> uuid \<Rightarrow> uuid \<Rightarrow> string \<Rightarrow> uuid \<Rightarrow> drill_db \<Rightarrow> ('r, 'e) world \<Rightarrow> bool" where
  "new_drill D U acc u t key d db1 w \<longleftrightarrow>
     CreateDrillIdempotent U (w_fresh w) (w_now w) acc u t key (w_db w) = (Inr (d, False), db1) \<and>
     uuid_lib_ok U \<and> \<not> drill_exists d (w_db w) \<and> fresh_steps D d {} (w_db w)"

lemma new_drill_facts:
  assumes "new_drill D U acc u t key d db1 w"
  obtains dr where "d_Status dr = StatusPending" "GetDrillByID d db1 = Inr dr" "GetDrill acc d ScopeAll db1 = Inr dr" "fresh_steps D d {} db1"
    "db_targets db1 = db_targets (w_db w)" "d_ID dr = d" "d_AccountID dr = acc" "db_drills db1 = db_drills (w_db w) @ [dr]"
proof -
  from assms create_new [of U "w_fresh w" "w_now w" acc u t key "w_db w" d db1] obtain dr k
    where dr: "db1 = (w_db w)\<lparr>db_drills := db_drills (w_db w) @ [dr], db_idem := db_idem (w_db w) @ [k]\<rparr>"
      "d_ID dr = d" "d_Status dr = StatusPending" "d_AccountID dr = acc" unfolding new_drill_def by blast
  have "sql_first (\<lambda>x. d_ID x = d) (db_drills (w_db w)) = None" "sql_first (\<lambda>x. d_ID x = d \<and> P x) (db_drills (w_db w)) = None" for P
    using assms by (auto simp: new_drill_def drill_exists_def sql_first_None)
  then have "GetDrillByID d db1 = Inr dr" "GetDrill acc d ScopeAll db1 = Inr dr"
    using dr by (simp_all add: GetDrillByID_def GetDrill_def sql_first_append drill_visible_def teamArgs_def ScopeAll_def)
  moreover have "fresh_steps D d {} db1" using assms dr by (simp add: new_drill_def fresh_steps_def step_status_def GetStep_def)
  ultimately show ?thesis using dr that by simp
qed

lemma quota_call:
  assumes "\<not> acct_Unlimited a"
  shows "tryM (enforceDrillQuota D (Some a)) (NoFault # fs) w = (Ret (Inr (within_quota a w)), fs, w)"
  using assms DrillsPerDay_pos [of "acct_Plan a"]
  by (auto simp: enforceDrillQuota_def within_quota_def tryM_def ret_def bindM_def getM_def db_read_def call_def dbErr_def Unlimited_def)

lemma read_call: "tryM (db_read D f) (NoFault # fs) w = (Ret (dbErr D (f (w_db w))), fs, w)"
  by (auto simp: tryM_def db_read_def call_def split: sum.split)

lemma write_call:
  "tryM (db_write D f) (NoFault # fs) w =
     (Ret (dbErr D (fst (f (w_now w) (w_fresh w) (w_db w)))), fs, w\<lparr>w_db := snd (f (w_now w) (w_fresh w) (w_db w)), w_fresh := w_fresh w + 1\<rparr>)"
  by (auto simp: tryM_def db_write_def call_def split: sum.split prod.split)

lemma enqueue_down: "tryM (EnqueueDrill D audited d p) [FailBefore e] w = (Ret (Inl e), [], w)"
  by (simp add: tryM_def enqueue_fails)

lemmas request_run = bindM_def getM_def ret_def read_call write_call quota_call enqueue_down try_read try_write try_quota dbErr_def

subsection \<open>A race for the last drill of the day\<close>

lemma api_start_new:
  assumes "new_drill D U (acct_ID a) (ak_CreatedByUserID k) (t_ID t) key d db1 w"
    and "t_IsSample t \<or> enforceDumpSize E (t_SourceKind t) (t_SourceURI t) (Some a)"
  shows "created_times a (final (api_start D U T audited E a k key t [] w)) = created_times a w @ [w_now w] \<and>
    w_now (final (api_start D U T audited E a k key t [] w)) = w_now w"
proof -
  let ?w1 = "w\<lparr>w_db := db1, w_fresh := w_fresh w + 1\<rparr>"
  have new: "CreateDrillIdempotent U (w_fresh w) (w_now w) (acct_ID a) (ak_CreatedByUserID k) (t_ID t) key (w_db w) = (Inr (d, False), db1)"
    using assms(1) by (simp add: new_drill_def)
  obtain dr where dr: "db_drills db1 = db_drills (w_db w) @ [dr]" "d_AccountID dr = acct_ID a" "d_CreatedAt dr = w_now w"
    using new by (auto simp: CreateDrillIdempotent_def Let_def split: if_splits option.splits)
  have "stays ?w1 (final (api_start D U T audited E a k key t [] w))"
    using assms(2) by (auto simp: api_start_def bindM_def [of "tryM (db_write _ _)"] try_write new dbErr_def final_calls stays_refl split: sum.split intro!: enqueue_then)
  then show ?thesis using dr by (simp add: stays_def created_times_def)
qed

text \<open>
  The bound of \<open>quota_window\<close> is reached. When an account has one drill left today, two requests that both count before
  either creates its drill both pass, and the account has one drill more than its plan allows.
\<close>

theorem quota_race:
  assumes "overlapping D a 2 w []" and "tx_parse_uuid T database = Some tid" and "GetTarget (acct_ID a) tid ScopeAll (w_db w) = Inr t" and "may_drill E a t w"
    and "int (CountDrillsSince (acct_ID a) (w_now w - 24 * nsHour) (w_db w)) = DrillsPerDay (LimitsFor (acct_Plan a)) - 1"
    and "new_drill D U (acct_ID a) (ak_CreatedByUserID k) (t_ID t) key1 d1 db1 w"
    and "new_drill D U (acct_ID a) (ak_CreatedByUserID k) (t_ID t) key2 d2 db2 (final (api_start D U T audited E a k key1 t [] w))"
  shows "\<exists>w2. overlapping D a 2 w2 [] \<and>
    int (CountDrillsSince (acct_ID a) (w_now w2 - 24 * nsHour) (w_db w2)) = DrillsPerDay (LimitsFor (acct_Plan a)) + 1"
proof -
  let ?s = "\<lambda>key v. final (api_start D U T audited E a k key t [] v)"
  have ok: "t_IsSample t \<or> v1BlockFreeReal (w_now w) a = None" "within_quota a w" "t_IsSample t \<or> enforceDumpSize E (t_SourceKind t) (t_SourceURI t) (Some a)"
    using assms(4) by (auto simp: may_drill_def v1BlockFreeReal_def)
  have c: "api_count D T a (Some database) [] w = (Ret (Inr t), [], w)"
    using assms(2,3) ok by (auto simp: api_count_def bindM_def getM_def ret_def try_read try_quota dbErr_def)
  have "overlapping D a 2 w ([] @ [?s key1])" using assms(1) c by (intro over_api) auto
  then have "overlapping D a 2 w (([] @ [?s key1]) @ [?s key2])" by (rule over_api) (use c in auto)
  then have "overlapping D a 2 (?s key1 w) ([] @ [?s key2])" using over_start [of D a 2 w "[]" "?s key1" "[?s key2]"] by simp
  then have "overlapping D a 2 (?s key2 (?s key1 w)) []" using over_start [of D a 2 "?s key1 w" "[]" "?s key2" "[]"] by simp
  moreover have "int (CountDrillsSince (acct_ID a) (w_now (?s key2 (?s key1 w)) - 24 * nsHour) (w_db (?s key2 (?s key1 w)))) = DrillsPerDay (LimitsFor (acct_Plan a)) + 1"
    using api_start_new [OF assms(6) ok(3)] api_start_new [OF assms(7) ok(3)] assms(5) by (simp add: count_created)
  ultimately show ?thesis by blast
qed

subsection \<open>The form submitted again\<close>

text \<open>
  The state of a drill whose first job was not enqueued: it is pending, it has no step, and the key of its form leads to it.
\<close>

definition drill_lost :: "uuid_lib \<Rightarrow> uuid \<Rightarrow> string \<Rightarrow> uuid \<Rightarrow> ('r, 'e) world \<Rightarrow> bool" where
  "drill_lost U acc key d w \<longleftrightarrow> (\<exists>dr. GetDrillByID d (w_db w) = Inr dr \<and> d_Status dr = StatusPending) \<and> (\<forall>n. step_status d n (w_db w) = None) \<and>
     (\<exists>k. sql_first (\<lambda>k. (ik_AccountID k, ik_Key k, ik_Scope k) = (acc, key, drill_create_scope)) (db_idem (w_db w)) = Some k \<and> ik_TargetID k = uuid_String U d)"

lemma lost_create:
  assumes "uuid_lib_ok U" and "drill_lost U acc key d w" and "key \<noteq> []"
  shows "CreateDrillIdempotent U newid now acc u t key (w_db w) = (Inr (d, True), w_db w)"
  using assms by (auto simp: drill_lost_def CreateDrillIdempotent_def uuid_lib_ok_def)

lemma lost_fresh: "drill_lost U acc key d (w\<lparr>w_fresh := i\<rparr>) = drill_lost U acc key d w"
  by (simp add: drill_lost_def)

text \<open>Submitting the form again, in whatever state and with whatever faults, neither adds a job nor finds the drill again.\<close>

lemma lost_start:
  assumes "uuid_lib_ok U" and "drill_lost U acc key d w" and "key \<noteq> []" and "acct_ID (cx_account cx) = acc"
  shows "\<exists>i. final (web_start D U T audited E cx key t fs w) = w\<lparr>w_fresh := i\<rparr>"
proof -
  let ?p = "db_write D (\<lambda>now newid. CreateDrillIdempotent U newid now acc (cx_user cx) (t_ID t) key)"
  have c: "CreateDrillIdempotent U newid now acc u i key (w_db w) = (Inr (d, True), w_db w)" for newid now u i
    by (rule lost_create [OF assms(1-3)])
  have same: "w\<lparr>w_fresh := w_fresh w\<rparr> = w" by simp
  consider r gs i where "tryM ?p fs w = (Ret r, gs, w\<lparr>w_fresh := i\<rparr>)" "r = Inr (d, True) \<or> isl r" | gs where "tryM ?p fs w = (Crashed, gs, w)"
    by (cases fs; cases "hd fs") (auto simp: tryM_def db_write_def call_def c dbErr_def Let_def intro: same [symmetric])
  then have "\<exists>i. final (bindM (tryM ?p) (\<lambda>cr. case cr of Inl _ \<Rightarrow> ret x | Inr (drillID, reused) \<Rightarrow> if reused then ret (y drillID) else q drillID) fs w) = w\<lparr>w_fresh := i\<rparr>"
    for x :: response and y q
    by cases (auto simp: bindM_def ret_def final_def split: sum.split intro: exI [of _ "w_fresh w"])
  moreover have "\<exists>i. w = w\<lparr>w_fresh := i\<rparr>" using same by metis
  ultimately show ?thesis using assms(4) by (auto simp: web_start_def ret_def final_def)
qed

lemma keeps_web_count: "keeps I (web_count D T cx adb frm)"
  unfolding web_count_def enforceDrillQuota_def by (intro hoare)

lemma web_count_final: "final (web_count D T cx adb frm fs w) = w"
  by (rule keepsD [OF keeps_web_count [of "\<lambda>v. v = w"]]) simp

lemma resubmit:
  assumes "uuid_lib_ok U" and "drill_lost U acc key d w" and "acct_ID (cx_account cx) = acc" and "TrimSpace (f ''idempotency_key'') = key"
  shows "drill_lost U acc key d (final (drillCreate D U T audited E cx adb (Some f) fs w)) \<and>
    w_jobs (final (drillCreate D U T audited E cx adb (Some f) fs w)) = w_jobs w"
proof -
  have "\<exists>i. final (drillCreate D U T audited E cx adb (Some f) fs w) = w\<lparr>w_fresh := i\<rparr>"
  proof -
    have same: "w\<lparr>w_fresh := w_fresh w\<rparr> = w" by simp
    obtain r gs where r: "web_count D T cx adb (Some f) fs w = (r, gs, w)"
      using web_count_final [of D T cx adb "Some f" fs w] by (cases "web_count D T cx adb (Some f) fs w") (auto simp: final_def)
    have key: "fst p = key \<and> key \<noteq> []" if "r = Ret (Inr p)" for p
      using r that assms(4) by (auto simp: web_count_def bindM_def ret_def getM_def split: if_splits option.splits sum.splits prod.splits outcome.splits)
    show ?thesis
    proof (cases "\<exists>p. r = Ret (Inr p)")
      case True
      then obtain p where p: "r = Ret (Inr p)" by blast
      have "final (drillCreate D U T audited E cx adb (Some f) fs w) = final (web_start D U T audited E cx key (snd p) gs w)"
        using r p key [OF p] by (cases p) (simp add: drillCreate_halves bindM_def)
      then show ?thesis using lost_start [OF assms(1,2) _ assms(3)] key [OF p] by simp
    next
      case False
      have "final (drillCreate D U T audited E cx adb (Some f) fs w) = w"
        using r False by (cases r) (auto simp: drillCreate_halves bindM_def ret_def final_def split: sum.split)
      then show ?thesis using same by metis
    qed
  qed
  then show ?thesis using assms(2) by (auto simp: lost_fresh)
qed

text \<open>
  C36. A drill lost by the web form. When the drill is created and its first job cannot be enqueued, the form
  answers \<open>500\<close>. Submitting the form again, with every call working, redirects to the drill as if it were
  started, since its key is known, although there is no job and no step of it. No later submission of a form with this key by
  a member of the account helps, in whatever state the database then is and whatever faults
  occur: as long as the drill is still pending without steps, it stays so, and no job is added. (A request of the API
  under the same key would enqueue the job, see \<open>api_drill_retry\<close>.)
\<close>

theorem web_drill_lost:
  assumes "TrimSpace (f ''idempotency_key'') = key" "key \<noteq> []" "tx_parse_uuid T (TrimSpace (f ''target_id'')) = Some tid"
    and "GetTarget (acct_ID (cx_account cx)) tid (scope_of cx adb) (w_db w) = Inr t" and "may_drill E (cx_account cx) t w"
    and "new_drill D U (acct_ID (cx_account cx)) (cx_user cx) (t_ID t) key d db1 w" and "within_quota (cx_account cx) (w\<lparr>w_db := db1\<rparr>)"
  shows "\<exists>w1 w2. drillCreate D U T audited E cx adb (Some f) [NoFault, NoFault, NoFault, FailBefore e] w = (Ret (HttpStatus 500), [], w1) \<and>
    drillCreate D U T audited E cx adb (Some f) [] w1 = (Ret (SeeOther (''/drills/'' @ tx_uuid T d)), [], w2) \<and>
    drill_lost U (acct_ID (cx_account cx)) key d w2 \<and> w_jobs w2 = w_jobs w \<and>
    (\<forall>cx' adb' f' fs w'. drill_lost U (acct_ID (cx_account cx)) key d w' \<and> acct_ID (cx_account cx') = acct_ID (cx_account cx) \<and>
       TrimSpace (f' ''idempotency_key'') = key \<longrightarrow>
       drill_lost U (acct_ID (cx_account cx)) key d (final (drillCreate D U T audited E cx' adb' (Some f') fs w')) \<and>
       w_jobs (final (drillCreate D U T audited E cx' adb' (Some f') fs w')) = w_jobs w')"
proof -
  let ?w1 = "w\<lparr>w_db := db1, w_fresh := w_fresh w + 1\<rparr>" and ?a = "acct_ID (cx_account cx)"
  obtain dr where dr: "d_Status dr = StatusPending" "GetDrillByID d db1 = Inr dr" "fresh_steps D d {} db1" "db_targets db1 = db_targets (w_db w)"
    using assms(6) by (rule new_drill_facts)
  have U: "uuid_lib_ok U" and new: "CreateDrillIdempotent U (w_fresh w) (w_now w) ?a (cx_user cx) (t_ID t) key (w_db w) = (Inr (d, False), db1)"
    using assms(6) by (simp_all add: new_drill_def)
  have lost: "drill_lost U ?a key d ?w1"
    using dr create_new [OF new] by (auto simp: drill_lost_def fresh_steps_def sql_first_append)
  have open_real: "t_IsSample t \<or> blockFreeRealWeb (w_now w) (Some (cx_account cx)) = None" "\<not> acct_Unlimited (cx_account cx)"
      "within_quota (cx_account cx) w" "t_IsSample t \<or> enforceDumpSize E (t_SourceKind t) (t_SourceURI t) (Some (cx_account cx))"
    using assms(5) by (auto simp: may_drill_def blockFreeRealWeb_def)
  have first: "drillCreate D U T audited E cx adb (Some f) [NoFault, NoFault, NoFault, FailBefore e] w = (Ret (HttpStatus 500), [], ?w1)"
    using assms(1-4) open_real new by (auto simp: drillCreate_def Let_def request_run)
  have "GetTarget ?a tid (scope_of cx adb) db1 = Inr t" using assms(4) dr(4) by (simp add: GetTarget_def)
  moreover have "within_quota (cx_account cx) ?w1" using assms(7) by (simp add: within_quota_def)
  moreover have "CreateDrillIdempotent U (w_fresh w + 1) (w_now w) ?a (cx_user cx) (t_ID t) key db1 = (Inr (d, True), db1)"
    using lost_create [OF U lost assms(2)] by simp
  ultimately have "drillCreate D U T audited E cx adb (Some f) [] ?w1 =
      (Ret (SeeOther (''/drills/'' @ tx_uuid T d)), [], ?w1\<lparr>w_fresh := w_fresh w + 1 + 1\<rparr>)"
    using assms(1-3) open_real by (auto simp: drillCreate_def Let_def request_run)
  moreover have "drill_lost U ?a key d (?w1\<lparr>w_fresh := w_fresh w + 1 + 1\<rparr>)" using lost by (simp only: lost_fresh)
  ultimately show ?thesis
    using first by (intro exI [of _ ?w1] exI [of _ "?w1\<lparr>w_fresh := w_fresh w + 1 + 1\<rparr>"] conjI allI impI) (auto dest: resubmit [OF U])
qed

text \<open>
  The API repairs it. The same failure under the API answers \<open>500\<close>, which the idempotency layer does not keep; the repeated
  request finds the drill by its key, creates its six steps, enqueues its first job and answers \<open>201\<close> with the drill. No
  second drill is made.
\<close>

theorem api_drill_retry:
  assumes "tx_parse_uuid T database = Some tid" and "GetTarget (acct_ID a) tid ScopeAll (w_db w) = Inr t" and "may_drill E a t w"
    and "new_drill D U (acct_ID a) (ak_CreatedByUserID k) (t_ID t) key d db1 w" and "within_quota a (w\<lparr>w_db := db1\<rparr>)"
  shows "\<exists>w1 w2 dr. v1CreateDrill D U T audited E a k key (Some database) [NoFault, NoFault, NoFault, FailBefore e] w =
      (Ret (writeAPIError 500 ''internal''), [], w1) \<and>
    v1CreateDrill D U T audited E a k key (Some database) [] w1 = (Ret (writeData 201 (ApiDrill (toAPIDrill T dr))), [], w2) \<and>
    d_ID dr = d \<and> db_drills (w_db w2) = db_drills (w_db w) @ [dr] \<and> (\<forall>n. step_status d n (w_db w2) = Some StatusPending) \<and>
    w_jobs w2 = w_jobs w @ [\<lparr>j_Args = ProvisionArgs d, j_Priority = drillInsertOpts (Some a)\<rparr>]"
proof -
  let ?w1 = "w\<lparr>w_db := db1, w_fresh := w_fresh w + 1\<rparr>"
  obtain dr where dr: "GetDrillByID d db1 = Inr dr" "GetDrill (acct_ID a) d ScopeAll db1 = Inr dr" "fresh_steps D d {} db1"
      "db_targets db1 = db_targets (w_db w)" "d_ID dr = d" "db_drills db1 = db_drills (w_db w) @ [dr]"
    using assms(4) by (rule new_drill_facts)
  have ok: "t_IsSample t \<or> v1BlockFreeReal (w_now w) a = None" "\<not> acct_Unlimited a"
      "within_quota a w" "t_IsSample t \<or> enforceDumpSize E (t_SourceKind t) (t_SourceURI t) (Some a)"
    using assms(3) by (auto simp: may_drill_def v1BlockFreeReal_def)
  have first: "v1CreateDrill D U T audited E a k key (Some database) [NoFault, NoFault, NoFault, FailBefore e] w =
      (Ret (writeAPIError 500 ''internal''), [], ?w1)"
    using assms(1,2,4) ok by (auto simp: v1CreateDrill_def Let_def request_run new_drill_def)
  have tgt: "GetTarget (acct_ID a) tid ScopeAll db1 = Inr t" using assms(2) dr(4) by (simp add: GetTarget_def)
  have q: "within_quota a ?w1" using assms(5) by (simp add: within_quota_def)
  have cr: "CreateDrillIdempotent U (w_fresh w + 1) (w_now w) (acct_ID a) (ak_CreatedByUserID k) (t_ID t) key db1 = (Inr (d, True), db1)"
    using assms(4) unfolding new_drill_def by (blast intro: create_reused)
  let ?w2 = "?w1\<lparr>w_fresh := w_fresh w + 1 + 1\<rparr>" and ?job = "\<lparr>j_Args = ProvisionArgs d, j_Priority = drillInsertOpts (Some a)\<rparr>"
  obtain w3 where w3: "EnqueueDrill D audited d (drillInsertOpts (Some a)) [] ?w2 = (Ret (), [], w3\<lparr>w_jobs := w_jobs w @ [?job]\<rparr>)"
    "others_alike d ?w2 w3" "fresh_steps D d UNIV (w_db w3)"
    using enqueue_alike [of d ?w2 dr D audited "drillInsertOpts (Some a)"] dr by auto
  then have "tryM (EnqueueDrill D audited d (drillInsertOpts (Some a))) [] ?w2 = (Ret (Inr ()), [], w3\<lparr>w_jobs := w_jobs w @ [?job]\<rparr>)"
    by (simp add: tryM_def)
  moreover have "GetDrill (acct_ID a) d ScopeAll (w_db w3) = Inr dr"
    using dr(2) w3(2) by (simp add: others_alike_def GetDrill_def drill_visible_def teamArgs_def ScopeAll_def)
  ultimately have "v1CreateDrill D U T audited E a k key (Some database) [] ?w1 =
      (Ret (writeData 201 (ApiDrill (toAPIDrill T dr))), [], w3\<lparr>w_jobs := w_jobs w @ [?job]\<rparr>)"
    using assms(1) tgt q cr ok by (auto simp: v1CreateDrill_def Let_def request_run)
  with first dr w3 show ?thesis
    by (intro exI [of _ ?w1] exI [of _ "w3\<lparr>w_jobs := w_jobs w @ [?job]\<rparr>"] exI [of _ dr]) (simp add: fresh_steps_def others_alike_def)
qed

section \<open>Deleting assertions\<close>

text \<open>
  C37. Another team's assertions. The handler looks up the database named in the path within the member's
  teams, so that a member cannot strip the assertions of another team's database. But it then deletes the assertion by its own
  identifier anywhere in the account: with the path of a database the member sees, or with a path that
  is no identifier at all, an assertion of a database the member does not see is deleted, and the audit
  log names the database of the path.
\<close>

theorem assertion_other_team:
  assumes "a \<in> set (db_assertions (snd db))" and "t \<in> set (db_targets (snd db))"
    and "a_TargetID a = t_ID t" and "t_AccountID t = acct_ID (cx_account cx)"
    and "GetTarget (acct_ID (cx_account cx)) (t_ID t) (scope_of cx (fst db)) (snd db) = Inl ErrNotFound"
    and "tx_parse_uuid T assertion = Some (a_ID a)"
    and "case tx_parse_uuid T path of None \<Rightarrow> True | Some tid \<Rightarrow> \<not> isl (GetTarget (acct_ID (cx_account cx)) tid (scope_of cx (fst db)) (snd db))"
  shows "fst (assertionDelete T cx path assertion db) = SeeOther (''/databases/'' @ path) \<and>
    a \<notin> set (db_assertions (snd (snd (assertionDelete T cx path assertion db))))"
proof -
  have "\<exists>x \<in> set (db_assertions (snd db)). a_ID x = a_ID a \<and> (\<exists>t \<in> set (db_targets (snd db)). a_TargetID x = t_ID t \<and> t_AccountID t = acct_ID (cx_account cx))"
    using assms(1-4) by blast
  then show ?thesis using assms(1-4,6,7)
    by (auto simp: assertionDelete_def Let_def DeleteAssertion_def sql_affected_def sql_delete_def filter_empty_conv split: option.splits)
qed

section \<open>Examples\<close>

definition demo_account :: Account where
  "demo_account = \<lparr>acct_ID = 1, acct_Name = [], acct_Slug = [], acct_StripeCustomerID = None, acct_Plan = PlanPro, acct_CreatedAt = 0,
     acct_TrialEndsAt = None, acct_SubscriptionStatus = None, acct_Unlimited = False\<rparr>"

definition demo_page :: page_ctx where
  "demo_page = bob_page\<lparr>cx_user := 1, cx_account := demo_account\<rparr>"

definition demo_env :: source_env where
  "demo_env = \<lparr>so_cwd = None, so_sourceDir = ''/'', so_stat = (\<lambda>_. None), so_readDir = (\<lambda>_. [])\<rparr>"

definition demo_key :: Key where
  "demo_key = \<lparr>ak_ID = 1, ak_AccountID = 1, ak_Name = [], ak_Prefix = [], ak_Scopes = [], ak_CreatedByUserID = 1, ak_CreatedAt = 0, ak_LastUsedAt = None, ak_RevokedAt = None, ak_Secret = []\<rparr>"

lemma demo_request_facts:
  "tx_parse_uuid plain_text ''i'' = Some 1" "GetTarget 1 1 ScopeAll (w_db demo_start) = Inr demo_target"
  "scope_of demo_page two_users = ScopeAll" "may_drill demo_env demo_account demo_target demo_start" "acct_ID demo_account = 1"
  "created_times demo_account demo_start = []"
proof -
  show "tx_parse_uuid plain_text ''i'' = Some 1" by (simp add: plain_text_def)
  show "GetTarget 1 1 ScopeAll (w_db demo_start) = Inr demo_target"
    by (simp add: GetTarget_def demo_start_def demo_target_def live_def team_visible_def teamArgs_def ScopeAll_def Target.defs)
  show "scope_of demo_page two_users = ScopeAll"
    unfolding scope_of_def demo_page_def bob_page_def databaseScopeCtx_def by (simp, code_simp)
  show "may_drill demo_env demo_account demo_target demo_start"
    by (simp add: may_drill_def within_quota_def demo_account_def demo_target_def demo_env_def enforceDumpSize_def canDrillReal_def IsPaid_def
        CountDrillsSince_def demo_start_def sql_affected_def LimitsFor_def Let_def PlanPro_def PlanScale_def PlanStarter_def)
qed (simp_all add: demo_account_def created_times_def demo_start_def)

lemma demo_new_drill:
  obtains db1 where "new_drill (demo_deps True) demo_uuid 1 1 1 ''k'' (w_fresh demo_start) db1 demo_start"
    "within_quota demo_account (demo_start\<lparr>w_db := db1\<rparr>)"
proof -
  let ?c = "CreateDrillIdempotent demo_uuid (w_fresh demo_start) (w_now demo_start) 1 1 1 ''k'' (w_db demo_start)"
  have c: "fst ?c = Inr (w_fresh demo_start, False)" "length (db_drills (snd ?c)) \<le> 1"
    by (simp_all add: CreateDrillIdempotent_def demo_start_def demo_target_def target_exists_def account_exists_def user_exists_def Let_def Target.defs)
  then have n: "new_drill (demo_deps True) demo_uuid 1 1 1 ''k'' (w_fresh demo_start) (snd ?c) demo_start"
    using demo_due_facts(2-4) by (simp add: new_drill_def prod_eq_iff)
  have "CountDrillsSince 1 since (snd ?c) \<le> 1" for since
    using c(2) unfolding CountDrillsSince_def sql_affected_def by (meson length_filter_le order_trans)
  from this [of "w_now demo_start - 24 * nsHour"]
  have "within_quota demo_account (demo_start\<lparr>w_db := snd ?c\<rparr>)"
    by (simp add: within_quota_def demo_account_def LimitsFor_def Let_def PlanPro_def PlanScale_def)
  with n that show ?thesis by blast
qed

theorem quota_window_witness:
  "\<exists>w. overlapping (demo_deps True) demo_account 1 w [] \<and> created_times demo_account w = [1000000] \<and>
     int (length (in_day 0 (created_times demo_account w))) \<le> 150"
proof -
  let ?w = "final (v1CreateDrill (demo_deps True) demo_uuid plain_text True demo_env demo_account demo_key ''k'' (Some ''i'') [] demo_start)"
  obtain db1 where n: "new_drill (demo_deps True) demo_uuid 1 1 1 ''k'' (w_fresh demo_start) db1 demo_start" by (rule demo_new_drill)
  obtain dr where dr: "db_drills db1 = [dr]" "d_AccountID dr = 1" "d_CreatedAt dr = 1000000"
    using n by (auto simp: new_drill_def CreateDrillIdempotent_def demo_start_def demo_target_def target_exists_def account_exists_def
        user_exists_def Let_def Target.defs)
  let ?w1 = "demo_start\<lparr>w_db := db1, w_fresh := w_fresh demo_start + 1\<rparr>"
  obtain r w2 where w2: "tryM (EnqueueDrill (demo_deps True) True (w_fresh demo_start) (drillInsertOpts (Some demo_account))) [] ?w1 = (Ret r, [], w2)"
    "db_drills (w_db w2) = db_drills (w_db ?w1)"
    by (rule enqueue_no_faults)
  have m: "canDrillReal (w_now demo_start) (Some demo_account)" "within_quota demo_account demo_start"
    "enforceDumpSize demo_env (t_SourceKind demo_target) (t_SourceURI demo_target) (Some demo_account)" "t_ID demo_target = 1" "ak_CreatedByUserID demo_key = 1"
    using demo_request_facts(4) by (auto simp: may_drill_def demo_target_def demo_key_def)
  have "db_drills (w_db ?w) = [dr]"
    using demo_request_facts m n w2 dr(1)
    by (auto simp: v1CreateDrill_def v1BlockFreeReal_def request_run new_drill_def final_def split: sum.splits)
  then have "created_times demo_account ?w = [1000000]" using dr by (simp add: created_times_def demo_request_facts(5))
  moreover have "overlapping (demo_deps True) demo_account 1 ?w []" by (intro over_v1CreateDrill over_none demo_request_facts) simp
  moreover have "\<not> acct_Unlimited demo_account" "DrillsPerDay (LimitsFor (acct_Plan demo_account)) = 150"
    by (simp_all add: demo_account_def LimitsFor_def Let_def PlanPro_def PlanScale_def)
  ultimately show ?thesis using quota_window [of "demo_deps True" demo_account 1 ?w "[]" 0] by force
qed

definition demo_form :: "string \<Rightarrow> string" where
  "demo_form n = (if n = ''target_id'' then ''i'' else ''k'')"

theorem web_drill_lost_witness:
  "\<exists>w1 w2. drillCreate (demo_deps True) demo_uuid plain_text True demo_env demo_page two_users (Some demo_form)
       [NoFault, NoFault, NoFault, FailBefore ''timeout''] demo_start = (Ret (HttpStatus 500), [], w1) \<and>
     drillCreate (demo_deps True) demo_uuid plain_text True demo_env demo_page two_users (Some demo_form) [] w1 =
       (Ret (SeeOther ''/drills/iiiiiiiiii''), [], w2) \<and> w_jobs w2 = w_jobs demo_start"
proof -
  obtain db1 where n: "new_drill (demo_deps True) demo_uuid 1 1 1 ''k'' (w_fresh demo_start) db1 demo_start"
    "within_quota demo_account (demo_start\<lparr>w_db := db1\<rparr>)" by (rule demo_new_drill)
  have f: "TrimSpace (demo_form ''idempotency_key'') = ''k''" "TrimSpace (demo_form ''target_id'') = ''i''"
    by (simp_all add: demo_form_def TrimSpace_printable printable_def)
  have c: "cx_account demo_page = demo_account" "cx_user demo_page = 1" "t_ID demo_target = 1" by (simp_all add: demo_page_def demo_target_def)
  have d: "tx_uuid plain_text (w_fresh demo_start) = ''iiiiiiiiii''" by (simp add: plain_text_def demo_start_def eval_nat_numeral)
  have t: "tx_parse_uuid plain_text (TrimSpace (demo_form ''target_id'')) = Some 1" using f(2) demo_request_facts(1) by simp
  show ?thesis
    using web_drill_lost [of demo_form "''k''" plain_text 1 demo_page two_users demo_start demo_target demo_env "demo_deps True" demo_uuid
        "w_fresh demo_start" db1 True "''timeout''"] f(1) t c d n demo_request_facts by auto
qed

theorem api_drill_retry_witness:
  "\<exists>w1 w2 dr. v1CreateDrill (demo_deps True) demo_uuid plain_text True demo_env demo_account demo_key ''k'' (Some ''i'')
       [NoFault, NoFault, NoFault, FailBefore ''timeout''] demo_start = (Ret (writeAPIError 500 ''internal''), [], w1) \<and>
     v1CreateDrill (demo_deps True) demo_uuid plain_text True demo_env demo_account demo_key ''k'' (Some ''i'') [] w1 =
       (Ret (writeData 201 (ApiDrill (toAPIDrill plain_text dr))), [], w2) \<and>
     map j_Args (w_jobs w2) = map j_Args (w_jobs demo_start) @ [ProvisionArgs (w_fresh demo_start)]"
proof -
  obtain db1 where n: "new_drill (demo_deps True) demo_uuid 1 1 1 ''k'' (w_fresh demo_start) db1 demo_start"
    "within_quota demo_account (demo_start\<lparr>w_db := db1\<rparr>)" by (rule demo_new_drill)
  have c: "ak_CreatedByUserID demo_key = 1" "t_ID demo_target = 1" by (simp_all add: demo_key_def demo_target_def)
  show ?thesis
    using api_drill_retry [of plain_text "''i''" 1 demo_account demo_start demo_target demo_env "demo_deps True" demo_uuid demo_key "''k''"
        "w_fresh demo_start" db1 True "''timeout''"] c n demo_request_facts by fastforce
qed

definition other_team_db :: drill_db where
  "other_team_db = (w_db demo_start)\<lparr>db_targets := [Target.extend (demo_target\<lparr>t_TeamID := Some 5\<rparr>) \<lparr>t_deleted_at = None\<rparr>]\<rparr>"

theorem assertion_other_team_witness:
  "demo_assertion \<notin> set (db_assertions (snd (snd (assertionDelete plain_text (demo_page\<lparr>cx_role := Some RoleMember\<rparr>) ''x'' ''i'' (two_users, other_team_db)))))"
proof -
  let ?cx = "demo_page\<lparr>cx_role := Some RoleMember\<rparr>"
  have sc: "scope_of ?cx two_users = \<lparr>sc_All = False, sc_TeamIDs = []\<rparr>"
    unfolding scope_of_def demo_page_def bob_page_def databaseScopeCtx_def by (simp, code_simp)
  have "t_ID demo_target = 1" "t_AccountID demo_target = 1" by (simp_all add: demo_target_def)
  then show ?thesis
    using assertion_other_team [of demo_assertion "(two_users, other_team_db)" "Target.extend (demo_target\<lparr>t_TeamID := Some 5\<rparr>) \<lparr>t_deleted_at = None\<rparr>"
        ?cx plain_text "''i''" "''x''"] sc
    by (simp add: other_team_db_def demo_start_def demo_assertion_def demo_page_def demo_account_def Target.defs GetTarget_def team_visible_def
        teamArgs_def plain_text_def)
qed

end
