(* ===== verification/Token_Web.thy ===== *)
theory Token_Web
  imports Api_V1 Sign_In_Limits
begin

section \<open>The handlers for API keys, share links and the mobile app\<close>

text \<open>
  \<open>internal/web/handlers/apikeys.go\<close>, \<open>share.go\<close> and \<open>mobile.go\<close> over the stores of \<open>Bearer_Tokens\<close>. A handler
  gives its reply and the new tables. What a page shows once, the secret of a new key or the token of a new link, is
  part of the reply. In the metadata of an event a list of scopes is written with commas; \<open>json_time\<close> prints an
  instant. The routes of \<open>/mobile\<close> that read drills, databases and heartbeats are the handlers of \<open>Api_V1\<close>.
\<close>

definition bd_audit :: "text_lib \<Rightarrow> gotime \<Rightarrow> audit_event \<Rightarrow> bearer_db \<Rightarrow> bearer_db" where
  "bd_audit T now e s = s\<lparr>bd_auth := (bd_auth s)\<lparr>au_acct := audit_db T now e (au_acct (bd_auth s))\<rparr>\<rparr>"

definition on_auth :: "(auth_db \<Rightarrow> 'a \<times> auth_db) \<Rightarrow> bearer_db \<Rightarrow> 'a \<times> bearer_db" where
  "on_auth f s = (case f (bd_auth s) of (x, a) \<Rightarrow> (x, s\<lparr>bd_auth := a\<rparr>))"

definition bd_scope :: "page_ctx \<Rightarrow> bearer_db \<Rightarrow> Scope" where
  "bd_scope cx s = scope_of cx (au_acct (bd_auth s))"

subsection \<open>API keys\<close>

definition apiKeyCreate ::
    "text_lib \<Rightarrow> uuid \<Rightarrow> bytes \<Rightarrow> page_ctx \<Rightarrow> (form \<times> string list) \<Rightarrow> bearer_db \<Rightarrow> (response \<times> string option) \<times> bearer_db" where
  "apiKeyCreate T newid rnd cx frm s =
     (let acct = cx_account cx;
          active = length (filter (\<lambda>k. ak_RevokedAt k = None) (apikey_List (acct_ID acct) s))
      in case enforceLimit active (APIKeys (EffectiveLimits acct)) of
           Some resp \<Rightarrow> ((resp, None), s)
         | None \<Rightarrow>
             (case frm of
                (None, _) \<Rightarrow> ((HttpStatus 400, None), s)
              | (Some f, scopes) \<Rightarrow>
                  (let name = TrimSpace (f ''name''); name = (if name = [] then ''API key'' else name) in
                   case apikey_Create T newid rnd (cx_now cx) (acct_ID acct) (cx_user cx) name scopes s of
                     (Inl _, s) \<Rightarrow> ((HttpStatus 500, None), s)
                   | (Inr k, s) \<Rightarrow>
                       ((HttpStatus 200, Some (ak_Secret k)),
                        bd_audit T (cx_now cx) ((page_event cx ''apikey.created'' ''api_key'' (tx_uuid T (ak_ID k)))
                          \<lparr>aud_Metadata := [(''name'', name), (''scopes'', concat (map (\<lambda>x. x @ '','') (ak_Scopes k)))]\<rparr>) s))))"

definition apiKeyRevoke :: "text_lib \<Rightarrow> page_ctx \<Rightarrow> string \<Rightarrow> bearer_db \<Rightarrow> response \<times> bearer_db" where
  "apiKeyRevoke T cx i s =
     (case tx_parse_uuid T i of
        None \<Rightarrow> (HttpStatus 400, s)
      | Some keyId \<Rightarrow>
          (case apikey_Revoke (cx_now cx) (acct_ID (cx_account cx)) keyId s of
             (Inl e, s) \<Rightarrow> (HttpStatus (if e = BearerNotFound then 404 else 500), s)
           | (Inr _, s) \<Rightarrow>
               (SeeOther ''/account/api-keys'',
                bd_audit T (cx_now cx) (page_event cx ''apikey.revoked'' ''api_key'' (tx_uuid T keyId)) s)))"

subsection \<open>Share links\<close>

fun ttl_loop :: "int \<Rightarrow> string \<Rightarrow> int option" where
  "ttl_loop n [] = Some n"
| "ttl_loop n (c # s) =
     (if \<not> is_dec c then None
      else (let n = n * 10 + (of_char c - 48) in ttl_loop (if n > 90 then 90 else n) s))"

definition parseTTLDays :: "string \<Rightarrow> duration option" where
  "parseTTLDays s = (case ttl_loop 0 s of None \<Rightarrow> None | Some n \<Rightarrow> Some ((if n < 1 then 1 else n) * 24 * nsHour))"

definition link_ttl :: "string \<Rightarrow> duration" where
  "link_ttl v = (if v \<noteq> [] then (case parseTTLDays v of None \<Rightarrow> share_DefaultTTL | Some d \<Rightarrow> d) else share_DefaultTTL)"

definition shareCreate ::
    "text_lib \<Rightarrow> (gotime \<Rightarrow> string) \<Rightarrow> uuid \<Rightarrow> bytes \<Rightarrow> page_ctx \<Rightarrow> string \<Rightarrow> form \<Rightarrow> bearer_db \<Rightarrow> (response \<times> Minted option) \<times> bearer_db" where
  "shareCreate T json_time newid rnd cx i frm s =
     (case frm of
        None \<Rightarrow> ((HttpStatus 400, None), s)
      | Some f \<Rightarrow>
          (case tx_parse_uuid T i of
             None \<Rightarrow> ((HttpStatus 400, None), s)
           | Some drillID \<Rightarrow>
               (case GetDrill (acct_ID (cx_account cx)) drillID (bd_scope cx s) (bd_drill s) of
                  Inl _ \<Rightarrow> ((HttpStatus 400, None), s)
                | Inr dr \<Rightarrow>
                    if d_Status dr \<noteq> StatusSucceeded then ((HttpStatus 400, None), s)
                    else
                      (let lbl = TrimSpace (f ''label'') in
                       case share_Create T newid rnd (cx_now cx) (d_ID dr) (acct_ID (cx_account cx)) (cx_user cx) lbl
                           (link_ttl (TrimSpace (f ''ttl_days''))) s of
                            (Inl _, s) \<Rightarrow> ((HttpStatus 500, None), s)
                          | (Inr m, s) \<Rightarrow>
                              ((HttpStatus 200, Some m),
                               bd_audit T (cx_now cx) ((page_event cx ''drill.share_created'' ''drill'' (tx_uuid T (d_ID dr)))
                                 \<lparr>aud_Metadata := [(''link_id'', tx_uuid T (ln_ID (mi_Link m))), (''label'', lbl),
                                    (''expires_at'', json_time (ln_ExpiresAt (mi_Link m)))]\<rparr>) s)))))"

definition shareRevoke :: "text_lib \<Rightarrow> page_ctx \<Rightarrow> string \<Rightarrow> string \<Rightarrow> bearer_db \<Rightarrow> response \<times> bearer_db" where
  "shareRevoke T cx i link_id s =
     (case tx_parse_uuid T link_id of
        None \<Rightarrow> (HttpStatus 400, s)
      | Some linkID \<Rightarrow>
          (case tx_parse_uuid T i of
             None \<Rightarrow> (HttpStatus 400, s)
           | Some drillID \<Rightarrow>
               if isl (GetDrill (acct_ID (cx_account cx)) drillID (bd_scope cx s) (bd_drill s)) then (HttpStatus 404, s)
               else
                 (SeeOther (''/drills/'' @ tx_uuid T drillID),
                  bd_audit T (cx_now cx) ((page_event cx ''drill.share_revoked'' ''drill'' (tx_uuid T drillID))
                    \<lparr>aud_Metadata := [(''link_id'', tx_uuid T linkID)]\<rparr>) (share_Revoke (cx_now cx) linkID s))))"

text \<open>
  The public pages. Resolving a token counts a view. The evidence lies in the estate of \<open>Evidence_Service\<close>; reading it
  does not change it, so that the pages give a procedure for that part. \<open>verify\<close> is \<open>None\<close> on a server without evidence.
\<close>

record share_view =
  sw_drill :: Drill
  sw_target :: Target
  sw_steps :: "Step list"
  sw_results :: "AssertionResult list"
  sw_verify :: VerifyResult
  sw_label :: string
  sw_expires :: gotime

definition sharePage ::
    "text_lib \<Rightarrow> 's Service option \<Rightarrow> gotime \<Rightarrow> string \<Rightarrow> bearer_db \<Rightarrow> ('s estate, nat + share_view) proc \<times> bearer_db" where
  "sharePage T S now token s =
     (case share_Resolve T now token s of
        (Inl e, s) \<Rightarrow> (ret (Inl (if e = BearerNotFound then 404 else 500)), s)
      | (Inr link, s) \<Rightarrow>
          (case GetDrill (ln_AccountID link) (ln_DrillID link) ScopeAll (bd_drill s) of
             Inl _ \<Rightarrow> (ret (Inl 404), s)
           | Inr dr \<Rightarrow>
               (case GetTarget (ln_AccountID link) (d_TargetID dr) ScopeAll (bd_drill s) of
                  Inl _ \<Rightarrow> (ret (Inl 500), s)
                | Inr target \<Rightarrow>
                    (bindM (case S of None \<Rightarrow> ret (Inr Evidence_Service.unsigned) | Some S \<Rightarrow> tryM (Verify_evidence S (d_ID dr) (ln_AccountID link) [])) (\<lambda>v.
                       ret (Inr \<lparr>sw_drill = dr, sw_target = target, sw_steps = ListSteps (d_ID dr) (bd_drill s),
                         sw_results = ListAssertions (d_ID dr) (bd_drill s),
                         sw_verify = (case v of Inl _ \<Rightarrow> Evidence_Service.unsigned | Inr r \<Rightarrow> r), sw_label = ln_Label link, sw_expires = ln_ExpiresAt link\<rparr>)), s))))"

definition shareDownload ::
    "text_lib \<Rightarrow> 's Service \<Rightarrow> gotime \<Rightarrow> string \<Rightarrow> bearer_db \<Rightarrow> ('s estate, nat + bytes) proc \<times> bearer_db" where
  "shareDownload T S now token s =
     (case share_Resolve T now token s of
        (Inl _, s) \<Rightarrow> (ret (Inl 404), s)
      | (Inr link, s) \<Rightarrow>
          (case GetDrill (ln_AccountID link) (ln_DrillID link) ScopeAll (bd_drill s) of
             Inl _ \<Rightarrow> (ret (Inl 404), s)
           | Inr dr \<Rightarrow>
               if d_EvidencePath dr = None \<or> d_EvidencePath dr = Some [] then (ret (Inl 404), s)
               else
                 (bindM (tryM (Read S (ln_AccountID link) (the (d_EvidencePath dr)))) (\<lambda>b.
                    case b of Inl _ \<Rightarrow> ret (Inl 500) | Inr body \<Rightarrow> ret (Inr body)), s)))"

subsection \<open>The mobile app\<close>

datatype mobile_body = MobileError string | MfaRequired string | MobileToken string gotime string string string | MobileRevoked

type_synonym mobile_reply = "nat \<times> mobile_body"

record mobileLoginReq =
  ml_Email :: string
  ml_Password :: string
  ml_DeviceName :: string

definition issueMobileToken ::
    "web_env \<Rightarrow> uuid \<Rightarrow> bytes \<Rightarrow> gotime \<Rightarrow> request \<Rightarrow> uuid \<Rightarrow> uuid \<Rightarrow> string \<Rightarrow> string \<Rightarrow> bearer_db \<Rightarrow> mobile_reply \<times> bearer_db" where
  "issueMobileToken W newid rnd now r userID accountID email deviceName s =
     (case mobile_Create (web_text W) newid rnd now userID accountID deviceName mobile_DefaultTTL s of
        (Inl _, s) \<Rightarrow> ((500, MobileError ''internal''), s)
      | (Inr tok, s) \<Rightarrow>
          ((200, MobileToken (mt_Secret tok) (mt_ExpiresAt tok) (tx_uuid (web_text W) accountID) (tx_uuid (web_text W) userID) email),
           bd_audit (web_text W) now (req_event r (Some accountID) (Some userID) ''mobile.login.succeeded'' [] [] []) s))"

definition mobileLogin ::
    "web_env \<Rightarrow> uuid \<Rightarrow> bytes \<Rightarrow> gotime \<Rightarrow> request \<Rightarrow> mobileLoginReq option \<Rightarrow> bearer_db \<Rightarrow> mobile_reply \<times> bearer_db" where
  "mobileLogin W newid rnd now r req s =
     (case req of
        None \<Rightarrow> ((400, MobileError ''bad_request''), s)
      | Some q \<Rightarrow>
          (let E = web_auth W; email = TrimSpace (tx_ToLower (web_text W) (ml_Email q)); clientIP = ClientIP r in
           if email = [] \<or> ml_Password q = [] then ((400, MobileError ''bad_request''), s)
           else if (case Check E now email (bd_auth s) of None \<Rightarrow> False | Some l \<Rightarrow> ls_Locked l) then ((429, MobileError ''too_many_requests''), s)
           else
             (case user_by_email E email (bd_auth s) of
                None \<Rightarrow> ((401, MobileError ''unauthorized''), snd (on_auth (throttle_Record E now email clientIP False) s))
              | Some u \<Rightarrow>
                  (case VerifyPassword (env_argon E) (ml_Password q) (u_PasswordHash u) of
                     PwPanic \<Rightarrow> ((500, MobileError ''internal''), s)
                   | PwOK \<Rightarrow>
                       (let s = snd (on_auth (throttle_Record E now email clientIP True) s);
                            acctID = pickDefaultAccount (u_ID u) (au_acct (bd_auth s))
                        in if acctID = 0 then ((403, MobileError ''no_account''), s)
                           else if u_MFAEnabled u then
                             (case CreateChallenge newid now (u_ID u) acctID (ml_DeviceName q) s of
                                (Inl _, s) \<Rightarrow> ((500, MobileError ''internal''), s)
                              | (Inr ch, s) \<Rightarrow> ((202, MfaRequired (tx_uuid (web_text W) ch)), s))
                           else issueMobileToken W newid rnd now r (u_ID u) acctID (u_Email u) (ml_DeviceName q) s)
                   | _ \<Rightarrow>
                       ((401, MobileError ''unauthorized''),
                        bd_audit (web_text W) now (req_event r None None ''mobile.login.failed'' [] (tx_uuid (web_text W) (u_ID u)) [])
                          (snd (on_auth (throttle_Record E now email clientIP False) s)))))))"

definition mobileMFAVerify ::
    "web_env \<Rightarrow> uuid \<Rightarrow> bytes \<Rightarrow> gotime \<Rightarrow> request \<Rightarrow> (string \<times> string) option \<Rightarrow> bearer_db \<Rightarrow> mobile_reply \<times> bearer_db" where
  "mobileMFAVerify W newid rnd now r req s =
     (case req of
        None \<Rightarrow> ((400, MobileError ''bad_request''), s)
      | Some (challenge, code) \<Rightarrow>
          (case tx_parse_uuid (web_text W) (TrimSpace challenge) of
             None \<Rightarrow> ((400, MobileError ''bad_request''), s)
           | Some chID \<Rightarrow>
               (let code = TrimSpace code in
                if code = [] then ((400, MobileError ''bad_request''), s)
                else
                  (case ConsumeChallenge now chID s of
                     (Inl _, s) \<Rightarrow> ((401, MobileError ''unauthorized''), s)
                   | (Inr ch, s) \<Rightarrow>
                       (case on_auth (second_factor_ok (web_auth W) now (ch_UserID ch) code) s of
                          (Inl _, s) \<Rightarrow> ((500, MobileError ''internal''), s)
                        | (Inr ok, s) \<Rightarrow>
                            if \<not> ok then ((401, MobileError ''unauthorized''), s)
                            else
                              (let email = (case sql_first (by_user (ch_UserID ch)) (au_users (bd_auth s)) of None \<Rightarrow> [] | Some u \<Rightarrow> u_Email u) in
                               issueMobileToken W newid rnd now r (ch_UserID ch) (ch_AccountID ch) email (ch_DeviceName ch) s))))))"

definition mobileLogout :: "gotime \<Rightarrow> Token option \<Rightarrow> bearer_db \<Rightarrow> mobile_reply \<times> bearer_db" where
  "mobileLogout now tok s =
     (case tok of
        None \<Rightarrow> ((401, MobileError ''unauthorized''), s)
      | Some t \<Rightarrow>
          (case mobile_Revoke now (mt_UserID t) (mt_ID t) s of
             (Inl _, s) \<Rightarrow> ((500, MobileError ''internal''), s)
           | (Inr _, s) \<Rightarrow> ((200, MobileRevoked), s)))"

definition mobileBearerAuth ::
    "web_env \<Rightarrow> gotime \<Rightarrow> string \<Rightarrow> bearer_db \<Rightarrow> (mobile_reply + Account \<times> User \<times> Token) \<times> bearer_db" where
  "mobileBearerAuth W now authorization s =
     (case bearerToken authorization of
        None \<Rightarrow> (Inl (401, MobileError ''unauthorized''), s)
      | Some raw \<Rightarrow>
          (case mobile_Authenticate (web_text W) now raw s of
             (Inl _, s) \<Rightarrow> (Inl (401, MobileError ''unauthorized''), s)
           | (Inr tok, s) \<Rightarrow>
               if isl (GetMembership (mt_AccountID tok) (mt_UserID tok) (au_acct (bd_auth s))) then (Inl (403, MobileError ''forbidden''), s)
               else
                 (case GetAccount (mt_AccountID tok) (au_acct (bd_auth s)) of
                    Inl _ \<Rightarrow> (Inl (401, MobileError ''unauthorized''), s)
                  | Inr acct \<Rightarrow>
                      (case loadUser (mt_UserID tok) (bd_auth s) of
                         Inl _ \<Rightarrow> (Inl (401, MobileError ''unauthorized''), s)
                       | Inr user \<Rightarrow> (Inr (acct, user, tok), s)))))"

section \<open>Share links\<close>

lemma ttl_loop_range: "ttl_loop n s = Some m \<Longrightarrow> 0 \<le> n \<Longrightarrow> n \<le> 90 \<Longrightarrow> 0 \<le> m \<and> m \<le> 90"
proof (induction n s rule: ttl_loop.induct)
  case (2 n c s)
  then have c: "is_dec c" by (auto split: if_splits)
  have "(of_char c :: int) = int (of_char c)" by (rule of_nat_of_char [symmetric])
  with c have "0 \<le> (of_char c - 48 :: int)" unfolding is_dec_def by linarith
  with 2 c show ?case by (auto simp: Let_def split: if_splits)
qed simp

lemma link_ttl_range: "24 * nsHour \<le> link_ttl v \<and> link_ttl v \<le> 90 * 24 * nsHour"
  using ttl_loop_range [of 0 v] by (auto simp: link_ttl_def parseTTLDays_def share_DefaultTTL_def split: option.splits)

lemma share_Create_new:
  assumes "share_Create T newid rnd now d acc u lbl ttl s = (Inr m, s')" and "0 < ttl"
  shows "ln_DrillID (mi_Link m) = d \<and> ln_AccountID (mi_Link m) = acc \<and> ln_ExpiresAt (mi_Link m) = now + ttl"
  using assms by (auto simp: share_Create_def Let_def split: if_splits)

text \<open>
  What a share link opens. A link is minted only for a drill of the member's own account that succeeded and that the member's
  teams let the member see, and it lives between one and ninety days. Nothing but that drill is reachable with the token.
\<close>

theorem share_minted:
  assumes "shareCreate T json_time newid rnd cx i frm s = ((resp, Some m), s')"
  shows "\<exists>dr. GetDrill (acct_ID (cx_account cx)) (ln_DrillID (mi_Link m)) (bd_scope cx s) (bd_drill s) = Inr dr \<and>
    d_Status dr = StatusSucceeded \<and> ln_AccountID (mi_Link m) = acct_ID (cx_account cx) \<and>
    cx_now cx + 24 * nsHour \<le> ln_ExpiresAt (mi_Link m) \<and> ln_ExpiresAt (mi_Link m) \<le> cx_now cx + 90 * 24 * nsHour"
proof -
  let ?a = "acct_ID (cx_account cx)"
  obtain f d dr s1 where dr: "GetDrill ?a d (bd_scope cx s) (bd_drill s) = Inr dr" "d_Status dr = StatusSucceeded"
    and m: "share_Create T newid rnd (cx_now cx) (d_ID dr) ?a (cx_user cx) (TrimSpace (f ''label'')) (link_ttl (TrimSpace (f ''ttl_days''))) s = (Inr m, s1)"
    using assms by (auto simp: shareCreate_def Let_def split: option.splits sum.splits if_splits prod.splits)
  have d: "d_ID dr = d" using dr(1) by (auto simp: GetDrill_def split: option.splits dest!: sql_first_Some)
  show ?thesis using share_Create_new [OF m] link_ttl_range [of "TrimSpace (f ''ttl_days'')"] dr d by auto
qed

text \<open>
  C38. Revoking the links of others. The handler looks up the drill in the path, but revokes the link by its identifier
  alone: a member of any account, with any drill of that account in the path, ends a link of another account.
\<close>

theorem share_revoke_any:
  assumes "tx_parse_uuid T link = Some (ln_ID l)" and "l \<in> set (bd_links s)" and "ln_AccountID l \<noteq> acct_ID (cx_account cx)"
    and "tx_parse_uuid T i = Some d" and "GetDrill (acct_ID (cx_account cx)) d (bd_scope cx s) (bd_drill s) = Inr dr"
    and "ln_RevokedAt l = None"
  shows "fst (shareRevoke T cx i link s) = SeeOther (''/drills/'' @ tx_uuid T d) \<and>
    (\<exists>l' \<in> set (bd_links (snd (shareRevoke T cx i link s))). ln_ID l' = ln_ID l \<and> ln_AccountID l' = ln_AccountID l \<and>
       ln_hash l' = ln_hash l \<and> ln_RevokedAt l' = Some (cx_now cx))"
proof -
  let ?l = "l\<lparr>ln_RevokedAt := Some (cx_now cx)\<rparr>"
  have "?l \<in> set (bd_links (share_Revoke (cx_now cx) (ln_ID l) s))"
    using assms(2,6) by (auto simp: share_Revoke_def sql_update_def image_iff)
  then show ?thesis using assms(1,4,5) by (intro conjI bexI [of _ ?l]) (auto simp: shareRevoke_def bd_audit_def)
qed

text \<open>
  The public page verifies the evidence under an empty path, so that with the evidence on disk it never
  shows a valid signature.
\<close>

theorem share_page_unverified:
  assumes "sv_store S = LocalStore dir" and "map_of (dk_files (es_store e)) [] = None"
    and "fst (sharePage T (Some S) now token s) [] e = (Ret (Inr v), fs, e')"
  shows "\<not> vr_Valid (sw_verify v)"
  using assms
  by (auto simp: sharePage_def Verify_evidence_def GetSignature_def bindM_def tryM_def ret_def call_ok LocalStore_def LocalStore_ReadAll_def
      Evidence_Service.unsigned_def Let_def split: sum.splits prod.splits option.splits outcome.splits)

section \<open>Signing in from the app\<close>

text \<open>
  Runs of the mobile endpoints, with everything else that happens to the tables of users, accounts and drills
  in between. The set \<open>P\<close> is not in the code: it collects the users whose password a login request brought, while the
  throttle let the request through.
\<close>

definition shows_password :: "web_env \<Rightarrow> gotime \<Rightarrow> mobileLoginReq option \<Rightarrow> bearer_db \<Rightarrow> user_row \<Rightarrow> bool" where
  "shows_password W now req s u \<longleftrightarrow>
     (\<exists>q. req = Some q \<and> user_by_email (web_auth W) (TrimSpace (tx_ToLower (web_text W) (ml_Email q))) (bd_auth s) = Some u \<and>
        \<not> (case Check (web_auth W) now (TrimSpace (tx_ToLower (web_text W) (ml_Email q))) (bd_auth s) of None \<Rightarrow> False | Some l \<Rightarrow> ls_Locked l) \<and>
        VerifyPassword (env_argon (web_auth W)) (ml_Password q) (u_PasswordHash u) = PwOK)"

datatype mobile_route = MobileLogin "mobileLoginReq option" | MobileMFA "(string \<times> string) option" | MobileLogout "Token option" | MobileAuth string

definition mobile_serve :: "web_env \<Rightarrow> uuid \<Rightarrow> bytes \<Rightarrow> gotime \<Rightarrow> request \<Rightarrow> mobile_route \<Rightarrow> bearer_db \<Rightarrow> bearer_db" where
  "mobile_serve W newid rnd now r rt s =
     (case rt of
        MobileLogin q \<Rightarrow> snd (mobileLogin W newid rnd now r q s)
      | MobileMFA q \<Rightarrow> snd (mobileMFAVerify W newid rnd now r q s)
      | MobileLogout t \<Rightarrow> snd (mobileLogout now t s)
      | MobileAuth h \<Rightarrow> snd (mobileBearerAuth W now h s))"

definition shown :: "web_env \<Rightarrow> gotime \<Rightarrow> mobile_route \<Rightarrow> bearer_db \<Rightarrow> uuid set" where
  "shown W now rt s = (case rt of MobileLogin q \<Rightarrow> {u_ID u | u. shows_password W now q s u} | _ \<Rightarrow> {})"

inductive mobile_run :: "web_env \<Rightarrow> uuid set \<Rightarrow> bearer_db \<Rightarrow> bool" for W where
  mobile_start: "bd_mobile s = [] \<Longrightarrow> bd_challenges s = [] \<Longrightarrow> mobile_run W {} s"
| mobile_request: "mobile_run W P s \<Longrightarrow> mobile_run W (P \<union> shown W now rt s) (mobile_serve W newid rnd now r rt s)"
| mobile_other: "mobile_run W P s \<Longrightarrow> mobile_run W P (s\<lparr>bd_auth := a, bd_drill := d, bd_keys := ks, bd_links := ls\<rparr>)"

lemma bd_audit_same [simp]: "bd_mobile (bd_audit T now e s) = bd_mobile s" "bd_challenges (bd_audit T now e s) = bd_challenges s"
  by (simp_all add: bd_audit_def)

lemma on_auth_same [simp]: "bd_mobile (snd (on_auth f s)) = bd_mobile s" "bd_challenges (snd (on_auth f s)) = bd_challenges s"
  by (simp_all add: on_auth_def split: prod.split)

text \<open>The rows a handler adds: none, or one of the given user.\<close>

definition adds_only :: "('r \<Rightarrow> bool) \<Rightarrow> 'r list \<Rightarrow> 'r list \<Rightarrow> bool" where
  "adds_only Q rs rs' \<longleftrightarrow> rs' = rs \<or> (\<exists>n. rs' = rs @ [n] \<and> Q n)"

lemma issue_adds:
  "adds_only (\<lambda>t. mt_UserID t = u \<and> mt_AccountID t = acc) (bd_mobile s) (bd_mobile (snd (issueMobileToken W newid rnd now r u acc email dev s)))"
  "bd_challenges (snd (issueMobileToken W newid rnd now r u acc email dev s)) = bd_challenges s"
  by (auto simp: issueMobileToken_def mobile_Create_def Let_def adds_only_def Token.defs mobile_row.defs)

lemma adds_none [simp]: "adds_only Q rs rs"
  by (simp add: adds_only_def)

lemma adds_weaken: "adds_only P rs rs' \<Longrightarrow> (\<And>n. P n \<Longrightarrow> Q n) \<Longrightarrow> adds_only Q rs rs'"
  unfolding adds_only_def by blast

lemma challenge_adds:
  "adds_only (\<lambda>c. ch_UserID c = u) (bd_challenges s) (bd_challenges (snd (CreateChallenge newid now u acc dev s)))"
  "bd_mobile (snd (CreateChallenge newid now u acc dev s)) = bd_mobile s"
  by (auto simp: CreateChallenge_def adds_only_def)

text \<open>What a login does after the password was right.\<close>

definition after_password ::
    "web_env \<Rightarrow> uuid \<Rightarrow> bytes \<Rightarrow> gotime \<Rightarrow> request \<Rightarrow> user_row \<Rightarrow> string \<Rightarrow> bearer_db \<Rightarrow> mobile_reply \<times> bearer_db" where
  "after_password W newid rnd now r u dev s =
     (let acctID = pickDefaultAccount (u_ID u) (au_acct (bd_auth s))
      in if acctID = 0 then ((403, MobileError ''no_account''), s)
         else if u_MFAEnabled u then
           (case CreateChallenge newid now (u_ID u) acctID dev s of
              (Inl _, s) \<Rightarrow> ((500, MobileError ''internal''), s)
            | (Inr ch, s) \<Rightarrow> ((202, MfaRequired (tx_uuid (web_text W) ch)), s))
         else issueMobileToken W newid rnd now r (u_ID u) acctID (u_Email u) dev s)"

lemma after_password_adds:
  "adds_only (\<lambda>t. mt_UserID t = u_ID u \<and> \<not> u_MFAEnabled u) (bd_mobile s) (bd_mobile (snd (after_password W newid rnd now r u dev s)))"
  "adds_only (\<lambda>c. ch_UserID c = u_ID u) (bd_challenges s) (bd_challenges (snd (after_password W newid rnd now r u dev s)))"
proof -
  let ?acc = "pickDefaultAccount (u_ID u) (au_acct (bd_auth s))"
  have m: "adds_only (\<lambda>t. mt_UserID t = u_ID u) (bd_mobile s) (bd_mobile (snd (issueMobileToken W newid rnd now r (u_ID u) ?acc (u_Email u) dev s)))"
    by (rule adds_weaken [OF issue_adds(1)]) simp
  show "adds_only (\<lambda>t. mt_UserID t = u_ID u \<and> \<not> u_MFAEnabled u) (bd_mobile s) (bd_mobile (snd (after_password W newid rnd now r u dev s)))"
    using m challenge_adds(2) [of newid now "u_ID u" ?acc dev s] by (auto simp: after_password_def Let_def split: prod.split sum.split)
  show "adds_only (\<lambda>c. ch_UserID c = u_ID u) (bd_challenges s) (bd_challenges (snd (after_password W newid rnd now r u dev s)))"
    using challenge_adds(1) [of "u_ID u" s newid now ?acc dev] issue_adds(2)
    by (auto simp: after_password_def Let_def split: prod.split sum.split)
qed

lemma mobileLogin_cases:
  obtains (refused) "bd_mobile (snd (mobileLogin W newid rnd now r q s)) = bd_mobile s" "bd_challenges (snd (mobileLogin W newid rnd now r q s)) = bd_challenges s"
  | (known) u dev s' where "shows_password W now q s u" "bd_mobile s' = bd_mobile s" "bd_challenges s' = bd_challenges s"
      "snd (mobileLogin W newid rnd now r q s) = snd (after_password W newid rnd now r u dev s')"
proof (cases "\<exists>u. shows_password W now q s u")
  case False
  then have "bd_mobile (snd (mobileLogin W newid rnd now r q s)) = bd_mobile s \<and> bd_challenges (snd (mobileLogin W newid rnd now r q s)) = bd_challenges s"
    unfolding mobileLogin_def Let_def shows_password_def by (auto split: option.split pw_result.split)
  then show thesis using refused by blast
next
  case True
  then obtain u p where u: "shows_password W now q s u" "q = Some p" by (auto simp: shows_password_def)
  let ?e = "TrimSpace (tx_ToLower (web_text W) (ml_Email p))"
  let ?s = "snd (on_auth (throttle_Record (web_auth W) now ?e (ClientIP r) True) s)"
  show thesis
  proof (cases "?e = [] \<or> ml_Password p = []")
    case True
    then show thesis using u refused by (simp add: mobileLogin_def Let_def)
  next
    case False
    with u have "snd (mobileLogin W newid rnd now r q s) = snd (after_password W newid rnd now r u (ml_DeviceName p) ?s)"
      unfolding mobileLogin_def Let_def shows_password_def after_password_def by auto
    from known [OF u(1) _ _ this] show thesis by simp
  qed
qed

lemma login_adds:
  "adds_only (\<lambda>t. \<exists>u. shows_password W now q s u \<and> mt_UserID t = u_ID u \<and> \<not> u_MFAEnabled u) (bd_mobile s) (bd_mobile (snd (mobileLogin W newid rnd now r q s)))"
  "adds_only (\<lambda>c. \<exists>u. shows_password W now q s u \<and> ch_UserID c = u_ID u) (bd_challenges s) (bd_challenges (snd (mobileLogin W newid rnd now r q s)))"
proof -
  show "adds_only (\<lambda>t. \<exists>u. shows_password W now q s u \<and> mt_UserID t = u_ID u \<and> \<not> u_MFAEnabled u) (bd_mobile s) (bd_mobile (snd (mobileLogin W newid rnd now r q s)))"
  proof (cases rule: mobileLogin_cases [of W newid rnd now r q s])
    case (known u dev s')
    then show ?thesis using after_password_adds(1) [of u s' W newid rnd now r dev] by (auto elim!: adds_weaken)
  qed simp
  show "adds_only (\<lambda>c. \<exists>u. shows_password W now q s u \<and> ch_UserID c = u_ID u) (bd_challenges s) (bd_challenges (snd (mobileLogin W newid rnd now r q s)))"
  proof (cases rule: mobileLogin_cases [of W newid rnd now r q s])
    case (known u dev s')
    then show ?thesis using after_password_adds(2) [of u s' W newid rnd now r dev] by (auto elim!: adds_weaken)
  qed simp
qed

definition accepted_code :: "web_env \<Rightarrow> gotime \<Rightarrow> mobile_route \<Rightarrow> challenge_row \<Rightarrow> bearer_db \<Rightarrow> bool" where
  "accepted_code W now rt c s \<longleftrightarrow> now \<le> ch_ExpiresAt c \<and>
     (\<exists>i code. rt = MobileMFA (Some (i, code)) \<and> tx_parse_uuid (web_text W) (TrimSpace i) = Some (ch_ID c) \<and> TrimSpace code \<noteq> [] \<and>
        fst (second_factor_ok (web_auth W) now (ch_UserID c) (TrimSpace code) (bd_auth s)) = Inr True)"

lemma mfa_adds:
  "adds_only (\<lambda>t. \<exists>c \<in> set (bd_challenges s). mt_UserID t = ch_UserID c \<and> accepted_code W now (MobileMFA q) c s)
    (bd_mobile s) (bd_mobile (snd (mobileMFAVerify W newid rnd now r q s)))"
  "set (bd_challenges (snd (mobileMFAVerify W newid rnd now r q s))) \<subseteq> set (bd_challenges s)"
proof -
  have "adds_only (\<lambda>t. \<exists>c \<in> set (bd_challenges s). mt_UserID t = ch_UserID c \<and> accepted_code W now (MobileMFA q) c s)
      (bd_mobile s) (bd_mobile (snd (mobileMFAVerify W newid rnd now r q s))) \<and>
    set (bd_challenges (snd (mobileMFAVerify W newid rnd now r q s))) \<subseteq> set (bd_challenges s)"
  proof (cases "\<exists>i code x c. q = Some (i, code) \<and> tx_parse_uuid (web_text W) (TrimSpace i) = Some x \<and> TrimSpace code \<noteq> [] \<and>
      sql_first (\<lambda>d. ch_ID d = x) (bd_challenges s) = Some c \<and> now \<le> ch_ExpiresAt c \<and>
      fst (second_factor_ok (web_auth W) now (ch_UserID c) (TrimSpace code) (bd_auth s)) = Inr True")
    case True
    then obtain i code x c where q: "q = Some (i, code)" "tx_parse_uuid (web_text W) (TrimSpace i) = Some x" "TrimSpace code \<noteq> []"
      "sql_first (\<lambda>d. ch_ID d = x) (bd_challenges s) = Some c" "now \<le> ch_ExpiresAt c"
      "fst (second_factor_ok (web_auth W) now (ch_UserID c) (TrimSpace code) (bd_auth s)) = Inr True" by blast
    obtain a where a: "second_factor_ok (web_auth W) now (ch_UserID c) (TrimSpace code) (bd_auth s) = (Inr True, a)" using q(6) by (metis fst_conv surj_pair)
    let ?s = "s\<lparr>bd_challenges := sql_delete (\<lambda>d. ch_ID d = x) (bd_challenges s), bd_auth := a\<rparr>"
    obtain email where e: "snd (mobileMFAVerify W newid rnd now r q s) =
        snd (issueMobileToken W newid rnd now r (ch_UserID c) (ch_AccountID c) email (ch_DeviceName c) ?s)"
      using q a by (simp add: mobileMFAVerify_def Let_def ConsumeChallenge_def on_auth_def Challenge.defs)
    have c: "c \<in> set (bd_challenges s)" "ch_ID c = x" using sql_first_Some [OF q(4)] by blast+
    have "accepted_code W now (MobileMFA q) c s" unfolding accepted_code_def using q c(2) by blast
    with c(1) have "adds_only (\<lambda>t. \<exists>c \<in> set (bd_challenges s). mt_UserID t = ch_UserID c \<and> accepted_code W now (MobileMFA q) c s) (bd_mobile ?s)
        (bd_mobile (snd (issueMobileToken W newid rnd now r (ch_UserID c) (ch_AccountID c) email (ch_DeviceName c) ?s)))"
      by (blast intro: adds_weaken [OF issue_adds(1)])
    then show ?thesis unfolding e by (auto simp: issue_adds(2) sql_delete_def)
  next
    case False
    then show ?thesis
      unfolding mobileMFAVerify_def Let_def ConsumeChallenge_def on_auth_def Challenge.defs
      by (auto simp: sql_delete_def not_less split: option.splits sum.splits prod.splits if_splits)
  qed
  then show "adds_only (\<lambda>t. \<exists>c \<in> set (bd_challenges s). mt_UserID t = ch_UserID c \<and> accepted_code W now (MobileMFA q) c s)
      (bd_mobile s) (bd_mobile (snd (mobileMFAVerify W newid rnd now r q s)))"
    "set (bd_challenges (snd (mobileMFAVerify W newid rnd now r q s))) \<subseteq> set (bd_challenges s)" by blast+
qed

definition token_ids :: "bearer_db \<Rightarrow> (uuid \<times> uuid) set" where
  "token_ids s = (\<lambda>t. (mt_ID t, mt_UserID t)) ` set (bd_mobile s)"

lemma token_ids_update:
  assumes "\<And>t. mt_ID (f t) = mt_ID t \<and> mt_UserID (f t) = mt_UserID t"
  shows "token_ids (s\<lparr>bd_mobile := sql_update P f (bd_mobile s)\<rparr>) = token_ids s"
proof -
  have "map (\<lambda>t. (mt_ID t, mt_UserID t)) (sql_update P f (bd_mobile s)) = map (\<lambda>t. (mt_ID t, mt_UserID t)) (bd_mobile s)"
    using assms by (simp add: sql_update_def)
  then show ?thesis unfolding token_ids_def by (simp flip: set_map)
qed

lemma bearer_auth_same:
  "token_ids (snd (mobileBearerAuth W now h s)) = token_ids s" "bd_challenges (snd (mobileBearerAuth W now h s)) = bd_challenges s"
proof -
  have m: "token_ids (snd (mobile_Authenticate T now raw s)) = token_ids s \<and> bd_challenges (snd (mobile_Authenticate T now raw s)) = bd_challenges s" for T raw
    by (auto simp: mobile_Authenticate_def token_ids_update split: option.split)
  have "snd (mobileBearerAuth W now h s) = s \<or> (\<exists>raw. snd (mobileBearerAuth W now h s) = snd (mobile_Authenticate (web_text W) now raw s))"
    by (auto simp: mobileBearerAuth_def split: option.split sum.split prod.split) (metis snd_conv)+
  with m show "token_ids (snd (mobileBearerAuth W now h s)) = token_ids s" "bd_challenges (snd (mobileBearerAuth W now h s)) = bd_challenges s"
    by metis+
qed

lemma logout_same:
  "token_ids (snd (mobileLogout now t s)) = token_ids s" "bd_challenges (snd (mobileLogout now t s)) = bd_challenges s"
  by (auto simp: mobileLogout_def mobile_Revoke_def Let_def token_ids_update split: option.split)

lemma mfa_consumes:
  assumes "accepted_code W now (MobileMFA q) c s"
  shows "ch_ID c \<notin> ch_ID ` set (bd_challenges (snd (mobileMFAVerify W newid rnd now r q s)))"
proof -
  from assms obtain i code where q: "q = Some (i, code)" "tx_parse_uuid (web_text W) (TrimSpace i) = Some (ch_ID c)" "TrimSpace code \<noteq> []"
    by (auto simp: accepted_code_def)
  have gone: "ch_ID c \<notin> ch_ID ` set (bd_challenges (snd (ConsumeChallenge now (ch_ID c) s)))"
    by (auto simp: ConsumeChallenge_def sql_delete_def sql_first_None split: option.split)
  obtain x s1 where s1: "ConsumeChallenge now (ch_ID c) s = (x, s1)" by fastforce
  have "bd_challenges (snd (mobileMFAVerify W newid rnd now r q s)) = bd_challenges s1"
    using q by (auto simp: mobileMFAVerify_def Let_def s1 on_auth_def issue_adds(2) split: sum.split prod.split)
  with gone s1 show ?thesis by simp
qed

text \<open>What a request adds to the tokens and to the challenges.\<close>

lemma serve_tokens:
  assumes "(i, j) \<in> token_ids (mobile_serve W newid rnd now r rt s)" "(i, j) \<notin> token_ids s"
  shows "(\<exists>q u. rt = MobileLogin q \<and> shows_password W now q s u \<and> u_ID u = j \<and> \<not> u_MFAEnabled u) \<or>
    (\<exists>c \<in> set (bd_challenges s). ch_UserID c = j \<and> accepted_code W now rt c s)"
proof (cases rt)
  case (MobileLogin q)
  with assms login_adds(1) [of W now q s newid rnd r] show ?thesis
    by (fastforce simp: mobile_serve_def token_ids_def adds_only_def)
next
  case (MobileMFA q)
  with assms mfa_adds(1) [of s W now q newid rnd r] show ?thesis
    by (fastforce simp: mobile_serve_def token_ids_def adds_only_def)
qed (use assms in \<open>simp_all add: mobile_serve_def logout_same bearer_auth_same\<close>)

lemma serve_challenges:
  "ch_UserID ` set (bd_challenges (mobile_serve W newid rnd now r rt s)) \<subseteq> ch_UserID ` set (bd_challenges s) \<union> shown W now rt s"
proof (cases rt)
  case (MobileLogin q)
  with login_adds(2) [of W now q s newid rnd r] show ?thesis
    by (fastforce simp: mobile_serve_def shown_def adds_only_def)
next
  case (MobileMFA q)
  with mfa_adds(2) [of W newid rnd now r q s] show ?thesis by (auto simp: mobile_serve_def)
qed (simp_all add: mobile_serve_def logout_same bearer_auth_same)

lemma challenges_shown: "mobile_run W P s \<Longrightarrow> ch_UserID ` set (bd_challenges s) \<subseteq> P"
proof (induction rule: mobile_run.induct)
  case (mobile_request P s now rt newid rnd r)
  then show ?case using serve_challenges [of W newid rnd now r rt s] by blast
qed auto

text \<open>
  C7. Signing in from the app. In every run of the mobile endpoints, a token that exists after a request and not before
  belongs to a user whose password some login request brought while the throttle let it through; and either this very
  request was that login and the user has no second factor, or it redeemed an unexpired challenge of that user with
  a code that the second factor accepted. A challenge is redeemed at most once: whatever the code, it is gone afterwards.
\<close>

theorem mobile_second_factor:
  assumes "mobile_run W P s" and "(i, j) \<in> token_ids (mobile_serve W newid rnd now r rt s)" and "(i, j) \<notin> token_ids s"
  shows "j \<in> P \<union> shown W now rt s \<and>
    ((\<exists>q u. rt = MobileLogin q \<and> shows_password W now q s u \<and> u_ID u = j \<and> \<not> u_MFAEnabled u) \<or>
     (\<exists>c \<in> set (bd_challenges s). ch_UserID c = j \<and> accepted_code W now rt c s \<and>
        ch_ID c \<notin> ch_ID ` set (bd_challenges (mobile_serve W newid rnd now r rt s))))"
proof -
  from serve_tokens [OF assms(2,3)] show ?thesis
  proof
    assume "\<exists>q u. rt = MobileLogin q \<and> shows_password W now q s u \<and> u_ID u = j \<and> \<not> u_MFAEnabled u"
    then show ?thesis by (auto simp: shown_def)
  next
    assume "\<exists>c \<in> set (bd_challenges s). ch_UserID c = j \<and> accepted_code W now rt c s"
    then obtain c where c: "c \<in> set (bd_challenges s)" "ch_UserID c = j" "accepted_code W now rt c s" by blast
    then obtain q where "rt = MobileMFA q" by (auto simp: accepted_code_def)
    with c mfa_consumes [of W now q c s newid rnd r] challenges_shown [OF assms(1)] show ?thesis
      by (auto simp: mobile_serve_def)
  qed
qed

section \<open>Examples\<close>

definition mo :: user_row where
  "mo = jo\<lparr>u_PasswordHash := HashPassword toy_argon ''salt'' ''x''\<rparr>"

definition mo_db :: bearer_db where
  "mo_db = bearer_demo\<lparr>bd_auth := (bd_auth bearer_demo)\<lparr>au_acct := two_users\<lparr>ad_users := [mo],
     ad_accounts := [Account.extend (cx_account bob_page) \<lparr>acct_deleted_at = None, acct_SubscriptionID = None, acct_StatusUpdatedAt = None\<rparr>], ad_members := [owner_row 7 1 0]\<rparr>\<rparr>\<rparr>"

definition mo_login :: "mobileLoginReq option" where
  "mo_login = Some \<lparr>ml_Email = ''jo@x'', ml_Password = ''x'', ml_DeviceName = ''d''\<rparr>"

lemma mo_password: "VerifyPassword toy_argon ''x'' (HashPassword toy_argon ''salt'' ''x'') = PwOK"
  by (simp add: verify_hashed toy_argon_def argonKeyLen_def)

lemma mo_facts:
  "TrimSpace ''jo@x'' = ''jo@x''" "pg_text_ok ''jo@x''" "pg_text_ok ''d''"
  "Check toy_env 5 ''jo@x'' (bd_auth mo_db) = Some \<lparr>ls_Locked = False, ls_RetryAfter = 0\<rparr>"
  "user_by_email toy_env ''jo@x'' (bd_auth mo_db) = Some mo"
  "bd_mobile mo_db = []" "bd_challenges mo_db = []"
proof -
  show t: "TrimSpace ''jo@x'' = ''jo@x''" by (simp add: TrimSpace_printable printable_def)
  show p: "pg_text_ok ''jo@x''" "pg_text_ok ''d''" by code_simp+
  show "Check toy_env 5 ''jo@x'' (bd_auth mo_db) = Some \<lparr>ls_Locked = False, ls_RetryAfter = 0\<rparr>"
    using p by (simp add: Check_def throttle_fails_def throttle_since_def mo_db_def bearer_demo_def toy_env_def)
  show "user_by_email toy_env ''jo@x'' (bd_auth mo_db) = Some mo"
    using p by (simp add: user_by_email_def mo_db_def mo_def jo_def same_email_def toy_env_def plain_text_def)
qed (simp_all add: mo_db_def bearer_demo_def)

theorem mobile_second_factor_witness:
  "(12, 1) \<in> token_ids (mobile_serve toy_web 12 ''r'' 5 toy_request (MobileLogin mo_login) mo_db) \<and>
   1 \<in> shown toy_web 5 (MobileLogin mo_login) mo_db"
proof -
  let ?s1 = "snd (on_auth (throttle_Record toy_env 5 ''jo@x'' (ClientIP toy_request) True) mo_db)"
  have s1: "au_acct (bd_auth ?s1) = au_acct (bd_auth mo_db)" "bd_mobile ?s1 = []" "bd_challenges ?s1 = []"
    by (simp_all add: on_auth_def throttle_Record_def mo_facts split: prod.split option.split)
  have acct: "pickDefaultAccount 1 (au_acct (bd_auth mo_db)) = 7"
    by (simp add: pickDefaultAccount_def ListAccountsForUser_def mo_db_def owner_row_def bob_page_def Account.defs)
  have ex: "bd_account_exists 7 ?s1" "bd_user_exists 1 ?s1"
    unfolding bd_account_exists_def bd_user_exists_def s1(1)
    by (simp_all add: mo_db_def ad_account_exists_def ad_user_exists_def mo_def jo_def bob_page_def Account.defs)
  have lib: "tx_ToLower (env_text toy_env) x = x" "env_argon toy_env = toy_argon" for x by (simp_all add: toy_env_def plain_text_def)
  have "(12, 1) \<in> token_ids (mobile_serve toy_web 12 ''r'' 5 toy_request (MobileLogin mo_login) mo_db)"
    using acct ex s1 unfolding mobile_serve_def mobile_route.case mo_login_def
    by (simp add: mobileLogin_def Let_def lib mo_facts mo_password mo_def jo_def issueMobileToken_def mobile_Create_def token_ids_def mobile_row.defs Token.defs)
  moreover have "mobile_run toy_web {} mo_db" by (rule mobile_start) (simp_all add: mo_facts)
  moreover have "(12, 1) \<notin> token_ids mo_db" by (simp add: token_ids_def mo_facts)
  ultimately show ?thesis
    using mobile_second_factor [of toy_web "{}" mo_db 12 1 12 "''r''" 5 toy_request "MobileLogin mo_login"] by simp
qed

definition foreign_link :: link_row where
  "foreign_link = \<lparr>ln_ID = 2, ln_DrillID = 50, ln_AccountID = 99, ln_CreatedByID = 8, ln_TokenPrefix = [], ln_Label = [], ln_ExpiresAt = 1000,
     ln_RevokedAt = None, ln_LastViewedAt = None, ln_ViewCount = 0, ln_CreatedAt = 0, ln_hash = ''h''\<rparr>"

definition revoking_page :: page_ctx where
  "revoking_page = bob_page\<lparr>cx_account := (cx_account bob_page)\<lparr>acct_ID := 1\<rparr>\<rparr>"

theorem share_revoke_any_witness:
  "\<exists>l \<in> set (bd_links (snd (shareRevoke plain_text revoking_page ''iiiiiii'' ''ii'' (bearer_demo\<lparr>bd_links := [foreign_link]\<rparr>)))).
     ln_AccountID l = 99 \<and> ln_RevokedAt l = Some 9"
proof -
  let ?s = "bearer_demo\<lparr>bd_links := [foreign_link]\<rparr>"
  have cx: "acct_ID (cx_account revoking_page) = 1" "cx_now revoking_page = 9" by (simp_all add: revoking_page_def bob_page_def)
  have all: "bd_scope revoking_page ?s = ScopeAll"
    unfolding bd_scope_def scope_of_def revoking_page_def bob_page_def databaseScopeCtx_def by (simp, code_simp)
  obtain dr where "GetDrill 1 7 ScopeAll (bd_drill ?s) = Inr dr"
    by (simp add: bearer_demo_def CreateDrillIdempotent_def sample_db_def target_exists_def sample_target_def account_exists_def
        sample_account_row_def user_exists_def Let_def GetDrill_def drill_visible_def teamArgs_def ScopeAll_def)
  then have "GetDrill (acct_ID (cx_account revoking_page)) 7 (bd_scope revoking_page ?s) (bd_drill ?s) = Inr dr" by (simp add: cx all)
  from share_revoke_any [OF _ _ _ _ this, of plain_text "''ii''" foreign_link "''iiiiiii''"] show ?thesis
    by (auto simp: plain_text_def foreign_link_def cx)
qed

end
