(* ===== verification/Dial_Guard.thy ===== *)
theory Dial_Guard
  imports Prelude "HOL-Library.Word"
begin

unbundle bit_operations_syntax

section \<open>The guard of outgoing connections\<close>

text \<open>
  \<open>deliveryTransport\<close> and \<open>isPublicIP\<close> of \<open>internal/webhooks/worker.go\<close>, with the classification of addresses of the
  package \<open>net\<close> they use. An address is a list of bytes, of length 4 or 16; \<open>To4\<close> reads a mapped
  address as the four bytes it carries. Splitting and parsing the dialled address are arguments.
\<close>

type_synonym byte = "8 word"

definition To4 :: "byte list \<Rightarrow> byte list option" where
  "To4 ip =
     (if length ip = 4 then Some ip
      else if length ip = 16 \<and> take 10 ip = replicate 10 0 \<and> ip ! 10 = 0xff \<and> ip ! 11 = 0xff then Some (drop 12 ip)
      else None)"

definition v6_loopback :: "byte list" where
  "v6_loopback = replicate 15 0 @ [1]"

definition IsUnspecified :: "byte list \<Rightarrow> bool" where
  "IsUnspecified ip = (case To4 ip of Some ip4 \<Rightarrow> ip4 = [0, 0, 0, 0] | None \<Rightarrow> ip = replicate 16 0)"

definition IsLoopback :: "byte list \<Rightarrow> bool" where
  "IsLoopback ip = (case To4 ip of Some ip4 \<Rightarrow> ip4 ! 0 = 127 | None \<Rightarrow> ip = v6_loopback)"

definition IsPrivate :: "byte list \<Rightarrow> bool" where
  "IsPrivate ip =
     (case To4 ip of
        Some ip4 \<Rightarrow> ip4 ! 0 = 10 \<or> (ip4 ! 0 = 172 \<and> ip4 ! 1 AND 0xf0 = 16) \<or> (ip4 ! 0 = 192 \<and> ip4 ! 1 = 168)
      | None \<Rightarrow> length ip = 16 \<and> ip ! 0 AND 0xfe = 0xfc)"

definition IsMulticast :: "byte list \<Rightarrow> bool" where
  "IsMulticast ip = (case To4 ip of Some ip4 \<Rightarrow> ip4 ! 0 AND 0xf0 = 0xe0 | None \<Rightarrow> length ip = 16 \<and> ip ! 0 = 0xff)"

definition IsLinkLocalMulticast :: "byte list \<Rightarrow> bool" where
  "IsLinkLocalMulticast ip =
     (case To4 ip of Some ip4 \<Rightarrow> ip4 ! 0 = 224 \<and> ip4 ! 1 = 0 \<and> ip4 ! 2 = 0
      | None \<Rightarrow> length ip = 16 \<and> ip ! 0 = 0xff \<and> ip ! 1 AND 0x0f = 0x02)"

definition IsLinkLocalUnicast :: "byte list \<Rightarrow> bool" where
  "IsLinkLocalUnicast ip =
     (case To4 ip of Some ip4 \<Rightarrow> ip4 ! 0 = 169 \<and> ip4 ! 1 = 254
      | None \<Rightarrow> length ip = 16 \<and> ip ! 0 = 0xfe \<and> ip ! 1 AND 0xc0 = 0x80)"

definition isPublicIP :: "byte list \<Rightarrow> bool" where
  "isPublicIP ip =
     (if IsLoopback ip \<or> IsPrivate ip \<or> IsUnspecified ip \<or> IsLinkLocalUnicast ip \<or> IsLinkLocalMulticast ip \<or> IsMulticast ip then False else True)"

text \<open>The check before a connection: without the guard there is none.\<close>

definition dial_Control :: "bool \<Rightarrow> (string \<Rightarrow> (string \<times> string) option) \<Rightarrow> (string \<Rightarrow> byte list option) \<Rightarrow> string \<Rightarrow> bool" where
  "dial_Control blockPrivate SplitHostPort ParseIP address =
     (if \<not> blockPrivate then True
      else
        (case SplitHostPort address of
           None \<Rightarrow> False
         | Some (host, _) \<Rightarrow> (case ParseIP host of None \<Rightarrow> False | Some ip \<Rightarrow> isPublicIP ip)))"

subsection \<open>The refused networks\<close>

text \<open>A network is its first address, as a number, with the length of its prefix.\<close>

definition ip_number :: "byte list \<Rightarrow> nat" where
  "ip_number ip = foldl (\<lambda>n b. n * 256 + unat b) 0 ip"

definition in_net :: "nat \<Rightarrow> nat \<Rightarrow> byte list \<times> nat \<Rightarrow> bool" where
  "in_net bits v net = (v div 2 ^ (bits - snd net) = ip_number (fst net) div 2 ^ (bits - snd net))"

definition refused_v4 :: "(byte list \<times> nat) list" where
  "refused_v4 = [([0, 0, 0, 0], 32), ([10, 0, 0, 0], 8), ([127, 0, 0, 0], 8), ([169, 254, 0, 0], 16), ([172, 16, 0, 0], 12), ([192, 168, 0, 0], 16), ([224, 0, 0, 0], 4)]"

definition refused_v6 :: "(byte list \<times> nat) list" where
  "refused_v6 = [(replicate 16 0, 128), (v6_loopback, 128), (0xfc # replicate 15 0, 7), (0xfe # 0x80 # replicate 14 0, 10), (0xff # replicate 15 0, 8)]"

lemma byte_all:
  assumes "\<forall>n \<in> set [0..<256]. P (word_of_nat n :: 8 word)"
  shows "P b"
proof (cases b rule: word_nat_cases)
  case (1 n)
  with assms show ?thesis by simp
qed

lemma high_nibble: "b AND 0xf0 = 16 \<longleftrightarrow> unat b div 16 = 1" "b AND 0xf0 = 0xe0 \<longleftrightarrow> unat b div 16 = 14" for b :: "8 word"
  by (rule byte_all, code_simp)+

lemma v4_prefixes:
  fixes a b c d :: byte
  defines "v \<equiv> ip_number [a, b, c, d]"
  shows "v div 2 ^ 16 = unat a * 256 + unat b" "v div 2 ^ 20 = unat a * 16 + unat b div 16" "v div 2 ^ 24 = unat a" "v div 2 ^ 28 = unat a div 16"
    "v = 0 \<longleftrightarrow> unat a = 0 \<and> unat b = 0 \<and> unat c = 0 \<and> unat d = 0"
proof -
  have byte: "unat x < 256" for x :: byte using unsigned_less [of x] by simp
  have v: "v = ((unat a * 256 + unat b) * 256 + unat c) * 256 + unat d" by (simp add: v_def ip_number_def)
  have step: "(n * 256 + unat x) div 256 = n" for n and x :: byte using byte [of x] by simp
  have "v div 2 ^ 16 = v div 256 div 256" by (simp add: div_mult2_eq [symmetric])
  then show p16: "v div 2 ^ 16 = unat a * 256 + unat b" unfolding v step by simp
  have "v div 2 ^ 20 = v div 2 ^ 16 div 16" by (simp add: div_mult2_eq [symmetric])
  then show "v div 2 ^ 20 = unat a * 16 + unat b div 16" unfolding p16 by simp
  have "v div 2 ^ 24 = v div 2 ^ 16 div 256" by (simp add: div_mult2_eq [symmetric])
  then show p24: "v div 2 ^ 24 = unat a" unfolding p16 step .
  have "v div 2 ^ 28 = v div 2 ^ 24 div 16" by (simp add: div_mult2_eq [symmetric])
  then show "v div 2 ^ 28 = unat a div 16" unfolding p24 .
  show "v = 0 \<longleftrightarrow> unat a = 0 \<and> unat b = 0 \<and> unat c = 0 \<and> unat d = 0" by (auto simp: v)
qed

lemma digits_eq:
  fixes n m r q k :: nat
  assumes "r < k" "q < k"
  shows "n * k + r = m * k + q \<longleftrightarrow> n = m \<and> r = q"
proof
  assume e: "n * k + r = m * k + q"
  have "n = (n * k + r) div k" "m = (m * k + q) div k" "r = (n * k + r) mod k" "q = (m * k + q) mod k" using assms by simp_all
  with e show "n = m \<and> r = q" by metis
qed simp

lemma public_v4:
  "isPublicIP [a, b, c, d] \<longleftrightarrow> \<not> (\<exists>net \<in> set refused_v4. in_net 32 (ip_number [a, b, c, d]) net)"
proof -
  note v = v4_prefixes [of a b c d]
  have nets: "in_net 32 (ip_number [a, b, c, d]) ([0, 0, 0, 0], 32) \<longleftrightarrow> a = 0 \<and> b = 0 \<and> c = 0 \<and> d = 0"
    "in_net 32 (ip_number [a, b, c, d]) ([x, 0, 0, 0], 8) \<longleftrightarrow> a = x"
    "in_net 32 (ip_number [a, b, c, d]) ([x, y, 0, 0], 16) \<longleftrightarrow> a = x \<and> b = y"
    "in_net 32 (ip_number [a, b, c, d]) ([x, 16, 0, 0], 12) \<longleftrightarrow> a = x \<and> b AND 0xf0 = 16"
    "in_net 32 (ip_number [a, b, c, d]) ([224, 0, 0, 0], 4) \<longleftrightarrow> a AND 0xf0 = 0xe0" for x y :: byte
  proof -
    have byte: "unat z < 256" for z :: byte using unsigned_less [of z] by simp
    have pair: "unat a * 256 + unat b = unat x * 256 + unat y \<longleftrightarrow> a = x \<and> b = y" for x y
      using digits_eq [OF byte byte] by (simp add: word_unat_eq_iff)
    have nib: "unat a * 16 + unat b div 16 = unat x * 16 + 1 \<longleftrightarrow> a = x \<and> unat b div 16 = 1" for x
      using digits_eq [of "unat b div 16" 16 1] byte [of b] by (simp add: word_unat_eq_iff)
    show "in_net 32 (ip_number [a, b, c, d]) ([0, 0, 0, 0], 32) \<longleftrightarrow> a = 0 \<and> b = 0 \<and> c = 0 \<and> d = 0"
      using v(5) by (simp add: in_net_def unat_eq_zero) (simp add: ip_number_def)
    show "in_net 32 (ip_number [a, b, c, d]) ([x, 0, 0, 0], 8) \<longleftrightarrow> a = x"
      using v(3) v4_prefixes(3) [of x 0 0 0] by (simp add: in_net_def word_unat_eq_iff)
    show "in_net 32 (ip_number [a, b, c, d]) ([x, y, 0, 0], 16) \<longleftrightarrow> a = x \<and> b = y"
      using v(1) v4_prefixes(1) [of x y 0 0] pair by (simp add: in_net_def)
    show "in_net 32 (ip_number [a, b, c, d]) ([x, 16, 0, 0], 12) \<longleftrightarrow> a = x \<and> b AND 0xf0 = 16"
      using v(2) v4_prefixes(2) [of x 16 0 0] nib by (simp add: in_net_def high_nibble)
    show "in_net 32 (ip_number [a, b, c, d]) ([224, 0, 0, 0], 4) \<longleftrightarrow> a AND 0xf0 = 0xe0"
      using v(4) v4_prefixes(4) [of 224 0 0 0] by (simp add: in_net_def high_nibble)
  qed
  show ?thesis
    by (auto simp: refused_v4_def nets isPublicIP_def IsLoopback_def IsPrivate_def IsUnspecified_def IsLinkLocalUnicast_def IsLinkLocalMulticast_def IsMulticast_def To4_def)
qed

lemma low_masks: "b AND 0xfe = 0xfc \<longleftrightarrow> unat b div 2 = 126" "b AND 0xc0 = 0x80 \<longleftrightarrow> unat b div 64 = 2" for b :: "8 word"
  by (rule byte_all, code_simp)+

lemma ip_number_Nil [simp]: "ip_number [] = 0"
  by (simp add: ip_number_def)

lemma ip_number_snoc: "ip_number (xs @ [b]) = ip_number xs * 256 + unat b"
  by (simp add: ip_number_def)

lemma byte_less: "unat b < 256" for b :: byte
  using unsigned_less [of b] by simp

lemma ip_number_prefix: "ip_number (xs @ ys) div 256 ^ length ys = ip_number xs"
proof (induction ys rule: rev_induct)
  case (snoc y ys)
  have "ip_number (xs @ ys @ [y]) div 256 ^ length (ys @ [y]) = ip_number ((xs @ ys) @ [y]) div 256 div 256 ^ length ys"
    by (simp add: div_mult2_eq)
  also have "\<dots> = ip_number (xs @ ys) div 256 ^ length ys"
    unfolding ip_number_snoc using byte_less [of y] by simp
  finally show ?case using snoc.IH by simp
qed simp

lemma ip_number_inj: "length xs = length ys \<Longrightarrow> ip_number xs = ip_number ys \<longleftrightarrow> xs = ys"
proof (induction xs arbitrary: ys rule: rev_induct)
  case (snoc x xs)
  then obtain zs z where "ys = zs @ [z]" "length xs = length zs" by (cases ys rule: rev_cases) auto
  with snoc.IH [of zs] show ?case by (simp add: ip_number_snoc digits_eq byte_less word_unat_eq_iff)
qed simp

lemma v6_prefixes:
  assumes "length ip = 16"
  shows "ip_number ip div 2 ^ 120 = unat (ip ! 0)" "ip_number ip div 2 ^ 121 = unat (ip ! 0) div 2"
    "ip_number ip div 2 ^ 118 = unat (ip ! 0) * 4 + unat (ip ! 1) div 64"
proof -
  obtain a b xs where ip: "ip = a # b # xs" "length xs = 14"
    using assms by (cases ip; cases "tl ip") auto
  have a: "ip_number ip div 256 ^ 15 = unat a" using ip_number_prefix [of "[a]" "b # xs"] ip by (simp add: ip_number_def)
  then show p: "ip_number ip div 2 ^ 120 = unat (ip ! 0)" using ip by simp
  have "ip_number ip div 2 ^ 121 = ip_number ip div 2 ^ 120 div 2" by (simp add: div_mult2_eq [symmetric])
  then show "ip_number ip div 2 ^ 121 = unat (ip ! 0) div 2" unfolding p .
  have "ip_number ip div 2 ^ 118 = ip_number ip div 256 ^ 14 div 64" by (simp add: div_mult2_eq [symmetric])
  also have "\<dots> = (unat a * 256 + unat b) div 64" using ip_number_prefix [of "[a, b]" xs] ip by (simp add: ip_number_def)
  also have "\<dots> = unat a * 4 + unat b div 64" by simp
  finally show "ip_number ip div 2 ^ 118 = unat (ip ! 0) * 4 + unat (ip ! 1) div 64" using ip by simp
qed

lemma public_v6:
  assumes "length ip = 16" "To4 ip = None"
  shows "isPublicIP ip \<longleftrightarrow> \<not> (\<exists>net \<in> set refused_v6. in_net 128 (ip_number ip) net)"
proof -
  note v = v6_prefixes [OF assms(1)]
  have "in_net 128 (ip_number ip) (replicate 16 0, 128) \<longleftrightarrow> ip = replicate 16 0" "in_net 128 (ip_number ip) (v6_loopback, 128) \<longleftrightarrow> ip = v6_loopback"
    using assms(1) by (simp_all add: in_net_def ip_number_inj v6_loopback_def)
  moreover have "in_net 128 (ip_number ip) (0xfc # replicate 15 0, 7) \<longleftrightarrow> ip ! 0 AND 0xfe = 0xfc"
    using v(2) v6_prefixes(2) [of "0xfc # replicate 15 0"] by (simp add: in_net_def low_masks)
  moreover have "in_net 128 (ip_number ip) (0xff # replicate 15 0, 8) \<longleftrightarrow> ip ! 0 = 0xff"
    using v(1) v6_prefixes(1) [of "0xff # replicate 15 0"] by (simp add: in_net_def word_unat_eq_iff)
  moreover have "in_net 128 (ip_number ip) (0xfe # 0x80 # replicate 14 0, 10) \<longleftrightarrow> ip ! 0 = 0xfe \<and> ip ! 1 AND 0xc0 = 0x80"
    using v(3) v6_prefixes(3) [of "0xfe # 0x80 # replicate 14 0"] digits_eq [of "unat (ip ! 1) div 64" 4 2 "unat (ip ! 0)" 254] byte_less [of "ip ! 1"]
    by (simp add: in_net_def low_masks) (simp add: word_unat_eq_iff)
  ultimately show ?thesis
    using assms by (auto simp: refused_v6_def isPublicIP_def IsLoopback_def IsPrivate_def IsUnspecified_def IsLinkLocalUnicast_def IsLinkLocalMulticast_def IsMulticast_def)
qed

text \<open>
  C30. The guard. A guarded connection is made to exactly the addresses that parse and lie outside the networks for the unspecified
  and loopback addresses, private use, link-local and multicast; an IPv4 address mapped into IPv6 is judged as the IPv4 address.
  (That \<open>ParseIP\<close> gives 4 or 16 bytes is its documented behaviour.)
\<close>

theorem dial_guard:
  assumes "\<And>h ip. ParseIP h = Some ip \<Longrightarrow> length ip = 4 \<or> length ip = 16"
  shows "dial_Control True SplitHostPort ParseIP address \<longleftrightarrow>
    (\<exists>host port ip. SplitHostPort address = Some (host, port) \<and> ParseIP host = Some ip \<and>
       \<not> (case To4 ip of Some ip4 \<Rightarrow> \<exists>net \<in> set refused_v4. in_net 32 (ip_number ip4) net | None \<Rightarrow> \<exists>net \<in> set refused_v6. in_net 128 (ip_number ip) net))"
proof -
  have "isPublicIP ip \<longleftrightarrow> \<not> (case To4 ip of Some ip4 \<Rightarrow> \<exists>net \<in> set refused_v4. in_net 32 (ip_number ip4) net
      | None \<Rightarrow> \<exists>net \<in> set refused_v6. in_net 128 (ip_number ip) net)" if "length ip = 4 \<or> length ip = 16" for ip
  proof (cases "To4 ip")
    case None
    with that have "length ip = 16" by (auto simp: To4_def split: if_splits)
    with None show ?thesis by (simp add: public_v6)
  next
    case (Some ip4)
    then have "length ip4 = 4" by (auto simp: To4_def split: if_splits)
    then obtain a b c d where ip4: "ip4 = [a, b, c, d]" by (auto simp: length_Suc_conv numeral_eq_Suc)
    have "To4 ip4 = Some ip4" using \<open>length ip4 = 4\<close> by (simp add: To4_def)
    with Some have "isPublicIP ip \<longleftrightarrow> isPublicIP ip4"
      by (simp add: isPublicIP_def IsLoopback_def IsPrivate_def IsUnspecified_def IsLinkLocalUnicast_def IsLinkLocalMulticast_def IsMulticast_def)
    with Some show ?thesis by (simp add: ip4 public_v4)
  qed
  with assms show ?thesis by (auto simp: dial_Control_def split: option.splits)
qed

theorem dial_guard_witness:
  "\<not> dial_Control True (\<lambda>a. Some (a, ''443'')) (\<lambda>h. Some (replicate 10 0 @ [0xff, 0xff, 127, 0, 0, 1])) ''h'' \<and>
   dial_Control True (\<lambda>a. Some (a, ''443'')) (\<lambda>h. Some [100, 64, 0, 1]) ''h''"
proof -
  have t: "To4 (replicate 10 0 @ [0xff, 0xff, 127, 0, 0, 1]) = Some [127, 0, 0, 1]" "To4 [100, 64, 0, 1] = Some [100, 64, 0, 1]"
    by (simp_all add: To4_def nth_append)
  have n: "in_net 32 (ip_number [127, 0, 0, 1]) ([127, 0, 0, 0], 8)" "\<not> (\<exists>net \<in> set refused_v4. in_net 32 (ip_number [100, 64, 0, 1]) net)"
    by (simp_all add: in_net_def ip_number_def refused_v4_def)
  have "\<exists>net \<in> set refused_v4. in_net 32 (ip_number [127, 0, 0, 1]) net"
    using n(1) by (intro bexI [of _ "([127, 0, 0, 0], 8)"]) (simp_all add: refused_v4_def)
  then have "\<not> dial_Control True (\<lambda>a. Some (a, ''443'')) (\<lambda>h. Some (replicate 10 0 @ [0xff, 0xff, 127, 0, 0, 1])) ''h''"
    using t(1) by (subst dial_guard) auto
  moreover have "dial_Control True (\<lambda>a. Some (a, ''443'')) (\<lambda>h. Some [100, 64, 0, 1]) ''h''"
    using t(2) n(2) by (subst dial_guard) auto
  ultimately show ?thesis ..
qed

end
