(* ===== verification/Webhook_Delivery.thy ===== *)
theory Webhook_Delivery
  imports Drill_Web Account_Ownership Dial_Guard
begin

section \<open>Outgoing webhooks\<close>

text \<open>
  \<open>internal/webhooks\<close> and \<open>internal/web/handlers/webhooks.go\<close>: endpoints, deliveries, the fan-out of an event to the endpoints
  of an account, and the worker that posts one delivery. The fan-out and the worker are procedures of \<open>Faults\<close>
  over the record \<open>hook_world\<close>: tables, jobs of the queue with the attempts they have left, and the log
  of all attempts with their outcomes and of all requests that left the server. \<open>http.Client\<close> follows redirects, so one attempt may send
  several requests. The receivers are a parameter: given how many attempts went before and how many redirects are left, they answer a request
  with a status and perhaps a \<open>Location\<close>, or not at all. HMAC, JSON encoding, what PostgreSQL makes
  of a \<open>jsonb\<close> text and \<open>net/url\<close>'s reading of a \<open>Location\<close> are the record \<open>hook_lib\<close>; random strings are arguments.
\<close>

subsection \<open>Tables\<close>

record Endpoint =
  ep_ID :: uuid
  ep_AccountID :: uuid
  ep_URL :: string
  ep_Secret :: string
  ep_Enabled :: bool
  ep_CreatedAt :: gotime

record endpoint_row = Endpoint +
  ep_deleted_at :: "gotime option"

datatype DeliveryStatus = WPending | WDelivered | WFailed

record Delivery =
  dv_ID :: uuid
  dv_EndpointID :: uuid
  dv_AccountID :: uuid
  dv_Event :: string
  dv_Payload :: bytes
  dv_Status :: DeliveryStatus
  dv_AttemptCount :: nat
  dv_LastStatusCode :: "nat option"
  dv_LastError :: "string option"
  dv_CreatedAt :: gotime
  dv_UpdatedAt :: gotime
  dv_DeliveredAt :: "gotime option"

record delivery_row = Delivery +
  dv_event_key :: "string option"

record hook_db =
  hd_endpoints :: "endpoint_row list"
  hd_deliveries :: "delivery_row list"

record hook_lib =
  hl_hmac :: "bytes \<Rightarrow> bytes \<Rightarrow> bytes"
  hl_marshal :: "string \<Rightarrow> string \<Rightarrow> gotime \<Rightarrow> (string \<times> json) list \<Rightarrow> bytes option"
  hl_jsonb :: "bytes \<Rightarrow> bytes option"
  hl_uuid :: "uuid \<Rightarrow> string"
  hl_resolve :: "string \<Rightarrow> string \<Rightarrow> string option"

subsection \<open>Signatures\<close>

definition hook_Sign :: "hook_lib \<Rightarrow> string \<Rightarrow> bytes \<Rightarrow> string" where
  "hook_Sign H secret body = ''sha256='' @ hexEncode (hl_hmac H secret body)"


subsection \<open>The store\<close>

definition newSecret :: "string \<Rightarrow> string" where
  "newSecret rnd = ''whsec_'' @ rnd"

definition CreateEndpoint :: "uuid \<Rightarrow> string \<Rightarrow> gotime \<Rightarrow> (uuid \<Rightarrow> bool) \<Rightarrow> uuid \<Rightarrow> string \<Rightarrow> hook_db \<Rightarrow> (store_error + Endpoint) \<times> hook_db" where
  "CreateEndpoint newid rnd now accounts accountID url db =
     (if newid \<in> set (map ep_ID (hd_endpoints db)) \<or> \<not> accounts accountID \<or> \<not> pg_text_ok url then (Inl ErrConstraint, db)
      else
        (let e = \<lparr>ep_ID = newid, ep_AccountID = accountID, ep_URL = url, ep_Secret = newSecret rnd, ep_Enabled = True, ep_CreatedAt = now\<rparr>
         in (Inr e, db\<lparr>hd_endpoints := hd_endpoints db @ [Endpoint.extend e \<lparr>ep_deleted_at = None\<rparr>]\<rparr>)))"

definition ListEndpoints :: "uuid \<Rightarrow> hook_db \<Rightarrow> Endpoint list" where
  "ListEndpoints accountID db =
     map Endpoint.truncate (sort_key (\<lambda>e. - ep_CreatedAt e) (filter (\<lambda>e. ep_AccountID e = accountID \<and> ep_deleted_at e = None) (hd_endpoints db)))"

definition ListEnabledEndpoints :: "uuid \<Rightarrow> hook_db \<Rightarrow> Endpoint list" where
  "ListEnabledEndpoints accountID db = filter ep_Enabled (ListEndpoints accountID db)"

definition GetEndpoint :: "uuid \<Rightarrow> uuid \<Rightarrow> hook_db \<Rightarrow> store_error + Endpoint" where
  "GetEndpoint accountID endpointID db =
     (case sql_first (\<lambda>e. ep_ID e = endpointID \<and> ep_AccountID e = accountID \<and> ep_deleted_at e = None) (hd_endpoints db) of
        None \<Rightarrow> Inl ErrNotFound | Some e \<Rightarrow> Inr (Endpoint.truncate e))"

definition GetEndpointByID :: "uuid \<Rightarrow> hook_db \<Rightarrow> store_error + Endpoint" where
  "GetEndpointByID endpointID db =
     (case sql_first (\<lambda>e. ep_ID e = endpointID \<and> ep_deleted_at e = None) (hd_endpoints db) of
        None \<Rightarrow> Inl ErrNotFound | Some e \<Rightarrow> Inr (Endpoint.truncate e))"


text \<open>A conflict on endpoint and event key gives the row that is there; an empty key is \<open>NULL\<close> and conflicts with nothing.
  The account of a delivery is the account of its endpoint, so its reference holds when the endpoint's does.\<close>

definition CreateDelivery ::
    "hook_lib \<Rightarrow> uuid \<Rightarrow> gotime \<Rightarrow> uuid \<Rightarrow> uuid \<Rightarrow> string \<Rightarrow> string \<Rightarrow> bytes \<Rightarrow> hook_db \<Rightarrow> (store_error + uuid) \<times> hook_db" where
  "CreateDelivery H newid now endpointID accountID event eventKey payload db =
     (let key = (if eventKey \<noteq> [] then Some eventKey else None) in
      case hl_jsonb H payload of
        None \<Rightarrow> (Inl ErrConstraint, db)
      | Some body \<Rightarrow>
          if newid \<in> set (map dv_ID (hd_deliveries db)) \<or> endpointID \<notin> set (map ep_ID (hd_endpoints db)) \<or> \<not> pg_text_ok event \<or> \<not> pg_text_ok eventKey
          then (Inl ErrConstraint, db)
          else
            (case sql_first (\<lambda>d. dv_EndpointID d = endpointID \<and> key \<noteq> None \<and> dv_event_key d = key) (hd_deliveries db) of
               Some d \<Rightarrow> (Inr (dv_ID d), db)
             | None \<Rightarrow>
                 (Inr newid, db\<lparr>hd_deliveries := hd_deliveries db @
                   [\<lparr>dv_ID = newid, dv_EndpointID = endpointID, dv_AccountID = accountID, dv_Event = event, dv_Payload = body,
                     dv_Status = WPending, dv_AttemptCount = 0, dv_LastStatusCode = None, dv_LastError = None, dv_CreatedAt = now,
                     dv_UpdatedAt = now, dv_DeliveredAt = None, dv_event_key = key\<rparr>]\<rparr>)))"

definition GetDelivery :: "uuid \<Rightarrow> hook_db \<Rightarrow> store_error + Delivery" where
  "GetDelivery i db =
     (case sql_first (\<lambda>d. dv_ID d = i) (hd_deliveries db) of None \<Rightarrow> Inl ErrNotFound | Some d \<Rightarrow> Inr (Delivery.truncate d))"

definition ListDeliveries :: "uuid \<Rightarrow> uuid \<Rightarrow> nat \<Rightarrow> hook_db \<Rightarrow> Delivery list" where
  "ListDeliveries accountID endpointID limit db =
     map Delivery.truncate (take limit (sort_key (\<lambda>d. - dv_CreatedAt d)
       (filter (\<lambda>d. dv_AccountID d = accountID \<and> dv_EndpointID d = endpointID) (hd_deliveries db))))"

definition RecordAttempt :: "gotime \<Rightarrow> uuid \<Rightarrow> DeliveryStatus \<Rightarrow> nat \<Rightarrow> string \<Rightarrow> hook_db \<Rightarrow> hook_db" where
  "RecordAttempt now i status statusCode attemptErr db =
     db\<lparr>hd_deliveries := sql_update (\<lambda>d. dv_ID d = i)
       (\<lambda>d. d\<lparr>dv_Status := status, dv_AttemptCount := dv_AttemptCount d + 1,
          dv_LastStatusCode := (if statusCode \<noteq> 0 then Some statusCode else None),
          dv_LastError := (if attemptErr \<noteq> [] then Some attemptErr else None), dv_UpdatedAt := now,
          dv_DeliveredAt := (if status = WDelivered then Some now else dv_DeliveredAt d)\<rparr>) (hd_deliveries db)\<rparr>"

subsection \<open>The world\<close>

record hook_post =
  po_Method :: string
  po_URL :: string
  po_Event :: string
  po_Delivery :: uuid
  po_Signature :: string
  po_Body :: bytes

datatype http_reply = NoReply string | Reply nat string

record hook_world =
  hw_db :: hook_db
  hw_jobs :: "(uuid \<times> nat) list"
  hw_sent :: "(hook_post \<times> (string + nat)) list"
  hw_wire :: "(hook_post \<times> http_reply) list"
  hw_now :: gotime
  hw_fresh :: nat

type_synonym receiver = "nat \<Rightarrow> nat \<Rightarrow> hook_post \<Rightarrow> http_reply"

definition hook_read :: "(hook_db \<Rightarrow> store_error + 'a) \<Rightarrow> (hook_world, 'a) proc" where
  "hook_read f = call (\<lambda>w. (case f (hw_db w) of Inl _ \<Rightarrow> Inl ''webhooks: not found'' | Inr a \<Rightarrow> Inr a, w))"

definition hook_write :: "(gotime \<Rightarrow> uuid \<Rightarrow> hook_db \<Rightarrow> (store_error + 'a) \<times> hook_db) \<Rightarrow> (hook_world, 'a) proc" where
  "hook_write f = call (\<lambda>w. case f (hw_now w) (hw_fresh w) (hw_db w) of
     (r, db) \<Rightarrow> (case r of Inl _ \<Rightarrow> Inl ''webhooks: constraint'' | Inr a \<Rightarrow> Inr a, w\<lparr>hw_db := db, hw_fresh := hw_fresh w + 1\<rparr>))"

text \<open>The queue gives a job the number of attempts it is configured with; a job unique by its arguments is inserted once.\<close>

definition insert_delivery :: "nat \<Rightarrow> bool \<Rightarrow> uuid \<Rightarrow> (hook_world, unit) proc" where
  "insert_delivery attempts uniq i =
     call (\<lambda>w. (Inr (), if uniq \<and> i \<in> fst ` set (hw_jobs w) then w else w\<lparr>hw_jobs := hw_jobs w @ [(i, attempts)]\<rparr>))"

subsection \<open>Dispatch\<close>

definition source_of :: "(string \<times> json) list \<Rightarrow> string" where
  "source_of data =
     (let s = (\<lambda>k. case map_of data k of Some (JStr v) \<Rightarrow> v | _ \<Rightarrow> []) in
      if s ''drill_id'' \<noteq> [] then s ''drill_id'' else s ''heartbeat_id'')"

definition fan_out :: "hook_lib \<Rightarrow> nat \<Rightarrow> uuid \<Rightarrow> string \<Rightarrow> string \<Rightarrow> bytes \<Rightarrow> Endpoint list \<Rightarrow> (hook_world, unit) proc" where
  "fan_out H attempts accountID event eventKey payload endpoints =
     forM endpoints (\<lambda>e.
       bindM (hook_write (\<lambda>now newid. CreateDelivery H newid now (ep_ID e) accountID event eventKey payload)) (\<lambda>i.
         insert_delivery attempts True i))"

definition Dispatch :: "hook_lib \<Rightarrow> nat \<Rightarrow> string \<Rightarrow> string \<Rightarrow> uuid \<Rightarrow> string \<Rightarrow> (string \<times> json) list \<Rightarrow> (hook_world, unit) proc" where
  "Dispatch H attempts rnd1 rnd2 accountID event data =
     bindM (hook_read (\<lambda>db. Inr (ListEnabledEndpoints accountID db))) (\<lambda>endpoints.
       if endpoints = [] then ret ()
       else
         bindM (getM hw_now) (\<lambda>now.
           case hl_marshal H event (hl_uuid H accountID) now data of
             None \<Rightarrow> errM ''marshal payload''
           | Some payload \<Rightarrow>
               (let sourceID = (if source_of data = [] then rnd1 else source_of data);
                    eventKey = event @ ''|'' @ sourceID @ ''|'' @ rnd2
                in fan_out H attempts accountID event eventKey payload endpoints)))"


subsection \<open>The worker\<close>

text \<open>The request is one call: it may fail before it is sent, or be sent with its answer lost. What a job returns as error
  only goes to the logs of the queue, so the prefixes of these texts are left out.\<close>

definition hook_post_request :: "hook_lib \<Rightarrow> Endpoint \<Rightarrow> Delivery \<Rightarrow> hook_post" where
  "hook_post_request H e d =
     \<lparr>po_Method = ''POST'', po_URL = ep_URL e, po_Event = dv_Event d, po_Delivery = dv_ID d, po_Signature = hook_Sign H (ep_Secret e) (dv_Payload d), po_Body = dv_Payload d\<rparr>"

text \<open>
  \<open>http.Client.Do\<close> without a policy of its own: after 301, 302 and 303 it goes on with \<open>GET\<close> and without the body, after 307 and 308
  with the same method and body, with all headers of the first request that are not credentials, up to ten requests. An answer without
  a \<open>Location\<close> is final.
\<close>

datatype redirect = Final | BadLocation | Follow hook_post

definition redirectBehavior :: "hook_lib \<Rightarrow> hook_post \<Rightarrow> nat \<Rightarrow> string \<Rightarrow> redirect" where
  "redirectBehavior H r code loc =
     (if code \<notin> {301, 302, 303, 307, 308} \<or> loc = [] then Final
      else
        (case hl_resolve H (po_URL r) loc of
           None \<Rightarrow> BadLocation
         | Some url \<Rightarrow>
             if code = 307 \<or> code = 308 then Follow (r\<lparr>po_URL := url\<rparr>)
             else Follow (r\<lparr>po_URL := url, po_Method := (if po_Method r \<noteq> ''GET'' \<and> po_Method r \<noteq> ''HEAD'' then ''GET'' else po_Method r), po_Body := []\<rparr>)))"

fun send_hops :: "hook_lib \<Rightarrow> receiver \<Rightarrow> nat \<Rightarrow> nat \<Rightarrow> hook_post \<Rightarrow> (string + nat) \<times> (hook_post \<times> http_reply) list" where
  "send_hops H V k n r =
     (case V k n r of
        NoReply e \<Rightarrow> (Inl e, [(r, NoReply e)])
      | Reply code loc \<Rightarrow>
          (case redirectBehavior H r code loc of
             Final \<Rightarrow> (Inr code, [(r, Reply code loc)])
           | BadLocation \<Rightarrow> (Inl ''failed to parse Location header'', [(r, Reply code loc)])
           | Follow r' \<Rightarrow>
               (case n of
                  0 \<Rightarrow> (Inl ''stopped after 10 redirects'', [(r, Reply code loc)])
                | Suc m \<Rightarrow> (case send_hops H V k m r' of (a, hops) \<Rightarrow> (a, (r, Reply code loc) # hops)))))"

declare send_hops.simps [simp del]

definition hook_Do :: "hook_lib \<Rightarrow> receiver \<Rightarrow> hook_post \<Rightarrow> nat \<Rightarrow> string + nat" where
  "hook_Do H V p k = fst (send_hops H V k 9 p)"

definition hook_hops :: "hook_lib \<Rightarrow> receiver \<Rightarrow> hook_post \<Rightarrow> nat \<Rightarrow> (hook_post \<times> http_reply) list" where
  "hook_hops H V p k = snd (send_hops H V k 9 p)"

definition worker_post :: "hook_lib \<Rightarrow> receiver \<Rightarrow> Endpoint \<Rightarrow> Delivery \<Rightarrow> (hook_world, nat) proc" where
  "worker_post H V e d =
     call (\<lambda>w. let p = hook_post_request H e d; k = length (hw_sent w); a = hook_Do H V p k in
       (a, w\<lparr>hw_sent := hw_sent w @ [(p, a)], hw_wire := hw_wire w @ hook_hops H V p k\<rparr>))"

definition record_attempt :: "uuid \<Rightarrow> DeliveryStatus \<Rightarrow> nat \<Rightarrow> string \<Rightarrow> (hook_world, unit) proc" where
  "record_attempt i status code reason = call (\<lambda>w. (Inr (), w\<lparr>hw_db := RecordAttempt (hw_now w) i status code reason (hw_db w)\<rparr>))"

definition worker_record :: "Delivery \<Rightarrow> string + nat \<Rightarrow> (hook_world, unit) proc" where
  "worker_record d pr =
     (case pr of
        Inr code \<Rightarrow>
          if 200 \<le> code \<and> code < 300 then record_attempt (dv_ID d) WDelivered code []
          else
            thenM (record_attempt (dv_ID d) WFailed code (''non-2xx response: '' @ dec_nat code))
              (errM (''webhook delivery failed: non-2xx response: '' @ dec_nat code))
      | Inl e \<Rightarrow>
          thenM (record_attempt (dv_ID d) WFailed 0 e) (errM (''webhook delivery failed: '' @ e)))"

definition worker_send :: "hook_lib \<Rightarrow> receiver \<Rightarrow> Delivery \<Rightarrow> string + Endpoint \<Rightarrow> (hook_world, unit) proc" where
  "worker_send H V d er =
     (case er of
        Inl _ \<Rightarrow> record_attempt (dv_ID d) WFailed 0 ''endpoint no longer exists''
      | Inr endpoint \<Rightarrow> bindM (tryM (worker_post H V endpoint d)) (worker_record d))"

definition DeliverWorker_Work :: "hook_lib \<Rightarrow> receiver \<Rightarrow> uuid \<Rightarrow> (hook_world, unit) proc" where
  "DeliverWorker_Work H V deliveryID =
     bindM (hook_read (GetDelivery deliveryID)) (\<lambda>d.
       if dv_Status d = WDelivered then ret ()
       else bindM (tryM (hook_read (GetEndpointByID (dv_EndpointID d)))) (worker_send H V d))"

text \<open>One attempt of a queued job: without an error it is done, else it comes back while attempts are left.\<close>

definition job_attempt :: "hook_lib \<Rightarrow> receiver \<Rightarrow> fault list \<Rightarrow> uuid \<Rightarrow> nat \<Rightarrow> hook_world \<Rightarrow> hook_world" where
  "job_attempt H V fs i n w =
     (case DeliverWorker_Work H V i fs w of
        (Ret _, _, w') \<Rightarrow> w'\<lparr>hw_jobs := remove1 (i, Suc n) (hw_jobs w')\<rparr>
      | (_, _, w') \<Rightarrow> w'\<lparr>hw_jobs := remove1 (i, Suc n) (hw_jobs w') @ (if n = 0 then [] else [(i, n)])\<rparr>)"

subsection \<open>Handlers\<close>

text \<open>\<open>parsed\<close> is what \<open>url.Parse\<close> gives for the address: scheme and host.\<close>

definition validWebhookURL :: "(string \<times> string) option \<Rightarrow> bool" where
  "validWebhookURL parsed =
     (case parsed of None \<Rightarrow> False | Some (scheme, host) \<Rightarrow> (scheme = ''http'' \<or> scheme = ''https'') \<and> host \<noteq> [])"

definition webhookCreate ::
    "text_lib \<Rightarrow> (string \<Rightarrow> (string \<times> string) option) \<Rightarrow> uuid \<Rightarrow> string \<Rightarrow> page_ctx \<Rightarrow> form \<Rightarrow> account_db \<times> hook_db \<Rightarrow> response \<times> account_db \<times> hook_db" where
  "webhookCreate T parse newid rnd cx frm db =
     (let acct = cx_account cx in
      case enforceLimit (length (ListEndpoints (acct_ID acct) (snd db))) (Limits.Webhooks (EffectiveLimits acct)) of
        Some resp \<Rightarrow> (resp, db)
      | None \<Rightarrow>
          (case frm of
             None \<Rightarrow> (HttpStatus 400, db)
           | Some f \<Rightarrow>
               (let rawURL = TrimSpace (f ''url'') in
                if \<not> validWebhookURL (parse rawURL) then (HttpStatus 400, db)
                else
                  (case CreateEndpoint newid rnd (cx_now cx) (\<lambda>i. ad_account_exists i (fst db)) (acct_ID acct) rawURL (snd db) of
                     (Inl _, h) \<Rightarrow> (HttpStatus 500, fst db, h)
                   | (Inr e, h) \<Rightarrow>
                       (SeeOther (''/account/webhooks?new='' @ tx_uuid T (ep_ID e)),
                        audit_db T (cx_now cx) ((page_event cx ''webhook.created'' ''webhook_endpoint'' (tx_uuid T (ep_ID e)))
                          \<lparr>aud_Metadata := [(''url'', rawURL)]\<rparr>) (fst db), h)))))"




section \<open>What is sent\<close>

definition ep_core :: "('a) Endpoint_scheme \<Rightarrow> uuid \<times> uuid \<times> string \<times> string" where
  "ep_core e = (ep_ID e, ep_AccountID e, ep_URL e, ep_Secret e)"

definition dv_core :: "('a) Delivery_scheme \<Rightarrow> uuid \<times> uuid \<times> uuid \<times> string \<times> bytes" where
  "dv_core d = (dv_ID d, dv_EndpointID d, dv_AccountID d, dv_Event d, dv_Payload d)"




















subsection \<open>Every procedure keeps the invariant\<close>

lemma truncate_core [simp]: "ep_core (Endpoint.truncate e) = ep_core e" "dv_core (Delivery.truncate d) = dv_core d"
  by (simp_all add: ep_core_def dv_core_def Endpoint.defs Delivery.defs)





















definition hook_start :: "gotime \<Rightarrow> hook_world" where
  "hook_start now = \<lparr>hw_db = \<lparr>hd_endpoints = [], hd_deliveries = []\<rparr>, hw_jobs = [], hw_sent = [], hw_wire = [], hw_now = now, hw_fresh = 0\<rparr>"










section \<open>Attempts\<close>

definition accepted :: "string + nat \<Rightarrow> bool" where
  "accepted a = (case a of Inr c \<Rightarrow> 200 \<le> c \<and> c < 300 | Inl _ \<Rightarrow> False)"

definition attempt_record :: "string + nat \<Rightarrow> DeliveryStatus \<times> nat \<times> string" where
  "attempt_record a =
     (case a of Inr c \<Rightarrow> if accepted a then (WDelivered, c, []) else (WFailed, c, ''non-2xx response: '' @ dec_nat c) | Inl e \<Rightarrow> (WFailed, 0, e))"

lemma hook_read_ok: "f (hw_db w) = Inr a \<Longrightarrow> hook_read f [] w = (Ret a, [], w)"
  by (simp add: hook_read_def call_ok)

lemma GetDelivery_ID: "GetDelivery i db = Inr d \<Longrightarrow> dv_ID d = i"
  by (auto simp: GetDelivery_def Delivery.defs split: option.splits dest!: sql_first_Some)

text \<open>Without faults, one attempt sends one request and records its answer; the job is gone or has one attempt less.\<close>

lemma job_attempt_run:
  assumes d: "GetDelivery i (hw_db w) = Inr d" "dv_Status d \<noteq> WDelivered" and e: "GetEndpointByID (dv_EndpointID d) (hw_db w) = Inr e"
    and a: "a = hook_Do H V (hook_post_request H e d) (length (hw_sent w))" and r: "attempt_record a = (st, code, reason)"
  shows "job_attempt H V [] i n w =
    w\<lparr>hw_db := RecordAttempt (hw_now w) i st code reason (hw_db w), hw_sent := hw_sent w @ [(hook_post_request H e d, a)],
      hw_wire := hw_wire w @ hook_hops H V (hook_post_request H e d) (length (hw_sent w)),
      hw_jobs := remove1 (i, Suc n) (hw_jobs w) @ (if accepted a \<or> n = 0 then [] else [(i, n)])\<rparr>"
proof -
  let ?w = "w\<lparr>hw_sent := hw_sent w @ [(hook_post_request H e d, a)], hw_wire := hw_wire w @ hook_hops H V (hook_post_request H e d) (length (hw_sent w))\<rparr>"
  have post: "tryM (worker_post H V e d) [] w = (Ret a, [], ?w)"
    by (simp add: tryM_def worker_post_def call_ok Let_def a [symmetric] split: sum.split)
  have read: "tryM (hook_read (GetEndpointByID (dv_EndpointID d))) [] w = (Ret (Inr e), [], w)"
    by (simp add: tryM_def hook_read_ok [of "GetEndpointByID (dv_EndpointID d)", OF e])
  have "DeliverWorker_Work H V i [] w = worker_record d a [] ?w"
    using hook_read_ok [of "GetDelivery i" w, OF d(1)] d(2)
    by (simp add: DeliverWorker_Work_def bindM_def worker_send_def read post)
  moreover have "worker_record d a [] ?w = ((if accepted a then Ret () else Err (''webhook delivery failed: '' @ reason)), [],
      ?w\<lparr>hw_db := RecordAttempt (hw_now w) i st code reason (hw_db w)\<rparr>)"
    using r GetDelivery_ID [OF d(1)]
    by (cases a) (auto simp: worker_record_def attempt_record_def accepted_def record_attempt_def call_ok thenM_def bindM_def errM_def split: if_splits)
  ultimately show ?thesis by (auto simp: job_attempt_def)
qed

text \<open>The attempts of one job, as long as it comes back.\<close>

primrec run_job :: "hook_lib \<Rightarrow> receiver \<Rightarrow> uuid \<Rightarrow> nat \<Rightarrow> hook_world \<Rightarrow> hook_world" where
  "run_job H V i 0 w = w"
| "run_job H V i (Suc n) w =
     (let w' = job_attempt H V [] i n w in if (i, n) \<in> set (hw_jobs w') then run_job H V i n w' else w')"

lemma GetDelivery_attempt:
  assumes "GetDelivery i db = Inr d"
  obtains d' where "GetDelivery i (RecordAttempt now i st code reason db) = Inr d'" "dv_core d' = dv_core d" "dv_Status d' = st"
    "dv_AttemptCount d' = dv_AttemptCount d + 1"
proof -
  obtain row where row: "sql_first (\<lambda>d. dv_ID d = i) (hd_deliveries db) = Some row" "d = Delivery.truncate row"
    using assms by (auto simp: GetDelivery_def split: option.splits)
  then have "dv_ID row = i" by (auto dest: sql_first_Some)
  with row that show ?thesis
    by (simp add: GetDelivery_def RecordAttempt_def sql_first_update dv_core_def Delivery.defs)
qed

lemma hook_post_request_core: "dv_core d' = dv_core d \<Longrightarrow> hook_post_request H e d' = hook_post_request H e d"
  by (simp add: hook_post_request_def dv_core_def)

text \<open>\<open>m\<close> of at most \<open>N\<close> tries, from the request number \<open>s\<close> on: up to the first that is accepted.\<close>

definition tried :: "(hook_post \<Rightarrow> nat \<Rightarrow> string + nat) \<Rightarrow> hook_post \<Rightarrow> nat \<Rightarrow> nat \<Rightarrow> nat \<Rightarrow> bool" where
  "tried R p s N m \<longleftrightarrow> 0 < m \<and> m \<le> N \<and> (\<forall>j. Suc j < m \<longrightarrow> \<not> accepted (R p (s + j))) \<and> (m < N \<longrightarrow> accepted (R p (s + (m - 1))))"

lemma tried_one: "accepted (R p s) \<or> n = 0 \<Longrightarrow> tried R p s (Suc n) 1"
  by (auto simp: tried_def)

lemma tried_Suc:
  assumes "\<not> accepted (R p s)" and "tried R p (Suc s) n m"
  shows "tried R p s (Suc n) (Suc m)"
proof -
  have "\<not> accepted (R p (s + j))" if "Suc j < Suc m" for j
    using assms that by (cases j) (auto simp: tried_def)
  moreover have "Suc s + (m - 1) = s + m" using assms(2) by (simp add: tried_def)
  ultimately show ?thesis using assms(2) unfolding tried_def by auto
qed

lemma run_job_sent:
  assumes "GetDelivery i (hw_db w) = Inr d" "dv_Status d \<noteq> WDelivered" "GetEndpointByID (dv_EndpointID d) (hw_db w) = Inr e"
    and "hook_post_request H e d = p" "(i, N) \<in> set (hw_jobs w)" "remove1 (i, N) (hw_jobs w) = js" "i \<notin> fst ` set js" "0 < N"
    and "length (hw_sent w) = s"
  obtains m d' where "tried (hook_Do H V) p s N m"
    "hw_sent (run_job H V i N w) = hw_sent w @ map (\<lambda>j. (p, hook_Do H V p (s + j))) [0..<m]"
    "hw_jobs (run_job H V i N w) = js" "GetDelivery i (hw_db (run_job H V i N w)) = Inr d'"
    "dv_Status d' = (if accepted (hook_Do H V p (s + (m - 1))) then WDelivered else WFailed)" "dv_AttemptCount d' = dv_AttemptCount d + m"
  using assms
proof (induction N arbitrary: w d s thesis)
  case (Suc n)
  note [simp] = Suc.prems(10)
  obtain st code reason where r: "attempt_record (hook_Do H V p s) = (st, code, reason)" by (cases "attempt_record (hook_Do H V p s)") auto
  define w1 where "w1 = job_attempt H V [] i n w"
  have w1: "w1 = w\<lparr>hw_db := RecordAttempt (hw_now w) i st code reason (hw_db w), hw_sent := hw_sent w @ [(p, hook_Do H V p s)],
      hw_wire := hw_wire w @ hook_hops H V p s, hw_jobs := js @ (if accepted (hook_Do H V p s) \<or> n = 0 then [] else [(i, n)])\<rparr>"
    unfolding w1_def using job_attempt_run [OF Suc.prems(2-4), of "hook_Do H V p s" H V st code reason n] Suc.prems(5,7) r by simp
  obtain d1 where d1: "GetDelivery i (hw_db w1) = Inr d1" "dv_core d1 = dv_core d" "dv_Status d1 = st" "dv_AttemptCount d1 = dv_AttemptCount d + 1"
    using GetDelivery_attempt [OF Suc.prems(2), of "hw_now w" st code reason] unfolding w1 by auto
  have st: "st = (if accepted (hook_Do H V p s) then WDelivered else WFailed)"
    using r by (auto simp: attempt_record_def accepted_def split: sum.splits if_splits)
  have js: "(i, k) \<notin> set js" for k using Suc.prems(8) by force
  show ?case
  proof (cases "accepted (hook_Do H V p s) \<or> n = 0")
    case True
    then have "run_job H V i (Suc n) w = w1" using js by (auto simp: w1_def [symmetric] w1 Let_def)
    with True d1 st show ?thesis by (intro Suc.prems(1) [of 1 d1] tried_one) (auto simp: w1)
  next
    case False
    then have run: "run_job H V i (Suc n) w = run_job H V i n w1" and n: "0 < n" by (auto simp: w1_def [symmetric] w1 Let_def)
    have ep: "GetEndpointByID (dv_EndpointID d1) (hw_db w1) = Inr e"
      using Suc.prems(4) d1(2) by (simp add: w1 RecordAttempt_def GetEndpointByID_def dv_core_def)
    have req: "hook_post_request H e d1 = p" using Suc.prems(5) d1(2) hook_post_request_core by metis
    have job: "(i, n) \<in> set (hw_jobs w1)" "remove1 (i, n) (hw_jobs w1) = js"
      using False js by (auto simp: w1 remove1_append)
    have sent1: "hw_sent w1 = hw_sent w @ [(p, hook_Do H V p s)]" "length (hw_sent w1) = Suc s" by (simp_all add: w1)
    have "dv_Status d1 \<noteq> WDelivered" using d1(3) st False by simp
    from Suc.IH [OF _ d1(1) this ep req job Suc.prems(8) n sent1(2)] obtain m d' where m: "tried (hook_Do H V) p (Suc s) n m"
      "hw_sent (run_job H V i n w1) = hw_sent w1 @ map (\<lambda>j. (p, hook_Do H V p (Suc s + j))) [0..<m]"
      "hw_jobs (run_job H V i n w1) = js" "GetDelivery i (hw_db (run_job H V i n w1)) = Inr d'"
      "dv_Status d' = (if accepted (hook_Do H V p (Suc s + (m - 1))) then WDelivered else WFailed)" "dv_AttemptCount d' = dv_AttemptCount d1 + m"
      by blast
    have "Suc s + (m - 1) = s + (Suc m - 1)" using m(1) by (simp add: tried_def)
    moreover have "hw_sent (run_job H V i (Suc n) w) = hw_sent w @ map (\<lambda>j. (p, hook_Do H V p (s + j))) [0..<Suc m]"
      unfolding run m(2) sent1 by (simp only: map_upt_Suc add_0_right append_assoc append_Cons append_Nil add_Suc_right add_Suc)
    moreover have "\<not> accepted (hook_Do H V p s)" using False by simp
    ultimately show ?thesis
      using m d1(4) unfolding run by (intro Suc.prems(1) [of "Suc m" d'] tried_Suc) (simp_all only: run add_Suc_right add.assoc plus_1_eq_Suc add_Suc not_False_eq_True)
  qed
qed simp

lemma tried_accepted:
  assumes "tried R p s N m"
  shows "accepted (R p (s + (m - 1))) \<longleftrightarrow> (\<exists>j < N. accepted (R p (s + j)))"
proof
  assume "\<exists>j < N. accepted (R p (s + j))"
  then obtain j where j: "j < N" "accepted (R p (s + j))" by blast
  show "accepted (R p (s + (m - 1)))"
  proof (cases "m < N")
    case False
    then have "\<not> Suc j < m" "m = N" using assms j(2) by (auto simp: tried_def)
    then have "j = m - 1" using j(1) by simp
    with j(2) show ?thesis by simp
  qed (use assms in \<open>unfold tried_def, blast\<close>)
next
  assume "accepted (R p (s + (m - 1)))"
  moreover have "m - 1 < N" using assms by (auto simp: tried_def)
  ultimately show "\<exists>j < N. accepted (R p (s + j))" by blast
qed

section \<open>Properties\<close>


text \<open>
  Redirects are followed without question. A receiver that answers with 307 has the whole signed delivery posted to any address
  of its choice; and one that answers with 302 gets the delivery recorded as delivered when the other address answers a \<open>GET\<close>
  without a body with 200, although nobody accepted the payload.
\<close>

theorem redirects_followed:
  assumes "hl_resolve H (po_URL p) loc = Some url" "loc \<noteq> []" "po_Method p = ''POST''"
  shows "V k 9 p = Reply 307 loc \<Longrightarrow> V k 8 (p\<lparr>po_URL := url\<rparr>) = Reply 200 [] \<Longrightarrow>
      hook_Do H V p k = Inr 200 \<and> map fst (hook_hops H V p k) = [p, p\<lparr>po_URL := url\<rparr>]"
    and "V k 9 p = Reply 302 loc \<Longrightarrow> V k 8 (p\<lparr>po_URL := url, po_Method := ''GET'', po_Body := []\<rparr>) = Reply 200 [] \<Longrightarrow>
      hook_Do H V p k = Inr 200 \<and> map fst (hook_hops H V p k) = [p, p\<lparr>po_URL := url, po_Method := ''GET'', po_Body := []\<rparr>]"
proof -
  let ?g = "p\<lparr>po_URL := url, po_Method := ''GET'', po_Body := []\<rparr>"
  have f: "redirectBehavior H p 307 loc = Follow (p\<lparr>po_URL := url\<rparr>)" "redirectBehavior H p 302 loc = Follow ?g" "redirectBehavior H q 200 [] = Final" for q
    using assms by (simp_all add: redirectBehavior_def)
  have hop: "send_hops H V k 9 p = (a, (p, Reply code loc) # hops)"
    if "V k 9 p = Reply code loc" "redirectBehavior H p code loc = Follow r" "send_hops H V k 8 r = (a, hops)" for code r a hops
    using that send_hops.simps [of H V k 9 p] by simp
  have fin: "send_hops H V k 8 q = (Inr 200, [(q, Reply 200 [])])" if "V k 8 q = Reply 200 []" for q
    using that f(3) send_hops.simps [of H V k 8 q] by simp
  show "V k 9 p = Reply 307 loc \<Longrightarrow> V k 8 (p\<lparr>po_URL := url\<rparr>) = Reply 200 [] \<Longrightarrow>
      hook_Do H V p k = Inr 200 \<and> map fst (hook_hops H V p k) = [p, p\<lparr>po_URL := url\<rparr>]"
    using hop [OF _ f(1) fin] by (simp add: hook_Do_def hook_hops_def)
  show "V k 9 p = Reply 302 loc \<Longrightarrow> V k 8 ?g = Reply 200 [] \<Longrightarrow> hook_Do H V p k = Inr 200 \<and> map fst (hook_hops H V p k) = [p, ?g]"
    using hop [OF _ f(2) fin] by (simp add: hook_Do_def hook_hops_def)
qed

text \<open>
  C32. A delivery gets through. A queued delivery to an endpoint that is there, with \<open>N\<close> attempts left and no
  faults: the same signed request is sent again and again until the receiver (or whom it redirects to) accepts it with a 2xx status or the \<open>N\<close>
  attempts are used up; then the job has left the queue and the other jobs are as they were, the delivery has counted each request,
  and it is recorded as delivered exactly when one of the \<open>N\<close> answers accepts it.
\<close>

theorem webhook_delivered:
  assumes "GetDelivery i (hw_db w) = Inr d" "dv_Status d \<noteq> WDelivered" "GetEndpointByID (dv_EndpointID d) (hw_db w) = Inr e"
    and "(i, N) \<in> set (hw_jobs w)" "i \<notin> fst ` set (remove1 (i, N) (hw_jobs w))" "0 < N"
  shows "let p = hook_post_request H e d; s = length (hw_sent w); w' = run_job H V i N w in
    \<exists>m d'. tried (hook_Do H V) p s N m \<and> hw_sent w' = hw_sent w @ map (\<lambda>j. (p, hook_Do H V p (s + j))) [0..<m] \<and>
      hw_jobs w' = remove1 (i, N) (hw_jobs w) \<and> GetDelivery i (hw_db w') = Inr d' \<and> dv_AttemptCount d' = dv_AttemptCount d + m \<and>
      dv_Status d' = (if \<exists>j < N. accepted (hook_Do H V p (s + j)) then WDelivered else WFailed)"
proof -
  obtain m d' where m: "tried (hook_Do H V) (hook_post_request H e d) (length (hw_sent w)) N m"
    "hw_sent (run_job H V i N w) = hw_sent w @ map (\<lambda>j. (hook_post_request H e d, hook_Do H V (hook_post_request H e d) (length (hw_sent w) + j))) [0..<m]"
    "hw_jobs (run_job H V i N w) = remove1 (i, N) (hw_jobs w)" "GetDelivery i (hw_db (run_job H V i N w)) = Inr d'"
    "dv_Status d' = (if accepted (hook_Do H V (hook_post_request H e d) (length (hw_sent w) + (m - 1))) then WDelivered else WFailed)"
    "dv_AttemptCount d' = dv_AttemptCount d + m"
    by (rule run_job_sent [OF assms(1-3) refl assms(4) refl assms(5,6) refl])
  show ?thesis unfolding Let_def using m tried_accepted [OF m(1)] by (intro exI [of _ m] exI [of _ d']) simp
qed

text \<open>
  A delivery that is lost. The worker takes any error of reading the endpoint for its deletion: when this
  one read fails, though the endpoint is there, nothing is sent, the delivery is recorded as failed for an endpoint
  that no longer exists, and the job ends as done: it is not tried again, whatever attempts it had left.
\<close>

theorem webhook_lost:
  assumes "GetDelivery i (hw_db w) = Inr d" "dv_Status d \<noteq> WDelivered" "GetEndpointByID (dv_EndpointID d) (hw_db w) = Inr e"
  shows "\<exists>d'. hw_sent (job_attempt H V [NoFault, FailBefore err] i n w) = hw_sent w \<and>
    hw_jobs (job_attempt H V [NoFault, FailBefore err] i n w) = remove1 (i, Suc n) (hw_jobs w) \<and>
    GetDelivery i (hw_db (job_attempt H V [NoFault, FailBefore err] i n w)) = Inr d' \<and> dv_Status d' = WFailed \<and>
    dv_LastError d' = Some ''endpoint no longer exists''"
proof -
  obtain row where row: "sql_first (\<lambda>d. dv_ID d = i) (hd_deliveries (hw_db w)) = Some row" "d = Delivery.truncate row"
    using assms(1) by (auto simp: GetDelivery_def split: option.splits)
  then have "dv_ID row = i" by (auto dest: sql_first_Some)
  have "job_attempt H V [NoFault, FailBefore err] i n w =
      w\<lparr>hw_db := RecordAttempt (hw_now w) i WFailed 0 ''endpoint no longer exists'' (hw_db w), hw_jobs := remove1 (i, Suc n) (hw_jobs w)\<rparr>"
    using assms(1,2) GetDelivery_ID [OF assms(1)]
    by (simp add: job_attempt_def DeliverWorker_Work_def bindM_def tryM_def hook_read_def call_def worker_send_def record_attempt_def)
  with row \<open>dv_ID row = i\<close> show ?thesis
    by (simp add: GetDelivery_def RecordAttempt_def sql_first_update Delivery.defs)
qed

section \<open>Examples\<close>

definition toy_hooks :: hook_lib where
  "toy_hooks = \<lparr>hl_hmac = (\<lambda>k b. k @ b), hl_marshal = (\<lambda>ev acc t data. Some ev), hl_jsonb = Some, hl_uuid = (\<lambda>n. replicate n (CHR ''i'')), hl_resolve = (\<lambda>base loc. Some loc)\<rparr>"

text \<open>A receiver that refuses the first request and takes the next ones; an account with one endpoint; an event is fanned out to it.\<close>

definition slow_receiver :: receiver where
  "slow_receiver k n p = (if k = 0 then Reply 503 [] else Reply 200 [])"

lemma slow_Do: "hook_Do toy_hooks slow_receiver p k = (if k = 0 then Inr 503 else Inr 200)"
  by (simp add: hook_Do_def send_hops.simps slow_receiver_def redirectBehavior_def)

definition hook_created :: hook_world where
  "hook_created = (hook_start 5)\<lparr>hw_db := snd (snd (webhookCreate plain_text (\<lambda>u. Some (''https'', ''x'')) 3 ''r'' bob_page (Some (\<lambda>_. ''https://x'')) (ann_account, hw_db (hook_start 5))))\<rparr>"

definition hook_queued :: hook_world where
  "hook_queued = final (Dispatch toy_hooks 25 ''a'' ''b'' 7 ''drill.completed'' [(''drill_id'', JStr ''d'')] [] hook_created)"

definition hook_endpoint :: Endpoint where
  "hook_endpoint = \<lparr>ep_ID = 3, ep_AccountID = 7, ep_URL = ''https://x'', ep_Secret = ''whsec_r'', ep_Enabled = True, ep_CreatedAt = 9\<rparr>"

lemma hook_created_eq:
  "hook_created = (hook_start 5)\<lparr>hw_db := \<lparr>hd_endpoints = [Endpoint.extend hook_endpoint \<lparr>ep_deleted_at = None\<rparr>], hd_deliveries = []\<rparr>\<rparr>"
proof -
  have lim: "enforceLimit 0 (Limits.Webhooks (EffectiveLimits (cx_account bob_page))) = None"
    by (simp add: enforceLimit_def bob_page_def EffectiveLimits_def LimitsFor_def AtLimit_def Let_def PlanTrial_def PlanStarter_def PlanPro_def PlanScale_def)
  have t: "TrimSpace ''https://x'' = ''https://x''" "pg_text_ok ''https://x''" by code_simp+
  have "ad_account_exists 7 ann_account" by (simp add: ad_account_exists_def ann_account_facts)
  with lim t show ?thesis
    by (simp add: hook_created_def webhookCreate_def Let_def hook_start_def ListEndpoints_def validWebhookURL_def CreateEndpoint_def bob_page_def
        hook_endpoint_def newSecret_def Endpoint.defs)
qed

lemma hook_queued_eq:
  "hook_queued = hook_created\<lparr>hw_db := (hw_db hook_created)\<lparr>hd_deliveries := [\<lparr>dv_ID = 0, dv_EndpointID = 3, dv_AccountID = 7, dv_Event = ''drill.completed'',
     dv_Payload = ''drill.completed'', dv_Status = WPending, dv_AttemptCount = 0, dv_LastStatusCode = None, dv_LastError = None, dv_CreatedAt = 5, dv_UpdatedAt = 5,
     dv_DeliveredAt = None, dv_event_key = Some ''drill.completed|d|b''\<rparr>]\<rparr>, hw_jobs := [(0, 25)], hw_fresh := 1\<rparr>"
proof -
  have t: "pg_text_ok ''drill.completed''" "pg_text_ok ''drill.completed|d|b''" by code_simp+
  have es: "ListEnabledEndpoints 7 (hw_db hook_created) = [hook_endpoint]"
    by (simp add: hook_created_eq ListEnabledEndpoints_def ListEndpoints_def hook_endpoint_def Endpoint.defs)
  show ?thesis
    using t by (simp add: hook_queued_def Dispatch_def hook_read_def call_ok bindM_def es getM_def toy_hooks_def source_of_def Let_def fan_out_def thenM_def
        hook_write_def CreateDelivery_def insert_delivery_def ret_def final_def)
      (simp add: hook_created_eq hook_start_def hook_endpoint_def Endpoint.defs call_ok ret_def)
qed

lemma hook_queued_facts:
  obtains d where "GetDelivery 0 (hw_db hook_queued) = Inr d" "dv_Status d \<noteq> WDelivered" "GetEndpointByID (dv_EndpointID d) (hw_db hook_queued) = Inr hook_endpoint"
    "hw_jobs hook_queued = [(0, 25)]" "hw_sent hook_queued = []" "dv_AttemptCount d = 0"
  by (simp add: hook_queued_eq hook_created_eq hook_start_def GetDelivery_def GetEndpointByID_def hook_endpoint_def Endpoint.defs Delivery.defs)


theorem webhook_delivered_witness:
  "\<exists>d'. GetDelivery 0 (hw_db (run_job toy_hooks slow_receiver 0 25 hook_queued)) = Inr d' \<and> dv_Status d' = WDelivered \<and>
     hw_jobs (run_job toy_hooks slow_receiver 0 25 hook_queued) = []"
proof -
  obtain d where d: "GetDelivery 0 (hw_db hook_queued) = Inr d" "dv_Status d \<noteq> WDelivered" "GetEndpointByID (dv_EndpointID d) (hw_db hook_queued) = Inr hook_endpoint"
    "hw_jobs hook_queued = [(0, 25)]" "hw_sent hook_queued = []" by (rule hook_queued_facts)
  have "\<exists>j < (25 :: nat). accepted (hook_Do toy_hooks slow_receiver p j)" for p by (intro exI [of _ 1]) (simp add: slow_Do accepted_def)
  then show ?thesis
    using webhook_delivered [OF d(1-3), of 25 toy_hooks slow_receiver] d(4,5) by (auto simp: Let_def)
qed

theorem webhook_lost_witness:
  "hw_sent (job_attempt toy_hooks slow_receiver [NoFault, FailBefore ''timeout''] 0 24 hook_queued) = [] \<and>
     hw_jobs (job_attempt toy_hooks slow_receiver [NoFault, FailBefore ''timeout''] 0 24 hook_queued) = []"
proof -
  obtain d where d: "GetDelivery 0 (hw_db hook_queued) = Inr d" "dv_Status d \<noteq> WDelivered" "GetEndpointByID (dv_EndpointID d) (hw_db hook_queued) = Inr hook_endpoint"
    "hw_jobs hook_queued = [(0, 25)]" "hw_sent hook_queued = []" by (rule hook_queued_facts)
  show ?thesis using webhook_lost [OF d(1-3), of toy_hooks slow_receiver "''timeout''" 24] d(4,5) by auto
qed

end
