(* ===== verification/Billing.thy ===== *)
theory Billing
  imports Passwords Account_Ownership Faults
begin

section \<open>Billing\<close>

text \<open>
  \<open>internal/billing\<close>, the handlers of \<open>internal/web/handlers/billing.go\<close> and the refunds of \<open>admin.go\<close>. The payment
  provider is a parameter \<open>A\<close>: its reply to a request, given how many requests went before. The
  service is \<open>None\<close> when no secret key is configured. HMAC and the decoding of JSON into the fields the code reads are
  parameters too. Handlers are procedures of \<open>Faults\<close> over the record \<open>bill_world\<close>: the account database, the
  requests sent to the provider and the mails sent.
\<close>

subsection \<open>The service\<close>

record bill_config =
  bc_SecretKey :: string
  bc_WebhookSecret :: string
  bc_PriceStarter :: string
  bc_PricePro :: string
  bc_PriceScale :: string
  bc_MeterEvent :: string

definition billing_New :: "bill_config \<Rightarrow> bill_config option" where
  "billing_New c = (if bc_SecretKey c = [] then None else Some c)"

definition PriceID :: "bill_config option \<Rightarrow> string \<Rightarrow> string" where
  "PriceID svc plan =
     (case svc of None \<Rightarrow> []
      | Some c \<Rightarrow> if plan = PlanStarter then bc_PriceStarter c else if plan = PlanPro then bc_PricePro c else if plan = PlanScale then bc_PriceScale c else [])"

definition PlanForPrice :: "bill_config option \<Rightarrow> string \<Rightarrow> string" where
  "PlanForPrice svc priceID =
     (case svc of None \<Rightarrow> PlanTrial
      | Some c \<Rightarrow>
          if priceID = bc_PriceStarter c then PlanStarter else if priceID = bc_PricePro c then PlanPro else if priceID = bc_PriceScale c then PlanScale
          else PlanTrial)"

record stripe_req =
  sr_path :: string
  sr_form :: "(string \<times> string) list"
  sr_key :: string

record stripe_reply =
  rp_status :: nat
  rp_body :: "(string \<times> json) list option"
  rp_message :: string

type_synonym stripe_api = "stripe_req \<Rightarrow> nat \<Rightarrow> string + stripe_reply"

record bill_world =
  bw_db :: account_db
  bw_log :: "stripe_req list"
  bw_mails :: "(string \<times> string \<times> string) list"
  bw_now :: gotime

definition stripe_do :: "stripe_api \<Rightarrow> stripe_req \<Rightarrow> (bill_world, (string \<times> json) list) proc" where
  "stripe_do A r =
     call (\<lambda>w.
       (case A r (length (bw_log w)) of
          Inl e \<Rightarrow> Inl e
        | Inr rp \<Rightarrow>
            if 400 \<le> rp_status rp then Inl (''stripe: '' @ sr_path r @ '': '' @ rp_message rp)
            else (case rp_body rp of None \<Rightarrow> Inl (''stripe: decode '' @ sr_path r @ '' response'') | Some b \<Rightarrow> Inr b),
        w\<lparr>bw_log := bw_log w @ [r]\<rparr>))"

definition stripe_post :: "stripe_api \<Rightarrow> string \<Rightarrow> (string \<times> string) list \<Rightarrow> string \<Rightarrow> (bill_world, (string \<times> json) list) proc" where
  "stripe_post A path form key = stripe_do A \<lparr>sr_path = path, sr_form = form, sr_key = key\<rparr>"

definition js_str :: "(string \<times> json) list \<Rightarrow> string \<Rightarrow> string" where
  "js_str b k = (case map_of b k of Some (JStr s) \<Rightarrow> s | _ \<Rightarrow> [])"

definition js_int :: "(string \<times> json) list \<Rightarrow> string \<Rightarrow> int" where
  "js_int b k = (case map_of b k of Some (JNum m e) \<Rightarrow> json_trunc m e | _ \<Rightarrow> 0)"

definition billing_Create :: "text_lib \<Rightarrow> stripe_api \<Rightarrow> bill_config option \<Rightarrow> uuid \<Rightarrow> string \<Rightarrow> string \<Rightarrow> (bill_world, string) proc" where
  "billing_Create T A svc accountID email name =
     (case svc of None \<Rightarrow> ret []
      | Some c \<Rightarrow>
          bindM (stripe_post A ''/customers''
              ([(''email'', email)] @ (if name \<noteq> [] then [(''name'', name)] else []) @ [(''metadata[account_id]'', tx_uuid T accountID)])
              (''account-create-'' @ tx_uuid T accountID)) (\<lambda>b.
            if js_str b ''id'' = [] then errM ''stripe: empty id in customer response'' else ret (js_str b ''id'')))"

definition sessionURL :: "(string \<times> json) list \<Rightarrow> (bill_world, string) proc" where
  "sessionURL b = (if js_str b ''url'' = [] then errM ''stripe: session response had no url'' else ret (js_str b ''url''))"

definition Checkout :: "stripe_api \<Rightarrow> bill_config option \<Rightarrow> string \<Rightarrow> string \<Rightarrow> string \<Rightarrow> string \<Rightarrow> (bill_world, string) proc" where
  "Checkout A svc customerID priceID successURL cancelURL =
     (case svc of None \<Rightarrow> errM ''billing: Stripe is not configured''
      | Some c \<Rightarrow>
          if customerID = [] \<or> priceID = [] then errM ''billing: checkout needs a customer and a price''
          else
            bindM (stripe_post A ''/checkout/sessions''
              [(''mode'', ''subscription''), (''customer'', customerID), (''line_items[0][price]'', priceID), (''line_items[0][quantity]'', ''1''),
               (''success_url'', successURL), (''cancel_url'', cancelURL)] []) sessionURL)"

definition Portal :: "stripe_api \<Rightarrow> bill_config option \<Rightarrow> string \<Rightarrow> string \<Rightarrow> (bill_world, string) proc" where
  "Portal A svc customerID returnURL =
     (case svc of None \<Rightarrow> errM ''billing: Stripe is not configured''
      | Some c \<Rightarrow>
          if customerID = [] then errM ''billing: portal needs a customer''
          else bindM (stripe_post A ''/billing_portal/sessions'' [(''customer'', customerID), (''return_url'', returnURL)] []) sessionURL)"

record Charge =
  ch_ID :: string
  ch_Amount :: int
  ch_Currency :: string
  ch_Created :: int
  ch_Status :: string
  ch_Refunded :: bool
  ch_Description :: string

definition parseCharge :: "(string \<times> json) list \<Rightarrow> Charge" where
  "parseCharge m =
     \<lparr>ch_ID = js_str m ''id'', ch_Amount = js_int m ''amount'', ch_Currency = js_str m ''currency'', ch_Created = js_int m ''created'',
      ch_Status = js_str m ''status'', ch_Refunded = (map_of m ''refunded'' = Some (JBool True)), ch_Description = js_str m ''description''\<rparr>"

definition ListCharges :: "stripe_api \<Rightarrow> (string \<Rightarrow> string) \<Rightarrow> bill_config option \<Rightarrow> string \<Rightarrow> (bill_world, Charge list) proc" where
  "ListCharges A QueryEscape svc customerID =
     (case svc of None \<Rightarrow> errM ''billing: Stripe is not configured''
      | Some c \<Rightarrow>
          if customerID = [] then errM ''billing: list charges needs a customer''
          else
            bindM (stripe_do A \<lparr>sr_path = ''/charges?limit=20&customer='' @ QueryEscape customerID, sr_form = [], sr_key = []\<rparr>) (\<lambda>b.
              ret (case map_of b ''data'' of Some (JArr items) \<Rightarrow> concat (map (\<lambda>i. case i of JObj m \<Rightarrow> [parseCharge m] | _ \<Rightarrow> []) items) | _ \<Rightarrow> [])))"

record RefundResult =
  rf_ID :: string
  rf_Amount :: int
  rf_Status :: string

definition Refund :: "stripe_api \<Rightarrow> bill_config option \<Rightarrow> string \<Rightarrow> string \<Rightarrow> (bill_world, RefundResult) proc" where
  "Refund A svc chargeID idempotencyKey =
     (case svc of None \<Rightarrow> errM ''billing: Stripe is not configured''
      | Some c \<Rightarrow>
          if chargeID = [] then errM ''billing: refund needs a charge''
          else
            bindM (stripe_post A ''/refunds'' [(''charge'', chargeID)] idempotencyKey) (\<lambda>b.
              if js_str b ''id'' = [] then errM ''stripe: empty id in refund response''
              else ret \<lparr>rf_ID = js_str b ''id'', rf_Amount = js_int b ''amount'', rf_Status = js_str b ''status''\<rparr>))"

definition billing_ReportUsage :: "stripe_api \<Rightarrow> bill_config option \<Rightarrow> string \<Rightarrow> string \<Rightarrow> (bill_world, unit) proc" where
  "billing_ReportUsage A svc customerID identifier =
     (case svc of None \<Rightarrow> ret ()
      | Some c \<Rightarrow>
          if bc_MeterEvent c = [] then ret ()
          else if customerID = [] then errM ''billing: report usage needs a customer''
          else
            bindM (stripe_post A ''/billing/meter_events''
              ([(''event_name'', bc_MeterEvent c), (''payload[stripe_customer_id]'', customerID), (''payload[value]'', ''1'')] @
               (if identifier \<noteq> [] then [(''identifier'', identifier)] else [])) identifier) (\<lambda>_. ret ()))"

subsection \<open>Signed events\<close>

definition webhookTolerance :: duration where
  "webhookTolerance = 5 * nsMinute"

text \<open>\<open>strings.Cut\<close> at an equals sign, \<open>hex.DecodeString\<close> and \<open>time.Unix\<close>, whose seconds wrap around when they are moved to the year 1.\<close>

definition cut_eq :: "string \<Rightarrow> (string \<times> string) option" where
  "cut_eq s = (if CHR ''='' \<in> set s then Some (takeWhile (\<lambda>c. c \<noteq> CHR ''='') s, tl (dropWhile (\<lambda>c. c \<noteq> CHR ''='') s)) else None)"

definition hex_val :: "char \<Rightarrow> nat option" where
  "hex_val c =
     (let n = of_char c :: nat in
      if 48 \<le> n \<and> n \<le> 57 then Some (n - 48) else if 97 \<le> n \<and> n \<le> 102 then Some (n - 87) else if 65 \<le> n \<and> n \<le> 70 then Some (n - 55) else None)"

fun hexDecode :: "string \<Rightarrow> bytes option" where
  "hexDecode [] = Some []"
| "hexDecode [c] = None"
| "hexDecode (c # d # s) =
     (case (hex_val c, hex_val d, hexDecode s) of (Some a, Some b, Some r) \<Rightarrow> Some (char_of (16 * a + b) # r) | _ \<Rightarrow> None)"

definition time_Unix :: "int \<Rightarrow> gotime" where
  "time_Unix sec = (((sec + 62135596800 + 2 ^ 63) mod 2 ^ 64 - 2 ^ 63) - 62135596800) * nsSecond"

fun signature_parts :: "string list \<Rightarrow> string \<times> string list \<Rightarrow> string \<times> string list" where
  "signature_parts [] acc = acc"
| "signature_parts (part # parts) (ts, v1) =
     (case cut_eq (TrimSpace part) of
        None \<Rightarrow> signature_parts parts (ts, v1)
      | Some (k, v) \<Rightarrow>
          if k = ''t'' then signature_parts parts (v, v1)
          else if k = ''v1'' then signature_parts parts (ts, v1 @ [v])
          else signature_parts parts (ts, v1))"

definition parseSignatureHeader :: "string \<Rightarrow> string \<times> string list" where
  "parseSignatureHeader h = signature_parts (split_on (CHR '','') h) ([], [])"

definition VerifyWebhook :: "(bytes \<Rightarrow> bytes \<Rightarrow> bytes) \<Rightarrow> bill_config option \<Rightarrow> gotime \<Rightarrow> bytes \<Rightarrow> string \<Rightarrow> string option" where
  "VerifyWebhook hmac svc now payload sigHeader =
     (case svc of
        None \<Rightarrow> Some ''billing: Stripe is not configured''
      | Some c \<Rightarrow>
          (case parseSignatureHeader sigHeader of
             (ts, sigs) \<Rightarrow>
               if ts = [] \<or> sigs = [] then Some ''stripe: malformed Stripe-Signature header''
               else if \<not> snd (ParseInt ts) then Some ''stripe: bad timestamp in signature''
               else
                 (let d = time_Sub now (time_Unix (fst (ParseInt ts))) in
                  if d > webhookTolerance \<or> d < - webhookTolerance then Some ''stripe: webhook timestamp outside tolerance''
                  else if \<exists>sg \<in> set sigs. hexDecode sg = Some (hmac (bc_WebhookSecret c) (ts @ ''.'' @ payload)) then None
                  else Some ''stripe: webhook signature does not match'')))"

text \<open>What \<open>json.Unmarshal\<close> leaves in the anonymous structure of \<open>ParseWebhook\<close>.\<close>

record stripe_env =
  en_ID :: string
  en_Created :: int
  en_Type :: string
  en_ObjectID :: string
  en_Customer :: string
  en_Status :: string
  en_ItemPrices :: "string list"

record WebhookEvent =
  we_ID :: string
  we_Created :: gotime
  we_Type :: string
  we_CustomerID :: string
  we_SubscriptionID :: string
  we_Status :: string
  we_PriceIDs :: "string list"

definition ParseWebhook :: "(bytes \<Rightarrow> stripe_env option) \<Rightarrow> bytes \<Rightarrow> WebhookEvent option" where
  "ParseWebhook decode payload =
     map_option (\<lambda>e. \<lparr>we_ID = en_ID e, we_Created = time_Unix (en_Created e), we_Type = en_Type e, we_CustomerID = en_Customer e,
       we_SubscriptionID = en_ObjectID e, we_Status = en_Status e, we_PriceIDs = filter (\<lambda>p. p \<noteq> []) (en_ItemPrices e)\<rparr>) (decode payload)"

definition SubscriptionActive :: "string \<Rightarrow> bool" where
  "SubscriptionActive status = (status = ''active'' \<or> status = ''trialing'')"

definition IsSubscriptionEvent :: "string \<Rightarrow> bool" where
  "IsSubscriptionEvent t =
     (t = ''customer.subscription.created'' \<or> t = ''customer.subscription.updated'' \<or> t = ''customer.subscription.deleted'')"

subsection \<open>Handlers\<close>

definition bill_db :: "(account_db \<Rightarrow> (account_error + 'a) \<times> account_db) \<Rightarrow> (bill_world, 'a) proc" where
  "bill_db f = call (\<lambda>w. case f (bw_db w) of (r, db) \<Rightarrow> (case r of Inl _ \<Rightarrow> Inl ''account store'' | Inr a \<Rightarrow> Inr a, w\<lparr>bw_db := db\<rparr>))"

definition bill_audit :: "text_lib \<Rightarrow> audit_event \<Rightarrow> (bill_world, unit) proc" where
  "bill_audit T e = ignoreM (call (\<lambda>w. (Inr (), w\<lparr>bw_db := audit_db T (bw_now w) e (bw_db w)\<rparr>)))"

definition postCancellationGrace :: duration where
  "postCancellationGrace = 7 * nsDay"

definition ensureStripeCustomer :: "text_lib \<Rightarrow> stripe_api \<Rightarrow> bill_config option \<Rightarrow> Account \<Rightarrow> string \<Rightarrow> (bill_world, string) proc" where
  "ensureStripeCustomer T A svc acct email =
     (if acct_StripeCustomerID acct \<noteq> None \<and> acct_StripeCustomerID acct \<noteq> Some [] then ret (the (acct_StripeCustomerID acct))
      else
        bindM (billing_Create T A svc (acct_ID acct) email (acct_Name acct)) (\<lambda>i.
          thenM (bill_db (SetStripeCustomerID (acct_ID acct) i)) (ret i)))"

definition bill_event :: "uuid \<Rightarrow> uuid \<Rightarrow> string \<Rightarrow> string \<Rightarrow> (string \<times> string) list \<Rightarrow> audit_event" where
  "bill_event acc actor action targetID meta =
     \<lparr>aud_AccountID = Some acc, aud_ActorID = Some actor, aud_Action = action, aud_TargetKind = ''account'', aud_TargetID = targetID,
      aud_IP = [], aud_UserAgent = [], aud_Metadata = meta\<rparr>"

definition billingCheckout :: "text_lib \<Rightarrow> stripe_api \<Rightarrow> bill_config option \<Rightarrow> string \<Rightarrow> page_ctx \<Rightarrow> string \<Rightarrow> form \<Rightarrow> (bill_world, response) proc" where
  "billingCheckout T A svc baseURL cx email frm =
     (let acct = cx_account cx; url = absoluteURL T baseURL (cx_req cx) in
      case frm of
        None \<Rightarrow> ret (HttpStatus 400)
      | Some f \<Rightarrow>
          (let plan = TrimSpace (f ''plan''); priceID = PriceID svc plan in
           if priceID = [] then ret (HttpStatus 400)
           else if acct_Plan acct \<noteq> PlanTrial then
             (case acct_StripeCustomerID acct of
                None \<Rightarrow> ret (HttpStatus 500)
              | Some cust \<Rightarrow>
                  if cust = [] then ret (HttpStatus 500)
                  else
                    bindM (tryM (Portal A svc cust (url ''/account''))) (\<lambda>r.
                      case r of Inl _ \<Rightarrow> ret (HttpStatus 500) | Inr u \<Rightarrow> ret (SeeOther u)))
           else
             bindM (tryM (ensureStripeCustomer T A svc acct email)) (\<lambda>cr.
               case cr of
                 Inl _ \<Rightarrow> ret (HttpStatus 500)
               | Inr customerID \<Rightarrow>
                   bindM (tryM (Checkout A svc customerID priceID (url ''/account?billing=success'') (url ''/account''))) (\<lambda>ur.
                     case ur of
                       Inl _ \<Rightarrow> ret (HttpStatus 500)
                     | Inr u \<Rightarrow>
                         thenM (bill_audit T (bill_event (acct_ID acct) (cx_user cx) ''billing.checkout_started'' (tx_uuid T (acct_ID acct)) [(''plan'', plan)]))
                           (ret (SeeOther u))))))"

definition billingPortal :: "text_lib \<Rightarrow> stripe_api \<Rightarrow> bill_config option \<Rightarrow> string \<Rightarrow> page_ctx \<Rightarrow> (bill_world, response) proc" where
  "billingPortal T A svc baseURL cx =
     (case acct_StripeCustomerID (cx_account cx) of
        None \<Rightarrow> ret (HttpStatus 400)
      | Some cust \<Rightarrow>
          bindM (tryM (Portal A svc cust (absoluteURL T baseURL (cx_req cx) ''/account''))) (\<lambda>r.
            case r of Inl _ \<Rightarrow> ret (HttpStatus 500) | Inr u \<Rightarrow> ret (SeeOther u)))"

text \<open>The notice of a failed payment is best effort: errors of its calls are swallowed.\<close>

definition sendPaymentFailedEmail :: "stripe_api \<Rightarrow> bill_config option \<Rightarrow> string \<Rightarrow> string \<Rightarrow> (bill_world, unit) proc" where
  "sendPaymentFailedEmail A svc baseURL customerID =
     (if customerID = [] then ret ()
      else
        bindM (tryM (bill_db (\<lambda>db. (case OwnerByStripeCustomer customerID db of None \<Rightarrow> Inl AcctNotFound | Some oc \<Rightarrow> Inr oc, db)))) (\<lambda>r.
          case r of
            Inl _ \<Rightarrow> ret ()
          | Inr owner \<Rightarrow>
              bindM (tryM (Portal A svc customerID (baseURL @ ''/account''))) (\<lambda>pr.
                let link = (case pr of Inl _ \<Rightarrow> baseURL @ ''/account'' | Inr l \<Rightarrow> if l = [] then baseURL @ ''/account'' else l) in
                ignoreM (call (\<lambda>w. (Inr (), w\<lparr>bw_mails := bw_mails w @ [(oc_OwnerEmail owner, oc_AccountName owner, link)]\<rparr>))))))"

text \<open>\<open>fresh_event\<close> is the check against the table of seen events, with what follows it for a new event.\<close>

definition fresh_event :: "WebhookEvent \<Rightarrow> (bill_world, response) proc \<Rightarrow> (bill_world, response) proc" where
  "fresh_event ev k =
     (if we_ID ev \<noteq> [] then
        bindM (tryM (bill_db (RecordStripeEvent (we_ID ev)))) (\<lambda>r.
          case r of Inl _ \<Rightarrow> ret (HttpStatus 500) | Inr fresh \<Rightarrow> if \<not> fresh then ret (HttpStatus 200) else k)
      else k)"

definition event_plan :: "bill_config option \<Rightarrow> WebhookEvent \<Rightarrow> string" where
  "event_plan svc ev = (case find (\<lambda>p. PlanForPrice svc p \<noteq> PlanTrial) (we_PriceIDs ev) of None \<Rightarrow> PlanTrial | Some p \<Rightarrow> PlanForPrice svc p)"

definition sync_event :: "bill_config option \<Rightarrow> WebhookEvent \<Rightarrow> (bill_world, response) proc" where
  "sync_event svc ev =
     (if we_Type ev = ''customer.subscription.deleted'' then
        bindM (getM bw_now) (\<lambda>now.
          bindM (tryM (bill_db (HandleSubscriptionCanceled (we_CustomerID ev) (we_Created ev) (now + postCancellationGrace)))) (\<lambda>r.
            case r of Inl _ \<Rightarrow> ret (HttpStatus 500) | Inr _ \<Rightarrow> ret (HttpStatus 200)))
      else
        bindM (tryM (bill_db (SyncSubscription (we_CustomerID ev) (we_SubscriptionID ev) (we_Status ev) (event_plan svc ev) (we_Created ev)))) (\<lambda>r.
          case r of Inl _ \<Rightarrow> ret (HttpStatus 500) | Inr _ \<Rightarrow> ret (HttpStatus 200)))"

definition stripeWebhook ::
    "(bytes \<Rightarrow> bytes \<Rightarrow> bytes) \<Rightarrow> (bytes \<Rightarrow> stripe_env option) \<Rightarrow> stripe_api \<Rightarrow> bill_config option \<Rightarrow> string \<Rightarrow> bytes option \<Rightarrow> string \<Rightarrow> (bill_world, response) proc" where
  "stripeWebhook hmac decode A svc baseURL body sigHeader =
     (case body of
        None \<Rightarrow> ret (HttpStatus 400)
      | Some b \<Rightarrow>
          bindM (getM bw_now) (\<lambda>now.
            if VerifyWebhook hmac svc now (take (2 ^ 20) b) sigHeader \<noteq> None then ret (HttpStatus 400)
            else
              (case ParseWebhook decode (take (2 ^ 20) b) of
                 None \<Rightarrow> ret (HttpStatus 400)
               | Some ev \<Rightarrow>
                   if we_Type ev = ''invoice.payment_failed'' then
                     fresh_event ev (thenM (sendPaymentFailedEmail A svc baseURL (we_CustomerID ev)) (ret (HttpStatus 200)))
                   else if \<not> IsSubscriptionEvent (we_Type ev) then ret (HttpStatus 200)
                   else fresh_event ev (sync_event svc ev))))"

text \<open>Refunds by staff. The page around them reads the account and its charges; its status is all that matters here.\<close>

definition renderAdminAccount :: "stripe_api \<Rightarrow> (string \<Rightarrow> string) \<Rightarrow> bill_config option \<Rightarrow> uuid \<Rightarrow> (bill_world, response) proc" where
  "renderAdminAccount A QueryEscape svc accountID =
     bindM (tryM (bill_db (\<lambda>db. (GetAccount accountID db, db)))) (\<lambda>r.
       case r of
         Inl _ \<Rightarrow> ret (HttpStatus 404)
       | Inr acct \<Rightarrow>
           (let cust = (case acct_StripeCustomerID acct of None \<Rightarrow> [] | Some i \<Rightarrow> i) in
            if svc = None \<or> cust = [] then ret (HttpStatus 200)
            else thenM (ignoreM (ListCharges A QueryEscape svc cust)) (ret (HttpStatus 200))))"

definition adminRefund :: "text_lib \<Rightarrow> stripe_api \<Rightarrow> (string \<Rightarrow> string) \<Rightarrow> bill_config option \<Rightarrow> page_ctx \<Rightarrow> string \<Rightarrow> form \<Rightarrow> (bill_world, response) proc" where
  "adminRefund T A QueryEscape svc cx i frm =
     (case tx_parse_uuid T i of
        None \<Rightarrow> ret (HttpStatus 404)
      | Some accountID \<Rightarrow>
          (case frm of
             None \<Rightarrow> ret (HttpStatus 400)
           | Some f \<Rightarrow>
               (let chargeID = TrimSpace (f ''charge_id'') in
                if chargeID = [] then renderAdminAccount A QueryEscape svc accountID
                else
                  bindM (tryM (Refund A svc chargeID (''admin-refund-'' @ chargeID))) (\<lambda>r.
                    case r of
                      Inl _ \<Rightarrow> renderAdminAccount A QueryEscape svc accountID
                    | Inr res \<Rightarrow>
                        thenM (bill_audit T ((bill_event accountID (cx_user cx) ''staff.refund_issued'' (tx_uuid T accountID)
                            [(''charge_id'', chargeID), (''refund_id'', rf_ID res), (''amount'', dec_int (rf_Amount res)), (''status'', rf_Status res)])
                            \<lparr>aud_IP := ClientIP (cx_req cx), aud_UserAgent := rq_UserAgent (cx_req cx)\<rparr>))
                          (ret (SeeOther (''/admin/accounts/'' @ tx_uuid T accountID @ ''?refunded='' @ rf_ID res)))))))"

section \<open>The state of a subscription\<close>

definition sub_view :: "acct_row \<Rightarrow> string \<times> string option \<times> string option \<times> gotime option" where
  "sub_view a = (acct_Plan a, acct_SubscriptionID a, acct_SubscriptionStatus a, acct_StatusUpdatedAt a)"

definition event_view :: "bill_config option \<Rightarrow> WebhookEvent \<Rightarrow> string \<times> string option \<times> string option \<times> gotime option" where
  "event_view svc ev =
     (if we_Type ev = ''customer.subscription.deleted'' then (PlanTrial, None, Some ''canceled'', Some (we_Created ev))
      else (event_plan svc ev, nullif_text (we_SubscriptionID ev), nullif_text (we_Status ev), Some (we_Created ev)))"

definition applies :: "WebhookEvent \<Rightarrow> acct_row \<Rightarrow> bool" where
  "applies ev a \<longleftrightarrow> acct_StripeCustomerID a = Some (we_CustomerID ev) \<and> newer_event (we_Created ev) a"

text \<open>A subscription event as the provider sends it, in a request that is verified.\<close>

definition sub_event :: "WebhookEvent \<Rightarrow> bool" where
  "sub_event ev \<longleftrightarrow> IsSubscriptionEvent (we_Type ev) \<and> we_ID ev \<noteq> [] \<and>
     list_all pg_text_ok [we_ID ev, we_CustomerID ev, we_SubscriptionID ev, we_Status ev]"

definition carries ::
    "(bytes \<Rightarrow> bytes \<Rightarrow> bytes) \<Rightarrow> (bytes \<Rightarrow> stripe_env option) \<Rightarrow> bill_config option \<Rightarrow> gotime \<Rightarrow> bytes \<times> string \<Rightarrow> WebhookEvent \<Rightarrow> bool" where
  "carries hmac decode svc now r ev \<longleftrightarrow> VerifyWebhook hmac svc now (take (2 ^ 20) (fst r)) (snd r) = None \<and>
     ParseWebhook decode (take (2 ^ 20) (fst r)) = Some ev \<and> sub_event ev"

lemma event_plan_known: "event_plan svc ev \<in> set [PlanTrial, PlanStarter, PlanPro, PlanScale]"
  by (auto simp: event_plan_def PlanForPrice_def split: option.splits)

lemma event_plan_text: "pg_text_ok (event_plan svc ev)"
proof -
  have "pg_text_ok PlanTrial" "pg_text_ok PlanStarter" "pg_text_ok PlanPro" "pg_text_ok PlanScale" by code_simp+
  with event_plan_known [of svc ev] show ?thesis by auto
qed

lemma bill_db_ok: "f (bw_db w) = (Inr a, db) \<Longrightarrow> bill_db f [] w = (Ret a, [], w\<lparr>bw_db := db\<rparr>)"
  by (simp add: bill_db_def call_ok)

lemma sync_event_run:
  assumes "sub_event ev"
  obtains f where "sync_event svc ev [] w = (Ret (HttpStatus 200), [], w\<lparr>bw_db := upd_account (applies ev) f (bw_db w)\<rparr>)"
    "\<And>a. sub_view (f a) = event_view svc ev" "\<And>a. acct_ID (f a) = acct_ID a" "\<And>a. acct_StripeCustomerID (f a) = acct_StripeCustomerID a"
proof -
  have a: "applies ev = (\<lambda>a. acct_StripeCustomerID a = Some (we_CustomerID ev) \<and> newer_event (we_Created ev) a)"
    by (simp add: applies_def fun_eq_iff)
  show ?thesis
  proof (cases "we_Type ev = ''customer.subscription.deleted''")
    case True
    let ?f = "\<lambda>a. a\<lparr>acct_Plan := PlanTrial, acct_SubscriptionID := None, acct_SubscriptionStatus := Some ''canceled'',
          acct_StatusUpdatedAt := Some (we_Created ev), acct_TrialEndsAt := Some (bw_now w + postCancellationGrace)\<rparr>"
    have "HandleSubscriptionCanceled (we_CustomerID ev) (we_Created ev) (bw_now w + postCancellationGrace) (bw_db w) = (Inr (), upd_account (applies ev) ?f (bw_db w))"
      using assms by (simp add: HandleSubscriptionCanceled_def sub_event_def a)
    from bill_db_ok [where f = "HandleSubscriptionCanceled (we_CustomerID ev) (we_Created ev) (bw_now w + postCancellationGrace)", OF this]
    have "sync_event svc ev [] w = (Ret (HttpStatus 200), [], w\<lparr>bw_db := upd_account (applies ev) ?f (bw_db w)\<rparr>)"
      using True by (simp add: sync_event_def bindM_def tryM_def getM_def ret_def)
    then show ?thesis by (rule that) (simp_all add: sub_view_def event_view_def True)
  next
    case False
    let ?f = "\<lambda>a. a\<lparr>acct_Plan := event_plan svc ev, acct_SubscriptionID := nullif_text (we_SubscriptionID ev),
        acct_SubscriptionStatus := nullif_text (we_Status ev), acct_StatusUpdatedAt := Some (we_Created ev)\<rparr>"
    have "SyncSubscription (we_CustomerID ev) (we_SubscriptionID ev) (we_Status ev) (event_plan svc ev) (we_Created ev) (bw_db w) =
        (Inr (), upd_account (applies ev) ?f (bw_db w))"
      using assms event_plan_known [of svc ev] event_plan_text [of svc ev] by (simp add: SyncSubscription_def sub_event_def a Let_def)
    from bill_db_ok [where f = "SyncSubscription (we_CustomerID ev) (we_SubscriptionID ev) (we_Status ev) (event_plan svc ev) (we_Created ev)", OF this]
    have "sync_event svc ev [] w = (Ret (HttpStatus 200), [], w\<lparr>bw_db := upd_account (applies ev) ?f (bw_db w)\<rparr>)"
      using False by (simp add: sync_event_def bindM_def tryM_def ret_def)
    then show ?thesis by (rule that) (simp_all add: sub_view_def event_view_def False)
  qed
qed

lemma webhook_run:
  assumes "carries hmac decode svc (bw_now w) (b, sg) ev"
  shows "stripeWebhook hmac decode A svc baseURL (Some b) sg fs w = fresh_event ev (sync_event svc ev) fs w"
proof -
  have "we_Type ev \<noteq> ''invoice.payment_failed''" "IsSubscriptionEvent (we_Type ev)"
    using assms by (auto simp: carries_def sub_event_def IsSubscriptionEvent_def)
  then show ?thesis using assms by (simp add: carries_def stripeWebhook_def bindM_def getM_def)
qed

lemma seen_event: "sub_event ev \<Longrightarrow> we_ID ev \<in> set (ad_events (bw_db w)) \<Longrightarrow> fresh_event ev k [] w = (Ret (HttpStatus 200), [], w)"
  using bill_db_ok [of "RecordStripeEvent (we_ID ev)" w False "bw_db w"]
  by (simp add: fresh_event_def sub_event_def RecordStripeEvent_def bindM_def tryM_def ret_def)

lemma new_event:
  "sub_event ev \<Longrightarrow> we_ID ev \<notin> set (ad_events (bw_db w)) \<Longrightarrow>
     fresh_event ev k [] w = k [] (w\<lparr>bw_db := (bw_db w)\<lparr>ad_events := ad_events (bw_db w) @ [we_ID ev]\<rparr>\<rparr>)"
  using bill_db_ok [of "RecordStripeEvent (we_ID ev)" w True "(bw_db w)\<lparr>ad_events := ad_events (bw_db w) @ [we_ID ev]\<rparr>"]
  by (simp add: fresh_event_def sub_event_def RecordStripeEvent_def bindM_def tryM_def)

text \<open>
  Deliveries of the provider: each one comes at a time of its own, with the body and the signature it has then.
\<close>

definition stripe_deliver ::
    "(bytes \<Rightarrow> bytes \<Rightarrow> bytes) \<Rightarrow> (bytes \<Rightarrow> stripe_env option) \<Rightarrow> stripe_api \<Rightarrow> bill_config option \<Rightarrow> string \<Rightarrow> (gotime \<times> bytes \<times> string) list \<Rightarrow> bill_world \<Rightarrow> bill_world" where
  "stripe_deliver hmac decode A svc baseURL rs w =
     fold (\<lambda>(t, b, sg) w. final (stripeWebhook hmac decode A svc baseURL (Some b) sg [] (w\<lparr>bw_now := t\<rparr>))) rs w"

abbreviation arrives ::
    "(bytes \<Rightarrow> bytes \<Rightarrow> bytes) \<Rightarrow> (bytes \<Rightarrow> stripe_env option) \<Rightarrow> bill_config option \<Rightarrow> gotime \<times> bytes \<times> string \<Rightarrow> WebhookEvent \<Rightarrow> bool" where
  "arrives hmac decode svc r ev \<equiv> carries hmac decode svc (fst r) (snd r) ev"

definition newest :: "string \<Rightarrow> WebhookEvent set \<Rightarrow> WebhookEvent \<Rightarrow> bool" where
  "newest c E e \<longleftrightarrow> e \<in> E \<and> we_CustomerID e = c \<and> (\<forall>e' \<in> E. we_CustomerID e' = c \<longrightarrow> we_Created e' \<le> we_Created e)"

text \<open>
  The row of an account after some events: that of the newest one for its customer, or untouched when the row is
  newer than each of them.
\<close>

definition row_after :: "bill_config option \<Rightarrow> acct_row \<Rightarrow> WebhookEvent set \<Rightarrow> acct_row \<Rightarrow> bool" where
  "row_after svc a E a' \<longleftrightarrow> acct_ID a' = acct_ID a \<and> acct_StripeCustomerID a' = acct_StripeCustomerID a \<and>
     (if \<exists>e \<in> E. applies e a then \<exists>e. newest (the (acct_StripeCustomerID a)) E e \<and> sub_view a' = event_view svc e else sub_view a' = sub_view a)"

lemma event_view_time: "sub_view a = event_view svc e \<Longrightarrow> acct_StatusUpdatedAt a = Some (we_Created e)"
  by (auto simp: sub_view_def event_view_def split: if_splits)

lemma applies_view:
  "acct_StripeCustomerID a' = acct_StripeCustomerID a \<Longrightarrow> sub_view a' = sub_view a \<Longrightarrow> applies ev a' \<longleftrightarrow> applies ev a"
  by (simp add: applies_def newer_event_def sub_view_def)

lemma first_newest:
  assumes "applies ev a" and "\<not> (\<exists>e \<in> E. applies e a)"
  shows "newest (we_CustomerID ev) (insert ev E) ev"
proof -
  have "we_Created e \<le> we_Created ev" if "e \<in> E" "we_CustomerID e = we_CustomerID ev" for e
    using assms that by (cases "acct_StatusUpdatedAt a") (auto simp: applies_def newer_event_def)
  then show ?thesis by (auto simp: newest_def)
qed

lemma row_after_step:
  assumes r: "row_after svc a E a'"
    and f: "\<And>x. sub_view (f x) = event_view svc ev" "\<And>x. acct_ID (f x) = acct_ID x" "\<And>x. acct_StripeCustomerID (f x) = acct_StripeCustomerID x"
  shows "row_after svc a (insert ev E) (if applies ev a' then f a' else a')"
proof -
  have cust: "acct_StripeCustomerID a' = acct_StripeCustomerID a" using r by (simp add: row_after_def)
  have ids: "acct_ID (if applies ev a' then f a' else a') = acct_ID a" "acct_StripeCustomerID (if applies ev a' then f a' else a') = acct_StripeCustomerID a"
    using r f(2,3) by (simp_all add: row_after_def)
  show ?thesis
  proof (cases "\<exists>e \<in> E. applies e a")
    case False
    then have same: "applies ev a' \<longleftrightarrow> applies ev a" using r applies_view [OF cust] by (simp add: row_after_def)
    show ?thesis
    proof (cases "applies ev a")
      case True
      then have "newest (the (acct_StripeCustomerID a)) (insert ev E) ev" using first_newest [OF True False] by (simp add: applies_def)
      then show ?thesis using ids True f(1) same by (auto simp: row_after_def)
    next
      case napp: False
      then show ?thesis using ids False same r by (auto simp: row_after_def)
    qed
  next
    case True
    then obtain e c where e: "newest c E e" "sub_view a' = event_view svc e" and c: "acct_StripeCustomerID a = Some c"
      using r by (auto simp: row_after_def applies_def)
    have t: "applies ev a' \<longleftrightarrow> we_CustomerID ev = c \<and> we_Created e \<le> we_Created ev"
      using event_view_time [OF e(2)] c cust by (auto simp: applies_def newer_event_def)
    show ?thesis
    proof (cases "applies ev a'")
      case app: True
      then have "newest c (insert ev E) ev" using e(1) t by (auto simp: newest_def)
      then show ?thesis using ids app f(1) True c by (auto simp: row_after_def)
    next
      case napp: False
      then have "newest c (insert ev E) e" using e(1) t by (auto simp: newest_def)
      then show ?thesis using ids napp e(2) True c by (auto simp: row_after_def)
    qed
  qed
qed

lemma deliver_rows:
  assumes "\<And>r. r \<in> set rs \<Longrightarrow> arrives hmac decode svc r (ev r)"
    and "inj_on we_ID (ev ` set rs)" and "set (ad_events (bw_db w)) \<inter> we_ID ` ev ` set rs = {}"
    and "i < length (ad_accounts (bw_db w))"
  shows "let w' = stripe_deliver hmac decode A svc baseURL rs w in set (ad_events (bw_db w')) = set (ad_events (bw_db w)) \<union> we_ID ` ev ` set rs \<and>
    length (ad_accounts (bw_db w')) = length (ad_accounts (bw_db w)) \<and>
    row_after svc (ad_accounts (bw_db w) ! i) (ev ` set rs) (ad_accounts (bw_db w') ! i)"
  using assms unfolding Let_def
proof (induction rs rule: rev_induct)
  case Nil
  then show ?case by (simp add: stripe_deliver_def row_after_def)
next
  case (snoc r rs)
  obtain t b sg where r: "r = (t, b, sg)" by (cases r)
  let ?u = "stripe_deliver hmac decode A svc baseURL rs w"
  let ?w = "?u\<lparr>bw_now := t\<rparr>"
  have IH: "set (ad_events (bw_db ?u)) = set (ad_events (bw_db w)) \<union> we_ID ` ev ` set rs"
    "length (ad_accounts (bw_db ?u)) = length (ad_accounts (bw_db w))"
    "row_after svc (ad_accounts (bw_db w) ! i) (ev ` set rs) (ad_accounts (bw_db ?u) ! i)"
    using snoc.IH snoc.prems by (auto simp: inj_on_def)
  have c: "carries hmac decode svc (bw_now ?w) (b, sg) (ev r)" using snoc.prems(1) [of r] r by simp
  then have sub: "sub_event (ev r)" by (simp add: carries_def)
  have step: "stripe_deliver hmac decode A svc baseURL (rs @ [r]) w = final (fresh_event (ev r) (sync_event svc (ev r)) [] ?w)"
    unfolding stripe_deliver_def using webhook_run [OF c [unfolded stripe_deliver_def]] r by simp
  show ?case
  proof (cases "we_ID (ev r) \<in> set (ad_events (bw_db ?w))")
    case True
    then have "we_ID (ev r) \<in> we_ID ` ev ` set rs" using IH(1) snoc.prems(3) by auto
    then have "ev r \<in> ev ` set rs" using snoc.prems(2) by (auto simp: inj_on_def)
    then have "ev ` set (rs @ [r]) = ev ` set rs" by auto
    then show ?thesis using IH unfolding step seen_event [OF sub True] by (simp add: final_def)
  next
    case False
    let ?v = "?w\<lparr>bw_db := (bw_db ?w)\<lparr>ad_events := ad_events (bw_db ?w) @ [we_ID (ev r)]\<rparr>\<rparr>"
    obtain f where f: "sync_event svc (ev r) [] ?v = (Ret (HttpStatus 200), [], ?v\<lparr>bw_db := upd_account (applies (ev r)) f (bw_db ?v)\<rparr>)"
      "\<And>a. sub_view (f a) = event_view svc (ev r)" "\<And>a. acct_ID (f a) = acct_ID a" "\<And>a. acct_StripeCustomerID (f a) = acct_StripeCustomerID a"
      using sync_event_run [OF sub, of svc ?v] by blast
    have w2: "stripe_deliver hmac decode A svc baseURL (rs @ [r]) w = ?v\<lparr>bw_db := upd_account (applies (ev r)) f (bw_db ?v)\<rparr>"
      unfolding step new_event [OF sub False] f(1) by (simp add: final_def)
    have "row_after svc (ad_accounts (bw_db w) ! i) (insert (ev r) (ev ` set rs)) (if applies (ev r) (ad_accounts (bw_db ?u) ! i) then f (ad_accounts (bw_db ?u) ! i) else ad_accounts (bw_db ?u) ! i)"
      by (rule row_after_step [OF IH(3) f(2-4)])
    then show ?thesis using IH(1,2) snoc.prems(4) unfolding w2 by (simp add: upd_account_def sql_update_def)
  qed
qed

subsection \<open>Signatures\<close>

lemma hex_val_digit: "k < 16 \<Longrightarrow> hex_val (hex_digit k) = Some k"
proof -
  assume "k < 16"
  then have "k \<in> set [0..<16]" by simp
  moreover have "\<forall>k \<in> set [0..<16]. hex_val (hex_digit k) = Some k" by code_simp
  ultimately show ?thesis by blast
qed

lemma nibbles: "(of_char c :: nat) div 16 < 16" "(of_char c :: nat) mod 16 < 16"
proof -
  have "(of_char c :: nat) < 16 * 16" using of_char_less_256 [of c] by simp
  then show "(of_char c :: nat) div 16 < 16" by (rule less_mult_imp_div_less)
qed simp

lemma hexDecode_hexEncode [simp]: "hexDecode (hexEncode b) = Some b"
proof (induction b)
  case (Cons c b)
  have "(of_char c :: nat) div 16 < 16" "(of_char c :: nat) mod 16 < 16" by (rule nibbles)+
  then show ?case using Cons.IH by (simp add: hexEncode_def hex_byte_def hex_val_digit)
qed (simp add: hexEncode_def)

lemma cut_eq_part: "CHR ''='' \<notin> set k \<Longrightarrow> cut_eq (k @ CHR ''='' # v) = Some (k, v)"
  by (induction k) (auto simp: cut_eq_def)

lemma hex_text: "c \<in> set (hexEncode b) \<Longrightarrow> printable c \<and> c \<noteq> CHR '',''"
proof -
  assume "c \<in> set (hexEncode b)"
  then obtain x where "c = hex_digit ((of_char x :: nat) div 16) \<or> c = hex_digit ((of_char x :: nat) mod 16)" by (auto simp: hexEncode_def hex_byte_def)
  moreover have "(of_char x :: nat) div 16 < 16" "(of_char x :: nat) mod 16 < 16" by (rule nibbles)+
  ultimately obtain k where k: "c = hex_digit k" "k \<in> set [0..<16]" by fastforce
  have "\<forall>k \<in> set [0..<16]. printable (hex_digit k) \<and> hex_digit k \<noteq> CHR '',''" by code_simp
  from bspec [OF this k(2)] show ?thesis unfolding k(1) .
qed

lemma parse_header:
  assumes "list_all is_dec ts" "ts \<noteq> []"
  shows "parseSignatureHeader (''t='' @ ts @ '',v1='' @ hexEncode m) = (ts, [hexEncode m])"
proof -
  have dec: "c \<noteq> CHR '','' \<and> printable c" if "c \<in> set ts" for c
    using assms(1) that by (auto simp: list_all_iff is_dec_def printable_def)
  have t: "TrimSpace (''t='' @ ts) = ''t='' @ ts"
    using assms(2) dec last_in_set by (intro TrimSpace_printable) (auto simp: printable_def)
  have v: "TrimSpace (''v1='' @ hexEncode m) = ''v1='' @ hexEncode m"
  proof (rule TrimSpace_printable)
    show "printable (last (''v1='' @ hexEncode m))"
      using hex_text last_in_set by (cases "hexEncode m = []") (auto simp: printable_def)
  qed (simp add: printable_def)
  have "split_on (CHR '','') (''t='' @ ts @ '',v1='' @ hexEncode m) = [''t='' @ ts, ''v1='' @ hexEncode m]"
  proof -
    have "CHR '','' \<notin> set (''t='' @ ts)" "CHR '','' \<notin> set (''v1='' @ hexEncode m)" using dec hex_text by auto
    then show ?thesis using split_on_append [of "CHR '',''" "''t='' @ ts" "''v1='' @ hexEncode m"] split_on_last [of "CHR '',''" "''v1='' @ hexEncode m"] by simp
  qed
  moreover have "cut_eq (''t='' @ ts) = Some (''t'', ts)" "cut_eq (''v1='' @ hexEncode m) = Some (''v1'', hexEncode m)"
    using cut_eq_part [of "''t''" ts] cut_eq_part [of "''v1''" "hexEncode m"] by simp_all
  ultimately show ?thesis using t v by (simp add: parseSignatureHeader_def)
qed

section \<open>Properties\<close>

text \<open>
  C9. The newest event wins. The provider delivers subscription events in any order and any number of times, each delivery at its
  own time and with a signature that is valid then, and the handler runs without faults. None of the events was recorded
  before, and no two of them have one identifier. If the newest event for the customer of an account is unique (no other
  event for this customer has the same second of creation) and is not older than what the account row was last set from,
  then in the end the account has the plan, the subscription, the status and the status time that this event gives.
\<close>

theorem newest_event_wins:
  assumes "\<And>r. r \<in> set rs \<Longrightarrow> arrives hmac decode svc r (ev r)"
    and "inj_on we_ID (ev ` set rs)" and "set (ad_events (bw_db w)) \<inter> we_ID ` ev ` set rs = {}"
    and "i < length (ad_accounts (bw_db w))"
    and "acct_StripeCustomerID (ad_accounts (bw_db w) ! i) = Some c" and "newest c (ev ` set rs) e"
    and "\<And>e'. newest c (ev ` set rs) e' \<Longrightarrow> e' = e"
    and "\<And>t. acct_StatusUpdatedAt (ad_accounts (bw_db w) ! i) = Some t \<Longrightarrow> t \<le> we_Created e"
  shows "acct_ID (ad_accounts (bw_db (stripe_deliver hmac decode A svc baseURL rs w)) ! i) = acct_ID (ad_accounts (bw_db w) ! i) \<and>
    sub_view (ad_accounts (bw_db (stripe_deliver hmac decode A svc baseURL rs w)) ! i) = event_view svc e"
proof -
  have "e \<in> ev ` set rs" "applies e (ad_accounts (bw_db w) ! i)"
    using assms(5,6,8) by (auto simp: newest_def applies_def newer_event_def split: option.splits)
  then have "\<exists>e' \<in> ev ` set rs. applies e' (ad_accounts (bw_db w) ! i)" by blast
  then show ?thesis
    using deliver_rows [OF assms(1-4), where A = A and baseURL = baseURL] assms(5,7) unfolding Let_def row_after_def by auto
qed

text \<open>
  C35. An event that is lost. The event is recorded as seen before the account is changed. When this change fails, the provider
  is told to send the event again; but each repetition, at whatever time and with whatever valid signature it comes,
  is then answered as a duplicate, and the account never takes the plan, or the cancellation, of this event.
\<close>

theorem stripe_event_lost:
  assumes "carries hmac decode svc (bw_now w) (b, sg) ev" and "we_ID ev \<notin> set (ad_events (bw_db w))"
  shows "\<exists>w1. stripeWebhook hmac decode A svc baseURL (Some b) sg [NoFault, FailBefore err] w = (Ret (HttpStatus 500), [], w1) \<and>
    ad_accounts (bw_db w1) = ad_accounts (bw_db w) \<and>
    stripeWebhook hmac decode A svc baseURL (Some b) sg [] w1 = (Ret (HttpStatus 200), [], w1) \<and>
    (\<forall>n. stripe_deliver hmac decode A svc baseURL (replicate n (bw_now w, b, sg)) w1 = w1) \<and>
    (\<forall>rs. (\<forall>r \<in> set rs. arrives hmac decode svc r ev) \<longrightarrow> (\<exists>t. stripe_deliver hmac decode A svc baseURL rs w1 = w1\<lparr>bw_now := t\<rparr>))"
proof -
  have sub: "sub_event ev" using assms(1) by (simp add: carries_def)
  let ?w1 = "w\<lparr>bw_db := (bw_db w)\<lparr>ad_events := ad_events (bw_db w) @ [we_ID ev]\<rparr>\<rparr>"
  have rec: "bill_db (RecordStripeEvent (we_ID ev)) [NoFault, FailBefore err] w = (Ret True, [FailBefore err], ?w1)"
    using sub assms(2) by (simp add: bill_db_def call_def RecordStripeEvent_def sub_event_def)
  have "sync_event svc ev [FailBefore err] ?w1 = (Ret (HttpStatus 500), [], ?w1)"
    by (simp add: sync_event_def bindM_def tryM_def getM_def bill_db_def call_def Let_def ret_def)
  then have first: "stripeWebhook hmac decode A svc baseURL (Some b) sg [NoFault, FailBefore err] w = (Ret (HttpStatus 500), [], ?w1)"
    using sub by (simp add: webhook_run [OF assms(1)] fresh_event_def bindM_def tryM_def rec sub_event_def)
  have again: "stripeWebhook hmac decode A svc baseURL (Some b') sg' [] (?w1\<lparr>bw_now := t\<rparr>) = (Ret (HttpStatus 200), [], ?w1\<lparr>bw_now := t\<rparr>)"
    if "carries hmac decode svc t (b', sg') ev" for t b' sg'
  proof -
    have c1: "carries hmac decode svc (bw_now (?w1\<lparr>bw_now := t\<rparr>)) (b', sg') ev" using that by simp
    show ?thesis using sub by (simp only: webhook_run [OF c1]) (simp add: seen_event)
  qed
  have w1: "?w1\<lparr>bw_now := bw_now w\<rparr> = ?w1" by simp
  have "stripe_deliver hmac decode A svc baseURL (replicate n (bw_now w, b, sg)) ?w1 = ?w1" for n
    using again [OF assms(1)] unfolding w1 by (induction n) (simp_all add: stripe_deliver_def final_def)
  moreover have "\<exists>t. stripe_deliver hmac decode A svc baseURL rs ?w1 = ?w1\<lparr>bw_now := t\<rparr>" if "\<forall>r \<in> set rs. arrives hmac decode svc r ev" for rs
    using that
  proof (induction rs rule: rev_induct)
    case (snoc r rs)
    then obtain t where "stripe_deliver hmac decode A svc baseURL rs ?w1 = ?w1\<lparr>bw_now := t\<rparr>" by auto
    moreover obtain t' b' sg' where "r = (t', b', sg')" by (cases r)
    ultimately show ?case using snoc.prems again [of t' b' sg'] by (auto simp: stripe_deliver_def final_def)
  qed (auto simp: stripe_deliver_def intro: exI [of _ "bw_now w"])
  ultimately show ?thesis using first again [OF assms(1)] unfolding w1 by (intro exI [of _ ?w1]) simp
qed

text \<open>
  A plan without a payment. The handler looks at the prices of a subscription and not at its status: a subscription whose status
  says that nothing was paid (\<open>SubscriptionActive\<close> is false) gives the account its paid plan all the same.
\<close>

theorem unpaid_plan:
  assumes "carries hmac decode svc (bw_now w) (b, sg) ev" and "we_ID ev \<notin> set (ad_events (bw_db w))"
    and "we_Type ev \<noteq> ''customer.subscription.deleted''" and "\<not> SubscriptionActive (we_Status ev)" and "event_plan svc ev \<noteq> PlanTrial"
    and "i < length (ad_accounts (bw_db w))" and "applies ev (ad_accounts (bw_db w) ! i)"
  shows "\<exists>w'. stripeWebhook hmac decode A svc baseURL (Some b) sg [] w = (Ret (HttpStatus 200), [], w') \<and>
    IsPaid (acct_Plan (ad_accounts (bw_db w') ! i))"
proof -
  have sub: "sub_event ev" using assms(1) by (simp add: carries_def)
  let ?v = "w\<lparr>bw_db := (bw_db w)\<lparr>ad_events := ad_events (bw_db w) @ [we_ID ev]\<rparr>\<rparr>"
  obtain f where f: "sync_event svc ev [] ?v = (Ret (HttpStatus 200), [], ?v\<lparr>bw_db := upd_account (applies ev) f (bw_db ?v)\<rparr>)"
    "\<And>a. sub_view (f a) = event_view svc ev" "\<And>a. acct_ID (f a) = acct_ID a" "\<And>a. acct_StripeCustomerID (f a) = acct_StripeCustomerID a"
    using sync_event_run [OF sub, of svc ?v] by blast
  have "acct_Plan (f a) = event_plan svc ev" for a using f(2) [of a] assms(3) by (simp add: sub_view_def event_view_def)
  moreover have "IsPaid (event_plan svc ev)" using event_plan_known [of svc ev] assms(5) by (auto simp: IsPaid_def)
  moreover have "stripeWebhook hmac decode A svc baseURL (Some b) sg [] w = (Ret (HttpStatus 200), [], ?v\<lparr>bw_db := upd_account (applies ev) f (bw_db ?v)\<rparr>)"
    by (simp only: webhook_run [OF assms(1)] new_event [OF sub assms(2)] f(1))
  ultimately show ?thesis
    using assms(6,7) by (intro exI [of _ "?v\<lparr>bw_db := upd_account (applies ev) f (bw_db ?v)\<rparr>"]) (simp add: upd_account_def sql_update_def)
qed

text \<open>
  Signatures of events. A header as the provider writes it, with a time and one signature, is accepted exactly when
  the time is at most five minutes from now on either side and the signature is the one of that time and of the body.
\<close>

theorem stripe_signature:
  assumes "0 \<le> t" and "t < 2 ^ 62"
  shows "VerifyWebhook hmac (Some c) now payload (''t='' @ dec_nat (nat t) @ '',v1='' @ hexEncode m) = None \<longleftrightarrow>
    \<bar>now - t * nsSecond\<bar> \<le> 5 * nsMinute \<and> m = hmac (bc_WebhookSecret c) (dec_nat (nat t) @ ''.'' @ payload)"
proof -
  have d: "list_all is_dec (dec_nat (nat t))" "dec_nat (nat t) \<noteq> []" by (rule dec_nat_is_dec) (subst dec_nat.simps, simp)
  have "is_dec (hd (dec_nat (nat t)))" using d by (simp add: list_all_iff)
  moreover have "\<not> is_dec (CHR ''-'')" "\<not> is_dec (CHR ''+'')" by (simp_all add: is_dec_def)
  ultimately have "hd (dec_nat (nat t)) \<noteq> CHR ''-'' \<and> hd (dec_nat (nat t)) \<noteq> CHR ''+''" by metis
  then have p: "ParseInt (dec_nat (nat t)) = (t, True)"
    using assms d by (simp add: ParseInt_def Let_def)
  have u: "time_Unix t = t * nsSecond" using assms by (simp add: time_Unix_def)
  have "time_Sub now (t * nsSecond) > webhookTolerance \<or> time_Sub now (t * nsSecond) < - webhookTolerance \<longleftrightarrow> \<bar>now - t * nsSecond\<bar> > 5 * nsMinute"
    by (auto simp: time_Sub_def webhookTolerance_def)
  then show ?thesis
    using d(2) unfolding VerifyWebhook_def parse_header [OF d] by (auto simp: p u Let_def)
qed

section \<open>Examples\<close>

definition toy_config :: bill_config where
  "toy_config = \<lparr>bc_SecretKey = ''k'', bc_WebhookSecret = ''w'', bc_PriceStarter = ''ps'', bc_PricePro = ''pp'', bc_PriceScale = ''px'', bc_MeterEvent = []\<rparr>"

text \<open>Two events of one customer, the upgrade created after the first subscription and delivered before it.\<close>

definition toy_decode :: "bytes \<Rightarrow> stripe_env option" where
  "toy_decode b =
     Some (if b = ''u'' then \<lparr>en_ID = ''e2'', en_Created = 20, en_Type = ''customer.subscription.updated'', en_ObjectID = ''sub'', en_Customer = ''cus'', en_Status = ''incomplete'', en_ItemPrices = [''seat'', ''pp'']\<rparr>
           else \<lparr>en_ID = ''e1'', en_Created = 10, en_Type = ''customer.subscription.created'', en_ObjectID = ''sub'', en_Customer = ''cus'', en_Status = ''active'', en_ItemPrices = [''ps'']\<rparr>)"

definition toy_event :: "gotime \<times> bytes \<times> string \<Rightarrow> WebhookEvent" where
  "toy_event r = the (ParseWebhook toy_decode (fst (snd r)))"

definition toy_sig :: "bytes \<Rightarrow> bytes \<Rightarrow> bytes" where
  "toy_sig k b = []"

definition toy_header :: string where
  "toy_header = ''t='' @ dec_nat (nat 0) @ '',v1='' @ hexEncode []"

definition paying_world :: bill_world where
  "paying_world = \<lparr>bw_db = two_users\<lparr>ad_accounts := [\<lparr>acct_ID = 7, acct_Name = [], acct_Slug = [], acct_StripeCustomerID = Some ''cus'', acct_Plan = PlanTrial,
     acct_CreatedAt = 0, acct_TrialEndsAt = None, acct_SubscriptionStatus = None, acct_Unlimited = False, acct_deleted_at = None, acct_SubscriptionID = None,
     acct_StatusUpdatedAt = None\<rparr>]\<rparr>, bw_log = [], bw_mails = [], bw_now = 0\<rparr>"

theorem stripe_signature_witness:
  "VerifyWebhook toy_sig (Some toy_config) 0 ''x'' (''t='' @ dec_nat (nat 0) @ '',v1='' @ hexEncode []) = None"
  using stripe_signature [of 0 toy_sig toy_config 0 "''x''" "[]"] by (simp add: toy_sig_def)

lemma toy_verified:
  assumes "0 \<le> now" and "now \<le> 5 * nsMinute"
  shows "VerifyWebhook toy_sig (Some toy_config) now b toy_header = None"
proof -
  have d: "list_all is_dec (dec_nat (nat 0))" "dec_nat (nat 0) \<noteq> []" "dec_nat (nat 0) = ''0''" by code_simp+
  have "snd (ParseInt ''0'')" "fst (ParseInt ''0'') = 0" by code_simp+
  then show ?thesis unfolding toy_header_def VerifyWebhook_def parse_header [OF d(1,2)] using d(3) assms
    by (simp add: Let_def time_Unix_def time_Sub_def webhookTolerance_def toy_sig_def)
qed

lemma toy_events:
  "toy_event (t, ''u'', h) = \<lparr>we_ID = ''e2'', we_Created = 20 * nsSecond, we_Type = ''customer.subscription.updated'', we_CustomerID = ''cus'', we_SubscriptionID = ''sub'',
     we_Status = ''incomplete'', we_PriceIDs = [''seat'', ''pp'']\<rparr>"
  "toy_event (t, ''c'', h) = \<lparr>we_ID = ''e1'', we_Created = 10 * nsSecond, we_Type = ''customer.subscription.created'', we_CustomerID = ''cus'', we_SubscriptionID = ''sub'',
     we_Status = ''active'', we_PriceIDs = [''ps'']\<rparr>"
  by (simp_all add: toy_event_def ParseWebhook_def toy_decode_def time_Unix_def)

lemma toy_carries:
  assumes "b \<in> {''u'', ''c''}" and "0 \<le> t" and "t \<le> 5 * nsMinute"
  shows "carries toy_sig toy_decode (Some toy_config) t (b, toy_header) (toy_event (t, b, toy_header))"
proof -
  have "list_all pg_text_ok [''e1'', ''e2'', ''cus'', ''sub'', ''incomplete'', ''active'']" by code_simp
  then show ?thesis
    using assms(1) toy_verified [OF assms(2,3), of "take (2 ^ 20) b"]
    by (auto simp: carries_def sub_event_def IsSubscriptionEvent_def toy_event_def ParseWebhook_def toy_decode_def)
qed

lemma toy_plan: "event_plan (Some toy_config) (toy_event (t, ''u'', h)) = PlanPro"
  by (simp add: toy_events event_plan_def PlanForPrice_def toy_config_def PlanTrial_def PlanStarter_def PlanPro_def PlanScale_def)

theorem newest_event_wins_witness:
  "acct_Plan (ad_accounts (bw_db (stripe_deliver toy_sig toy_decode (\<lambda>_ _. Inl []) (Some toy_config) []
     [(0, ''u'', toy_header), (nsSecond, ''c'', toy_header), (nsMinute, ''u'', toy_header)] paying_world)) ! 0) = PlanPro"
proof -
  let ?rs = "[(0, ''u'', toy_header), (nsSecond, ''c'', toy_header), (nsMinute, ''u'', toy_header)]"
  have n: "newest ''cus'' (toy_event ` set ?rs) (toy_event (0, ''u'', toy_header))"
    "\<And>e'. newest ''cus'' (toy_event ` set ?rs) e' \<Longrightarrow> e' = toy_event (0, ''u'', toy_header)"
    by (auto simp: newest_def toy_events)
  have c: "arrives toy_sig toy_decode (Some toy_config) r (toy_event r)" if "r \<in> set ?rs" for r
    using that toy_carries by auto
  have "sub_view (ad_accounts (bw_db (stripe_deliver toy_sig toy_decode (\<lambda>_ _. Inl []) (Some toy_config) [] ?rs paying_world)) ! 0) =
      event_view (Some toy_config) (toy_event (0, ''u'', toy_header))"
    by (rule conjunct2, rule newest_event_wins [OF c _ _ _ _ n])
      (simp_all add: inj_on_def toy_events paying_world_def two_users_def)
  then show ?thesis
    using toy_plan [of 0 toy_header] by (simp add: sub_view_def event_view_def toy_events)
qed

theorem stripe_event_lost_witness:
  "\<exists>w1. stripeWebhook toy_sig toy_decode (\<lambda>_ _. Inl []) (Some toy_config) [] (Some ''c'') toy_header [NoFault, FailBefore ''timeout''] paying_world = (Ret (HttpStatus 500), [], w1) \<and>
     stripeWebhook toy_sig toy_decode (\<lambda>_ _. Inl []) (Some toy_config) [] (Some ''c'') toy_header [] w1 = (Ret (HttpStatus 200), [], w1)"
proof -
  have "carries toy_sig toy_decode (Some toy_config) (bw_now paying_world) (''c'', toy_header) (toy_event (0, ''c'', toy_header))"
    using toy_carries by (simp add: paying_world_def)
  from stripe_event_lost [OF this, of "\<lambda>_ _. Inl []" "[]" "''timeout''"] show ?thesis
    by (auto simp: paying_world_def two_users_def)
qed

theorem unpaid_plan_witness:
  "\<exists>w'. stripeWebhook toy_sig toy_decode (\<lambda>_ _. Inl []) (Some toy_config) [] (Some ''u'') toy_header [] paying_world = (Ret (HttpStatus 200), [], w') \<and>
     IsPaid (acct_Plan (ad_accounts (bw_db w') ! 0))"
proof -
  have c: "carries toy_sig toy_decode (Some toy_config) (bw_now paying_world) (''u'', toy_header) (toy_event (0, ''u'', toy_header))"
    using toy_carries by (simp add: paying_world_def)
  have "event_plan (Some toy_config) (toy_event (0, ''u'', toy_header)) \<noteq> PlanTrial" by (simp add: toy_plan PlanPro_def PlanTrial_def)
  then show ?thesis
    by (intro unpaid_plan [OF c]) (simp_all add: toy_events paying_world_def two_users_def SubscriptionActive_def applies_def newer_event_def)
qed

end
