(* ===== verification/Erasure.thy ===== *)
theory Erasure
  imports Webhook_Delivery Evidence_Service Heartbeat_Monitors Bearer_Tokens
begin

section \<open>Erasing an account\<close>

text \<open>
  The deletion of accounts: \<open>internal/compliance/purge.go\<close> and the handlers of \<open>internal/web/handlers/compliance.go\<close>.
  An owner marks the account as deleted and a job is scheduled for the end of the grace period; the job shreds the
  evidence and deletes the row of the account, and the database deletes all rows that depend on it. The world
  puts the stores together: accounts with members, invitations, teams and the audit log, the drill
  store, webhooks, heartbeat monitors and the evidence service. The column \<open>purge_after\<close> of the accounts is the function
  \<open>pu_after\<close>; \<open>pu_jobs\<close> are the scheduled jobs.
\<close>

record 's purge_world =
  pu_acc :: account_db
  pu_after :: "uuid \<Rightarrow> gotime option"
  pu_drill :: drill_db
  pu_hook :: hook_db
  pu_beats :: "hb_row list"
  pu_ev :: "'s estate"
  pu_jobs :: "(uuid \<times> gotime) list"
  pu_now :: gotime

definition on_ev :: "('s estate, 'a) proc \<Rightarrow> ('s purge_world, 'a) proc" where
  "on_ev p fs w = (case p fs (pu_ev w) of (r, fs', e) \<Rightarrow> (r, fs', w\<lparr>pu_ev := e\<rparr>))"

subsection \<open>The foreign keys\<close>

text \<open>
  \<open>DELETE FROM accounts\<close> with the \<open>ON DELETE\<close> clauses of the migrations. All tables that refer to an account
  cascade, or set the reference to \<open>NULL\<close> (audit events, teams of databases), but for \<open>heartbeats\<close>: its reference has no
  clause, so a monitor, also one that was removed from the pages by setting \<open>deleted_at\<close>, makes the statement fail.
\<close>

definition cascade_acc :: "uuid \<Rightarrow> account_db \<Rightarrow> account_db" where
  "cascade_acc acc db =
     (let ts = map te_ID (filter (\<lambda>t. te_AccountID t = acc) (ad_teams db)) in
      db\<lparr>ad_accounts := sql_delete (\<lambda>a. acct_ID a = acc) (ad_accounts db),
         ad_members := sql_delete (\<lambda>m. mb_AccountID m = acc) (ad_members db),
         ad_invites := sql_delete (\<lambda>i. iv_AccountID i = acc) (ad_invites db),
         ad_teams := sql_delete (\<lambda>t. te_AccountID t = acc) (ad_teams db),
         ad_team_members := sql_delete (\<lambda>m. tr_TeamID m \<in> set ts) (ad_team_members db),
         ad_audit := (ad_audit db)\<lparr>al_rows := sql_update (\<lambda>r. aw_account r = Some acc) (\<lambda>r. r\<lparr>aw_account := None\<rparr>) (al_rows (ad_audit db))\<rparr>\<rparr>)"

definition acc_targets :: "uuid \<Rightarrow> drill_db \<Rightarrow> uuid list" where
  "acc_targets acc db = map t_ID (filter (\<lambda>t. t_AccountID t = acc) (db_targets db))"

definition acc_drill :: "uuid \<Rightarrow> drill_db \<Rightarrow> Drill \<Rightarrow> bool" where
  "acc_drill acc db d = (d_AccountID d = acc \<or> d_TargetID d \<in> set (acc_targets acc db))"

definition acc_drills :: "uuid \<Rightarrow> drill_db \<Rightarrow> uuid list" where
  "acc_drills acc db = map d_ID (filter (acc_drill acc db) (db_drills db))"

definition cascade_drill :: "uuid \<Rightarrow> drill_db \<Rightarrow> drill_db" where
  "cascade_drill acc db =
     (let ms = map tm_ID (filter (\<lambda>t. tm_AccountID t = acc) (db_teams db)) in
      db\<lparr>db_accounts := sql_delete (\<lambda>a. acct_ID a = acc) (db_accounts db),
         db_teams := sql_delete (\<lambda>t. tm_AccountID t = acc) (db_teams db),
         db_targets := sql_update (\<lambda>t. t_TeamID t \<in> Some ` set ms) (\<lambda>t. t\<lparr>t_TeamID := None\<rparr>) (sql_delete (\<lambda>t. t_AccountID t = acc) (db_targets db)),
         db_assertions := sql_delete (\<lambda>a. a_TargetID a \<in> set (acc_targets acc db)) (db_assertions db),
         db_drills := sql_delete (acc_drill acc db) (db_drills db),
         db_steps := sql_delete (\<lambda>s. s_DrillID s \<in> set (acc_drills acc db)) (db_steps db),
         db_results := sql_delete (\<lambda>r. ar_DrillID r \<in> set (acc_drills acc db)) (db_results db),
         db_idem := sql_delete (\<lambda>i. ik_AccountID i = acc) (db_idem db)\<rparr>)"

definition cascade_hook :: "uuid \<Rightarrow> hook_db \<Rightarrow> hook_db" where
  "cascade_hook acc db =
     (let es = map ep_ID (filter (\<lambda>e. ep_AccountID e = acc) (hd_endpoints db)) in
      db\<lparr>hd_endpoints := sql_delete (\<lambda>e. ep_AccountID e = acc) (hd_endpoints db),
         hd_deliveries := sql_delete (\<lambda>d. dv_AccountID d = acc \<or> dv_EndpointID d \<in> set es) (hd_deliveries db)\<rparr>)"

definition cascade_ev :: "uuid \<Rightarrow> uuid list \<Rightarrow> 's estate \<Rightarrow> 's estate" where
  "cascade_ev acc ds e = e\<lparr>es_keys := sql_delete (\<lambda>r. fst r = acc) (es_keys e), es_sigs := sql_delete (\<lambda>r. fst r \<in> set ds) (es_sigs e)\<rparr>"

definition delete_account :: "uuid \<Rightarrow> 's purge_world \<Rightarrow> (string + unit) \<times> 's purge_world" where
  "delete_account acc w =
     (if \<exists>h \<in> set (pu_beats w). hb_AccountID h = acc then (Inl ''violates foreign key constraint heartbeats_account_id_fkey'', w)
      else (Inr (), w\<lparr>pu_acc := cascade_acc acc (pu_acc w), pu_drill := cascade_drill acc (pu_drill w), pu_hook := cascade_hook acc (pu_hook w),
        pu_ev := cascade_ev acc (acc_drills acc (pu_drill w)) (pu_ev w)\<rparr>))"

subsection \<open>The purger\<close>

definition DefaultGracePeriod :: duration where
  "DefaultGracePeriod = 30 * nsDay"

definition purge_audit :: "text_lib \<Rightarrow> audit_event \<Rightarrow> ('s purge_world, unit) proc" where
  "purge_audit T e = ignoreM (call (\<lambda>w. (Inr (), w\<lparr>pu_acc := audit_db T (pu_now w) e (pu_acc w)\<rparr>)))"

definition erase_event :: "uuid option \<Rightarrow> uuid option \<Rightarrow> string \<Rightarrow> string \<Rightarrow> (string \<times> string) list \<Rightarrow> audit_event" where
  "erase_event acc actor action targetID meta =
     \<lparr>aud_AccountID = acc, aud_ActorID = actor, aud_Action = action, aud_TargetKind = ''account'', aud_TargetID = targetID,
      aud_IP = [], aud_UserAgent = [], aud_Metadata = meta\<rparr>"

text \<open>\<open>format\<close> is \<open>Time.Format\<close> with the layout RFC 3339.\<close>

definition SoftDelete :: "text_lib \<Rightarrow> (gotime \<Rightarrow> string) \<Rightarrow> duration \<Rightarrow> uuid \<Rightarrow> uuid \<Rightarrow> ('s purge_world, gotime) proc" where
  "SoftDelete T format grace accountID actorID =
     bindM (getM pu_now) (\<lambda>now.
       let purgeAfter = now + max 0 grace; P = \<lambda>a. acct_ID a = accountID \<and> acct_deleted_at a = None in
       thenM (call (\<lambda>w.
           if sql_affected P (ad_accounts (pu_acc w)) = 0 then (Inl ''compliance: account not found or already deleted'', w)
           else (Inr (), w\<lparr>pu_acc := upd_account P (\<lambda>a. a\<lparr>acct_deleted_at := Some now\<rparr>) (pu_acc w),
             pu_after := (pu_after w)(accountID := Some purgeAfter)\<rparr>)))
         (thenM (purge_audit T (erase_event (Some accountID) (Some actorID) ''account.soft_deleted'' (tx_uuid T accountID) [(''purge_after'', format purgeAfter)]))
           (ret purgeAfter)))"

datatype purge_outcome = Purged | NotEligible

text \<open>
  The rows of the paths are read one by one, and an error in between ends the loop without being looked at: \<open>got\<close>
  says how many rows came through.
\<close>

definition evidence_paths :: "uuid \<Rightarrow> drill_db \<Rightarrow> string list" where
  "evidence_paths acc db = List.map_filter d_EvidencePath (filter (\<lambda>d. d_AccountID d = acc) (db_drills db))"

definition purge_run :: "text_lib \<Rightarrow> 's Service \<Rightarrow> uuid \<Rightarrow> string list \<Rightarrow> ('s purge_world, purge_outcome) proc" where
  "purge_run T S accountID paths =
     thenM (on_ev (ShredAccountEvidence accountID))
       (thenM (forM paths (\<lambda>p. on_ev (DeleteKey S p)))
         (thenM (call (delete_account accountID))
           (thenM (purge_audit T (erase_event None None ''account.hard_deleted'' (tx_uuid T accountID)
               [(''evidence_files_shredded'', dec_nat (length paths))]))
             (ret Purged))))"

definition HardDelete :: "text_lib \<Rightarrow> 's Service \<Rightarrow> nat \<Rightarrow> uuid \<Rightarrow> ('s purge_world, purge_outcome) proc" where
  "HardDelete T S got accountID =
     bindM (call (\<lambda>w. (case sql_first (\<lambda>a. acct_ID a = accountID) (ad_accounts (pu_acc w)) of
          None \<Rightarrow> Inl ''load account: no rows in result set'' | Some a \<Rightarrow> Inr (acct_deleted_at a, pu_after w accountID), w))) (\<lambda>(deletedAt, purgeAfter).
       bindM (getM pu_now) (\<lambda>now.
         if deletedAt = None then ret NotEligible
         else if (case purgeAfter of None \<Rightarrow> False | Some p \<Rightarrow> now < p) then ret NotEligible
         else
           bindM (call (\<lambda>w. (Inr (take got (evidence_paths accountID (pu_drill w))), w))) (purge_run T S accountID)))"

definition PurgeWorker_Work :: "text_lib \<Rightarrow> 's Service \<Rightarrow> nat \<Rightarrow> uuid \<Rightarrow> ('s purge_world, unit) proc" where
  "PurgeWorker_Work T S got accountID = bindM (HardDelete T S got accountID) (\<lambda>_. ret ())"

subsection \<open>Handlers\<close>

definition schedule_purge :: "uuid \<Rightarrow> gotime \<Rightarrow> ('s purge_world, unit) proc" where
  "schedule_purge accountID at = call (\<lambda>w. (Inr (), w\<lparr>pu_jobs := pu_jobs w @ [(accountID, at)]\<rparr>))"

definition accountDelete :: "text_lib \<Rightarrow> (gotime \<Rightarrow> string) \<Rightarrow> duration \<Rightarrow> page_ctx \<Rightarrow> ('s purge_world, response) proc" where
  "accountDelete T format grace cx =
     (if cx_role cx \<noteq> Some RoleOwner then ret (HttpStatus 403)
      else
        bindM (tryM (SoftDelete T format grace (acct_ID (cx_account cx)) (cx_user cx))) (\<lambda>r.
          case r of
            Inl _ \<Rightarrow> ret (HttpStatus 500)
          | Inr purgeAfter \<Rightarrow> thenM (ignoreM (schedule_purge (acct_ID (cx_account cx)) purgeAfter)) (ret (HttpStatus 200))))"

definition v1DeleteAccount :: "text_lib \<Rightarrow> (gotime \<Rightarrow> string) \<Rightarrow> duration \<Rightarrow> page_ctx \<Rightarrow> Key \<Rightarrow> string \<Rightarrow> ('s purge_world, response) proc" where
  "v1DeleteAccount T format grace cx key i =
     (case tx_parse_uuid T i of
        None \<Rightarrow> ret (HttpStatus 400)
      | Some pathID \<Rightarrow>
          if pathID \<noteq> acct_ID (cx_account cx) then ret (HttpStatus 403)
          else
            bindM (tryM (SoftDelete T format grace (acct_ID (cx_account cx)) (ak_CreatedByUserID key))) (\<lambda>r.
              case r of
                Inl _ \<Rightarrow> ret (HttpStatus 409)
              | Inr purgeAfter \<Rightarrow>
                  thenM (ignoreM (schedule_purge (acct_ID (cx_account cx)) purgeAfter))
                    (thenM (purge_audit T ((erase_event (Some (acct_ID (cx_account cx))) (Some (ak_CreatedByUserID key)) ''account.delete_requested''
                         (tx_uuid T (acct_ID (cx_account cx))) [(''via'', ''v1''), (''api_key_id'', tx_uuid T (ak_ID key))])
                         \<lparr>aud_IP := ClientIP (cx_req cx), aud_UserAgent := rq_UserAgent (cx_req cx)\<rparr>))
                      (ret (HttpStatus 202)))))"

section \<open>What is left\<close>

text \<open>
  No row that names the account: accounts, members, invitations, teams, audit events, databases, drills, idempotency keys,
  endpoints, deliveries and the evidence key.
\<close>

definition erased :: "uuid \<Rightarrow> 's purge_world \<Rightarrow> bool" where
  "erased acc w \<longleftrightarrow>
     (\<forall>a \<in> set (ad_accounts (pu_acc w)). acct_ID a \<noteq> acc) \<and> (\<forall>m \<in> set (ad_members (pu_acc w)). mb_AccountID m \<noteq> acc) \<and>
     (\<forall>i \<in> set (ad_invites (pu_acc w)). iv_AccountID i \<noteq> acc) \<and> (\<forall>t \<in> set (ad_teams (pu_acc w)). te_AccountID t \<noteq> acc) \<and>
     (\<forall>r \<in> set (al_rows (ad_audit (pu_acc w))). aw_account r \<noteq> Some acc) \<and> (\<forall>t \<in> set (db_targets (pu_drill w)). t_AccountID t \<noteq> acc) \<and>
     (\<forall>a \<in> set (db_accounts (pu_drill w)). acct_ID a \<noteq> acc) \<and> (\<forall>t \<in> set (db_teams (pu_drill w)). tm_AccountID t \<noteq> acc) \<and>
     (\<forall>d \<in> set (db_drills (pu_drill w)). d_AccountID d \<noteq> acc) \<and> (\<forall>i \<in> set (db_idem (pu_drill w)). ik_AccountID i \<noteq> acc) \<and>
     (\<forall>e \<in> set (hd_endpoints (pu_hook w)). ep_AccountID e \<noteq> acc) \<and> (\<forall>d \<in> set (hd_deliveries (pu_hook w)). dv_AccountID d \<noteq> acc) \<and>
     key_row acc (pu_ev w) = None"

text \<open>
  No row that names a row of the account instead: members of its teams, assertions of its databases, steps, results and evidence
  signatures of its drills, deliveries to its endpoints. The rows of the account are those of the world \<open>w\<close> before.
\<close>

definition dependents_gone :: "uuid \<Rightarrow> 's purge_world \<Rightarrow> 's purge_world \<Rightarrow> bool" where
  "dependents_gone acc w w' \<longleftrightarrow>
     (\<forall>t \<in> set (ad_teams (pu_acc w)). te_AccountID t = acc \<longrightarrow> (\<forall>m \<in> set (ad_team_members (pu_acc w')). tr_TeamID m \<noteq> te_ID t)) \<and>
     (\<forall>t \<in> set (db_targets (pu_drill w)). t_AccountID t = acc \<longrightarrow>
        (\<forall>a \<in> set (db_assertions (pu_drill w')). a_TargetID a \<noteq> t_ID t) \<and> (\<forall>d \<in> set (db_drills (pu_drill w')). d_TargetID d \<noteq> t_ID t)) \<and>
     (\<forall>d \<in> set (db_drills (pu_drill w)). d_AccountID d = acc \<longrightarrow>
        (\<forall>s \<in> set (db_steps (pu_drill w')). s_DrillID s \<noteq> d_ID d) \<and> (\<forall>r \<in> set (db_results (pu_drill w')). ar_DrillID r \<noteq> d_ID d) \<and>
        (\<forall>g \<in> set (es_sigs (pu_ev w')). fst g \<noteq> d_ID d)) \<and>
     (\<forall>e \<in> set (hd_endpoints (pu_hook w)). ep_AccountID e = acc \<longrightarrow> (\<forall>v \<in> set (hd_deliveries (pu_hook w')). dv_EndpointID v \<noteq> ep_ID e))"

definition missing :: "string \<Rightarrow> disk estate \<Rightarrow> bool" where
  "missing p e \<longleftrightarrow> map_of (dk_files (es_store e)) p = None"

text \<open>What a run for \<open>acc\<close> leaves of the evidence of other accounts: their keys and all files that are not of a drill of \<open>acc\<close>.\<close>

definition others_kept :: "uuid \<Rightarrow> disk purge_world \<Rightarrow> disk purge_world \<Rightarrow> bool" where
  "others_kept acc w w' \<longleftrightarrow> (\<forall>x. x \<noteq> acc \<longrightarrow> key_row x (pu_ev w') = key_row x (pu_ev w)) \<and>
     (\<forall>p. p \<notin> set (evidence_paths acc (pu_drill w)) \<longrightarrow> map_of (dk_files (es_store (pu_ev w'))) p = map_of (dk_files (es_store (pu_ev w))) p)"

definition pu_same :: "'s purge_world \<Rightarrow> 's purge_world \<Rightarrow> bool" where
  "pu_same w w' \<longleftrightarrow> pu_acc w' = pu_acc w \<and> pu_after w' = pu_after w \<and> pu_drill w' = pu_drill w \<and> pu_hook w' = pu_hook w \<and>
     pu_beats w' = pu_beats w \<and> pu_now w' = pu_now w"

definition kept :: "uuid \<Rightarrow> disk purge_world \<Rightarrow> disk purge_world \<Rightarrow> bool" where
  "kept acc w w' \<longleftrightarrow> pu_same w w' \<and> dk_fail (es_store (pu_ev w')) = dk_fail (es_store (pu_ev w)) \<and> others_kept acc w w'"

definition erase_done :: "uuid \<Rightarrow> string list \<Rightarrow> disk purge_world \<Rightarrow> disk purge_world \<Rightarrow> bool" where
  "erase_done acc paths w w' \<longleftrightarrow> (\<forall>h \<in> set (pu_beats w). hb_AccountID h \<noteq> acc) \<and> erased acc w' \<and> dependents_gone acc w w' \<and>
     (\<forall>p \<in> set paths. missing p (pu_ev w')) \<and> others_kept acc w w'"

lemma kept_refl: "kept acc w w"
  by (simp add: kept_def pu_same_def others_kept_def)

lemma delete_account_erased:
  assumes "delete_account acc w = (Inr (), w')"
  shows "erased acc w'"
  using assms by (auto simp: delete_account_def erased_def cascade_acc_def cascade_drill_def cascade_hook_def cascade_ev_def sql_delete_def sql_update_def
      acc_drill_def key_row_def Let_def map_of_eq_None_iff split: if_splits)

lemma delete_account_dependents:
  assumes "delete_account acc w = (Inr (), w')" and "pu_same w0 w"
  shows "dependents_gone acc w0 w'"
proof -
  have w': "pu_acc w' = cascade_acc acc (pu_acc w0)" "pu_drill w' = cascade_drill acc (pu_drill w0)" "pu_hook w' = cascade_hook acc (pu_hook w0)"
    "es_sigs (pu_ev w') = sql_delete (\<lambda>r. fst r \<in> set (acc_drills acc (pu_drill w0))) (es_sigs (pu_ev w))"
    using assms by (auto simp: delete_account_def pu_same_def cascade_ev_def split: if_splits)
  show ?thesis
    unfolding dependents_gone_def w'
    by (auto simp: cascade_acc_def cascade_drill_def cascade_hook_def sql_delete_def Let_def acc_drills_def acc_drill_def acc_targets_def)
qed

lemma on_ev_call: "on_ev (call f) = call (\<lambda>w. case f (pu_ev w) of (r, e) \<Rightarrow> (r, w\<lparr>pu_ev := e\<rparr>))"
  by (rule ext, rule ext) (simp add: on_ev_def call_def Let_def split: prod.split sum.split list.split fault.split)

lemma triple_shred: "triple (kept acc w0) (on_ev (ShredAccountEvidence acc)) (\<lambda>_. kept acc w0) (kept acc w0)"
  unfolding ShredAccountEvidence_def ShredAccount_def on_ev_call
  by (rule triple_call) (auto simp: kept_def pu_same_def others_kept_def key_row_def map_of_sql_delete)

lemma LocalStore_Delete_map:
  assumes "LocalStore_Delete p d = (r, d')"
  shows "dk_fail d' = dk_fail d" "q \<noteq> p \<Longrightarrow> map_of (dk_files d') q = map_of (dk_files d) q" "r = Inr () \<Longrightarrow> map_of (dk_files d') p = None"
    "map_of (dk_files d) q = None \<Longrightarrow> map_of (dk_files d') q = None"
proof -
  have f: "map_of (filter (\<lambda>f. fst f \<noteq> p) xs) q = (if q = p then None else map_of xs q)" for xs :: "(string \<times> bytes) list" and q
    by (induction xs) auto
  show "dk_fail d' = dk_fail d" "q \<noteq> p \<Longrightarrow> map_of (dk_files d') q = map_of (dk_files d) q" "r = Inr () \<Longrightarrow> map_of (dk_files d') p = None"
    "map_of (dk_files d) q = None \<Longrightarrow> map_of (dk_files d') q = None"
    using assms by (auto simp: LocalStore_Delete_def f split: if_splits option.splits)
qed

lemma triple_DeleteKey:
  assumes "sv_store S = LocalStore dir" and "p \<in> set (evidence_paths acc (pu_drill w0))"
  shows "triple (\<lambda>w. kept acc w0 w \<and> (\<forall>q \<in> set D. missing q (pu_ev w))) (on_ev (DeleteKey S p))
    (\<lambda>_ w. kept acc w0 w \<and> (\<forall>q \<in> set (p # D). missing q (pu_ev w))) (kept acc w0)"
  unfolding DeleteKey_def on_ev_call
proof (rule triple_call, goal_cases)
  case (1 w)
  obtain r d where rd: "LocalStore_Delete p (es_store (pu_ev w)) = (r, d)" by fastforce
  note m = LocalStore_Delete_map [OF rd]
  have "kept acc w0 (w\<lparr>pu_ev := (pu_ev w)\<lparr>es_store := d\<rparr>\<rparr>)"
  proof -
    have "map_of (dk_files d) q = map_of (dk_files (es_store (pu_ev w))) q" if "q \<notin> set (evidence_paths acc (pu_drill w0))" for q
      by (rule m(2)) (use assms(2) that in blast)
    then show ?thesis using 1 m(1) by (simp add: kept_def pu_same_def others_kept_def key_row_def)
  qed
  moreover have "\<forall>q \<in> set (p # D). missing q ((pu_ev w)\<lparr>es_store := d\<rparr>)" if "r = Inr ()"
    using 1 m that by (auto simp: missing_def)
  ultimately show ?case
    using assms(1) rd by (cases r) (auto simp: LocalStore_def)
qed simp

lemma triple_DeleteKeys:
  assumes "sv_store S = LocalStore dir" and "set ps \<subseteq> set (evidence_paths acc (pu_drill w0))"
  shows "triple (\<lambda>w. kept acc w0 w \<and> (\<forall>q \<in> set D. missing q (pu_ev w))) (forM ps (\<lambda>p. on_ev (DeleteKey S p)))
    (\<lambda>_ w. kept acc w0 w \<and> (\<forall>q \<in> set ps \<union> set D. missing q (pu_ev w))) (kept acc w0)"
  using assms(2)
proof (induction ps arbitrary: D)
  case Nil
  then show ?case by (simp add: triple_ret)
next
  case (Cons p ps)
  have "triple (\<lambda>w. kept acc w0 w \<and> (\<forall>q \<in> set (p # D). missing q (pu_ev w))) (forM ps (\<lambda>p. on_ev (DeleteKey S p)))
      (\<lambda>_ w. kept acc w0 w \<and> (\<forall>q \<in> set (p # ps) \<union> set D. missing q (pu_ev w))) (kept acc w0)"
    by (rule triple_weaken [OF Cons.IH [of "p # D"]]) (use Cons.prems in auto)
  then show ?case
    unfolding forM.simps using Cons.prems by (intro triple_thenM [OF triple_DeleteKey [OF assms(1)]]) auto
qed

lemma erased_audit:
  assumes "erased acc w" and "aud_AccountID e = None"
  shows "erased acc (w\<lparr>pu_acc := audit_db T now e (pu_acc w)\<rparr>)"
  using assms by (auto simp: erased_def audit_db_def audit_Record_def split: option.splits if_splits)

lemma triple_purge_run:
  assumes "sv_store S = LocalStore dir" and "set paths \<subseteq> set (evidence_paths acc (pu_drill w0))"
  shows "triple (kept acc w0) (purge_run T S acc paths) (\<lambda>_. erase_done acc paths w0) (\<lambda>w. kept acc w0 w \<or> erase_done acc paths w0 w)"
proof -
  let ?E = "\<lambda>w. kept acc w0 w \<or> erase_done acc paths w0 w"
  have shred: "triple (kept acc w0) (on_ev (ShredAccountEvidence acc)) (\<lambda>_ w. kept acc w0 w \<and> (\<forall>q \<in> set []. missing q (pu_ev w))) ?E"
    by (rule triple_weaken [OF triple_shred]) auto
  have files: "triple (\<lambda>w. kept acc w0 w \<and> (\<forall>q \<in> set []. missing q (pu_ev w))) (forM paths (\<lambda>p. on_ev (DeleteKey S p)))
      (\<lambda>_ w. kept acc w0 w \<and> (\<forall>q \<in> set paths. missing q (pu_ev w))) ?E"
    by (rule triple_weaken [OF triple_DeleteKeys [OF assms, of "[]"]]) auto
  have del: "triple (\<lambda>w. kept acc w0 w \<and> (\<forall>q \<in> set paths. missing q (pu_ev w))) (call (delete_account acc)) (\<lambda>_. erase_done acc paths w0) ?E"
  proof (rule triple_call, goal_cases)
    case (1 w)
    show ?case
    proof (cases "\<exists>h \<in> set (pu_beats w). hb_AccountID h = acc")
      case False
      then obtain w' where w': "delete_account acc w = (Inr (), w')" by (simp add: delete_account_def)
      then have "es_store (pu_ev w') = es_store (pu_ev w)" "key_row x (pu_ev w') = (if x = acc then None else key_row x (pu_ev w))" for x
        by (auto simp: delete_account_def cascade_ev_def key_row_def map_of_sql_delete split: if_splits)
      then have "erase_done acc paths w0 w'"
        using delete_account_erased [OF w'] delete_account_dependents [OF w', of w0] 1 False by (auto simp: erase_done_def kept_def pu_same_def others_kept_def missing_def)
      then show ?thesis by (simp add: w')
    qed (use 1 in \<open>simp add: delete_account_def\<close>)
  qed simp
  have aud: "triple (erase_done acc paths w0) (purge_audit T (erase_event None None act i m)) (\<lambda>_. erase_done acc paths w0) ?E" for act i m
  proof -
    have "keeps (erase_done acc paths w0) (purge_audit T (erase_event None None act i m))"
      unfolding purge_audit_def
      by (intro keeps_ignoreM keeps_call) (auto simp: erase_done_def others_kept_def missing_def erase_event_def dependents_gone_def audit_db_def intro: erased_audit [unfolded audit_db_def])
    then show ?thesis unfolding keeps_def by (rule triple_weaken) auto
  qed
  show ?thesis
    unfolding purge_run_def
    by (rule triple_thenM [OF shred], rule triple_thenM [OF files], rule triple_thenM [OF del], rule triple_thenM [OF aud]) (auto intro: triple_ret)
qed

definition eligible :: "uuid \<Rightarrow> 's purge_world \<Rightarrow> bool" where
  "eligible acc w \<longleftrightarrow>
     (case sql_first (\<lambda>a. acct_ID a = acc) (ad_accounts (pu_acc w)) of
        None \<Rightarrow> False
      | Some a \<Rightarrow> acct_deleted_at a \<noteq> None \<and> (case pu_after w acc of None \<Rightarrow> True | Some p \<Rightarrow> p \<le> pu_now w))"

lemma triple_HardDelete:
  assumes "sv_store S = LocalStore dir" and "length (evidence_paths acc (pu_drill w0)) \<le> got"
  defines "P \<equiv> evidence_paths acc (pu_drill w0)"
  shows "triple (kept acc w0) (HardDelete T S got acc) (\<lambda>r w. (r = Purged \<longrightarrow> erase_done acc P w0 w) \<and> (kept acc w0 w \<or> erase_done acc P w0 w))
    (\<lambda>w. kept acc w0 w \<or> erase_done acc P w0 w)"
proof -
  let ?E = "\<lambda>w. kept acc w0 w \<or> erase_done acc P w0 w"
  let ?Q = "\<lambda>r w. (r = Purged \<longrightarrow> erase_done acc P w0 w) \<and> ?E w"
  have load: "triple (kept acc w0) (call (\<lambda>w. (case sql_first (\<lambda>a. acct_ID a = acc) (ad_accounts (pu_acc w)) of
      None \<Rightarrow> Inl ''load account: no rows in result set'' | Some a \<Rightarrow> Inr (acct_deleted_at a, pu_after w acc), w))) (\<lambda>_. kept acc w0) ?E"
    by (rule triple_call) (auto split: option.split sum.split)
  have paths: "triple (kept acc w0) (call (\<lambda>w. (Inr (take got (evidence_paths acc (pu_drill w))), w))) (\<lambda>ps w. kept acc w0 w \<and> ps = P) ?E"
    using assms(2) by (intro triple_call) (auto simp: kept_def pu_same_def P_def)
  have run: "triple (\<lambda>w. kept acc w0 w \<and> ps = P) (purge_run T S acc ps) ?Q ?E" for ps
    by (rule triple_guard, rule triple_weaken [OF triple_purge_run [OF assms(1)]]) (auto simp: P_def)
  show ?thesis
    unfolding HardDelete_def
    by (rule triple_bindM [OF load], clarsimp simp del: split_paired_All, rule triple_bindM [where R = "\<lambda>_. kept acc w0"])
      (auto intro!: triple_getM triple_ret triple_bindM [OF paths run] split: option.split)
qed

lemma HardDelete_erased: "erased acc w \<Longrightarrow> final (HardDelete T S got acc fs w) = w"
proof -
  assume "erased acc w"
  then have "sql_first (\<lambda>a. acct_ID a = acc) (ad_accounts (pu_acc w)) = None" by (auto simp: erased_def sql_simps)
  then show ?thesis by (cases fs; cases "hd fs") (auto simp: HardDelete_def bindM_def call_def final_def Let_def)
qed

text \<open>Without faults on a working disk every call of the purger works.\<close>

lemma DeleteKeys_run:
  assumes "sv_store S = LocalStore dir" and "dk_fail (es_store (pu_ev w)) = None"
  shows "\<exists>e. es_keys e = es_keys (pu_ev w) \<and> forM ps (\<lambda>p. on_ev (DeleteKey S p)) [] w = (Ret (), [], w\<lparr>pu_ev := e\<rparr>)"
  using assms(2)
proof (induction ps arbitrary: w)
  case Nil
  have "w = w\<lparr>pu_ev := pu_ev w\<rparr>" by simp
  then show ?case unfolding forM.simps ret_def by blast
next
  case (Cons p ps)
  obtain d where d: "LocalStore_Delete p (es_store (pu_ev w)) = (Inr (), d)"
    using Cons.prems by (cases "map_of (dk_files (es_store (pu_ev w))) p = None") (simp_all add: LocalStore_Delete_def)
  let ?w = "w\<lparr>pu_ev := (pu_ev w)\<lparr>es_store := d\<rparr>\<rparr>"
  have "on_ev (DeleteKey S p) [] w = (Ret (), [], ?w)"
    using d assms(1) by (simp add: DeleteKey_def on_ev_call call_ok LocalStore_def)
  moreover have "dk_fail (es_store (pu_ev ?w)) = None" using LocalStore_Delete_map(1) [OF d] Cons.prems by simp
  from Cons.IH [OF this] obtain e where "es_keys e = es_keys (pu_ev w)" "forM ps (\<lambda>p. on_ev (DeleteKey S p)) [] ?w = (Ret (), [], ?w\<lparr>pu_ev := e\<rparr>)" by auto
  ultimately have "es_keys e = es_keys (pu_ev w) \<and> forM (p # ps) (\<lambda>p. on_ev (DeleteKey S p)) [] w = (Ret (), [], w\<lparr>pu_ev := e\<rparr>)" by (simp add: thenM_def bindM_def)
  then show ?case by blast
qed

lemma HardDelete_shreds:
  assumes "sv_store S = LocalStore dir" and "dk_fail (es_store (pu_ev w)) = None" and "eligible acc w"
  shows "\<exists>e ev. es_keys e = sql_delete (\<lambda>r. fst r = acc) (es_keys (pu_ev w)) \<and>
    HardDelete T S got acc [] w = thenM (call (delete_account acc)) (thenM (purge_audit T ev) (ret Purged)) [] (w\<lparr>pu_ev := e\<rparr>)"
proof -
  let ?ps = "take got (evidence_paths acc (pu_drill w))"
  define w1 where "w1 = w\<lparr>pu_ev := (pu_ev w)\<lparr>es_keys := sql_delete (\<lambda>r. fst r = acc) (es_keys (pu_ev w))\<rparr>\<rparr>"
  have s: "on_ev (ShredAccountEvidence acc) [] w = (Ret (), [], w1)"
    by (simp add: ShredAccountEvidence_def ShredAccount_def on_ev_call call_ok w1_def)
  have "dk_fail (es_store (pu_ev w1)) = None" using assms(2) by (simp add: w1_def)
  from DeleteKeys_run [OF assms(1) this] obtain e where e: "es_keys e = es_keys (pu_ev w1)"
    and f: "forM ?ps (\<lambda>p. on_ev (DeleteKey S p)) [] w1 = (Ret (), [], w1\<lparr>pu_ev := e\<rparr>)" by blast
  obtain a where "sql_first (\<lambda>a. acct_ID a = acc) (ad_accounts (pu_acc w)) = Some a" "acct_deleted_at a \<noteq> None"
    "case pu_after w acc of None \<Rightarrow> True | Some p \<Rightarrow> p \<le> pu_now w"
    using assms(3) by (auto simp: eligible_def split: option.splits)
  then have "HardDelete T S got acc [] w = purge_run T S acc ?ps [] w"
    by (auto simp: HardDelete_def bindM_def call_ok getM_def split: option.splits)
  also have "\<dots> = thenM (call (delete_account acc)) (thenM (purge_audit T (erase_event None None ''account.hard_deleted'' (tx_uuid T acc)
      [(''evidence_files_shredded'', dec_nat (length ?ps))])) (ret Purged)) [] (w\<lparr>pu_ev := e\<rparr>)"
    using f s by (simp add: purge_run_def thenM_def bindM_def w1_def)
  finally show ?thesis using e by (auto simp: w1_def)
qed

lemma HardDelete_run:
  assumes "sv_store S = LocalStore dir" and "dk_fail (es_store (pu_ev w)) = None" and "eligible acc w"
    and "\<forall>h \<in> set (pu_beats w). hb_AccountID h \<noteq> acc"
  shows "\<exists>w'. HardDelete T S got acc [] w = (Ret Purged, [], w')"
proof -
  obtain e ev where h: "HardDelete T S got acc [] w = thenM (call (delete_account acc)) (thenM (purge_audit T ev) (ret Purged)) [] (w\<lparr>pu_ev := e\<rparr>)"
    using HardDelete_shreds [OF assms(1-3)] by blast
  obtain w2 where d: "delete_account acc (w\<lparr>pu_ev := e\<rparr>) = (Inr (), w2)" using assms(4) by (simp add: delete_account_def)
  have "purge_audit T ev [] w2 = (Ret (), [], w2\<lparr>pu_acc := audit_db T (pu_now w2) ev (pu_acc w2)\<rparr>)"
    by (simp add: purge_audit_def ignoreM_def bindM_def tryM_def call_ok ret_def)
  then show ?thesis unfolding h by (simp add: thenM_def bindM_def call_ok d ret_def)
qed

lemma kept_eligible: "kept acc w0 w \<Longrightarrow> eligible acc w = eligible acc w0"
  by (auto simp: eligible_def kept_def pu_same_def split: option.split)

section \<open>Properties\<close>

text \<open>The attempts of the job, each with its own faults.\<close>

definition purge_attempts :: "text_lib \<Rightarrow> 's Service \<Rightarrow> nat \<Rightarrow> uuid \<Rightarrow> fault list list \<Rightarrow> 's purge_world \<Rightarrow> 's purge_world" where
  "purge_attempts T S got acc fss w = fold (\<lambda>fs w. final (PurgeWorker_Work T S got acc fs w)) fss w"

lemma Work_final: "final (PurgeWorker_Work T S got acc fs w) = final (HardDelete T S got acc fs w)"
  by (cases "HardDelete T S got acc fs w"; cases "fst (HardDelete T S got acc fs w)") (simp_all add: PurgeWorker_Work_def bindM_def ret_def final_def)

lemma attempts_kept:
  assumes "sv_store S = LocalStore dir" and "length (evidence_paths acc (pu_drill w)) \<le> got"
  shows "kept acc w (purge_attempts T S got acc fss w) \<or> erase_done acc (evidence_paths acc (pu_drill w)) w (purge_attempts T S got acc fss w)"
proof (induction fss rule: rev_induct)
  case Nil
  then show ?case by (simp add: purge_attempts_def kept_refl)
next
  case (snoc fs fss)
  let ?v = "purge_attempts T S got acc fss w"
  have step: "purge_attempts T S got acc (fss @ [fs]) w = final (HardDelete T S got acc fs ?v)" by (simp add: purge_attempts_def Work_final)
  from snoc show ?case
  proof
    assume k: "kept acc w ?v"
    have "triple (kept acc w) (HardDelete T S got acc) (\<lambda>_ v. kept acc w v \<or> erase_done acc (evidence_paths acc (pu_drill w)) w v)
        (\<lambda>v. kept acc w v \<or> erase_done acc (evidence_paths acc (pu_drill w)) w v)"
      by (rule triple_weaken [OF triple_HardDelete [OF assms]]) auto
    from triple_final [OF this k, of fs] show ?thesis unfolding step .
  next
    assume "erase_done acc (evidence_paths acc (pu_drill w)) w ?v"
    then show ?thesis unfolding step by (simp add: HardDelete_erased erase_done_def)
  qed
qed

text \<open>
  An account that may not be erased. While an account is not marked as deleted, or its grace period runs, the job changes nothing
  at all, whatever fails.
\<close>

theorem erase_guard:
  assumes "\<not> eligible acc w"
  shows "final (PurgeWorker_Work T S got acc fs w) = w"
proof -
  have "final (HardDelete T S got acc fs w) = w"
    using assms by (cases fs; cases "hd fs")
      (auto simp: HardDelete_def bindM_def call_def getM_def ret_def final_def Let_def eligible_def split: option.splits)
  then show ?thesis by (simp add: Work_final)
qed

text \<open>
  C33. Erasure completes. Take an account that is due and without heartbeat monitors, with evidence in the local store on a disk that works, and let
  each attempt of the job read the paths of all its drills (the code does not notice a read that breaks off, see \<open>got\<close>). However many
  attempts failed before, at whichever calls, the next attempt without faults leaves no account, membership, invitation, team, audit reference,
  database, drill, idempotency key, webhook endpoint, delivery or evidence key of the account, and no team member, assertion,
  step, result, signature or delivery of its teams, databases, drills and endpoints; the evidence files of its drills are gone,
  and the keys of the other accounts and all other files are as they were.
\<close>

theorem erasure_completes:
  assumes "sv_store S = LocalStore dir" and "length (evidence_paths acc (pu_drill w)) \<le> got" and "dk_fail (es_store (pu_ev w)) = None"
    and "eligible acc w" and "\<forall>h \<in> set (pu_beats w). hb_AccountID h \<noteq> acc"
  shows "let w' = purge_attempts T S got acc (fss @ [[]]) w in
    erased acc w' \<and> dependents_gone acc w w' \<and> (\<forall>p \<in> set (evidence_paths acc (pu_drill w)). missing p (pu_ev w')) \<and> others_kept acc w w'"
proof -
  let ?v = "purge_attempts T S got acc fss w"
  have step: "purge_attempts T S got acc (fss @ [[]]) w = final (HardDelete T S got acc [] ?v)" by (simp add: purge_attempts_def Work_final)
  from attempts_kept [OF assms(1,2)] have "erase_done acc (evidence_paths acc (pu_drill w)) w (final (HardDelete T S got acc [] ?v))"
  proof
    assume k: "kept acc w ?v"
    then have "eligible acc ?v" "dk_fail (es_store (pu_ev ?v)) = None" "\<forall>h \<in> set (pu_beats ?v). hb_AccountID h \<noteq> acc"
      using assms(3-5) kept_eligible [OF k] by (auto simp: kept_def pu_same_def)
    then obtain w' where r: "HardDelete T S got acc [] ?v = (Ret Purged, [], w')" using HardDelete_run [OF assms(1)] by blast
    from triple_Ret [OF triple_HardDelete [OF assms(1,2)] k this] show ?thesis unfolding r by (simp add: final_def)
  next
    assume "erase_done acc (evidence_paths acc (pu_drill w)) w ?v"
    then show ?thesis by (simp add: HardDelete_erased erase_done_def)
  qed
  then show ?thesis unfolding step Let_def by (simp add: erase_done_def)
qed

text \<open>
  C34. Erasure that never completes. An account that ever had a heartbeat monitor, also one its members deleted, is never erased: no attempt
  of the job removes any row of the account, however often it is repeated, while the first one without
  faults has already destroyed the key of its evidence.
\<close>

theorem erasure_blocked:
  assumes "sv_store S = LocalStore dir" and "length (evidence_paths acc (pu_drill w)) \<le> got" and "h \<in> set (pu_beats w)" and "hb_AccountID h = acc"
  shows "pu_same w (purge_attempts T S got acc fss w) \<and>
    (eligible acc w \<and> dk_fail (es_store (pu_ev w)) = None \<longrightarrow> key_row acc (pu_ev (final (PurgeWorker_Work T S got acc [] w))) = None)"
proof (intro conjI impI)
  show "pu_same w (purge_attempts T S got acc fss w)"
    using attempts_kept [OF assms(1,2), of T fss] assms(3,4) by (auto simp: erase_done_def kept_def)
  assume e: "eligible acc w \<and> dk_fail (es_store (pu_ev w)) = None"
  then obtain x ev where x: "es_keys x = sql_delete (\<lambda>r. fst r = acc) (es_keys (pu_ev w))"
    "HardDelete T S got acc [] w = thenM (call (delete_account acc)) (thenM (purge_audit T ev) (ret Purged)) [] (w\<lparr>pu_ev := x\<rparr>)"
    using HardDelete_shreds [OF assms(1)] by blast
  have "\<exists>m. delete_account acc (w\<lparr>pu_ev := x\<rparr>) = (Inl m, w\<lparr>pu_ev := x\<rparr>)" using assms(3,4) by (auto simp: delete_account_def)
  then show "key_row acc (pu_ev (final (PurgeWorker_Work T S got acc [] w))) = None"
    unfolding Work_final x(2) using x(1) by (auto simp: thenM_def bindM_def call_ok final_def key_row_def map_of_sql_delete)
qed

text \<open>
  A deletion that is never scheduled. The owner is told that the account is deleted even when the job of the purge could not be inserted:
  the account is marked, no job exists, and neither the form nor the API inserts one later, since both stop at
  an account that is already marked.
\<close>

theorem erasure_unscheduled:
  assumes "cx_role cx = Some RoleOwner" and "a \<in> set (ad_accounts (pu_acc w))" and "acct_ID a = acct_ID (cx_account cx)" and "acct_deleted_at a = None"
  shows "\<exists>w1. accountDelete T format grace cx [NoFault, NoFault, FailBefore err] w = (Ret (HttpStatus 200), [], w1) \<and> pu_jobs w1 = pu_jobs w \<and>
    (\<forall>a \<in> set (ad_accounts (pu_acc w1)). acct_ID a = acct_ID (cx_account cx) \<longrightarrow> acct_deleted_at a \<noteq> None) \<and>
    (\<forall>fs. pu_jobs (final (accountDelete T format grace cx fs w1)) = pu_jobs w1 \<and> pu_jobs (final (v1DeleteAccount T format grace cx key i fs w1)) = pu_jobs w1)"
proof -
  let ?acc = "acct_ID (cx_account cx)" let ?P = "\<lambda>a. acct_ID a = ?acc \<and> acct_deleted_at a = None"
  define w0 where "w0 = w\<lparr>pu_acc := upd_account ?P (\<lambda>a. a\<lparr>acct_deleted_at := Some (pu_now w)\<rparr>) (pu_acc w), pu_after := (pu_after w)(?acc := Some (pu_now w + max 0 grace))\<rparr>"
  define w1 where "w1 = w0\<lparr>pu_acc := audit_db T (pu_now w) (erase_event (Some ?acc) (Some (cx_user cx)) ''account.soft_deleted'' (tx_uuid T ?acc)
    [(''purge_after'', format (pu_now w + max 0 grace))]) (pu_acc w0)\<rparr>"
  have "sql_affected ?P (ad_accounts (pu_acc w)) \<noteq> 0" using assms(2-4) by (auto simp: sql_affected_zero)
  then have "accountDelete T format grace cx [NoFault, NoFault, FailBefore err] w = (Ret (HttpStatus 200), [], w1)"
    using assms(1)
    by (simp add: accountDelete_def SoftDelete_def Let_def bindM_def thenM_def tryM_def getM_def call_def purge_audit_def ignoreM_def ret_def schedule_purge_def
        w0_def w1_def)
  moreover have gone: "\<forall>a \<in> set (ad_accounts (pu_acc w1)). acct_ID a = ?acc \<longrightarrow> acct_deleted_at a \<noteq> None"
    by (auto simp: w1_def w0_def audit_db_def upd_account_def sql_update_def)
  moreover have "pu_jobs w1 = pu_jobs w" by (simp add: w1_def w0_def)
  moreover have "pu_jobs (final (accountDelete T format grace cx fs w1)) = pu_jobs w1 \<and> pu_jobs (final (v1DeleteAccount T format grace cx key i fs w1)) = pu_jobs w1" for fs
  proof -
    have zero: "sql_affected ?P (ad_accounts (pu_acc w1)) = 0" using gone by (auto simp: sql_affected_zero)
    have sd: "\<exists>e fs'. SoftDelete T format grace ?acc u fs w1 = (e, fs', w1) \<and> (\<forall>t. e \<noteq> Ret t)" for u
      using zero by (cases fs; cases "hd fs") (auto simp: SoftDelete_def Let_def bindM_def thenM_def getM_def call_def)
    obtain e fs' where e: "SoftDelete T format grace ?acc (cx_user cx) fs w1 = (e, fs', w1)" "\<And>t. e \<noteq> Ret t" using sd by blast
    obtain e2 fs2 where e2: "SoftDelete T format grace ?acc (ak_CreatedByUserID key) fs w1 = (e2, fs2, w1)" "\<And>t. e2 \<noteq> Ret t" using sd by blast
    show ?thesis
      using e e2 by (cases e; cases e2) (auto simp: accountDelete_def v1DeleteAccount_def bindM_def tryM_def ret_def final_def split: option.split)
  qed
  ultimately show ?thesis by blast
qed

section \<open>Examples\<close>

text \<open>Account 4 with a drill whose evidence is on disk beside that of another account; it was deleted at time 5.\<close>

definition leaving :: "acct_row" where
  "leaving = \<lparr>acct_ID = 4, acct_Name = [], acct_Slug = [], acct_StripeCustomerID = None, acct_Plan = PlanTrial, acct_CreatedAt = 0, acct_TrialEndsAt = None,
     acct_SubscriptionStatus = None, acct_Unlimited = False, acct_deleted_at = None, acct_SubscriptionID = None, acct_StatusUpdatedAt = None\<rparr>"

definition leaving_drill :: Drill where
  "leaving_drill = \<lparr>d_ID = 9, d_TargetID = 3, d_AccountID = 4, d_CreatedByUserID = 2, d_Status = StatusSucceeded, d_StartedAt = None, d_CompletedAt = None, d_Error = None,
     d_EvidencePath = Some ''a.pdf'', d_SandboxDB = None, d_SourceHash = None, d_CreatedAt = 0\<rparr>"

definition leaving_world :: "gotime option \<Rightarrow> hb_row list \<Rightarrow> disk purge_world" where
  "leaving_world deleted beats = \<lparr>pu_acc = two_users\<lparr>ad_accounts := [leaving\<lparr>acct_deleted_at := deleted\<rparr>]\<rparr>, pu_after = (\<lambda>_. Some 10),
     pu_drill = sample_db\<lparr>db_drills := [leaving_drill]\<rparr>, pu_hook = \<lparr>hd_endpoints = [], hd_deliveries = []\<rparr>, pu_beats = beats,
     pu_ev = empty_estate\<lparr>es_store := \<lparr>dk_files = [(''a.pdf'', ''x''), (''b.pdf'', ''y'')], dk_fail = None\<rparr>, es_keys := [(4, ''k''), (2, ''l'')]\<rparr>, pu_jobs = [], pu_now = 20\<rparr>"

definition old_monitor :: hb_row where
  "old_monitor = \<lparr>hb_ID = 1, hb_AccountID = 4, hb_CreatedByUserID = 2, hb_Name = [], hb_Slug = [], hb_PingToken = [], hb_PeriodSeconds = 1, hb_GraceSeconds = 0, hb_Status = HbNew,
     hb_LastPingAt = None, hb_ExpectedBy = None, hb_CreatedAt = 0, hb_deleted_at = Some 1\<rparr>"

lemma leaving_facts:
  "sv_store toy_service = LocalStore ''ev''" "evidence_paths 4 (pu_drill (leaving_world t bs)) = [''a.pdf'']"
  "dk_fail (es_store (pu_ev (leaving_world t bs))) = None" "eligible 4 (leaving_world (Some 5) bs)" "pu_beats (leaving_world t bs) = bs"
  "\<not> eligible 4 (leaving_world None bs)" "map_of (dk_files (es_store (pu_ev (leaving_world t bs)))) ''b.pdf'' = Some ''y''"
  by (simp_all add: toy_service_def leaving_world_def evidence_paths_def leaving_drill_def eligible_def leaving_def two_users_def map_filter_simps)

theorem erase_guard_witness:
  "final (PurgeWorker_Work plain_text toy_service 5 4 [] (leaving_world None [])) = leaving_world None []"
  using erase_guard [OF leaving_facts(6)] by blast

theorem erasure_completes_witness:
  "erased 4 (purge_attempts plain_text toy_service 5 4 [[NoFault, NoFault, NoFault, Crash], []] (leaving_world (Some 5) [])) \<and>
   map_of (dk_files (es_store (pu_ev (purge_attempts plain_text toy_service 5 4 [[NoFault, NoFault, NoFault, Crash], []] (leaving_world (Some 5) []))))) ''b.pdf'' = Some ''y''"
proof -
  have "let w' = purge_attempts plain_text toy_service 5 4 ([[NoFault, NoFault, NoFault, Crash]] @ [[]]) (leaving_world (Some 5) []) in
      erased 4 w' \<and> dependents_gone 4 (leaving_world (Some 5) []) w' \<and> (\<forall>p \<in> set (evidence_paths 4 (pu_drill (leaving_world (Some 5) []))). missing p (pu_ev w')) \<and> others_kept 4 (leaving_world (Some 5) []) w'"
    by (rule erasure_completes [OF leaving_facts(1)]) (simp_all add: leaving_facts)
  then show ?thesis by (simp add: Let_def others_kept_def leaving_facts)
qed

theorem erasure_blocked_witness:
  "pu_same (leaving_world (Some 5) [old_monitor]) (purge_attempts plain_text toy_service 5 4 [[], [], []] (leaving_world (Some 5) [old_monitor])) \<and>
   key_row 4 (pu_ev (final (PurgeWorker_Work plain_text toy_service 5 4 [] (leaving_world (Some 5) [old_monitor])))) = None"
proof -
  have "pu_same (leaving_world (Some 5) [old_monitor]) (purge_attempts plain_text toy_service 5 4 [[], [], []] (leaving_world (Some 5) [old_monitor])) \<and>
    (eligible 4 (leaving_world (Some 5) [old_monitor]) \<and> dk_fail (es_store (pu_ev (leaving_world (Some 5) [old_monitor]))) = None \<longrightarrow>
     key_row 4 (pu_ev (final (PurgeWorker_Work plain_text toy_service 5 4 [] (leaving_world (Some 5) [old_monitor])))) = None)"
    by (rule erasure_blocked [OF leaving_facts(1), of _ _ _ old_monitor]) (simp_all add: leaving_facts old_monitor_def)
  then show ?thesis by (simp add: leaving_facts)
qed

theorem erasure_unscheduled_witness:
  "\<exists>w1. accountDelete plain_text (\<lambda>_. []) 10 (bob_page\<lparr>cx_role := Some RoleOwner, cx_account := (cx_account bob_page)\<lparr>acct_ID := 4\<rparr>\<rparr>)
      [NoFault, NoFault, FailBefore ''timeout''] (leaving_world None []) = (Ret (HttpStatus 200), [], w1) \<and> pu_jobs w1 = []"
proof -
  let ?cx = "bob_page\<lparr>cx_role := Some RoleOwner, cx_account := (cx_account bob_page)\<lparr>acct_ID := 4\<rparr>\<rparr>"
  have "leaving \<in> set (ad_accounts (pu_acc (leaving_world None [])))" "cx_role ?cx = Some RoleOwner" "acct_ID leaving = acct_ID (cx_account ?cx)" "acct_deleted_at leaving = None"
    "pu_jobs (leaving_world None []) = []"
    by (simp_all add: leaving_world_def two_users_def leaving_def)
  with erasure_unscheduled [of ?cx leaving "leaving_world None []"] show ?thesis by fastforce
qed

end
