(* ===== verification/Retention.thy ===== *)
theory Retention
  imports Api_V1 Sign_In Evidence_Service
begin

section \<open>Retention\<close>

text \<open>
  The retention sweep, \<open>internal/compliance/retention.go\<close>: expired evidence, old audit events, login attempts, replies kept for
  idempotency, expired tokens and the log of pings. A step that fails is reported and the next ones are run. \<open>got\<close> is
  the number of rows of expired evidence read before the connection broke, if it did (see \<open>PurgeExpired\<close>). The
  world joins the tables; \<open>rw_drills\<close> are the drills with their evidence paths.
\<close>

record 's sweep_world =
  rw_ev :: "'s estate"
  rw_drills :: "(uuid \<times> string option) list"
  rw_auth :: auth_db
  rw_idem :: "api_idem list"
  rw_hb :: hb_db
  rw_now :: gotime

definition AuditRetention :: duration where
  "AuditRetention = 7 * 365 * 24 * nsHour"

definition LoginAttemptsRetention :: duration where
  "LoginAttemptsRetention = 30 * 24 * nsHour"

definition APIIdempotencyRetention :: duration where
  "APIIdempotencyRetention = 24 * nsHour"

definition HeartbeatPingsRetention :: duration where
  "HeartbeatPingsRetention = 30 * 24 * nsHour"

definition prune_audit :: "('s sweep_world, int) proc" where
  "prune_audit =
     call (\<lambda>w. let db = au_acct (rw_auth w); P = \<lambda>r. aw_at r < rw_now w - AuditRetention in
       (Inr (int (sql_affected P (al_rows (ad_audit db)))),
        w\<lparr>rw_auth := (rw_auth w)\<lparr>au_acct := db\<lparr>ad_audit := (ad_audit db)\<lparr>al_rows := sql_delete P (al_rows (ad_audit db))\<rparr>\<rparr>\<rparr>\<rparr>))"

definition prune_logins :: "('s sweep_world, int) proc" where
  "prune_logins = call (\<lambda>w. (Inr (- 1), w\<lparr>rw_auth := Prune (rw_now w) LoginAttemptsRetention (rw_auth w)\<rparr>))"

definition prune_idem :: "('s sweep_world, int) proc" where
  "prune_idem =
     call (\<lambda>w. let P = \<lambda>r. ix_CreatedAt r < rw_now w - APIIdempotencyRetention in
       (Inr (int (sql_affected P (rw_idem w))), w\<lparr>rw_idem := sql_delete P (rw_idem w)\<rparr>))"

definition prune_verify :: "('s sweep_world, int) proc" where
  "prune_verify =
     call (\<lambda>w. let P = \<lambda>t. tk_ExpiresAt t < rw_now w in
       (Inr (int (sql_affected P (au_verify (rw_auth w)))), w\<lparr>rw_auth := (rw_auth w)\<lparr>au_verify := sql_delete P (au_verify (rw_auth w))\<rparr>\<rparr>))"

definition prune_magic :: "('s sweep_world, int) proc" where
  "prune_magic =
     call (\<lambda>w. let P = \<lambda>t. tk_ExpiresAt t < rw_now w in
       (Inr (int (sql_affected P (au_magic (rw_auth w)))), w\<lparr>rw_auth := (rw_auth w)\<lparr>au_magic := sql_delete P (au_magic (rw_auth w))\<rparr>\<rparr>))"

definition prune_pings :: "('s sweep_world, int) proc" where
  "prune_pings = call (\<lambda>w. case PrunePings (rw_now w) HeartbeatPingsRetention (rw_hb w) of (n, db) \<Rightarrow> (Inr (int n), w\<lparr>rw_hb := db\<rparr>))"

definition purge_evidence :: "'s Service \<Rightarrow> nat \<Rightarrow> ('s sweep_world, int) proc" where
  "purge_evidence S got fs w =
     (case PurgeExpired S got (rw_now w) (rw_drills w) fs (rw_ev w) of
        (Ret n, fs', e) \<Rightarrow> (Ret (int n), fs', w\<lparr>rw_ev := e\<rparr>)
      | (Err m, fs', e) \<Rightarrow> (Err m, fs', w\<lparr>rw_ev := e\<rparr>)
      | (Crashed, fs', e) \<Rightarrow> (Crashed, fs', w\<lparr>rw_ev := e\<rparr>))"

text \<open>A sweep reports for each step the number of rows removed (\<open>- 1\<close> when it is not counted) or the error.\<close>

fun sweep_steps :: "(string \<times> ('s sweep_world, int) proc) list \<Rightarrow> ('s sweep_world, (string \<times> (string + int)) list) proc" where
  "sweep_steps [] = ret []"
| "sweep_steps ((m, p) # ps) = bindM (tryM p) (\<lambda>r. bindM (sweep_steps ps) (\<lambda>rs. ret ((m, r) # rs)))"

definition Sweep :: "'s Service \<Rightarrow> nat \<Rightarrow> bool \<Rightarrow> ('s sweep_world, (string \<times> (string + int)) list) proc" where
  "Sweep S got pings =
     sweep_steps ([(''purge evidence'', purge_evidence S got), (''prune audit_events'', prune_audit), (''prune login_attempts'', prune_logins),
       (''prune api_idempotency'', prune_idem), (''prune email_verification_tokens'', prune_verify), (''prune magic_link_tokens'', prune_magic)] @
       (if pings then [(''prune heartbeat_pings'', prune_pings)] else []))"

definition sweep_errors :: "(string \<times> (string + int)) list \<Rightarrow> string list" where
  "sweep_errors rs = concat (map (\<lambda>(m, r). case r of Inl e \<Rightarrow> [m @ '': '' @ e] | Inr _ \<Rightarrow> []) rs)"

fun errors_Join :: "string list \<Rightarrow> string" where
  "errors_Join [] = []"
| "errors_Join [e] = e"
| "errors_Join (e # es) = e @ CHR 0x0A # errors_Join es"

definition RetentionWorker_Work :: "'s Service \<Rightarrow> nat \<Rightarrow> bool \<Rightarrow> ('s sweep_world, unit) proc" where
  "RetentionWorker_Work S got pings =
     bindM (Sweep S got pings) (\<lambda>rs. if sweep_errors rs = [] then ret () else errM (errors_Join (sweep_errors rs)))"

section \<open>What a sweep removes\<close>

text \<open>The rows of each table that are due to go, and those that are not.\<close>

definition stale_audit :: "'s sweep_world \<Rightarrow> audit_row \<Rightarrow> bool" where
  "stale_audit w r \<longleftrightarrow> aw_at r < rw_now w - 7 * 365 * nsDay"

definition stale_login :: "'s sweep_world \<Rightarrow> attempt_row \<Rightarrow> bool" where
  "stale_login w a \<longleftrightarrow> la_At a < rw_now w - 30 * nsDay"

definition stale_idem :: "'s sweep_world \<Rightarrow> api_idem \<Rightarrow> bool" where
  "stale_idem w r \<longleftrightarrow> ix_CreatedAt r < rw_now w - nsDay"

definition stale_token :: "'s sweep_world \<Rightarrow> token_row \<Rightarrow> bool" where
  "stale_token w t \<longleftrightarrow> tk_ExpiresAt t < rw_now w"

definition stale_ping :: "'s sweep_world \<Rightarrow> ping_row \<Rightarrow> bool" where
  "stale_ping w p \<longleftrightarrow> pr_ReceivedAt p < rw_now w - 30 * nsDay"

abbreviation sw_audit :: "'s sweep_world \<Rightarrow> audit_row list" where
  "sw_audit w \<equiv> al_rows (ad_audit (au_acct (rw_auth w)))"

definition fresh_rows :: "'s sweep_world \<Rightarrow> audit_row list \<times> attempt_row list \<times> api_idem list \<times> token_row list \<times> token_row list \<times> ping_row list" where
  "fresh_rows w =
     (filter (\<lambda>r. \<not> stale_audit w r) (sw_audit w), filter (\<lambda>a. \<not> stale_login w a) (au_attempts (rw_auth w)), filter (\<lambda>r. \<not> stale_idem w r) (rw_idem w),
      filter (\<lambda>t. \<not> stale_token w t) (au_verify (rw_auth w)), filter (\<lambda>t. \<not> stale_token w t) (au_magic (rw_auth w)),
      filter (\<lambda>p. \<not> stale_ping w p) (hd_pings (rw_hb w)))"

lemmas stale_defs = stale_audit_def stale_login_def stale_idem_def stale_token_def stale_ping_def
  AuditRetention_def LoginAttemptsRetention_def APIIdempotencyRetention_def HeartbeatPingsRetention_def

lemmas prune_defs = prune_audit_def prune_logins_def prune_idem_def prune_verify_def prune_magic_def prune_pings_def

lemma keeps_purge_evidence:
  assumes "\<And>w e. I w \<Longrightarrow> I (w\<lparr>rw_ev := e\<rparr>)"
  shows "keeps I (purge_evidence S got)"
  using assms unfolding keeps_def triple_def purge_evidence_def by (auto split: prod.splits outcome.splits)

definition same_fresh :: "'s sweep_world \<Rightarrow> 's sweep_world \<Rightarrow> bool" where
  "same_fresh w0 w \<longleftrightarrow> rw_now w = rw_now w0 \<and> fresh_rows w = fresh_rows w0"

lemma fresh_rows_ev: "fresh_rows (w\<lparr>rw_ev := e\<rparr>) = fresh_rows w"
  by (simp add: fresh_rows_def stale_defs)

lemma keeps_same_fresh: "(\<And>w. same_fresh w (snd (f w))) \<Longrightarrow> keeps (same_fresh w0) (call f)"
  by (rule keeps_call) (simp add: same_fresh_def)

lemma keeps_fresh_prune:
  "keeps (same_fresh w0) prune_audit" "keeps (same_fresh w0) prune_logins" "keeps (same_fresh w0) prune_idem"
  "keeps (same_fresh w0) prune_verify" "keeps (same_fresh w0) prune_magic" "keeps (same_fresh w0) prune_pings"
  unfolding prune_defs
  by (rule keeps_same_fresh, simp add: same_fresh_def fresh_rows_def stale_defs sql_delete_def Let_def Prune_def PrunePings_def)+

lemma keeps_steps: "(\<And>m p. (m, p) \<in> set ps \<Longrightarrow> keeps I p) \<Longrightarrow> keeps I (sweep_steps ps)"
  by (induction ps rule: sweep_steps.induct) (auto intro!: keeps_ret keeps_bindM keeps_tryM)

lemma steps_done:
  assumes "triple (\<lambda>_. True) p (\<lambda>_. D) (\<lambda>_. True)" and "\<And>m q. (m, q) \<in> set qs \<Longrightarrow> keeps D q"
    and "sweep_steps (ps @ (m, p) # qs) fs w = (Ret rs, fs', w')"
  shows "(\<exists>e. (m, Inl e) \<in> set rs) \<or> D w'"
  using assms(3)
proof (induction ps arbitrary: fs w rs)
  case Nil
  then obtain r fs1 w1 rs1 where r: "tryM p fs w = (Ret r, fs1, w1)" and s: "sweep_steps qs fs1 w1 = (Ret rs1, fs', w')" and rs: "rs = (m, r) # rs1"
    by (auto simp: bindM_Ret)
  show ?case
  proof (cases r)
    case (Inr a)
    then have "p fs w = (Ret a, fs1, w1)" using r by (simp add: tryM_Ret)
    then have d: "D w1" using triple_Ret [OF assms(1)] by blast
    have k: "keeps D (sweep_steps qs)" using assms(2) by (rule keeps_steps)
    have "D (final (sweep_steps qs fs1 w1))" by (rule keepsD [where I = D and p = "sweep_steps qs", OF k d])
    then show ?thesis using s by (simp add: final_def)
  qed (use rs in auto)
next
  case (Cons q ps)
  obtain n f where q: "q = (n, f)" by (cases q)
  from Cons.prems obtain r fs1 w1 rs1 where "sweep_steps (ps @ (m, p) # qs) fs1 w1 = (Ret rs1, fs', w')" "rs = (n, r) # rs1"
    by (auto simp: bindM_Ret q)
  with Cons.IH show ?case by fastforce
qed

text \<open>After its own step a table has no stale row, and no later step changes that.\<close>

definition clean_audit :: "'s sweep_world \<Rightarrow> bool" where
  "clean_audit w \<longleftrightarrow> (\<forall>r \<in> set (sw_audit w). \<not> stale_audit w r)"

definition clean_logins :: "'s sweep_world \<Rightarrow> bool" where
  "clean_logins w \<longleftrightarrow> (\<forall>a \<in> set (au_attempts (rw_auth w)). \<not> stale_login w a)"

definition clean_idem :: "'s sweep_world \<Rightarrow> bool" where
  "clean_idem w \<longleftrightarrow> (\<forall>r \<in> set (rw_idem w). \<not> stale_idem w r)"

definition clean_verify :: "'s sweep_world \<Rightarrow> bool" where
  "clean_verify w \<longleftrightarrow> (\<forall>t \<in> set (au_verify (rw_auth w)). \<not> stale_token w t)"

definition clean_magic :: "'s sweep_world \<Rightarrow> bool" where
  "clean_magic w \<longleftrightarrow> (\<forall>t \<in> set (au_magic (rw_auth w)). \<not> stale_token w t)"

definition clean_pings :: "'s sweep_world \<Rightarrow> bool" where
  "clean_pings w \<longleftrightarrow> (\<forall>p \<in> set (hd_pings (rw_hb w)). \<not> stale_ping w p)"

lemmas clean_defs = clean_audit_def clean_logins_def clean_idem_def clean_verify_def clean_magic_def clean_pings_def

lemma triple_prune:
  "triple (\<lambda>_. True) prune_audit (\<lambda>_. clean_audit) (\<lambda>_. True)" "triple (\<lambda>_. True) prune_logins (\<lambda>_. clean_logins) (\<lambda>_. True)"
  "triple (\<lambda>_. True) prune_idem (\<lambda>_. clean_idem) (\<lambda>_. True)" "triple (\<lambda>_. True) prune_verify (\<lambda>_. clean_verify) (\<lambda>_. True)"
  "triple (\<lambda>_. True) prune_magic (\<lambda>_. clean_magic) (\<lambda>_. True)" "triple (\<lambda>_. True) prune_pings (\<lambda>_. clean_pings) (\<lambda>_. True)"
  unfolding prune_defs
  by (rule triple_call, simp_all add: clean_defs stale_defs sql_delete_def Let_def Prune_def PrunePings_def)+

lemma keeps_clean:
  "keeps clean_audit prune_logins" "keeps clean_audit prune_idem" "keeps clean_audit prune_verify" "keeps clean_audit prune_magic" "keeps clean_audit prune_pings"
  "keeps clean_logins prune_idem" "keeps clean_logins prune_verify" "keeps clean_logins prune_magic" "keeps clean_logins prune_pings"
  "keeps clean_idem prune_verify" "keeps clean_idem prune_magic" "keeps clean_idem prune_pings"
  "keeps clean_verify prune_magic" "keeps clean_verify prune_pings" "keeps clean_magic prune_pings"
  unfolding prune_defs
  by (rule keeps_call, simp add: clean_defs stale_defs sql_delete_def Let_def Prune_def PrunePings_def)+

section \<open>Properties\<close>

lemma final_purge_evidence: "rw_ev (final (purge_evidence S got fs w)) = final (PurgeExpired S got (rw_now w) (rw_drills w) fs (rw_ev w))"
  by (simp add: purge_evidence_def final_def split: prod.split outcome.split)

lemma purge_evidence_Ret:
  assumes "purge_evidence S got fs w = (Ret n, fs', w')"
  shows "\<exists>m. PurgeExpired S got (rw_now w) (rw_drills w) fs (rw_ev w) = (Ret m, fs', rw_ev w')"
  using assms by (auto simp: purge_evidence_def split: prod.splits outcome.splits)

lemma keeps_ev:
  "keeps (\<lambda>w. I (rw_ev w)) prune_audit" "keeps (\<lambda>w. I (rw_ev w)) prune_logins" "keeps (\<lambda>w. I (rw_ev w)) prune_idem"
  "keeps (\<lambda>w. I (rw_ev w)) prune_verify" "keeps (\<lambda>w. I (rw_ev w)) prune_magic" "keeps (\<lambda>w. I (rw_ev w)) prune_pings"
  unfolding prune_defs by (rule keeps_call, simp add: Let_def split: prod.split)+

lemma keepsI:
  assumes "\<And>fs w. I w \<Longrightarrow> I (final (p fs w))"
  shows "keeps I p"
  unfolding keeps_def triple_def
proof (intro allI impI)
  fix fs w assume "I w"
  then have "I (final (p fs w))" by (rule assms)
  then show "case p fs w of (Ret a, _, w') \<Rightarrow> I w' | (_, _, w') \<Rightarrow> I w'" by (auto simp: final_def split: prod.split outcome.split)
qed

lemma keeps_sig:
  "keeps (\<lambda>w. rw_now w = now \<and> map_of (es_sigs (rw_ev w)) d = Some row) (purge_evidence S got)" if "now \<le> sr_RetainUntil row"
proof -
  have "rw_now (final (purge_evidence S got fs w)) = rw_now w" for fs w
    by (simp add: purge_evidence_def final_def split: prod.split outcome.split)
  then have "rw_now (final (purge_evidence S got fs w)) = now \<and> map_of (es_sigs (rw_ev (final (purge_evidence S got fs w)))) d = Some row"
    if "rw_now w = now \<and> map_of (es_sigs (rw_ev w)) d = Some row" for fs w
    unfolding final_purge_evidence using that \<open>now \<le> sr_RetainUntil row\<close> keeps_PurgeExpired_sig by blast
  then show ?thesis by (intro keepsI) simp
qed

lemma keeps_sig_prune:
  "keeps (\<lambda>w. rw_now w = now \<and> I (rw_ev w)) prune_audit" "keeps (\<lambda>w. rw_now w = now \<and> I (rw_ev w)) prune_logins"
  "keeps (\<lambda>w. rw_now w = now \<and> I (rw_ev w)) prune_idem" "keeps (\<lambda>w. rw_now w = now \<and> I (rw_ev w)) prune_verify"
  "keeps (\<lambda>w. rw_now w = now \<and> I (rw_ev w)) prune_magic" "keeps (\<lambda>w. rw_now w = now \<and> I (rw_ev w)) prune_pings"
  unfolding prune_defs by (rule keeps_call, simp add: Let_def split: prod.split)+

lemma first_step_done:
  assumes "sweep_steps ((m, p) # qs) fs w = (Ret rs, fs', w')" and "\<And>a fs1 w1. p fs w = (Ret a, fs1, w1) \<Longrightarrow> D w1"
    and "\<And>m q. (m, q) \<in> set qs \<Longrightarrow> keeps D q"
  shows "(\<exists>e. (m, Inl e) \<in> set rs) \<or> D w'"
proof -
  obtain r fs1 w1 rs1 where r: "tryM p fs w = (Ret r, fs1, w1)" and s: "sweep_steps qs fs1 w1 = (Ret rs1, fs', w')" and rs: "rs = (m, r) # rs1"
    using assms(1) by (auto simp: bindM_Ret)
  show ?thesis
  proof (cases r)
    case (Inr a)
    then have d: "D w1" using r assms(2) by (simp add: tryM_Ret)
    have "keeps D (sweep_steps qs)" using assms(3) by (rule keeps_steps)
    from keepsD [OF this d, of fs1] show ?thesis using s by (simp add: final_def)
  qed (use rs in auto)
qed

text \<open>
  C19. The sweep. Whatever calls fail and wherever the process dies, no audit event younger than seven years, no login attempt or
  ping younger than thirty days, no kept reply younger than a day, no token that has not expired and no signature of evidence within its retention
  is removed. And steps are independent: when the sweep returns, each of the six tables it prunes is free of the rows that are due, unless the report
  has an error for this very table. For the signatures of expired evidence this holds when all of them were read; a read that broke off is no error of the report.
\<close>

theorem retention_sweep:
  "fresh_rows (final (Sweep S got pings fs w)) = fresh_rows w \<and>
   (\<forall>d row. map_of (es_sigs (rw_ev w)) d = Some row \<and> rw_now w \<le> sr_RetainUntil row \<longrightarrow>
      map_of (es_sigs (rw_ev (final (Sweep S got pings fs w)))) d = Some row) \<and>
   (\<forall>rs fs' w'. Sweep S got True fs w = (Ret rs, fs', w') \<longrightarrow>
      (length (expired_rows (rw_now w) (rw_drills w) (rw_ev w)) \<le> got \<longrightarrow> (\<exists>e. (''purge evidence'', Inl e) \<in> set rs) \<or>
        (\<forall>x \<in> fst ` set (expired_rows (rw_now w) (rw_drills w) (rw_ev w)). map_of (es_sigs (rw_ev w')) x = None)) \<and>
      ((\<exists>e. (''prune audit_events'', Inl e) \<in> set rs) \<or> clean_audit w') \<and>
      ((\<exists>e. (''prune login_attempts'', Inl e) \<in> set rs) \<or> clean_logins w') \<and>
      ((\<exists>e. (''prune api_idempotency'', Inl e) \<in> set rs) \<or> clean_idem w') \<and>
      ((\<exists>e. (''prune email_verification_tokens'', Inl e) \<in> set rs) \<or> clean_verify w') \<and>
      ((\<exists>e. (''prune magic_link_tokens'', Inl e) \<in> set rs) \<or> clean_magic w') \<and>
      ((\<exists>e. (''prune heartbeat_pings'', Inl e) \<in> set rs) \<or> clean_pings w'))"
proof (intro conjI allI impI)
  have ev: "keeps (same_fresh w) (purge_evidence S got)"
    by (rule keeps_purge_evidence) (simp add: same_fresh_def fresh_rows_ev)
  have "keeps (same_fresh w) (Sweep S got pings)"
    unfolding Sweep_def
    by (rule keeps_steps) (auto intro: keeps_fresh_prune ev split: if_splits)
  from keepsD [OF this, of w fs] show "fresh_rows (final (Sweep S got pings fs w)) = fresh_rows w" by (simp add: same_fresh_def)
  fix d row assume sig: "map_of (es_sigs (rw_ev w)) d = Some row \<and> rw_now w \<le> sr_RetainUntil row"
  have "keeps (\<lambda>v. rw_now v = rw_now w \<and> map_of (es_sigs (rw_ev v)) d = Some row) (Sweep S got pings)"
    unfolding Sweep_def
    by (rule keeps_steps) (use sig keeps_sig_prune [where I = "\<lambda>e. map_of (es_sigs e) d = Some row"] in \<open>auto intro: keeps_sig split: if_splits\<close>)
  from keepsD [OF this, of w fs] sig show "map_of (es_sigs (rw_ev (final (Sweep S got pings fs w)))) d = Some row" by simp
next
  fix rs fs' w' assume run: "Sweep S got True fs w = (Ret rs, fs', w')"
  let ?e = "(''purge evidence'', purge_evidence S got)" and ?a = "(''prune audit_events'', prune_audit)" and ?l = "(''prune login_attempts'', prune_logins)"
    and ?i = "(''prune api_idempotency'', prune_idem)" and ?v = "(''prune email_verification_tokens'', prune_verify)" and ?m = "(''prune magic_link_tokens'', prune_magic)"
    and ?p = "(''prune heartbeat_pings'', prune_pings)"
  have steps: "sweep_steps [?e, ?a, ?l, ?i, ?v, ?m, ?p] fs w = (Ret rs, fs', w')" using run by (simp add: Sweep_def)
  show "(\<exists>e. (''purge evidence'', Inl e) \<in> set rs) \<or>
      (\<forall>x \<in> fst ` set (expired_rows (rw_now w) (rw_drills w) (rw_ev w)). map_of (es_sigs (rw_ev w')) x = None)"
    if "length (expired_rows (rw_now w) (rw_drills w) (rw_ev w)) \<le> got"
  proof (rule first_step_done [OF steps])
    show "\<forall>x \<in> fst ` set (expired_rows (rw_now w) (rw_drills w) (rw_ev w)). map_of (es_sigs (rw_ev w1)) x = None"
      if "purge_evidence S got fs w = (Ret a, fs1, w1)" for a fs1 w1
      using purge_evidence_Ret [OF that] PurgeExpired_Ret \<open>length (expired_rows (rw_now w) (rw_drills w) (rw_ev w)) \<le> got\<close> by fastforce
  qed (use keeps_ev [where I = "\<lambda>e. \<forall>x \<in> fst ` set (expired_rows (rw_now w) (rw_drills w) (rw_ev w)). map_of (es_sigs e) x = None"] in auto)
  show "(\<exists>e. (''prune audit_events'', Inl e) \<in> set rs) \<or> clean_audit w'"
    by (rule steps_done [OF triple_prune(1), of "[?l, ?i, ?v, ?m, ?p]" "[?e]"]) (use steps keeps_clean in auto)
  show "(\<exists>e. (''prune login_attempts'', Inl e) \<in> set rs) \<or> clean_logins w'"
    by (rule steps_done [OF triple_prune(2), of "[?i, ?v, ?m, ?p]" "[?e, ?a]"]) (use steps keeps_clean in auto)
  show "(\<exists>e. (''prune api_idempotency'', Inl e) \<in> set rs) \<or> clean_idem w'"
    by (rule steps_done [OF triple_prune(3), of "[?v, ?m, ?p]" "[?e, ?a, ?l]"]) (use steps keeps_clean in auto)
  show "(\<exists>e. (''prune email_verification_tokens'', Inl e) \<in> set rs) \<or> clean_verify w'"
    by (rule steps_done [OF triple_prune(4), of "[?m, ?p]" "[?e, ?a, ?l, ?i]"]) (use steps keeps_clean in auto)
  show "(\<exists>e. (''prune magic_link_tokens'', Inl e) \<in> set rs) \<or> clean_magic w'"
    by (rule steps_done [OF triple_prune(5), of "[?p]" "[?e, ?a, ?l, ?i, ?v]"]) (use steps keeps_clean in auto)
  show "(\<exists>e. (''prune heartbeat_pings'', Inl e) \<in> set rs) \<or> clean_pings w'"
    by (rule steps_done [OF triple_prune(6), of "[]" "[?e, ?a, ?l, ?i, ?v, ?m]"]) (use steps keeps_clean in auto)
qed

definition old_world :: "disk sweep_world" where
  "old_world = \<lparr>rw_ev = empty_estate, rw_drills = [], rw_auth = \<lparr>au_acct = two_users, au_sessions = [], au_attempts = [],
       au_magic = [\<lparr>tk_ID = 1, tk_UserID = 1, tk_hash = [], tk_ExpiresAt = 5, tk_ConsumedAt = None\<rparr>, \<lparr>tk_ID = 2, tk_UserID = 1, tk_hash = [], tk_ExpiresAt = 15, tk_ConsumedAt = None\<rparr>],
       au_verify = [], au_codes = []\<rparr>,
     rw_idem = [], rw_hb = \<lparr>hd_users = [], hd_accounts = [], hd_rows = [], hd_pings = []\<rparr>, rw_now = 10\<rparr>"

text \<open>The first of two links has expired; the deletion of audit events fails.\<close>

theorem retention_sweep_witness:
  "\<exists>rs fs' w'. Sweep toy_service 0 True [NoFault, FailBefore ''timeout''] old_world = (Ret rs, fs', w') \<and> (''prune audit_events'', Inl ''timeout'') \<in> set rs \<and>
     clean_magic w' \<and> fresh_rows (final (Sweep toy_service 0 True [NoFault, FailBefore ''timeout''] old_world)) = fresh_rows old_world"
proof -
  obtain rs fs' w' where r: "Sweep toy_service 0 True [NoFault, FailBefore ''timeout''] old_world = (Ret rs, fs', w')"
    "(''prune audit_events'', Inl ''timeout'') \<in> set rs" "\<forall>e. (''prune magic_link_tokens'', Inl e) \<notin> set rs"
    by (simp add: Sweep_def bindM_def tryM_def purge_evidence_def PurgeExpired_def expired_rows_def old_world_def call_def Let_def prune_defs PrunePings_def ret_def)
  with retention_sweep [of toy_service 0 True "[NoFault, FailBefore ''timeout'']" old_world] show ?thesis by blast
qed

end
