(* ===== verification/Rate_Limit.thy ===== *)
theory Rate_Limit
  imports Go_Float Audit_Log
begin

section \<open>Rate limits\<close>

text \<open>
  \<open>internal/ratelimit/ratelimit.go\<close> and the keys of \<open>internal/web/handlers/handlers.go\<close> and \<open>v1.go\<close>: one token bucket per key, in
  Go's floating-point arithmetic. The mutex makes each call one step; \<open>now\<close> is the limiter's clock at
  that step. Go's clock does not run backwards between two readings of a process. \<open>S\<close> prints identifiers.
\<close>

record bucket =
  bk_tokens :: rat
  bk_lastSeen :: gotime

record Limiter =
  lim_rate :: rat
  lim_burst :: rat
  lim_buckets :: "string \<rightharpoonup> bucket"

definition lim_New :: "int \<Rightarrow> int \<Rightarrow> Limiter" where
  "lim_New perMinute burst =
     (let pm = (if perMinute < 1 then 1 else perMinute);
          b = (if burst < 1 then 1 else burst) in
      \<lparr>lim_rate = fl (fl (of_int pm) / 60), lim_burst = fl (of_int b), lim_buckets = Map.empty\<rparr>)"

definition minF :: "rat \<Rightarrow> rat \<Rightarrow> rat" where
  "minF a b = (if a < b then a else b)"

definition refill :: "gotime \<Rightarrow> Limiter \<Rightarrow> bucket option \<Rightarrow> bucket" where
  "refill now l b =
     (case b of
        None \<Rightarrow> \<lparr>bk_tokens = lim_burst l, bk_lastSeen = now\<rparr>
      | Some b \<Rightarrow>
          (let elapsed = Seconds (time_Sub now (bk_lastSeen b)) in
           b\<lparr>bk_tokens := minF (lim_burst l) (fl (bk_tokens b + fl (elapsed * lim_rate l))), bk_lastSeen := now\<rparr>))"

definition Allow :: "gotime \<Rightarrow> string \<Rightarrow> Limiter \<Rightarrow> (bool \<times> duration) \<times> Limiter" where
  "Allow now key l =
     (let b = refill now l (lim_buckets l key) in
      if 1 \<le> bk_tokens b then
        ((True, 0), l\<lparr>lim_buckets := (lim_buckets l)(key \<mapsto> b\<lparr>bk_tokens := fl (bk_tokens b - 1)\<rparr>)\<rparr>)
      else
        (let deficit = fl (1 - bk_tokens b);
             wait = trunc_int (fl (fl (deficit / lim_rate l) * 1000000000)) in
         ((False, wait), l\<lparr>lim_buckets := (lim_buckets l)(key \<mapsto> b)\<rparr>)))"

definition lim_sweep :: "gotime \<Rightarrow> duration \<Rightarrow> Limiter \<Rightarrow> Limiter" where
  "lim_sweep now ttl l =
     (let cutoff = now - ttl in
      l\<lparr>lim_buckets := (\<lambda>k. case lim_buckets l k of
          None \<Rightarrow> None | Some b \<Rightarrow> if bk_lastSeen b < cutoff then None else Some b)\<rparr>)"

text \<open>The reply of the middleware: 429 with the number of its \<open>Retry-After\<close> header, or what the next handler did.\<close>

datatype 'a limited = RateLimited int | Served 'a

definition lim_Middleware :: "(request \<Rightarrow> string) \<Rightarrow> (request \<Rightarrow> 'a) \<Rightarrow> gotime \<Rightarrow> request \<Rightarrow> Limiter \<Rightarrow> 'a limited \<times> Limiter" where
  "lim_Middleware key nxt now r l =
     (case Allow now (key r) l of
        ((True, _), l') \<Rightarrow> (Served (nxt r), l')
      | ((False, retryAfter), l') \<Rightarrow>
          (let secs = trunc_int (Seconds retryAfter) in (RateLimited (if secs < 1 then 1 else secs), l')))"

subsection \<open>Keys\<close>

definition clientIPKey :: "request \<Rightarrow> string" where
  "clientIPKey r = ''ip:'' @ ClientIP r"

definition accountKey :: "(uuid \<Rightarrow> string) \<Rightarrow> uuid option \<Rightarrow> request \<Rightarrow> string" where
  "accountKey S acct r = (case acct of Some a \<Rightarrow> ''acct:'' @ S a | None \<Rightarrow> ''ip:'' @ ClientIP r)"

definition v1AccountKey :: "(uuid \<Rightarrow> string) \<Rightarrow> uuid option \<Rightarrow> string" where
  "v1AccountKey S acct = (case acct of Some a \<Rightarrow> ''v1:'' @ S a | None \<Rightarrow> ''v1:anon'')"

subsection \<open>The limiters of the server\<close>

definition authLimiter :: Limiter where "authLimiter = lim_New 20 10"
definition appLimiter :: Limiter where "appLimiter = lim_New 300 100"
definition v1Limiter :: Limiter where "v1Limiter = lim_New 60 60"
definition pingLimiter :: Limiter where "pingLimiter = lim_New 120 60"
definition limiterTTL :: duration where "limiterTTL = 15 * nsMinute"

subsection \<open>Runs\<close>

text \<open>A run of one limiter: requests with their keys and rounds of the sweeper, in the order of the mutex.\<close>

datatype lim_event = Request gotime string | Sweep gotime

fun ev_time :: "lim_event \<Rightarrow> gotime" where
  "ev_time (Request t k) = t"
| "ev_time (Sweep t) = t"

fun lim_step :: "duration \<Rightarrow> lim_event \<Rightarrow> Limiter \<Rightarrow> Limiter" where
  "lim_step ttl (Request t k) l = snd (Allow t k l)"
| "lim_step ttl (Sweep t) l = lim_sweep t ttl l"

fun grants :: "string \<Rightarrow> lim_event \<Rightarrow> Limiter \<Rightarrow> nat" where
  "grants k (Request t k') l = (if k' = k \<and> fst (fst (Allow t k' l)) then 1 else 0)"
| "grants k (Sweep t) l = 0"

fun served :: "duration \<Rightarrow> string \<Rightarrow> lim_event list \<Rightarrow> Limiter \<Rightarrow> nat" where
  "served ttl k [] l = 0"
| "served ttl k (e # es) l = grants k e l + served ttl k es (lim_step ttl e l)"

section \<open>The rate is kept\<close>

text \<open>
  \<open>lim_inv\<close> holds at every instant \<open>t\<close> of a run. \<open>credit\<close> is what a key can have at \<open>t\<close> at most, with \<open>R\<close> tokens per
  nanosecond: no event adds to the credit and the granted requests together more than the time since
  the event before, and two roundings.
\<close>

definition lim_inv :: "int \<Rightarrow> int \<Rightarrow> gotime \<Rightarrow> Limiter \<Rightarrow> bool" where
  "lim_inv pm B t l \<longleftrightarrow> lim_rate l = fl (fl (of_int pm) / 60) \<and> lim_burst l = of_int B \<and> B \<le> 2 ^ 53 \<and>
     (\<forall>k b. lim_buckets l k = Some b \<longrightarrow> 0 \<le> bk_tokens b \<and> bk_tokens b \<le> of_int B \<and> bk_lastSeen b \<le> t)"

definition ns_rate :: "int \<Rightarrow> rat" where
  "ns_rate pm = of_int pm / 60000000000 * ulp1 ^ 6"

definition credit :: "int \<Rightarrow> int \<Rightarrow> string \<Rightarrow> gotime \<Rightarrow> Limiter \<Rightarrow> rat" where
  "credit pm B k t l = (case lim_buckets l k of None \<Rightarrow> of_int B | Some b \<Rightarrow> bk_tokens b + ns_rate pm * of_int (t - bk_lastSeen b))"

definition slip :: "int \<Rightarrow> rat" where "slip B = of_int B / 2 ^ 53"

lemma slip_nonneg: "1 \<le> B \<Longrightarrow> 0 \<le> slip B"
  by (simp add: slip_def)

lemma fl_slip: "0 \<le> x \<Longrightarrow> x \<le> of_int B \<Longrightarrow> fl x \<le> x + slip B"
proof -
  assume x: "0 \<le> x" "x \<le> of_int B"
  have "x / 2 ^ 53 \<le> slip B" using x unfolding slip_def by (intro divide_right_mono) simp_all
  then show ?thesis using fl_error [of x] x(1) unfolding abs_of_nonneg [OF x(1)] by linarith
qed

lemma refill_inc:
  assumes "1 \<le> pm" "s \<le> t"
  shows "0 \<le> fl (Seconds (time_Sub t s) * fl (fl (of_int pm) / 60))"
    and "fl (Seconds (time_Sub t s) * fl (fl (of_int pm) / 60)) \<le> ns_rate pm * of_int (t - s)"
proof -
  define d where "d = time_Sub t s"
  have d: "0 \<le> d" "d \<le> t - s" using assms(2) by (auto simp: d_def time_Sub_def)
  have p: "0 \<le> (of_int pm :: rat)" using assms(1) by simp
  have r0: "0 \<le> fl (of_int pm) / 60" using fl.rnd_nonneg [OF p] by simp
  have "fl (of_int pm) / 60 \<le> of_int pm / 60 * ulp1" using fl_le [OF p, of "of_int pm"] by simp
  from fl_le [OF r0 this] have r: "fl (fl (of_int pm) / 60) \<le> of_int pm / 60 * ulp1 ^ 2" by (simp add: power2_eq_square mult.assoc)
  have r1: "0 \<le> fl (fl (of_int pm) / 60)" using fl.rnd_nonneg [OF r0] .
  note S = Seconds_nonneg [OF d(1)] Seconds_le [OF d(1)]
  have x0: "0 \<le> Seconds d * fl (fl (of_int pm) / 60)" using S(1) r1 by simp
  have "Seconds d * fl (fl (of_int pm) / 60) \<le> (of_int d / 1000000000 * ulp1 ^ 3) * (of_int pm / 60 * ulp1 ^ 2)"
    using S r r1 p d(1) ulp1_ge by (intro mult_mono) auto
  from fl_le [OF x0 this] have "fl (Seconds d * fl (fl (of_int pm) / 60)) \<le> ns_rate pm * of_int d"
    by (simp add: ns_rate_def power_numeral_reduce mult_ac)
  also have "\<dots> \<le> ns_rate pm * of_int (t - s)" using d p ulp1_ge by (intro mult_left_mono) (simp_all add: ns_rate_def)
  finally show "fl (Seconds (time_Sub t s) * fl (fl (of_int pm) / 60)) \<le> ns_rate pm * of_int (t - s)" unfolding d_def .
  show "0 \<le> fl (Seconds (time_Sub t s) * fl (fl (of_int pm) / 60))" using fl.rnd_nonneg [OF x0] unfolding d_def .
qed

lemma refill_lastSeen [simp]: "bk_lastSeen (refill now l b) = now"
  by (cases b) (simp_all add: refill_def Let_def)

lemma refill_bounds:
  assumes "lim_inv pm B t l" "1 \<le> pm" "1 \<le> B" "t \<le> u"
  shows "0 \<le> bk_tokens (refill u l (lim_buckets l k))" "bk_tokens (refill u l (lim_buckets l k)) \<le> of_int B"
    "bk_tokens (refill u l (lim_buckets l k)) \<le> credit pm B k u l + slip B"
    "bk_lastSeen (refill u l (lim_buckets l k)) = u"
proof -
  let ?b = "refill u l (lim_buckets l k)"
  have *: "0 \<le> bk_tokens ?b \<and> bk_tokens ?b \<le> of_int B \<and> bk_tokens ?b \<le> credit pm B k u l + slip B \<and> bk_lastSeen ?b = u"
  proof (cases "lim_buckets l k")
    case None
    then show ?thesis using assms slip_nonneg [OF assms(3)] by (simp add: refill_def credit_def lim_inv_def)
  next
    case (Some b)
    define i where "i = fl (Seconds (time_Sub u (bk_lastSeen b)) * lim_rate l)"
    have b: "0 \<le> bk_tokens b" "bk_tokens b \<le> of_int B" "bk_lastSeen b \<le> u" "lim_burst l = of_int B"
      using assms Some by (fastforce simp: lim_inv_def)+
    have i: "0 \<le> i" "i \<le> ns_rate pm * of_int (u - bk_lastSeen b)"
      using refill_inc [OF assms(2) b(3)] assms(1) by (simp_all add: i_def lim_inv_def)
    have t: "bk_tokens ?b = minF (of_int B) (fl (bk_tokens b + i))" by (simp add: refill_def Some i_def b(4))
    have n: "0 \<le> fl (bk_tokens b + i)" using b(1) i(1) by (intro fl.rnd_nonneg) simp
    have "minF (of_int B) (fl (bk_tokens b + i)) \<le> bk_tokens b + i + slip B"
      using fl_slip [of "bk_tokens b + i" B] b(1) i(1) slip_nonneg [OF assms(3)] by (cases "bk_tokens b + i \<le> of_int B") (auto simp: minF_def)
    then show ?thesis using t n i(2) assms(3) by (auto simp: credit_def Some minF_def refill_lastSeen)
  qed
  then show "0 \<le> bk_tokens ?b" "bk_tokens ?b \<le> of_int B" "bk_tokens ?b \<le> credit pm B k u l + slip B" "bk_lastSeen ?b = u" by blast+
qed

lemma ns_rate_nonneg: "1 \<le> pm \<Longrightarrow> 0 \<le> ns_rate pm"
  using ulp1_ge by (simp add: ns_rate_def)

lemma credit_mono:
  assumes "1 \<le> pm" "t \<le> u"
  shows "credit pm B k u l \<le> credit pm B k t l + ns_rate pm * of_int (u - t)"
proof -
  have "0 \<le> ns_rate pm * of_int (u - t)" using assms ns_rate_nonneg by simp
  then show ?thesis by (simp add: credit_def algebra_simps split: option.split)
qed

lemma fl_minus1:
  assumes "1 \<le> x" "x \<le> of_int B" "B \<le> 2 ^ 53"
  shows "0 \<le> fl (x - 1)" "fl (x - 1) \<le> of_int B" "fl (x - 1) \<le> x - 1 + slip B"
proof -
  show "0 \<le> fl (x - 1)" using assms by (intro fl.rnd_nonneg) simp
  show s: "fl (x - 1) \<le> x - 1 + slip B" using assms by (intro fl_slip) simp_all
  have "of_int 1 \<le> (of_int B :: rat)" using assms by simp
  then have "1 \<le> B" unfolding of_int_le_iff .
  then show "fl (x - 1) \<le> of_int B" using assms by (intro fl.rnd_le_int) simp_all
qed

lemma request_step:
  assumes "lim_inv pm B t l" "1 \<le> pm" "1 \<le> B" "t \<le> u"
  shows "lim_inv pm B u (snd (Allow u k' l))"
    and "of_nat (grants k (Request u k') l) + credit pm B k u (snd (Allow u k' l)) \<le> credit pm B k u l + 2 * slip B"
proof -
  let ?b = "refill u l (lim_buckets l k')"
  note b = refill_bounds [OF assms, of k']
  have old: "lim_rate l = fl (fl (of_int pm) / 60)" "lim_burst l = of_int B" "B \<le> 2 ^ 53"
    "\<And>k b. lim_buckets l k = Some b \<Longrightarrow> 0 \<le> bk_tokens b \<and> bk_tokens b \<le> of_int B \<and> bk_lastSeen b \<le> u"
    using assms(1,4) by (auto simp: lim_inv_def intro: order_trans)
  show "lim_inv pm B u (snd (Allow u k' l))"
    using old b fl_minus1 [of "bk_tokens ?b" B, OF _ _ old(3)] by (simp add: lim_inv_def Allow_def Let_def)
  show "of_nat (grants k (Request u k') l) + credit pm B k u (snd (Allow u k' l)) \<le> credit pm B k u l + 2 * slip B"
  proof (cases "k' = k")
    case False
    then have "credit pm B k u (snd (Allow u k' l)) = credit pm B k u l" by (simp add: credit_def Allow_def Let_def)
    then show ?thesis using False slip_nonneg [OF assms(3)] by simp
  next
    case True
    then show ?thesis using b fl_minus1 [of "bk_tokens ?b" B, OF _ _ old(3)] slip_nonneg [OF assms(3)]
      by (auto simp: credit_def [of _ _ _ _ "snd _"] Allow_def Let_def)
  qed
qed

lemma sweep_inv:
  assumes "lim_inv pm B t l" "t \<le> u"
  shows "lim_inv pm B u (lim_sweep u ttl l)"
  using assms by (fastforce simp: lim_inv_def lim_sweep_def Let_def split: option.splits if_splits)

lemma sweep_step:
  assumes "lim_inv pm B t l" "1 \<le> pm" "t \<le> u" "B * nsMinute \<le> pm * ttl"
  shows "credit pm B k u (lim_sweep u ttl l) \<le> credit pm B k u l"
proof -
  have old: "\<And>k b. lim_buckets l k = Some b \<Longrightarrow> 0 \<le> bk_tokens b \<and> bk_tokens b \<le> of_int B \<and> bk_lastSeen b \<le> u"
    using assms(1,3) by (auto simp: lim_inv_def intro: order_trans)
  have "of_int (B * 60000000000) \<le> (of_int (pm * ttl) :: rat)" unfolding of_int_le_iff using assms(4) .
  then have B: "of_int B \<le> of_int pm / 60000000000 * (of_int ttl :: rat)" by simp
  have full: "of_int B \<le> bk_tokens b + ns_rate pm * of_int (u - bk_lastSeen b)" if b: "lim_buckets l k = Some b" "bk_lastSeen b < u - ttl" for b
  proof -
    have "of_int pm / 60000000000 * (of_int ttl :: rat) \<le> of_int pm / 60000000000 * of_int (u - bk_lastSeen b)"
      using assms(2) b(2) by (intro mult_left_mono) simp_all
    also have "\<dots> \<le> ns_rate pm * of_int (u - bk_lastSeen b)"
      using assms(2) old [OF b(1)] one_le_power [OF ulp1_ge, of 6]
      by (intro mult_right_mono) (simp_all add: ns_rate_def mult_le_cancel_left1)
    finally show ?thesis using B old [OF b(1)] by linarith
  qed
  show "credit pm B k u (lim_sweep u ttl l) \<le> credit pm B k u l"
    using full by (auto simp: credit_def lim_sweep_def Let_def split: option.split)
qed

lemma credit_step:
  assumes "lim_inv pm B t l" "1 \<le> pm" "1 \<le> B" "t \<le> ev_time e" "B * nsMinute \<le> pm * ttl"
  shows "lim_inv pm B (ev_time e) (lim_step ttl e l)"
    and "of_nat (grants k e l) + credit pm B k (ev_time e) (lim_step ttl e l) \<le>
         credit pm B k t l + ns_rate pm * of_int (ev_time e - t) + 2 * slip B"
proof -
  have m: "credit pm B k (ev_time e) l \<le> credit pm B k t l + ns_rate pm * of_int (ev_time e - t)"
    using assms by (intro credit_mono)
  note B = slip_nonneg [OF assms(3)]
  have *: "lim_inv pm B (ev_time e) (lim_step ttl e l) \<and>
      of_nat (grants k e l) + credit pm B k (ev_time e) (lim_step ttl e l) \<le> credit pm B k (ev_time e) l + 2 * slip B"
  proof (cases e)
    case (Request u k')
    then show ?thesis using request_step [of pm B t l u] assms by simp
  next
    case (Sweep u)
    then show ?thesis using sweep_inv [of pm B t l u ttl] sweep_step [of pm B t l u ttl k] assms B by simp
  qed
  then show "lim_inv pm B (ev_time e) (lim_step ttl e l)" by blast
  from * m show "of_nat (grants k e l) + credit pm B k (ev_time e) (lim_step ttl e l) \<le>
         credit pm B k t l + ns_rate pm * of_int (ev_time e - t) + 2 * slip B" by linarith
qed

lemma credit_run:
  assumes "lim_inv pm B t l" "1 \<le> pm" "1 \<le> B" "sorted (map ev_time es)" "\<forall>e \<in> set es. t \<le> ev_time e \<and> ev_time e \<le> u" "t \<le> u" "B * nsMinute \<le> pm * ttl"
  shows "of_nat (served ttl k es l) \<le> credit pm B k t l + ns_rate pm * of_int (u - t) + of_nat (length es) * (2 * slip B)"
  using assms
proof (induction es arbitrary: t l)
  case Nil
  have "0 \<le> credit pm B k t l" using Nil.prems ns_rate_nonneg [of pm] by (auto simp: credit_def lim_inv_def split: option.split)
  moreover have "0 \<le> ns_rate pm * of_int (u - t)" using Nil.prems ns_rate_nonneg [of pm] by simp
  ultimately show ?case by simp
next
  case (Cons e es)
  have e: "t \<le> ev_time e" using Cons.prems by simp
  note st = credit_step [OF Cons.prems(1-3) e Cons.prems(7)]
  have "of_nat (served ttl k es (lim_step ttl e l)) \<le> credit pm B k (ev_time e) (lim_step ttl e l) +
      ns_rate pm * of_int (u - ev_time e) + of_nat (length es) * (2 * slip B)"
    using Cons.prems st(1) by (intro Cons.IH) auto
  then show ?case using st(2) [of k] by (simp add: algebra_simps)
qed

lemma ulp1_6: "ulp1 ^ 6 \<le> 1 + 1 / 2 ^ 50"
  unfolding ulp1_def by (simp add: power_numeral_reduce)

lemma lim_New_inv:
  assumes "1 \<le> pm" "1 \<le> B" "B \<le> 2 ^ 53"
  shows "lim_inv pm B t (lim_New pm B)" "credit pm B k t (lim_New pm B) = of_int B"
  using assms fl_of_int [of B] by (simp_all add: lim_inv_def lim_New_def credit_def)

lemma rate_kept:
  assumes "1 \<le> pm" "1 \<le> B" "B \<le> 2 ^ 53" "B * nsMinute \<le> pm * ttl" "sorted (map ev_time es)" "\<forall>e \<in> set es. t \<le> ev_time e \<and> ev_time e \<le> u" "t \<le> u"
  shows "of_nat (served ttl k es (lim_New pm B)) \<le>
    of_int B + of_int pm * of_int (u - t) / 60000000000 * (1 + 1 / 2 ^ 50) + of_nat (length es) * of_int B / (2 ^ 52 :: rat)"
proof -
  have "of_int pm / 60000000000 * of_int (u - t) * ulp1 ^ 6 \<le> of_int pm / 60000000000 * of_int (u - t) * (1 + 1 / 2 ^ 50)"
    using assms ulp1_6 by (intro mult_left_mono) simp_all
  then have "ns_rate pm * of_int (u - t) \<le> of_int pm * of_int (u - t) / 60000000000 * (1 + 1 / 2 ^ 50)"
    unfolding ns_rate_def by (simp only: mult_ac times_divide_eq_left times_divide_eq_right)
  moreover have "of_nat (length es) * (2 * slip B) = of_nat (length es) * of_int B / (2 ^ 52 :: rat)" by (simp add: slip_def)
  ultimately show ?thesis
    using credit_run [OF lim_New_inv(1) [OF assms(1-3)] assms(1,2,5,6,7,4), of k] lim_New_inv(2) [OF assms(1-3), of k t] by linarith
qed

section \<open>Requests are served again\<close>

lemma Seconds_ge: "of_int n * nsSecond \<le> d \<Longrightarrow> 0 \<le> n \<Longrightarrow> n \<le> 2 ^ 53 \<Longrightarrow> of_int n \<le> Seconds d"
proof -
  assume a: "of_int n * nsSecond \<le> d" "0 \<le> n" "n \<le> 2 ^ 53"
  have d: "0 \<le> d" using a by (auto intro: order_trans [rotated])
  have "n \<le> d div nsSecond" using a(1) by (simp add: zdiv_mono1 [of "n * nsSecond" d nsSecond, simplified])
  then have "of_int n \<le> fl (of_int (d div nsSecond))" using a by (intro fl.rnd_ge_int) simp_all
  moreover have "0 \<le> fl (fl (of_int (d mod nsSecond)) / 1000000000)"
    by (intro fl.rnd_nonneg divide_nonneg_nonneg) simp_all
  ultimately show ?thesis unfolding Seconds_pos [OF d] using a by (intro fl.rnd_ge_int) simp_all
qed

lemma slowest_minute: "fl (60 * fl (1 / 60)) = 1"
  by code_simp

lemma minute_refill:
  assumes "1 \<le> pm" "nsMinute \<le> d"
  shows "1 \<le> fl (Seconds d * fl (fl (of_int pm) / 60))"
proof -
  have "60 \<le> Seconds d" using assms(2) Seconds_ge [of 60 d] by simp
  moreover have "fl (1 / 60) \<le> fl (fl (of_int pm) / 60)"
    using fl.rnd_ge_int [of 1 "of_int pm"] assms(1) by (intro fl_mono) simp
  moreover have "0 \<le> fl (1 / 60)" by (intro fl.rnd_nonneg) simp
  ultimately have "60 * fl (1 / 60) \<le> Seconds d * fl (fl (of_int pm) / 60)" by (intro mult_mono) linarith+
  from fl_mono [OF this] show ?thesis unfolding slowest_minute .
qed

definition lim_run :: "duration \<Rightarrow> lim_event list \<Rightarrow> Limiter \<Rightarrow> Limiter" where
  "lim_run ttl es l = fold (lim_step ttl) es l"

lemma run_inv:
  assumes "lim_inv pm B t l" "1 \<le> pm" "1 \<le> B" "sorted (map ev_time es)" "\<forall>e \<in> set es. t \<le> ev_time e \<and> ev_time e \<le> u" "t \<le> u"
  shows "lim_inv pm B u (lim_run ttl es l)"
  using assms
proof (induction es arbitrary: t l)
  case Nil
  then show ?case by (fastforce simp: lim_run_def lim_inv_def)
next
  case (Cons e es)
  have "lim_inv pm B (ev_time e) (lim_step ttl e l)"
    using Cons.prems request_step(1) [of pm B t l] sweep_inv [of pm B t l] by (cases e) simp_all
  then show ?case using Cons.IH [of "ev_time e" "lim_step ttl e l"] Cons.prems by (simp add: lim_run_def)
qed

lemma run_last:
  assumes "\<And>b. lim_buckets l k = Some b \<Longrightarrow> bk_lastSeen b \<le> v" "\<And>t. Request t k \<in> set es \<Longrightarrow> t \<le> v"
  shows "lim_buckets (lim_run ttl es l) k = Some b \<Longrightarrow> bk_lastSeen b \<le> v"
  using assms
proof (induction es arbitrary: l)
  case (Cons e es)
  have "bk_lastSeen c \<le> v" if "lim_buckets (lim_step ttl e l) k = Some c" for c
    using that Cons.prems(2,3)
    by (cases e) (auto simp: Allow_def lim_sweep_def Let_def split: if_splits option.splits)
  then show ?case using Cons.IH [of "lim_step ttl e l"] Cons.prems(1,3) by (simp add: lim_run_def)
qed (simp add: lim_run_def)

lemma allowed_after_minute:
  assumes "lim_inv pm B u l" "1 \<le> pm" "1 \<le> B" "\<And>b. lim_buckets l k = Some b \<Longrightarrow> bk_lastSeen b + nsMinute \<le> u"
  shows "fst (fst (Allow u k l))"
proof (cases "lim_buckets l k")
  case None
  then show ?thesis using assms by (simp add: Allow_def refill_def lim_inv_def)
next
  case (Some b)
  have b: "0 \<le> bk_tokens b" using assms(1) Some by (auto simp: lim_inv_def)
  have "nsMinute \<le> time_Sub u (bk_lastSeen b)" using assms(4) [OF Some] by (simp add: time_Sub_def)
  then have "1 \<le> fl (Seconds (time_Sub u (bk_lastSeen b)) * lim_rate l)"
    using minute_refill [OF assms(2)] assms(1) by (simp add: lim_inv_def)
  then have "1 \<le> fl (bk_tokens b + fl (Seconds (time_Sub u (bk_lastSeen b)) * lim_rate l))"
    using b fl.rnd_ge_int [of 1] by simp
  then show ?thesis using assms(1,3) Some by (simp add: Allow_def refill_def Let_def minF_def lim_inv_def)
qed

lemma burst_served:
  assumes "lim_burst l = of_int B" "0 \<le> m" "m \<le> B" "B \<le> 2 ^ 53" "lim_buckets l k = Some \<lparr>bk_tokens = of_int m, bk_lastSeen = t\<rparr>"
  shows "served ttl k (replicate n (Request t k)) l = min n (nat m)"
  using assms
proof (induction n arbitrary: m l)
  case (Suc n)
  have s0: "Seconds (time_Sub t t) = 0" by (simp add: time_Sub_def Seconds_def)
  have m: "fl (of_int m) = of_int m" using Suc.prems by (intro fl_of_int) simp
  have b: "refill t l (lim_buckets l k) = \<lparr>bk_tokens = of_int m, bk_lastSeen = t\<rparr>"
    using Suc.prems s0 m by (simp add: refill_def minF_def)
  show ?case
  proof (cases "m = 0")
    case True
    then have "snd (Allow t k l) = l" using b Suc.prems(5) by (cases l) (auto simp: Allow_def Let_def)
    then show ?thesis using True b Suc.IH [OF Suc.prems] by (simp add: Allow_def)
  next
    case False
    have m1: "fl (of_int m - 1) = of_int (m - 1)" using fl_of_int [of "m - 1"] Suc.prems by simp
    have "served ttl k (replicate n (Request t k)) (snd (Allow t k l)) = min n (nat (m - 1))"
      using Suc.prems False b m1 by (intro Suc.IH) (auto simp: Allow_def Let_def)
    then show ?thesis using False b Suc.prems(2) by (simp add: Allow_def)
  qed
qed simp

lemma burst_state:
  assumes "lim_burst l = of_int B" "int n \<le> m" "m \<le> B" "B \<le> 2 ^ 53" "lim_buckets l k = Some \<lparr>bk_tokens = of_int m, bk_lastSeen = t\<rparr>"
  shows "lim_run ttl (replicate n (Request t k)) l =
    l\<lparr>lim_buckets := (lim_buckets l)(k \<mapsto> \<lparr>bk_tokens = of_int (m - int n), bk_lastSeen = t\<rparr>)\<rparr>"
  using assms
proof (induction n arbitrary: m l)
  case 0
  then show ?case by (cases l) (auto simp: lim_run_def)
next
  case (Suc n)
  have s0: "Seconds (time_Sub t t) = 0" by (simp add: time_Sub_def Seconds_def)
  have m: "fl (of_int m) = of_int m" "fl (of_int m - 1) = of_int (m - 1)"
    using fl_of_int [of m] fl_of_int [of "m - 1"] Suc.prems by simp_all
  let ?l = "l\<lparr>lim_buckets := (lim_buckets l)(k \<mapsto> \<lparr>bk_tokens = of_int (m - 1), bk_lastSeen = t\<rparr>)\<rparr>"
  have "snd (Allow t k l) = ?l" using Suc.prems s0 m by (simp add: Allow_def refill_def minF_def Let_def)
  moreover have "lim_run ttl (replicate n (Request t k)) ?l =
      ?l\<lparr>lim_buckets := (lim_buckets ?l)(k \<mapsto> \<lparr>bk_tokens = of_int (m - 1 - int n), bk_lastSeen = t\<rparr>)\<rparr>"
    using Suc.prems by (intro Suc.IH) auto
  ultimately show ?case by (simp add: lim_run_def diff_diff_eq fun_upd_def cong: if_cong)
qed

lemma New_burst:
  assumes "1 \<le> B" "B \<le> 2 ^ 53"
  shows "served ttl k (replicate n (Request t k)) (lim_New pm B) = min n (nat B)"
proof (cases n)
  case (Suc m)
  have b: "fl (of_int B) = of_int B" "fl (of_int B - 1) = of_int (B - 1)"
    using fl_of_int [of B] fl_of_int [of "B - 1"] assms by simp_all
  let ?l = "snd (Allow t k (lim_New pm B))"
  have "fst (fst (Allow t k (lim_New pm B)))" "lim_burst ?l = of_int B"
      "lim_buckets ?l k = Some \<lparr>bk_tokens = of_int (B - 1), bk_lastSeen = t\<rparr>"
    using assms b by (simp_all add: Allow_def refill_def lim_New_def Let_def)
  then show ?thesis using burst_served [of ?l B "B - 1" k t ttl m] assms Suc by simp
qed simp

section \<open>Clients that choose their key\<close>

text \<open>Requests through the middleware, one after the other.\<close>

fun lim_serve :: "(request \<Rightarrow> string) \<Rightarrow> (request \<Rightarrow> 'a) \<Rightarrow> (gotime \<times> request) list \<Rightarrow> Limiter \<Rightarrow> 'a limited list" where
  "lim_serve key nxt [] l = []"
| "lim_serve key nxt ((t, r) # rs) l = (case lim_Middleware key nxt t r l of (a, l') \<Rightarrow> a # lim_serve key nxt rs l')"

lemma Middleware_fresh:
  assumes "1 \<le> lim_burst l" "lim_buckets l (key r) = None"
  shows "fst (lim_Middleware key nxt t r l) = Served (nxt r)"
    and "lim_burst (snd (lim_Middleware key nxt t r l)) = lim_burst l"
    and "k \<noteq> key r \<Longrightarrow> lim_buckets (snd (lim_Middleware key nxt t r l)) k = lim_buckets l k"
  using assms by (simp_all add: lim_Middleware_def Allow_def refill_def Let_def)

lemma distinct_keys_served:
  assumes "1 \<le> lim_burst l" "distinct (map (key \<circ> snd) rs)" "\<forall>x \<in> set rs. lim_buckets l (key (snd x)) = None"
  shows "lim_serve key nxt rs l = map (Served \<circ> nxt \<circ> snd) rs"
  using assms
proof (induction rs arbitrary: l)
  case (Cons x rs)
  obtain t r where x: "x = (t, r)" by (cases x)
  obtain a l' where a: "lim_Middleware key nxt t r l = (a, l')" by (cases "lim_Middleware key nxt t r l")
  have free: "lim_buckets l (key r) = None" using Cons.prems(3) x by simp
  note m = Middleware_fresh [where l = l and key = key and r = r and nxt = nxt and t = t, OF Cons.prems(1) free, unfolded a, simplified]
  have "lim_serve key nxt rs l' = map (Served \<circ> nxt \<circ> snd) rs"
  proof (rule Cons.IH)
    show "\<forall>y \<in> set rs. lim_buckets l' (key (snd y)) = None"
    proof
      fix y
      assume y: "y \<in> set rs"
      then have "key (snd y) \<noteq> key r" using Cons.prems(2) x by force
      then show "lim_buckets l' (key (snd y)) = None" using m(3) Cons.prems(3) y by simp
    qed
  qed (use Cons.prems m(2) in simp_all)
  then show ?case using a m(1) by (simp add: x)
qed simp

definition header_text :: "string \<Rightarrow> bool" where
  "header_text s = (s \<noteq> [] \<and> (\<forall>c \<in> set s. printable c \<and> c \<noteq> CHR '',''))"

lemma ClientIP_forged: "header_text s \<Longrightarrow> ClientIP (r\<lparr>rq_XForwardedFor := s\<rparr>) = s"
  by (auto simp: ClientIP_def header_text_def TrimSpace_printable)

section \<open>The limiter of the sign-in pages\<close>

lemma auth_burst:
  "lim_run ttl (replicate 10 (Request 0 k)) authLimiter =
   authLimiter\<lparr>lim_buckets := [k \<mapsto> \<lparr>bk_tokens = 0, bk_lastSeen = 0\<rparr>]\<rparr>"
proof -
  let ?l = "authLimiter\<lparr>lim_buckets := [k \<mapsto> \<lparr>bk_tokens = of_int 9, bk_lastSeen = 0\<rparr>]\<rparr>"
  have "fl 10 = 10" "fl 9 = 9" using fl_of_int [of 10] fl_of_int [of 9] by simp_all
  then have 1: "snd (Allow 0 k authLimiter) = ?l" and b: "lim_burst ?l = of_int 10"
    by (simp_all add: authLimiter_def lim_New_def Allow_def refill_def Let_def)
  have "lim_run ttl (replicate 9 (Request 0 k)) ?l =
      ?l\<lparr>lim_buckets := (lim_buckets ?l)(k \<mapsto> \<lparr>bk_tokens = of_int (9 - int 9), bk_lastSeen = 0\<rparr>)\<rparr>"
    using b by (intro burst_state [where B = 10]) simp_all
  with 1 show ?thesis by (simp add: lim_run_def numeral_eq_Suc)
qed

definition half_second :: bucket where
  "half_second = \<lparr>bk_tokens = 6004799503160661/36028797018963968, bk_lastSeen = 500000000\<rparr>"

lemma auth_refill:
  "refill 500000000 (authLimiter\<lparr>lim_buckets := m\<rparr>) (Some \<lparr>bk_tokens = 0, bk_lastSeen = 0\<rparr>) = half_second"
  "refill 2500000000 (authLimiter\<lparr>lim_buckets := m\<rparr>) (Some half_second) = \<lparr>bk_tokens = 3752999689475413/4503599627370496, bk_lastSeen = 2500000000\<rparr>"
  by code_simp+

lemma auth_waits:
  "\<not> 1 \<le> bk_tokens half_second"
  "trunc_int (fl (fl (fl (1 - bk_tokens half_second) / lim_rate authLimiter) * 1000000000)) = 2500000000"
  "trunc_int (fl (fl (fl (1 - 3752999689475413/4503599627370496) / lim_rate authLimiter) * 1000000000)) = 500000000"
  "trunc_int (Seconds 2500000000) = 2" "trunc_int (Seconds 500000000) = 0"
  by code_simp+


section \<open>Properties\<close>

text \<open>
  Rate limits hold in floating-point arithmetic: in every run of requests under any keys and rounds of the
  sweeper between two instants, a key is granted at most the burst and the rate times the time between them, up to a
  relative error of \<open>2 ^ -50\<close> and \<open>2 ^ -52\<close> of the burst per event. For this the sweeper must not forget a bucket before it is
  full again, which the server's four limiters satisfy.
\<close>

theorem rate_limit_bound:
  assumes "1 \<le> perMinute" "1 \<le> burst" "burst \<le> 2 ^ 53" "burst * nsMinute \<le> perMinute * ttl"
    and "sorted (map ev_time es)" "\<forall>e \<in> set es. t \<le> ev_time e \<and> ev_time e \<le> u" "t \<le> u"
  shows "of_nat (served ttl k es (lim_New perMinute burst)) \<le>
    of_int burst + of_int perMinute * of_int (u - t) / 60000000000 * (1 + 1 / 2 ^ 50) + of_nat (length es) * of_int burst / (2 ^ 52 :: rat)"
  using assms by (rule rate_kept)

text \<open>
  The witness: twelve requests at one instant at the server's limiter for sign-in, whose bound of ten is reached; the
  other three limiters satisfy the hypotheses too.
\<close>

theorem rate_limit_bound_witness:
  "served limiterTTL ''ip:a'' (replicate 12 (Request 0 ''ip:a'')) authLimiter = 10 \<and>
   of_nat 10 \<le> 10 + of_int 20 * 0 / 60000000000 * (1 + 1 / 2 ^ 50) + of_nat 12 * 10 / (2 ^ 52 :: rat) \<and>
   (\<forall>(p, b) \<in> {(20, 10), (300, 100), (60, 60), (120, 60)}. b * nsMinute \<le> p * limiterTTL)"
proof -
  have s: "served limiterTTL ''ip:a'' (replicate 12 (Request 0 ''ip:a'')) authLimiter = 10" unfolding authLimiter_def by (subst New_burst) simp_all
  have "of_nat (served limiterTTL ''ip:a'' (replicate 12 (Request 0 ''ip:a'')) (lim_New 20 10)) \<le>
      of_int 10 + of_int 20 * of_int (0 - 0) / 60000000000 * (1 + 1 / 2 ^ 50) + of_nat (length (replicate 12 (Request 0 ''ip:a''))) * of_int 10 / (2 ^ 52 :: rat)"
    by (rule rate_limit_bound) (simp_all add: limiterTTL_def)
  then have "of_nat 10 \<le> 10 + of_int 20 * 0 / 60000000000 * (1 + 1 / 2 ^ 50) + of_nat 12 * 10 / (2 ^ 52 :: rat)"
    using s unfolding authLimiter_def by simp
  with s show ?thesis by (simp add: limiterTTL_def)
qed

text \<open>
  A fresh key may burst: of any number of requests at one instant exactly the first \<open>burst\<close> are granted.
\<close>

theorem burst_exact:
  assumes "1 \<le> burst" "burst \<le> 2 ^ 53"
  shows "served ttl k (replicate n (Request t k)) (lim_New perMinute burst) = min n (nat burst)"
  using assms by (rule New_burst)

text \<open>
  No key stays locked out: whatever happened before, a request under a key that was not used for a minute is granted by every
  limiter, rounding included.
\<close>

theorem served_after_a_minute:
  assumes "1 \<le> perMinute" "1 \<le> burst" "burst \<le> 2 ^ 53"
    and "sorted (map ev_time (es @ [Request u k]))" "\<forall>t. Request t k \<in> set es \<longrightarrow> t + nsMinute \<le> u"
  shows "fst (fst (Allow u k (lim_run ttl es (lim_New perMinute burst))))"
proof (rule allowed_after_minute [OF _ assms(1,2)])
  define t where "t = (case es of [] \<Rightarrow> u | e # _ \<Rightarrow> ev_time e)"
  have "\<forall>e \<in> set es. t \<le> ev_time e \<and> ev_time e \<le> u" "t \<le> u" "sorted (map ev_time es)"
    using assms(4) by (auto simp: t_def sorted_append split: list.split)
  then show "lim_inv perMinute burst u (lim_run ttl es (lim_New perMinute burst))"
    using assms lim_New_inv(1) [OF assms(1-3)] by (intro run_inv)
  show "bk_lastSeen b + nsMinute \<le> u" if "lim_buckets (lim_run ttl es (lim_New perMinute burst)) k = Some b" for b
  proof -
    have "lim_buckets (lim_New perMinute burst) k = None" by (simp add: lim_New_def Let_def)
    then show ?thesis using run_last [of "lim_New perMinute burst" k "u - nsMinute" es ttl b] that assms(5) by fastforce
  qed
qed

text \<open>
  The header \<open>Retry-After\<close> is rounded down: a client of the sign-in pages that used its burst and asks again after half a
  second is told to wait two seconds, and is refused again when it did.
\<close>

theorem retry_after_too_early:
  "(let l = lim_run limiterTTL (replicate 10 (Request 0 ''ip:'')) authLimiter;
        r = \<lparr>rq_Cookie = None, rq_XForwardedFor = [], rq_RemoteAddr = [], rq_UserAgent = [], rq_Host = [], rq_TLS = True, rq_XForwardedProto = []\<rparr>
    in lim_serve clientIPKey id [(500000000, r), (500000000 + 2 * nsSecond, r)] l) = [RateLimited 2, RateLimited 1]"
proof -
  have k: "clientIPKey \<lparr>rq_Cookie = None, rq_XForwardedFor = [], rq_RemoteAddr = [], rq_UserAgent = [], rq_Host = [], rq_TLS = True, rq_XForwardedProto = []\<rparr> = ''ip:''"
    by code_simp
  show ?thesis unfolding auth_burst Let_def by (simp add: lim_Middleware_def k Allow_def Let_def auth_refill auth_waits [simplified])
qed

text \<open>
  The limit per address does not bind a client that forges the header \<open>X-Forwarded-For\<close>: any number of requests with
  distinct values there is granted at once.
\<close>

theorem limiter_bypass:
  assumes "1 \<le> burst" "burst \<le> 2 ^ 53" "distinct xs" "\<forall>x \<in> set xs. header_text x"
  shows "lim_serve clientIPKey nxt (map (\<lambda>x. (t, r\<lparr>rq_XForwardedFor := x\<rparr>)) xs) (lim_New perMinute burst) =
         map (\<lambda>x. Served (nxt (r\<lparr>rq_XForwardedFor := x\<rparr>))) xs"
proof -
  let ?rs = "map (\<lambda>x. (t, r\<lparr>rq_XForwardedFor := x\<rparr>)) xs"
  have "map (clientIPKey \<circ> snd) ?rs = map (\<lambda>x. ''ip:'' @ x) xs" using assms(4) by (simp add: clientIPKey_def ClientIP_forged)
  moreover have "distinct (map (\<lambda>x. ''ip:'' @ x) xs)" using assms(3) by (simp add: distinct_map inj_on_def)
  ultimately have "distinct (map (clientIPKey \<circ> snd) ?rs)" by metis
  moreover have "1 \<le> lim_burst (lim_New perMinute burst)" using assms fl_of_int [of burst] by (simp add: lim_New_def Let_def)
  ultimately have "lim_serve clientIPKey nxt ?rs (lim_New perMinute burst) = map (Served \<circ> nxt \<circ> snd) ?rs"
    by (intro distinct_keys_served) (simp_all add: lim_New_def Let_def)
  then show ?thesis by (simp add: comp_def)
qed


end
