(* ===== verification/Spec2Isabelle.thy ===== *)
theory Spec2Isabelle
  imports Plan_Limits Rbac Drill_Store Assertions Runner Drill_Steps Drill_Run Evidence_Sign Evidence_Service Drill_Evidence
    Heartbeat_Monitors Scheduler Totp Passwords Account_Ownership Audit_Views Sign_In_Limits Drill_Requests Token_Web Webhook_Delivery Billing Erasure Retention Rate_Limit
begin

text \<open>
  \<^bold>\<open>Dokaz: a verification development\<close>

  Dokaz verifies backups. A \<^emph>\<open>target\<close> names a PostgreSQL dump; a \<^emph>\<open>drill\<close> restores the dump into a
  fresh sandbox, runs the target's \<^emph>\<open>assertions\<close> there, writes a signed and encrypted PDF as
  \<^emph>\<open>evidence\<close> and removes the sandbox. Around this core are accounts with plans and roles, a
  scheduler for drills, and heartbeat monitors for the backup jobs themselves. The program is a
  Go server over PostgreSQL with the job queue River; its code is under \<open>src/internal\<close>.

  \<^bold>\<open>Parts and how they interact.\<close> The scheduler (or a handler) creates a drill in the drill store
  under an idempotency key and enqueues its first job. Six workers pass the drill on, each reading
  and writing the store, calling the sandbox runner and enqueueing its successor: provision,
  fetch, restore, assert, report, teardown. The report worker hands the PDF to the evidence
  service, which hashes, signs and encrypts it and puts it into an object store. Access control
  and plan limits guard the entries. Heartbeat monitors have their own store and sweeper. People reach
  the program through web forms behind sign-in, programs through the REST API with keys, the mobile app with its own tokens
  and auditors through share links; all of these call the same stores. Finished drills leave the system as deliveries to
  the customer's webhooks. The payment provider reports paid plans through its events, and a deleted account is erased
  from all stores by a job.

  \<^bold>\<open>Theories.\<close>
  \<^item> \<open>Prelude\<close>: identifiers, instants (nanoseconds as \<open>int\<close>), tables as lists of rows with
    \<open>SELECT\<close>, \<open>UPDATE\<close> and \<open>DELETE\<close> on them, decimal and hexadecimal printing, and the lemmas shared by all.
  \<^item> \<open>Plan_Limits\<close> (\<open>account/limits.go\<close>, \<open>account/trial.go\<close>, the types of \<open>account/store.go\<close>): plan caps,
    cadences, trial window.
  \<^item> \<open>Rbac\<close> (\<open>auth/rbac.go\<close>): roles, actions, the matrix, the middleware.
  \<^item> \<open>Drill_Store\<close> (\<open>drill/store.go\<close>, \<open>bundle.go\<close>, \<open>readiness.go\<close>): every table operation on targets, drills,
    steps, assertions and keys, with the constraints of the schema. Lemmas: an invariant of
    keys, references, statuses and times kept by every operation (\<open>store_step\<close>), idempotent creation, the tenant
    boundary, and complete paging from the locale \<open>keyset_pages\<close>, interpreted for targets and drills.
  \<^item> \<open>Go_Float\<close>: \<open>float64\<close> as the rational number it denotes and the rounding to nearest even after each operation. Locale \<open>rounding\<close>: what
    bounds on computed numbers need of it, interpreted for the rounding function.
  \<^item> \<open>Assertions\<close> (\<open>assertions/assertions.go\<close>): configuration checks with numbers converted from \<open>float64\<close>, the read-only scan against a
    specification over the characters of the query, the five kinds of assertion.
  \<^item> \<open>Faults\<close>: procedures whose external calls can fail before or after their effect or be cut by a
    crash, with triples and invariants over all faults.
  \<^item> \<open>Runner\<close> (\<open>runner/*.go\<close>, \<open>fly/fly.go\<close>): the local and the Fly runner and the HTTP client. The
    locale \<open>sandbox_runner\<close> is the contract the workers rely on; the local runner is its interpretation.
  \<^item> \<open>Drill_Steps\<close> (\<open>drill/orchestrator.go\<close>, \<open>drill/steps/steps.go\<close>): the orchestrator and the six workers over
    the record \<open>world\<close>, and \<open>system_step\<close>, the step relation of the whole pipeline in which jobs run
    in any order and number, with any faults. Locale \<open>evidence_service\<close>: what the workers
    rely on of the evidence service.
  \<^item> \<open>Drill_Run\<close>: what each worker does in a run without faults, and that such runs are runs of \<open>system_step\<close>.
  \<^item> \<open>Evidence_Sign\<close> (\<open>evidence/sign.go\<close>, \<open>cmd/dokaz-verify\<close>): signatures, key rotation, the
    standalone verifier.
  \<^item> \<open>Evidence_Service\<close> (\<open>evidence/store.go\<close>, \<open>cipher.go\<close>, \<open>service.go\<close>): object stores, account keys and their
    wrapping, finalizing, verifying, reading, retention and shredding. Locale \<open>object_store\<close>, interpreted for the local store.
  \<^item> \<open>Drill_Evidence\<close>: the pipeline composed with the evidence service (interpretation \<open>disk_evidence\<close>), a drill from
    end to end, and what a succeeded or failed drill implies in every reachable state.
  \<^item> \<open>Scheduler\<close> (\<open>drill/scheduler.go\<close>): the periodic job, slots and downshifts.
  \<^item> \<open>Heartbeat_Monitors\<close> (\<open>heartbeat/store.go\<close>, \<open>sweeper.go\<close>): monitors as a state machine, pings, the sweep and its alerts.
  \<^item> \<open>Go_Text\<close>: the functions of Go's \<open>strings\<close> and \<open>strconv\<close> that the code below uses.
  \<^item> \<open>Audit_Log\<close> (\<open>audit/log.go\<close>): recording an event, the client's address.
  \<^item> \<open>Audit_Views\<close> (\<open>audit/log.go\<close>, \<open>web/handlers/audit_viewer.go\<close>, \<open>v1_alerts.go\<close>): the listings and the two
    pages over them, complete by a further interpretation of \<open>keyset_pages\<close>.
  \<^item> \<open>Accounts\<close> (\<open>account/store.go\<close>, \<open>team.go\<close>): accounts, memberships, invitations, subscriptions and teams.
  \<^item> \<open>Account_Web\<close> (\<open>web/handlers/account.go\<close>, \<open>teams.go\<close>, \<open>plan.go\<close>): the handlers that change them.
  \<^item> \<open>Account_Ownership\<close>: the step relation \<open>acct_step\<close> of the account store and \<open>shared_step\<close>, where the check and the writes of an ownership transfer
    are steps of their own, their invariant (each account has an owner),
    invitations that are used once, and two ways around the rules on owners.
  \<^item> \<open>Totp\<close> (\<open>auth/totp.go\<close>): one-time codes on 32-bit words against the arithmetic of RFC 4226.
  \<^item> \<open>Passwords\<close> (\<open>auth/password.go\<close>): hashes of passwords, printed and scanned.
  \<^item> \<open>Sign_In\<close> (\<open>auth/session.go\<close>, \<open>mfa.go\<close>, \<open>throttle.go\<close>, \<open>magiclink.go\<close>, \<open>verification.go\<close>): the tables of sessions, codes, links and attempts.
  \<^item> \<open>Sign_In_Web\<close> (\<open>auth/context.go\<close>, \<open>web/handlers/auth.go\<close>, \<open>mfa.go\<close>, \<open>magiclink.go\<close>, \<open>verification.go\<close>, \<open>oauth.go\<close>, \<open>staff_sso.go\<close>, \<open>admin.go\<close>): the
    middleware and every handler that makes, changes or ends a session; \<open>serve\<close> runs a request through both.
  \<^item> \<open>Sign_In_Safety\<close>: runs of requests (\<open>auth_step\<close>), that the second factor cannot be skipped and codes are spent.
  \<^item> \<open>Sign_In_Limits\<close>: the throttle and one-time links (locale \<open>one_time_links\<close>, interpreted for both kinds of link).
  \<^item> \<open>Bearer_Tokens\<close> (\<open>apikey/apikey.go\<close>, \<open>sharelink/sharelink.go\<close>, \<open>mobileauth/mobileauth.go\<close>): the stores of the three kinds of
    bearer token, kept as hashes.
  \<^item> \<open>Source_Paths\<close> (\<open>web/handlers/drills.go\<close>): the check that a source path stays below the allowed root.
  \<^item> \<open>Drill_Web\<close> (\<open>web/handlers/drills.go\<close>, \<open>drill_quota.go\<close>, \<open>onboarding.go\<close>): the forms on databases, assertions and drills,
    the quota and the limit on dump sizes.
  \<^item> \<open>Api_V1\<close> (\<open>web/handlers/v1.go\<close>, \<open>v1_databases.go\<close>, \<open>v1_drills.go\<close>, \<open>v1_heartbeats.go\<close>): keys, scopes, idempotent replies and every endpoint.
  \<^item> \<open>Drill_Requests\<close>: both entries against the store: the quota's window for requests that overlap between their count and their creation, replays under an idempotency key, a drill the
    web form loses, an assertion of another team.
  \<^item> \<open>Token_Web\<close> (\<open>web/handlers/apikeys.go\<close>, \<open>share.go\<close>, \<open>mobile.go\<close>): the handlers on keys, share links and the mobile app.
  \<^item> \<open>Dial_Guard\<close> (\<open>webhooks/worker.go\<close>, \<open>dispatch.go\<close>): which addresses an outgoing connection may reach, on 8-bit words, against address ranges.
  \<^item> \<open>Webhook_Delivery\<close> (\<open>webhooks/store.go\<close>, \<open>dispatch.go\<close>, \<open>sign.go\<close>, \<open>worker.go\<close>, \<open>web/handlers/webhooks.go\<close>): endpoints, the fan-out of an event
    and the delivery job with its retries and the redirects the HTTP client follows.
  \<^item> \<open>Billing\<close> (\<open>billing/*.go\<close>, \<open>web/handlers/billing.go\<close>, the refunds of \<open>admin.go\<close>): requests to the payment provider, its signed events and
    what they do to plans, in any order and number of repetitions.
  \<^item> \<open>Erasure\<close> (\<open>compliance/purge.go\<close>, \<open>web/handlers/compliance.go\<close>): deletion of an account, its grace period and the job that erases it, with faults.
  \<^item> \<open>Retention\<close> (\<open>compliance/retention.go\<close>): the daily sweep of old evidence and logs.
  \<^item> \<open>Rate_Limit\<close> (\<open>ratelimit/ratelimit.go\<close> with the keys of \<open>web/handlers/handlers.go\<close> and \<open>v1.go\<close>): the token buckets in \<open>float64\<close> arithmetic.

  \<^bold>\<open>Conventions.\<close> A Go struct is a record with the source's field names under a short prefix, an error is
  the left side of a sum, a method that writes returns its result with the new state. \<open>now()\<close> and fresh
  identifiers are arguments. The map from definitions to source lines is the manifest \<open>PROJECT.json\<close>.

  \<^bold>\<open>Parameters.\<close> Code outside the repository is an argument: the SHA-256, Ed25519 and AES-GCM functions (record
  of functions with the laws used as named hypotheses: signatures verify, opening inverts sealing and
  fails on other ciphertexts), PostgreSQL and its tools in a sandbox, the Machines API and the S3
  server as transition functions, the PDF renderer, printing and parsing of identifiers, Argon2 and HMAC, the identity
  providers, the payment provider, the receivers of webhooks, the resolution of redirect addresses and of host names, and the decoding of JSON bodies and paging cursors. The
  witnesses instantiate them with concrete functions.

  \<^bold>\<open>Bounds.\<close> No definition uses fuel. Loops of the source are structural recursion; the search for the next
  slot is a function with a termination proof, and the retries of the HTTP client of the Fly runner and the redirects of the webhook client recurse on their
  fixed numbers.

  \<^bold>\<open>Not modelled.\<close> Generated HTML templates (about two fifths of the Go lines) and pages that only render. Texts and transport of mail and push
  messages, the alert channels, tracing, metrics, logging, feature flags and configuration: input and output around the operations
  modelled here. The readiness score only sums up numbers of other stores for a page. The HTTP exchange
  of social sign-in and the request signature of S3 are part of the parameters that stand for those services. The export of an account's data only
  reads rows and prints JSON. The monthly statistics of the drill store group by calendar month inside the database, the layout of the PDF
  is a parameter, and commands and migrations only wire the parts; the constraints of the schema are in the store models.
\<close>

end
